(* ===== verification/Prelude.thy ===== *)
theory Prelude
  imports Main "HOL-Library.List_Lexorder" "HOL-Library.Char_ord"
    "HOL-Library.Option_ord" "HOL-Library.Product_Lexorder"
begin

text \<open>
  What every component of the daemon shares: the fixed-width counters (u64 as naturals with the
  bound written out), \<open>Result\<close> values as sums with Rust's \<open>?\<close> operator, Rust strings as
  UTF-8 byte lists with \<open>trim\<close>, the decimal printing and parsing of \<open>u64\<close>, and
  \<open>BTreeMap\<close> as an association list sorted by key. The ordered map has an interface of its
  own (locale \<open>ordered_map\<close>): the stores' lemmas on event logs are proved against it once.
\<close>

named_theorems btree_simps \<open>lookups in and keys of ordered maps after an update\<close>
named_theorems try_simps \<open>the early-return operator on known results\<close>

section \<open>Unsigned 64-bit counters\<close>

definition u64_max :: nat where
  "u64_max = 2 ^ 64 - 1"

definition u32_max :: nat where
  "u32_max = 2 ^ 32 - 1"

text \<open>\<open>u64::saturating_add\<close>.\<close>

definition sat_add :: "nat \<Rightarrow> nat \<Rightarrow> nat" where
  "sat_add a b = min u64_max (a + b)"

text \<open>\<open>+ 1\<close> on a \<open>u64\<close> in the release profile, which wraps.\<close>

definition wrap_add :: "nat \<Rightarrow> nat \<Rightarrow> nat" where
  "wrap_add a b = (a + b) mod 2 ^ 64"

lemma sat_add_exact: "a + b \<le> u64_max \<Longrightarrow> sat_add a b = a + b"
  by (simp add: sat_add_def)

lemma sat_add_le_max [simp]: "sat_add a b \<le> u64_max"
  by (simp add: sat_add_def)

lemma sat_add_mono: "a \<le> c \<Longrightarrow> sat_add a b \<le> sat_add c b"
  by (simp add: sat_add_def)

lemma sat_add_ge: "a \<le> u64_max \<Longrightarrow> a \<le> sat_add a b"
  by (simp add: sat_add_def)

section \<open>Results and early return\<close>

text \<open>\<open>Result<T, E>\<close>: \<open>Err\<close> on the left, \<open>Ok\<close> on the right of a sum.\<close>

type_synonym ('a, 'e) result = "'e + 'a"

abbreviation Ok :: "'a \<Rightarrow> 'e + 'a" where "Ok \<equiv> Inr"
abbreviation Err :: "'e \<Rightarrow> 'e + 'a" where "Err \<equiv> Inl"

text \<open>\<open>let x = r?; k(x)\<close>.\<close>

definition try_then :: "'e + 'a \<Rightarrow> ('a \<Rightarrow> 'e + 'b) \<Rightarrow> 'e + 'b" where
  "try_then r k = (case r of Inl e \<Rightarrow> Inl e | Inr x \<Rightarrow> k x)"

lemma try_then_simps [simp, try_simps]:
  "try_then (Err e) k = Err e"
  "try_then (Ok x) k = k x"
  by (simp_all add: try_then_def)

lemma try_then_Ok_iff: "try_then r k = Ok y \<longleftrightarrow> (\<exists>x. r = Ok x \<and> k x = Ok y)"
  by (cases r) (auto simp: try_then_def)

lemma try_then_Err_iff: "try_then r k = Err e \<longleftrightarrow> r = Err e \<or> (\<exists>x. r = Ok x \<and> k x = Err e)"
  by (cases r) (auto simp: try_then_def)

definition map_err :: "('e \<Rightarrow> 'f) \<Rightarrow> 'e + 'a \<Rightarrow> 'f + 'a" where
  "map_err f r = (case r of Inl e \<Rightarrow> Err (f e) | Inr x \<Rightarrow> Ok x)"

lemma map_err_simps [simp]: "map_err f (Ok x) = Ok x" "map_err f (Err e) = Err (f e)"
  by (simp_all add: map_err_def)

lemma map_err_Ok_iff [simp]: "map_err f r = Ok x \<longleftrightarrow> r = Ok x"
  by (auto simp: map_err_def split: sum.splits)

definition is_ok :: "'e + 'a \<Rightarrow> bool" where
  "is_ok r \<longleftrightarrow> (case r of Inl _ \<Rightarrow> False | Inr _ \<Rightarrow> True)"

lemma is_ok_simps [simp]: "is_ok (Ok x)" "\<not> is_ok (Err e)"
  by (simp_all add: is_ok_def)

lemma is_ok_iff: "is_ok r \<longleftrightarrow> (\<exists>x. r = Ok x)"
  by (cases r) auto

text \<open>\<open>Option::is_none_or\<close>, \<open>Option::is_some_and\<close> and \<open>Option::or\<close>.\<close>

definition none_or :: "('a \<Rightarrow> bool) \<Rightarrow> 'a option \<Rightarrow> bool" where
  "none_or p x = (case x of None \<Rightarrow> True | Some v \<Rightarrow> p v)"

definition some_and :: "('a \<Rightarrow> bool) \<Rightarrow> 'a option \<Rightarrow> bool" where
  "some_and p x = (case x of None \<Rightarrow> False | Some v \<Rightarrow> p v)"

definition unwrap_or :: "'a option \<Rightarrow> 'a \<Rightarrow> 'a" where
  "unwrap_or x d = (case x of None \<Rightarrow> d | Some v \<Rightarrow> v)"

lemma unwrap_or_simps [simp]: "unwrap_or None d = d" "unwrap_or (Some v) d = v"
  by (simp_all add: unwrap_or_def)

definition opt_or :: "'a option \<Rightarrow> 'a option \<Rightarrow> 'a option" where
  "opt_or x y = (case x of None \<Rightarrow> y | Some v \<Rightarrow> Some v)"

lemma opt_helpers [simp]:
  "none_or p None" "none_or p (Some v) = p v"
  "\<not> some_and p None" "some_and p (Some v) = p v"
  "opt_or None y = y" "opt_or (Some v) y = Some v"
  by (simp_all add: none_or_def some_and_def opt_or_def)

section \<open>Rust strings\<close>

text \<open>
  A \<open>String\<close> is the list of its UTF-8 bytes. \<open>white_space\<close> lists the encodings of the
  code points with the Unicode property White\_Space, which \<open>str::trim\<close> removes.
\<close>

definition white_space :: "string list" where
  "white_space =
     [[CHR 0x09], [CHR 0x0A], [CHR 0x0B], [CHR 0x0C], [CHR 0x0D], [CHR 0x20],
      [CHR 0xC2, CHR 0x85], [CHR 0xC2, CHR 0xA0], [CHR 0xE1, CHR 0x9A, CHR 0x80],
      [CHR 0xE2, CHR 0x80, CHR 0x80], [CHR 0xE2, CHR 0x80, CHR 0x81],
      [CHR 0xE2, CHR 0x80, CHR 0x82], [CHR 0xE2, CHR 0x80, CHR 0x83],
      [CHR 0xE2, CHR 0x80, CHR 0x84], [CHR 0xE2, CHR 0x80, CHR 0x85],
      [CHR 0xE2, CHR 0x80, CHR 0x86], [CHR 0xE2, CHR 0x80, CHR 0x87],
      [CHR 0xE2, CHR 0x80, CHR 0x88], [CHR 0xE2, CHR 0x80, CHR 0x89],
      [CHR 0xE2, CHR 0x80, CHR 0x8A], [CHR 0xE2, CHR 0x80, CHR 0xA8],
      [CHR 0xE2, CHR 0x80, CHR 0xA9], [CHR 0xE2, CHR 0x80, CHR 0xAF],
      [CHR 0xE2, CHR 0x81, CHR 0x9F], [CHR 0xE3, CHR 0x80, CHR 0x80]]"

text \<open>How many bytes of the front of \<open>s\<close> are one of the given encodings (0: none).\<close>

fun lead_len :: "string list \<Rightarrow> string \<Rightarrow> nat" where
  "lead_len [] s = 0"
| "lead_len (w # ws) s = (if w \<noteq> [] \<and> take (length w) s = w then length w else lead_len ws s)"

lemma lead_len_pos: "0 < lead_len ws s \<Longrightarrow> s \<noteq> []"
  by (induction ws) (auto split: if_splits)

function strip_lead :: "string list \<Rightarrow> string \<Rightarrow> string" where
  "strip_lead ws s = (if lead_len ws s = 0 then s else strip_lead ws (drop (lead_len ws s) s))"
  by pat_completeness auto
termination
  by (relation "measure (\<lambda>(ws, s). length s)") (use lead_len_pos in fastforce)+

declare strip_lead.simps [simp del]

definition trim_start :: "string \<Rightarrow> string" where
  "trim_start s = strip_lead white_space s"

definition trim_end :: "string \<Rightarrow> string" where
  "trim_end s = rev (strip_lead (map rev white_space) (rev s))"

definition trim :: "string \<Rightarrow> string" where
  "trim s = trim_end (trim_start s)"

text \<open>\<open>value.trim().is_empty()\<close>, the test of every identifier constructor.\<close>

definition blank :: "string \<Rightarrow> bool" where
  "blank s \<longleftrightarrow> trim s = []"

lemma lead_len_strip [simp]: "lead_len ws (strip_lead ws s) = 0"
  by (induction ws s rule: strip_lead.induct) (subst strip_lead.simps, simp)

lemma strip_lead_fixed: "lead_len ws s = 0 \<Longrightarrow> strip_lead ws s = s"
  by (subst strip_lead.simps) simp

lemma strip_lead_idem [simp]: "strip_lead ws (strip_lead ws s) = strip_lead ws s"
  by (rule strip_lead_fixed) simp

lemma strip_lead_suffix: "\<exists>p. s = p @ strip_lead ws s"
proof (induction ws s rule: strip_lead.induct)
  case (1 ws s)
  show ?case
  proof (cases "lead_len ws s = 0")
    case True
    then show ?thesis by (simp add: strip_lead_fixed)
  next
    case False
    with 1 obtain p where "drop (lead_len ws s) s = p @ strip_lead ws (drop (lead_len ws s) s)"
      by blast
    then have "s = (take (lead_len ws s) s @ p) @ strip_lead ws (drop (lead_len ws s) s)"
      by (metis append_assoc append_take_drop_id)
    with False show ?thesis by (subst strip_lead.simps) (simp, metis append_assoc)
  qed
qed

lemma lead_len_zero_prefix: "lead_len ws (p @ q) = 0 \<Longrightarrow> lead_len ws p = 0"
  by (induction ws) (auto split: if_splits simp: take_Cons' take_append)

lemma trim_end_prefix: "\<exists>q. s = trim_end s @ q"
proof -
  obtain p where "rev s = p @ strip_lead (map rev white_space) (rev s)"
    using strip_lead_suffix by blast
  then have "s = rev (strip_lead (map rev white_space) (rev s)) @ rev p"
    by (metis rev_append rev_rev_ident)
  then show ?thesis unfolding trim_end_def by blast
qed

lemma trim_end_idem [simp]: "trim_end (trim_end s) = trim_end s"
  by (simp add: trim_end_def)

lemma trim_idem [simp]: "trim (trim s) = trim s"
proof -
  obtain q where "trim_start s = trim s @ q"
    using trim_end_prefix unfolding trim_def by blast
  then have "lead_len white_space (trim s) = 0"
    by (metis lead_len_strip lead_len_zero_prefix trim_start_def)
  then have "trim_start (trim s) = trim s"
    by (simp add: trim_start_def strip_lead_fixed)
  then show ?thesis by (simp add: trim_def)
qed

lemma not_blank_trim: "\<not> blank s \<Longrightarrow> \<not> blank (trim s)"
  by (simp add: blank_def)

section \<open>Decimal printing and parsing of u64\<close>

definition digit_char :: "nat \<Rightarrow> char" where
  "digit_char d = char_of (48 + d)"

text \<open>\<open>u64::to_string\<close>.\<close>

fun dec :: "nat \<Rightarrow> string" where
  "dec n = (if n < 10 then [digit_char n] else dec (n div 10) @ [digit_char (n mod 10)])"

declare dec.simps [simp del]

definition digit_val :: "char \<Rightarrow> nat option" where
  "digit_val c =
     (if 48 \<le> (of_char c :: nat) \<and> (of_char c :: nat) \<le> 57 then Some (of_char c - 48) else None)"

fun parse_digits :: "nat \<Rightarrow> string \<Rightarrow> nat option" where
  "parse_digits acc [] = Some acc"
| "parse_digits acc (c # cs) =
     (case digit_val c of None \<Rightarrow> None
      | Some d \<Rightarrow> if acc * 10 + d \<le> u64_max then parse_digits (acc * 10 + d) cs else None)"

text \<open>
  \<open>str::parse::<u64>\<close>: one leading plus sign is accepted, a lone plus sign and the empty
  string are not, and a value beyond \<open>u64\<close> is an error.
\<close>

definition parse_u64 :: "string \<Rightarrow> nat option" where
  "parse_u64 s =
     (let ds = (case s of [] \<Rightarrow> [] | c # cs \<Rightarrow> if c = CHR ''+'' then cs else s)
      in if ds = [] then None else parse_digits 0 ds)"

lemma digit_val_digit_char: "d < 10 \<Longrightarrow> digit_val (digit_char d) = Some d"
  by (simp add: digit_val_def digit_char_def)

lemma parse_digits_snoc:
  "parse_digits acc (cs @ [c]) =
     Option.bind (parse_digits acc cs) (\<lambda>n. parse_digits n [c])"
  by (induction acc cs rule: parse_digits.induct) (auto split: option.splits)

lemma parse_digits_dec: "n \<le> u64_max \<Longrightarrow> parse_digits 0 (dec n) = Some n"
proof (induction n rule: dec.induct)
  case (1 n)
  show ?case
  proof (cases "n < 10")
    case True
    with 1 show ?thesis by (subst dec.simps) (simp add: digit_val_digit_char)
  next
    case False
    moreover have "n div 10 \<le> u64_max" using 1 by simp
    ultimately show ?thesis using 1
      by (subst dec.simps) (simp add: parse_digits_snoc digit_val_digit_char)
  qed
qed

lemma dec_chars: "c \<in> set (dec n) \<Longrightarrow> \<exists>d<10. c = digit_char d"
proof (induction n rule: dec.induct)
  case (1 n)
  have "\<exists>d<10. digit_char (n mod 10) = digit_char d" by (rule exI [of _ "n mod 10"]) simp
  with 1 show ?case
    by (subst (asm) dec.simps) (auto split: if_splits)
qed

lemma dec_not_Nil [simp]: "dec n \<noteq> []"
  by (subst dec.simps) simp

lemma digit_char_neq: "d < 10 \<Longrightarrow> of_char c < (48::nat) \<or> 57 < (of_char c :: nat) \<Longrightarrow> digit_char d \<noteq> c"
  by (auto simp: digit_char_def)

lemma parse_u64_dec: "n \<le> u64_max \<Longrightarrow> parse_u64 (dec n) = Some n"
proof -
  assume n: "n \<le> u64_max"
  obtain c cs where d: "dec n = c # cs" by (cases "dec n") auto
  then obtain k where "k < 10" "c = digit_char k" using dec_chars [of c n] by auto
  then have "c \<noteq> CHR ''+''" using digit_char_neq by auto
  with d show ?thesis using parse_digits_dec [OF n] by (simp add: parse_u64_def)
qed

lemma colon_not_in_dec: "CHR '':'' \<notin> set (dec n)"
proof
  assume "CHR '':'' \<in> set (dec n)"
  then obtain d where "d < 10" "CHR '':'' = digit_char d" using dec_chars by blast
  moreover have "57 < (of_char (CHR '':'') :: nat)" by simp
  ultimately show False using digit_char_neq [of d "CHR '':''"] by metis
qed

section \<open>Filtering and sorting\<close>

text \<open>\<open>sort_by(|left, right| key(right).cmp(key(left)))\<close>: stable and descending.\<close>

definition sort_desc :: "('a \<Rightarrow> 'k::linorder) \<Rightarrow> 'a list \<Rightarrow> 'a list" where
  "sort_desc f xs = rev (sort_key f (rev xs))"

lemma set_map_filter: "set (List.map_filter f xs) = {y. \<exists>x\<in>set xs. f x = Some y}"
  by (force simp: List.map_filter_def)

lemma sorted_map_filter:
  assumes "\<And>x y. f x = Some y \<Longrightarrow> fst y = g x" and "sorted_wrt (\<lambda>a b. g a < g b) xs"
  shows "sorted_wrt (<) (map fst (List.map_filter f xs))"
  using assms(2)
proof (induction xs)
  case (Cons x xs)
  have "\<forall>y\<in>set (List.map_filter f xs). \<exists>x'\<in>set xs. f x' = Some y"
    by (auto simp: List.map_filter_def)
  with Cons assms(1) show ?case by (auto simp: map_filter_simps split: option.splits) metis
qed (simp add: map_filter_simps)

lemma map_filter_if: "List.map_filter (\<lambda>x. if p x then Some x else None) xs = filter p xs"
  by (induction xs) (simp_all add: map_filter_simps)

section \<open>Reading a sorted list page by page\<close>

text \<open>
  What follows the last element of a page, in the order of the list, is what the page left out:
  the fact behind every cursor of the daemon.
\<close>

lemma sorted_after_page:
  assumes srt: "sorted_wrt R ys" and asym: "\<And>x y. R x y \<Longrightarrow> \<not> R y x" and ne: "take n ys \<noteq> []"
  shows "filter (R (last (take n ys))) ys = drop n ys"
proof -
  let ?a = "take n ys" let ?b = "drop n ys"
  have ab: "sorted_wrt R ?a" "\<And>x y. x \<in> set ?a \<Longrightarrow> y \<in> set ?b \<Longrightarrow> R x y"
    using srt sorted_wrt_append [of R ?a ?b] by auto
  have "\<not> R (last ?a) x" if "x \<in> set ?a" for x
  proof -
    have "?a = butlast ?a @ [last ?a]" using ne by simp
    then have "x = last ?a \<or> R x (last ?a)"
      using that ab(1) sorted_wrt_append [of R "butlast ?a" "[last ?a]"]
      by (metis Un_iff empty_iff insert_iff list.set(1) list.set(2) set_append)
    then show ?thesis using asym by blast
  qed
  then have "filter (R (last ?a)) ?a = []" by (simp add: filter_empty_conv)
  moreover have "filter (R (last ?a)) ?b = ?b"
    using ab(2) ne by (simp add: filter_id_conv)
  ultimately have "filter (R (last ?a)) (?a @ ?b) = ?b" by (simp only: filter_append append_Nil)
  then show ?thesis by simp
qed

section \<open>BTreeMap\<close>

text \<open>
  A \<open>BTreeMap<K, V>\<close> is the list of its entries in the order of the keys, which is the order
  in which \<open>iter()\<close>, \<open>keys()\<close> and \<open>values()\<close> visit them. \<open>get\<close> is \<open>map_of\<close>.
\<close>

type_synonym ('k, 'v) btree = "('k \<times> 'v) list"

abbreviation bt_get :: "('k, 'v) btree \<Rightarrow> 'k \<Rightarrow> 'v option" where
  "bt_get m k \<equiv> map_of m k"

abbreviation bt_values :: "('k, 'v) btree \<Rightarrow> 'v list" where
  "bt_values m \<equiv> map snd m"

abbreviation bt_keys :: "('k, 'v) btree \<Rightarrow> 'k list" where
  "bt_keys m \<equiv> map fst m"

definition bt_contains :: "('k, 'v) btree \<Rightarrow> 'k \<Rightarrow> bool" where
  "bt_contains m k \<longleftrightarrow> (case bt_get m k of None \<Rightarrow> False | Some _ \<Rightarrow> True)"

definition bt_put :: "'k::linorder \<Rightarrow> 'v \<Rightarrow> ('k, 'v) btree \<Rightarrow> ('k, 'v) btree" where
  "bt_put k v m = filter (\<lambda>e. fst e < k) m @ (k, v) # filter (\<lambda>e. k < fst e) m"

definition bt_del :: "'k \<Rightarrow> ('k, 'v) btree \<Rightarrow> ('k, 'v) btree" where
  "bt_del k m = filter (\<lambda>e. fst e \<noteq> k) m"

text \<open>The invariant of the type: keys strictly ascending.\<close>

definition bt_wf :: "('k::linorder, 'v) btree \<Rightarrow> bool" where
  "bt_wf m \<longleftrightarrow> sorted_wrt (<) (bt_keys m)"

lemma bt_contains_iff: "bt_contains m k \<longleftrightarrow> (\<exists>v. bt_get m k = Some v)"
  by (auto simp: bt_contains_def split: option.splits)

lemma bt_contains_keys: "bt_contains m k \<longleftrightarrow> k \<in> set (bt_keys m)"
  by (simp add: bt_contains_iff) (metis domD domI dom_map_of_conv_image_fst)

lemma map_of_filter_fst: "map_of (filter (\<lambda>e. p (fst e)) m) k = (if p k then map_of m k else None)"
  by (induction m) auto

lemma bt_get_put [btree_simps, simp]: "bt_get (bt_put k v m) k' = (if k' = k then Some v else bt_get m k')"
  using map_of_filter_fst [of "\<lambda>x. x < k" m k'] map_of_filter_fst [of "\<lambda>x. k < x" m k']
  by (auto simp: bt_put_def map_add_def split: option.splits)

lemma bt_get_del [btree_simps, simp]: "bt_get (bt_del k m) k' = (if k' = k then None else bt_get m k')"
  unfolding bt_del_def by (simp add: map_of_filter_fst [of "\<lambda>x. x \<noteq> k"])

lemma bt_contains_put [btree_simps, simp]: "bt_contains (bt_put k v m) k' \<longleftrightarrow> k' = k \<or> bt_contains m k'"
  by (auto simp: bt_contains_iff)

lemma bt_contains_Nil [simp]: "\<not> bt_contains [] k"
  by (simp add: bt_contains_def)

lemma bt_wf_Nil [simp]: "bt_wf []"
  by (simp add: bt_wf_def)

lemma bt_wf_filter: "bt_wf m \<Longrightarrow> bt_wf (filter p m)"
  unfolding bt_wf_def sorted_wrt_map by (rule sorted_wrt_filter)

lemma bt_wf_put [simp]: "bt_wf m \<Longrightarrow> bt_wf (bt_put k v m)"
  using bt_wf_filter [of m] unfolding bt_put_def
  by (fastforce simp: bt_wf_def sorted_wrt_append)

lemma bt_wf_del [simp]: "bt_wf m \<Longrightarrow> bt_wf (bt_del k m)"
  by (simp add: bt_del_def bt_wf_filter)

lemma bt_wf_map_values [simp]: "bt_wf (map (\<lambda>e. (fst e, f e)) m) \<longleftrightarrow> bt_wf m"
  by (simp add: bt_wf_def comp_def)

lemma bt_wf_distinct: "bt_wf m \<Longrightarrow> distinct (bt_keys m)"
  unfolding bt_wf_def by (simp add: strict_sorted_iff)

lemma bt_get_iff: "bt_wf m \<Longrightarrow> bt_get m k = Some v \<longleftrightarrow> (k, v) \<in> set m"
  by (simp add: bt_wf_distinct)

lemma bt_put_last:
  assumes "\<And>k'. k' \<in> set (bt_keys m) \<Longrightarrow> k' < k"
  shows "bt_put k v m = m @ [(k, v)]"
proof -
  have "filter (\<lambda>e. fst e < k) m = m" "filter (\<lambda>e. k < fst e) m = []"
    using assms by (fastforce simp: filter_id_conv filter_empty_conv)+
  then show ?thesis by (simp add: bt_put_def)
qed

lemma bt_get_map_values:
  "bt_get (map (\<lambda>e. (fst e, f (fst e) (snd e))) m) k = map_option (f k) (bt_get m k)"
  by (induction m) auto

text \<open>
  What the stores rely on of an ordered map: the lookup laws, that the updates keep the
  invariant, and that the traversal is sorted and lists exactly the bindings.
\<close>

locale ordered_map =
  fixes mempty :: "'m"
    and mget :: "'m \<Rightarrow> 'k::linorder \<Rightarrow> 'v option"
    and mput :: "'k \<Rightarrow> 'v \<Rightarrow> 'm \<Rightarrow> 'm"
    and mdel :: "'k \<Rightarrow> 'm \<Rightarrow> 'm"
    and mentries :: "'m \<Rightarrow> ('k \<times> 'v) list"
    and minv :: "'m \<Rightarrow> bool"
  assumes mget_empty: "mget mempty k = None"
    and mget_put: "mget (mput k v m) k' = (if k' = k then Some v else mget m k')"
    and mget_del: "mget (mdel k m) k' = (if k' = k then None else mget m k')"
    and minv_empty: "minv mempty"
    and minv_put: "minv m \<Longrightarrow> minv (mput k v m)"
    and minv_del: "minv m \<Longrightarrow> minv (mdel k m)"
    and mentries_sorted: "minv m \<Longrightarrow> sorted_wrt (<) (map fst (mentries m))"
    and mentries_get: "minv m \<Longrightarrow> (k, v) \<in> set (mentries m) \<longleftrightarrow> mget m k = Some v"
begin

lemma mentries_distinct: "minv m \<Longrightarrow> distinct (mentries m)"
  using mentries_sorted [of m] by (simp add: strict_sorted_iff distinct_map)

lemma entries_eqI:
  assumes xs: "sorted_wrt (<) (map fst xs)" and ys: "sorted_wrt (<) (map fst ys)"
    and eq: "set xs = set (ys :: ('k \<times> 'v) list)"
  shows "xs = ys"
proof -
  have keys: "map fst xs = map fst ys"
    using xs ys eq by (intro strict_sorted_equal) auto
  have "distinct (map fst ys)" using ys by (simp add: strict_sorted_iff)
  then have "inj_on fst (set xs \<union> set ys)" using eq by (simp add: distinct_map)
  with keys show ?thesis by (rule map_inj_on)
qed

text \<open>A binding above every key is appended to the traversal: how an event log grows.\<close>

lemma mentries_append:
  assumes m: "minv m" and above: "\<And>k' v'. mget m k' = Some v' \<Longrightarrow> k' < k"
  shows "mentries (mput k v m) = mentries m @ [(k, v)]"
proof (rule entries_eqI)
  have lt: "k' < k" if "(k', v') \<in> set (mentries m)" for k' v'
    using that above mentries_get [OF m] by blast
  show "sorted_wrt (<) (map fst (mentries m @ [(k, v)]))"
    using mentries_sorted [OF m] lt by (auto simp: sorted_wrt_append)
  show "sorted_wrt (<) (map fst (mentries (mput k v m)))"
    by (rule mentries_sorted [OF minv_put [OF m]])
  have "(k', v') \<in> set (mentries (mput k v m)) \<longleftrightarrow> (k', v') \<in> set (mentries m @ [(k, v)])" for k' v'
    using lt [of k'] mentries_get [OF m] mentries_get [OF minv_put [OF m]]
    by (auto simp: mget_put)
  then show "set (mentries (mput k v m)) = set (mentries m @ [(k, v)])" by auto
qed

lemma mentries_fresh_elem:
  assumes "minv m" "mget m k = None"
  shows "set (mentries (mput k v m)) = insert (k, v) (set (mentries m))"
  using assms mentries_get [OF minv_put [OF assms(1)]] mentries_get [OF assms(1)]
  by (fastforce simp: mget_put split: if_splits)

end

interpretation btm: ordered_map "[]" bt_get bt_put bt_del "\<lambda>m. m" bt_wf
  by unfold_locales (auto simp: bt_get_iff bt_wf_def [symmetric])

lemma bt_put_append:
  assumes "bt_wf m" and "\<And>k' v'. bt_get m k' = Some v' \<Longrightarrow> k' < k"
  shows "bt_put k v m = m @ [(k, v)]"
  using assms by (rule btm.mentries_append)

end
