(* ===== verification/OutputContract.thy ===== *)
theory OutputContract
  imports Complex_Main "HOL-Library.Word" Prelude
begin

text \<open>
  The typed results a capsule hands back and their validation against the output contract of
  its run (\<open>crates/ta-protocol/src/wire/output_contract.rs\<close>). A \<open>u32\<close> is a 32-bit word; an
  \<open>f32\<close> is a finite (rational) value, an infinity or NaN. The payload of a custom result is a
  value of the JSON library, of which the program looks at nothing: an uninterpreted type.
\<close>

typedecl json_value

datatype f32 = F32NaN | F32Inf bool | F32 rat

type_synonym u32 = "32 word"
type_synonym receipt_id = string

datatype output_contract_kind = KDebug | KPatch | KReview | KTest | KPlan | KCustom

record debug_result =
  reproduced :: bool
  root_cause :: "string option"
  evidence_receipt_ids :: "receipt_id list"
  patch_receipt_id :: "receipt_id option"
  confidence :: f32
  debug_blockers :: "string list"

record patch_result =
  patch_receipt_ids :: "receipt_id list"
  patch_touched_files :: "string list"
  tests_run_receipt_ids :: "receipt_id list"
  passing :: bool
  patch_blockers :: "string list"

datatype review_verdict = Approve | RequestChanges | NeedsHuman

datatype finding_severity = SevLow | SevMedium | SevHigh | SevCritical

record review_finding =
  severity :: finding_severity
  finding_file :: "string option"
  finding_line :: "u32 option"
  finding_message :: string
  suggestion :: "string option"

record review_result =
  verdict :: review_verdict
  findings :: "review_finding list"
  review_risks :: "string list"
  review_touched_files :: "string list"

record test_result =
  test_total :: u32
  passed :: u32
  failed :: u32
  skipped :: u32
  failed_test_names :: "string list"
  log_receipt_ids :: "receipt_id list"

record plan_step =
  step_title :: string
  step_description :: "string option"
  estimated_minutes :: "u32 option"
  depends_on :: "u32 list"

record plan_result =
  steps :: "plan_step list"
  estimated_total_minutes :: "u32 option"
  plan_risks :: "string list"

datatype capsule_result =
    CapDebug debug_result
  | CapPatch patch_result
  | CapReview review_result
  | CapTest test_result
  | CapPlan plan_result
  | CapCustom json_value

fun contract_kind :: "capsule_result \<Rightarrow> output_contract_kind" where
  "contract_kind (CapDebug _) = KDebug"
| "contract_kind (CapPatch _) = KPatch"
| "contract_kind (CapReview _) = KReview"
| "contract_kind (CapTest _) = KTest"
| "contract_kind (CapPlan _) = KPlan"
| "contract_kind (CapCustom _) = KCustom"

datatype validation_error =
    KindMismatch (vexpected: output_contract_kind) (vgot: output_contract_kind)
  | ConfidenceOutOfRange f32
  | InvalidReceiptId receipt_id
  | TestCountsInconsistent (vtotal: u32) (sum_of_parts: u32)
  | TestCountsOverflow (vpassed: u32) (vfailed: u32) (vskipped: u32)
  | PlanStepDependencyOutOfRange (step_index: u32) (dependency: u32) (total_steps: u32)
  | CustomError string

section \<open>The validators\<close>

definition is_finite :: "f32 \<Rightarrow> bool" where
  "is_finite x = (case x of F32 _ \<Rightarrow> True | _ \<Rightarrow> False)"

text \<open>\<open>(0.0..=1.0).contains(&x)\<close>: both comparisons are false for NaN.\<close>

definition unit_interval :: "f32 \<Rightarrow> bool" where
  "unit_interval x = (case x of F32 q \<Rightarrow> 0 \<le> q \<and> q \<le> 1 | _ \<Rightarrow> False)"

definition validate_debug_result :: "debug_result \<Rightarrow> (unit, validation_error) result" where
  "validate_debug_result r =
     (if \<not> is_finite (confidence r) \<or> \<not> unit_interval (confidence r)
      then Err (ConfidenceOutOfRange (confidence r))
      else if reproduced r \<and> evidence_receipt_ids r = []
      then Err (CustomError ''debug result must include evidence receipts when reproduced is true'')
      else Ok ())"

definition validate_patch_result :: "patch_result \<Rightarrow> (unit, validation_error) result" where
  "validate_patch_result r =
     (if patch_receipt_ids r = []
      then Err (CustomError ''patch result must include at least one patch receipt'')
      else Ok ())"

text \<open>The sum is taken in \<open>u64\<close>, where three \<open>u32\<close> values cannot overflow.\<close>

definition validate_test_result :: "test_result \<Rightarrow> (unit, validation_error) result" where
  "validate_test_result r =
     (let sum = unat (passed r) + unat (failed r) + unat (skipped r)
      in if sum > u32_max then Err (TestCountsOverflow (passed r) (failed r) (skipped r))
         else if sum \<noteq> unat (test_total r) then Err (TestCountsInconsistent (test_total r) (of_nat sum))
         else Ok ())"

definition bounded_usize_to_u32 :: "nat \<Rightarrow> u32" where
  "bounded_usize_to_u32 n = (if n \<le> u32_max then of_nat n else of_nat u32_max)"

fun validate_deps :: "nat \<Rightarrow> nat \<Rightarrow> u32 list \<Rightarrow> (unit, validation_error) result" where
  "validate_deps n i [] = Ok ()"
| "validate_deps n i (d # ds) =
     (if unat d \<ge> n
      then Err (PlanStepDependencyOutOfRange (bounded_usize_to_u32 i) d (bounded_usize_to_u32 n))
      else if unat d = i
      then Err (CustomError (''plan step '' @ dec i @ '' cannot depend on itself''))
      else validate_deps n i ds)"

fun validate_steps :: "nat \<Rightarrow> nat \<Rightarrow> plan_step list \<Rightarrow> (unit, validation_error) result" where
  "validate_steps n i [] = Ok ()"
| "validate_steps n i (s # ss) =
     try_then (validate_deps n i (depends_on s)) (\<lambda>_. validate_steps n (Suc i) ss)"

definition validate_plan_result :: "plan_result \<Rightarrow> (unit, validation_error) result" where
  "validate_plan_result r = validate_steps (length (steps r)) 0 (steps r)"

definition validate_result_against_contract ::
    "output_contract_kind \<Rightarrow> capsule_result \<Rightarrow> (unit, validation_error) result" where
  "validate_result_against_contract contract r =
     (if contract \<noteq> contract_kind r then Err (KindMismatch contract (contract_kind r))
      else (case r of
          CapDebug d \<Rightarrow> validate_debug_result d
        | CapPatch p \<Rightarrow> validate_patch_result p
        | CapReview _ \<Rightarrow> Ok ()
        | CapCustom _ \<Rightarrow> Ok ()
        | CapTest t \<Rightarrow> validate_test_result t
        | CapPlan p \<Rightarrow> validate_plan_result p))"

section \<open>What an accepted result satisfies\<close>

lemma validate_debug_ok:
  "validate_debug_result r = Ok () \<longleftrightarrow>
     (\<exists>q. confidence r = F32 q \<and> 0 \<le> q \<and> q \<le> 1) \<and>
     (reproduced r \<longrightarrow> evidence_receipt_ids r \<noteq> [])"
  by (cases "confidence r") (auto simp: validate_debug_result_def is_finite_def unit_interval_def)

lemma validate_test_ok:
  "validate_test_result r = Ok () \<longleftrightarrow>
     unat (passed r) + unat (failed r) + unat (skipped r) = unat (test_total r)"
proof -
  have "unat (test_total r) \<le> u32_max"
    using unsigned_less [of "test_total r", where ?'a = nat] by (simp add: u32_max_def)
  then show ?thesis by (auto simp: validate_test_result_def Let_def)
qed

lemma validate_deps_ok:
  "validate_deps n i ds = Ok () \<longleftrightarrow> (\<forall>d\<in>set ds. unat d < n \<and> unat d \<noteq> i)"
  by (induction ds) auto

lemma validate_steps_ok:
  "validate_steps n i ss = Ok () \<longleftrightarrow>
     (\<forall>k<length ss. \<forall>d\<in>set (depends_on (ss ! k)). unat d < n \<and> unat d \<noteq> i + k)"
proof (induction ss arbitrary: i)
  case Nil
  then show ?case by simp
next
  case (Cons s ss)
  have "validate_steps n i (s # ss) = Ok () \<longleftrightarrow>
      validate_deps n i (depends_on s) = Ok () \<and> validate_steps n (Suc i) ss = Ok ()"
    by (auto simp: try_then_Ok_iff)
  also have "\<dots> \<longleftrightarrow> (\<forall>k<length (s # ss). \<forall>d\<in>set (depends_on ((s # ss) ! k)).
      unat d < n \<and> unat d \<noteq> i + k)"
    unfolding validate_deps_ok Cons.IH by (auto simp: less_Suc_eq_0_disj)
  finally show ?case .
qed

text \<open>The contract a result of each kind has to meet, as one condition.\<close>

fun meets_contract :: "capsule_result \<Rightarrow> bool" where
  "meets_contract (CapDebug d) =
     ((\<exists>q. confidence d = F32 q \<and> 0 \<le> q \<and> q \<le> 1) \<and>
      (reproduced d \<longrightarrow> evidence_receipt_ids d \<noteq> []))"
| "meets_contract (CapPatch p) = (patch_receipt_ids p \<noteq> [])"
| "meets_contract (CapReview _) = True"
| "meets_contract (CapTest t) =
     (unat (passed t) + unat (failed t) + unat (skipped t) = unat (test_total t))"
| "meets_contract (CapPlan p) =
     (\<forall>k<length (steps p). \<forall>d\<in>set (depends_on (steps p ! k)). unat d < length (steps p) \<and> unat d \<noteq> k)"
| "meets_contract (CapCustom _) = True"

lemma validate_ok_iff:
  "validate_result_against_contract c r = Ok () \<longleftrightarrow> c = contract_kind r \<and> meets_contract r"
  by (cases r)
     (auto simp: validate_result_against_contract_def validate_debug_ok validate_test_ok
        validate_patch_result_def validate_plan_result_def validate_steps_ok)

text \<open>
  A capsule result is accepted exactly when its kind is the kind of the contract and its
  content meets it: a finite confidence between 0 and 1 with evidence for a reproduced bug, at
  least one patch receipt, test counts that add up without overflow, plan dependencies that name
  another step of the plan.
\<close>

theorem validate_accepts_iff_contract:
  "is_ok (validate_result_against_contract c r) = (c = contract_kind r \<and> meets_contract r)"
  using validate_ok_iff [of c r] by (cases "validate_result_against_contract c r") auto

end
