(* ===== verification/Wire.thy ===== *)
theory Wire
  imports OutputContract
begin

text \<open>
  The wire types of \<open>crates/ta-protocol/src/wire\<close> that the daemon's stores and services
  exchange: identifiers, execution contexts, runs, approvals, receipts, the agent stream and
  the daemon events, with their checked constructors and the redaction to public events.
  Field names carry a short prefix of their record, since record fields are global names.
  A \<open>u64\<close> is a natural number; where its bound matters it is stated.
\<close>

section \<open>Identifiers\<close>

text \<open>
  The macro \<open>identifier!\<close> declares one newtype over \<open>String\<close> per identifier; here they are one
  type with a synonym for each. The derived order is the order of the bytes.
\<close>

datatype domain_error =
    EmptyIdentifier string
  | EmptyApprovalReason
  | EmptyApprovalActorPrincipalId
  | InvalidApprovalTtl

datatype ident = Ident (as_str: string)

type_synonym session_id = ident
type_synonym run_id = ident
type_synonym approval_id = ident
type_synonym artifact_id = ident
type_synonym workspace_id = ident
type_synonym turn_id = ident
type_synonym item_id = ident
type_synonym runtime_profile_id = ident
type_synonym model_id = ident

definition ident_new :: "string \<Rightarrow> string \<Rightarrow> (ident, domain_error) result" where
  "ident_new label value = (if blank value then Err (EmptyIdentifier label) else Ok (Ident value))"

instantiation ident :: linorder
begin

definition less_eq_ident :: "ident \<Rightarrow> ident \<Rightarrow> bool" where
  "less_eq_ident a b \<longleftrightarrow> as_str a \<le> as_str b"

definition less_ident :: "ident \<Rightarrow> ident \<Rightarrow> bool" where
  "less_ident a b \<longleftrightarrow> as_str a < as_str b"

instance
  by standard (auto simp: less_eq_ident_def less_ident_def intro: ident.expand)

end

lemma ident_order_simps [simp]:
  "Ident s \<le> Ident t \<longleftrightarrow> s \<le> t" "Ident s < Ident t \<longleftrightarrow> s < t"
  by (simp_all add: less_eq_ident_def less_ident_def)

section \<open>Workspaces and execution contexts\<close>

text \<open>A \<open>WorkspacePath\<close> is an absolute path that was canonical when it was built.\<close>

datatype workspace_path = WorkspacePath (path_str: string)

datatype workspace_mode =
    ModeReadonly | ModeWorkspaceWrite | ModeWorktreeWrite | ModeRepoWriteWithApproval
  | ModeRemoteWorker | ModeContainerized | ModeEphemeral

datatype worktree_cleanup_policy = DeleteOnSuccess | DeleteOnTerminal | CleanupKeep | CleanupManual

record worktree_info =
  wt_path :: string
  wt_branch :: string
  wt_cleanup_policy :: worktree_cleanup_policy

datatype file_claim_kind = ClaimWrite

datatype conflict_severity = ConflictInformational | ConflictWarn

record file_claim_conflict =
  fc_file :: string
  fc_holding_capsule :: run_id
  fc_holding_kind :: file_claim_kind

record conflict_warning =
  cw_requesting_capsule :: run_id
  cw_severity :: conflict_severity
  cw_conflicts :: "file_claim_conflict list"

record conflict_summary =
  cs_warning_count :: u32
  cs_files :: "string list"

datatype trust_state = Unverified | UserConfirmed string | Revoked

record workspace =
  ws_id :: workspace_id
  ws_root_realpath :: workspace_path
  ws_display_name :: string
  ws_trust_state :: trust_state
  ws_git_repo_root :: "workspace_path option"
  ws_created_at :: string
  ws_last_used_at :: string

datatype workspace_scope =
    ScopeLocal workspace_path
  | ScopeWorktree workspace_path workspace_path string
  | ScopeReadonly workspace_path
  | ScopeRemote workspace_path
  | ScopeContainer workspace_path
  | ScopeEphemeral workspace_path

fun unsupported_dispatch_variant :: "workspace_scope \<Rightarrow> string option" where
  "unsupported_dispatch_variant (ScopeRemote _) = Some ''remote''"
| "unsupported_dispatch_variant (ScopeContainer _) = Some ''container''"
| "unsupported_dispatch_variant (ScopeEphemeral _) = Some ''ephemeral''"
| "unsupported_dispatch_variant (ScopeLocal _) = None"
| "unsupported_dispatch_variant (ScopeWorktree _ _ _) = None"
| "unsupported_dispatch_variant (ScopeReadonly _) = None"

datatype process_exec_policy = ExecDenied | ExecAllowlist "string list" | ExecAllowAll

datatype permission_policy =
    PermReadOnly | PermWorkspaceWrite | PermWorkspaceWriteWithApproval
  | PermRepoWriteWithApproval | PermUnrestricted

datatype network_policy = NetNone | NetLoopback | NetAllowlist "string list" | NetOpen

datatype env_policy = EnvAllowlist "string list" | EnvAll

definition workspace_default_env :: env_policy where
  "workspace_default_env = EnvAllowlist
     [''PATH'', ''HOME'', ''USER'', ''LANG'', ''TZ'', ''TMPDIR'', ''SSL_CERT_FILE'', ''SSL_CERT_DIR'',
      ''NIX_SSL_CERT_FILE'']"

record sandbox_profile =
  sp_read_roots :: "workspace_path list"
  sp_write_roots :: "workspace_path list"
  sp_denied_roots :: "workspace_path list"
  sp_process_exec :: process_exec_policy

record execution_context =
  ec_workspace_id :: workspace_id
  ec_workspace_root :: workspace_path
  ec_effective_cwd :: workspace_path
  ec_artifact_root :: workspace_path
  ec_workspace_scope :: workspace_scope
  ec_sandbox_profile :: sandbox_profile
  ec_permission_policy :: permission_policy
  ec_network_policy :: network_policy
  ec_env_policy :: env_policy

section \<open>Sessions and runs\<close>

datatype session_status = SessIdle | SessRunning | SessPaused | SessFailed | SessCompleted

datatype run_status =
    Queued | Running | WaitingForApproval | Completed | Failed | BudgetExceeded | Cancelled

datatype run_harness_kind = HarnessUnknown | HarnessNative | HarnessAcp | HarnessCodexAppServer

datatype run_source =
    SourceUser "output_contract_kind option" "model_id option" "string option"
  | SourceNativeSubagent run_id turn_id "output_contract_kind option" "model_id option"
      "string option" workspace_mode worktree_cleanup_policy "string list"
  | SourceForked run_id nat

record run_list_filter =
  rf_harness :: "run_harness_kind list option"
  rf_status :: "run_status list option"
  rf_parent_run_id :: "run_id option"

definition native_run_list_max_limit :: nat where
  "native_run_list_max_limit = 200"

section \<open>The agent stream\<close>

datatype agent_tool_call_outcome = OutcomeCompleted | OutcomeFailed | OutcomeCancelled

datatype runtime_lane_pending_state = PendQueued | PendWaitingForApproval | PendWaitingForInput

datatype agent_stream_frame =
    AssistantTurnStarted
  | AssistantMessageDelta string
  | AssistantTurnCompleted
  | ToolCallStarted string string
  | ToolCallProgressed string
  | ToolCallCompleted agent_tool_call_outcome
  | PendingStateChanged runtime_lane_pending_state
  | TokenUsageUpdated "nat option" "nat option"

record stream_emission =
  em_turn_id :: "turn_id option"
  em_item_id :: "item_id option"
  em_fragment_sequence :: "nat option"
  em_frame :: agent_stream_frame

record agent_stream_event =
  as_run_id :: run_id
  as_emission :: stream_emission

text \<open>Rows of the agent-turn projection; the cursor of a row is the sequence of its event.\<close>

record agent_assistant_row =
  ar_cursor :: nat
  ar_session_id :: session_id
  ar_run_id :: run_id
  ar_turn_id :: "turn_id option"
  ar_started_at_ms :: nat
  ar_completed_at_ms :: nat
  ar_text :: string

record agent_tool_call_row =
  tr_cursor :: nat
  tr_session_id :: session_id
  tr_run_id :: run_id
  tr_turn_id :: "turn_id option"
  tr_item_id :: "item_id option"
  tr_tool_name :: string
  tr_input :: string
  tr_output :: string
  tr_outcome :: agent_tool_call_outcome
  tr_started_at_ms :: nat
  tr_completed_at_ms :: nat

record agent_pending_state_row =
  pr_cursor :: nat
  pr_session_id :: session_id
  pr_run_id :: run_id
  pr_turn_id :: "turn_id option"
  pr_occurred_at_ms :: nat
  pr_state :: runtime_lane_pending_state

datatype agent_turn_row =
    RowAssistant agent_assistant_row
  | RowToolCall agent_tool_call_row
  | RowPendingState agent_pending_state_row

section \<open>Approvals\<close>

datatype approval_scope = FileWrite | ProcessExec | NetworkAccess

datatype approval_decision = Approved | Rejected

datatype approval_resolution_reason =
    ByUser | ByExpired | ByCancelled | ByBudgetExceeded | ByRuntimePolicy

datatype approval_target =
    TargetToolCall string
  | TargetFileWrite "string list"
  | TargetProcessExec "string option"
  | TargetNetworkAccess "string option" "string option"
  | TargetCapsuleDispatch "run_id option" "workspace_mode option"

record approval_actor =
  principal_id :: string

definition approval_actor_new :: "string \<Rightarrow> (approval_actor, domain_error) result" where
  "approval_actor_new p =
     (if blank p then Err EmptyApprovalActorPrincipalId else Ok \<lparr>principal_id = p\<rparr>)"

record approval_resolution =
  rs_approval_id :: approval_id
  rs_run_id :: run_id
  rs_tool_call_id :: "item_id option"
  rs_decision :: approval_decision
  rs_reason :: approval_resolution_reason
  rs_actor :: "approval_actor option"
  rs_commentary :: "string option"

text \<open>\<open>commentary.map(trim).filter(non-empty)\<close>, in the constructor and in \<open>Deserialize\<close>.\<close>

definition normalize_commentary :: "string option \<Rightarrow> string option" where
  "normalize_commentary c =
     (case c of None \<Rightarrow> None | Some v \<Rightarrow> if trim v = [] then None else Some (trim v))"

definition approval_resolution_new :: "approval_id \<Rightarrow> run_id \<Rightarrow> approval_decision \<Rightarrow>
    approval_resolution_reason \<Rightarrow> approval_actor \<Rightarrow> string option \<Rightarrow> approval_resolution" where
  "approval_resolution_new a r d reason actor commentary =
     \<lparr>rs_approval_id = a, rs_run_id = r, rs_tool_call_id = None, rs_decision = d, rs_reason = reason,
      rs_actor = Some actor, rs_commentary = normalize_commentary commentary\<rparr>"

text \<open>
  \<open>Deserialize for ApprovalResolution\<close>, from the raw fields once they are decoded. The actor's
  own \<open>Deserialize\<close> runs its constructor.
\<close>

definition approval_resolution_of_raw :: "approval_id \<Rightarrow> run_id \<Rightarrow> item_id option \<Rightarrow>
    approval_decision \<Rightarrow> approval_resolution_reason \<Rightarrow> string option \<Rightarrow> string option \<Rightarrow>
    (approval_resolution, domain_error) result" where
  "approval_resolution_of_raw a r t d reason actor commentary =
     try_then (case actor of None \<Rightarrow> Ok None
               | Some p \<Rightarrow> try_then (approval_actor_new p) (\<lambda>x. Ok (Some x)))
       (\<lambda>actor'. Ok \<lparr>rs_approval_id = a, rs_run_id = r, rs_tool_call_id = t, rs_decision = d,
          rs_reason = reason, rs_actor = actor', rs_commentary = normalize_commentary commentary\<rparr>)"

record approval_request =
  rq_id :: approval_id
  rq_run_id :: run_id
  rq_tool_call_id :: "item_id option"
  rq_scope :: approval_scope
  rq_requested_at_ms :: nat
  rq_expires_at_ms :: nat
  rq_target :: approval_target
  rq_reason :: string

definition approval_request_new :: "approval_id \<Rightarrow> run_id \<Rightarrow> approval_scope \<Rightarrow> nat \<Rightarrow> nat \<Rightarrow>
    approval_target \<Rightarrow> string \<Rightarrow> (approval_request, domain_error) result" where
  "approval_request_new i r scope requested_at expires_at target reason =
     (if blank reason then Err EmptyApprovalReason
      else if expires_at \<le> requested_at then Err InvalidApprovalTtl
      else Ok \<lparr>rq_id = i, rq_run_id = r, rq_tool_call_id = None, rq_scope = scope,
               rq_requested_at_ms = requested_at, rq_expires_at_ms = expires_at,
               rq_target = target, rq_reason = reason\<rparr>)"

definition request_with_tool_call_id :: "item_id \<Rightarrow> approval_request \<Rightarrow> approval_request" where
  "request_with_tool_call_id t q = q\<lparr>rq_tool_call_id := Some t\<rparr>"

definition resolution_with_tool_call_id :: "item_id \<Rightarrow> approval_resolution \<Rightarrow> approval_resolution" where
  "resolution_with_tool_call_id t r = r\<lparr>rs_tool_call_id := Some t\<rparr>"

text \<open>\<open>Deserialize for ApprovalRequest\<close>: the constructor again, then the tool call.\<close>

definition approval_request_of_raw :: "approval_id \<Rightarrow> run_id \<Rightarrow> item_id option \<Rightarrow> approval_scope \<Rightarrow>
    nat \<Rightarrow> nat \<Rightarrow> approval_target \<Rightarrow> string \<Rightarrow> (approval_request, domain_error) result" where
  "approval_request_of_raw i r t scope requested_at expires_at target reason =
     try_then (approval_request_new i r scope requested_at expires_at target reason)
       (\<lambda>q. Ok (q\<lparr>rq_tool_call_id := t\<rparr>))"

record public_approval_resolution =
  prs_approval_id :: approval_id
  prs_run_id :: run_id
  prs_tool_call_id :: "item_id option"
  prs_decision :: approval_decision
  prs_reason :: approval_resolution_reason

definition redact_resolution :: "approval_resolution \<Rightarrow> public_approval_resolution" where
  "redact_resolution r =
     \<lparr>prs_approval_id = rs_approval_id r, prs_run_id = rs_run_id r,
      prs_tool_call_id = rs_tool_call_id r, prs_decision = rs_decision r, prs_reason = rs_reason r\<rparr>"

section \<open>Context receipts\<close>

datatype receipt_kind =
    RkEvidence | RkPatch | RkTestOutput | RkReviewFinding | RkArtifact | RkRisk | RkBlocker | RkSummary

datatype receipt_state = Returned | Promoted | Quarantined

record receipt_provenance =
  pv_artifact_id :: "artifact_id option"
  pv_agent_turn_id :: "turn_id option"
  pv_event_seq :: "nat option"
  pv_stream_cursor :: "string option"

record context_receipt =
  rc_id :: receipt_id
  rc_session_id :: session_id
  rc_run_id :: run_id
  rc_parent_run_id :: "run_id option"
  rc_kind :: receipt_kind
  rc_provenance :: receipt_provenance
  rc_state :: receipt_state
  rc_title :: "string option"
  rc_summary :: "string option"
  rc_created_at_ms :: nat
  rc_promoted_at_ms :: "nat option"
  rc_quarantined_at_ms :: "nat option"

record public_context_receipt =
  prc_id :: receipt_id
  prc_kind :: receipt_kind
  prc_state :: receipt_state
  prc_provenance :: receipt_provenance
  prc_summary :: "string option"

definition public_receipt :: "context_receipt \<Rightarrow> public_context_receipt" where
  "public_receipt r =
     \<lparr>prc_id = rc_id r, prc_kind = rc_kind r, prc_state = rc_state r,
      prc_provenance = rc_provenance r, prc_summary = rc_summary r\<rparr>"

section \<open>Daemon events\<close>

record session_event =
  se_session_id :: session_id
  se_status :: session_status

record run_event =
  re_run_id :: run_id
  re_status :: run_status
  re_detail :: string
  re_output_contract :: "output_contract_kind option"
  re_recipe_id :: "string option"
  re_result :: "capsule_result option"

datatype run_failure_kind = DaemonRestartedWhileRunning

record run_reconciled_on_startup_event =
  rr_run_id :: run_id
  rr_prev_status :: run_status
  rr_reason :: run_failure_kind

record token_usage_recorded_event =
  tu_run_id :: run_id
  tu_capsule_id :: "run_id option"
  tu_prompt_tokens :: nat
  tu_completion_tokens :: nat
  tu_cached_tokens :: "nat option"
  tu_reasoning_tokens :: "nat option"
  tu_model :: string
  tu_provider :: string
  tu_recorded_at_ms :: nat

datatype artifact_kind = AkTranscript | AkPatch | AkFileSnapshot | AkCommandLog

record artifact_summary =
  af_id :: artifact_id
  af_run_id :: run_id
  af_kind :: artifact_kind
  af_storage_path :: string

datatype budget_scope = ScopeRun | ScopeParentAggregate
datatype budget_metric = MetricTokens | MetricWallClockMs | MetricToolCalls

record budget_breach =
  bb_scope :: budget_scope
  bb_metric :: budget_metric
  bb_limit :: nat
  bb_actual :: nat

record budget_snapshot =
  bs_run_id :: run_id
  bs_parent_run_id :: "run_id option"
  bs_scope :: budget_scope
  bs_total_tokens :: nat
  bs_wall_clock_ms :: nat
  bs_tool_calls :: nat

record budget_exceeded_event =
  be_run_id :: run_id
  be_parent_run_id :: "run_id option"
  be_breach :: budget_breach
  be_snapshot :: budget_snapshot

datatype budget_event = BudgetEvExceeded budget_exceeded_event

datatype approval_event = ApprovalRequested approval_request | ApprovalResolved approval_resolution

datatype public_approval_event =
    PublicApprovalRequested approval_request | PublicApprovalResolved public_approval_resolution

datatype conflict_event = ConflictWarningEv run_id conflict_warning

datatype context_receipt_event =
    ReceiptCreated context_receipt | ReceiptPromoted context_receipt | ReceiptQuarantined context_receipt

datatype public_context_receipt_event =
    PublicReceiptCreated public_context_receipt
  | PublicReceiptPromoted public_context_receipt
  | PublicReceiptQuarantined public_context_receipt

datatype daemon_event =
    EvSession session_event
  | EvRun run_event
  | EvRunReconciledOnStartup run_reconciled_on_startup_event
  | EvApproval approval_event
  | EvArtifact artifact_summary
  | EvContextReceipt context_receipt_event
  | EvAgentStream agent_stream_event
  | EvTokenUsageRecorded token_usage_recorded_event
  | EvConflict conflict_event
  | EvBudget budget_event

datatype public_daemon_event =
    PubSession session_event
  | PubRun run_event
  | PubRunReconciledOnStartup run_reconciled_on_startup_event
  | PubApproval public_approval_event
  | PubArtifact artifact_summary
  | PubContextReceipt public_context_receipt_event
  | PubAgentStream agent_stream_event
  | PubTokenUsageRecorded token_usage_recorded_event
  | PubConflict conflict_event
  | PubBudget budget_event

datatype daemon_event_kind =
    KSession | KRun | KRunReconciledOnStartup | KApproval | KArtifact | KContextReceipt
  | KAgentStream | KTokenUsageRecorded | KConflict | KBudget

fun event_kind :: "daemon_event \<Rightarrow> daemon_event_kind" where
  "event_kind (EvSession _) = KSession"
| "event_kind (EvRun _) = KRun"
| "event_kind (EvRunReconciledOnStartup _) = KRunReconciledOnStartup"
| "event_kind (EvApproval _) = KApproval"
| "event_kind (EvArtifact _) = KArtifact"
| "event_kind (EvContextReceipt _) = KContextReceipt"
| "event_kind (EvAgentStream _) = KAgentStream"
| "event_kind (EvTokenUsageRecorded _) = KTokenUsageRecorded"
| "event_kind (EvConflict _) = KConflict"
| "event_kind (EvBudget _) = KBudget"

fun public_receipt_event :: "context_receipt_event \<Rightarrow> public_context_receipt_event" where
  "public_receipt_event (ReceiptCreated r) = PublicReceiptCreated (public_receipt r)"
| "public_receipt_event (ReceiptPromoted r) = PublicReceiptPromoted (public_receipt r)"
| "public_receipt_event (ReceiptQuarantined r) = PublicReceiptQuarantined (public_receipt r)"

fun redact_for_public :: "daemon_event \<Rightarrow> public_daemon_event" where
  "redact_for_public (EvSession e) = PubSession e"
| "redact_for_public (EvRun e) = PubRun e"
| "redact_for_public (EvRunReconciledOnStartup e) = PubRunReconciledOnStartup e"
| "redact_for_public (EvApproval (ApprovalRequested q)) = PubApproval (PublicApprovalRequested q)"
| "redact_for_public (EvApproval (ApprovalResolved r)) =
     PubApproval (PublicApprovalResolved (redact_resolution r))"
| "redact_for_public (EvArtifact e) = PubArtifact e"
| "redact_for_public (EvContextReceipt e) = PubContextReceipt (public_receipt_event e)"
| "redact_for_public (EvAgentStream e) = PubAgentStream e"
| "redact_for_public (EvTokenUsageRecorded e) = PubTokenUsageRecorded e"
| "redact_for_public (EvConflict e) = PubConflict e"
| "redact_for_public (EvBudget e) = PubBudget e"

record daemon_event_cursor =
  cu_daemon_instance_id :: string
  cu_session_id :: session_id
  cu_sequence :: nat

record daemon_event_envelope =
  en_daemon_instance_id :: string
  en_session_id :: session_id
  en_sequence :: nat
  en_occurred_at_ms :: nat
  en_event :: daemon_event

record public_daemon_event_envelope =
  pen_daemon_instance_id :: string
  pen_session_id :: session_id
  pen_sequence :: nat
  pen_occurred_at_ms :: nat
  pen_event :: public_daemon_event

definition redact_envelope :: "daemon_event_envelope \<Rightarrow> public_daemon_event_envelope" where
  "redact_envelope v =
     \<lparr>pen_daemon_instance_id = en_daemon_instance_id v, pen_session_id = en_session_id v,
      pen_sequence = en_sequence v, pen_occurred_at_ms = en_occurred_at_ms v,
      pen_event = redact_for_public (en_event v)\<rparr>"

section \<open>Checked constructors\<close>

lemma request_new_ok:
  assumes "approval_request_of_raw i r t scope rq ex target reason = Ok q"
  shows "\<not> blank (rq_reason q)" "rq_requested_at_ms q < rq_expires_at_ms q" "rq_tool_call_id q = t"
  using assms by (auto simp: approval_request_of_raw_def approval_request_new_def split: if_splits)

lemma normalize_commentary_idem [simp]:
  "normalize_commentary (normalize_commentary c) = normalize_commentary c"
  by (auto simp: normalize_commentary_def split: option.splits)

text \<open>
  The raw fields of a value that was built by the constructors are its own fields, so
  decoding an encoded value runs \<open>of_raw\<close> on them.
\<close>

definition request_roundtrip :: "approval_request \<Rightarrow> (approval_request, domain_error) result" where
  "request_roundtrip q = approval_request_of_raw (rq_id q) (rq_run_id q) (rq_tool_call_id q)
     (rq_scope q) (rq_requested_at_ms q) (rq_expires_at_ms q) (rq_target q) (rq_reason q)"

definition resolution_roundtrip :: "approval_resolution \<Rightarrow> (approval_resolution, domain_error) result" where
  "resolution_roundtrip r = approval_resolution_of_raw (rs_approval_id r) (rs_run_id r)
     (rs_tool_call_id r) (rs_decision r) (rs_reason r) (map_option principal_id (rs_actor r))
     (rs_commentary r)"

lemma request_roundtrip_ok:
  "approval_request_of_raw i r t scope rq ex target reason = Ok q \<Longrightarrow> request_roundtrip q = Ok q"
  by (auto simp: request_roundtrip_def approval_request_of_raw_def approval_request_new_def
      split: if_splits)

lemma resolution_roundtrip_ok:
  assumes "approval_resolution_of_raw a r t d reason actor commentary = Ok v"
  shows "resolution_roundtrip v = Ok v"
  using assms
  by (auto simp: resolution_roundtrip_def approval_resolution_of_raw_def approval_actor_new_def
      try_then_Ok_iff split: option.splits if_splits)

section \<open>Redaction\<close>

text \<open>An event with every field blanked that a public client must not see.\<close>

definition scrub_resolution :: "approval_resolution \<Rightarrow> approval_resolution" where
  "scrub_resolution r = r\<lparr>rs_actor := None, rs_commentary := None\<rparr>"

definition scrub_receipt :: "context_receipt \<Rightarrow> context_receipt" where
  "scrub_receipt r = r\<lparr>rc_session_id := Ident [], rc_run_id := Ident [], rc_parent_run_id := None,
     rc_title := None, rc_created_at_ms := 0, rc_promoted_at_ms := None, rc_quarantined_at_ms := None\<rparr>"

fun scrub :: "daemon_event \<Rightarrow> daemon_event" where
  "scrub (EvApproval (ApprovalResolved r)) = EvApproval (ApprovalResolved (scrub_resolution r))"
| "scrub (EvContextReceipt (ReceiptCreated r)) = EvContextReceipt (ReceiptCreated (scrub_receipt r))"
| "scrub (EvContextReceipt (ReceiptPromoted r)) = EvContextReceipt (ReceiptPromoted (scrub_receipt r))"
| "scrub (EvContextReceipt (ReceiptQuarantined r)) =
     EvContextReceipt (ReceiptQuarantined (scrub_receipt r))"
| "scrub e = e"

lemma redact_resolution_eq: "redact_resolution r = redact_resolution s \<longleftrightarrow> scrub_resolution r = scrub_resolution s"
  by (cases r; cases s) (simp add: redact_resolution_def scrub_resolution_def)

lemma public_receipt_eq: "public_receipt r = public_receipt s \<longleftrightarrow> scrub_receipt r = scrub_receipt s"
  by (cases r; cases s) (auto simp: public_receipt_def scrub_receipt_def)

text \<open>
  C29. Redaction hides exactly the actor and the commentary of an approval resolution and the
  session, run, parent, title and timestamps of a context receipt: two events have the same
  public form if and only if they agree on everything else.
\<close>

theorem redaction_hides_exactly_the_private_fields:
  "(redact_for_public e = redact_for_public f) = (scrub e = scrub f)"
  by (cases e rule: scrub.cases; cases f rule: scrub.cases)
     (simp_all add: redact_resolution_eq public_receipt_eq)

text \<open>
  Decoding the encoding of a decoded approval request or resolution gives the same value:
  the normalisation in the decoders (non-blank reason and actor, positive time to live, trimmed
  commentary) is idempotent, and every decoded request has a non-blank reason and expires after
  it was requested.
\<close>

theorem approval_wire_roundtrip:
  assumes "approval_request_of_raw i r t scope rq ex target reason = Ok q"
    and "approval_resolution_of_raw a r' t' d why actor commentary = Ok v"
  shows "request_roundtrip q = Ok q \<and> resolution_roundtrip v = Ok v \<and>
    \<not> blank (rq_reason q) \<and> rq_requested_at_ms q < rq_expires_at_ms q"
  using assms by (auto intro: request_roundtrip_ok resolution_roundtrip_ok dest: request_new_ok)

theorem approval_wire_roundtrip_witness:
  "\<exists>q v. approval_request_of_raw (Ident ''a1'') (Ident ''r1'') (Some (Ident ''t1'')) FileWrite 5 9
       (TargetFileWrite [''x'']) ''apply patch'' = Ok q \<and>
     approval_resolution_of_raw (Ident ''a1'') (Ident ''r1'') None Approved ByUser (Some ''me'')
       (Some '' fine '') = Ok v \<and> rs_commentary v = Some ''fine'' \<and>
     request_roundtrip q = Ok q \<and> resolution_roundtrip v = Ok v"
proof -
  have q: "approval_request_of_raw (Ident ''a1'') (Ident ''r1'') (Some (Ident ''t1'')) FileWrite 5 9
       (TargetFileWrite [''x'']) ''apply patch'' = Ok
        \<lparr>rq_id = Ident ''a1'', rq_run_id = Ident ''r1'', rq_tool_call_id = Some (Ident ''t1''),
         rq_scope = FileWrite, rq_requested_at_ms = 5, rq_expires_at_ms = 9,
         rq_target = TargetFileWrite [''x''], rq_reason = ''apply patch''\<rparr>"
    by code_simp
  have v: "approval_resolution_of_raw (Ident ''a1'') (Ident ''r1'') None Approved ByUser (Some ''me'')
       (Some '' fine '') = Ok
        \<lparr>rs_approval_id = Ident ''a1'', rs_run_id = Ident ''r1'', rs_tool_call_id = None,
         rs_decision = Approved, rs_reason = ByUser, rs_actor = Some \<lparr>principal_id = ''me''\<rparr>,
         rs_commentary = Some ''fine''\<rparr>"
    by code_simp
  show ?thesis using approval_wire_roundtrip [OF q v] q v by auto
qed

end
