(* ===== verification/Policy.thy ===== *)
theory Policy
  imports Wire
begin

text \<open>
  The crate \<open>ta-policy\<close>: the decision on an operation under the runtime policy mode
  (\<open>agent_runtime.rs\<close>, \<open>engine.rs\<close>) and under the frozen execution context of a run
  (\<open>execution_context.rs\<close>), the budget decision (\<open>budget.rs\<close>) and the lifetime of an approval
  (\<open>approval.rs\<close>).
\<close>

section \<open>Operations and decisions\<close>

record operation =
  op_scope :: approval_scope
  op_label :: string

definition operation_new :: "approval_scope \<Rightarrow> string \<Rightarrow> operation" where
  "operation_new s l = \<lparr>op_scope = s, op_label = l\<rparr>"

datatype policy_decision = Allow | RequireApproval string | Deny string

datatype runtime_policy_mode = ModeRequireApproval | ModeAllow | ModeDeny

definition approval_reason :: "operation \<Rightarrow> string" where
  "approval_reason op =
     (case op_scope op of
        FileWrite \<Rightarrow> op_label op @ '' writes to the workspace''
      | ProcessExec \<Rightarrow> op_label op @ '' executes a process''
      | NetworkAccess \<Rightarrow> op_label op @ '' requires network access'')"

definition deny_reason :: "operation \<Rightarrow> string" where
  "deny_reason op =
     (case op_scope op of
        FileWrite \<Rightarrow> op_label op @ '' is denied by the active runtime policy''
      | ProcessExec \<Rightarrow> op_label op @ '' is denied by the active runtime policy''
      | NetworkAccess \<Rightarrow>
          op_label op @ '' requires network access but the active runtime policy denies it'')"

definition evaluate_runtime_policy :: "runtime_policy_mode \<Rightarrow> operation \<Rightarrow> bool \<Rightarrow> policy_decision" where
  "evaluate_runtime_policy mode op lane_allows_network =
     (if op_scope op = NetworkAccess \<and> \<not> lane_allows_network
      then Deny (op_label op @ '' requires network access but the active lane does not allow it'')
      else (case mode of
          ModeRequireApproval \<Rightarrow> RequireApproval (approval_reason op)
        | ModeAllow \<Rightarrow> Allow
        | ModeDeny \<Rightarrow> Deny (deny_reason op)))"

record policy_engine =
  engine_mode :: runtime_policy_mode

definition from_runtime_policy_mode :: "runtime_policy_mode \<Rightarrow> policy_engine" where
  "from_runtime_policy_mode m = \<lparr>engine_mode = m\<rparr>"

definition engine_evaluate :: "policy_engine \<Rightarrow> operation \<Rightarrow> bool \<Rightarrow> policy_decision" where
  "engine_evaluate e op lane = evaluate_runtime_policy (engine_mode e) op lane"

section \<open>The frozen execution context of a run\<close>

text \<open>The reason texts of \<open>execution_context.rs\<close> are the ones of \<open>agent_runtime.rs\<close>, written out again there.\<close>

definition context_approval_reason :: "operation \<Rightarrow> string" where
  "context_approval_reason op =
     (case op_scope op of
        FileWrite \<Rightarrow> op_label op @ '' writes to the workspace''
      | ProcessExec \<Rightarrow> op_label op @ '' executes a process''
      | NetworkAccess \<Rightarrow> op_label op @ '' requires network access'')"

definition denied_reason :: "execution_context \<Rightarrow> operation \<Rightarrow> string option" where
  "denied_reason c op =
     (let denied = (case op_scope op of
          FileWrite \<Rightarrow> ec_permission_policy c = PermReadOnly \<or> sp_write_roots (ec_sandbox_profile c) = []
        | ProcessExec \<Rightarrow> sp_process_exec (ec_sandbox_profile c) = ExecDenied
        | NetworkAccess \<Rightarrow> ec_network_policy c = NetNone)
      in if denied then Some (op_label op @ '' is denied by the frozen execution context'') else None)"

definition evaluate_execution_context :: "execution_context \<Rightarrow> operation \<Rightarrow> policy_decision" where
  "evaluate_execution_context c op =
     (case denied_reason c op of
        Some reason \<Rightarrow> Deny reason
      | None \<Rightarrow>
          (case ec_permission_policy c of
             PermWorkspaceWriteWithApproval \<Rightarrow> RequireApproval (context_approval_reason op)
           | PermRepoWriteWithApproval \<Rightarrow> RequireApproval (context_approval_reason op)
           | PermReadOnly \<Rightarrow> Allow
           | PermWorkspaceWrite \<Rightarrow> Allow
           | PermUnrestricted \<Rightarrow> Allow))"

section \<open>Budgets\<close>

record budget_limits =
  max_tokens :: "nat option"
  max_wall_clock_ms :: "nat option"
  max_tool_calls :: "nat option"

record budget_usage =
  total_tokens :: nat
  wall_clock_ms :: nat
  tool_calls :: nat

record budget_policy =
  per_run :: budget_limits
  parent_aggregate :: budget_limits

record budget_exceeded =
  bx_scope :: budget_scope
  bx_metric :: budget_metric
  bx_limit :: nat
  bx_actual :: nat

datatype budget_decision = WithinBudget | BudgetExceededBy budget_exceeded

definition unbounded_limits :: budget_limits where
  "unbounded_limits = \<lparr>max_tokens = None, max_wall_clock_ms = None, max_tool_calls = None\<rparr>"

definition unbounded_policy :: budget_policy where
  "unbounded_policy = \<lparr>per_run = unbounded_limits, parent_aggregate = unbounded_limits\<rparr>"

text \<open>\<open>if let Some(limit) = l && usage > limit\<close>.\<close>

definition over :: "nat option \<Rightarrow> nat \<Rightarrow> nat option" where
  "over l u = (case l of None \<Rightarrow> None | Some n \<Rightarrow> if u > n then Some n else None)"

definition budget_decide :: "budget_scope \<Rightarrow> budget_limits \<Rightarrow> budget_usage \<Rightarrow> budget_decision" where
  "budget_decide scope l u =
     (case over (max_tokens l) (total_tokens u) of
        Some n \<Rightarrow> BudgetExceededBy \<lparr>bx_scope = scope, bx_metric = MetricTokens, bx_limit = n, bx_actual = total_tokens u\<rparr>
      | None \<Rightarrow>
     (case over (max_wall_clock_ms l) (wall_clock_ms u) of
        Some n \<Rightarrow> BudgetExceededBy \<lparr>bx_scope = scope, bx_metric = MetricWallClockMs, bx_limit = n, bx_actual = wall_clock_ms u\<rparr>
      | None \<Rightarrow>
     (case over (max_tool_calls l) (tool_calls u) of
        Some n \<Rightarrow> BudgetExceededBy \<lparr>bx_scope = scope, bx_metric = MetricToolCalls, bx_limit = n, bx_actual = tool_calls u\<rparr>
      | None \<Rightarrow> WithinBudget)))"

definition decide_run :: "budget_policy \<Rightarrow> budget_usage \<Rightarrow> budget_decision" where
  "decide_run p u = budget_decide ScopeRun (per_run p) u"

definition decide_parent_aggregate :: "budget_policy \<Rightarrow> budget_usage \<Rightarrow> budget_decision" where
  "decide_parent_aggregate p u = budget_decide ScopeParentAggregate (parent_aggregate p) u"

definition redacted_reason :: "budget_exceeded \<Rightarrow> string" where
  "redacted_reason x =
     (case bx_metric x of
        MetricTokens \<Rightarrow> ''token budget exceeded''
      | MetricWallClockMs \<Rightarrow> ''wall-clock budget exceeded''
      | MetricToolCalls \<Rightarrow> ''tool-call budget exceeded'')"

section \<open>Approval lifetime\<close>

definition default_approval_ttl_ms :: nat where
  "default_approval_ttl_ms = 10 * 60 * 1000"

record approval_ttl_policy =
  ttl_ms :: nat

definition default_interactive :: approval_ttl_policy where
  "default_interactive = \<lparr>ttl_ms = default_approval_ttl_ms\<rparr>"

definition expires_at_ms :: "approval_ttl_policy \<Rightarrow> nat \<Rightarrow> nat" where
  "expires_at_ms p requested_at = sat_add requested_at (ttl_ms p)"

definition is_expired :: "nat \<Rightarrow> nat \<Rightarrow> bool" where
  "is_expired expires_at now \<longleftrightarrow> now \<ge> expires_at"

section \<open>Properties\<close>

text \<open>How much a decision lets through: nothing, with an approval, everything.\<close>

fun permissiveness :: "policy_decision \<Rightarrow> nat" where
  "permissiveness (Deny _) = 0"
| "permissiveness (RequireApproval _) = 1"
| "permissiveness Allow = 2"

text \<open>The policy mode as a level of trust, and its comparison.\<close>

fun mode_level :: "runtime_policy_mode \<Rightarrow> nat" where
  "mode_level ModeDeny = 0"
| "mode_level ModeRequireApproval = 1"
| "mode_level ModeAllow = 2"

text \<open>
  Under the runtime policy a lane without network denies every network operation whatever
  the mode; otherwise the decision is exactly as permissive as the mode, so that a stricter mode
  never lets more through.
\<close>

theorem runtime_policy_permissiveness:
  "permissiveness (evaluate_runtime_policy m op lane) =
     (if op_scope op = NetworkAccess \<and> \<not> lane then 0 else mode_level m)"
  by (cases m) (auto simp: evaluate_runtime_policy_def)

text \<open>
  Under a frozen execution context a file write is never allowed in a read-only context or
  without a write root, a process never under a denied exec policy and the network never under
  the network policy \<open>none\<close>; in every other case the answer is an approval request exactly for
  the two permission policies that ask for one, with the reason of the operation.
\<close>

theorem execution_context_decision:
  "evaluate_execution_context c op =
     (if (op_scope op = FileWrite \<and>
            (ec_permission_policy c = PermReadOnly \<or> sp_write_roots (ec_sandbox_profile c) = [])) \<or>
         (op_scope op = ProcessExec \<and> sp_process_exec (ec_sandbox_profile c) = ExecDenied) \<or>
         (op_scope op = NetworkAccess \<and> ec_network_policy c = NetNone)
      then Deny (op_label op @ '' is denied by the frozen execution context'')
      else if ec_permission_policy c \<in> {PermWorkspaceWriteWithApproval, PermRepoWriteWithApproval}
      then RequireApproval (approval_reason op) else Allow)"
  by (cases "op_scope op"; cases "ec_permission_policy c")
     (auto simp: evaluate_execution_context_def denied_reason_def context_approval_reason_def
        approval_reason_def Let_def)

lemma over_None: "over l u = None \<longleftrightarrow> none_or (\<lambda>n. u \<le> n) l"
  by (cases l) (auto simp: over_def)

lemma over_Some: "over l u = Some n \<longleftrightarrow> l = Some n \<and> n < u"
  by (cases l) (auto simp: over_def)

definition usage_of :: "budget_metric \<Rightarrow> budget_usage \<Rightarrow> nat" where
  "usage_of m u = (case m of MetricTokens \<Rightarrow> total_tokens u | MetricWallClockMs \<Rightarrow> wall_clock_ms u
     | MetricToolCalls \<Rightarrow> tool_calls u)"

definition limit_of :: "budget_metric \<Rightarrow> budget_limits \<Rightarrow> nat option" where
  "limit_of m l = (case m of MetricTokens \<Rightarrow> max_tokens l | MetricWallClockMs \<Rightarrow> max_wall_clock_ms l
     | MetricToolCalls \<Rightarrow> max_tool_calls l)"

lemma all_budget_metric:
  "(\<forall>m. P m) \<longleftrightarrow> P MetricTokens \<and> P MetricWallClockMs \<and> P MetricToolCalls"
  by (metis budget_metric.exhaust)

lemma budget_decide_within:
  "budget_decide s l u = WithinBudget \<longleftrightarrow> (\<forall>m. none_or (\<lambda>n. usage_of m u \<le> n) (limit_of m l))"
  unfolding all_budget_metric
  by (simp add: budget_decide_def usage_of_def limit_of_def over_None [symmetric] split: option.split)

lemma budget_decide_exceeded:
  "budget_decide s l u = BudgetExceededBy x \<Longrightarrow>
     bx_scope x = s \<and> limit_of (bx_metric x) l = Some (bx_limit x) \<and>
     bx_actual x = usage_of (bx_metric x) u \<and> bx_limit x < bx_actual x"
  by (auto simp: budget_decide_def usage_of_def limit_of_def over_Some split: option.splits)

lemma usage_mono_within:
  assumes "\<And>m. usage_of m u \<le> usage_of m v" "budget_decide s l v = WithinBudget"
  shows "budget_decide s l u = WithinBudget"
  using assms unfolding budget_decide_within none_or_def
  by (auto split: option.splits intro: le_trans)

text \<open>
  The budget decision is sound, complete and monotone: a run is within budget exactly when no
  limited metric is above its limit, a reported breach names a limit of the policy in the
  requested scope that the reported usage really exceeds, and a run whose usage is smaller in
  every metric than one within budget is within budget too.
\<close>

theorem budget_decision_correct:
  "(decide_run p u = WithinBudget) =
     (\<forall>m. none_or (\<lambda>n. usage_of m u \<le> n) (limit_of m (per_run p))) \<and>
   (\<forall>x. decide_run p u = BudgetExceededBy x \<longrightarrow>
     bx_scope x = ScopeRun \<and> limit_of (bx_metric x) (per_run p) = Some (bx_limit x) \<and>
     bx_actual x = usage_of (bx_metric x) u \<and> bx_limit x < bx_actual x) \<and>
   ((\<forall>m. usage_of m w \<le> usage_of m u) \<and> decide_run p u = WithinBudget \<longrightarrow>
     decide_run p w = WithinBudget)"
  unfolding decide_run_def
  using budget_decide_within [of ScopeRun "per_run p" u]
    budget_decide_exceeded [of ScopeRun "per_run p" u]
    usage_mono_within [of w u ScopeRun "per_run p"] by blast

theorem budget_decision_correct_witness:
  "decide_run \<lparr>per_run = unbounded_limits\<lparr>max_tokens := Some 10\<rparr>, parent_aggregate = unbounded_limits\<rparr>
       \<lparr>total_tokens = 11, wall_clock_ms = 0, tool_calls = 0\<rparr> =
     BudgetExceededBy \<lparr>bx_scope = ScopeRun, bx_metric = MetricTokens, bx_limit = 10, bx_actual = 11\<rparr> \<and>
   decide_run unbounded_policy \<lparr>total_tokens = 3, wall_clock_ms = 2, tool_calls = 1\<rparr> = WithinBudget"
proof -
  let ?l = "unbounded_limits\<lparr>max_tokens := Some 10\<rparr>"
  let ?p = "\<lparr>per_run = ?l, parent_aggregate = unbounded_limits\<rparr>"
  let ?u = "\<lparr>total_tokens = 11, wall_clock_ms = 0, tool_calls = 0\<rparr>"
  have "decide_run ?p ?u \<noteq> WithinBudget"
    using budget_decision_correct [of ?p ?u]
    by (auto simp: all_budget_metric usage_of_def limit_of_def unbounded_limits_def)
  moreover have "decide_run unbounded_policy \<lparr>total_tokens = 3, wall_clock_ms = 2, tool_calls = 1\<rparr> = WithinBudget"
    using budget_decision_correct [of unbounded_policy]
    by (simp add: unbounded_policy_def unbounded_limits_def limit_of_def split: budget_metric.splits)
  ultimately show ?thesis
    by (simp add: decide_run_def budget_decide_def over_def unbounded_limits_def)
qed

end
