(* ===== verification/Events.thy ===== *)
theory Events
  imports Wire
begin

text \<open>
  Event records and the queries on them (\<open>crates/ta-store/src/events.rs\<close>), with the loops of
  the in-memory event log that answer the paged queries (\<open>memory/events.rs\<close>). Each loop is
  shown to compute a filter and a page of it, and the cursor of a page to continue exactly
  behind it.
\<close>

named_theorems page_simps \<open>what the paging loops compute\<close>

section \<open>Records and queries\<close>

datatype event_persistence = Durable | Transient

record event_record =
  ev_sequence :: nat
  ev_session_id :: session_id
  ev_occurred_at_ms :: nat
  ev_payload :: daemon_event

record session_approval_query =
  aq_session_id :: session_id
  aq_run_id :: "run_id option"
  aq_approval_id :: "approval_id option"

datatype session_approval_lookup = Pending approval_request | Resolved | NotFound

record session_event_page_query =
  pq_session_id :: session_id
  pq_before_sequence :: "nat option"
  pq_limit :: nat
  pq_kinds :: "daemon_event_kind list"

record session_event_page =
  pg_records :: "event_record list"
  pg_next_before_sequence :: "nat option"
  pg_latest_sequence :: "nat option"

record session_event_range_query =
  gq_session_id :: session_id
  gq_after_sequence :: "nat option"
  gq_up_to_sequence :: "nat option"
  gq_kinds :: "daemon_event_kind list"

record session_event_range =
  rg_records :: "event_record list"
  rg_latest_sequence :: "nat option"

record run_event_range_query =
  rq'_session_id :: session_id
  rq'_run_id :: run_id
  rq'_after_sequence :: "nat option"
  rq'_limit :: nat

record run_event_range =
  rr'_records :: "event_record list"
  rr'_latest_sequence :: "nat option"

fun event_run_id :: "daemon_event \<Rightarrow> run_id option" where
  "event_run_id (EvRun e) = Some (re_run_id e)"
| "event_run_id (EvRunReconciledOnStartup e) = Some (rr_run_id e)"
| "event_run_id (EvApproval (ApprovalRequested q)) = Some (rq_run_id q)"
| "event_run_id (EvApproval (ApprovalResolved r)) = Some (rs_run_id r)"
| "event_run_id (EvArtifact a) = Some (af_run_id a)"
| "event_run_id (EvContextReceipt (ReceiptCreated r)) = Some (rc_run_id r)"
| "event_run_id (EvContextReceipt (ReceiptPromoted r)) = Some (rc_run_id r)"
| "event_run_id (EvContextReceipt (ReceiptQuarantined r)) = Some (rc_run_id r)"
| "event_run_id (EvAgentStream e) = Some (as_run_id e)"
| "event_run_id (EvTokenUsageRecorded e) = Some (tu_run_id e)"
| "event_run_id (EvConflict (ConflictWarningEv r _)) = Some r"
| "event_run_id (EvBudget (BudgetEvExceeded e)) = Some (be_run_id e)"
| "event_run_id (EvSession _) = None"

text \<open>
  Deltas of the agent stream are for live subscribers only: they are neither stored nor replayed.
\<close>

definition event_persistence :: "daemon_event \<Rightarrow> event_persistence" where
  "event_persistence e =
     (case e of
        EvAgentStream s \<Rightarrow>
          (case em_frame (as_emission s) of
             AssistantTurnStarted \<Rightarrow> Durable
           | AssistantTurnCompleted \<Rightarrow> Durable
           | ToolCallStarted _ _ \<Rightarrow> Durable
           | ToolCallCompleted _ \<Rightarrow> Durable
           | PendingStateChanged _ \<Rightarrow> Durable
           | TokenUsageUpdated _ _ \<Rightarrow> Durable
           | AssistantMessageDelta _ \<Rightarrow> Transient
           | ToolCallProgressed _ \<Rightarrow> Transient)
      | _ \<Rightarrow> Durable)"

abbreviation durable :: "daemon_event \<Rightarrow> bool" where
  "durable e \<equiv> event_persistence e = Durable"

lemma durable_simps [simp]:
  "durable (EvSession a)" "durable (EvRun b)" "durable (EvRunReconciledOnStartup c)"
  "durable (EvApproval d)" "durable (EvArtifact f)" "durable (EvContextReceipt g)"
  "durable (EvTokenUsageRecorded h)" "durable (EvConflict i)" "durable (EvBudget j)"
  by (simp_all add: event_persistence_def)

section \<open>The loops\<close>

text \<open>\<open>run_event_range_from_records\<close>: one pass in ascending order, no early exit.\<close>

fun run_range_loop :: "run_event_range_query \<Rightarrow> event_record list \<Rightarrow> nat option \<Rightarrow>
    event_record list \<Rightarrow> run_event_range" where
  "run_range_loop q [] latest selected = \<lparr>rr'_records = selected, rr'_latest_sequence = latest\<rparr>"
| "run_range_loop q (r # rs) latest selected =
     (if ev_session_id r \<noteq> rq'_session_id q then run_range_loop q rs latest selected
      else if event_run_id (ev_payload r) \<noteq> Some (rq'_run_id q) then run_range_loop q rs latest selected
      else if some_and (\<lambda>a. ev_sequence r \<le> a) (rq'_after_sequence q)
      then run_range_loop q rs (Some (ev_sequence r)) selected
      else if length selected \<ge> rq'_limit q
      then run_range_loop q rs (Some (ev_sequence r)) selected
      else run_range_loop q rs (Some (ev_sequence r)) (selected @ [r]))"

definition run_event_range_from_records :: "event_record list \<Rightarrow> run_event_range_query \<Rightarrow> run_event_range" where
  "run_event_range_from_records records q = run_range_loop q records None []"

text \<open>The kind filter of the session queries: an empty list admits every kind.\<close>

definition kind_ok :: "daemon_event_kind list \<Rightarrow> daemon_event \<Rightarrow> bool" where
  "kind_ok kinds e \<longleftrightarrow> kinds = [] \<or> event_kind e \<in> set kinds"

text \<open>\<open>session_event_page\<close>: from the newest record backwards, leaving at the first that overflows.\<close>

fun event_page_loop :: "session_event_page_query \<Rightarrow> event_record list \<Rightarrow> nat option \<Rightarrow>
    event_record list \<Rightarrow> nat option \<times> event_record list \<times> bool" where
  "event_page_loop q [] latest records = (latest, records, False)"
| "event_page_loop q (r # rs) latest records =
     (if ev_session_id r \<noteq> pq_session_id q then event_page_loop q rs latest records
      else if \<not> kind_ok (pq_kinds q) (ev_payload r) then event_page_loop q rs latest records
      else let latest' = opt_or latest (Some (ev_sequence r))
      in if some_and (\<lambda>b. ev_sequence r \<ge> b) (pq_before_sequence q) then event_page_loop q rs latest' records
         else if length records < pq_limit q then event_page_loop q rs latest' (records @ [r])
         else (latest', records, True))"

definition session_event_page_of :: "event_record list \<Rightarrow> session_event_page_query \<Rightarrow> session_event_page" where
  "session_event_page_of events q =
     (case event_page_loop q (rev events) None [] of
        (latest, records, has_more) \<Rightarrow>
          \<lparr>pg_records = records,
           pg_next_before_sequence =
             (if has_more then (if records = [] then None else Some (ev_sequence (last records))) else None),
           pg_latest_sequence = latest\<rparr>)"

fun event_range_loop :: "session_event_range_query \<Rightarrow> event_record list \<Rightarrow> nat option \<Rightarrow>
    event_record list \<Rightarrow> session_event_range" where
  "event_range_loop q [] latest records = \<lparr>rg_records = records, rg_latest_sequence = latest\<rparr>"
| "event_range_loop q (r # rs) latest records =
     (if ev_session_id r \<noteq> gq_session_id q then event_range_loop q rs latest records
      else if \<not> kind_ok (gq_kinds q) (ev_payload r) then event_range_loop q rs latest records
      else if some_and (\<lambda>a. ev_sequence r \<le> a) (gq_after_sequence q)
      then event_range_loop q rs (Some (ev_sequence r)) records
      else if some_and (\<lambda>u. ev_sequence r > u) (gq_up_to_sequence q)
      then event_range_loop q rs (Some (ev_sequence r)) records
      else event_range_loop q rs (Some (ev_sequence r)) (records @ [r]))"

definition session_event_range_of :: "event_record list \<Rightarrow> session_event_range_query \<Rightarrow> session_event_range" where
  "session_event_range_of events q = event_range_loop q events None []"

section \<open>What the loops compute\<close>

definition last_sequence :: "event_record list \<Rightarrow> nat option" where
  "last_sequence rs = (if rs = [] then None else Some (ev_sequence (last rs)))"

lemma last_sequence_simps [simp]:
  "last_sequence [] = None" "last_sequence (rs @ [r]) = Some (ev_sequence r)"
  by (simp_all add: last_sequence_def)

lemma last_sequence_Cons: "last_sequence (r # rs) = opt_or (last_sequence rs) (Some (ev_sequence r))"
  by (simp add: last_sequence_def)

definition of_run :: "run_event_range_query \<Rightarrow> event_record \<Rightarrow> bool" where
  "of_run q r \<longleftrightarrow> ev_session_id r = rq'_session_id q \<and> event_run_id (ev_payload r) = Some (rq'_run_id q)"

definition after_run_cursor :: "run_event_range_query \<Rightarrow> event_record \<Rightarrow> bool" where
  "after_run_cursor q r \<longleftrightarrow> of_run q r \<and> none_or (\<lambda>a. a < ev_sequence r) (rq'_after_sequence q)"

lemma run_range_loop_eq:
  "run_range_loop q rs latest selected =
     \<lparr>rr'_records = selected @ take (rq'_limit q - length selected) (filter (after_run_cursor q) rs),
      rr'_latest_sequence = opt_or (last_sequence (filter (of_run q) rs)) latest\<rparr>"
proof (induction rs arbitrary: latest selected)
  case Nil
  then show ?case by simp
next
  case (Cons r rs)
  have "(rq'_limit q - length selected = Suc (rq'_limit q - Suc (length selected))) \<or>
      rq'_limit q \<le> length selected" by linarith
  with Cons show ?case
    by (auto simp: of_run_def after_run_cursor_def last_sequence_Cons none_or_def some_and_def
        opt_or_def split: option.splits)
qed

lemma run_range_eq [page_simps]:
  "run_event_range_from_records rs q =
     \<lparr>rr'_records = take (rq'_limit q) (filter (after_run_cursor q) rs),
      rr'_latest_sequence = last_sequence (filter (of_run q) rs)\<rparr>"
  by (simp add: run_event_range_from_records_def run_range_loop_eq opt_or_def split: option.splits)

definition of_session :: "session_id \<Rightarrow> daemon_event_kind list \<Rightarrow> event_record \<Rightarrow> bool" where
  "of_session s kinds r \<longleftrightarrow> ev_session_id r = s \<and> kind_ok kinds (ev_payload r)"

definition before_cursor :: "session_event_page_query \<Rightarrow> event_record \<Rightarrow> bool" where
  "before_cursor q r \<longleftrightarrow> of_session (pq_session_id q) (pq_kinds q) r \<and>
     none_or (\<lambda>b. ev_sequence r < b) (pq_before_sequence q)"

lemma event_page_loop_records:
  "length records \<le> pq_limit q \<Longrightarrow>
   fst (snd (event_page_loop q rs latest records)) =
     records @ take (pq_limit q - length records) (filter (before_cursor q) rs)"
proof (induction rs arbitrary: latest records)
  case Nil
  then show ?case by simp
next
  case (Cons r rs)
  show ?case
  proof (cases "length records < pq_limit q")
    case True
    then have "pq_limit q - length records = Suc (pq_limit q - Suc (length records))" by linarith
    with Cons True show ?thesis
      by (auto simp: before_cursor_def of_session_def Let_def none_or_def some_and_def split: option.splits)
  next
    case False
    with Cons show ?thesis
      by (auto simp: before_cursor_def of_session_def Let_def none_or_def some_and_def split: option.splits)
  qed
qed

lemma event_page_loop_more:
  "length records \<le> pq_limit q \<Longrightarrow>
   snd (snd (event_page_loop q rs latest records)) =
     (pq_limit q < length records + length (filter (before_cursor q) rs))"
  by (induction rs arbitrary: latest records)
     (auto simp: before_cursor_def of_session_def Let_def none_or_def some_and_def split: option.splits)

lemma event_page_loop_latest:
  "length records \<le> pq_limit q \<Longrightarrow>
   fst (event_page_loop q rs latest records) =
     opt_or latest (last_sequence (rev (filter (of_session (pq_session_id q) (pq_kinds q)) rs)))"
proof (induction rs arbitrary: latest records)
  case Nil
  then show ?case by (cases latest) simp_all
next
  case (Cons r rs)
  then show ?case
    by (cases latest)
       (auto simp: of_session_def Let_def none_or_def some_and_def split: option.splits)
qed

text \<open>The records a page query selects, newest first.\<close>

definition page_matches :: "event_record list \<Rightarrow> session_event_page_query \<Rightarrow> event_record list" where
  "page_matches events q = filter (before_cursor q) (rev events)"

lemma session_event_page_eq [page_simps]:
  "session_event_page_of events q =
     (let all = page_matches events q; page = take (pq_limit q) all
      in \<lparr>pg_records = page,
          pg_next_before_sequence = (if pq_limit q < length all then last_sequence page else None),
          pg_latest_sequence = last_sequence (filter (of_session (pq_session_id q) (pq_kinds q)) events)\<rparr>)"
  using event_page_loop_records [of "[]" q "rev events" None]
    event_page_loop_more [of "[]" q "rev events" None]
    event_page_loop_latest [of "[]" q "rev events" None]
  by (cases "pq_limit q") (auto simp: session_event_page_of_def page_matches_def last_sequence_def
      rev_filter Let_def split: prod.splits)

definition in_range :: "session_event_range_query \<Rightarrow> event_record \<Rightarrow> bool" where
  "in_range q r \<longleftrightarrow> of_session (gq_session_id q) (gq_kinds q) r \<and>
     none_or (\<lambda>a. a < ev_sequence r) (gq_after_sequence q) \<and>
     none_or (\<lambda>u. ev_sequence r \<le> u) (gq_up_to_sequence q)"

lemma event_range_loop_eq:
  "event_range_loop q rs latest records =
     \<lparr>rg_records = records @ filter (in_range q) rs,
      rg_latest_sequence =
        opt_or (last_sequence (filter (of_session (gq_session_id q) (gq_kinds q)) rs)) latest\<rparr>"
  by (induction rs arbitrary: latest records)
     (auto simp: in_range_def of_session_def last_sequence_Cons none_or_def some_and_def opt_or_def
        split: option.splits)

lemma session_event_range_eq [page_simps]:
  "session_event_range_of events q =
     \<lparr>rg_records = filter (in_range q) events,
      rg_latest_sequence = last_sequence (filter (of_session (gq_session_id q) (gq_kinds q)) events)\<rparr>"
  by (simp add: session_event_range_of_def event_range_loop_eq opt_or_def split: option.splits)

section \<open>Cursors continue exactly behind the page\<close>

abbreviation by_sequence :: "event_record list \<Rightarrow> bool" where
  "by_sequence rs \<equiv> sorted_wrt (\<lambda>a b. ev_sequence a < ev_sequence b) rs"

lemma page_cursor_continues:
  assumes srt: "by_sequence events" and nxt: "pg_next_before_sequence (session_event_page_of events q) = Some b"
  shows "page_matches events q =
      pg_records (session_event_page_of events q) @ page_matches events (q\<lparr>pq_before_sequence := Some b\<rparr>)"
proof -
  let ?all = "page_matches events q" and ?n = "pq_limit q"
  have ne: "take ?n ?all \<noteq> []" and b: "b = ev_sequence (last (take ?n ?all))"
    using nxt by (auto simp: session_event_page_eq Let_def last_sequence_def split: if_splits)
  have desc: "sorted_wrt (\<lambda>x y. ev_sequence y < ev_sequence x) ?all"
    using srt unfolding page_matches_def by (simp add: sorted_wrt_filter sorted_wrt_rev)
  have "last (take ?n ?all) \<in> set ?all" using ne by (meson in_set_takeD last_in_set)
  then have "before_cursor q (last (take ?n ?all))" by (simp add: page_matches_def)
  then have "before_cursor (q\<lparr>pq_before_sequence := Some b\<rparr>) r \<longleftrightarrow>
      before_cursor q r \<and> ev_sequence r < b" for r
    unfolding b before_cursor_def by (cases "pq_before_sequence q") auto
  then have "page_matches events (q\<lparr>pq_before_sequence := Some b\<rparr>) = filter (\<lambda>r. ev_sequence r < b) ?all"
    by (auto simp: page_matches_def intro: filter_cong)
  also have "\<dots> = drop ?n ?all"
    using sorted_after_page [OF desc _ ne] by (simp add: b)
  finally show ?thesis by (simp add: session_event_page_eq Let_def)
qed

text \<open>
  Reading a session's events page by page loses and repeats nothing: a page holds the newest
  matching records before the cursor in descending order, at most \<open>limit\<close> of them; if it offers
  a next cursor, the records that query selects are exactly those the page left out; and if it
  offers none and the limit is positive, the page holds all of them.
\<close>

theorem event_pages_partition:
  assumes "by_sequence events" and "0 < pq_limit q"
  shows "length (pg_records (session_event_page_of events q)) \<le> pq_limit q \<and>
    page_matches events q = pg_records (session_event_page_of events q) @
      (case pg_next_before_sequence (session_event_page_of events q) of
         None \<Rightarrow> [] | Some b \<Rightarrow> page_matches events (q\<lparr>pq_before_sequence := Some b\<rparr>))"
proof (cases "pg_next_before_sequence (session_event_page_of events q)")
  case None
  then have "length (page_matches events q) \<le> pq_limit q"
    using assms(2) by (auto simp: session_event_page_eq Let_def last_sequence_def split: if_splits)
  with None show ?thesis by (simp add: session_event_page_eq Let_def)
next
  case (Some b)
  with page_cursor_continues [OF assms(1) Some] show ?thesis
    by (simp add: session_event_page_eq Let_def)
qed

lemma run_cursor_continues:
  assumes srt: "by_sequence events"
    and page: "rr'_records (run_event_range_from_records events q) = page" and ne: "page \<noteq> []"
  shows "filter (after_run_cursor q) events =
    page @ filter (after_run_cursor (q\<lparr>rq'_after_sequence := Some (ev_sequence (last page))\<rparr>)) events"
proof -
  let ?all = "filter (after_run_cursor q) events"
  have p: "page = take (rq'_limit q) ?all" using page by (simp add: run_range_eq)
  have "last page \<in> set ?all" using ne p by (metis in_set_takeD last_in_set)
  then have "after_run_cursor q (last page)" by simp
  then have "after_run_cursor (q\<lparr>rq'_after_sequence := Some (ev_sequence (last page))\<rparr>) r \<longleftrightarrow>
      after_run_cursor q r \<and> ev_sequence (last page) < ev_sequence r" for r
    by (auto simp: after_run_cursor_def of_run_def none_or_def split: option.splits)
  then have "filter (after_run_cursor (q\<lparr>rq'_after_sequence := Some (ev_sequence (last page))\<rparr>)) events =
      filter (\<lambda>r. ev_sequence (last page) < ev_sequence r) ?all"
    by (auto intro: filter_cong)
  also have "\<dots> = drop (rq'_limit q) ?all"
    using sorted_after_page [of "\<lambda>a b. ev_sequence a < ev_sequence b" ?all "rq'_limit q"] srt ne p
    by (simp add: sorted_wrt_filter)
  finally show ?thesis using p by simp
qed

text \<open>
  Replaying a run: the batch after a cursor is a prefix of the run's events after it, the
  batch after the last event delivered is the rest of them, and with a positive limit an empty
  batch means there is nothing left; the reported latest sequence is the one of the run's last
  event whatever the cursor.
\<close>

theorem run_replay_no_gap_no_repeat:
  assumes "by_sequence events" and "0 < rq'_limit q"
    and "rr'_records (run_event_range_from_records events q) = page"
  shows "length page \<le> rq'_limit q \<and>
    filter (after_run_cursor q) events =
      (if page = [] then [] else page @
         filter (after_run_cursor (q\<lparr>rq'_after_sequence := Some (ev_sequence (last page))\<rparr>)) events) \<and>
    rr'_latest_sequence (run_event_range_from_records events q) =
      last_sequence (filter (of_run q) events)"
  using assms run_cursor_continues [OF assms(1,3)] by (auto simp: run_range_eq)

text \<open>A log of three runs' events over two sessions, for the witnesses.\<close>

definition demo_run_record :: "nat \<Rightarrow> string \<Rightarrow> string \<Rightarrow> event_record" where
  "demo_run_record n s r = \<lparr>ev_sequence = n, ev_session_id = Ident s, ev_occurred_at_ms = 10 * n,
     ev_payload = EvRun \<lparr>re_run_id = Ident r, re_status = Running, re_detail = ''step'',
       re_output_contract = None, re_recipe_id = None, re_result = None\<rparr>\<rparr>"

definition demo_log :: "event_record list" where
  "demo_log = [demo_run_record 1 ''s'' ''a'', demo_run_record 2 ''s'' ''b'', demo_run_record 3 ''t'' ''a'',
     demo_run_record 4 ''s'' ''a'', demo_run_record 6 ''s'' ''a'']"

definition demo_page_query :: session_event_page_query where
  "demo_page_query = \<lparr>pq_session_id = Ident ''s'', pq_before_sequence = Some 6, pq_limit = 2, pq_kinds = [KRun]\<rparr>"

definition demo_run_query :: run_event_range_query where
  "demo_run_query = \<lparr>rq'_session_id = Ident ''s'', rq'_run_id = Ident ''a'', rq'_after_sequence = None, rq'_limit = 2\<rparr>"

lemma demo_by_sequence: "by_sequence demo_log"
  by (simp add: demo_log_def demo_run_record_def)

theorem event_pages_partition_witness:
  "length (pg_records (session_event_page_of demo_log demo_page_query)) \<le> pq_limit demo_page_query \<and>
   pg_records (session_event_page_of demo_log demo_page_query)
     = [demo_run_record 4 ''s'' ''a'', demo_run_record 2 ''s'' ''b''] \<and>
   page_matches demo_log (demo_page_query\<lparr>pq_before_sequence := Some 2\<rparr>) = [demo_run_record 1 ''s'' ''a'']"
proof -
  have "0 < pq_limit demo_page_query" by (simp add: demo_page_query_def)
  note this [THEN event_pages_partition [OF demo_by_sequence]]
  moreover have "pg_records (session_event_page_of demo_log demo_page_query)
      = [demo_run_record 4 ''s'' ''a'', demo_run_record 2 ''s'' ''b'']"
    and "pg_next_before_sequence (session_event_page_of demo_log demo_page_query) = Some 2"
    and "page_matches demo_log demo_page_query = [demo_run_record 4 ''s'' ''a'',
      demo_run_record 2 ''s'' ''b'', demo_run_record 1 ''s'' ''a'']"
    by (simp_all add: session_event_page_of_def page_matches_def before_cursor_def of_session_def
        kind_ok_def demo_log_def demo_run_record_def demo_page_query_def)
  ultimately show ?thesis by simp
qed

theorem run_replay_no_gap_no_repeat_witness:
  "rr'_records (run_event_range_from_records demo_log demo_run_query)
     = [demo_run_record 1 ''s'' ''a'', demo_run_record 4 ''s'' ''a''] \<and>
   filter (after_run_cursor (demo_run_query\<lparr>rq'_after_sequence := Some 4\<rparr>)) demo_log
     = [demo_run_record 6 ''s'' ''a''] \<and>
   rr'_latest_sequence (run_event_range_from_records demo_log demo_run_query) = Some 6"
proof -
  have page: "rr'_records (run_event_range_from_records demo_log demo_run_query)
      = [demo_run_record 1 ''s'' ''a'', demo_run_record 4 ''s'' ''a'']"
    by (simp add: run_event_range_from_records_def demo_log_def demo_run_record_def demo_run_query_def)
  have pos: "0 < rq'_limit demo_run_query" by (simp add: demo_run_query_def)
  have "filter (after_run_cursor demo_run_query) demo_log =
      [demo_run_record 1 ''s'' ''a'', demo_run_record 4 ''s'' ''a'', demo_run_record 6 ''s'' ''a'']"
    and "last_sequence (filter (of_run demo_run_query) demo_log) = Some 6"
    and "ev_sequence (demo_run_record 4 ''s'' ''a'') = 4"
    by (simp_all add: after_run_cursor_def of_run_def demo_log_def demo_run_record_def
        demo_run_query_def last_sequence_def)
  with run_replay_no_gap_no_repeat [OF demo_by_sequence pos page] page show ?thesis by simp
qed

end
