(* ===== verification/StoreErrors.thy ===== *)
theory StoreErrors
  imports Wire
begin

text \<open>
  The errors of the stores (\<open>crates/ta-store/src/error.rs\<close>) and their hand-written equality,
  which compares the underlying I/O, database and encoding errors by nothing but their place.
  Those sources are opaque.
\<close>

typedecl io_error
typedecl sqlite_error
typedecl serde_error

datatype store_error =
    DuplicateRecord string string
  | MissingRecord string string
  | CommitSessionMismatch string string string
  | CommitRunStatusMismatch string run_status run_status
  | CommitRunEventMismatch string string
  | ImmutableRunExecutionContext string
  | EmptyCommitEvents
  | SessionWorkspaceMissing string
  | ApprovalLifecycleViolation string string
  | AgentTurnProjectionViolation string
  | InvalidProvenance string
  | ReceiptTransitionViolation string string
  | ReceiptClockBeforeUnixEpoch
  | ReceiptTimestampOutOfRange
  | CreateStoreParentDirectory string io_error
  | OpenStore string sqlite_error
  | PrepareStore string sqlite_error
  | IntegrityCheckFailed string string
  | ForeignKeyCheckFailed string string
  | MissingSchemaObject string string string
  | SchemaShapeMismatch string string string
  | QueryStore string sqlite_error
  | EncodeRecord string serde_error
  | DecodeRecord string serde_error

text \<open>\<open>impl PartialEq for StoreError\<close>.\<close>

definition store_error_eq :: "store_error \<Rightarrow> store_error \<Rightarrow> bool" where
  "store_error_eq l r =
     (case l of
        DuplicateRecord e k \<Rightarrow> (case r of DuplicateRecord e' k' \<Rightarrow> e = e' \<and> k = k' | _ \<Rightarrow> False)
      | MissingRecord e k \<Rightarrow> (case r of MissingRecord e' k' \<Rightarrow> e = e' \<and> k = k' | _ \<Rightarrow> False)
      | CommitSessionMismatch e x a \<Rightarrow>
          (case r of CommitSessionMismatch e' x' a' \<Rightarrow> e = e' \<and> x = x' \<and> a = a' | _ \<Rightarrow> False)
      | CommitRunStatusMismatch e x a \<Rightarrow>
          (case r of CommitRunStatusMismatch e' x' a' \<Rightarrow> e = e' \<and> x = x' \<and> a = a' | _ \<Rightarrow> False)
      | CommitRunEventMismatch x a \<Rightarrow>
          (case r of CommitRunEventMismatch x' a' \<Rightarrow> x = x' \<and> a = a' | _ \<Rightarrow> False)
      | ImmutableRunExecutionContext i \<Rightarrow>
          (case r of ImmutableRunExecutionContext i' \<Rightarrow> i = i' | _ \<Rightarrow> False)
      | EmptyCommitEvents \<Rightarrow> (case r of EmptyCommitEvents \<Rightarrow> True | _ \<Rightarrow> False)
      | SessionWorkspaceMissing w \<Rightarrow> (case r of SessionWorkspaceMissing w' \<Rightarrow> w = w' | _ \<Rightarrow> False)
      | ApprovalLifecycleViolation i d \<Rightarrow>
          (case r of ApprovalLifecycleViolation i' d' \<Rightarrow> i = i' \<and> d = d' | _ \<Rightarrow> False)
      | AgentTurnProjectionViolation d \<Rightarrow>
          (case r of AgentTurnProjectionViolation d' \<Rightarrow> d = d' | _ \<Rightarrow> False)
      | InvalidProvenance m \<Rightarrow> (case r of InvalidProvenance m' \<Rightarrow> m = m' | _ \<Rightarrow> False)
      | ReceiptTransitionViolation i d \<Rightarrow>
          (case r of ReceiptTransitionViolation i' d' \<Rightarrow> i = i' \<and> d = d' | _ \<Rightarrow> False)
      | ReceiptClockBeforeUnixEpoch \<Rightarrow> (case r of ReceiptClockBeforeUnixEpoch \<Rightarrow> True | _ \<Rightarrow> False)
      | ReceiptTimestampOutOfRange \<Rightarrow> (case r of ReceiptTimestampOutOfRange \<Rightarrow> True | _ \<Rightarrow> False)
      | CreateStoreParentDirectory p _ \<Rightarrow>
          (case r of CreateStoreParentDirectory p' _ \<Rightarrow> p = p' | _ \<Rightarrow> False)
      | OpenStore p _ \<Rightarrow> (case r of OpenStore p' _ \<Rightarrow> p = p' | _ \<Rightarrow> False)
      | PrepareStore p _ \<Rightarrow> (case r of PrepareStore p' _ \<Rightarrow> p = p' | _ \<Rightarrow> False)
      | IntegrityCheckFailed p x \<Rightarrow>
          (case r of IntegrityCheckFailed p' x' \<Rightarrow> p = p' \<and> x = x' | _ \<Rightarrow> False)
      | ForeignKeyCheckFailed p d \<Rightarrow>
          (case r of ForeignKeyCheckFailed p' d' \<Rightarrow> p = p' \<and> d = d' | _ \<Rightarrow> False)
      | MissingSchemaObject p k n \<Rightarrow>
          (case r of MissingSchemaObject p' k' n' \<Rightarrow> p = p' \<and> k = k' \<and> n = n' | _ \<Rightarrow> False)
      | SchemaShapeMismatch p t d \<Rightarrow>
          (case r of SchemaShapeMismatch p' t' d' \<Rightarrow> p = p' \<and> t = t' \<and> d = d' | _ \<Rightarrow> False)
      | QueryStore e _ \<Rightarrow> (case r of QueryStore e' _ \<Rightarrow> e = e' | _ \<Rightarrow> False)
      | EncodeRecord e _ \<Rightarrow> (case r of EncodeRecord e' _ \<Rightarrow> e = e' | _ \<Rightarrow> False)
      | DecodeRecord e _ \<Rightarrow> (case r of DecodeRecord e' _ \<Rightarrow> e = e' | _ \<Rightarrow> False))"

text \<open>What the equality sees of an error: its constructor and its fields but the source.\<close>

fun visible_error :: "store_error \<Rightarrow> nat \<times> string list \<times> run_status list" where
  "visible_error (DuplicateRecord e k) = (0, [e, k], [])"
| "visible_error (MissingRecord e k) = (1, [e, k], [])"
| "visible_error (CommitSessionMismatch e x a) = (2, [e, x, a], [])"
| "visible_error (CommitRunStatusMismatch e x a) = (3, [e], [x, a])"
| "visible_error (CommitRunEventMismatch x a) = (4, [x, a], [])"
| "visible_error (ImmutableRunExecutionContext i) = (5, [i], [])"
| "visible_error EmptyCommitEvents = (6, [], [])"
| "visible_error (SessionWorkspaceMissing w) = (7, [w], [])"
| "visible_error (ApprovalLifecycleViolation i d) = (8, [i, d], [])"
| "visible_error (AgentTurnProjectionViolation d) = (9, [d], [])"
| "visible_error (InvalidProvenance m) = (10, [m], [])"
| "visible_error (ReceiptTransitionViolation i d) = (11, [i, d], [])"
| "visible_error ReceiptClockBeforeUnixEpoch = (12, [], [])"
| "visible_error ReceiptTimestampOutOfRange = (13, [], [])"
| "visible_error (CreateStoreParentDirectory p _) = (14, [p], [])"
| "visible_error (OpenStore p _) = (15, [p], [])"
| "visible_error (PrepareStore p _) = (16, [p], [])"
| "visible_error (IntegrityCheckFailed p x) = (17, [p, x], [])"
| "visible_error (ForeignKeyCheckFailed p d) = (18, [p, d], [])"
| "visible_error (MissingSchemaObject p k n) = (19, [p, k, n], [])"
| "visible_error (SchemaShapeMismatch p t d) = (20, [p, t, d], [])"
| "visible_error (QueryStore e _) = (21, [e], [])"
| "visible_error (EncodeRecord e _) = (22, [e], [])"
| "visible_error (DecodeRecord e _) = (23, [e], [])"

text \<open>
  The hand-written \<open>PartialEq\<close> of the store errors, all twenty-four branches and the
  catch-all, equates exactly the errors with the same constructor and the same fields apart from
  the opaque source: so the \<open>Eq\<close> the type also claims is lawful (an equivalence).
\<close>

theorem store_error_equality:
  "store_error_eq l r = (visible_error l = visible_error r)"
  by (cases l) (cases r; simp add: store_error_eq_def)+

end
