(* ===== verification/ApprovalLifecycle.thy ===== *)
theory ApprovalLifecycle
  imports Events StoreErrors
begin

text \<open>
  The approval lifecycle (\<open>crates/ta-store/src/approval_lifecycle.rs\<close>): the fold of a session's
  log into the pending and the resolved approvals, the two queries on it, and the validation of
  the events of a run transition. It refines one automaton per approval: absent, pending with
  its request, resolved.
\<close>

section \<open>The state and its operations\<close>

record approval_lifecycle_state =
  al_pending :: "(approval_id, nat \<times> approval_request) btree"
  al_resolved :: "approval_id set"

definition lifecycle_error :: "approval_id \<Rightarrow> string \<Rightarrow> store_error" where
  "lifecycle_error a detail = ApprovalLifecycleViolation (as_str a) detail"

fun apply_approval_event :: "approval_event \<Rightarrow> nat \<Rightarrow> run_id option \<Rightarrow> approval_lifecycle_state \<Rightarrow>
    (approval_lifecycle_state, store_error) result" where
  "apply_approval_event (ApprovalRequested q) sequence expected st =
     (if some_and (\<lambda>r. rq_run_id q \<noteq> r) expected
      then Err (lifecycle_error (rq_id q) ''approval request run id does not match committed run'')
      else if bt_contains (al_pending st) (rq_id q)
      then Err (lifecycle_error (rq_id q) ''approval request is already pending'')
      else if rq_id q \<in> al_resolved st
      then Err (lifecycle_error (rq_id q) ''approval request was already resolved'')
      else Ok (st\<lparr>al_pending := bt_put (rq_id q) (sequence, q) (al_pending st)\<rparr>))"
| "apply_approval_event (ApprovalResolved r) sequence expected st =
     (if some_and (\<lambda>i. rs_run_id r \<noteq> i) expected
      then Err (lifecycle_error (rs_approval_id r)
        ''approval resolution run id does not match committed run'')
      else if rs_approval_id r \<in> al_resolved st
      then Err (lifecycle_error (rs_approval_id r) ''approval is already resolved'')
      else case bt_get (al_pending st) (rs_approval_id r) of
        None \<Rightarrow> Err (lifecycle_error (rs_approval_id r)
          ''approval resolution does not match a pending request'')
      | Some (_, q) \<Rightarrow>
          if rq_run_id q \<noteq> rs_run_id r
          then Err (lifecycle_error (rs_approval_id r)
            ''approval resolution run id does not match the pending request'')
          else if rq_tool_call_id q \<noteq> rs_tool_call_id r
          then Err (lifecycle_error (rs_approval_id r)
            ''approval resolution tool call id does not match the pending request'')
          else Ok (st\<lparr>al_pending := bt_del (rs_approval_id r) (al_pending st),
                     al_resolved := insert (rs_approval_id r) (al_resolved st)\<rparr>))"

definition apply_daemon_event :: "daemon_event \<Rightarrow> nat \<Rightarrow> run_id option \<Rightarrow> approval_lifecycle_state \<Rightarrow>
    (approval_lifecycle_state, store_error) result" where
  "apply_daemon_event e sequence expected st =
     (case e of EvApproval a \<Rightarrow> apply_approval_event a sequence expected st | _ \<Rightarrow> Ok st)"

definition empty_lifecycle :: approval_lifecycle_state where
  "empty_lifecycle = \<lparr>al_pending = [], al_resolved = {}\<rparr>"

fun fold_records :: "event_record list \<Rightarrow> approval_lifecycle_state \<Rightarrow>
    (approval_lifecycle_state, store_error) result" where
  "fold_records [] st = Ok st"
| "fold_records (r # rs) st =
     try_then (apply_daemon_event (ev_payload r) (ev_sequence r) None st) (\<lambda>st'. fold_records rs st')"

definition fold_session_records :: "event_record list \<Rightarrow> (approval_lifecycle_state, store_error) result" where
  "fold_session_records rs = fold_records rs empty_lifecycle"

definition approvals_for_query :: "approval_lifecycle_state \<Rightarrow> session_approval_query \<Rightarrow> approval_request list" where
  "approvals_for_query st q =
     map snd (sort_desc fst
       (List.map_filter (\<lambda>(sequence, a).
          if some_and (\<lambda>r. rq_run_id a \<noteq> r) (aq_run_id q) then None
          else if some_and (\<lambda>i. rq_id a \<noteq> i) (aq_approval_id q) then None
          else Some (sequence, a)) (bt_values (al_pending st))))"

definition lifecycle_lookup :: "approval_lifecycle_state \<Rightarrow> approval_id \<Rightarrow> session_approval_lookup" where
  "lifecycle_lookup st a =
     (case bt_get (al_pending st) a of
        Some (_, q) \<Rightarrow> Pending q
      | None \<Rightarrow> if a \<in> al_resolved st then Resolved else NotFound)"

fun validate_events :: "nat \<Rightarrow> run_id \<Rightarrow> daemon_event list \<Rightarrow> approval_lifecycle_state \<Rightarrow>
    (unit, store_error) result" where
  "validate_events index run [] st = Ok ()"
| "validate_events index run (e # es) st =
     try_then (apply_daemon_event e index (Some run) st) (\<lambda>st'. validate_events (index + 1) run es st')"

definition validate_run_transition :: "approval_lifecycle_state \<Rightarrow> run_id \<Rightarrow> daemon_event list \<Rightarrow>
    (unit, store_error) result" where
  "validate_run_transition st run events = validate_events 0 run events st"

section \<open>One automaton per approval\<close>

fun approval_of :: "daemon_event \<Rightarrow> approval_event option" where
  "approval_of (EvApproval a) = Some a"
| "approval_of _ = None"

fun approval_event_id :: "approval_event \<Rightarrow> approval_id" where
  "approval_event_id (ApprovalRequested q) = rq_id q"
| "approval_event_id (ApprovalResolved r) = rs_approval_id r"

fun approval_event_run :: "approval_event \<Rightarrow> run_id" where
  "approval_event_run (ApprovalRequested q) = rq_run_id q"
| "approval_event_run (ApprovalResolved r) = rs_run_id r"

text \<open>A step of the automaton; \<open>NotFound\<close> is the absent state.\<close>

fun approval_step :: "session_approval_lookup \<Rightarrow> approval_event \<Rightarrow> session_approval_lookup option" where
  "approval_step NotFound (ApprovalRequested q) = Some (Pending q)"
| "approval_step (Pending q) (ApprovalResolved r) =
     (if rq_run_id q = rs_run_id r \<and> rq_tool_call_id q = rs_tool_call_id r then Some Resolved else None)"
| "approval_step _ _ = None"

fun approval_run :: "session_approval_lookup \<Rightarrow> approval_event list \<Rightarrow> session_approval_lookup option" where
  "approval_run s [] = Some s"
| "approval_run s (e # es) = Option.bind (approval_step s e) (\<lambda>s'. approval_run s' es)"

text \<open>The events of one approval in a list of daemon events.\<close>

definition approval_trace :: "approval_id \<Rightarrow> daemon_event list \<Rightarrow> approval_event list" where
  "approval_trace a es = filter (\<lambda>e. approval_event_id e = a) (List.map_filter approval_of es)"

definition lifecycle_ok :: "approval_lifecycle_state \<Rightarrow> bool" where
  "lifecycle_ok st \<longleftrightarrow> bt_wf (al_pending st) \<and>
     (\<forall>a. bt_contains (al_pending st) a \<longrightarrow> a \<notin> al_resolved st) \<and>
     (\<forall>a n q. bt_get (al_pending st) a = Some (n, q) \<longrightarrow> rq_id q = a)"

lemma lifecycle_ok_empty [simp]: "lifecycle_ok empty_lifecycle"
  by (simp add: lifecycle_ok_def empty_lifecycle_def)

lemma lookup_empty [simp]: "lifecycle_lookup empty_lifecycle a = NotFound"
  by (simp add: lifecycle_lookup_def empty_lifecycle_def)

lemma approval_trace_simps [simp]:
  "approval_trace a [] = []"
  "approval_trace a (e # es) =
     (case approval_of e of None \<Rightarrow> approval_trace a es
      | Some x \<Rightarrow> if approval_event_id x = a then x # approval_trace a es else approval_trace a es)"
  by (auto simp: approval_trace_def map_filter_simps split: option.splits)

lemma approval_run_append:
  "approval_run s (xs @ ys) = Option.bind (approval_run s xs) (\<lambda>s'. approval_run s' ys)"
  by (induction s xs rule: approval_run.induct) (auto split: bind_splits)

text \<open>An operation is a step of the automaton of its approval and of no other.\<close>

lemma apply_approval_simulation:
  assumes "lifecycle_ok st"
  shows "case apply_approval_event e n expected st of
      Inl _ \<Rightarrow> some_and (\<lambda>r. approval_event_run e \<noteq> r) expected \<or>
        approval_step (lifecycle_lookup st (approval_event_id e)) e = None
    | Inr st' \<Rightarrow> none_or (\<lambda>r. approval_event_run e = r) expected \<and> lifecycle_ok st' \<and>
        approval_step (lifecycle_lookup st (approval_event_id e)) e =
          Some (lifecycle_lookup st' (approval_event_id e)) \<and>
        (\<forall>a. a \<noteq> approval_event_id e \<longrightarrow> lifecycle_lookup st' a = lifecycle_lookup st a)"
  using assms
  by (cases e; cases expected)
     (auto simp: lifecycle_ok_def lifecycle_lookup_def bt_contains_iff split: option.splits prod.splits)

lemma apply_daemon_simulation:
  assumes "lifecycle_ok st"
  shows "case apply_daemon_event e n expected st of
      Inl _ \<Rightarrow> (\<exists>x. approval_of e = Some x \<and>
        (some_and (\<lambda>r. approval_event_run x \<noteq> r) expected \<or>
         approval_run (lifecycle_lookup st (approval_event_id x)) (approval_trace (approval_event_id x) [e]) = None))
    | Inr st' \<Rightarrow> (\<forall>x. approval_of e = Some x \<longrightarrow> none_or (\<lambda>r. approval_event_run x = r) expected) \<and>
        lifecycle_ok st' \<and>
        (\<forall>a. approval_run (lifecycle_lookup st a) (approval_trace a [e]) = Some (lifecycle_lookup st' a))"
proof (cases "approval_of e")
  case None
  then have "\<And>a. e \<noteq> EvApproval a" by auto
  then have "apply_daemon_event e n expected st = Ok st"
    by (simp add: apply_daemon_event_def split: daemon_event.splits)
  with None assms show ?thesis by simp
next
  case (Some x)
  then have "e = EvApproval x" by (cases e) auto
  then have "apply_daemon_event e n expected st = apply_approval_event x n expected st"
    by (simp add: apply_daemon_event_def)
  with Some apply_approval_simulation [OF assms, of x expected n] show ?thesis
    by (fastforce split: sum.splits)
qed

section \<open>The fold\<close>

abbreviation payloads :: "event_record list \<Rightarrow> daemon_event list" where
  "payloads \<equiv> map ev_payload"

lemma approval_trace_append: "approval_trace a (xs @ ys) = approval_trace a xs @ approval_trace a ys"
  by (induction xs) (auto split: option.splits)

lemma fold_records_refines:
  "lifecycle_ok st \<Longrightarrow>
   case fold_records rs st of
     Inl _ \<Rightarrow> \<exists>a. approval_run (lifecycle_lookup st a) (approval_trace a (payloads rs)) = None
   | Inr st' \<Rightarrow> lifecycle_ok st' \<and>
       (\<forall>a. approval_run (lifecycle_lookup st a) (approval_trace a (payloads rs)) = Some (lifecycle_lookup st' a))"
proof (induction rs arbitrary: st)
  case Nil
  then show ?case by simp
next
  case (Cons r rs)
  have split: "approval_trace a (payloads (r # rs)) =
      approval_trace a [ev_payload r] @ approval_trace a (payloads rs)" for a
    using approval_trace_append [of a "[ev_payload r]" "payloads rs"] by (simp del: approval_trace_simps)
  note sim = apply_daemon_simulation [OF Cons.prems, where e = "ev_payload r" and n = "ev_sequence r" and expected = None]
  show ?case
  proof (cases "apply_daemon_event (ev_payload r) (ev_sequence r) None st")
    case (Inl e)
    with sim obtain a where "approval_run (lifecycle_lookup st a) (approval_trace a [ev_payload r]) = None"
      by (auto simp del: approval_trace_simps)
    then have "approval_run (lifecycle_lookup st a) (approval_trace a (payloads (r # rs))) = None"
      unfolding split approval_run_append by simp
    then show ?thesis using Inl by auto
  next
    case (Inr st')
    with sim have ok: "lifecycle_ok st'" and
      step: "\<And>a. approval_run (lifecycle_lookup st a) (approval_trace a [ev_payload r]) = Some (lifecycle_lookup st' a)"
      by simp_all
    have "approval_run (lifecycle_lookup st a) (approval_trace a (payloads (r # rs))) =
        approval_run (lifecycle_lookup st' a) (approval_trace a (payloads rs))" for a
      unfolding split approval_run_append step by simp
    then show ?thesis using Cons.IH [OF ok] Inr by (simp only: fold_records.simps try_then_simps)
  qed
qed

text \<open>
  C4. Folding a session's log refines one automaton per approval (absent, pending, resolved;
  resolved is final, and a resolution must carry the run and the tool call of its request). The
  fold succeeds if and only if the log's events of every approval are a path of its automaton,
  and then every lookup answers the state the automaton is in.
\<close>

theorem approval_fold_refines_automaton:
  "case fold_session_records evs of
     Inl _ \<Rightarrow> \<exists>a. approval_run NotFound (approval_trace a (payloads evs)) = None
   | Inr st \<Rightarrow> \<forall>a. approval_run NotFound (approval_trace a (payloads evs)) = Some (lifecycle_lookup st a)"
  using fold_records_refines [OF lifecycle_ok_empty, of evs]
  by (auto simp: fold_session_records_def split: sum.splits)

lemma fold_ok_iff:
  "is_ok (fold_session_records evs) \<longleftrightarrow> (\<forall>a. approval_run NotFound (approval_trace a (payloads evs)) \<noteq> None)"
  using fold_records_refines [OF lifecycle_ok_empty, of evs]
  by (auto simp: fold_session_records_def is_ok_def split: sum.splits)

lemma fold_session_ok: "fold_session_records evs = Ok st \<Longrightarrow> lifecycle_ok st"
  using fold_records_refines [OF lifecycle_ok_empty, of evs] by (simp add: fold_session_records_def)

lemma fold_session_lookup:
  "fold_session_records evs = Ok st \<Longrightarrow>
   approval_run NotFound (approval_trace a (payloads evs)) = Some (lifecycle_lookup st a)"
  using fold_records_refines [OF lifecycle_ok_empty, of evs] by (simp add: fold_session_records_def)

section \<open>Validation of a run transition\<close>

lemma validate_events_iff:
  "lifecycle_ok st \<Longrightarrow>
   is_ok (validate_events n run es st) \<longleftrightarrow>
     (\<forall>x\<in>set (List.map_filter approval_of es). approval_event_run x = run) \<and>
     (\<forall>a. approval_run (lifecycle_lookup st a) (approval_trace a es) \<noteq> None)"
proof (induction es arbitrary: st n)
  case Nil
  then show ?case by (simp add: map_filter_simps)
next
  case (Cons e es)
  have split: "approval_trace a (e # es) = approval_trace a [e] @ approval_trace a es" for a
    using approval_trace_append [of a "[e]" es] by (simp del: approval_trace_simps)
  note sim = apply_daemon_simulation [OF Cons.prems, where e = e and n = n and expected = "Some run"]
  show ?case
  proof (cases "apply_daemon_event e n (Some run) st")
    case (Inl err)
    with sim obtain x where x: "approval_of e = Some x" and
      bad: "approval_event_run x \<noteq> run \<or> approval_run (lifecycle_lookup st (approval_event_id x))
        (approval_trace (approval_event_id x) [e]) = None"
      by (auto simp del: approval_trace_simps)
    have "approval_run (lifecycle_lookup st a) (approval_trace a [e]) = None \<Longrightarrow>
        approval_run (lifecycle_lookup st a) (approval_trace a (e # es)) = None" for a
      unfolding split approval_run_append by simp
    then show ?thesis using Inl bad x by (auto simp: map_filter_simps simp del: approval_trace_simps)
  next
    case (Inr st')
    with sim have ok: "lifecycle_ok st'"
      and run: "\<forall>x. approval_of e = Some x \<longrightarrow> approval_event_run x = run"
      and step: "\<And>a. approval_run (lifecycle_lookup st a) (approval_trace a [e]) = Some (lifecycle_lookup st' a)"
      by simp_all
    have trace: "approval_run (lifecycle_lookup st a) (approval_trace a (e # es)) =
        approval_run (lifecycle_lookup st' a) (approval_trace a es)" for a
      unfolding split approval_run_append step by simp
    have "is_ok (validate_events n run (e # es) st) = is_ok (validate_events (n + 1) run es st')"
      using Inr by simp
    also note Cons.IH [OF ok]
    finally show ?thesis unfolding trace using run
      by (cases "approval_of e") (simp_all add: map_filter_simps)
  qed
qed

lemma validation_exact:
  assumes "fold_session_records evs = Ok st"
  shows "is_ok (validate_run_transition st run (payloads new)) \<longleftrightarrow>
    (\<forall>x\<in>set (List.map_filter approval_of (payloads new)). approval_event_run x = run) \<and>
    is_ok (fold_session_records (evs @ new))"
proof -
  have "approval_run NotFound (approval_trace a (payloads (evs @ new))) =
      approval_run (lifecycle_lookup st a) (approval_trace a (payloads new))" for a
    using fold_session_lookup [OF assms, of a] by (simp add: approval_trace_append approval_run_append)
  then show ?thesis
    unfolding fold_ok_iff validate_run_transition_def
    using validate_events_iff [OF fold_session_ok [OF assms]] by simp
qed

text \<open>
  C10. The validation before a run transition is exact: given the fold of a session's log, it
  accepts the events if and only if every approval event among them names the committed run and
  the log extended by them still folds. So a log that is extended only through it never stops
  folding, although validation numbers the events differently than the log does.
\<close>

theorem approval_validation_exact:
  assumes "fold_session_records evs = Ok st"
  shows "is_ok (validate_run_transition st run (payloads new)) \<longleftrightarrow>
    (\<forall>x\<in>set (List.map_filter approval_of (payloads new)). approval_event_run x = run) \<and>
    is_ok (fold_session_records (evs @ new))"
  using assms by (rule validation_exact)

section \<open>The pending approvals\<close>

definition requested_in :: "event_record list \<Rightarrow> nat \<Rightarrow> approval_request \<Rightarrow> bool" where
  "requested_in evs n q \<longleftrightarrow> (\<exists>r\<in>set evs. ev_sequence r = n \<and> ev_payload r = EvApproval (ApprovalRequested q))"

definition tracks :: "event_record list \<Rightarrow> approval_lifecycle_state \<Rightarrow> bool" where
  "tracks evs st \<longleftrightarrow>
     (\<forall>a n q. bt_get (al_pending st) a = Some (n, q) \<longleftrightarrow>
        requested_in evs n q \<and> rq_id q = a \<and> bt_contains (al_pending st) a) \<and>
     (\<forall>n q. requested_in evs n q \<longrightarrow> bt_contains (al_pending st) (rq_id q) \<or> rq_id q \<in> al_resolved st)"

lemma requested_in_snoc:
  "requested_in (evs @ [r]) n q \<longleftrightarrow> requested_in evs n q \<or>
     (ev_sequence r = n \<and> ev_payload r = EvApproval (ApprovalRequested q))"
  by (auto simp: requested_in_def)

lemma tracks_step:
  assumes ok: "lifecycle_ok st" and t: "tracks evs st"
    and step: "apply_daemon_event (ev_payload r) (ev_sequence r) None st = Ok st'"
  shows "tracks (evs @ [r]) st'"
proof (cases "ev_payload r")
  have t1: "bt_get (al_pending st) a = Some (n, q) \<longleftrightarrow>
      requested_in evs n q \<and> rq_id q = a \<and> bt_contains (al_pending st) a"
    and t2: "requested_in evs n q \<Longrightarrow> bt_contains (al_pending st) (rq_id q) \<or> rq_id q \<in> al_resolved st" for a n q
    using t unfolding tracks_def by blast+
  case (EvApproval x)
  show ?thesis
  proof (cases x)
    case (ApprovalRequested q)
    with step EvApproval have st': "st' = st\<lparr>al_pending := bt_put (rq_id q) (ev_sequence r, q) (al_pending st)\<rparr>"
      and new: "\<not> bt_contains (al_pending st) (rq_id q)" "rq_id q \<notin> al_resolved st"
      by (auto simp: apply_daemon_event_def split: if_splits)
    with t2 have none: "\<not> requested_in evs n p" if "rq_id p = rq_id q" for n p
      using that by metis
    have here: "requested_in (evs @ [r]) n p \<longleftrightarrow> requested_in evs n p \<or> (ev_sequence r = n \<and> p = q)" for n p
      using EvApproval ApprovalRequested by (auto simp: requested_in_snoc)
    have "bt_get (al_pending st') a = Some (n, p) \<longleftrightarrow>
        requested_in (evs @ [r]) n p \<and> rq_id p = a \<and> bt_contains (al_pending st') a" for a n p
      using none [of p n] t1 [of a n p] by (cases "a = rq_id q") (auto simp: here st')
    moreover have "requested_in (evs @ [r]) n p \<Longrightarrow>
        bt_contains (al_pending st') (rq_id p) \<or> rq_id p \<in> al_resolved st'" for n p
      using t2 [of n p] by (auto simp: here st')
    ultimately show ?thesis unfolding tracks_def by blast
  next
    case (ApprovalResolved v)
    with step EvApproval obtain n q where
      st': "st' = st\<lparr>al_pending := bt_del (rs_approval_id v) (al_pending st),
        al_resolved := insert (rs_approval_id v) (al_resolved st)\<rparr>"
      by (auto simp: apply_daemon_event_def split: if_splits option.splits)
    have "requested_in (evs @ [r]) = requested_in evs"
      using EvApproval ApprovalResolved by (intro ext) (simp add: requested_in_snoc)
    then have "bt_get (al_pending st') a = Some (n, p) \<longleftrightarrow>
        requested_in (evs @ [r]) n p \<and> rq_id p = a \<and> bt_contains (al_pending st') a" for a n p
      using t1 [of a n p] by (auto simp: st' bt_contains_def)
    moreover have "requested_in (evs @ [r]) n p \<Longrightarrow>
        bt_contains (al_pending st') (rq_id p) \<or> rq_id p \<in> al_resolved st'" for n p
      using t2 [of n p] \<open>requested_in (evs @ [r]) = requested_in evs\<close> by (auto simp: st' bt_contains_def)
    ultimately show ?thesis unfolding tracks_def by blast
  qed
qed (use step t in \<open>simp_all add: tracks_def requested_in_snoc apply_daemon_event_def\<close>)

lemma fold_records_append:
  "fold_records (xs @ ys) st = try_then (fold_records xs st) (\<lambda>st'. fold_records ys st')"
proof (induction xs arbitrary: st)
  case (Cons x xs)
  then show ?case by (cases "apply_daemon_event (ev_payload x) (ev_sequence x) None st") simp_all
qed simp

lemma fold_session_snoc:
  "fold_session_records (evs @ [r]) =
     try_then (fold_session_records evs) (apply_daemon_event (ev_payload r) (ev_sequence r) None)"
proof -
  have "fold_records [r] st = apply_daemon_event (ev_payload r) (ev_sequence r) None st" for st
    by (cases "apply_daemon_event (ev_payload r) (ev_sequence r) None st") simp_all
  then show ?thesis by (simp add: fold_session_records_def fold_records_append del: fold_records.simps)
qed

lemma fold_session_tracks: "fold_session_records evs = Ok st \<Longrightarrow> tracks evs st"
proof (induction evs arbitrary: st rule: rev_induct)
  case Nil
  then show ?case
    by (auto simp: fold_session_records_def tracks_def empty_lifecycle_def requested_in_def)
next
  case (snoc r evs)
  then obtain st0 where 0: "fold_session_records evs = Ok st0"
    and r: "apply_daemon_event (ev_payload r) (ev_sequence r) None st0 = Ok st"
    by (auto simp: fold_session_snoc try_then_Ok_iff)
  show ?case by (rule tracks_step [OF fold_session_ok [OF 0] snoc.IH [OF 0] r])
qed

text \<open>The approvals a query asks for, as the log tells them: requested, not resolved, in log order.\<close>

definition query_admits :: "session_approval_query \<Rightarrow> approval_request \<Rightarrow> bool" where
  "query_admits q a \<longleftrightarrow> none_or (\<lambda>r. rq_run_id a = r) (aq_run_id q) \<and>
     none_or (\<lambda>i. rq_id a = i) (aq_approval_id q)"

definition resolved_in :: "event_record list \<Rightarrow> approval_id \<Rightarrow> bool" where
  "resolved_in evs a \<longleftrightarrow>
     (\<exists>e\<in>set (payloads evs). case e of EvApproval (ApprovalResolved v) \<Rightarrow> rs_approval_id v = a | _ \<Rightarrow> False)"

definition open_requests :: "event_record list \<Rightarrow> session_approval_query \<Rightarrow> (nat \<times> approval_request) list" where
  "open_requests evs q = List.map_filter (\<lambda>r. case ev_payload r of
       EvApproval (ApprovalRequested a) \<Rightarrow>
         if query_admits q a \<and> \<not> resolved_in evs (rq_id a) then Some (ev_sequence r, a) else None
     | _ \<Rightarrow> None) evs"

lemma resolved_iff:
  "fold_session_records evs = Ok st \<Longrightarrow>
   a \<in> al_resolved st \<longleftrightarrow> resolved_in evs a"
proof (induction evs arbitrary: st rule: rev_induct)
  case Nil
  then show ?case by (auto simp: fold_session_records_def empty_lifecycle_def resolved_in_def)
next
  case (snoc r evs)
  then obtain st0 where 0: "fold_session_records evs = Ok st0"
    and r: "apply_daemon_event (ev_payload r) (ev_sequence r) None st0 = Ok st"
    by (auto simp: fold_session_snoc try_then_Ok_iff)
  have "al_resolved st = (case ev_payload r of EvApproval (ApprovalResolved v) \<Rightarrow>
      insert (rs_approval_id v) (al_resolved st0) | _ \<Rightarrow> al_resolved st0)"
    using r by (cases "approval_of (ev_payload r)"; cases "the (approval_of (ev_payload r))")
      (auto simp: apply_daemon_event_def split: daemon_event.splits if_splits option.splits)
  with snoc.IH [OF 0] show ?case
    by (auto simp: resolved_in_def split: daemon_event.splits approval_event.splits)
qed

lemma set_open_requests:
  "(n, a) \<in> set (open_requests evs q) \<longleftrightarrow>
     requested_in evs n a \<and> query_admits q a \<and> \<not> resolved_in evs (rq_id a)"
proof -
  have "(case e of EvApproval (ApprovalRequested b) \<Rightarrow> if p b then Some (k, b) else None | _ \<Rightarrow> None)
      = Some (n, a) \<longleftrightarrow> e = EvApproval (ApprovalRequested a) \<and> k = n \<and> p a" for e k p
    by (auto split: daemon_event.splits approval_event.splits)
  then show ?thesis by (auto simp: open_requests_def set_map_filter requested_in_def)
qed

text \<open>
  The approvals listed for a session are exactly the requests of its log that the query
  admits and no resolution answered, newest request first.
\<close>

theorem pending_approvals_listed:
  assumes srt: "by_sequence evs" and st: "fold_session_records evs = Ok st"
  shows "approvals_for_query st q = rev (map snd (open_requests evs q))"
proof -
  let ?sel = "\<lambda>(sequence::nat, a). if some_and (\<lambda>r. rq_run_id a \<noteq> r) (aq_run_id q) then None
    else if some_and (\<lambda>i. rq_id a \<noteq> i) (aq_approval_id q) then None else Some (sequence, a)"
  let ?L = "List.map_filter ?sel (bt_values (al_pending st))" and ?R = "open_requests evs q"
  have "?sel e = (if query_admits q (snd e) then Some e else None)" for e
    by (cases e; cases "aq_run_id q"; cases "aq_approval_id q") (auto simp: query_admits_def)
  then have "?sel = (\<lambda>e. if query_admits q (snd e) then Some e else None)" by blast
  then have L: "?L = filter (query_admits q \<circ> snd) (bt_values (al_pending st))"
    by (simp only: map_filter_if) (simp add: comp_def)
  note ok = fold_session_ok [OF st] and tr = fold_session_tracks [OF st]
  have wf: "bt_wf (al_pending st)" using ok by (simp add: lifecycle_ok_def)
  have t1: "bt_get (al_pending st) k = Some (n, q) \<longleftrightarrow>
      requested_in evs n q \<and> rq_id q = k \<and> bt_contains (al_pending st) k" for k n q
    using tr unfolding tracks_def by blast
  have val: "(n, a) \<in> set (bt_values (al_pending st)) \<longleftrightarrow>
      requested_in evs n a \<and> bt_contains (al_pending st) (rq_id a)" for n a
  proof -
    have "(n, a) \<in> set (bt_values (al_pending st)) \<longleftrightarrow> (\<exists>k. bt_get (al_pending st) k = Some (n, a))"
      unfolding bt_get_iff [OF wf] by force
    also have "\<dots> \<longleftrightarrow> requested_in evs n a \<and> bt_contains (al_pending st) (rq_id a)"
      unfolding t1 by blast
    finally show ?thesis .
  qed
  have "bt_contains (al_pending st) (rq_id a) \<longleftrightarrow> rq_id a \<notin> al_resolved st" if "requested_in evs n a" for n a
    using tr ok that unfolding tracks_def lifecycle_ok_def by blast
  then have sets: "set ?L = set ?R"
    unfolding L by (intro set_eqI; case_tac x)
      (simp del: set_map add: val set_open_requests, auto simp: resolved_iff [OF st])
  have R: "sorted_wrt (<) (map fst ?R)"
    unfolding open_requests_def using srt
    by (rule sorted_map_filter [where g = ev_sequence, rotated])
       (auto split: daemon_event.split_asm approval_event.split_asm if_split_asm)
  then have inj: "inj_on fst (set ?R)" and dR: "distinct (map fst ?R)" "sorted (map fst ?R)"
    by (auto simp: strict_sorted_iff distinct_map)
  have "distinct (bt_values (al_pending st))"
    unfolding distinct_map
  proof
    show "distinct (al_pending st)" using bt_wf_distinct [OF wf] by (simp add: distinct_map)
    show "inj_on snd (set (al_pending st))"
      using t1 unfolding bt_get_iff [OF wf] by (auto intro!: inj_onI)
  qed
  then have "distinct ?L" unfolding L by simp
  then have "distinct (map fst (sort_key fst (rev ?L)))"
    using inj sets by (simp add: distinct_map)
  then have "sort_key fst (rev ?L) = ?R"
    using dR inj sets by (intro map_sorted_distinct_set_unique [where f = fst]) simp_all
  then show ?thesis by (simp add: approvals_for_query_def sort_desc_def rev_map)
qed

section \<open>Witnesses\<close>

definition demo_request :: "string \<Rightarrow> approval_request" where
  "demo_request a = \<lparr>rq_id = Ident a, rq_run_id = Ident ''r'', rq_tool_call_id = None, rq_scope = FileWrite,
     rq_requested_at_ms = 1, rq_expires_at_ms = 2, rq_target = TargetToolCall ''t'', rq_reason = ''why''\<rparr>"

definition demo_resolution :: "string \<Rightarrow> approval_resolution" where
  "demo_resolution a = \<lparr>rs_approval_id = Ident a, rs_run_id = Ident ''r'', rs_tool_call_id = None,
     rs_decision = Approved, rs_reason = ByUser, rs_actor = None, rs_commentary = None\<rparr>"

definition demo_approval_record :: "nat \<Rightarrow> approval_event \<Rightarrow> event_record" where
  "demo_approval_record n e = \<lparr>ev_sequence = n, ev_session_id = Ident ''s'', ev_occurred_at_ms = 0,
     ev_payload = EvApproval e\<rparr>"

definition demo_approvals :: "event_record list" where
  "demo_approvals =
     [demo_approval_record 1 (ApprovalRequested (demo_request ''a'')),
      demo_approval_record 2 (ApprovalRequested (demo_request ''b'')),
      demo_approval_record 4 (ApprovalResolved (demo_resolution ''a'')),
      demo_approval_record 5 (ApprovalRequested (demo_request ''c''))]"

definition demo_lifecycle :: approval_lifecycle_state where
  "demo_lifecycle = \<lparr>al_pending = [(Ident ''b'', 2, demo_request ''b''), (Ident ''c'', 5, demo_request ''c'')],
     al_resolved = {Ident ''a''}\<rparr>"

lemmas demo_defs = demo_approvals_def demo_approval_record_def demo_request_def demo_resolution_def
  demo_lifecycle_def

lemma demo_fold: "fold_session_records demo_approvals = Ok demo_lifecycle"
  by (simp add: fold_session_records_def demo_defs apply_daemon_event_def empty_lifecycle_def bt_put_def
      bt_del_def bt_contains_def)

theorem approval_validation_exact_witness:
  "is_ok (validate_run_transition demo_lifecycle (Ident ''r'')
       (payloads [demo_approval_record 6 (ApprovalResolved (demo_resolution ''b''))])) \<and>
   \<not> is_ok (validate_run_transition demo_lifecycle (Ident ''r'')
       (payloads [demo_approval_record 6 (ApprovalResolved (demo_resolution ''a''))])) \<and>
   \<not> is_ok (fold_session_records (demo_approvals @ [demo_approval_record 6 (ApprovalResolved (demo_resolution ''a''))]))"
  using approval_validation_exact [OF demo_fold, where run = "Ident ''r''"
      and new = "[demo_approval_record 6 (ApprovalResolved (demo_resolution ''a''))]"]
  by (simp add: validate_run_transition_def apply_daemon_event_def demo_defs map_filter_simps)

theorem pending_approvals_listed_witness:
  "approvals_for_query demo_lifecycle \<lparr>aq_session_id = Ident ''s'', aq_run_id = None, aq_approval_id = None\<rparr>
     = [demo_request ''c'', demo_request ''b'']"
proof -
  have "by_sequence demo_approvals" by (simp add: demo_defs)
  note pending_approvals_listed [OF this demo_fold]
  then show ?thesis
    by (simp add: open_requests_def query_admits_def resolved_in_def demo_approvals_def demo_approval_record_def
        demo_resolution_def demo_request_def map_filter_simps)
qed

end
