(* ===== verification/AgentTurns.thy ===== *)
theory AgentTurns
  imports Events StoreErrors
begin

text \<open>
  The agent-turn projection (\<open>crates/ta-store/src/agent_turns.rs\<close>): the frames of the agent
  stream open, extend and close assistant turns and tool calls that are in flight, and a row is
  emitted when one closes. Both tables are keyed by where the frame belongs; the keys are the
  tuples of the fields of the code's key structs, whose derived order is lexicographic.
\<close>

section \<open>In-flight state\<close>

record session_agent_turns_page_query =
  tq_session_id :: session_id
  tq_before_sequence :: "nat option"
  tq_limit :: nat

record session_agent_turns_page =
  tp_rows :: "agent_turn_row list"
  tp_next_before_sequence :: "nat option"
  tp_latest_activity_sequence :: "nat option"

type_synonym assistant_turn_key = "session_id \<times> run_id \<times> turn_id option"
type_synonym tool_call_key = "session_id \<times> run_id \<times> turn_id option \<times> item_id option"

record in_flight_assistant_turn =
  fa_session_id :: session_id
  fa_run_id :: run_id
  fa_turn_id :: "turn_id option"
  fa_started_at_ms :: nat
  fa_text :: string

record in_flight_tool_call =
  ft_session_id :: session_id
  ft_run_id :: run_id
  ft_turn_id :: "turn_id option"
  ft_item_id :: "item_id option"
  ft_tool_name :: string
  ft_input :: string
  ft_started_at_ms :: nat
  ft_output :: string

record in_flight =
  fl_turns :: "(assistant_turn_key, in_flight_assistant_turn) btree"
  fl_calls :: "(tool_call_key, in_flight_tool_call) btree"

fun row_sequence :: "agent_turn_row \<Rightarrow> nat" where
  "row_sequence (RowAssistant r) = ar_cursor r"
| "row_sequence (RowToolCall r) = tr_cursor r"
| "row_sequence (RowPendingState r) = pr_cursor r"

fun row_session_id :: "agent_turn_row \<Rightarrow> session_id" where
  "row_session_id (RowAssistant r) = ar_session_id r"
| "row_session_id (RowToolCall r) = tr_session_id r"
| "row_session_id (RowPendingState r) = pr_session_id r"

definition mk_turn_key :: "session_id \<Rightarrow> agent_stream_event \<Rightarrow> assistant_turn_key" where
  "mk_turn_key s e = (s, as_run_id e, em_turn_id (as_emission e))"

definition mk_call_key :: "session_id \<Rightarrow> agent_stream_event \<Rightarrow> tool_call_key" where
  "mk_call_key s e = (s, as_run_id e, em_turn_id (as_emission e), em_item_id (as_emission e))"

definition agent_turn_projection_error :: "string \<Rightarrow> session_id \<Rightarrow> run_id \<Rightarrow> turn_id option \<Rightarrow>
    item_id option \<Rightarrow> store_error" where
  "agent_turn_projection_error message s r turn item =
     AgentTurnProjectionViolation
       (message @ '': session='' @ as_str s @ '' run='' @ as_str r @
        '' turn='' @ (case turn of None \<Rightarrow> ''__turn__'' | Some t \<Rightarrow> as_str t) @
        '' item='' @ (case item of None \<Rightarrow> ''__item__'' | Some i \<Rightarrow> as_str i))"

text \<open>One frame: the new in-flight tables and the row that closed, if any.\<close>

definition apply_agent_stream_event :: "in_flight \<Rightarrow> event_record \<Rightarrow>
    (in_flight \<times> agent_turn_row option, store_error) result" where
  "apply_agent_stream_event fl record =
     (case ev_payload record of
        EvAgentStream e \<Rightarrow>
          (let s = ev_session_id record; em = as_emission e;
               turn_error = (\<lambda>m. agent_turn_projection_error m s (as_run_id e) (em_turn_id em) None);
               call_error = (\<lambda>m. agent_turn_projection_error m s (as_run_id e) (em_turn_id em) (em_item_id em));
               tkey = mk_turn_key s e; ckey = mk_call_key s e
           in case em_frame em of
                AssistantTurnStarted \<Rightarrow>
                  if bt_contains (fl_turns fl) tkey then Err (turn_error ''assistant turn already started'')
                  else Ok (fl\<lparr>fl_turns := bt_put tkey
                    \<lparr>fa_session_id = s, fa_run_id = as_run_id e, fa_turn_id = em_turn_id em,
                     fa_started_at_ms = ev_occurred_at_ms record, fa_text = []\<rparr> (fl_turns fl)\<rparr>, None)
              | AssistantMessageDelta delta \<Rightarrow>
                  if delta = [] then Ok (fl, None)
                  else (case bt_get (fl_turns fl) tkey of
                    None \<Rightarrow> Err (turn_error ''assistant delta without started turn'')
                  | Some t \<Rightarrow> Ok (fl\<lparr>fl_turns := bt_put tkey (t\<lparr>fa_text := fa_text t @ delta\<rparr>) (fl_turns fl)\<rparr>, None))
              | AssistantTurnCompleted \<Rightarrow>
                  (case bt_get (fl_turns fl) tkey of
                    None \<Rightarrow> Err (turn_error ''assistant completion without started turn'')
                  | Some t \<Rightarrow> Ok (fl\<lparr>fl_turns := bt_del tkey (fl_turns fl)\<rparr>,
                      Some (RowAssistant
                        \<lparr>ar_cursor = ev_sequence record, ar_session_id = fa_session_id t,
                         ar_run_id = fa_run_id t, ar_turn_id = fa_turn_id t,
                         ar_started_at_ms = fa_started_at_ms t,
                         ar_completed_at_ms = ev_occurred_at_ms record, ar_text = fa_text t\<rparr>)))
              | ToolCallStarted tool_name input \<Rightarrow>
                  if bt_contains (fl_calls fl) ckey then Err (call_error ''tool call already started'')
                  else Ok (fl\<lparr>fl_calls := bt_put ckey
                    \<lparr>ft_session_id = s, ft_run_id = as_run_id e, ft_turn_id = em_turn_id em,
                     ft_item_id = em_item_id em, ft_tool_name = tool_name, ft_input = input,
                     ft_started_at_ms = ev_occurred_at_ms record, ft_output = []\<rparr> (fl_calls fl)\<rparr>, None)
              | ToolCallProgressed delta \<Rightarrow>
                  if delta = [] then Ok (fl, None)
                  else (case bt_get (fl_calls fl) ckey of
                    None \<Rightarrow> Err (call_error ''tool progress without started call'')
                  | Some c \<Rightarrow> Ok (fl\<lparr>fl_calls := bt_put ckey (c\<lparr>ft_output := ft_output c @ delta\<rparr>) (fl_calls fl)\<rparr>, None))
              | ToolCallCompleted outcome \<Rightarrow>
                  (case bt_get (fl_calls fl) ckey of
                    None \<Rightarrow> Err (call_error ''tool completion without started call'')
                  | Some c \<Rightarrow> Ok (fl\<lparr>fl_calls := bt_del ckey (fl_calls fl)\<rparr>,
                      Some (RowToolCall
                        \<lparr>tr_cursor = ev_sequence record, tr_session_id = ft_session_id c,
                         tr_run_id = ft_run_id c, tr_turn_id = ft_turn_id c, tr_item_id = ft_item_id c,
                         tr_tool_name = ft_tool_name c, tr_input = ft_input c, tr_output = ft_output c,
                         tr_outcome = outcome, tr_started_at_ms = ft_started_at_ms c,
                         tr_completed_at_ms = ev_occurred_at_ms record\<rparr>)))
              | PendingStateChanged state \<Rightarrow>
                  Ok (fl, Some (RowPendingState
                    \<lparr>pr_cursor = ev_sequence record, pr_session_id = s, pr_run_id = as_run_id e,
                     pr_turn_id = em_turn_id em, pr_occurred_at_ms = ev_occurred_at_ms record,
                     pr_state = state\<rparr>))
              | TokenUsageUpdated _ _ \<Rightarrow> Ok (fl, None))
      | _ \<Rightarrow> Ok (fl, None))"

section \<open>Rows of a sequence of records\<close>

text \<open>The rows that applying the records in order emits, as every commit does.\<close>

fun stream_rows :: "in_flight \<Rightarrow> event_record list \<Rightarrow> (in_flight \<times> agent_turn_row list, store_error) result" where
  "stream_rows fl [] = Ok (fl, [])"
| "stream_rows fl (r # rs) =
     try_then (apply_agent_stream_event fl r) (\<lambda>(fl1, row).
       try_then (stream_rows fl1 rs) (\<lambda>(fl2, rows).
         Ok (fl2, (case row of None \<Rightarrow> rows | Some x \<Rightarrow> x # rows))))"

text \<open>The frame of a record, with its two keys.\<close>

fun frame_of :: "event_record \<Rightarrow> agent_stream_frame option" where
  "frame_of r = (case ev_payload r of EvAgentStream e \<Rightarrow> Some (em_frame (as_emission e)) | _ \<Rightarrow> None)"

fun turn_key_of :: "event_record \<Rightarrow> assistant_turn_key option" where
  "turn_key_of r = (case ev_payload r of EvAgentStream e \<Rightarrow> Some (mk_turn_key (ev_session_id r) e) | _ \<Rightarrow> None)"

fun call_key_of :: "event_record \<Rightarrow> tool_call_key option" where
  "call_key_of r = (case ev_payload r of EvAgentStream e \<Rightarrow> Some (mk_call_key (ev_session_id r) e) | _ \<Rightarrow> None)"

text \<open>What a record adds to the text of a turn (to the output of a call), and whether it opens or closes it.\<close>

definition turn_delta :: "assistant_turn_key \<Rightarrow> event_record \<Rightarrow> string" where
  "turn_delta k r = (case frame_of r of
     Some (AssistantMessageDelta d) \<Rightarrow> if turn_key_of r = Some k then d else [] | _ \<Rightarrow> [])"

definition turn_boundary :: "assistant_turn_key \<Rightarrow> event_record \<Rightarrow> bool" where
  "turn_boundary k r \<longleftrightarrow> turn_key_of r = Some k \<and>
     frame_of r \<in> {Some AssistantTurnStarted, Some AssistantTurnCompleted}"

definition call_delta :: "tool_call_key \<Rightarrow> event_record \<Rightarrow> string" where
  "call_delta k r = (case frame_of r of
     Some (ToolCallProgressed d) \<Rightarrow> if call_key_of r = Some k then d else [] | _ \<Rightarrow> [])"

definition call_boundary :: "tool_call_key \<Rightarrow> event_record \<Rightarrow> bool" where
  "call_boundary k r \<longleftrightarrow> call_key_of r = Some k \<and>
     (case frame_of r of Some (ToolCallStarted _ _) \<Rightarrow> True | Some (ToolCallCompleted _) \<Rightarrow> True | _ \<Rightarrow> False)"

lemma append_no_text [simp]: "t\<lparr>fa_text := fa_text t\<rparr> = t" "c\<lparr>ft_output := ft_output c\<rparr> = c"
  by simp_all

lemma turn_step:
  assumes "apply_agent_stream_event fl r = Ok (fl', row)" and "\<not> turn_boundary k r"
  shows "bt_get (fl_turns fl') k =
    map_option (\<lambda>t. t\<lparr>fa_text := fa_text t @ turn_delta k r\<rparr>) (bt_get (fl_turns fl) k)"
proof (cases "ev_payload r")
  case (EvAgentStream e)
  with assms show ?thesis
    by (cases "em_frame (as_emission e)"; cases "bt_get (fl_turns fl) k")
       (auto simp: apply_agent_stream_event_def turn_boundary_def turn_delta_def Let_def
          split: if_splits option.splits)
qed (use assms in \<open>auto simp: apply_agent_stream_event_def turn_delta_def option.map_ident\<close>)

lemma call_step:
  assumes "apply_agent_stream_event fl r = Ok (fl', row)" and "\<not> call_boundary k r"
  shows "bt_get (fl_calls fl') k =
    map_option (\<lambda>c. c\<lparr>ft_output := ft_output c @ call_delta k r\<rparr>) (bt_get (fl_calls fl) k)"
proof (cases "ev_payload r")
  case (EvAgentStream e)
  with assms show ?thesis
    by (cases "em_frame (as_emission e)"; cases "bt_get (fl_calls fl) k")
       (auto simp: apply_agent_stream_event_def call_boundary_def call_delta_def Let_def
          split: if_splits option.splits)
qed (use assms in \<open>auto simp: apply_agent_stream_event_def call_delta_def option.map_ident\<close>)

lemma turn_steps:
  assumes "stream_rows fl rs = Ok (fl', rows)" and "\<forall>r\<in>set rs. \<not> turn_boundary k r"
  shows "bt_get (fl_turns fl') k =
    map_option (\<lambda>t. t\<lparr>fa_text := fa_text t @ concat (map (turn_delta k) rs)\<rparr>) (bt_get (fl_turns fl) k)"
  using assms
proof (induction rs arbitrary: fl rows)
  case (Cons r rs)
  then obtain fl1 row rows1 where 1: "apply_agent_stream_event fl r = Ok (fl1, row)"
    and 2: "stream_rows fl1 rs = Ok (fl', rows1)"
    by (auto simp: try_then_Ok_iff)
  from Cons.IH [OF 2] turn_step [OF 1, of k] Cons.prems(2) show ?case
    by (cases "bt_get (fl_turns fl) k") simp_all
qed (simp add: option.map_ident)

lemma call_steps:
  assumes "stream_rows fl rs = Ok (fl', rows)" and "\<forall>r\<in>set rs. \<not> call_boundary k r"
  shows "bt_get (fl_calls fl') k =
    map_option (\<lambda>c. c\<lparr>ft_output := ft_output c @ concat (map (call_delta k) rs)\<rparr>) (bt_get (fl_calls fl) k)"
  using assms
proof (induction rs arbitrary: fl rows)
  case (Cons r rs)
  then obtain fl1 row rows1 where 1: "apply_agent_stream_event fl r = Ok (fl1, row)"
    and 2: "stream_rows fl1 rs = Ok (fl', rows1)"
    by (auto simp: try_then_Ok_iff)
  from Cons.IH [OF 2] call_step [OF 1, of k] Cons.prems(2) show ?case
    by (cases "bt_get (fl_calls fl) k") simp_all
qed (simp add: option.map_ident)

lemma stream_rows_append:
  "stream_rows fl (xs @ ys) = Ok (fl', rows) \<longleftrightarrow>
   (\<exists>fl1 r1 r2. stream_rows fl xs = Ok (fl1, r1) \<and> stream_rows fl1 ys = Ok (fl', r2) \<and> rows = r1 @ r2)"
proof (induction xs arbitrary: fl rows)
  case (Cons x xs)
  show ?case
    by (cases "apply_agent_stream_event fl x") (auto simp: try_then_Ok_iff Cons.IH split: option.splits; force)+
qed simp

lemma stream_row_single:
  "stream_rows fl [r] = Ok (fl', rows) \<longleftrightarrow>
   (\<exists>row. apply_agent_stream_event fl r = Ok (fl', row) \<and> rows = (case row of None \<Rightarrow> [] | Some x \<Rightarrow> [x]))"
  by (cases "apply_agent_stream_event fl r") auto

lemma turn_opened:
  assumes "apply_agent_stream_event fl r = Ok (fl', row)"
    and "frame_of r = Some AssistantTurnStarted" and "turn_key_of r = Some (s, i, t)"
  shows "bt_get (fl_turns fl') (s, i, t) = Some \<lparr>fa_session_id = s, fa_run_id = i, fa_turn_id = t,
    fa_started_at_ms = ev_occurred_at_ms r, fa_text = []\<rparr>"
  using assms
  by (auto simp: apply_agent_stream_event_def Let_def mk_turn_key_def split: daemon_event.splits if_splits)

lemma turn_closed:
  assumes "apply_agent_stream_event fl r = Ok (fl', row)"
    and "frame_of r = Some AssistantTurnCompleted" and "turn_key_of r = Some k"
    and "bt_get (fl_turns fl) k = Some t"
  shows "row = Some (RowAssistant \<lparr>ar_cursor = ev_sequence r, ar_session_id = fa_session_id t,
      ar_run_id = fa_run_id t, ar_turn_id = fa_turn_id t, ar_started_at_ms = fa_started_at_ms t,
      ar_completed_at_ms = ev_occurred_at_ms r, ar_text = fa_text t\<rparr>) \<and>
    bt_get (fl_turns fl') k = None"
  using assms
  by (auto simp: apply_agent_stream_event_def Let_def split: daemon_event.splits if_splits option.splits)

lemma call_opened:
  assumes "apply_agent_stream_event fl r = Ok (fl', row)"
    and "frame_of r = Some (ToolCallStarted name input)" and "call_key_of r = Some (s, i, t, c)"
  shows "bt_get (fl_calls fl') (s, i, t, c) = Some \<lparr>ft_session_id = s, ft_run_id = i, ft_turn_id = t,
    ft_item_id = c, ft_tool_name = name, ft_input = input, ft_started_at_ms = ev_occurred_at_ms r,
    ft_output = []\<rparr>"
  using assms
  by (auto simp: apply_agent_stream_event_def Let_def mk_call_key_def split: daemon_event.splits if_splits)

lemma call_closed:
  assumes "apply_agent_stream_event fl r = Ok (fl', row)"
    and "frame_of r = Some (ToolCallCompleted outcome)" and "call_key_of r = Some k"
    and "bt_get (fl_calls fl) k = Some c"
  shows "row = Some (RowToolCall \<lparr>tr_cursor = ev_sequence r, tr_session_id = ft_session_id c,
      tr_run_id = ft_run_id c, tr_turn_id = ft_turn_id c, tr_item_id = ft_item_id c,
      tr_tool_name = ft_tool_name c, tr_input = ft_input c, tr_output = ft_output c,
      tr_outcome = outcome, tr_started_at_ms = ft_started_at_ms c,
      tr_completed_at_ms = ev_occurred_at_ms r\<rparr>) \<and> bt_get (fl_calls fl') k = None"
  using assms
  by (auto simp: apply_agent_stream_event_def Let_def split: daemon_event.splits if_splits option.splits)

text \<open>
  C17. Turns of different keys do not interfere: whatever is interleaved between the start and
  the completion of an assistant turn, the row that closes it holds the concatenation of the
  deltas of this very turn, in order, its start and completion times and the sequence of the
  completion, and the turn is no longer in flight.
\<close>

theorem assistant_row_is_transcript:
  assumes ok: "stream_rows fl (first # mid @ [final]) = Ok (fl', rows)"
    and first: "turn_key_of first = Some (s, i, t)" "frame_of first = Some AssistantTurnStarted"
    and final: "turn_key_of final = Some (s, i, t)" "frame_of final = Some AssistantTurnCompleted"
    and mid: "\<forall>r\<in>set mid. \<not> turn_boundary (s, i, t) r"
  shows "bt_get (fl_turns fl') (s, i, t) = None \<and> rows \<noteq> [] \<and>
    last rows = RowAssistant \<lparr>ar_cursor = ev_sequence final, ar_session_id = s, ar_run_id = i, ar_turn_id = t,
      ar_started_at_ms = ev_occurred_at_ms first, ar_completed_at_ms = ev_occurred_at_ms final,
      ar_text = concat (map (turn_delta (s, i, t)) mid)\<rparr>"
proof -
  have "stream_rows fl ([first] @ mid @ [final]) = Ok (fl', rows)" using ok by simp
  then obtain fl1 fl2 r1 r2 row0 row where 1: "apply_agent_stream_event fl first = Ok (fl1, row0)"
    and 2: "stream_rows fl1 mid = Ok (fl2, r1)" and 3: "apply_agent_stream_event fl2 final = Ok (fl', row)"
    and rows: "rows = r2 @ (case row of None \<Rightarrow> [] | Some x \<Rightarrow> [x])"
    unfolding stream_rows_append stream_row_single by (metis append.assoc)
  from turn_steps [OF 2 mid] turn_opened [OF 1 first(2,1)]
  have "bt_get (fl_turns fl2) (s, i, t) = Some \<lparr>fa_session_id = s, fa_run_id = i, fa_turn_id = t,
    fa_started_at_ms = ev_occurred_at_ms first, fa_text = concat (map (turn_delta (s, i, t)) mid)\<rparr>" by simp
  from turn_closed [OF 3 final(2,1) this] rows show ?thesis by simp
qed

text \<open>
  The same for tool calls: the row that closes a call holds its name, its input, the
  concatenation of its own progress deltas and its outcome, whatever is interleaved.
\<close>

theorem tool_row_is_transcript:
  assumes ok: "stream_rows fl (first # mid @ [final]) = Ok (fl', rows)"
    and first: "call_key_of first = Some (s, i, t, c)" "frame_of first = Some (ToolCallStarted name input)"
    and final: "call_key_of final = Some (s, i, t, c)" "frame_of final = Some (ToolCallCompleted outcome)"
    and mid: "\<forall>r\<in>set mid. \<not> call_boundary (s, i, t, c) r"
  shows "bt_get (fl_calls fl') (s, i, t, c) = None \<and> rows \<noteq> [] \<and>
    last rows = RowToolCall \<lparr>tr_cursor = ev_sequence final, tr_session_id = s, tr_run_id = i, tr_turn_id = t,
      tr_item_id = c, tr_tool_name = name, tr_input = input,
      tr_output = concat (map (call_delta (s, i, t, c)) mid), tr_outcome = outcome,
      tr_started_at_ms = ev_occurred_at_ms first, tr_completed_at_ms = ev_occurred_at_ms final\<rparr>"
proof -
  have "stream_rows fl ([first] @ mid @ [final]) = Ok (fl', rows)" using ok by simp
  then obtain fl1 fl2 r1 r2 row0 row where 1: "apply_agent_stream_event fl first = Ok (fl1, row0)"
    and 2: "stream_rows fl1 mid = Ok (fl2, r1)" and 3: "apply_agent_stream_event fl2 final = Ok (fl', row)"
    and rows: "rows = r2 @ (case row of None \<Rightarrow> [] | Some x \<Rightarrow> [x])"
    unfolding stream_rows_append stream_row_single by (metis append.assoc)
  from call_steps [OF 2 mid] call_opened [OF 1 first(2,1)]
  have "bt_get (fl_calls fl2) (s, i, t, c) = Some \<lparr>ft_session_id = s, ft_run_id = i, ft_turn_id = t,
    ft_item_id = c, ft_tool_name = name, ft_input = input, ft_started_at_ms = ev_occurred_at_ms first,
    ft_output = concat (map (call_delta (s, i, t, c)) mid)\<rparr>" by simp
  from call_closed [OF 3 final(2,1) this] rows show ?thesis by simp
qed

text \<open>A row is emitted with the sequence and the session of its record: rows never collide.\<close>

definition in_flight_ok :: "in_flight \<Rightarrow> bool" where
  "in_flight_ok fl \<longleftrightarrow>
     (\<forall>s i t x. bt_get (fl_turns fl) (s, i, t) = Some x \<longrightarrow>
        fa_session_id x = s \<and> fa_run_id x = i \<and> fa_turn_id x = t) \<and>
     (\<forall>s i t c x. bt_get (fl_calls fl) (s, i, t, c) = Some x \<longrightarrow>
        ft_session_id x = s \<and> ft_run_id x = i \<and> ft_turn_id x = t \<and> ft_item_id x = c)"

lemma in_flight_ok_empty: "in_flight_ok \<lparr>fl_turns = [], fl_calls = []\<rparr>"
  by (simp add: in_flight_ok_def)

lemma in_flight_ok_step:
  assumes "in_flight_ok fl" and "apply_agent_stream_event fl r = Ok (fl', row)"
  shows "in_flight_ok fl' \<and>
    (\<forall>x. row = Some x \<longrightarrow> row_sequence x = ev_sequence r \<and> row_session_id x = ev_session_id r)"
proof (cases "ev_payload r")
  case (EvAgentStream e)
  with assms show ?thesis
    by (cases "em_frame (as_emission e)")
       (auto simp: apply_agent_stream_event_def in_flight_ok_def mk_turn_key_def mk_call_key_def Let_def
          split: if_splits option.splits)
qed (use assms in \<open>auto simp: apply_agent_stream_event_def\<close>)

section \<open>Witnesses\<close>

definition demo_frame :: "nat \<Rightarrow> agent_stream_frame \<Rightarrow> event_record" where
  "demo_frame n f = \<lparr>ev_sequence = n, ev_session_id = Ident ''s'', ev_occurred_at_ms = 10 * n,
     ev_payload = EvAgentStream \<lparr>as_run_id = Ident ''r'',
       as_emission = \<lparr>em_turn_id = None, em_item_id = None, em_fragment_sequence = None, em_frame = f\<rparr>\<rparr>\<rparr>"

definition demo_none :: in_flight where
  "demo_none = \<lparr>fl_turns = [], fl_calls = []\<rparr>"

lemmas demo_stream_defs = demo_frame_def demo_none_def apply_agent_stream_event_def Let_def
  mk_turn_key_def mk_call_key_def bt_put_def bt_del_def bt_contains_def turn_boundary_def
  call_boundary_def turn_delta_def call_delta_def

theorem assistant_row_is_transcript_witness:
  "\<exists>fl' rows. stream_rows demo_none (demo_frame 1 AssistantTurnStarted #
       [demo_frame 2 (AssistantMessageDelta ''he''), demo_frame 3 (ToolCallStarted ''ls'' ''.''),
        demo_frame 4 (AssistantMessageDelta ''y'')] @ [demo_frame 5 AssistantTurnCompleted]) = Ok (fl', rows) \<and>
     bt_get (fl_turns fl') (Ident ''s'', Ident ''r'', None) = None \<and>
     (case last rows of RowAssistant a \<Rightarrow> ar_text a = ''hey'' | _ \<Rightarrow> False)"
proof -
  let ?mid = "[demo_frame 2 (AssistantMessageDelta ''he''), demo_frame 3 (ToolCallStarted ''ls'' ''.''),
    demo_frame 4 (AssistantMessageDelta ''y'')]"
  have "is_ok (stream_rows demo_none (demo_frame 1 AssistantTurnStarted # ?mid @ [demo_frame 5 AssistantTurnCompleted]))"
    by (simp add: demo_stream_defs)
  then obtain fl' rows where ok: "stream_rows demo_none
      (demo_frame 1 AssistantTurnStarted # ?mid @ [demo_frame 5 AssistantTurnCompleted]) = Ok (fl', rows)"
    unfolding is_ok_iff by (metis surj_pair)
  note assistant_row_is_transcript [OF ok, where s = "Ident ''s''" and i = "Ident ''r''" and t = None]
  with ok show ?thesis by (intro exI [of _ fl'] exI [of _ rows]) (simp add: demo_stream_defs)
qed

theorem tool_row_is_transcript_witness:
  "\<exists>fl' rows. stream_rows demo_none (demo_frame 1 (ToolCallStarted ''ls'' ''.'') #
       [demo_frame 2 (ToolCallProgressed ''a''), demo_frame 3 AssistantTurnStarted,
        demo_frame 4 (ToolCallProgressed ''b'')] @ [demo_frame 5 (ToolCallCompleted OutcomeFailed)]) = Ok (fl', rows) \<and>
     (case last rows of RowToolCall c \<Rightarrow> tr_output c = ''ab'' \<and> tr_outcome c = OutcomeFailed | _ \<Rightarrow> False)"
proof -
  let ?mid = "[demo_frame 2 (ToolCallProgressed ''a''), demo_frame 3 AssistantTurnStarted,
    demo_frame 4 (ToolCallProgressed ''b'')]"
  have "is_ok (stream_rows demo_none (demo_frame 1 (ToolCallStarted ''ls'' ''.'') # ?mid @
      [demo_frame 5 (ToolCallCompleted OutcomeFailed)]))"
    by (simp add: demo_stream_defs)
  then obtain fl' rows where ok: "stream_rows demo_none (demo_frame 1 (ToolCallStarted ''ls'' ''.'') # ?mid @
      [demo_frame 5 (ToolCallCompleted OutcomeFailed)]) = Ok (fl', rows)"
    unfolding is_ok_iff by (metis surj_pair)
  note tool_row_is_transcript [OF ok, where s = "Ident ''s''" and i = "Ident ''r''" and t = None and c = None
      and name = "''ls''" and input = "''.''" and outcome = OutcomeFailed]
  with ok show ?thesis by (intro exI [of _ fl'] exI [of _ rows]) (simp add: demo_stream_defs)
qed

end
