(* ===== verification/Projections.thy ===== *)
theory Projections
  imports Events StoreErrors
begin

text \<open>
  The projections of the stores and the checks of a run transition
  (\<open>crates/ta-store/src/projections.rs\<close>, \<open>artifacts.rs\<close>, \<open>checkpoints.rs\<close>, \<open>commits.rs\<close>), and
  the listing of native runs with its cursor (\<open>runs_list.rs\<close>).
\<close>

section \<open>Records\<close>

record principal_projection =
  pp_id :: string
  pp_client_name :: string
  pp_credential_hash :: string

record session_projection =
  sn_id :: session_id
  sn_owner_client_name :: string
  sn_owner_principal_id :: string
  sn_current_hash :: string
  sn_current_generation :: nat
  sn_recovery_hash :: "string option"
  sn_recovery_generation :: "nat option"
  sn_title :: string
  sn_status :: session_status
  sn_workspace_id :: workspace_id

record run_projection =
  rn_id :: run_id
  rn_session_id :: session_id
  rn_runtime_profile_id :: runtime_profile_id
  rn_objective :: string
  rn_status :: run_status
  rn_harness :: run_harness_kind
  rn_source :: run_source
  rn_execution_context :: execution_context
  rn_result :: "capsule_result option"
  rn_contract_violation :: "validation_error option"
  rn_started_at_ms :: "nat option"
  rn_ended_at_ms :: "nat option"
  rn_last_event_seq :: "nat option"
  rn_workspace_info :: "worktree_info option"
  rn_claimed_files :: "string list"
  rn_conflict_summary :: "conflict_summary option"

record artifact_record =
  ac_id :: artifact_id
  ac_session_id :: session_id
  ac_run_id :: run_id
  ac_kind :: artifact_kind
  ac_storage_path :: string

record checkpoint_record =
  cp_run_id :: run_id
  cp_revision :: nat
  cp_artifact_path :: string

record commit_boundary =
  cb_id :: nat
  cb_first_sequence :: nat
  cb_last_sequence :: nat

record run_transition =
  ct_session_id :: session_id
  ct_run :: run_projection
  ct_events :: "daemon_event list"
  ct_occurred_at_ms :: nat

record run_transition_result =
  cr_commit :: commit_boundary
  cr_session :: session_projection
  cr_run :: run_projection
  cr_events :: "event_record list"
  cr_persisted_events :: "event_record list"

section \<open>Run metadata and session status\<close>

definition with_commit_metadata :: "run_projection \<Rightarrow> run_projection option \<Rightarrow> nat \<Rightarrow> nat option \<Rightarrow> run_projection" where
  "with_commit_metadata run existing occurred_at_ms last_event_seq =
     run\<lparr>rn_started_at_ms :=
           opt_or (Option.bind existing rn_started_at_ms)
             (if rn_status run \<noteq> Queued then Some occurred_at_ms else None),
         rn_ended_at_ms :=
           opt_or (Option.bind existing rn_ended_at_ms)
             (if rn_status run \<in> {Completed, Failed, BudgetExceeded, Cancelled} then Some occurred_at_ms else None),
         rn_last_event_seq := opt_or last_event_seq (Option.bind existing rn_last_event_seq)\<rparr>"

fun session_status_loop :: "run_projection list \<Rightarrow> bool \<Rightarrow> bool \<Rightarrow> bool \<Rightarrow> session_status" where
  "session_status_loop [] has_completed has_cancelled has_failed =
     (if has_failed then SessFailed else if has_completed \<and> \<not> has_cancelled then SessCompleted else SessIdle)"
| "session_status_loop (run # runs) has_completed has_cancelled has_failed =
     (case rn_status run of
        Queued \<Rightarrow> SessRunning
      | Running \<Rightarrow> SessRunning
      | WaitingForApproval \<Rightarrow> SessRunning
      | Completed \<Rightarrow> session_status_loop runs True has_cancelled has_failed
      | Failed \<Rightarrow> session_status_loop runs has_completed has_cancelled True
      | BudgetExceeded \<Rightarrow> session_status_loop runs has_completed has_cancelled True
      | Cancelled \<Rightarrow> session_status_loop runs has_completed True has_failed)"

definition compute_session_status_from_runs :: "run_projection list \<Rightarrow> session_status" where
  "compute_session_status_from_runs runs =
     (if runs = [] then SessIdle else session_status_loop runs False False False)"

lemma session_status_loop_eq:
  "session_status_loop runs c k f =
     (let st = set (map rn_status runs)
      in if st \<inter> {Queued, Running, WaitingForApproval} \<noteq> {} then SessRunning
         else if f \<or> st \<inter> {Failed, BudgetExceeded} \<noteq> {} then SessFailed
         else if (c \<or> Completed \<in> st) \<and> \<not> (k \<or> Cancelled \<in> st) then SessCompleted
         else SessIdle)"
  by (induction runs c k f rule: session_status_loop.induct) (auto simp: Let_def split: run_status.splits)

text \<open>
  A session's status depends on the set of its runs' statuses only, not on their order or
  number: running while a run is queued, running or waiting; failed if one failed or exceeded
  its budget; completed if runs completed and none was cancelled; idle otherwise.
\<close>

theorem session_status_of_runs:
  "compute_session_status_from_runs runs =
     (if set (map rn_status runs) \<inter> {Queued, Running, WaitingForApproval} \<noteq> {} then SessRunning
      else if set (map rn_status runs) \<inter> {Failed, BudgetExceeded} \<noteq> {} then SessFailed
      else if set (map rn_status runs) = {Completed} then SessCompleted
      else SessIdle)"
proof -
  have "Completed \<in> S \<and> Cancelled \<notin> S \<longleftrightarrow> S = {Completed}"
    if active: "S \<inter> {Queued, Running, WaitingForApproval} = {}" and bad: "S \<inter> {Failed, BudgetExceeded} = {}" for S
  proof
    assume "Completed \<in> S \<and> Cancelled \<notin> S"
    moreover have "x = Completed" if "x \<in> S" for x
      using that calculation active bad by (cases x) auto
    ultimately show "S = {Completed}" by blast
  qed auto
  then show ?thesis
    by (auto simp: compute_session_status_from_runs_def session_status_loop_eq Let_def)
qed

section \<open>Checks of a run transition\<close>

definition run_mismatch :: "run_transition \<Rightarrow> run_id \<Rightarrow> store_error" where
  "run_mismatch input i = CommitRunEventMismatch (as_str (rn_id (ct_run input))) (as_str i)"

fun validate_transition_loop :: "run_transition \<Rightarrow> daemon_event list \<Rightarrow> (unit, store_error) result" where
  "validate_transition_loop input [] = Ok ()"
| "validate_transition_loop input (e # es) =
     (let this_run = (\<lambda>i. if i \<noteq> rn_id (ct_run input) then Err (run_mismatch input i)
                          else validate_transition_loop input es)
      in case e of
        EvRun x \<Rightarrow> this_run (re_run_id x)
      | EvRunReconciledOnStartup x \<Rightarrow> this_run (rr_run_id x)
      | EvAgentStream x \<Rightarrow> this_run (as_run_id x)
      | EvTokenUsageRecorded x \<Rightarrow> this_run (tu_run_id x)
      | EvConflict (ConflictWarningEv i _) \<Rightarrow> this_run i
      | EvBudget (BudgetEvExceeded x) \<Rightarrow> this_run (be_run_id x)
      | EvApproval _ \<Rightarrow> validate_transition_loop input es
      | EvArtifact _ \<Rightarrow> validate_transition_loop input es
      | EvSession _ \<Rightarrow> validate_transition_loop input es
      | EvContextReceipt _ \<Rightarrow> validate_transition_loop input es)"

definition validate_run_transition_events :: "run_transition \<Rightarrow> (unit, store_error) result" where
  "validate_run_transition_events input = validate_transition_loop input (ct_events input)"

definition validate_run_execution_context :: "run_projection option \<Rightarrow> run_projection \<Rightarrow> (unit, store_error) result" where
  "validate_run_execution_context existing new_run =
     (if some_and (\<lambda>run. rn_execution_context run \<noteq> rn_execution_context new_run) existing
      then Err (ImmutableRunExecutionContext (as_str (rn_id new_run))) else Ok ())"

text \<open>Events whose run the check leaves open; approvals are checked by their lifecycle.\<close>

fun run_unchecked :: "daemon_event \<Rightarrow> bool" where
  "run_unchecked (EvApproval _) = True"
| "run_unchecked (EvArtifact _) = True"
| "run_unchecked (EvSession _) = True"
| "run_unchecked (EvContextReceipt _) = True"
| "run_unchecked _ = False"

lemma validate_transition_ok:
  "is_ok (validate_run_transition_events input) \<longleftrightarrow>
     (\<forall>e\<in>set (ct_events input). run_unchecked e \<or> event_run_id e = Some (rn_id (ct_run input)))"
proof -
  have "is_ok (validate_transition_loop input es) \<longleftrightarrow>
      (\<forall>e\<in>set es. run_unchecked e \<or> event_run_id e = Some (rn_id (ct_run input)))" for es
    by (induction es)
       (auto simp: Let_def split: daemon_event.splits conflict_event.splits budget_event.splits)
  then show ?thesis by (simp add: validate_run_transition_events_def)
qed

lemma validate_context_ok:
  "is_ok (validate_run_execution_context existing run) \<longleftrightarrow>
     none_or (\<lambda>old. rn_execution_context old = rn_execution_context run) existing"
  by (cases existing) (auto simp: validate_run_execution_context_def)

section \<open>Native runs\<close>

record run_cursor =
  rcu_started_at_ms :: nat
  rcu_run_id :: run_id

record run_list_query =
  rlq_session_id :: session_id
  rlq_filter :: run_list_filter
  rlq_before :: "run_cursor option"
  rlq_limit :: nat

record run_list_page =
  rlp_runs :: "run_projection list"
  rlp_next_cursor :: "run_cursor option"

definition cursor_encode :: "run_cursor \<Rightarrow> string" where
  "cursor_encode c = dec (rcu_started_at_ms c) @ '':'' @ as_str (rcu_run_id c)"

text \<open>\<open>str::split_once\<close> on a byte.\<close>

fun split_once :: "char \<Rightarrow> string \<Rightarrow> (string \<times> string) option" where
  "split_once c [] = None"
| "split_once c (x # xs) =
     (if x = c then Some ([], xs)
      else case split_once c xs of None \<Rightarrow> None | Some (a, b) \<Rightarrow> Some (x # a, b))"

definition cursor_decode :: "string \<Rightarrow> run_cursor option" where
  "cursor_decode value =
     Option.bind (split_once (CHR '':'') value) (\<lambda>(started, run).
     Option.bind (parse_u64 started) (\<lambda>n.
       case ident_new ''run_id'' run of Inl _ \<Rightarrow> None
       | Inr i \<Rightarrow> Some \<lparr>rcu_started_at_ms = n, rcu_run_id = i\<rparr>))"

lemma split_once_append: "c \<notin> set a \<Longrightarrow> split_once c (a @ c # b) = Some (a, b)"
  by (induction a) auto

text \<open>
  A cursor survives its string form: every cursor that fits a \<open>u64\<close> and names a non-blank
  run, colons in the run id included, decodes to itself.
\<close>

theorem run_cursor_roundtrip:
  assumes "rcu_started_at_ms c \<le> u64_max" and "\<not> blank (as_str (rcu_run_id c))"
  shows "cursor_decode (cursor_encode c) = Some c"
proof -
  have "split_once (CHR '':'') (cursor_encode c) = Some (dec (rcu_started_at_ms c), as_str (rcu_run_id c))"
    using split_once_append [OF colon_not_in_dec] by (simp add: cursor_encode_def)
  with assms show ?thesis by (simp add: cursor_decode_def parse_u64_dec ident_new_def)
qed

definition native_run_sort_started_at :: "run_projection \<Rightarrow> nat" where
  "native_run_sort_started_at run = (case rn_started_at_ms run of None \<Rightarrow> 0 | Some n \<Rightarrow> n)"

definition native_run_cursor :: "run_projection \<Rightarrow> run_cursor" where
  "native_run_cursor run = \<lparr>rcu_started_at_ms = native_run_sort_started_at run, rcu_run_id = rn_id run\<rparr>"

definition is_before_cursor :: "run_projection \<Rightarrow> run_cursor \<Rightarrow> bool" where
  "is_before_cursor run c \<longleftrightarrow>
     (let n = native_run_sort_started_at run
      in n < rcu_started_at_ms c \<or> (n = rcu_started_at_ms c \<and> as_str (rn_id run) < as_str (rcu_run_id c)))"

text \<open>\<open>compare_native_runs_desc\<close> orders by this key, the largest first.\<close>

definition native_run_key :: "run_projection \<Rightarrow> nat \<times> string" where
  "native_run_key run = (native_run_sort_started_at run, as_str (rn_id run))"

fun native_run_parent_id :: "run_projection \<Rightarrow> run_id option" where
  "native_run_parent_id run =
     (case rn_source run of
        SourceNativeSubagent parent _ _ _ _ _ _ _ \<Rightarrow> Some parent
      | SourceForked parent _ \<Rightarrow> Some parent
      | SourceUser _ _ _ \<Rightarrow> None)"

definition matches_native_run_query :: "run_projection \<Rightarrow> run_list_query \<Rightarrow> bool" where
  "matches_native_run_query run q \<longleftrightarrow>
     (if rn_session_id run \<noteq> rlq_session_id q \<or> rn_harness run \<noteq> HarnessNative then False
      else if some_and (\<lambda>hs. hs \<noteq> [] \<and> rn_harness run \<notin> set hs) (rf_harness (rlq_filter q)) then False
      else if some_and (\<lambda>ss. ss \<noteq> [] \<and> rn_status run \<notin> set ss) (rf_status (rlq_filter q)) then False
      else case rf_parent_run_id (rlq_filter q) of
        Some parent \<Rightarrow> native_run_parent_id run = Some parent
      | None \<Rightarrow> native_run_parent_id run = None)"

fun native_page_loop :: "run_list_query \<Rightarrow> nat \<Rightarrow> run_projection list \<Rightarrow> run_projection list \<Rightarrow>
    run_projection list \<times> bool" where
  "native_page_loop q limit [] page = (page, False)"
| "native_page_loop q limit (run # runs) page =
     (if some_and (\<lambda>c. \<not> is_before_cursor run c) (rlq_before q) then native_page_loop q limit runs page
      else if length page = limit then (page, True)
      else native_page_loop q limit runs (page @ [run]))"

definition list_native_runs_from_projections :: "run_projection list \<Rightarrow> run_list_query \<Rightarrow> run_list_page" where
  "list_native_runs_from_projections runs q =
     (let limit = min (rlq_limit q) native_run_list_max_limit;
          found = sort_desc native_run_key (filter (\<lambda>run. matches_native_run_query run q) runs)
      in case native_page_loop q limit found [] of (page, has_more) \<Rightarrow>
        \<lparr>rlp_runs = page,
         rlp_next_cursor =
           (if has_more then (if page = [] then None else Some (native_run_cursor (last page))) else None)\<rparr>)"

definition before_query :: "run_list_query \<Rightarrow> run_projection \<Rightarrow> bool" where
  "before_query q run \<longleftrightarrow> none_or (is_before_cursor run) (rlq_before q)"

lemma native_page_loop_eq:
  "length page \<le> limit \<Longrightarrow>
   native_page_loop q limit runs page =
     (page @ take (limit - length page) (filter (before_query q) runs),
      limit < length page + length (filter (before_query q) runs))"
proof (induction runs arbitrary: page)
  case (Cons run runs)
  show ?case
  proof (cases "length page < limit")
    case True
    then have "limit - length page = Suc (limit - Suc (length page))" by linarith
    with Cons True show ?thesis by (cases "rlq_before q") (auto simp: before_query_def)
  next
    case False
    with Cons show ?thesis by (cases "rlq_before q") (auto simp: before_query_def)
  qed
qed simp

text \<open>All runs a query selects after its cursor, in the order of the listing.\<close>

definition native_matches :: "run_projection list \<Rightarrow> run_list_query \<Rightarrow> run_projection list" where
  "native_matches runs q = filter (before_query q)
     (sort_desc native_run_key (filter (\<lambda>run. matches_native_run_query run q) runs))"

lemma list_native_runs_eq:
  "list_native_runs_from_projections runs q =
     (let all = native_matches runs q; page = take (min (rlq_limit q) native_run_list_max_limit) all
      in \<lparr>rlp_runs = page,
          rlp_next_cursor = (if min (rlq_limit q) native_run_list_max_limit < length all \<and> page \<noteq> []
            then Some (native_run_cursor (last page)) else None)\<rparr>)"
proof -
  have "0 < limit \<or> take limit xs = []" for limit and xs :: "run_projection list" by auto
  then show ?thesis
    by (auto simp: list_native_runs_from_projections_def native_page_loop_eq native_matches_def Let_def)
qed

lemma is_before_cursor_key:
  "is_before_cursor run (native_run_cursor last_run) \<longleftrightarrow> native_run_key run < native_run_key last_run"
  by (auto simp: is_before_cursor_def native_run_cursor_def native_run_key_def Let_def less_prod_def)

lemma sort_desc_strict:
  assumes "distinct (map f xs)"
  shows "sorted_wrt (\<lambda>x y. f y < f x) (sort_desc f xs)"
proof -
  have "sorted (map f (sort_key f (rev xs)))" by simp
  moreover have "distinct (map f (sort_key f (rev xs)))"
    using assms by (simp add: distinct_map)
  ultimately have "sorted_wrt (<) (map f (sort_key f (rev xs)))" by (simp add: strict_sorted_iff)
  then show ?thesis by (simp add: sort_desc_def sorted_wrt_rev sorted_wrt_map)
qed

text \<open>
  Listing native runs page by page loses and repeats nothing: for runs with distinct ids
  and a positive limit, a page holds at most the limit (200 at most) and is strictly descending
  by start time and id; without a next cursor it is all the runs the query selects, and with one
  the query behind that cursor selects exactly the rest.
\<close>

theorem native_run_pages_partition:
  assumes ids: "distinct (map rn_id runs)" and limit: "0 < rlq_limit q"
    and page: "list_native_runs_from_projections runs q = page"
  shows "length (rlp_runs page) \<le> min (rlq_limit q) 200 \<and>
    sorted_wrt (\<lambda>x y. native_run_key y < native_run_key x) (rlp_runs page) \<and>
    native_matches runs q = rlp_runs page @
      (case rlp_next_cursor page of None \<Rightarrow> [] | Some c \<Rightarrow> native_matches runs (q\<lparr>rlq_before := Some c\<rparr>))"
proof -
  let ?n = "min (rlq_limit q) native_run_list_max_limit"
  let ?found = "sort_desc native_run_key (filter (\<lambda>run. matches_native_run_query run q) runs)"
  let ?all = "native_matches runs q"
  have n: "0 < ?n" using limit by (simp add: native_run_list_max_limit_def)
  have p: "rlp_runs page = take ?n ?all" using page by (auto simp: list_native_runs_eq Let_def)
  have "inj_on rn_id (set runs)" using ids by (simp add: distinct_map)
  moreover have "distinct (filter (\<lambda>run. matches_native_run_query run q) runs)"
    using ids by (simp add: distinct_map)
  ultimately have "distinct (map native_run_key (filter (\<lambda>run. matches_native_run_query run q) runs))"
    by (auto simp: distinct_map native_run_key_def inj_on_def ident.expand)
  then have desc: "sorted_wrt (\<lambda>x y. native_run_key y < native_run_key x) ?all"
    unfolding native_matches_def by (intro sorted_wrt_filter sort_desc_strict)
  have "?all = rlp_runs page @
      (case rlp_next_cursor page of None \<Rightarrow> [] | Some c \<Rightarrow> native_matches runs (q\<lparr>rlq_before := Some c\<rparr>))"
  proof (cases "rlp_next_cursor page")
    case None
    then have "\<not> (?n < length ?all \<and> take ?n ?all \<noteq> [])"
      using page by (auto simp: list_native_runs_eq Let_def split: if_splits)
    with n have "length ?all \<le> ?n" by auto
    then show ?thesis using None p by simp
  next
    case (Some c)
    with page have c: "c = native_run_cursor (last (take ?n ?all))" and ne: "take ?n ?all \<noteq> []"
      by (auto simp: list_native_runs_eq Let_def split: if_splits)
    have "last (take ?n ?all) \<in> set ?all" using ne by (meson in_set_takeD last_in_set)
    then have "before_query q (last (take ?n ?all))" by (simp add: native_matches_def)
    then have "before_query (q\<lparr>rlq_before := Some c\<rparr>) run \<longleftrightarrow>
        before_query q run \<and> native_run_key run < native_run_key (last (take ?n ?all))" for run
      by (cases "rlq_before q")
         (auto simp: before_query_def c is_before_cursor_key, auto simp: is_before_cursor_def native_run_key_def
            less_prod_def Let_def)
    moreover have "matches_native_run_query run (q\<lparr>rlq_before := Some c\<rparr>) = matches_native_run_query run q" for run
      by (simp add: matches_native_run_query_def)
    ultimately have "native_matches runs (q\<lparr>rlq_before := Some c\<rparr>) =
        filter (\<lambda>run. native_run_key run < native_run_key (last (take ?n ?all))) ?all"
      by (auto simp: native_matches_def intro: filter_cong)
    also have "\<dots> = drop ?n ?all"
      using sorted_after_page [OF desc _ ne] by simp
    finally show ?thesis using Some p by simp
  qed
  moreover have "length (take ?n ?all) \<le> ?n" by (metis length_take min.cobounded2)
  moreover have "sorted_wrt (\<lambda>x y. native_run_key y < native_run_key x) (take ?n ?all)"
    using desc by (metis append_take_drop_id sorted_wrt_append)
  ultimately show ?thesis unfolding p native_run_list_max_limit_def by simp
qed

section \<open>Witnesses\<close>

definition demo_context :: execution_context where
  "demo_context = \<lparr>ec_workspace_id = Ident ''w'', ec_workspace_root = WorkspacePath ''/w'',
     ec_effective_cwd = WorkspacePath ''/w'', ec_artifact_root = WorkspacePath ''/a'',
     ec_workspace_scope = ScopeLocal (WorkspacePath ''/w''),
     ec_sandbox_profile = \<lparr>sp_read_roots = [], sp_write_roots = [], sp_denied_roots = [],
       sp_process_exec = ExecDenied\<rparr>,
     ec_permission_policy = PermReadOnly, ec_network_policy = NetNone, ec_env_policy = EnvAll\<rparr>"

definition demo_run :: "string \<Rightarrow> string \<Rightarrow> run_status \<Rightarrow> nat option \<Rightarrow> run_projection" where
  "demo_run s i st started = \<lparr>rn_id = Ident i, rn_session_id = Ident s, rn_runtime_profile_id = Ident ''p'',
     rn_objective = ''o'', rn_status = st, rn_harness = HarnessNative, rn_source = SourceUser None None None,
     rn_execution_context = demo_context, rn_result = None, rn_contract_violation = None,
     rn_started_at_ms = started, rn_ended_at_ms = None, rn_last_event_seq = None, rn_workspace_info = None,
     rn_claimed_files = [], rn_conflict_summary = None\<rparr>"

definition demo_list_query :: run_list_query where
  "demo_list_query = \<lparr>rlq_session_id = Ident ''s'',
     rlq_filter = \<lparr>rf_harness = None, rf_status = Some [Running], rf_parent_run_id = None\<rparr>,
     rlq_before = None, rlq_limit = 1\<rparr>"

definition demo_runs :: "run_projection list" where
  "demo_runs = [demo_run ''s'' ''a'' Running None, demo_run ''s'' ''b'' Running (Some 7),
     demo_run ''s'' ''c'' Failed (Some 9), demo_run ''t'' ''d'' Running (Some 8)]"

theorem run_cursor_roundtrip_witness:
  "cursor_decode (cursor_encode \<lparr>rcu_started_at_ms = 1700000000123, rcu_run_id = Ident ''run:1''\<rparr>)
     = Some \<lparr>rcu_started_at_ms = 1700000000123, rcu_run_id = Ident ''run:1''\<rparr>"
proof -
  have "\<not> blank ''run:1''" by code_simp
  then show ?thesis by (intro run_cursor_roundtrip) (simp_all add: u64_max_def)
qed

theorem native_run_pages_partition_witness:
  "rlp_runs (list_native_runs_from_projections demo_runs demo_list_query)
     = [demo_run ''s'' ''b'' Running (Some 7)] \<and>
   native_matches demo_runs (demo_list_query\<lparr>rlq_before :=
       Some \<lparr>rcu_started_at_ms = 7, rcu_run_id = Ident ''b''\<rparr>\<rparr>) = [demo_run ''s'' ''a'' Running None]"
proof -
  have sel: "filter (\<lambda>run. matches_native_run_query run demo_list_query) demo_runs =
      [demo_run ''s'' ''a'' Running None, demo_run ''s'' ''b'' Running (Some 7)]"
    by (simp add: matches_native_run_query_def demo_runs_def demo_list_query_def demo_run_def)
  have matches: "native_matches demo_runs demo_list_query =
      [demo_run ''s'' ''b'' Running (Some 7), demo_run ''s'' ''a'' Running None]"
    unfolding native_matches_def sel
    by (simp add: sort_desc_def native_run_key_def native_run_sort_started_at_def before_query_def
        demo_list_query_def demo_run_def)
  have page: "list_native_runs_from_projections demo_runs demo_list_query =
      \<lparr>rlp_runs = [demo_run ''s'' ''b'' Running (Some 7)],
       rlp_next_cursor = Some \<lparr>rcu_started_at_ms = 7, rcu_run_id = Ident ''b''\<rparr>\<rparr>"
    unfolding list_native_runs_eq matches
    by (simp add: demo_list_query_def native_run_list_max_limit_def native_run_cursor_def
        native_run_sort_started_at_def demo_run_def)
  have "distinct (map rn_id demo_runs)" and "0 < rlq_limit demo_list_query"
    by (simp_all add: demo_runs_def demo_run_def demo_list_query_def)
  from native_run_pages_partition [OF this page] matches page show ?thesis by simp
qed

end
