(* ===== verification/Receipts.thy ===== *)
theory Receipts
  imports Wire StoreErrors
begin

text \<open>
  Context receipts (\<open>crates/ta-store/src/receipts.rs\<close> and the receipt repository of the
  in-memory store, \<open>memory/receipts.rs\<close>): the identity of a receipt, idempotent creation, and
  the transitions to promoted and quarantined.

  The digest and the random identifier come from packages: \<open>sha256\<close> and \<open>uuid\<close> are arguments.
  The clock is an argument too: the milliseconds since the epoch, \<open>None\<close> before it.
\<close>

section \<open>Identity\<close>

record create_receipt =
  ci_session_id :: session_id
  ci_run_id :: run_id
  ci_parent_run_id :: "run_id option"
  ci_kind :: receipt_kind
  ci_provenance :: receipt_provenance
  ci_title :: "string option"
  ci_summary :: "string option"

record receipt_list_query =
  lq_session_id :: session_id
  lq_run_id :: "run_id option"
  lq_state :: "receipt_state option"
  lq_kind :: "receipt_kind option"
  lq_parent_run_id :: "run_id option"
  lq_limit :: "nat option"

fun receipt_kind_storage :: "receipt_kind \<Rightarrow> string" where
  "receipt_kind_storage RkEvidence = ''evidence''"
| "receipt_kind_storage RkPatch = ''patch''"
| "receipt_kind_storage RkTestOutput = ''testOutput''"
| "receipt_kind_storage RkReviewFinding = ''reviewFinding''"
| "receipt_kind_storage RkArtifact = ''artifact''"
| "receipt_kind_storage RkRisk = ''risk''"
| "receipt_kind_storage RkBlocker = ''blocker''"
| "receipt_kind_storage RkSummary = ''summary''"

fun receipt_state_storage :: "receipt_state \<Rightarrow> string" where
  "receipt_state_storage Returned = ''returned''"
| "receipt_state_storage Promoted = ''promoted''"
| "receipt_state_storage Quarantined = ''quarantined''"

definition validate_provenance_shape :: "receipt_provenance \<Rightarrow> (unit, store_error) result" where
  "validate_provenance_shape p =
     (case (pv_artifact_id p, pv_event_seq p, pv_agent_turn_id p) of
        (Some _, None, None) \<Rightarrow> Ok ()
      | (None, Some _, Some _) \<Rightarrow> Ok ()
      | (None, None, None) \<Rightarrow> Ok ()
      | (Some _, _, _) \<Rightarrow> Err (InvalidProvenance
          ''artifact-derived receipts must not also set event_seq or agent_turn_id'')
      | (None, _, _) \<Rightarrow> Err (InvalidProvenance
          ''event-derived receipts must set both event_seq and agent_turn_id''))"

definition unique_key_for_parts :: "session_id \<Rightarrow> run_id \<Rightarrow> receipt_kind \<Rightarrow> receipt_provenance \<Rightarrow>
    (string option, store_error) result" where
  "unique_key_for_parts s r k p =
     try_then (validate_provenance_shape p) (\<lambda>_.
       case pv_artifact_id p of
         Some a \<Rightarrow> Ok (Some (''artifact|'' @ as_str s @ ''|'' @ as_str r @ ''|'' @
           receipt_kind_storage k @ ''|'' @ as_str a))
       | None \<Rightarrow> (case (pv_event_seq p, pv_agent_turn_id p) of
           (Some n, Some t) \<Rightarrow> Ok (Some (''event-turn|'' @ as_str s @ ''|'' @ as_str r @ ''|'' @
             receipt_kind_storage k @ ''|'' @ dec n @ ''|'' @ as_str t))
         | _ \<Rightarrow> Ok None))"

definition receipt_unique_key :: "context_receipt \<Rightarrow> (string option, store_error) result" where
  "receipt_unique_key r =
     unique_key_for_parts (rc_session_id r) (rc_run_id r) (rc_kind r) (rc_provenance r)"

definition hex_digit :: "nat \<Rightarrow> char" where
  "hex_digit n = (if n < 10 then char_of (48 + n) else char_of (87 + n))"

definition push_hex_byte :: "string \<Rightarrow> char \<Rightarrow> string" where
  "push_hex_byte output byte =
     output @ [hex_digit (of_char byte div 16), hex_digit (of_char byte mod 16)]"

definition format_receipt_id :: "(string \<Rightarrow> string) \<Rightarrow> string \<Rightarrow> receipt_id" where
  "format_receipt_id sha256 key = foldl push_hex_byte ''receipt_'' (take 16 (sha256 key))"

definition receipt_id_for_create :: "(string \<Rightarrow> string) \<Rightarrow> string \<Rightarrow> create_receipt \<Rightarrow>
    (receipt_id, store_error) result" where
  "receipt_id_for_create sha256 uuid input =
     try_then (unique_key_for_parts (ci_session_id input) (ci_run_id input) (ci_kind input) (ci_provenance input))
       (\<lambda>key. case key of None \<Rightarrow> Ok (''receipt_'' @ uuid) | Some k \<Rightarrow> Ok (format_receipt_id sha256 k))"

definition current_time_ms :: "nat option \<Rightarrow> (nat, store_error) result" where
  "current_time_ms now =
     (case now of None \<Rightarrow> Err ReceiptClockBeforeUnixEpoch
      | Some n \<Rightarrow> if n \<le> u64_max then Ok n else Err ReceiptTimestampOutOfRange)"

definition build_returned_receipt :: "(string \<Rightarrow> string) \<Rightarrow> string \<Rightarrow> nat option \<Rightarrow> create_receipt \<Rightarrow>
    (context_receipt, store_error) result" where
  "build_returned_receipt sha256 uuid now input =
     try_then (receipt_id_for_create sha256 uuid input) (\<lambda>i.
     try_then (current_time_ms now) (\<lambda>created.
       Ok \<lparr>rc_id = i, rc_session_id = ci_session_id input, rc_run_id = ci_run_id input,
           rc_parent_run_id = ci_parent_run_id input, rc_kind = ci_kind input,
           rc_provenance = ci_provenance input, rc_state = Returned, rc_title = ci_title input,
           rc_summary = ci_summary input, rc_created_at_ms = created, rc_promoted_at_ms = None,
           rc_quarantined_at_ms = None\<rparr>))"

section \<open>Transitions\<close>

definition apply_promote :: "nat option \<Rightarrow> context_receipt \<Rightarrow> (context_receipt, store_error) result" where
  "apply_promote now r =
     (if rc_state r = Promoted then Ok r
      else let r' = r\<lparr>rc_state := Promoted\<rparr>
      in if rc_promoted_at_ms r' = None
         then try_then (current_time_ms now) (\<lambda>n. Ok (r'\<lparr>rc_promoted_at_ms := Some n\<rparr>))
         else Ok r')"

definition apply_quarantine :: "nat option \<Rightarrow> context_receipt \<Rightarrow> (context_receipt, store_error) result" where
  "apply_quarantine now r =
     (case rc_state r of
        Promoted \<Rightarrow> Err (ReceiptTransitionViolation (rc_id r) ''cannot quarantine promoted receipt'')
      | Quarantined \<Rightarrow> Ok r
      | Returned \<Rightarrow>
          (let r' = r\<lparr>rc_state := Quarantined\<rparr>
           in if rc_quarantined_at_ms r' = None
              then try_then (current_time_ms now) (\<lambda>n. Ok (r'\<lparr>rc_quarantined_at_ms := Some n\<rparr>))
              else Ok r'))"

definition receipt_matches_query :: "context_receipt \<Rightarrow> receipt_list_query \<Rightarrow> bool" where
  "receipt_matches_query r q \<longleftrightarrow>
     rc_session_id r = lq_session_id q \<and>
     none_or (\<lambda>i. rc_run_id r = i) (lq_run_id q) \<and>
     none_or (\<lambda>s. rc_state r = s) (lq_state q) \<and>
     none_or (\<lambda>k. rc_kind r = k) (lq_kind q) \<and>
     none_or (\<lambda>p. rc_parent_run_id r = Some p) (lq_parent_run_id q)"

section \<open>The repository\<close>

type_synonym receipt_table = "(receipt_id, context_receipt) btree"

text \<open>The receipt with this key that the traversal finds first.\<close>

definition receipt_with_key :: "receipt_table \<Rightarrow> string \<Rightarrow> context_receipt option" where
  "receipt_with_key t key = List.find (\<lambda>r. receipt_unique_key r = Ok (Some key)) (bt_values t)"

definition receipts_create :: "(string \<Rightarrow> string) \<Rightarrow> string \<Rightarrow> nat option \<Rightarrow> create_receipt \<Rightarrow>
    receipt_table \<Rightarrow> (receipt_table \<times> context_receipt, store_error) result" where
  "receipts_create sha256 uuid now input t =
     try_then (build_returned_receipt sha256 uuid now input) (\<lambda>r.
     try_then (receipt_unique_key r) (\<lambda>key.
       case Option.bind key (receipt_with_key t) of
         Some existing \<Rightarrow> Ok (t, existing)
       | None \<Rightarrow> Ok (bt_put (rc_id r) r t, r)))"

definition receipt_or_missing :: "receipt_table \<Rightarrow> receipt_id \<Rightarrow> (context_receipt, store_error) result" where
  "receipt_or_missing t i =
     (case bt_get t i of None \<Rightarrow> Err (MissingRecord ''context_receipt'' i) | Some r \<Rightarrow> Ok r)"

definition receipts_promote :: "nat option \<Rightarrow> receipt_id \<Rightarrow> receipt_table \<Rightarrow>
    (receipt_table \<times> context_receipt, store_error) result" where
  "receipts_promote now i t =
     try_then (receipt_or_missing t i) (\<lambda>r.
     try_then (apply_promote now r) (\<lambda>promoted.
       if promoted = r then Ok (t, promoted) else Ok (bt_put i promoted t, promoted)))"

definition receipts_quarantine :: "nat option \<Rightarrow> receipt_id \<Rightarrow> receipt_table \<Rightarrow>
    (receipt_table \<times> context_receipt, store_error) result" where
  "receipts_quarantine now i t =
     try_then (receipt_or_missing t i) (\<lambda>r.
     try_then (apply_quarantine now r) (\<lambda>quarantined.
       if quarantined = r then Ok (t, quarantined) else Ok (bt_put i quarantined t, quarantined)))"

fun receipts_take :: "receipt_list_query \<Rightarrow> nat \<Rightarrow> context_receipt list \<Rightarrow> context_receipt list \<Rightarrow>
    context_receipt list" where
  "receipts_take q limit [] out = out"
| "receipts_take q limit (r # rs) out =
     (if \<not> receipt_matches_query r q then receipts_take q limit rs out
      else if length out \<ge> limit then out
      else receipts_take q limit rs (out @ [r]))"

definition receipts_list :: "receipt_list_query \<Rightarrow> receipt_table \<Rightarrow> context_receipt list" where
  "receipts_list q t =
     (case lq_limit q of
        None \<Rightarrow> filter (\<lambda>r. receipt_matches_query r q) (bt_values t)
      | Some limit \<Rightarrow> receipts_take q limit (bt_values t) [])"

lemma receipts_take_eq:
  "length out \<le> limit \<Longrightarrow>
   receipts_take q limit rs out = out @ take (limit - length out) (filter (\<lambda>r. receipt_matches_query r q) rs)"
proof (induction rs arbitrary: out)
  case (Cons r rs)
  show ?case
  proof (cases "length out < limit")
    case True
    then have "limit - length out = Suc (limit - Suc (length out))" by linarith
    with Cons True show ?thesis by auto
  next
    case False
    with Cons show ?thesis by auto
  qed
qed simp

text \<open>
  Listing receipts with a limit returns the first matching receipts in id order, exactly
  the prefix of that length of what the unlimited query returns.
\<close>

theorem receipts_list_is_prefix:
  "receipts_list q t = (case lq_limit q of
     None \<Rightarrow> filter (\<lambda>r. receipt_matches_query r q) (bt_values t)
   | Some n \<Rightarrow> take n (receipts_list (q\<lparr>lq_limit := None\<rparr>) t))"
proof -
  have "receipt_matches_query r (q\<lparr>lq_limit := None\<rparr>) = receipt_matches_query r q" for r
    by (simp add: receipt_matches_query_def)
  then show ?thesis by (simp add: receipts_list_def receipts_take_eq split: option.splits)
qed

section \<open>Keys identify receipts\<close>

fun join_bars :: "string list \<Rightarrow> string" where
  "join_bars [] = []"
| "join_bars [s] = s"
| "join_bars (s # t # ss) = s @ CHR ''|'' # join_bars (t # ss)"

lemma append_bar_inj:
  "CHR ''|'' \<notin> set s \<Longrightarrow> CHR ''|'' \<notin> set t \<Longrightarrow> s @ CHR ''|'' # x = t @ CHR ''|'' # y \<Longrightarrow> s = t \<and> x = y"
  by (induction s arbitrary: t) (auto simp: Cons_eq_append_conv append_eq_Cons_conv)

lemma join_bars_inj:
  "\<forall>s\<in>set xs. CHR ''|'' \<notin> set s \<Longrightarrow> \<forall>s\<in>set ys. CHR ''|'' \<notin> set s \<Longrightarrow>
   xs \<noteq> [] \<Longrightarrow> ys \<noteq> [] \<Longrightarrow> join_bars xs = join_bars ys \<Longrightarrow> xs = ys"
proof (induction xs arbitrary: ys rule: join_bars.induct)
  case (2 s)
  then show ?case by (cases ys rule: join_bars.cases) auto
next
  case (3 s t ss)
  show ?case
  proof (cases ys rule: join_bars.cases)
    case (3 s' t' ss')
    with "3.prems" have "s = s' \<and> join_bars (t # ss) = join_bars (t' # ss')"
      by (intro append_bar_inj) auto
    with 3 "3.IH" [of "t' # ss'"] "3.prems" show ?thesis by auto
  qed (use "3.prems" in auto)
qed simp

lemma bar_not_in_dec: "CHR ''|'' \<notin> set (dec n)"
proof
  assume "CHR ''|'' \<in> set (dec n)"
  then obtain d where "d < 10" "CHR ''|'' = digit_char d" using dec_chars by blast
  moreover have "57 < (of_char (CHR ''|'') :: nat)" by simp
  ultimately show False using digit_char_neq [of d "CHR ''|''"] by metis
qed

lemma kind_storage_inj: "receipt_kind_storage k = receipt_kind_storage k' \<longleftrightarrow> k = k'"
  by (cases k; cases k') simp_all

lemma bar_not_in_kind: "CHR ''|'' \<notin> set (receipt_kind_storage k)"
  by (cases k) simp_all

text \<open>The fields of a key, as the code joins them.\<close>

definition key_fields :: "session_id \<Rightarrow> run_id \<Rightarrow> receipt_kind \<Rightarrow> receipt_provenance \<Rightarrow> string list" where
  "key_fields s r k p = (case pv_artifact_id p of
       Some a \<Rightarrow> [''artifact'', as_str s, as_str r, receipt_kind_storage k, as_str a]
     | None \<Rightarrow> [''event-turn'', as_str s, as_str r, receipt_kind_storage k,
         dec (the (pv_event_seq p)), as_str (the (pv_agent_turn_id p))])"

lemma unique_key_fields:
  assumes "unique_key_for_parts s r k p = Ok (Some key)"
  shows "key = join_bars (key_fields s r k p) \<and>
    (pv_artifact_id p = None \<longrightarrow> pv_event_seq p \<noteq> None \<and> pv_agent_turn_id p \<noteq> None) \<and>
    (pv_artifact_id p \<noteq> None \<longrightarrow> pv_event_seq p = None \<and> pv_agent_turn_id p = None)"
  using assms
  by (auto simp: unique_key_for_parts_def key_fields_def validate_provenance_shape_def
      split: option.splits)

definition no_bar :: "ident \<Rightarrow> bool" where
  "no_bar i \<longleftrightarrow> CHR ''|'' \<notin> set (as_str i)"

definition no_bars :: "session_id \<Rightarrow> run_id \<Rightarrow> receipt_provenance \<Rightarrow> bool" where
  "no_bars s r p \<longleftrightarrow> no_bar s \<and> no_bar r \<and> none_or no_bar (pv_artifact_id p) \<and>
     none_or no_bar (pv_agent_turn_id p)"

lemma dec_inj: "m \<le> u64_max \<Longrightarrow> n \<le> u64_max \<Longrightarrow> dec m = dec n \<Longrightarrow> m = n"
  by (metis parse_u64_dec option.inject)

text \<open>
  Among identifiers without a vertical bar the deduplication key is exact: equal keys mean
  the same session, run, kind, artifact, event and turn. (Identifiers may contain a bar, and then
  it is not: see \<open>unique_key_collision\<close>.)
\<close>

theorem unique_key_exact:
  assumes "unique_key_for_parts s r k p = Ok (Some key)" and "unique_key_for_parts s' r' k' p' = Ok (Some key)"
    and "no_bars s r p" and "no_bars s' r' p'"
    and "none_or (\<lambda>n. n \<le> u64_max) (pv_event_seq p)" and "none_or (\<lambda>n. n \<le> u64_max) (pv_event_seq p')"
  shows "s = s' \<and> r = r' \<and> k = k' \<and> pv_artifact_id p = pv_artifact_id p' \<and>
    pv_event_seq p = pv_event_seq p' \<and> pv_agent_turn_id p = pv_agent_turn_id p'"
proof -
  note f = unique_key_fields [OF assms(1)] and f' = unique_key_fields [OF assms(2)]
  have clean: "\<forall>x\<in>set (key_fields s r k p). CHR ''|'' \<notin> set x" if "no_bars s r p"
      "unique_key_for_parts s r k p = Ok (Some key)" for s r k p
    using that unique_key_fields [OF that(2)] bar_not_in_dec bar_not_in_kind
    by (auto simp: key_fields_def no_bars_def no_bar_def split: option.splits)
  have "key_fields s r k p = key_fields s' r' k' p'"
    using f f' clean [OF assms(3,1)] clean [OF assms(4,2)]
    by (intro join_bars_inj) (auto simp: key_fields_def split: option.splits)
  with f f' assms(5,6) show ?thesis
    by (auto simp: key_fields_def kind_storage_inj ident.expand intro: dec_inj split: option.splits)
qed

text \<open>Two different runs whose receipts the store takes for one.\<close>

lemma unique_key_collision:
  "unique_key_for_parts (Ident ''s'') (Ident ''r|x'') RkPatch
     \<lparr>pv_artifact_id = Some (Ident ''a''), pv_agent_turn_id = None, pv_event_seq = None, pv_stream_cursor = None\<rparr> =
   unique_key_for_parts (Ident ''s|r'') (Ident ''x'') RkPatch
     \<lparr>pv_artifact_id = Some (Ident ''a''), pv_agent_turn_id = None, pv_event_seq = None, pv_stream_cursor = None\<rparr>"
  by (simp add: unique_key_for_parts_def validate_provenance_shape_def)

section \<open>Reachable tables\<close>

text \<open>
  Identifiers do not collide, which is what the random identifier and the digest are for: a receipt
  that is in the table under the identifier a new one would get has the key of the new one. Whether the
  table is changed does not matter here.
\<close>

definition id_belongs_to_key :: "(string \<Rightarrow> string) \<Rightarrow> string \<Rightarrow> nat option \<Rightarrow> create_receipt \<Rightarrow> receipt_table \<Rightarrow> bool" where
  "id_belongs_to_key sha256 uuid now input t \<longleftrightarrow>
     (case build_returned_receipt sha256 uuid now input of
        Inl _ \<Rightarrow> True
      | Inr b \<Rightarrow> (case bt_get t (rc_id b) of
          None \<Rightarrow> True
        | Some e \<Rightarrow> receipt_unique_key e = receipt_unique_key b \<and> receipt_unique_key b \<noteq> Ok None))"

lemma id_belongs_to_key_Nil [simp]: "id_belongs_to_key sha256 uuid now input []"
  by (simp add: id_belongs_to_key_def split: sum.split)

text \<open>A step of the repository, whether it succeeds and changes the table or not.\<close>

inductive receipt_step :: "(string \<Rightarrow> string) \<Rightarrow> receipt_table \<Rightarrow> receipt_table \<Rightarrow> bool"
  for sha256 :: "string \<Rightarrow> string" where
  create_step: "receipts_create sha256 uuid now input t = Ok (t', r) \<Longrightarrow>
    id_belongs_to_key sha256 uuid now input t \<Longrightarrow> receipt_step sha256 t t'"
| promote_step: "receipts_promote now i t = Ok (t', r) \<Longrightarrow> receipt_step sha256 t t'"
| quarantine_step: "receipts_quarantine now i t = Ok (t', r) \<Longrightarrow> receipt_step sha256 t t'"

text \<open>How one receipt may move: forward only, and each time stamp is written once.\<close>

definition receipt_core :: "context_receipt \<Rightarrow> context_receipt" where
  "receipt_core r = r\<lparr>rc_state := Returned, rc_promoted_at_ms := None, rc_quarantined_at_ms := None\<rparr>"

definition receipt_moves :: "context_receipt \<Rightarrow> context_receipt \<Rightarrow> bool" where
  "receipt_moves r r' \<longleftrightarrow>
     receipt_core r' = receipt_core r \<and>
     (rc_state r = Promoted \<longrightarrow> r' = r) \<and>
     (rc_state r' = Returned \<longrightarrow> r' = r) \<and>
     (\<forall>n. rc_promoted_at_ms r = Some n \<longrightarrow> rc_promoted_at_ms r' = Some n) \<and>
     (\<forall>n. rc_quarantined_at_ms r = Some n \<longrightarrow> rc_quarantined_at_ms r' = Some n)"

text \<open>Every stored receipt is under its own id, and has the time stamps of its state.\<close>

definition receipt_stamped :: "context_receipt \<Rightarrow> bool" where
  "receipt_stamped r \<longleftrightarrow>
     (case rc_state r of
        Returned \<Rightarrow> rc_promoted_at_ms r = None \<and> rc_quarantined_at_ms r = None
      | Quarantined \<Rightarrow> rc_promoted_at_ms r = None \<and> rc_quarantined_at_ms r \<noteq> None
      | Promoted \<Rightarrow> rc_promoted_at_ms r \<noteq> None)"

definition receipts_ok :: "receipt_table \<Rightarrow> bool" where
  "receipts_ok t \<longleftrightarrow> bt_wf t \<and> (\<forall>i r. bt_get t i = Some r \<longrightarrow> rc_id r = i \<and> receipt_stamped r)"

lemma receipt_moves_refl [simp]: "receipt_moves r r"
  by (simp add: receipt_moves_def)

lemma receipt_moves_trans: "receipt_moves r s \<Longrightarrow> receipt_moves s t \<Longrightarrow> receipt_moves r t"
  unfolding receipt_moves_def by (metis (full_types))

lemma promote_moves:
  assumes "apply_promote now r = Ok r'"
  shows "receipt_moves r r' \<and> rc_state r' = Promoted \<and> (receipt_stamped r \<longrightarrow> receipt_stamped r') \<and> rc_id r' = rc_id r"
  using assms
  by (auto simp: apply_promote_def receipt_moves_def receipt_core_def receipt_stamped_def Let_def try_then_Ok_iff
      split: if_splits)

lemma quarantine_moves:
  assumes "apply_quarantine now r = Ok r'"
  shows "receipt_moves r r' \<and> rc_state r' = Quarantined \<and> (receipt_stamped r \<longrightarrow> receipt_stamped r') \<and> rc_id r' = rc_id r"
  using assms
  by (auto simp: apply_quarantine_def receipt_moves_def receipt_core_def receipt_stamped_def Let_def try_then_Ok_iff
      split: if_splits receipt_state.splits)

lemma built_receipt:
  assumes "build_returned_receipt sha256 uuid now input = Ok r"
  shows "receipt_stamped r \<and> rc_state r = Returned"
  using assms by (auto simp: build_returned_receipt_def receipt_stamped_def try_then_Ok_iff)

abbreviation table_moves :: "receipt_table \<Rightarrow> receipt_table \<Rightarrow> bool" where
  "table_moves t t' \<equiv> receipts_ok t' \<and>
     (\<forall>i r. bt_get t i = Some r \<longrightarrow> (\<exists>r'. bt_get t' i = Some r' \<and> receipt_moves r r'))"

lemma table_put_moves:
  assumes "receipts_ok t" and "receipt_stamped r'" and "rc_id r' = i"
    and "\<And>r. bt_get t i = Some r \<Longrightarrow> receipt_moves r r'"
  shows "table_moves t (bt_put i r' t)"
  using assms by (auto simp: receipts_ok_def)

lemma stored_key_found: "bt_get t i = Some e \<Longrightarrow> receipt_unique_key e = Ok (Some k) \<Longrightarrow> receipt_with_key t k \<noteq> None"
  using map_of_SomeD [of t i e] by (auto simp: receipt_with_key_def find_None_iff image_iff)

lemma receipts_create_cases:
  assumes "receipts_create sha256 uuid now input t = Ok (t', r)" and "id_belongs_to_key sha256 uuid now input t"
  obtains "t' = t"
  | "t' = bt_put (rc_id r) r t" "build_returned_receipt sha256 uuid now input = Ok r" "bt_get t (rc_id r) = None"
proof -
  from assms(1) obtain b key where b: "build_returned_receipt sha256 uuid now input = Ok b"
    and key: "receipt_unique_key b = Ok key"
    and r: "(case Option.bind key (receipt_with_key t) of Some e \<Rightarrow> Ok (t, e)
      | None \<Rightarrow> Ok (bt_put (rc_id b) b t, b)) = (Ok (t', r) :: (receipt_table \<times> context_receipt, store_error) result)"
    by (auto simp only: receipts_create_def try_then_Ok_iff)
  show thesis
  proof (cases "Option.bind key (receipt_with_key t)")
    case None
    with r have new: "t' = bt_put (rc_id r) r t" "r = b" by auto
    have "bt_get t (rc_id b) = None"
    proof (cases "bt_get t (rc_id b)")
      case (Some e)
      with assms(2) b key obtain k where "key = Some k" "receipt_unique_key e = Ok (Some k)"
        by (cases key) (auto simp: id_belongs_to_key_def)
      with None stored_key_found [OF Some] show ?thesis by simp
    qed
    with new b that(2) show thesis by simp
  qed (use r that(1) in simp)
qed

lemma receipt_step_moves:
  assumes "receipt_step sha256 t t'" and ok: "receipts_ok t"
  shows "table_moves t t'"
  using assms(1)
proof (cases rule: receipt_step.cases)
  case (create_step uuid now input r)
  from create_step show ?thesis
  proof (cases rule: receipts_create_cases)
    case 2
    then show ?thesis
      using built_receipt [of sha256 uuid now input r] table_put_moves [OF ok, of r "rc_id r"] by simp
  qed (use ok in auto)
next
  case (promote_step now i r')
  then obtain r where r: "bt_get t i = Some r" and p: "apply_promote now r = Ok r'"
    and t': "t' = t \<or> t' = bt_put i r' t"
    by (auto simp: receipts_promote_def try_then_Ok_iff receipt_or_missing_def split: option.split_asm if_split_asm)
  have "rc_id r = i" "receipt_stamped r" using ok r by (auto simp: receipts_ok_def)
  with promote_moves [OF p] r t' ok table_put_moves [OF ok, of r' i] show ?thesis by auto
next
  case (quarantine_step now i r')
  then obtain r where r: "bt_get t i = Some r" and p: "apply_quarantine now r = Ok r'"
    and t': "t' = t \<or> t' = bt_put i r' t"
    by (auto simp: receipts_quarantine_def try_then_Ok_iff receipt_or_missing_def split: option.split_asm if_split_asm)
  have "rc_id r = i" "receipt_stamped r" using ok r by (auto simp: receipts_ok_def)
  with quarantine_moves [OF p] r t' ok table_put_moves [OF ok, of r' i] show ?thesis by auto
qed

lemma receipt_steps_move:
  assumes "(receipt_step sha256)\<^sup>*\<^sup>* t t'" and "receipts_ok t"
  shows "table_moves t t'"
  using assms
proof (induction rule: rtranclp_induct)
  case (step y z)
  then have "table_moves t y" by simp
  moreover have "table_moves y z" using receipt_step_moves step calculation by blast
  ultimately show ?case using receipt_moves_trans by meson
qed auto

text \<open>
  C30. However receipts are created (again), promoted and quarantined from an empty table on, a receipt
  is never lost, keeps its identity, provenance, title, summary and creation time, and only moves
  forward: from returned to quarantined or promoted, from quarantined to promoted, and never out of
  promoted; its time stamps are written once and are those of its state. Identifiers are assumed not
  to collide: an identifier in use belongs to a receipt with the same key.
\<close>

theorem receipts_only_move_forward:
  assumes "(receipt_step sha256)\<^sup>*\<^sup>* [] t" and "(receipt_step sha256)\<^sup>*\<^sup>* t t'" and "bt_get t i = Some r"
  shows "\<exists>r'. bt_get t' i = Some r' \<and> receipt_moves r r' \<and> rc_id r' = i \<and> receipt_stamped r'"
proof -
  have "receipts_ok []" by (simp add: receipts_ok_def)
  with receipt_steps_move [OF assms(1)] have "receipts_ok t" by blast
  from receipt_steps_move [OF assms(2) this] assms(3) show ?thesis
    unfolding receipts_ok_def by blast
qed

text \<open>
  Creation is idempotent: once a receipt with a key was created, creating it again, whatever
  the new title, summary, parent, clock and random identifier and whatever promotions and
  quarantines happened in between, changes nothing and answers the stored receipt in its current
  state.
\<close>

theorem receipt_create_idempotent:
  assumes ok: "receipts_ok t" and once: "receipts_create sha256 uuid now input t = Ok (t1, r)"
    and key: "receipt_unique_key r = Ok (Some k)"
    and later: "(receipt_step sha256)\<^sup>*\<^sup>* t1 t2" and free: "id_belongs_to_key sha256 uuid now input t"
    and again: "ci_session_id input2 = ci_session_id input" "ci_run_id input2 = ci_run_id input"
      "ci_kind input2 = ci_kind input" "ci_provenance input2 = ci_provenance input"
    and clock: "current_time_ms now2 = Ok n2"
  shows "\<exists>r2. receipts_create sha256 uuid2 now2 input2 t2 = Ok (t2, r2) \<and> receipt_unique_key r2 = Ok (Some k) \<and>
    bt_get t2 (rc_id r2) = Some r2"
proof -
  have find: "(\<exists>i r'. bt_get t i = Some r' \<and> receipt_unique_key r' = Ok (Some k)) \<longleftrightarrow> receipt_with_key t k \<noteq> None"
    if "receipts_ok t" for t
    using that bt_get_iff [of t] by (auto simp: receipt_with_key_def find_None_iff receipts_ok_def image_iff) fastforce
  obtain b where b: "build_returned_receipt sha256 uuid now input = Ok b"
    using once by (auto simp: receipts_create_def try_then_Ok_iff)
  then have bkey: "receipt_unique_key b = unique_key_for_parts (ci_session_id input) (ci_run_id input)
      (ci_kind input) (ci_provenance input)"
    by (auto simp: build_returned_receipt_def try_then_Ok_iff receipt_unique_key_def)
  have ok1: "receipts_ok t1"
    using receipt_step_moves [OF create_step [OF once] ok] free by blast
  have bk: "receipt_unique_key b = Ok (Some k)" and stored: "bt_get t1 (rc_id r) = Some r"
  proof -
    from once b obtain kb where kb: "receipt_unique_key b = Ok kb"
      and cases: "(case Option.bind kb (receipt_with_key t) of Some e \<Rightarrow> Ok (t, e)
          | None \<Rightarrow> Ok (bt_put (rc_id b) b t, b)) = (Ok (t1, r) :: (receipt_table \<times> context_receipt, store_error) result)"
      by (auto simp only: receipts_create_def try_then_simps try_then_Ok_iff)
    show "receipt_unique_key b = Ok (Some k)"
    proof (cases "Option.bind kb (receipt_with_key t)")
      case None
      with cases kb key show ?thesis by simp
    next
      case (Some e)
      with cases obtain kb' where "kb = Some kb'" and "receipt_with_key t kb' = Some r"
        by (cases kb) (simp, fastforce)
      then have "receipt_unique_key r = Ok (Some kb')" by (auto simp: receipt_with_key_def find_Some_iff)
      with key kb \<open>kb = Some kb'\<close> show ?thesis by simp
    qed
    show "bt_get t1 (rc_id r) = Some r"
    proof (cases "Option.bind kb (receipt_with_key t)")
      case None
      with cases have "bt_put (rc_id r) r t = t1" by auto
      then show ?thesis using bt_get_put [of "rc_id r" r t "rc_id r"] by simp
    next
      case (Some e)
      then obtain kb' where "receipt_with_key t kb' = Some e" by (cases kb) simp_all
      moreover have "e = r" and "t1 = t" using cases Some by simp_all
      ultimately have e: "receipt_with_key t kb' = Some r" "t1 = t" by simp_all
      then have "r \<in> set (bt_values t)" by (auto simp: receipt_with_key_def find_Some_iff)
      with ok e(2) bt_get_iff [of t] show ?thesis by (fastforce simp: receipts_ok_def)
    qed
  qed
  from receipt_steps_move [OF later ok1] stored
  have "receipts_ok t2 \<and> (\<exists>r'. bt_get t2 (rc_id r) = Some r' \<and> receipt_moves r r')" by blast
  then obtain r' where ok2: "receipts_ok t2" and r': "bt_get t2 (rc_id r) = Some r'" "receipt_moves r r'" by blast
  have "receipt_unique_key x = receipt_unique_key (receipt_core x)" for x
    by (simp add: receipt_core_def receipt_unique_key_def)
  with r'(2) key have "receipt_unique_key r' = Ok (Some k)"
    unfolding receipt_moves_def by metis
  with find [OF ok2] r' obtain e where e: "receipt_with_key t2 k = Some e" by blast
  then have ek: "receipt_unique_key e = Ok (Some k)" "e \<in> set (bt_values t2)"
    by (auto simp: receipt_with_key_def find_Some_iff)
  from ek(2) ok2 bt_get_iff [of t2] have at: "bt_get t2 (rc_id e) = Some e" by (fastforce simp: receipts_ok_def)
  have "\<exists>b2. build_returned_receipt sha256 uuid2 now2 input2 = Ok b2 \<and> receipt_unique_key b2 = Ok (Some k)"
    using trans [OF bkey [symmetric] bk] clock again
    by (simp add: build_returned_receipt_def receipt_id_for_create_def receipt_unique_key_def)
  with e ek(1) at show ?thesis by (auto simp: receipts_create_def)
qed

section \<open>Witnesses\<close>

definition demo_input :: create_receipt where
  "demo_input = \<lparr>ci_session_id = Ident ''s'', ci_run_id = Ident ''r'', ci_parent_run_id = None, ci_kind = RkPatch,
     ci_provenance = \<lparr>pv_artifact_id = None, pv_agent_turn_id = Some (Ident ''t''), pv_event_seq = Some 7,
       pv_stream_cursor = None\<rparr>, ci_title = None, ci_summary = Some ''fix''\<rparr>"

definition demo_receipt :: context_receipt where
  "demo_receipt = \<lparr>rc_id = ''receipt_6162'', rc_session_id = Ident ''s'', rc_run_id = Ident ''r'',
     rc_parent_run_id = None, rc_kind = RkPatch, rc_provenance = ci_provenance demo_input, rc_state = Returned,
     rc_title = None, rc_summary = Some ''fix'', rc_created_at_ms = 5, rc_promoted_at_ms = None,
     rc_quarantined_at_ms = None\<rparr>"

definition demo_promoted :: context_receipt where
  "demo_promoted = demo_receipt\<lparr>rc_state := Promoted, rc_promoted_at_ms := Some 8\<rparr>"

definition demo_sha :: "string \<Rightarrow> string" where
  "demo_sha k = ''ab''"

lemmas demo_receipt_defs = demo_input_def demo_receipt_def demo_promoted_def demo_sha_def

lemma dec7: "dec 7 = ''7''"
  by code_simp

lemma demo_key: "receipt_unique_key demo_receipt = Ok (Some ''event-turn|s|r|patch|7|t'')"
  by (simp add: receipt_unique_key_def unique_key_for_parts_def validate_provenance_shape_def demo_receipt_defs dec7)

lemma demo_id: "format_receipt_id demo_sha k = ''receipt_6162''"
proof -
  have "format_receipt_id (\<lambda>_. ''ab'') [] = ''receipt_6162''" by code_simp
  then show ?thesis by (simp add: format_receipt_id_def demo_sha_def)
qed

lemma demo_clock: "n \<le> 9 \<Longrightarrow> current_time_ms (Some n) = Ok n"
  by (simp add: current_time_ms_def u64_max_def)

lemma demo_build: "build_returned_receipt demo_sha ''u'' (Some 5) demo_input = Ok demo_receipt"
  by (simp add: build_returned_receipt_def receipt_id_for_create_def unique_key_for_parts_def
      validate_provenance_shape_def demo_clock demo_id demo_input_def demo_receipt_def)

lemma demo_created: "receipts_create demo_sha ''u'' (Some 5) demo_input [] = Ok ([(''receipt_6162'', demo_receipt)], demo_receipt)"
  by (simp add: receipts_create_def demo_build demo_key receipt_with_key_def bt_put_def)
     (simp add: demo_receipt_def)

lemma demo_promotes: "receipts_promote (Some 8) ''receipt_6162'' [(''receipt_6162'', demo_receipt)] =
    Ok ([(''receipt_6162'', demo_promoted)], demo_promoted)"
proof -
  have "apply_promote (Some 8) demo_receipt = Ok demo_promoted" and "demo_promoted \<noteq> demo_receipt"
    by (simp_all add: apply_promote_def demo_clock Let_def demo_promoted_def demo_receipt_def)
  then show ?thesis by (simp add: receipts_promote_def receipt_or_missing_def bt_put_def)
qed

lemma demo_steps:
  "receipt_step demo_sha [] [(''receipt_6162'', demo_receipt)]"
  "receipt_step demo_sha [(''receipt_6162'', demo_receipt)] [(''receipt_6162'', demo_promoted)]"
  using create_step [OF demo_created] promote_step [OF demo_promotes] by simp_all

theorem unique_key_exact_witness:
  "unique_key_for_parts (Ident ''s'') (Ident ''r'') RkPatch (ci_provenance demo_input) =
     Ok (Some ''event-turn|s|r|patch|7|t'') \<and> pv_event_seq (ci_provenance demo_input) = Some 7"
proof -
  have key: "unique_key_for_parts (Ident ''s'') (Ident ''r'') RkPatch (ci_provenance demo_input) =
      Ok (Some ''event-turn|s|r|patch|7|t'')"
    using demo_key by (simp add: receipt_unique_key_def demo_receipt_def)
  have "no_bars (Ident ''s'') (Ident ''r'') (ci_provenance demo_input)"
    and "none_or (\<lambda>n. n \<le> u64_max) (pv_event_seq (ci_provenance demo_input))"
    by (simp_all add: no_bars_def no_bar_def demo_input_def u64_max_def)
  from unique_key_exact [OF key key this(1,1,2,2)] key show ?thesis by (simp add: demo_input_def)
qed

theorem receipts_only_move_forward_witness:
  "\<exists>r'. bt_get [(''receipt_6162'', demo_promoted)] ''receipt_6162'' = Some r' \<and>
     receipt_moves demo_receipt r' \<and> rc_id r' = ''receipt_6162'' \<and> receipt_stamped r'"
  using receipts_only_move_forward [OF r_into_rtranclp r_into_rtranclp, OF demo_steps(1,2),
      of "''receipt_6162''" demo_receipt] by simp

theorem receipt_create_idempotent_witness:
  "\<exists>r2. receipts_create demo_sha ''v'' (Some 9) (demo_input\<lparr>ci_title := Some ''again''\<rparr>)
       [(''receipt_6162'', demo_promoted)] = Ok ([(''receipt_6162'', demo_promoted)], r2) \<and>
     bt_get [(''receipt_6162'', demo_promoted)] (rc_id r2) = Some r2"
proof -
  have "receipts_ok []" by (simp add: receipts_ok_def)
  from receipt_create_idempotent [OF this demo_created demo_key r_into_rtranclp, OF demo_steps(2),
      where ?input2.0 = "demo_input\<lparr>ci_title := Some ''again''\<rparr>" and ?now2.0 = "Some 9" and ?n2.0 = 9
      and ?uuid2.0 = "''v''"] demo_clock [of 9]
  have "\<exists>r2. receipts_create demo_sha ''v'' (Some 9) (demo_input\<lparr>ci_title := Some ''again''\<rparr>)
       [(''receipt_6162'', demo_promoted)] = Ok ([(''receipt_6162'', demo_promoted)], r2) \<and>
     receipt_unique_key r2 = Ok (Some ''event-turn|s|r|patch|7|t'') \<and>
     bt_get [(''receipt_6162'', demo_promoted)] (rc_id r2) = Some r2"
    by (simp del: map_of.simps(2))
  then show ?thesis by blast
qed

end
