(* ===== verification/WorkItems.thy ===== *)
theory WorkItems
  imports Prelude
begin

text \<open>
  Work items (\<open>crates/ta-work-source/src/model.rs\<close>, \<open>crates/ta-store/src/work_items.rs\<close> and
  \<open>memory/work_items.rs\<close>): their keys, the label filter, and the inbox that merges what a
  source reports with what the user already decided.
\<close>

section \<open>The model\<close>

datatype work_item_key = WorkItemKey (key_str: string)

datatype work_source_kind = KindGitHub

datatype work_source = GitHub string string

datatype work_item_status = Available | Dismissed | Triggered | Stale

record work_item =
  wi_key :: work_item_key
  wi_source :: work_source
  wi_external_id :: string
  wi_title :: string
  wi_body :: string
  wi_labels :: "string list"
  wi_url :: string
  wi_fetched_at_ms :: nat
  wi_status :: work_item_status
  wi_triggered_run_id :: "string option"

datatype label_filter = FilterAny | FilterAll "string list" | FilterAnyOf "string list"

definition work_item_key_new :: "string \<Rightarrow> (work_item_key, string) result" where
  "work_item_key_new value =
     (if blank value then Err ''work item key is empty'' else Ok (WorkItemKey value))"

definition require_key_part :: "string \<Rightarrow> string \<Rightarrow> (string, string) result" where
  "require_key_part name value =
     (let v = trim value in if v = [] then Err (name @ '' is empty'') else Ok v)"

definition work_item_key_github :: "string \<Rightarrow> string \<Rightarrow> string \<Rightarrow> (work_item_key, string) result" where
  "work_item_key_github owner repo external_id =
     try_then (require_key_part ''repo owner'' owner) (\<lambda>o'.
     try_then (require_key_part ''repo name'' repo) (\<lambda>n.
     try_then (require_key_part ''external id'' external_id) (\<lambda>i.
       work_item_key_new (''github:'' @ o' @ ''/'' @ n @ ''#'' @ i))))"

text \<open>\<open>str::eq_ignore_ascii_case\<close>.\<close>

definition ascii_lower :: "char \<Rightarrow> char" where
  "ascii_lower c = (let n = (of_char c :: nat) in if 65 \<le> n \<and> n \<le> 90 then char_of (n + 32) else c)"

definition eq_ignore_ascii_case :: "string \<Rightarrow> string \<Rightarrow> bool" where
  "eq_ignore_ascii_case a b \<longleftrightarrow> map ascii_lower a = map ascii_lower b"

definition has_label :: "string list \<Rightarrow> string \<Rightarrow> bool" where
  "has_label labels expected \<longleftrightarrow> list_ex (\<lambda>l. eq_ignore_ascii_case l (trim expected)) labels"

fun label_filter_matches :: "label_filter \<Rightarrow> string list \<Rightarrow> bool" where
  "label_filter_matches FilterAny labels = True"
| "label_filter_matches (FilterAll required) labels = list_all (has_label labels) required"
| "label_filter_matches (FilterAnyOf allowed) labels = (allowed = [] \<or> list_ex (has_label labels) allowed)"

section \<open>The inbox\<close>

instantiation work_item_key :: linorder
begin

definition less_eq_work_item_key :: "work_item_key \<Rightarrow> work_item_key \<Rightarrow> bool" where
  "less_eq_work_item_key a b \<longleftrightarrow> key_str a \<le> key_str b"

definition less_work_item_key :: "work_item_key \<Rightarrow> work_item_key \<Rightarrow> bool" where
  "less_work_item_key a b \<longleftrightarrow> key_str a < key_str b"

instance
  by standard (auto simp: less_eq_work_item_key_def less_work_item_key_def intro: work_item_key.expand)

end

type_synonym work_table = "(work_item_key, work_item) btree"

definition merged_work_item :: "work_item \<Rightarrow> work_item option \<Rightarrow> work_item" where
  "merged_work_item incoming existing =
     (case existing of
        None \<Rightarrow> incoming
      | Some old \<Rightarrow>
          (case wi_status old of
             Dismissed \<Rightarrow> incoming\<lparr>wi_status := wi_status old, wi_triggered_run_id := wi_triggered_run_id old\<rparr>
           | Triggered \<Rightarrow> incoming\<lparr>wi_status := wi_status old, wi_triggered_run_id := wi_triggered_run_id old\<rparr>
           | Available \<Rightarrow> incoming
           | Stale \<Rightarrow> incoming))"

fun source_kind :: "work_source \<Rightarrow> work_source_kind" where
  "source_kind (GitHub _ _) = KindGitHub"

fun source_matches :: "work_source \<Rightarrow> work_source \<Rightarrow> bool" where
  "source_matches (GitHub o1 n1) (GitHub o2 n2) \<longleftrightarrow> o1 = o2 \<and> n1 = n2"

fun upsert_work_items :: "work_item list \<Rightarrow> work_table \<Rightarrow> work_table" where
  "upsert_work_items [] t = t"
| "upsert_work_items (item # items) t =
     upsert_work_items items (bt_put (wi_key item) (merged_work_item item (bt_get t (wi_key item))) t)"

definition mark_missing_work_items_stale :: "work_source \<Rightarrow> work_item_key list \<Rightarrow> work_table \<Rightarrow> work_table" where
  "mark_missing_work_items_stale source active t =
     map (\<lambda>(k, item). (k,
       if source_matches (wi_source item) source \<and> wi_key item \<notin> set active \<and> wi_status item = Available
       then item\<lparr>wi_status := Stale\<rparr> else item)) t"

text \<open>\<open>get_mut(key)\<close> followed by an assignment to fields.\<close>

definition bt_update :: "'k \<Rightarrow> ('v \<Rightarrow> 'v) \<Rightarrow> ('k, 'v) btree \<Rightarrow> ('k, 'v) btree" where
  "bt_update k f m = map (\<lambda>(k', v). (k', if k' = k then f v else v)) m"

definition dismiss_work_item :: "work_item_key \<Rightarrow> work_table \<Rightarrow> work_table \<times> work_item option" where
  "dismiss_work_item k t =
     (case bt_get t k of None \<Rightarrow> (t, None)
      | Some item \<Rightarrow> (let item' = item\<lparr>wi_status := Dismissed\<rparr> in (bt_update k (\<lambda>_. item') t, Some item')))"

definition mark_work_item_triggered :: "work_item_key \<Rightarrow> string \<Rightarrow> work_table \<Rightarrow> work_table \<times> work_item option" where
  "mark_work_item_triggered k run t =
     (case bt_get t k of None \<Rightarrow> (t, None)
      | Some item \<Rightarrow>
          (let item' = item\<lparr>wi_status := Triggered, wi_triggered_run_id := Some run\<rparr>
           in (bt_update k (\<lambda>_. item') t, Some item')))"

section \<open>Lookups after an operation\<close>

lemma bt_get_update [simp, btree_simps]:
  "bt_get (bt_update k f m) k' = (if k' = k then map_option f (bt_get m k) else bt_get m k')"
  by (induction m) (auto simp: bt_update_def)

lemma bt_wf_update [simp]: "bt_wf (bt_update k f m) \<longleftrightarrow> bt_wf m"
  by (simp add: bt_update_def bt_wf_def comp_def case_prod_beta)

lemma get_stale:
  "bt_get (mark_missing_work_items_stale source active t) k =
     map_option (\<lambda>item. if source_matches (wi_source item) source \<and> wi_key item \<notin> set active \<and>
       wi_status item = Available then item\<lparr>wi_status := Stale\<rparr> else item) (bt_get t k)"
  by (induction t) (auto simp: mark_missing_work_items_stale_def)

lemma get_upsert:
  "bt_get (upsert_work_items items t) k =
     foldl (\<lambda>old item. Some (merged_work_item item old)) (bt_get t k) (filter (\<lambda>item. wi_key item = k) items)"
  by (induction items t rule: upsert_work_items.induct) auto

definition work_ok :: "work_table \<Rightarrow> bool" where
  "work_ok t \<longleftrightarrow> bt_wf t \<and> (\<forall>k item. bt_get t k = Some item \<longrightarrow> wi_key item = k)"

text \<open>A user's decision on an item: what later reports of the source must not undo.\<close>

definition decision :: "work_item option \<Rightarrow> (work_item_status \<times> string option) option" where
  "decision item = (case item of None \<Rightarrow> None
     | Some i \<Rightarrow> if wi_status i \<in> {Dismissed, Triggered} then Some (wi_status i, wi_triggered_run_id i) else None)"

lemma decision_merged:
  "decision old = Some d \<Longrightarrow> decision (Some (merged_work_item item old)) = Some d"
  by (auto simp: decision_def merged_work_item_def split: option.splits if_splits work_item_status.splits)

lemma decision_upsert: "decision (bt_get t k) = Some d \<Longrightarrow> decision (bt_get (upsert_work_items items t) k) = Some d"
proof (induction items t rule: upsert_work_items.induct)
  case (2 item items t)
  then show ?case by (cases "k = wi_key item") (simp_all add: decision_merged)
qed simp

lemma decision_stale: "decision (bt_get (mark_missing_work_items_stale source active t) k) = decision (bt_get t k)"
  by (auto simp: get_stale decision_def split: option.splits)

text \<open>The steps of a source's poll: new reports, and items it no longer reports.\<close>

inductive poll_step :: "work_table \<Rightarrow> work_table \<Rightarrow> bool" where
  upsert_step: "poll_step t (upsert_work_items items t)"
| stale_step: "poll_step t (mark_missing_work_items_stale source active t)"

inductive_simps poll_step_iff: "poll_step t t'"

text \<open>
  Polling a source never undoes the user: whatever sequence of reports and stale marks
  follows, an item that was dismissed or triggered keeps that status and its run.
\<close>

theorem polling_keeps_decisions:
  assumes "poll_step\<^sup>*\<^sup>* t t'" and "decision (bt_get t k) = Some d"
  shows "decision (bt_get t' k) = Some d"
  using assms by (induction rule: rtranclp_induct) (auto simp: poll_step_iff decision_upsert decision_stale)

lemma filter_key_single: "distinct (map f xs) \<Longrightarrow> x \<in> set xs \<Longrightarrow> filter (\<lambda>y. f y = f x) xs = [x]"
proof (induction xs)
  case (Cons a xs)
  have "f a \<notin> f ` set xs" using Cons.prems by simp
  then have "filter (\<lambda>y. f y = f x) xs = []" if "f a = f x"
    using that by (auto simp: filter_empty_conv image_iff)
  with Cons \<open>f a \<notin> f ` set xs\<close> show ?case by (cases "f a = f x") auto
qed simp

text \<open>
  A complete poll of a source, one report per item and then the stale marks for what was
  not reported, leaves exactly this: a reported item is available unless the user decided on it,
  an undecided item of the source that was not reported is stale, and items of other sources are
  untouched.
\<close>

theorem poll_result:
  assumes ok: "work_ok t" and keys: "distinct (map wi_key items)"
    and new: "\<forall>item\<in>set items. wi_status item = Available \<and> source_matches (wi_source item) source"
    and t': "t' = mark_missing_work_items_stale source (map wi_key items) (upsert_work_items items t)"
  shows "(\<forall>item\<in>set items. bt_get t' (wi_key item) = Some (merged_work_item item (bt_get t (wi_key item)))) \<and>
    (\<forall>k. k \<notin> wi_key ` set items \<longrightarrow> bt_get t' k =
       map_option (\<lambda>old. if source_matches (wi_source old) source \<and> wi_status old = Available
         then old\<lparr>wi_status := Stale\<rparr> else old) (bt_get t k))"
proof (intro conjI ballI allI impI)
  fix item assume item: "item \<in> set items"
  have "filter (\<lambda>i. wi_key i = wi_key item) items = [item]"
    using filter_key_single [OF keys item] .
  moreover have "wi_key (merged_work_item item old) = wi_key item" for old
    by (auto simp: merged_work_item_def split: option.splits work_item_status.splits)
  ultimately show "bt_get t' (wi_key item) = Some (merged_work_item item (bt_get t (wi_key item)))"
    using item unfolding t' get_stale get_upsert by auto
next
  fix k assume k: "k \<notin> wi_key ` set items"
  then have "filter (\<lambda>i. wi_key i = k) items = []" by (auto simp: filter_empty_conv)
  then have "bt_get (upsert_work_items items t) k = bt_get t k" by (simp add: get_upsert)
  with k ok show "bt_get t' k = map_option (\<lambda>old. if source_matches (wi_source old) source \<and>
      wi_status old = Available then old\<lparr>wi_status := Stale\<rparr> else old) (bt_get t k)"
    unfolding t' get_stale by (cases "bt_get t k") (auto simp: work_ok_def)
qed

section \<open>Keys and labels\<close>

lemma append_sep_inj: "c \<notin> set a \<Longrightarrow> c \<notin> set b \<Longrightarrow> a @ c # x = b @ c # y \<Longrightarrow> a = b \<and> x = y"
  by (induction a arbitrary: b) (auto simp: Cons_eq_append_conv append_eq_Cons_conv)

text \<open>
  The key of a GitHub item identifies it: for owners without a slash and repository names
  without a hash sign, two items have the same key only if owner, repository and number agree
  up to surrounding white space, and every key so built is a valid one.
\<close>

theorem github_key_exact:
  assumes "work_item_key_github o1 n1 i1 = Ok k" and "work_item_key_github o2 n2 i2 = Ok k"
    and "CHR ''/'' \<notin> set (trim o1)" "CHR ''/'' \<notin> set (trim o2)"
    and "CHR ''#'' \<notin> set (trim n1)" "CHR ''#'' \<notin> set (trim n2)"
  shows "trim o1 = trim o2 \<and> trim n1 = trim n2 \<and> trim i1 = trim i2 \<and> \<not> blank (key_str k)"
proof -
  have k: "k = WorkItemKey (''github:'' @ trim w @ ''/'' @ trim n @ ''#'' @ trim i) \<and> \<not> blank (key_str k)"
    if "work_item_key_github w n i = Ok k" for w n i
    using that by (auto simp: work_item_key_github_def require_key_part_def work_item_key_new_def Let_def
        try_then_Ok_iff split: if_splits)
  from k [OF assms(1)] k [OF assms(2)]
  have "trim o1 @ CHR ''/'' # trim n1 @ CHR ''#'' # trim i1 = trim o2 @ CHR ''/'' # trim n2 @ CHR ''#'' # trim i2"
    by simp
  then have "trim o1 = trim o2 \<and> trim n1 @ CHR ''#'' # trim i1 = trim n2 @ CHR ''#'' # trim i2"
    using assms(3,4) append_sep_inj by metis
  with assms(5,6) k [OF assms(1)] append_sep_inj show ?thesis by metis
qed

section \<open>Witnesses\<close>

definition demo_item :: "string \<Rightarrow> work_item_status \<Rightarrow> work_item" where
  "demo_item k st = \<lparr>wi_key = WorkItemKey k, wi_source = GitHub ''o'' ''n'', wi_external_id = k, wi_title = [],
     wi_body = [], wi_labels = [], wi_url = [], wi_fetched_at_ms = 0, wi_status = st, wi_triggered_run_id = None\<rparr>"

definition demo_table :: work_table where
  "demo_table = [(WorkItemKey ''a'', demo_item ''a'' Available), (WorkItemKey ''b'', demo_item ''b'' Dismissed)]"

theorem polling_keeps_decisions_witness:
  "decision (bt_get (upsert_work_items [demo_item ''b'' Available] demo_table) (WorkItemKey ''b'')) =
     Some (Dismissed, None)"
proof -
  have "poll_step\<^sup>*\<^sup>* demo_table (upsert_work_items [demo_item ''b'' Available] demo_table)"
    by (rule r_into_rtranclp) (rule upsert_step)
  moreover have "decision (bt_get demo_table (WorkItemKey ''b'')) = Some (Dismissed, None)"
    by (simp add: demo_table_def demo_item_def decision_def)
  ultimately show ?thesis by (rule polling_keeps_decisions)
qed

theorem poll_result_witness:
  "bt_get (mark_missing_work_items_stale (GitHub ''o'' ''n'') [WorkItemKey ''b'']
       (upsert_work_items [demo_item ''b'' Available] demo_table)) (WorkItemKey ''a'') = Some (demo_item ''a'' Stale)"
proof -
  have "work_ok demo_table"
    by (auto simp: work_ok_def demo_table_def demo_item_def bt_wf_def less_work_item_key_def split: if_splits)
  moreover have "distinct (map wi_key [demo_item ''b'' Available])" by simp
  moreover have "\<forall>item\<in>set [demo_item ''b'' Available]. wi_status item = Available \<and>
      source_matches (wi_source item) (GitHub ''o'' ''n'')" by (simp add: demo_item_def)
  moreover have "mark_missing_work_items_stale (GitHub ''o'' ''n'') [WorkItemKey ''b'']
       (upsert_work_items [demo_item ''b'' Available] demo_table) =
     mark_missing_work_items_stale (GitHub ''o'' ''n'') (map wi_key [demo_item ''b'' Available])
       (upsert_work_items [demo_item ''b'' Available] demo_table)" by (simp add: demo_item_def)
  ultimately have "\<forall>k. k \<notin> wi_key ` set [demo_item ''b'' Available] \<longrightarrow>
      bt_get (mark_missing_work_items_stale (GitHub ''o'' ''n'') [WorkItemKey ''b'']
        (upsert_work_items [demo_item ''b'' Available] demo_table)) k =
      map_option (\<lambda>old. if source_matches (wi_source old) (GitHub ''o'' ''n'') \<and> wi_status old = Available
        then old\<lparr>wi_status := Stale\<rparr> else old) (bt_get demo_table k)"
    by (rule poll_result [THEN conjunct2])
  note this [rule_format, of "WorkItemKey ''a''"]
  then show ?thesis by (simp add: demo_item_def demo_table_def)
qed

theorem github_key_exact_witness:
  "work_item_key_github '' me '' ''repo'' ''12'' = Ok (WorkItemKey ''github:me/repo#12'') \<and>
   trim '' me '' = trim ''me''"
proof -
  have k: "work_item_key_github '' me '' ''repo'' ''12'' = Ok (WorkItemKey ''github:me/repo#12'')"
    "work_item_key_github ''me'' ''repo'' ''12'' = Ok (WorkItemKey ''github:me/repo#12'')"
    by code_simp+
  have t: "trim '' me '' = ''me''" "trim ''me'' = ''me''" "trim ''repo'' = ''repo''" by code_simp+
  from github_key_exact [OF k] k(1) show ?thesis by (simp add: t)
qed

end
