(* ===== verification/MemoryStore.thy ===== *)
theory MemoryStore
  imports ApprovalLifecycle AgentTurns Projections Receipts WorkItems
begin

text \<open>
  The in-memory store (\<open>crates/ta-store/src/memory/\<close>): the event log, the projections and the
  commits that keep them together. An operation takes the store and returns the store it leaves
  behind together with its \<open>Result\<close>: an error does not undo by itself what was written before
  it, exactly as with \<open>&mut self\<close>. The two tables of in-flight turns and calls are one
  component of type \<open>in_flight\<close>. The test-support parts (seeding, injected failures) are left out.
\<close>

section \<open>State\<close>

record source_cursor =
  so_etag :: "string option"
  so_last_fetched_at_ms :: "nat option"

record memory_store =
  ms_next_commit_id :: nat
  ms_next_event_sequence :: nat
  ms_events :: "(nat, event_record) btree"
  ms_principals :: "(string, principal_projection) btree"
  ms_workspaces :: "(workspace_id, workspace) btree"
  ms_sessions :: "(session_id, session_projection) btree"
  ms_runs :: "(run_id, run_projection) btree"
  ms_checkpoints :: "(run_id, (nat, checkpoint_record) btree) btree"
  ms_artifacts :: "(artifact_id, artifact_record) btree"
  ms_receipts :: receipt_table
  ms_work_items :: work_table
  ms_work_source_cursors :: "(string, source_cursor) btree"
  ms_agent_turn_rows :: "(nat, agent_turn_row) btree"
  ms_in_flight :: in_flight

definition memory_store_new :: memory_store where
  "memory_store_new =
     \<lparr>ms_next_commit_id = 1, ms_next_event_sequence = 1, ms_events = [], ms_principals = [],
      ms_workspaces = [], ms_sessions = [], ms_runs = [], ms_checkpoints = [], ms_artifacts = [],
      ms_receipts = [], ms_work_items = [], ms_work_source_cursors = [], ms_agent_turn_rows = [],
      ms_in_flight = \<lparr>fl_turns = [], fl_calls = []\<rparr>\<rparr>"

type_synonym 'a outcome = "memory_store \<times> ('a, store_error) result"

definition insert_row :: "agent_turn_row option \<Rightarrow> memory_store \<Rightarrow> memory_store" where
  "insert_row row st = (case row of None \<Rightarrow> st
     | Some r \<Rightarrow> st\<lparr>ms_agent_turn_rows := bt_put (row_sequence r) r (ms_agent_turn_rows st)\<rparr>)"

definition append_seed_event :: "event_record \<Rightarrow> memory_store \<Rightarrow> unit outcome" where
  "append_seed_event event st =
     (if bt_contains (ms_events st) (ev_sequence event)
      then (st, Err (DuplicateRecord ''event'' (dec (ev_sequence event))))
      else case apply_agent_stream_event (ms_in_flight st) event of
        Inl e \<Rightarrow> (st, Err e)
      | Inr (fl, row) \<Rightarrow>
          (let st1 = insert_row row (st\<lparr>ms_in_flight := fl\<rparr>)
           in (st1\<lparr>ms_next_event_sequence :=
                   max (ms_next_event_sequence st1) (sat_add (ev_sequence event) 1),
                 ms_events := bt_put (ev_sequence event) event (ms_events st1)\<rparr>, Ok ())))"

definition save_seed_artifact :: "artifact_record \<Rightarrow> memory_store \<Rightarrow> unit outcome" where
  "save_seed_artifact artifact st =
     (if bt_contains (ms_artifacts st) (ac_id artifact)
      then (st, Err (DuplicateRecord ''artifact'' (as_str (ac_id artifact))))
      else (st\<lparr>ms_artifacts := bt_put (ac_id artifact) artifact (ms_artifacts st)\<rparr>, Ok ()))"

text \<open>\<open>let x = self.f()?\<close> on outcomes: an error leaves the store as \<open>f\<close> left it.\<close>

definition outcome_then :: "'a outcome \<Rightarrow> ('a \<Rightarrow> memory_store \<Rightarrow> 'b outcome) \<Rightarrow> 'b outcome" where
  "outcome_then r k = (case r of (st, Inl e) \<Rightarrow> (st, Inl e) | (st, Inr x) \<Rightarrow> k x st)"

text \<open>A check that only reads: \<open>check(..)?\<close>.\<close>

definition check_then :: "('a, store_error) result \<Rightarrow> memory_store \<Rightarrow> ('a \<Rightarrow> 'b outcome) \<Rightarrow> 'b outcome" where
  "check_then r st k = (case r of Inl e \<Rightarrow> (st, Inl e) | Inr x \<Rightarrow> k x)"

lemma check_then_simps [simp]:
  "check_then (Err e) st k = (st, Err e)" "check_then (Ok x) st k = k x"
  by (simp_all add: check_then_def)

lemma outcome_then_simps [simp]:
  "outcome_then (st, Err e) k = (st, Err e)" "outcome_then (st, Ok x) k = k x st"
  by (simp_all add: outcome_then_def)

section \<open>Commits\<close>

record session_open_result =
  oo_commit :: commit_boundary
  oo_session :: session_projection
  oo_event :: event_record

record artifact_publish_result =
  oa_commit :: commit_boundary
  oa_artifact :: artifact_record
  oa_event :: event_record

record receipt_event_result =
  oe_commit :: commit_boundary
  oe_event :: event_record

record checkpoint_persist_result =
  oc_commit :: commit_boundary
  oc_checkpoint :: checkpoint_record

definition next_commit :: "nat \<Rightarrow> nat \<Rightarrow> memory_store \<Rightarrow> memory_store \<times> commit_boundary" where
  "next_commit first_seq last_seq st =
     (st\<lparr>ms_next_commit_id := wrap_add (ms_next_commit_id st) 1\<rparr>,
      \<lparr>cb_id = ms_next_commit_id st, cb_first_sequence = first_seq, cb_last_sequence = last_seq\<rparr>)"

definition commit_session_open :: "session_projection \<Rightarrow> nat \<Rightarrow> memory_store \<Rightarrow> session_open_result outcome" where
  "commit_session_open session occurred_at_ms st =
     (if \<not> bt_contains (ms_workspaces st) (sn_workspace_id session)
      then (st, Err (SessionWorkspaceMissing (as_str (sn_workspace_id session))))
      else
        let st1 = st\<lparr>ms_sessions := bt_put (sn_id session) session (ms_sessions st)\<rparr>;
            event = \<lparr>ev_sequence = ms_next_event_sequence st1, ev_session_id = sn_id session,
              ev_occurred_at_ms = occurred_at_ms,
              ev_payload = EvSession \<lparr>se_session_id = sn_id session, se_status = sn_status session\<rparr>\<rparr>
        in outcome_then (append_seed_event event st1) (\<lambda>_ st2.
          let (st3, commit) = next_commit (ev_sequence event) (ev_sequence event) st2
          in (st3, Ok \<lparr>oo_commit = commit, oo_session = session, oo_event = event\<rparr>)))"

text \<open>The loop of \<open>commit_run_transition\<close>, with the records emitted and persisted so far.\<close>

fun emit_events :: "run_transition \<Rightarrow> daemon_event list \<Rightarrow> event_record list \<Rightarrow> event_record list \<Rightarrow>
    memory_store \<Rightarrow> (event_record list \<times> event_record list) outcome" where
  "emit_events input [] emitted persisted st = (st, Ok (emitted, persisted))"
| "emit_events input (payload # rest) emitted persisted st =
     (let sequence = ms_next_event_sequence st;
          st1 = st\<lparr>ms_next_event_sequence := sat_add sequence 1\<rparr>;
          event = \<lparr>ev_sequence = sequence, ev_session_id = ct_session_id input,
            ev_occurred_at_ms = ct_occurred_at_ms input, ev_payload = payload\<rparr>
      in case apply_agent_stream_event (ms_in_flight st1) event of
        Inl e \<Rightarrow> (st1, Err e)
      | Inr (fl, row) \<Rightarrow>
          let st2 = insert_row row (st1\<lparr>ms_in_flight := fl\<rparr>)
          in if durable payload
             then emit_events input rest (emitted @ [event]) (persisted @ [event])
                    (st2\<lparr>ms_events := bt_put sequence event (ms_events st2)\<rparr>)
             else emit_events input rest (emitted @ [event]) persisted st2)"

text \<open>The records of a session, in the order of their sequence.\<close>

definition session_records :: "session_id \<Rightarrow> memory_store \<Rightarrow> event_record list" where
  "session_records s st = filter (\<lambda>r. ev_session_id r = s) (bt_values (ms_events st))"

definition finish_transition :: "run_transition \<Rightarrow> session_projection \<Rightarrow> run_projection option \<Rightarrow>
    event_record list \<Rightarrow> event_record list \<Rightarrow> memory_store \<Rightarrow> run_transition_result outcome" where
  "finish_transition input existing_session existing_run emitted persisted st =
     (let run = with_commit_metadata (ct_run input) existing_run (ct_occurred_at_ms input)
            (if persisted = [] then None else Some (ev_sequence (last persisted)));
          st1 = st\<lparr>ms_runs := bt_put (rn_id run) run (ms_runs st)\<rparr>;
          session_runs = filter (\<lambda>r. rn_session_id r = ct_session_id input) (bt_values (ms_runs st1));
          session = existing_session\<lparr>sn_status := compute_session_status_from_runs session_runs\<rparr>;
          st2 = st1\<lparr>ms_sessions := bt_put (sn_id session) session (ms_sessions st1)\<rparr>;
          (st3, commit) =
            (if persisted = [] then (st2, \<lparr>cb_id = 0, cb_first_sequence = 0, cb_last_sequence = 0\<rparr>)
             else next_commit (ev_sequence (hd persisted)) (ev_sequence (last persisted)) st2)
      in (st3, Ok \<lparr>cr_commit = commit, cr_session = session, cr_run = run, cr_events = emitted,
            cr_persisted_events = persisted\<rparr>))"

definition commit_run_transition :: "run_transition \<Rightarrow> memory_store \<Rightarrow> run_transition_result outcome" where
  "commit_run_transition input st =
     (if ct_events input = [] then (st, Err EmptyCommitEvents)
      else case bt_get (ms_sessions st) (ct_session_id input) of
        None \<Rightarrow> (st, Err (MissingRecord ''session'' (as_str (ct_session_id input))))
      | Some existing_session \<Rightarrow>
          if rn_session_id (ct_run input) \<noteq> ct_session_id input
          then (st, Err (CommitSessionMismatch ''run'' (as_str (ct_session_id input))
            (as_str (rn_session_id (ct_run input)))))
          else
            let existing_run = bt_get (ms_runs st) (rn_id (ct_run input))
            in check_then (validate_run_execution_context existing_run (ct_run input)) st (\<lambda>_.
               check_then (validate_run_transition_events input) st (\<lambda>_.
               check_then (fold_session_records (session_records (ct_session_id input) st)) st (\<lambda>lifecycle.
               check_then (validate_run_transition lifecycle (rn_id (ct_run input)) (ct_events input)) st (\<lambda>_.
               outcome_then (emit_events input (ct_events input) [] [] st) (\<lambda>(emitted, persisted) st1.
                 finish_transition input existing_session existing_run emitted persisted st1))))))"

fun reconcile_loop :: "run_transition list \<Rightarrow> run_transition_result list \<Rightarrow> memory_store \<Rightarrow>
    run_transition_result list outcome" where
  "reconcile_loop [] results st = (st, Ok results)"
| "reconcile_loop (t # ts) results st =
     outcome_then (commit_run_transition t st) (\<lambda>r st1. reconcile_loop ts (results @ [r]) st1)"

definition commit_startup_reconciliation :: "run_transition list \<Rightarrow> memory_store \<Rightarrow>
    run_transition_result list outcome" where
  "commit_startup_reconciliation transitions st =
     (case reconcile_loop transitions [] st of
        (_, Inl e) \<Rightarrow> (st, Inl e)
      | (st1, Inr results) \<Rightarrow> (st1, Inr results))"

definition commit_artifact_publish :: "artifact_record \<Rightarrow> nat \<Rightarrow> memory_store \<Rightarrow> artifact_publish_result outcome" where
  "commit_artifact_publish artifact occurred_at_ms st =
     (if \<not> bt_contains (ms_sessions st) (ac_session_id artifact)
      then (st, Err (MissingRecord ''session'' (as_str (ac_session_id artifact))))
      else case bt_get (ms_runs st) (ac_run_id artifact) of
        None \<Rightarrow> (st, Err (MissingRecord ''run'' (as_str (ac_run_id artifact))))
      | Some artifact_run \<Rightarrow>
          if rn_session_id artifact_run \<noteq> ac_session_id artifact
          then (st, Err (CommitSessionMismatch ''artifact'' (as_str (rn_session_id artifact_run))
            (as_str (ac_session_id artifact))))
          else if rn_status artifact_run \<noteq> Running
          then (st, Err (CommitRunStatusMismatch ''artifact'' Running (rn_status artifact_run)))
          else outcome_then (save_seed_artifact artifact st) (\<lambda>_ st1.
            let event = \<lparr>ev_sequence = ms_next_event_sequence st1, ev_session_id = ac_session_id artifact,
                  ev_occurred_at_ms = occurred_at_ms,
                  ev_payload = EvArtifact \<lparr>af_id = ac_id artifact, af_run_id = ac_run_id artifact,
                    af_kind = ac_kind artifact, af_storage_path = ac_storage_path artifact\<rparr>\<rparr>
            in outcome_then (append_seed_event event st1) (\<lambda>_ st2.
              let (st3, commit) = next_commit (ev_sequence event) (ev_sequence event) st2
              in (st3, Ok \<lparr>oa_commit = commit, oa_artifact = artifact, oa_event = event\<rparr>))))"

definition commit_receipt_event :: "session_id \<Rightarrow> daemon_event \<Rightarrow> nat \<Rightarrow> memory_store \<Rightarrow> receipt_event_result outcome" where
  "commit_receipt_event s payload occurred_at_ms st =
     (if \<not> bt_contains (ms_sessions st) s
      then (st, Err (MissingRecord ''session'' (as_str s)))
      else
        let event = \<lparr>ev_sequence = ms_next_event_sequence st, ev_session_id = s,
              ev_occurred_at_ms = occurred_at_ms, ev_payload = payload\<rparr>
        in outcome_then (append_seed_event event st) (\<lambda>_ st1.
          let (st2, commit) = next_commit (ev_sequence event) (ev_sequence event) st1
          in (st2, Ok \<lparr>oe_commit = commit, oe_event = event\<rparr>)))"

text \<open>\<open>entry(run).or_default()\<close> inserts an empty table before the duplicate check can fail.\<close>

definition commit_checkpoint_persist :: "checkpoint_record \<Rightarrow> memory_store \<Rightarrow> checkpoint_persist_result outcome" where
  "commit_checkpoint_persist c st =
     (if \<not> bt_contains (ms_runs st) (cp_run_id c)
      then (st, Err (MissingRecord ''run'' (as_str (cp_run_id c))))
      else
        let revisions = (case bt_get (ms_checkpoints st) (cp_run_id c) of None \<Rightarrow> [] | Some m \<Rightarrow> m);
            st1 = st\<lparr>ms_checkpoints := bt_put (cp_run_id c) revisions (ms_checkpoints st)\<rparr>
        in if bt_contains revisions (cp_revision c)
           then (st1, Err (DuplicateRecord ''checkpoint'' (as_str (cp_run_id c) @ '':'' @ dec (cp_revision c))))
           else
             let st2 = st1\<lparr>ms_checkpoints :=
                   bt_put (cp_run_id c) (bt_put (cp_revision c) c revisions) (ms_checkpoints st1)\<rparr>;
                 (st3, commit) = next_commit 0 0 st2
             in (st3, Ok \<lparr>oc_commit = commit, oc_checkpoint = c\<rparr>))"

section \<open>The other repositories\<close>

definition rotate_session_authority :: "session_id \<Rightarrow> string \<Rightarrow> string \<Rightarrow> string \<Rightarrow> memory_store \<Rightarrow>
    session_projection option outcome" where
  "rotate_session_authority s owner presented next_hash st =
     (case bt_get (ms_sessions st) s of
        None \<Rightarrow> (st, Ok None)
      | Some existing \<Rightarrow>
          if sn_owner_principal_id existing \<noteq> owner then (st, Ok None)
          else
            let matches_current = sn_current_hash existing = presented;
                matches_recovery = some_and (\<lambda>h. h = presented) (sn_recovery_hash existing)
            in if \<not> matches_current \<and> \<not> matches_recovery then (st, Ok None)
               else
                 let updated = existing\<lparr>
                       sn_current_hash := next_hash,
                       sn_current_generation := sat_add (sn_current_generation existing) 1,
                       sn_recovery_hash :=
                         (if matches_current then Some (sn_current_hash existing) else None),
                       sn_recovery_generation :=
                         (if matches_current then Some (sn_current_generation existing) else None)\<rparr>
                 in (st\<lparr>ms_sessions := bt_put s updated (ms_sessions st)\<rparr>, Ok (Some updated)))"

definition upsert_workspace :: "workspace \<Rightarrow> memory_store \<Rightarrow> workspace outcome" where
  "upsert_workspace w st =
     (case List.find (\<lambda>c. path_str (ws_root_realpath c) = path_str (ws_root_realpath w) \<and> ws_id c \<noteq> ws_id w)
             (bt_values (ms_workspaces st)) of
        Some existing \<Rightarrow> (st, Err (DuplicateRecord ''workspace_root_realpath'' (as_str (ws_id existing))))
      | None \<Rightarrow> (st\<lparr>ms_workspaces := bt_put (ws_id w) w (ms_workspaces st)\<rparr>, Ok w))"

definition workspace_by_root_realpath :: "string \<Rightarrow> memory_store \<Rightarrow> workspace option" where
  "workspace_by_root_realpath path st =
     List.find (\<lambda>c. path_str (ws_root_realpath c) = path) (bt_values (ms_workspaces st))"

definition principal_by_credential_hash :: "string \<Rightarrow> memory_store \<Rightarrow> principal_projection option" where
  "principal_by_credential_hash h st =
     List.find (\<lambda>p. pp_credential_hash p = h) (bt_values (ms_principals st))"

definition save_principal :: "principal_projection \<Rightarrow> memory_store \<Rightarrow> memory_store" where
  "save_principal p st = st\<lparr>ms_principals := bt_put (pp_id p) p (ms_principals st)\<rparr>"

definition checkpoints_for_run :: "run_id \<Rightarrow> memory_store \<Rightarrow> checkpoint_record list" where
  "checkpoints_for_run i st = (case bt_get (ms_checkpoints st) i of None \<Rightarrow> [] | Some m \<Rightarrow> bt_values m)"

definition artifacts_for_run :: "run_id \<Rightarrow> memory_store \<Rightarrow> artifact_record list" where
  "artifacts_for_run i st = filter (\<lambda>a. ac_run_id a = i) (bt_values (ms_artifacts st))"

record session_artifact_query =
  saq_session_id :: session_id
  saq_run_id :: "run_id option"
  saq_artifact_id :: "artifact_id option"

definition artifacts_for_session :: "session_artifact_query \<Rightarrow> memory_store \<Rightarrow> artifact_record list" where
  "artifacts_for_session q st =
     sort_key (\<lambda>a. as_str (ac_id a))
       (filter (\<lambda>a. none_or (\<lambda>i. ac_id a = i) (saq_artifact_id q))
         (filter (\<lambda>a. none_or (\<lambda>r. ac_run_id a = r) (saq_run_id q))
           (filter (\<lambda>a. ac_session_id a = saq_session_id q) (bt_values (ms_artifacts st)))))"

definition list_native_runs :: "run_list_query \<Rightarrow> memory_store \<Rightarrow> run_list_page" where
  "list_native_runs q st = list_native_runs_from_projections (bt_values (ms_runs st)) q"

section \<open>Queries on the log\<close>

definition events_tail_desc :: "nat \<Rightarrow> memory_store \<Rightarrow> event_record list" where
  "events_tail_desc limit st =
     (if limit = 0 then [] else take limit (rev (sort_key ev_sequence (bt_values (ms_events st)))))"

definition approvals_for_session :: "session_approval_query \<Rightarrow> memory_store \<Rightarrow> (approval_request list, store_error) result" where
  "approvals_for_session q st =
     try_then (fold_session_records (session_records (aq_session_id q) st))
       (\<lambda>lifecycle. Ok (approvals_for_query lifecycle q))"

definition approval_lookup :: "session_id \<Rightarrow> approval_id \<Rightarrow> memory_store \<Rightarrow> (session_approval_lookup, store_error) result" where
  "approval_lookup s a st =
     try_then (fold_session_records (session_records s st)) (\<lambda>lifecycle. Ok (lifecycle_lookup lifecycle a))"

definition store_event_page :: "session_event_page_query \<Rightarrow> memory_store \<Rightarrow> session_event_page" where
  "store_event_page q st = session_event_page_of (bt_values (ms_events st)) q"

definition store_event_range :: "session_event_range_query \<Rightarrow> memory_store \<Rightarrow> session_event_range" where
  "store_event_range q st = session_event_range_of (bt_values (ms_events st)) q"

definition read_run_events :: "run_event_range_query \<Rightarrow> memory_store \<Rightarrow> run_event_range" where
  "read_run_events q st = run_event_range_from_records (bt_values (ms_events st)) q"

fun turn_page_loop :: "session_agent_turns_page_query \<Rightarrow> agent_turn_row list \<Rightarrow> agent_turn_row list \<Rightarrow>
    agent_turn_row list \<times> bool" where
  "turn_page_loop q [] rows = (rows, False)"
| "turn_page_loop q (row # rest) rows =
     (if row_session_id row \<noteq> tq_session_id q then turn_page_loop q rest rows
      else if some_and (\<lambda>b. row_sequence row \<ge> b) (tq_before_sequence q) then turn_page_loop q rest rows
      else if length rows = tq_limit q then (rows, True)
      else turn_page_loop q rest (rows @ [row]))"

definition session_agent_turns_page_of :: "session_agent_turns_page_query \<Rightarrow> memory_store \<Rightarrow> session_agent_turns_page" where
  "session_agent_turns_page_of q st =
     (case turn_page_loop q (rev (bt_values (ms_agent_turn_rows st))) [] of (rows, has_more) \<Rightarrow>
        \<lparr>tp_rows = rows,
         tp_next_before_sequence =
           (if has_more then (if rows = [] then None else Some (row_sequence (last rows))) else None),
         tp_latest_activity_sequence =
           map_option ev_sequence
             (List.find (\<lambda>r. ev_session_id r = tq_session_id q) (rev (bt_values (ms_events st))))\<rparr>)"

end
