(* ===== verification/StoreLog.thy ===== *)
theory StoreLog
  imports MemoryStore
begin

text \<open>
  The event log of the in-memory store: what a commit appends to it and what it leaves alone.
  The locale \<open>event_log\<close> is the interface that readers rely on (a log sorted by sequence, below
  the next sequence); the paging and catch-up lemmas are proved in it and interpreted on the
  store.
\<close>

section \<open>What readers rely on\<close>

lemma sorted_wrt_last: "sorted_wrt R xs \<Longrightarrow> x \<in> set xs \<Longrightarrow> x = last xs \<or> R x (last xs)"
  by (induction xs) auto

locale event_log =
  fixes log_of :: "'s \<Rightarrow> event_record list"
    and next_of :: "'s \<Rightarrow> nat"
    and log_inv :: "'s \<Rightarrow> bool"
  assumes log_sorted: "log_inv s \<Longrightarrow> by_sequence (log_of s)"
    and log_below: "log_inv s \<Longrightarrow> r \<in> set (log_of s) \<Longrightarrow> ev_sequence r < next_of s"
begin

text \<open>What was appended since \<open>s\<close> is what lies at or behind the next sequence of \<open>s\<close>.\<close>

lemma catch_up:
  assumes "log_inv s" and "log_of s' = log_of s @ new" and "\<forall>r\<in>set new. next_of s \<le> ev_sequence r"
  shows "filter (\<lambda>r. next_of s \<le> ev_sequence r) (log_of s') = new"
proof -
  have "filter (\<lambda>r. next_of s \<le> ev_sequence r) (log_of s) = []"
    using log_below [OF assms(1)] by (fastforce simp: filter_empty_conv)
  with assms(2,3) show ?thesis by (simp add: filter_id_conv)
qed

lemma log_distinct: "log_inv s \<Longrightarrow> distinct (map ev_sequence (log_of s))"
  using log_sorted [of s] strict_sorted_iff [of "map ev_sequence (log_of s)"] by (simp add: sorted_wrt_map)

lemma session_log_sorted: "log_inv s \<Longrightarrow> by_sequence (filter p (log_of s))"
  using log_sorted by (simp add: sorted_wrt_filter)

text \<open>A reader that keeps the sequence of the last record it saw misses nothing when it resumes.\<close>

lemma resume_run:
  assumes "log_inv s" and "log_inv s'" and "log_of s' = log_of s @ new"
    and q: "rq'_after_sequence q = last_sequence (filter (of_run q) (log_of s))"
    and new: "\<forall>r\<in>set new. next_of s \<le> ev_sequence r"
  shows "filter (after_run_cursor q) (log_of s') = filter (of_run q) new"
proof -
  let ?old = "filter (of_run q) (log_of s)"
  have below: "ev_sequence r < next_of s" if "r \<in> set (log_of s)" for r
    using that log_below [OF assms(1)] by blast
  have "\<not> after_run_cursor q r" if r: "r \<in> set (log_of s)" for r
  proof
    assume a: "after_run_cursor q r"
    then have "r \<in> set ?old" using r by (simp add: after_run_cursor_def)
    then have ne: "?old \<noteq> []" by (metis empty_iff empty_set)
    with q a have "ev_sequence (last ?old) < ev_sequence r"
      by (auto simp: after_run_cursor_def last_sequence_def)
    moreover have "by_sequence ?old" using session_log_sorted [OF assms(1)] .
    from sorted_wrt_last [OF this \<open>r \<in> set ?old\<close>]
    have "r = last ?old \<or> ev_sequence r < ev_sequence (last ?old)" .
    ultimately show False by auto
  qed
  then have "filter (after_run_cursor q) (log_of s) = []" by (simp add: filter_empty_conv)
  moreover have "after_run_cursor q r \<longleftrightarrow> of_run q r" if "r \<in> set new" for r
  proof -
    have "a < ev_sequence r" if "rq'_after_sequence q = Some a" for a
      using that q new \<open>r \<in> set new\<close> below last_in_set [of ?old]
      by (fastforce simp: last_sequence_def split: if_splits)
    then show ?thesis by (cases "rq'_after_sequence q") (auto simp: after_run_cursor_def)
  qed
  ultimately show ?thesis using assms(3) by (simp cong: filter_cong)
qed

end

section \<open>The invariant of the log\<close>

definition store_log :: "memory_store \<Rightarrow> event_record list" where
  "store_log st = bt_values (ms_events st)"

definition log_ok :: "memory_store \<Rightarrow> bool" where
  "log_ok st \<longleftrightarrow> bt_wf (ms_events st) \<and>
     (\<forall>e\<in>set (ms_events st). fst e = ev_sequence (snd e) \<and> fst e < ms_next_event_sequence st)"

text \<open>The store can take \<open>n\<close> more events before the sequence counter saturates.\<close>

definition room :: "nat \<Rightarrow> memory_store \<Rightarrow> bool" where
  "room n st \<longleftrightarrow> ms_next_event_sequence st + n \<le> u64_max"

definition entries :: "event_record list \<Rightarrow> (nat \<times> event_record) list" where
  "entries rs = map (\<lambda>r. (ev_sequence r, r)) rs"

lemma entries_simps [simp]:
  "entries [] = []" "entries (r # rs) = (ev_sequence r, r) # entries rs"
  "entries (rs @ rs') = entries rs @ entries rs'" "map snd (entries rs) = rs"
  by (simp_all add: entries_def comp_def)

lemma log_ok_sorted: "log_ok st \<Longrightarrow> by_sequence (store_log st)"
proof -
  assume ok: "log_ok st"
  then have "map fst (ms_events st) = map ev_sequence (store_log st)"
    by (auto simp: log_ok_def store_log_def)
  with ok show ?thesis by (simp add: log_ok_def bt_wf_def sorted_wrt_map)
qed

interpretation mem: event_log store_log ms_next_event_sequence log_ok
proof unfold_locales
  fix s r
  show "log_ok s \<Longrightarrow> by_sequence (store_log s)" by (rule log_ok_sorted)
  assume "log_ok s" and "r \<in> set (store_log s)"
  then obtain e where "e \<in> set (ms_events s)" "r = snd e" by (auto simp: store_log_def)
  with \<open>log_ok s\<close> show "ev_sequence r < ms_next_event_sequence s" unfolding log_ok_def by metis
qed

lemma log_ok_new [simp]: "log_ok memory_store_new"
  by (simp add: log_ok_def memory_store_new_def)

lemma log_fresh: "log_ok st \<Longrightarrow> \<not> bt_contains (ms_events st) (ms_next_event_sequence st)"
  by (fastforce simp: log_ok_def bt_contains_keys)

lemma log_put:
  assumes ok: "log_ok st" and seq: "ms_next_event_sequence st \<le> n"
  shows "bt_put n r (ms_events st) = ms_events st @ [(n, r)]"
proof (rule bt_put_last)
  fix k assume "k \<in> set (bt_keys (ms_events st))"
  with ok seq show "k < n" unfolding log_ok_def by fastforce
qed

text \<open>The store without its log: what appending an event must not touch.\<close>

definition unlogged :: "memory_store \<Rightarrow> memory_store" where
  "unlogged st = st\<lparr>ms_events := [], ms_next_event_sequence := 0, ms_agent_turn_rows := [],
     ms_in_flight := \<lparr>fl_turns = [], fl_calls = []\<rparr>\<rparr>"

lemma unlogged_fields:
  assumes "unlogged st' = unlogged st"
  shows "ms_sessions st' = ms_sessions st" "ms_runs st' = ms_runs st" "ms_workspaces st' = ms_workspaces st"
    "ms_artifacts st' = ms_artifacts st" "ms_receipts st' = ms_receipts st"
    "ms_work_items st' = ms_work_items st" "ms_checkpoints st' = ms_checkpoints st"
    "ms_principals st' = ms_principals st" "ms_next_commit_id st' = ms_next_commit_id st"
  using assms by (cases st; cases st'; simp add: unlogged_def)+

lemma insert_row_fields [simp]:
  "ms_events (insert_row row st) = ms_events st"
  "ms_next_event_sequence (insert_row row st) = ms_next_event_sequence st"
  "ms_in_flight (insert_row row st) = ms_in_flight st"
  "unlogged (insert_row row st) = unlogged st"
  by (auto simp: insert_row_def unlogged_def split: option.splits)

lemma unlogged_updates [simp]:
  "unlogged (st\<lparr>ms_events := e\<rparr>) = unlogged st"
  "unlogged (st\<lparr>ms_next_event_sequence := n\<rparr>) = unlogged st"
  "unlogged (st\<lparr>ms_in_flight := fl\<rparr>) = unlogged st"
  by (simp_all add: unlogged_def)

section \<open>Appending\<close>

text \<open>Rows are filed under their sequence and belong to records below the next sequence.\<close>

definition rows_ok :: "memory_store \<Rightarrow> bool" where
  "rows_ok st \<longleftrightarrow> in_flight_ok (ms_in_flight st) \<and> bt_wf (ms_agent_turn_rows st) \<and>
     (\<forall>n row. bt_get (ms_agent_turn_rows st) n = Some row \<longrightarrow>
        row_sequence row = n \<and> n < ms_next_event_sequence st)"

lemma rows_ok_insert:
  assumes "rows_ok st" and "apply_agent_stream_event (ms_in_flight st) r = Ok (fl, row)"
    and "ms_next_event_sequence st \<le> ev_sequence r" and "ev_sequence r < n"
  shows "rows_ok (insert_row row (st\<lparr>ms_in_flight := fl\<rparr>)\<lparr>ms_next_event_sequence := n, ms_events := e\<rparr>)"
  using assms in_flight_ok_step [of "ms_in_flight st" r fl row]
  by (cases row) (fastforce simp: rows_ok_def insert_row_def)+

lemma append_ok:
  assumes ok: "log_ok st" "rows_ok st" and room: "room 1 st" and seq: "ev_sequence r = ms_next_event_sequence st"
    and app: "append_seed_event r st = (st', res)"
  shows "log_ok st' \<and> rows_ok st' \<and> unlogged st' = unlogged st \<and>
    (case res of
       Inl _ \<Rightarrow> st' = st
     | Inr _ \<Rightarrow> store_log st' = store_log st @ [r] \<and> ms_next_event_sequence st' = ms_next_event_sequence st + 1)"
proof (cases "apply_agent_stream_event (ms_in_flight st) r")
  case (Inl e)
  with app ok log_fresh [OF ok(1)] seq show ?thesis by (auto simp: append_seed_event_def)
next
  case (Inr p)
  then obtain fl row where p: "apply_agent_stream_event (ms_in_flight st) r = Ok (fl, row)" by (cases p) simp
  have sat: "sat_add (ms_next_event_sequence st) (Suc 0) = ms_next_event_sequence st + 1"
    using room by (simp add: room_def sat_add_exact)
  have put: "bt_put (ev_sequence r) r (ms_events st) = ms_events st @ [(ev_sequence r, r)]"
    using log_put [OF ok(1)] seq by simp
  have st': "st' = insert_row row (st\<lparr>ms_in_flight := fl\<rparr>)\<lparr>ms_next_event_sequence := ms_next_event_sequence st + 1,
      ms_events := ms_events st @ [(ev_sequence r, r)]\<rparr>" and res: "res = Ok ()"
    using app log_fresh [OF ok(1)] seq put by (simp_all add: append_seed_event_def p sat Let_def max_def)
  have "bt_wf (ms_events st @ [(ev_sequence r, r)])"
    using ok(1) put bt_wf_put [of "ms_events st"] unfolding log_ok_def by metis
  then have "log_ok st'" using ok(1) seq unfolding st' log_ok_def by auto
  moreover have "rows_ok st'" unfolding st' using seq by (intro rows_ok_insert [OF ok(2) p]) simp_all
  ultimately show ?thesis using res by (simp add: st' store_log_def)
qed

text \<open>The records the loop of a transition makes of its events.\<close>

fun stamped :: "run_transition \<Rightarrow> nat \<Rightarrow> daemon_event list \<Rightarrow> event_record list" where
  "stamped input n [] = []"
| "stamped input n (p # ps) =
     \<lparr>ev_sequence = n, ev_session_id = ct_session_id input, ev_occurred_at_ms = ct_occurred_at_ms input,
      ev_payload = p\<rparr> # stamped input (n + 1) ps"

lemma stamped_facts:
  "map ev_payload (stamped input n ps) = ps"
  "map ev_sequence (stamped input n ps) = [n..<n + length ps]"
  "\<forall>r\<in>set (stamped input n ps). ev_session_id r = ct_session_id input"
  by (induction ps arbitrary: n) (simp_all add: upt_rec)

abbreviation persisted_of :: "event_record list \<Rightarrow> event_record list" where
  "persisted_of rs \<equiv> filter (\<lambda>r. durable (ev_payload r)) rs"

text \<open>The store after one round of the loop.\<close>

definition emit_one :: "event_record \<Rightarrow> in_flight \<Rightarrow> agent_turn_row option \<Rightarrow> memory_store \<Rightarrow> memory_store" where
  "emit_one e fl row st =
     (let st2 = insert_row row (st\<lparr>ms_next_event_sequence := ms_next_event_sequence st + 1, ms_in_flight := fl\<rparr>)
      in if durable (ev_payload e) then st2\<lparr>ms_events := ms_events st @ [(ev_sequence e, e)]\<rparr> else st2)"

lemma emit_one_facts:
  assumes ok: "log_ok st" "rows_ok st" and a: "apply_agent_stream_event (ms_in_flight st) e = Ok (fl, row)"
    and seq: "ev_sequence e = ms_next_event_sequence st"
  shows "log_ok (emit_one e fl row st)" "rows_ok (emit_one e fl row st)"
    "unlogged (emit_one e fl row st) = unlogged st"
    "store_log (emit_one e fl row st) = store_log st @ (if durable (ev_payload e) then [e] else [])"
    "ms_next_event_sequence (emit_one e fl row st) = ms_next_event_sequence st + 1"
    "ms_in_flight (emit_one e fl row st) = fl"
proof -
  have "bt_wf (bt_put (ev_sequence e) e (ms_events st))" using ok(1) by (simp add: log_ok_def)
  then have "bt_wf (ms_events st @ [(ev_sequence e, e)])"
    by (simp only: log_put [OF ok(1)] seq order_refl)
  then show "log_ok (emit_one e fl row st)" using ok(1) seq by (auto simp: log_ok_def emit_one_def Let_def)
  let ?n = "ms_next_event_sequence st + 1"
  have "insert_row row (st\<lparr>ms_next_event_sequence := ?n, ms_in_flight := fl\<rparr>) =
      insert_row row (st\<lparr>ms_in_flight := fl\<rparr>)\<lparr>ms_next_event_sequence := ?n, ms_events := ms_events st\<rparr>"
    by (cases row) (simp_all add: insert_row_def)
  moreover have "rows_ok (insert_row row (st\<lparr>ms_in_flight := fl\<rparr>)\<lparr>ms_next_event_sequence := ?n, ms_events := ms_events st\<rparr>)"
    using seq by (intro rows_ok_insert [OF ok(2) a]) simp_all
  ultimately have "rows_ok (insert_row row (st\<lparr>ms_next_event_sequence := ?n, ms_in_flight := fl\<rparr>))" by simp
  then show "rows_ok (emit_one e fl row st)" by (simp add: rows_ok_def emit_one_def Let_def)
qed (simp_all add: emit_one_def Let_def store_log_def)

lemma emit_events_Cons:
  assumes "log_ok st" and "room (Suc k) st"
    and e: "e = \<lparr>ev_sequence = ms_next_event_sequence st, ev_session_id = ct_session_id input,
      ev_occurred_at_ms = ct_occurred_at_ms input, ev_payload = p\<rparr>"
  shows "emit_events input (p # ps) em pe st =
    (case apply_agent_stream_event (ms_in_flight st) e of
       Inl err \<Rightarrow> (st\<lparr>ms_next_event_sequence := ms_next_event_sequence st + 1\<rparr>, Err err)
     | Inr (fl, row) \<Rightarrow> emit_events input ps (em @ [e]) (if durable p then pe @ [e] else pe) (emit_one e fl row st))"
proof -
  have "sat_add (ms_next_event_sequence st) 1 = ms_next_event_sequence st + 1"
    using assms(2) by (simp add: room_def sat_add_exact)
  then show ?thesis
    using log_put [OF assms(1) order_refl, of e]
    by (auto simp: e emit_one_def Let_def split: sum.splits)
qed

text \<open>
  The loop cannot run past the largest sequence unnoticed: if the counter does not stand at it
  afterwards, there was room for what was numbered.
\<close>

lemma emit_events_next:
  assumes "emit_events input ps em pe st = (st', res)" and "ms_next_event_sequence st' < u64_max"
  shows "ms_next_event_sequence st + (if ps = [] then 0 else 1) \<le> ms_next_event_sequence st'"
    and "is_ok res \<Longrightarrow> ms_next_event_sequence st' = ms_next_event_sequence st + length ps"
proof -
  have "ms_next_event_sequence st + (if ps = [] then 0 else 1) \<le> ms_next_event_sequence st' \<and>
    (is_ok res \<longrightarrow> ms_next_event_sequence st' = ms_next_event_sequence st + length ps)"
    using assms
  proof (induction ps arbitrary: em pe st)
    case (Cons p ps)
    define n where n: "n = sat_add (ms_next_event_sequence st) 1"
    have exact: "n < u64_max \<Longrightarrow> n = ms_next_event_sequence st + 1" by (auto simp: n sat_add_def min_def split: if_splits)
    let ?e = "\<lparr>ev_sequence = ms_next_event_sequence st, ev_session_id = ct_session_id input,
      ev_occurred_at_ms = ct_occurred_at_ms input, ev_payload = p\<rparr>"
    show ?case
    proof (cases "apply_agent_stream_event (ms_in_flight st) ?e")
      case (Inl err)
      with Cons.prems n have "ms_next_event_sequence st' = n" "res = Err err" by (auto simp: Let_def)
      with exact Cons.prems(2) show ?thesis by (simp add: is_ok_def)
    next
      case (Inr q)
      then obtain fl row where a: "apply_agent_stream_event (ms_in_flight st) ?e = Ok (fl, row)" by (cases q) simp
      obtain em2 pe2 st2 where step: "emit_events input ps em2 pe2 st2 = (st', res)"
        and st2: "ms_next_event_sequence st2 = n"
        using Cons.prems(1) a n by (cases "durable p") (force simp: Let_def)+
      from Cons.IH [OF step Cons.prems(2)] st2 exact Cons.prems(2) show ?thesis
        by (cases "ps = []") auto
    qed
  qed (auto simp: is_ok_def)
  then show "ms_next_event_sequence st + (if ps = [] then 0 else 1) \<le> ms_next_event_sequence st'"
    and "is_ok res \<Longrightarrow> ms_next_event_sequence st' = ms_next_event_sequence st + length ps" by blast+
qed

text \<open>
  The loop on success: it numbers the events on, appends the durable ones to the log, feeds all
  of them to the in-flight tables, and touches nothing else.
\<close>

lemma emit_events_ok:
  assumes "emit_events input ps em pe st = (st', Ok (em', pe'))"
    and "log_ok st" and "rows_ok st" and "room (length ps) st"
  shows "em' = em @ stamped input (ms_next_event_sequence st) ps \<and>
    pe' = pe @ persisted_of (stamped input (ms_next_event_sequence st) ps) \<and>
    store_log st' = store_log st @ persisted_of (stamped input (ms_next_event_sequence st) ps) \<and>
    ms_next_event_sequence st' = ms_next_event_sequence st + length ps \<and>
    (\<exists>rows. stream_rows (ms_in_flight st) (stamped input (ms_next_event_sequence st) ps) = Ok (ms_in_flight st', rows)) \<and>
    unlogged st' = unlogged st \<and> log_ok st' \<and> rows_ok st'"
  using assms
proof (induction ps arbitrary: em pe st)
  case (Cons p ps)
  define e where e: "e = \<lparr>ev_sequence = ms_next_event_sequence st, ev_session_id = ct_session_id input,
      ev_occurred_at_ms = ct_occurred_at_ms input, ev_payload = p\<rparr>"
  have room: "room (Suc (length ps)) st" using Cons.prems(4) by simp
  from Cons.prems(1) obtain fl row where a: "apply_agent_stream_event (ms_in_flight st) e = Ok (fl, row)"
    and step: "emit_events input ps (em @ [e]) (if durable p then pe @ [e] else pe) (emit_one e fl row st) = (st', Ok (em', pe'))"
    unfolding emit_events_Cons [OF Cons.prems(2) room e] by (auto split: sum.splits)
  have p: "ev_payload e = p" "ev_sequence e = ms_next_event_sequence st" by (simp_all add: e)
  note one = emit_one_facts [OF Cons.prems(2,3) a p(2)]
  have "room (length ps) (emit_one e fl row st)" using room by (simp add: room_def one)
  from Cons.IH [OF step one(1,2) this] a show ?case
    by (auto simp: one p e [symmetric])
qed simp

text \<open>
  The loop on an error: a durable prefix of the events is in the log all the same, and nothing
  but the log, the rows and the in-flight tables was touched.
\<close>

lemma emit_events_err:
  assumes "emit_events input ps em pe st = (st', Err err)"
    and "log_ok st" and "rows_ok st" and "room (length ps) st \<or> ms_next_event_sequence st' < u64_max"
  shows "unlogged st' = unlogged st \<and> log_ok st' \<and> rows_ok st' \<and>
    (\<exists>k<length ps. store_log st' = store_log st @ persisted_of (stamped input (ms_next_event_sequence st) (take k ps)) \<and>
      ms_next_event_sequence st' = ms_next_event_sequence st + k + 1 \<and>
      apply_agent_stream_event (ms_in_flight st') \<lparr>ev_sequence = ms_next_event_sequence st + k,
        ev_session_id = ct_session_id input, ev_occurred_at_ms = ct_occurred_at_ms input, ev_payload = ps ! k\<rparr> = Err err)"
  using assms
proof (induction ps arbitrary: em pe st)
  case (Cons p ps)
  define e where e: "e = \<lparr>ev_sequence = ms_next_event_sequence st, ev_session_id = ct_session_id input,
      ev_occurred_at_ms = ct_occurred_at_ms input, ev_payload = p\<rparr>"
  have room: "room (Suc 0) st"
    using Cons.prems(4) emit_events_next(1) [OF Cons.prems(1)] by (auto simp: room_def)
  note unfold = emit_events_Cons [OF Cons.prems(2) room e]
  show ?case
  proof (cases "apply_agent_stream_event (ms_in_flight st) e")
    case (Inl err')
    with Cons.prems(1) have st': "st' = st\<lparr>ms_next_event_sequence := ms_next_event_sequence st + 1\<rparr>" "err' = err"
      unfolding unfold by simp_all
    have "log_ok st'" and "rows_ok st'"
      using Cons.prems(2,3) by (auto simp: st' log_ok_def rows_ok_def less_SucI)
    then show ?thesis using Inl by (auto simp: st' e store_log_def intro!: exI [of _ 0])
  next
    case (Inr q)
    then obtain fl row where a: "apply_agent_stream_event (ms_in_flight st) e = Ok (fl, row)" by (cases q) simp
    with Cons.prems(1) have step: "emit_events input ps (em @ [e]) (if durable p then pe @ [e] else pe)
        (emit_one e fl row st) = (st', Err err)"
      unfolding unfold by simp
    have p: "ev_payload e = p" "ev_sequence e = ms_next_event_sequence st" by (simp_all add: e)
    note one = emit_one_facts [OF Cons.prems(2,3) a p(2)]
    have "room (length ps) (emit_one e fl row st) \<or> ms_next_event_sequence st' < u64_max"
      using Cons.prems(4) by (auto simp: room_def one)
    from Cons.IH [OF step one(1,2) this] obtain k where
      "unlogged st' = unlogged st" "log_ok st'" "rows_ok st'" "k < length ps"
      "store_log st' = (store_log st @ (if durable p then [e] else [])) @
        persisted_of (stamped input (ms_next_event_sequence st + 1) (take k ps))"
      "ms_next_event_sequence st' = ms_next_event_sequence st + 1 + k + 1"
      "apply_agent_stream_event (ms_in_flight st') \<lparr>ev_sequence = ms_next_event_sequence st + 1 + k,
        ev_session_id = ct_session_id input, ev_occurred_at_ms = ct_occurred_at_ms input, ev_payload = ps ! k\<rparr> = Err err"
      by (auto simp: one p)
    then show ?thesis by (auto simp: e intro!: exI [of _ "Suc k"])
  qed
qed simp

end
