(* ===== verification/StoreInvariants.thy ===== *)
theory StoreInvariants
  imports StoreLog
begin

text \<open>
  The invariants of the in-memory store over everything its operations can do: a step relation
  with one rule per mutating operation (errors included), the invariant every step preserves,
  and what never changes once it is written.
\<close>

section \<open>A run transition, case by case\<close>

lemma check_then_eq:
  "check_then r st k = out \<longleftrightarrow> (\<exists>e. r = Err e \<and> out = (st, Err e)) \<or> (\<exists>x. r = Ok x \<and> k x = out)"
  by (cases r) auto

text \<open>A rejected transition changes nothing; an accepted one runs the loop on a checked input.\<close>

definition transition_checked :: "run_transition \<Rightarrow> memory_store \<Rightarrow> session_projection \<Rightarrow> bool" where
  "transition_checked input st session \<longleftrightarrow>
     ct_events input \<noteq> [] \<and> bt_get (ms_sessions st) (ct_session_id input) = Some session \<and>
     rn_session_id (ct_run input) = ct_session_id input \<and>
     none_or (\<lambda>old. rn_execution_context old = rn_execution_context (ct_run input))
       (bt_get (ms_runs st) (rn_id (ct_run input))) \<and>
     (\<forall>e\<in>set (ct_events input). run_unchecked e \<or> event_run_id e = Some (rn_id (ct_run input))) \<and>
     (\<exists>lifecycle. fold_session_records (session_records (ct_session_id input) st) = Ok lifecycle \<and>
        is_ok (validate_run_transition lifecycle (rn_id (ct_run input)) (ct_events input)))"

lemma run_transition_cases:
  assumes "commit_run_transition input st = (st', res)"
  obtains (rejected) e where "st' = st" "res = Err e"
  | (failed) session st1 e where "transition_checked input st session"
      "emit_events input (ct_events input) [] [] st = (st1, Err e)" "st' = st1" "res = Err e"
  | (committed) session em pe st1 where "transition_checked input st session"
      "emit_events input (ct_events input) [] [] st = (st1, Ok (em, pe))"
      "finish_transition input session (bt_get (ms_runs st) (rn_id (ct_run input))) em pe st1 = (st', res)"
proof -
  let ?old = "bt_get (ms_runs st) (rn_id (ct_run input))"
  show ?thesis
  proof (cases "\<exists>session. transition_checked input st session")
    case False
    have "\<exists>e. (st', res) = (st, Err e)"
    proof (rule ccontr)
      assume n: "\<not> ?thesis"
      from assms n have ne: "ct_events input \<noteq> []" by (auto simp: commit_run_transition_def)
      from assms n ne obtain session where s: "bt_get (ms_sessions st) (ct_session_id input) = Some session"
        by (auto simp: commit_run_transition_def split: option.splits)
      from assms n ne s have r: "rn_session_id (ct_run input) = ct_session_id input"
        by (auto simp: commit_run_transition_def split: if_splits)
      from assms n ne s r obtain lifecycle where
        "is_ok (validate_run_execution_context ?old (ct_run input))"
        "is_ok (validate_run_transition_events input)"
        "fold_session_records (session_records (ct_session_id input) st) = Ok lifecycle"
        "is_ok (validate_run_transition lifecycle (rn_id (ct_run input)) (ct_events input))"
        by (auto simp: commit_run_transition_def Let_def check_then_eq is_ok_iff)
      with ne s r have "transition_checked input st session"
        by (auto simp: transition_checked_def validate_context_ok validate_transition_ok)
      with False show False by blast
    qed
    then show ?thesis using rejected by blast
  next
    case True
    then obtain session where ck: "transition_checked input st session" by blast
    then have run: "commit_run_transition input st =
        outcome_then (emit_events input (ct_events input) [] [] st) (\<lambda>(em, pe) st1.
          finish_transition input session ?old em pe st1)"
      using validate_context_ok [of ?old "ct_run input"] validate_transition_ok [of input]
      by (auto simp: commit_run_transition_def transition_checked_def Let_def is_ok_iff)
    show ?thesis
    proof (cases "emit_events input (ct_events input) [] [] st")
      case (Pair st1 out)
      then show ?thesis
        using assms ck run failed [OF ck] committed [OF ck] by (cases out) auto
    qed
  qed
qed

text \<open>What the result of a committed transition says of the store it leaves.\<close>

definition transition_result :: "run_transition \<Rightarrow> session_projection \<Rightarrow> run_projection option \<Rightarrow>
    event_record list \<Rightarrow> event_record list \<Rightarrow> memory_store \<Rightarrow> memory_store \<Rightarrow> run_transition_result \<Rightarrow> bool" where
  "transition_result input session old em pe st1 st' r \<longleftrightarrow>
     cr_events r = em \<and> cr_persisted_events r = pe \<and>
     cr_run r = with_commit_metadata (ct_run input) old (ct_occurred_at_ms input)
       (if pe = [] then None else Some (ev_sequence (last pe))) \<and>
     ms_runs st' = bt_put (rn_id (ct_run input)) (cr_run r) (ms_runs st1) \<and>
     cr_session r = session\<lparr>sn_status := compute_session_status_from_runs
       (filter (\<lambda>x. rn_session_id x = ct_session_id input) (bt_values (ms_runs st')))\<rparr> \<and>
     ms_sessions st' = bt_put (sn_id session) (cr_session r) (ms_sessions st1) \<and>
     cr_commit r = (if pe = [] then \<lparr>cb_id = 0, cb_first_sequence = 0, cb_last_sequence = 0\<rparr>
       else \<lparr>cb_id = ms_next_commit_id st1, cb_first_sequence = ev_sequence (hd pe),
             cb_last_sequence = ev_sequence (last pe)\<rparr>)"

lemma finish_transition_fields:
  assumes "finish_transition input session old em pe st1 = (st', res)"
  shows "store_log st' = store_log st1" "ms_next_event_sequence st' = ms_next_event_sequence st1"
    "ms_agent_turn_rows st' = ms_agent_turn_rows st1" "ms_in_flight st' = ms_in_flight st1"
    "ms_events st' = ms_events st1" "ms_workspaces st' = ms_workspaces st1"
    "ms_artifacts st' = ms_artifacts st1" "ms_checkpoints st' = ms_checkpoints st1"
    "ms_receipts st' = ms_receipts st1" "ms_work_items st' = ms_work_items st1"
    "\<exists>r. res = Ok r \<and> transition_result input session old em pe st1 st' r"
proof -
  let ?run = "with_commit_metadata (ct_run input) old (ct_occurred_at_ms input)
        (if pe = [] then None else Some (ev_sequence (last pe)))"
  let ?runs = "bt_put (rn_id (ct_run input)) ?run (ms_runs st1)"
  let ?session = "session\<lparr>sn_status := compute_session_status_from_runs
        (filter (\<lambda>x. rn_session_id x = ct_session_id input) (bt_values ?runs))\<rparr>"
  let ?commit = "if pe = [] then \<lparr>cb_id = 0, cb_first_sequence = 0, cb_last_sequence = 0\<rparr>
        else \<lparr>cb_id = ms_next_commit_id st1, cb_first_sequence = ev_sequence (hd pe),
              cb_last_sequence = ev_sequence (last pe)\<rparr>"
  have id: "rn_id (with_commit_metadata r x t n) = rn_id r" for r x t n by (simp add: with_commit_metadata_def)
  let ?st' = "st1\<lparr>ms_runs := ?runs, ms_sessions := bt_put (sn_id session) ?session (ms_sessions st1),
      ms_next_commit_id := if pe = [] then ms_next_commit_id st1 else wrap_add (ms_next_commit_id st1) 1\<rparr>"
  let ?res = "Ok \<lparr>cr_commit = ?commit, cr_session = ?session, cr_run = ?run, cr_events = em,
      cr_persisted_events = pe\<rparr>"
  have "finish_transition input session old em pe st1 = (?st', ?res)"
    by (cases "pe = []"; cases st1) (simp_all add: finish_transition_def next_commit_def Let_def id)
  with assms have st': "st' = ?st'" and res: "res = ?res"
    by (metis prod.inject)+
  show "store_log st' = store_log st1" "ms_next_event_sequence st' = ms_next_event_sequence st1"
    "ms_agent_turn_rows st' = ms_agent_turn_rows st1" "ms_in_flight st' = ms_in_flight st1"
    "ms_events st' = ms_events st1" "ms_workspaces st' = ms_workspaces st1"
    "ms_artifacts st' = ms_artifacts st1" "ms_checkpoints st' = ms_checkpoints st1"
    "ms_receipts st' = ms_receipts st1" "ms_work_items st' = ms_work_items st1"
    by (simp_all add: st' store_log_def)
  have runs: "ms_runs st' = ?runs" by (simp add: st')
  have sessions: "ms_sessions st' = bt_put (sn_id session) ?session (ms_sessions st1)" by (simp add: st')
  show "\<exists>r. res = Ok r \<and> transition_result input session old em pe st1 st' r"
  proof (intro exI conjI)
    show "res = ?res" by (rule res)
  qed (simp add: transition_result_def runs sessions)
qed

section \<open>The approval log keeps folding\<close>

definition folds_ok :: "memory_store \<Rightarrow> bool" where
  "folds_ok st \<longleftrightarrow> (\<forall>s. is_ok (fold_session_records (session_records s st)))"

lemma session_records_log: "session_records s st = filter (\<lambda>r. ev_session_id r = s) (store_log st)"
  by (simp add: session_records_def store_log_def)

lemma fold_prefix_ok: "is_ok (fold_session_records (a @ b)) \<Longrightarrow> is_ok (fold_session_records a)"
  by (auto simp: fold_session_records_def fold_records_append is_ok_iff try_then_Ok_iff)

lemma trace_persisted: "approval_trace a (payloads (persisted_of rs)) = approval_trace a (payloads rs)"
  by (induction rs) (auto split: option.splits elim: approval_of.elims)

lemma fold_persisted: "is_ok (fold_session_records (a @ persisted_of b)) = is_ok (fold_session_records (a @ b))"
  by (simp only: fold_ok_iff map_append approval_trace_append trace_persisted)

lemma folds_ok_append:
  assumes "folds_ok st" and log: "store_log st' = store_log st @ new" and "\<forall>r\<in>set new. ev_session_id r = s"
    and "is_ok (fold_session_records (session_records s st @ new))"
  shows "folds_ok st'"
proof -
  have "session_records t st' = session_records t st @ (if t = s then new else [])" for t
    using assms(3) by (auto simp: session_records_log log filter_id_conv filter_empty_conv)
  with assms(1,4) show ?thesis by (simp add: folds_ok_def)
qed

lemma folds_ok_append_other:
  assumes "folds_ok st" and "store_log st' = store_log st @ [r]" and "approval_of (ev_payload r) = None"
  shows "folds_ok st'"
proof (rule folds_ok_append [OF assms(1,2)])
  show "\<forall>x\<in>set [r]. ev_session_id x = ev_session_id r" by simp
  have "approval_trace a (payloads (x @ [r])) = approval_trace a (payloads x)" for a x
    using assms(3) by (simp add: approval_trace_append)
  then show "is_ok (fold_session_records (session_records (ev_session_id r) st @ [r]))"
    using assms(1) unfolding fold_ok_iff folds_ok_def by simp
qed

lemma checked_fold:
  assumes "transition_checked input st session"
  shows "is_ok (fold_session_records (session_records (ct_session_id input) st @
    persisted_of (stamped input n (take k (ct_events input)))))"
proof -
  from assms obtain lifecycle where
    f: "fold_session_records (session_records (ct_session_id input) st) = Ok lifecycle" and
    v: "is_ok (validate_run_transition lifecycle (rn_id (ct_run input)) (ct_events input))"
    by (auto simp: transition_checked_def)
  have "stamped input n (xs @ ys) = stamped input n xs @ stamped input (n + length xs) ys" for n xs ys
    by (induction xs arbitrary: n) simp_all
  from this [of n "take k (ct_events input)" "drop k (ct_events input)"]
  have split: "stamped input n (ct_events input) = stamped input n (take k (ct_events input)) @
      stamped input (n + length (take k (ct_events input))) (drop k (ct_events input))" by simp
  from validation_exact [OF f, of "rn_id (ct_run input)" "stamped input n (ct_events input)"] v
  have "is_ok (fold_session_records (session_records (ct_session_id input) st @ stamped input n (ct_events input)))"
    by (simp add: stamped_facts)
  then have "is_ok (fold_session_records ((session_records (ct_session_id input) st @
      stamped input n (take k (ct_events input))) @
      stamped input (n + length (take k (ct_events input))) (drop k (ct_events input))))"
    by (metis split append.assoc)
  then show ?thesis unfolding fold_persisted by (rule fold_prefix_ok)
qed

section \<open>References\<close>

definition refs_ok :: "memory_store \<Rightarrow> bool" where
  "refs_ok st \<longleftrightarrow>
     (\<forall>s x. bt_get (ms_sessions st) s = Some x \<longrightarrow> sn_id x = s \<and> bt_contains (ms_workspaces st) (sn_workspace_id x)) \<and>
     (\<forall>i x. bt_get (ms_runs st) i = Some x \<longrightarrow> rn_id x = i \<and> bt_contains (ms_sessions st) (rn_session_id x)) \<and>
     (\<forall>r\<in>set (store_log st). bt_contains (ms_sessions st) (ev_session_id r)) \<and>
     (\<forall>a x. bt_get (ms_artifacts st) a = Some x \<longrightarrow> ac_id x = a \<and> bt_contains (ms_runs st) (ac_run_id x) \<and>
        bt_contains (ms_sessions st) (ac_session_id x)) \<and>
     (\<forall>i x. bt_get (ms_checkpoints st) i = Some x \<longrightarrow> bt_contains (ms_runs st) i)"

definition workspaces_ok :: "memory_store \<Rightarrow> bool" where
  "workspaces_ok st \<longleftrightarrow> bt_wf (ms_workspaces st) \<and>
     (\<forall>i w. bt_get (ms_workspaces st) i = Some w \<longrightarrow> ws_id w = i) \<and>
     (\<forall>i j v w. bt_get (ms_workspaces st) i = Some v \<longrightarrow> bt_get (ms_workspaces st) j = Some w \<longrightarrow>
        path_str (ws_root_realpath v) = path_str (ws_root_realpath w) \<longrightarrow> i = j)"

definition store_ok :: "memory_store \<Rightarrow> bool" where
  "store_ok st \<longleftrightarrow> log_ok st \<and> rows_ok st \<and> folds_ok st \<and> refs_ok st \<and> workspaces_ok st"

lemma store_ok_new: "store_ok memory_store_new"
proof -
  have "rows_ok memory_store_new" by (simp add: rows_ok_def memory_store_new_def in_flight_ok_empty)
  moreover have "folds_ok memory_store_new"
    by (simp add: folds_ok_def memory_store_new_def session_records_def fold_session_records_def)
  moreover have "refs_ok memory_store_new" "workspaces_ok memory_store_new"
    by (simp_all add: refs_ok_def workspaces_ok_def memory_store_new_def store_log_def)
  ultimately show ?thesis by (simp add: store_ok_def)
qed

text \<open>An operation that writes none of the fields of an invariant keeps it.\<close>

lemma log_ok_cong:
  assumes "ms_events st' = ms_events st" and "ms_next_event_sequence st' = ms_next_event_sequence st" and "log_ok st"
  shows "log_ok st'"
  using assms(3) unfolding log_ok_def assms(1,2) .

lemma rows_ok_cong:
  "ms_agent_turn_rows st' = ms_agent_turn_rows st \<Longrightarrow> ms_in_flight st' = ms_in_flight st \<Longrightarrow>
   ms_next_event_sequence st' = ms_next_event_sequence st \<Longrightarrow> rows_ok st \<Longrightarrow> rows_ok st'"
  by (simp add: rows_ok_def)

lemma folds_ok_cong: "ms_events st' = ms_events st \<Longrightarrow> folds_ok st \<Longrightarrow> folds_ok st'"
  by (simp add: folds_ok_def session_records_def)

lemma workspaces_ok_cong: "ms_workspaces st' = ms_workspaces st \<Longrightarrow> workspaces_ok st \<Longrightarrow> workspaces_ok st'"
  by (simp add: workspaces_ok_def)

lemma refs_ok_append:
  assumes "refs_ok st" and "unlogged st' = unlogged st" and "store_log st' = store_log st @ new"
    and "\<forall>r\<in>set new. bt_contains (ms_sessions st) (ev_session_id r)"
  shows "refs_ok st'"
  using assms(1,4) unfolding refs_ok_def unlogged_fields [OF assms(2)] assms(3) set_append ball_Un
  by (elim conjE) (intro conjI, assumption+)

lemma refs_ok_cong:
  "ms_workspaces st' = ms_workspaces st \<Longrightarrow> ms_sessions st' = ms_sessions st \<Longrightarrow> ms_runs st' = ms_runs st \<Longrightarrow>
   ms_artifacts st' = ms_artifacts st \<Longrightarrow> ms_checkpoints st' = ms_checkpoints st \<Longrightarrow>
   ms_events st' = ms_events st \<Longrightarrow> refs_ok st \<Longrightarrow> refs_ok st'"
  unfolding refs_ok_def store_log_def by (simp only:)

lemma store_log_updates [simp]:
  "store_log (st\<lparr>ms_sessions := x\<rparr>) = store_log st" "store_log (st\<lparr>ms_checkpoints := c\<rparr>) = store_log st"
  "store_log (st\<lparr>ms_artifacts := a\<rparr>) = store_log st" "store_log (st\<lparr>ms_next_commit_id := n\<rparr>) = store_log st"
  by (simp_all add: store_log_def)

lemma refs_ok_put_session:
  assumes "refs_ok st" and "sn_id x = s" and "bt_contains (ms_workspaces st) (sn_workspace_id x)"
  shows "refs_ok (st\<lparr>ms_sessions := bt_put s x (ms_sessions st)\<rparr>)"
  using assms by (auto simp: refs_ok_def)

lemma refs_ok_put_checkpoint:
  assumes "refs_ok st" and "bt_contains (ms_runs st) i"
  shows "refs_ok (st\<lparr>ms_checkpoints := bt_put i m (ms_checkpoints st), ms_next_commit_id := n\<rparr>)"
  using assms by (auto simp: refs_ok_def split: if_splits)

lemma workspaces_ok_append:
  assumes "unlogged st' = unlogged st" and "workspaces_ok st"
  shows "workspaces_ok st'"
  using assms(2) unfolding workspaces_ok_def unlogged_fields [OF assms(1)] .

text \<open>An operation that writes only sessions, runs, artifacts, checkpoints or commit numbers.\<close>

lemma store_ok_update:
  assumes "store_ok st" and "ms_events st' = ms_events st" "ms_next_event_sequence st' = ms_next_event_sequence st"
    "ms_agent_turn_rows st' = ms_agent_turn_rows st" "ms_in_flight st' = ms_in_flight st"
    "ms_workspaces st' = ms_workspaces st" and "refs_ok st'"
  shows "store_ok st'"
  using assms(1) log_ok_cong [OF assms(2,3)] rows_ok_cong [OF assms(4,5,3)] folds_ok_cong [OF assms(2)]
    workspaces_ok_cong [OF assms(6)] assms(7)
  unfolding store_ok_def by simp

lemma store_ok_other:
  assumes "store_ok st" and "ms_events st' = ms_events st" "ms_next_event_sequence st' = ms_next_event_sequence st"
    "ms_agent_turn_rows st' = ms_agent_turn_rows st" "ms_in_flight st' = ms_in_flight st"
    "ms_workspaces st' = ms_workspaces st" "ms_sessions st' = ms_sessions st" "ms_runs st' = ms_runs st"
    "ms_artifacts st' = ms_artifacts st" "ms_checkpoints st' = ms_checkpoints st"
  shows "store_ok st'"
  using assms refs_ok_cong [of st' st] by (intro store_ok_update [OF assms(1-6)]) (simp add: store_ok_def)

text \<open>Appending one event that is no approval keeps the invariant.\<close>

lemma append_store_ok:
  assumes ok: "store_ok st" and room: "room 1 st" and seq: "ev_sequence r = ms_next_event_sequence st"
    and plain: "approval_of (ev_payload r) = None" and sess: "bt_contains (ms_sessions st) (ev_session_id r)"
    and app: "append_seed_event r st = (st', res)"
  shows "store_ok st' \<and> unlogged st' = unlogged st"
proof -
  from append_ok [OF _ _ room seq app] ok have a: "log_ok st'" "rows_ok st'" "unlogged st' = unlogged st"
    "st' = st \<or> store_log st' = store_log st @ [r]"
    by (auto simp: store_ok_def split: sum.splits)
  from a(4) show ?thesis
  proof
    assume "store_log st' = store_log st @ [r]"
    moreover from this have "folds_ok st'" using folds_ok_append_other ok plain by (auto simp: store_ok_def)
    ultimately show ?thesis
      using a ok refs_ok_append [of st st' "[r]"] workspaces_ok_append sess by (auto simp: store_ok_def)
  qed (use ok in simp)
qed

section \<open>Steps\<close>

text \<open>
  The sequence counter saturates; a step is one of the store's as long as it did not: there was
  room for its events, or the counter does not stand at the largest number afterwards.
\<close>

definition room_to :: "nat \<Rightarrow> memory_store \<Rightarrow> memory_store \<Rightarrow> bool" where
  "room_to n st st' \<longleftrightarrow> room n st \<or> ms_next_event_sequence st' < u64_max"

lemma room_to: "room n st \<Longrightarrow> room_to n st st'"
  by (simp add: room_to_def)

inductive store_step :: "memory_store \<Rightarrow> memory_store \<Rightarrow> bool" where
  open_step: "commit_session_open session t st = (st', res) \<Longrightarrow> room 1 st \<Longrightarrow> store_step st st'"
| transition_step: "commit_run_transition input st = (st', res) \<Longrightarrow> room_to (length (ct_events input)) st st' \<Longrightarrow>
    store_step st st'"
| artifact_step: "commit_artifact_publish a t st = (st', res) \<Longrightarrow> room 1 st \<Longrightarrow> store_step st st'"
| receipt_event_step: "commit_receipt_event s (EvContextReceipt e) t st = (st', res) \<Longrightarrow> room 1 st \<Longrightarrow>
    store_step st st'"
| checkpoint_step: "commit_checkpoint_persist c st = (st', res) \<Longrightarrow> store_step st st'"
| rotate_step: "rotate_session_authority s owner presented new_hash st = (st', res) \<Longrightarrow> store_step st st'"
| workspace_step: "upsert_workspace w st = (st', res) \<Longrightarrow> store_step st st'"
| principal_step: "store_step st (save_principal p st)"
| receipts_step: "store_step st (st\<lparr>ms_receipts := t\<rparr>)"
| work_items_step: "store_step st (st\<lparr>ms_work_items := w\<rparr>)"
| cursor_step: "store_step st (st\<lparr>ms_work_source_cursors := bt_put k c (ms_work_source_cursors st)\<rparr>)"

lemma room_to_emitted:
  assumes "room_to (length ps) st st'" and "emit_events input ps em pe st = (st1, Ok x)"
    and "finish_transition input' session old em' pe' st1 = (st', res)"
  shows "room (length ps) st"
proof (cases "ms_next_event_sequence st' < u64_max")
  case True
  then have "ms_next_event_sequence st1 < u64_max" using finish_transition_fields(2) [OF assms(3)] by simp
  with emit_events_next(2) [OF assms(2)] show ?thesis by (simp add: room_def)
qed (use assms(1) in \<open>simp add: room_to_def\<close>)

lemma transition_store_ok:
  assumes ok: "store_ok st" and room: "room_to (length (ct_events input)) st st'"
    and run: "commit_run_transition input st = (st', res)"
  shows "store_ok st'"
  using run
proof (cases rule: run_transition_cases)
  case (rejected e)
  then show ?thesis using ok by simp
next
  case (failed session st1 e)
  from ok have inv: "log_ok st" "rows_ok st" "folds_ok st" "refs_ok st" "workspaces_ok st" by (simp_all add: store_ok_def)
  from emit_events_err [OF failed(2) inv(1,2)] room failed(3) obtain k where
    a: "unlogged st' = unlogged st" "log_ok st'" "rows_ok st'" and
    log: "store_log st' = store_log st @ persisted_of (stamped input (ms_next_event_sequence st) (take k (ct_events input)))"
    unfolding room_to_def by blast
  have sess: "\<forall>r\<in>set (persisted_of (stamped input (ms_next_event_sequence st) (take k (ct_events input)))).
      ev_session_id r = ct_session_id input"
    using stamped_facts(3) by auto
  moreover have "bt_contains (ms_sessions st) (ct_session_id input)"
    using failed(1) by (auto simp: transition_checked_def bt_contains_iff)
  ultimately have "refs_ok st'" using refs_ok_append [OF inv(4) a(1) log] by auto
  moreover have "folds_ok st'" by (rule folds_ok_append [OF inv(3) log sess checked_fold [OF failed(1)]])
  ultimately show ?thesis using a workspaces_ok_append [OF a(1) inv(5)] by (simp add: store_ok_def)
next
  case (committed session em pe st1)
  from ok have inv: "log_ok st" "rows_ok st" "folds_ok st" "refs_ok st" "workspaces_ok st" by (simp_all add: store_ok_def)
  note e = emit_events_ok [OF committed(2) inv(1,2) room_to_emitted [OF room committed(2,3)]]
  let ?new = "persisted_of (stamped input (ms_next_event_sequence st) (ct_events input))"
  have a: "unlogged st1 = unlogged st" "log_ok st1" "rows_ok st1" and log: "store_log st1 = store_log st @ ?new"
    using e by blast+
  have sess: "\<forall>r\<in>set ?new. ev_session_id r = ct_session_id input" using stamped_facts(3) by auto
  moreover have "bt_contains (ms_sessions st) (ct_session_id input)"
    using committed(1) by (auto simp: transition_checked_def bt_contains_iff)
  ultimately have refs1: "refs_ok st1" using refs_ok_append [OF inv(4) a(1) log] by auto
  have folds1: "folds_ok st1"
    using folds_ok_append [OF inv(3) log sess] checked_fold [OF committed(1), of _ "length (ct_events input)"] by simp
  note f = finish_transition_fields [OF committed(3)]
  from f(11) obtain r where r': "transition_result input session (bt_get (ms_runs st) (rn_id (ct_run input)))
      em pe st1 st' r" by blast
  note r = r' [unfolded transition_result_def, THEN conjunct2, THEN conjunct2]
  have run: "rn_id (cr_run r) = rn_id (ct_run input)" "rn_session_id (cr_run r) = ct_session_id input"
    using r committed(1) by (simp_all add: with_commit_metadata_def transition_checked_def)
  have "bt_get (ms_sessions st1) (ct_session_id input) = Some session"
    using committed(1) unlogged_fields(1) [OF a(1)] by (simp add: transition_checked_def)
  then have session: "sn_id session = ct_session_id input" "bt_contains (ms_workspaces st1) (sn_workspace_id session)"
    using refs1 by (auto simp: refs_ok_def)
  have runs: "ms_runs st' = bt_put (rn_id (ct_run input)) (cr_run r) (ms_runs st1)"
    and sessions: "ms_sessions st' = bt_put (sn_id session) (cr_session r) (ms_sessions st1)"
    and kept: "sn_id (cr_session r) = sn_id session" "sn_workspace_id (cr_session r) = sn_workspace_id session"
    using r by simp_all
  have "refs_ok st'"
    using refs1 kept run session unfolding refs_ok_def f(1,6,7,8) runs sessions by auto
  then show ?thesis
    using log_ok_cong [OF f(5,2) a(2)] rows_ok_cong [OF f(3,4,2) a(3)] folds_ok_cong [OF f(5) folds1]
      workspaces_ok_cong [OF f(6) workspaces_ok_append [OF a(1) inv(5)]]
    by (simp add: store_ok_def)
qed

lemma outcome_then_cases:
  assumes "outcome_then r k = (st', res)"
  obtains (err) e where "r = (st', Err e)" "res = Err e" | (ok) st1 x where "r = (st1, Ok x)" "k x st1 = (st', res)"
  using assms by (cases r; cases "snd r") auto

lemma open_store_ok:
  assumes ok: "store_ok st" and room: "room 1 st" and run: "commit_session_open session t st = (st', res)"
  shows "store_ok st'"
proof (cases "bt_contains (ms_workspaces st) (sn_workspace_id session)")
  case False
  with run ok show ?thesis by (simp add: commit_session_open_def)
next
  case True
  let ?st1 = "st\<lparr>ms_sessions := bt_put (sn_id session) session (ms_sessions st)\<rparr>"
  have "refs_ok ?st1" using ok True by (auto simp: store_ok_def refs_ok_def store_log_def)
  then have ok1: "store_ok ?st1" by (intro store_ok_update [OF ok]) simp_all
  have room1: "room 1 ?st1" using room by (simp add: room_def)
  from run True obtain e where app: "outcome_then (append_seed_event e ?st1) (\<lambda>_ st2.
      let (st3, commit) = next_commit (ev_sequence e) (ev_sequence e) st2
      in (st3, Ok \<lparr>oo_commit = commit, oo_session = session, oo_event = e\<rparr>)) = (st', res)"
    and e: "ev_sequence e = ms_next_event_sequence ?st1" "ev_session_id e = sn_id session"
      "approval_of (ev_payload e) = None"
    by (simp add: commit_session_open_def Let_def)
  note k = append_store_ok [OF ok1 room1 e(1,3)]
  from app show ?thesis
  proof (cases rule: outcome_then_cases)
    case (err x)
    then show ?thesis using k e(2) by simp
  next
    case (ok st2 x)
    then have "store_ok st2" using k e(2) by simp
    moreover have "st' = st2\<lparr>ms_next_commit_id := wrap_add (ms_next_commit_id st2) 1\<rparr>"
      using ok(2) by (simp add: next_commit_def)
    ultimately show ?thesis by (simp add: store_ok_other [of st2])
  qed
qed

lemma receipt_event_store_ok:
  assumes ok: "store_ok st" and room: "room 1 st" and run: "commit_receipt_event s (EvContextReceipt p) t st = (st', res)"
  shows "store_ok st'"
proof (cases "bt_contains (ms_sessions st) s")
  case False
  with run ok show ?thesis by (simp add: commit_receipt_event_def)
next
  case True
  from run True obtain e where app: "outcome_then (append_seed_event e st) (\<lambda>_ st1.
      let (st2, commit) = next_commit (ev_sequence e) (ev_sequence e) st1
      in (st2, Ok \<lparr>oe_commit = commit, oe_event = e\<rparr>)) = (st', res)"
    and e: "ev_sequence e = ms_next_event_sequence st" "ev_session_id e = s" "approval_of (ev_payload e) = None"
    by (simp add: commit_receipt_event_def Let_def)
  note k = append_store_ok [OF ok room e(1,3)]
  from app show ?thesis
  proof (cases rule: outcome_then_cases)
    case (err x)
    then show ?thesis using k e(2) True by simp
  next
    case (ok st2 x)
    then have "store_ok st2" using k e(2) True by simp
    moreover have "st' = st2\<lparr>ms_next_commit_id := wrap_add (ms_next_commit_id st2) 1\<rparr>"
      using ok(2) by (simp add: next_commit_def)
    ultimately show ?thesis by (simp add: store_ok_other [of st2])
  qed
qed

lemma artifact_store_ok:
  assumes ok: "store_ok st" and room: "room 1 st" and run: "commit_artifact_publish a t st = (st', res)"
  shows "store_ok st'"
proof (cases "st' = st")
  case False
  let ?st1 = "st\<lparr>ms_artifacts := bt_put (ac_id a) a (ms_artifacts st)\<rparr>"
  from run False have s: "bt_contains (ms_sessions st) (ac_session_id a)"
    by (auto simp: commit_artifact_publish_def split: if_splits)
  with run False have r: "bt_contains (ms_runs st) (ac_run_id a)"
    by (auto simp: commit_artifact_publish_def bt_contains_def split: option.splits)
  from run False s r obtain e where app: "outcome_then (append_seed_event e ?st1) (\<lambda>_ st2.
      let (st3, commit) = next_commit (ev_sequence e) (ev_sequence e) st2
      in (st3, Ok \<lparr>oa_commit = commit, oa_artifact = a, oa_event = e\<rparr>)) = (st', res)"
    and e: "ev_sequence e = ms_next_event_sequence ?st1" "ev_session_id e = ac_session_id a"
      "approval_of (ev_payload e) = None"
    by (auto simp: commit_artifact_publish_def save_seed_artifact_def Let_def bt_contains_iff split: if_splits)
  have "refs_ok ?st1" using ok s r by (auto simp: store_ok_def refs_ok_def store_log_def)
  then have ok1: "store_ok ?st1" by (intro store_ok_update [OF ok]) simp_all
  have room1: "room 1 ?st1" using room by (simp add: room_def)
  note k = append_store_ok [OF ok1 room1 e(1,3)]
  from app show ?thesis
  proof (cases rule: outcome_then_cases)
    case (err x)
    then show ?thesis using k e(2) s by simp
  next
    case (ok st2 x)
    then have "store_ok st2" using k e(2) s by simp
    moreover have "st' = st2\<lparr>ms_next_commit_id := wrap_add (ms_next_commit_id st2) 1\<rparr>"
      using ok(2) by (simp add: next_commit_def)
    ultimately show ?thesis by (simp add: store_ok_other [of st2])
  qed
qed (use ok in simp)

lemma checkpoint_store_ok:
  assumes ok: "store_ok st" and run: "commit_checkpoint_persist c st = (st', res)"
  shows "store_ok st'"
proof (rule store_ok_update [OF ok])
  have put: "bt_put k b (bt_put k a m) = bt_put k b m" for k :: run_id and a b :: "(nat, checkpoint_record) btree" and m
  proof -
    have "filter (\<lambda>x. k < fst x \<and> fst x < k) m = []" "filter (\<lambda>x. fst x < k \<and> k < fst x) m = []"
      by (auto simp: filter_empty_conv)
    then show ?thesis by (simp add: bt_put_def)
  qed
  have "st' = st \<or> bt_contains (ms_runs st) (cp_run_id c) \<and>
      (\<exists>m n. st' = st\<lparr>ms_checkpoints := bt_put (cp_run_id c) m (ms_checkpoints st), ms_next_commit_id := n\<rparr>)"
  proof (cases "bt_contains (ms_runs st) (cp_run_id c)")
    case True
    define revisions where "revisions = (case bt_get (ms_checkpoints st) (cp_run_id c) of None \<Rightarrow> [] | Some m \<Rightarrow> m)"
    have "st\<lparr>ms_checkpoints := x\<rparr> = st\<lparr>ms_checkpoints := x, ms_next_commit_id := ms_next_commit_id st\<rparr>" for x by simp
    with True run show ?thesis
      unfolding commit_checkpoint_persist_def revisions_def [symmetric] Let_def
      by (cases "bt_contains revisions (cp_revision c)"; cases st) (auto simp: next_commit_def put)
  qed (use run in \<open>simp add: commit_checkpoint_persist_def\<close>)
  moreover have "refs_ok st" using ok by (simp add: store_ok_def)
  ultimately show "refs_ok st'" using refs_ok_put_checkpoint by auto
qed (use run in \<open>auto simp: commit_checkpoint_persist_def next_commit_def Let_def split: if_splits\<close>)

text \<open>Who may rotate a session's authority, and what it becomes.\<close>

definition accepts :: "session_projection \<Rightarrow> string \<Rightarrow> string \<Rightarrow> bool" where
  "accepts x owner h \<longleftrightarrow> sn_owner_principal_id x = owner \<and> (sn_current_hash x = h \<or> sn_recovery_hash x = Some h)"

definition rotated :: "session_projection \<Rightarrow> string \<Rightarrow> string \<Rightarrow> session_projection" where
  "rotated x presented h = x\<lparr>sn_current_hash := h,
     sn_current_generation := sat_add (sn_current_generation x) 1,
     sn_recovery_hash := (if sn_current_hash x = presented then Some (sn_current_hash x) else None),
     sn_recovery_generation := (if sn_current_hash x = presented then Some (sn_current_generation x) else None)\<rparr>"

lemma rotate_eq:
  "rotate_session_authority s owner presented new_hash st =
     (case bt_get (ms_sessions st) s of
        None \<Rightarrow> (st, Ok None)
      | Some x \<Rightarrow> if accepts x owner presented
          then (st\<lparr>ms_sessions := bt_put s (rotated x presented new_hash) (ms_sessions st)\<rparr>,
            Ok (Some (rotated x presented new_hash)))
          else (st, Ok None))"
  by (auto simp: rotate_session_authority_def accepts_def rotated_def Let_def some_and_def split: option.splits)

lemma rotate_store_ok:
  assumes ok: "store_ok st" and run: "rotate_session_authority s owner presented new_hash st = (st', res)"
  shows "store_ok st'"
proof (rule store_ok_update [OF ok])
  have "st' = st \<or> (\<exists>old. bt_get (ms_sessions st) s = Some old \<and>
      st' = st\<lparr>ms_sessions := bt_put s (rotated old presented new_hash) (ms_sessions st)\<rparr>)"
    using run by (auto simp: rotate_eq split: option.splits if_splits)
  moreover have "sn_id (rotated x p h) = sn_id x" "sn_workspace_id (rotated x p h) = sn_workspace_id x" for x p h
    by (simp_all add: rotated_def)
  moreover have refs: "refs_ok st" using ok by (simp add: store_ok_def)
  moreover have "sn_id x = s \<and> bt_contains (ms_workspaces st) (sn_workspace_id x)"
    if "bt_get (ms_sessions st) s = Some x" for x
    using refs that by (simp add: refs_ok_def)
  ultimately show "refs_ok st'" using refs_ok_put_session [of st "rotated _ _ _" s] by auto
qed (use run in \<open>auto simp: rotate_session_authority_def Let_def split: option.splits if_splits\<close>)

lemma workspace_store_ok:
  assumes ok: "store_ok st" and run: "upsert_workspace w st = (st', res)"
  shows "store_ok st'"
proof (cases "List.find (\<lambda>c. path_str (ws_root_realpath c) = path_str (ws_root_realpath w) \<and> ws_id c \<noteq> ws_id w)
    (bt_values (ms_workspaces st))")
  case None
  then have st': "st' = st\<lparr>ms_workspaces := bt_put (ws_id w) w (ms_workspaces st)\<rparr>"
    using run by (simp add: upsert_workspace_def)
  have wok: "workspaces_ok st" using ok by (simp add: store_ok_def)
  have other: "path_str (ws_root_realpath v) \<noteq> path_str (ws_root_realpath w)"
    if "bt_get (ms_workspaces st) i = Some v" "i \<noteq> ws_id w" for i v
  proof -
    have "v \<in> set (bt_values (ms_workspaces st))" "ws_id v = i"
      using that wok bt_get_iff [of "ms_workspaces st" i v] by (force simp: workspaces_ok_def)+
    with None that(2) show ?thesis by (auto simp: find_None_iff)
  qed
  have "workspaces_ok st'"
    using wok other unfolding workspaces_ok_def st' by (auto split: if_splits) metis+
  moreover have "refs_ok st'" using ok by (auto simp: store_ok_def refs_ok_def st' store_log_def)
  ultimately show ?thesis using ok log_ok_cong [of st' st] rows_ok_cong [of st' st] folds_ok_cong [of st' st]
    by (simp add: store_ok_def st')
qed (use ok run in \<open>simp add: upsert_workspace_def\<close>)

lemma store_step_ok: "store_step st st' \<Longrightarrow> store_ok st \<Longrightarrow> store_ok st'"
proof (induction rule: store_step.induct)
  case (principal_step st p)
  then show ?case by (simp add: save_principal_def store_ok_other [of st])
next
  case (receipts_step st t)
  then show ?case by (simp add: store_ok_other [of st])
next
  case (work_items_step st w)
  then show ?case by (simp add: store_ok_other [of st])
next
  case (cursor_step st k c)
  then show ?case by (simp add: store_ok_other [of st])
qed (blast intro: open_store_ok transition_store_ok artifact_store_ok receipt_event_store_ok checkpoint_store_ok
    rotate_store_ok workspace_store_ok)+

text \<open>
  C1. The invariant of the store holds in every store the daemon can reach, failed operations
  included: the log is sorted by sequence and below the next one, every session's log folds to
  an approval state (so approvals can always be listed and looked up), the agent-turn rows are
  filed under their own sequence, every session's workspace, every run's and event's session and
  every artifact's and checkpoint's run exist, and no two workspaces have the same root.
\<close>

theorem reachable_stores_are_ok:
  assumes "store_step\<^sup>*\<^sup>* memory_store_new st"
  shows "store_ok st"
  using assms by (induction rule: rtranclp_induct) (auto intro: store_ok_new store_step_ok)

end
