(* ===== verification/StoreHistory.thy ===== *)
theory StoreHistory
  imports StoreInvariants
begin

text \<open>
  What the commits of the in-memory store do, and what never changes once it is written: the
  functional description of a run transition, the append-only history, the session authority,
  and the atomicity of failed commits.
\<close>

section \<open>A committed run transition\<close>

text \<open>
  C3. What a committed run transition does. The emitted records carry the given events in order
  under consecutive sequence numbers from the next free one; exactly the durable ones are
  appended to the log; the run is stored with its commit metadata, every other run is as before;
  the session's status is recomputed from all its runs; and the log still folds for approvals.
\<close>

theorem run_transition_commits:
  assumes ok: "store_ok st" and room: "room (length (ct_events input)) st"
    and run: "commit_run_transition input st = (st', Ok r)"
  shows "map ev_payload (cr_events r) = ct_events input \<and>
    map ev_sequence (cr_events r) =
      [ms_next_event_sequence st..<ms_next_event_sequence st + length (ct_events input)] \<and>
    cr_persisted_events r = filter (\<lambda>e. durable (ev_payload e)) (cr_events r) \<and>
    store_log st' = store_log st @ cr_persisted_events r \<and>
    ms_next_event_sequence st' = ms_next_event_sequence st + length (ct_events input) \<and>
    (\<forall>i. bt_get (ms_runs st') i =
       (if i = rn_id (ct_run input)
        then Some (with_commit_metadata (ct_run input) (bt_get (ms_runs st) i) (ct_occurred_at_ms input)
          (last_sequence (cr_persisted_events r)))
        else bt_get (ms_runs st) i)) \<and>
    (\<exists>session. bt_get (ms_sessions st) (ct_session_id input) = Some session \<and>
       bt_get (ms_sessions st') (ct_session_id input) = Some (session\<lparr>sn_status :=
         compute_session_status_from_runs
           (filter (\<lambda>x. rn_session_id x = ct_session_id input) (bt_values (ms_runs st')))\<rparr>)) \<and>
    is_ok (fold_session_records (session_records (ct_session_id input) st'))"
  using run
proof (cases rule: run_transition_cases)
  case (committed session em pe st1)
  from ok have inv: "log_ok st" "rows_ok st" by (simp_all add: store_ok_def)
  note e = emit_events_ok [OF committed(2) inv room]
  note f = finish_transition_fields [OF committed(3)]
  from f(11) have "transition_result input session (bt_get (ms_runs st) (rn_id (ct_run input))) em pe st1 st' r"
    by simp
  note r = this [unfolded transition_result_def]
  have un: "unlogged st1 = unlogged st" using e by blast
  have sess: "bt_get (ms_sessions st) (ct_session_id input) = Some session"
    using committed(1) by (simp add: transition_checked_def)
  then have id: "sn_id session = ct_session_id input" using ok by (auto simp: store_ok_def refs_ok_def)
  have "store_ok st'" by (rule transition_store_ok [OF ok room_to [OF room] run])
  then have fold: "is_ok (fold_session_records (session_records (ct_session_id input) st'))"
    by (simp add: store_ok_def folds_ok_def)
  have em: "cr_events r = stamped input (ms_next_event_sequence st) (ct_events input)"
    and pe: "cr_persisted_events r = persisted_of (cr_events r)" and pe': "cr_persisted_events r = pe"
    and log: "store_log st' = store_log st @ cr_persisted_events r"
    and nxt: "ms_next_event_sequence st' = ms_next_event_sequence st + length (ct_events input)"
    using e r f(1,2) by auto
  have runs: "ms_runs st' = bt_put (rn_id (ct_run input)) (cr_run r) (ms_runs st)"
    and crun: "cr_run r = with_commit_metadata (ct_run input) (bt_get (ms_runs st) (rn_id (ct_run input)))
      (ct_occurred_at_ms input) (last_sequence (cr_persisted_events r))"
    and sessions: "bt_get (ms_sessions st') (ct_session_id input) = Some (cr_session r)"
    and csess: "cr_session r = session\<lparr>sn_status := compute_session_status_from_runs
        (filter (\<lambda>x. rn_session_id x = ct_session_id input) (bt_values (ms_runs st')))\<rparr>"
    using r unlogged_fields [OF un] id by (auto simp: last_sequence_def)
  show ?thesis
    using fold sess sessions csess log nxt pe
    by (simp add: em stamped_facts runs crun del: bt_get_put) (simp add: bt_get_put)
qed simp_all

section \<open>History\<close>

text \<open>Bindings of a table that are never changed or removed.\<close>

definition keeps :: "('k, 'v) btree \<Rightarrow> ('k, 'v) btree \<Rightarrow> bool" where
  "keeps m m' \<longleftrightarrow> (\<forall>k v. bt_get m k = Some v \<longrightarrow> bt_get m' k = Some v)"

definition run_evolves :: "run_projection \<Rightarrow> run_projection \<Rightarrow> bool" where
  "run_evolves old new \<longleftrightarrow>
     rn_execution_context new = rn_execution_context old \<and>
     (\<forall>t. rn_started_at_ms old = Some t \<longrightarrow> rn_started_at_ms new = Some t) \<and>
     (\<forall>t. rn_ended_at_ms old = Some t \<longrightarrow> rn_ended_at_ms new = Some t)"

definition evolves :: "memory_store \<Rightarrow> memory_store \<Rightarrow> bool" where
  "evolves st st' \<longleftrightarrow>
     ms_next_event_sequence st \<le> ms_next_event_sequence st' \<and>
     (\<exists>new. store_log st' = store_log st @ new \<and> (\<forall>r\<in>set new. ms_next_event_sequence st \<le> ev_sequence r)) \<and>
     (\<forall>i old. bt_get (ms_runs st) i = Some old \<longrightarrow>
        (\<exists>new. bt_get (ms_runs st') i = Some new \<and> run_evolves old new)) \<and>
     keeps (ms_artifacts st) (ms_artifacts st') \<and>
     (\<forall>i m. bt_get (ms_checkpoints st) i = Some m \<longrightarrow>
        (\<exists>m'. bt_get (ms_checkpoints st') i = Some m' \<and> keeps m m'))"

lemma run_evolves_refl [simp]: "run_evolves r r"
  by (simp add: run_evolves_def)

lemma keeps_refl [simp]: "keeps m m"
  by (simp add: keeps_def)

lemma keeps_trans: "keeps a b \<Longrightarrow> keeps b c \<Longrightarrow> keeps a c"
  by (simp add: keeps_def)

lemma keeps_put: "\<not> bt_contains m k \<Longrightarrow> keeps m (bt_put k v m)"
  by (auto simp: keeps_def bt_contains_iff)

lemma evolves_refl [simp]: "evolves st st"
  by (auto simp: evolves_def)

lemma evolves_trans:
  assumes "evolves a b" and "evolves b c"
  shows "evolves a c"
proof -
  from assms obtain n1 n2 where log: "store_log b = store_log a @ n1" "store_log c = store_log b @ n2"
    and n1: "\<forall>r\<in>set n1. ms_next_event_sequence a \<le> ev_sequence r"
    and n2: "\<forall>r\<in>set n2. ms_next_event_sequence b \<le> ev_sequence r"
    and le: "ms_next_event_sequence a \<le> ms_next_event_sequence b" "ms_next_event_sequence b \<le> ms_next_event_sequence c"
    unfolding evolves_def by blast
  have "store_log c = store_log a @ (n1 @ n2)" using log by simp
  moreover have "\<forall>r\<in>set (n1 @ n2). ms_next_event_sequence a \<le> ev_sequence r"
    using n1 n2 le(1) by fastforce
  moreover have "\<exists>new. bt_get (ms_runs c) i = Some new \<and> run_evolves old new"
    if old: "bt_get (ms_runs a) i = Some old" for i old
  proof -
    from assms(1) old obtain m where m: "bt_get (ms_runs b) i = Some m" "run_evolves old m"
      unfolding evolves_def by blast
    with assms(2) obtain n where "bt_get (ms_runs c) i = Some n" "run_evolves m n"
      unfolding evolves_def by blast
    with m(2) show ?thesis by (auto simp: run_evolves_def)
  qed
  moreover have "keeps (ms_artifacts a) (ms_artifacts c)"
    using assms keeps_trans unfolding evolves_def by blast
  moreover have "\<exists>m'. bt_get (ms_checkpoints c) i = Some m' \<and> keeps m m'"
    if m: "bt_get (ms_checkpoints a) i = Some m" for i m
  proof -
    from assms(1) m obtain n where n: "bt_get (ms_checkpoints b) i = Some n" "keeps m n"
      unfolding evolves_def by blast
    with assms(2) obtain p where "bt_get (ms_checkpoints c) i = Some p" "keeps n p"
      unfolding evolves_def by blast
    with n(2) keeps_trans show ?thesis by blast
  qed
  ultimately show ?thesis using le unfolding evolves_def by (meson order_trans)
qed

lemma evolves_same:
  assumes "ms_events st' = ms_events st" "ms_next_event_sequence st' = ms_next_event_sequence st"
    "ms_runs st' = ms_runs st" "ms_artifacts st' = ms_artifacts st" "ms_checkpoints st' = ms_checkpoints st"
  shows "evolves st st'"
  using assms by (auto simp: evolves_def store_log_def)

lemma evolves_unlogged:
  assumes "unlogged st' = unlogged st" and "store_log st' = store_log st @ new"
    and "\<forall>r\<in>set new. ms_next_event_sequence st \<le> ev_sequence r"
    and "ms_next_event_sequence st \<le> ms_next_event_sequence st'"
  shows "evolves st st'"
  using assms unfolding evolves_def unlogged_fields [OF assms(1)] by (auto intro: exI [of _ new])

lemma append_evolves:
  assumes "store_ok st" "room 1 st" "ev_sequence r = ms_next_event_sequence st" "append_seed_event r st = (st', res)"
  shows "evolves st st'"
proof -
  from append_ok [OF _ _ assms(2-4)] assms(1) have a: "unlogged st' = unlogged st"
    "st' = st \<or> (store_log st' = store_log st @ [r] \<and> ms_next_event_sequence st' = ms_next_event_sequence st + 1)"
    by (auto simp: store_ok_def split: sum.splits)
  from a(2) show ?thesis using evolves_unlogged [OF a(1), of "[r]"] assms(3) by auto
qed

lemma stamped_sequences: "\<forall>r\<in>set (stamped input n ps). n \<le> ev_sequence r"
  by (induction ps arbitrary: n) (simp, fastforce)

lemma transition_evolves:
  assumes ok: "store_ok st" and room: "room_to (length (ct_events input)) st st'"
    and run: "commit_run_transition input st = (st', res)"
  shows "evolves st st'"
  using run
proof (cases rule: run_transition_cases)
  case (failed session st1 e)
  from ok have inv: "log_ok st" "rows_ok st" by (simp_all add: store_ok_def)
  from emit_events_err [OF failed(2) inv] room failed(3) obtain k where k: "unlogged st1 = unlogged st"
    "store_log st1 = store_log st @ persisted_of (stamped input (ms_next_event_sequence st) (take k (ct_events input)))"
    "ms_next_event_sequence st1 = ms_next_event_sequence st + k + 1" unfolding room_to_def by blast
  have "\<forall>r\<in>set (persisted_of (stamped input (ms_next_event_sequence st) (take k (ct_events input)))).
      ms_next_event_sequence st \<le> ev_sequence r" using stamped_sequences by auto
  from evolves_unlogged [OF k(1,2) this] k(3) failed(3) show ?thesis by simp
next
  case (committed session em pe st1)
  from ok have inv: "log_ok st" "rows_ok st" by (simp_all add: store_ok_def)
  note e = emit_events_ok [OF committed(2) inv room_to_emitted [OF room committed(2,3)]]
  have un: "unlogged st1 = unlogged st" using e by blast
  have first: "evolves st st1"
    by (rule evolves_unlogged [OF un, of "persisted_of (stamped input (ms_next_event_sequence st) (ct_events input))"])
       (use e stamped_sequences in auto)
  note f = finish_transition_fields [OF committed(3)]
  from f(11) obtain r where "transition_result input session (bt_get (ms_runs st) (rn_id (ct_run input))) em pe st1 st' r"
    by blast
  note r = this [unfolded transition_result_def]
  have runs: "ms_runs st' = bt_put (rn_id (ct_run input)) (cr_run r) (ms_runs st)"
    using r unlogged_fields(2) [OF un] by simp
  have "run_evolves old (cr_run r)" if "bt_get (ms_runs st) (rn_id (ct_run input)) = Some old" for old
    using r committed(1) that by (auto simp: transition_checked_def run_evolves_def with_commit_metadata_def)
  then have "evolves st1 st'"
    using f(1,2,7,8) unlogged_fields(2) [OF un] unfolding evolves_def runs by auto
  with first show ?thesis by (rule evolves_trans)
qed simp

lemma store_step_evolves:
  assumes "store_step st st'" and ok: "store_ok st"
  shows "evolves st st'"
  using assms(1)
proof (cases rule: store_step.cases)
  case (open_step session t res)
  show ?thesis
  proof (cases "bt_contains (ms_workspaces st) (sn_workspace_id session)")
    case True
    let ?st1 = "st\<lparr>ms_sessions := bt_put (sn_id session) session (ms_sessions st)\<rparr>"
    have "evolves st ?st1" by (rule evolves_same) simp_all
    moreover have ok1: "store_ok ?st1" using ok True
      by (intro store_ok_update [OF ok]) (simp_all add: refs_ok_put_session store_ok_def)
    have room1: "room 1 ?st1" using open_step(2) by (simp add: room_def)
    have "evolves ?st1 st'"
    proof -
      from open_step(1) True obtain e where app: "outcome_then (append_seed_event e ?st1) (\<lambda>_ st2.
          let (st3, commit) = next_commit (ev_sequence e) (ev_sequence e) st2
          in (st3, Ok \<lparr>oo_commit = commit, oo_session = session, oo_event = e\<rparr>)) = (st', res)"
        and e: "ev_sequence e = ms_next_event_sequence ?st1"
        by (simp add: commit_session_open_def Let_def)
      from app show ?thesis
      proof (cases rule: outcome_then_cases)
        case (err x)
        then show ?thesis using append_evolves [OF ok1 room1 e] by blast
      next
        case (ok st2 x)
        have "evolves st2 st'" using ok(2) by (intro evolves_same) (auto simp: next_commit_def)
        with append_evolves [OF ok1 room1 e ok(1)] show ?thesis by (rule evolves_trans)
      qed
    qed
    ultimately show ?thesis by (rule evolves_trans)
  qed (use open_step in \<open>simp add: commit_session_open_def\<close>)
next
  case (transition_step input res)
  then show ?thesis using transition_evolves [OF ok] by blast
next
  case (artifact_step a t res)
  show ?thesis
  proof (cases "st' = st")
    case False
    let ?st1 = "st\<lparr>ms_artifacts := bt_put (ac_id a) a (ms_artifacts st)\<rparr>"
    from artifact_step(1) False have s: "bt_contains (ms_sessions st) (ac_session_id a)"
      by (auto simp: commit_artifact_publish_def split: if_splits)
    with artifact_step(1) False have r: "bt_contains (ms_runs st) (ac_run_id a)"
      by (auto simp: commit_artifact_publish_def bt_contains_def split: option.splits)
    from artifact_step(1) False s r obtain e where fresh: "\<not> bt_contains (ms_artifacts st) (ac_id a)"
      and app: "outcome_then (append_seed_event e ?st1) (\<lambda>_ st2.
        let (st3, commit) = next_commit (ev_sequence e) (ev_sequence e) st2
        in (st3, Ok \<lparr>oa_commit = commit, oa_artifact = a, oa_event = e\<rparr>)) = (st', res)"
      and e: "ev_sequence e = ms_next_event_sequence ?st1"
      by (auto simp: commit_artifact_publish_def save_seed_artifact_def Let_def bt_contains_iff split: if_splits)
    have "evolves st ?st1" using keeps_put [OF fresh] by (auto simp: evolves_def)
    moreover have "refs_ok ?st1" using ok s r by (auto simp: store_ok_def refs_ok_def)
    then have ok1: "store_ok ?st1" by (intro store_ok_update [OF ok]) simp_all
    have room1: "room 1 ?st1" using artifact_step(2) by (simp add: room_def)
    have "evolves ?st1 st'" using app
    proof (cases rule: outcome_then_cases)
      case (err x)
      then show ?thesis using append_evolves [OF ok1 room1 e] by blast
    next
      case (ok st2 x)
      have "evolves st2 st'" using ok(2) by (intro evolves_same) (auto simp: next_commit_def)
      with append_evolves [OF ok1 room1 e ok(1)] show ?thesis by (rule evolves_trans)
    qed
    ultimately show ?thesis by (rule evolves_trans)
  qed simp
next
  case (receipt_event_step s p t res)
  show ?thesis
  proof (cases "bt_contains (ms_sessions st) s")
    case True
    from receipt_event_step(1) True obtain e where app: "outcome_then (append_seed_event e st) (\<lambda>_ st1.
        let (st2, commit) = next_commit (ev_sequence e) (ev_sequence e) st1
        in (st2, Ok \<lparr>oe_commit = commit, oe_event = e\<rparr>)) = (st', res)"
      and e: "ev_sequence e = ms_next_event_sequence st"
      by (simp add: commit_receipt_event_def Let_def)
    note k = append_evolves [OF ok receipt_event_step(2) e]
    from app show ?thesis
    proof (cases rule: outcome_then_cases)
      case (err x)
      then show ?thesis using k by blast
    next
      case (ok st2 x)
      have "evolves st2 st'" using ok(2) by (intro evolves_same) (auto simp: next_commit_def)
      with k [OF ok(1)] show ?thesis by (rule evolves_trans)
    qed
  qed (use receipt_event_step in \<open>simp add: commit_receipt_event_def\<close>)
next
  case (checkpoint_step c res)
  define revisions where "revisions = (case bt_get (ms_checkpoints st) (cp_run_id c) of None \<Rightarrow> [] | Some m \<Rightarrow> m)"
  have "st' = st \<or> (\<exists>m. keeps revisions m \<and> bt_get (ms_checkpoints st') (cp_run_id c) = Some m \<and>
      (\<forall>i. i \<noteq> cp_run_id c \<longrightarrow> bt_get (ms_checkpoints st') i = bt_get (ms_checkpoints st) i) \<and>
      ms_events st' = ms_events st \<and> ms_next_event_sequence st' = ms_next_event_sequence st \<and>
      ms_runs st' = ms_runs st \<and> ms_artifacts st' = ms_artifacts st)"
    using checkpoint_step(1) keeps_put [of revisions "cp_revision c" c]
    unfolding commit_checkpoint_persist_def revisions_def [symmetric] Let_def
    by (auto simp: next_commit_def split: if_splits)
  then show ?thesis
  proof
    assume "\<exists>m. keeps revisions m \<and> bt_get (ms_checkpoints st') (cp_run_id c) = Some m \<and>
      (\<forall>i. i \<noteq> cp_run_id c \<longrightarrow> bt_get (ms_checkpoints st') i = bt_get (ms_checkpoints st) i) \<and>
      ms_events st' = ms_events st \<and> ms_next_event_sequence st' = ms_next_event_sequence st \<and>
      ms_runs st' = ms_runs st \<and> ms_artifacts st' = ms_artifacts st"
    then obtain m where m: "keeps revisions m" "bt_get (ms_checkpoints st') (cp_run_id c) = Some m"
      "\<And>i. i \<noteq> cp_run_id c \<Longrightarrow> bt_get (ms_checkpoints st') i = bt_get (ms_checkpoints st) i"
      and same: "ms_events st' = ms_events st" "ms_next_event_sequence st' = ms_next_event_sequence st"
      "ms_runs st' = ms_runs st" "ms_artifacts st' = ms_artifacts st" by blast
    have "\<exists>m'. bt_get (ms_checkpoints st') i = Some m' \<and> keeps n m'" if "bt_get (ms_checkpoints st) i = Some n" for i n
      using m that by (cases "i = cp_run_id c") (auto simp: revisions_def)
    with same show ?thesis by (simp add: evolves_def store_log_def)
  qed simp
next
  case (rotate_step s owner presented new_hash res)
  then show ?thesis by (intro evolves_same) (auto simp: rotate_eq split: option.splits if_splits)
next
  case (workspace_step w res)
  then show ?thesis by (intro evolves_same) (auto simp: upsert_workspace_def split: option.splits)
qed (auto intro!: evolves_same simp: save_principal_def)

lemma store_steps_evolve:
  assumes "store_step\<^sup>*\<^sup>* st st'" and "store_ok st"
  shows "store_ok st' \<and> evolves st st'"
  using assms
proof (induction rule: rtranclp_induct)
  case (step y z)
  then have y: "store_ok y" "evolves st y" by simp_all
  with store_step_ok [OF step(2)] store_step_evolves [OF step(2)] evolves_trans show ?case by blast
qed simp

text \<open>
  C9. History is append-only. From any reachable store on, whatever operations follow and
  whether they succeed or fail: the event log only grows at its end, with higher sequence
  numbers; a run is never removed, its execution context never changes, and its start and end
  times are written once; artifacts and checkpoint revisions are never changed or removed.
\<close>

theorem history_is_append_only:
  assumes "store_step\<^sup>*\<^sup>* memory_store_new st" and "store_step\<^sup>*\<^sup>* st st'"
  shows "evolves st st'"
proof -
  have "store_ok st" using store_steps_evolve [OF assms(1) store_ok_new] by blast
  with store_steps_evolve [OF assms(2)] show ?thesis by blast
qed

text \<open>
  C11. A client that has read a run's events and comes back later, after any operations, with the
  latest sequence it was told, gets exactly the run's events that were written since, in order,
  none missing and none twice (its limit permitting).
\<close>

theorem run_reader_catches_up:
  assumes st: "store_step\<^sup>*\<^sup>* memory_store_new st" and st': "store_step\<^sup>*\<^sup>* st st'"
    and seen: "rr'_latest_sequence (read_run_events q st) = cursor"
  shows "\<exists>new. store_log st' = store_log st @ new \<and>
    rr'_records (read_run_events (q\<lparr>rq'_after_sequence := cursor\<rparr>) st') =
      take (rq'_limit q) (filter (of_run q) new)"
proof -
  have ok: "store_ok st" using store_steps_evolve [OF st store_ok_new] by blast
  have ok': "store_ok st'" and "evolves st st'" using store_steps_evolve [OF st' ok] by blast+
  then obtain new where new: "store_log st' = store_log st @ new"
    "\<forall>r\<in>set new. ms_next_event_sequence st \<le> ev_sequence r"
    unfolding evolves_def by blast
  let ?q = "q\<lparr>rq'_after_sequence := cursor\<rparr>"
  have same: "of_run ?q = of_run q" by (intro ext) (simp add: of_run_def)
  have "cursor = last_sequence (filter (of_run q) (store_log st))"
    using seen by (simp add: read_run_events_def run_range_eq store_log_def)
  then have "filter (after_run_cursor ?q) (store_log st') = filter (of_run ?q) new"
    using mem.resume_run [of st st' new ?q] ok ok' new unfolding same store_ok_def by simp
  with new(1) show ?thesis
    by (auto simp: read_run_events_def run_range_eq store_log_def same)
qed

section \<open>Session authority\<close>

text \<open>
  Rotating a session's authority. It happens only for the session's owner presenting the
  current or the recovery hash, and then the generation goes up and exactly the new hash is
  accepted, together with the presented one if that was the current one; a second rotation with
  the recovery hash makes every older hash useless. Anything else leaves the store as it was.
\<close>

theorem session_authority_rotation:
  "rotate_session_authority s owner presented new_hash st =
     (case bt_get (ms_sessions st) s of
        None \<Rightarrow> (st, Ok None)
      | Some x \<Rightarrow> if accepts x owner presented
          then (st\<lparr>ms_sessions := bt_put s (rotated x presented new_hash) (ms_sessions st)\<rparr>,
            Ok (Some (rotated x presented new_hash)))
          else (st, Ok None)) \<and>
   (accepts (rotated x presented new_hash) p h =
     (p = sn_owner_principal_id x \<and> (h = new_hash \<or> (h = presented \<and> presented = sn_current_hash x)))) \<and>
   sn_current_generation (rotated x presented new_hash) = min u64_max (sn_current_generation x + 1)"
  by (auto simp: rotate_eq accepts_def rotated_def sat_add_def)

section \<open>Failed commits\<close>

text \<open>
  Reconciliation at startup is all or nothing: it commits every transition in order, each on
  the store the one before it left, or, when one of them fails, leaves the store exactly as it was.
\<close>

theorem startup_reconciliation_atomic:
  "case commit_startup_reconciliation ts st of
     (st', Inl e) \<Rightarrow> st' = st \<and> (\<exists>st1. reconcile_loop ts [] st = (st1, Err e))
   | (st', Inr rs) \<Rightarrow> length rs = length ts \<and>
       fold (\<lambda>t s. fst (commit_run_transition t s)) ts st = st'"
proof -
  have "case reconcile_loop ts rs st of (st', Inl e) \<Rightarrow> True
      | (st', Inr rs') \<Rightarrow> length rs' = length rs + length ts \<and> fold (\<lambda>t s. fst (commit_run_transition t s)) ts st = st'"
    for rs
  proof (induction ts arbitrary: rs st)
    case (Cons t ts)
    show ?case
    proof (cases "commit_run_transition t st")
      case (Pair st1 res)
      show ?thesis
      proof (cases res)
        case (Inr r)
        then show ?thesis using Pair Cons.IH [of "rs @ [r]" st1] by (auto split: prod.splits sum.splits)
      qed (use Pair in simp)
    qed
  qed simp
  from this [of "[]"] show ?thesis
    by (auto simp: commit_startup_reconciliation_def split: prod.splits sum.splits)
qed

lemma unlogged_same: "unlogged st' = unlogged st \<Longrightarrow>
    st' = st\<lparr>ms_events := ms_events st', ms_next_event_sequence := ms_next_event_sequence st',
      ms_agent_turn_rows := ms_agent_turn_rows st', ms_in_flight := ms_in_flight st'\<rparr>"
  by (cases st; cases st') (simp add: unlogged_def)

text \<open>
  C31. As long as the counter of sequence numbers has room, a run transition that fails is not rolled back, but what it leaves behind is known
  exactly: either nothing changed, or every check of the transition had passed and the agent-stream
  projection rejected its event number k, with the error that is answered. Then the durable ones
  among the k events before it are at the end of the log, k + 1 sequence numbers are used up, and
  besides the log, the counter, and the tables and rows of the agent stream nothing has changed: the
  run, the session and every other table are as before.
\<close>

theorem failed_transition_effect:
  assumes "store_ok st" and "room (length (ct_events input)) st"
    and "commit_run_transition input st = (st', Err e)"
  shows "st' = st \<or> (\<exists>session k. transition_checked input st session \<and> k < length (ct_events input) \<and>
    apply_agent_stream_event (ms_in_flight st') \<lparr>ev_sequence = ms_next_event_sequence st + k,
      ev_session_id = ct_session_id input, ev_occurred_at_ms = ct_occurred_at_ms input,
      ev_payload = ct_events input ! k\<rparr> = Err e \<and>
    map ev_payload (store_log st') = map ev_payload (store_log st) @ filter durable (take k (ct_events input)) \<and>
    st' = st\<lparr>ms_events := ms_events st', ms_next_event_sequence := ms_next_event_sequence st + k + 1,
      ms_agent_turn_rows := ms_agent_turn_rows st', ms_in_flight := ms_in_flight st'\<rparr>)"
  using assms(3)
proof (cases rule: run_transition_cases)
  case (failed session st1 err)
  from assms(1) have inv: "log_ok st" "rows_ok st" by (simp_all add: store_ok_def)
  have payloads: "map ev_payload (persisted_of (stamped input n ps)) = filter durable ps" for n ps
    by (induction ps arbitrary: n) simp_all
  from emit_events_err [OF failed(2) inv disjI1 [OF assms(2)]] failed(3,4) obtain k where
    k: "unlogged st' = unlogged st" "k < length (ct_events input)"
      "store_log st' = store_log st @ persisted_of (stamped input (ms_next_event_sequence st) (take k (ct_events input)))"
      "ms_next_event_sequence st' = ms_next_event_sequence st + k + 1"
      "apply_agent_stream_event (ms_in_flight st') \<lparr>ev_sequence = ms_next_event_sequence st + k,
        ev_session_id = ct_session_id input, ev_occurred_at_ms = ct_occurred_at_ms input,
        ev_payload = ct_events input ! k\<rparr> = Err e" by auto
  show ?thesis
    using failed(1) k(2,3,5) payloads unlogged_same [OF k(1), unfolded k(4)] by auto
next
  case (committed session em pe st1)
  from finish_transition_fields(11) [OF committed(3)] show ?thesis by auto
qed simp

section \<open>Witnesses\<close>

definition demo_workspace :: workspace where
  "demo_workspace = \<lparr>ws_id = Ident ''w'', ws_root_realpath = WorkspacePath ''/w'', ws_display_name = ''w'',
     ws_trust_state = Unverified, ws_git_repo_root = None, ws_created_at = ''0'', ws_last_used_at = ''0''\<rparr>"

definition demo_session :: session_projection where
  "demo_session = \<lparr>sn_id = Ident ''s'', sn_owner_client_name = ''c'', sn_owner_principal_id = ''p'',
     sn_current_hash = ''h0'', sn_current_generation = 0, sn_recovery_hash = None, sn_recovery_generation = None,
     sn_title = ''t'', sn_status = SessIdle, sn_workspace_id = Ident ''w''\<rparr>"

definition demo_run_event :: daemon_event where
  "demo_run_event = EvRun \<lparr>re_run_id = Ident ''r'', re_status = Running, re_detail = ''go'',
     re_output_contract = None, re_recipe_id = None, re_result = None\<rparr>"

definition demo_frame_event :: "agent_stream_frame \<Rightarrow> daemon_event" where
  "demo_frame_event f = EvAgentStream \<lparr>as_run_id = Ident ''r'',
     as_emission = \<lparr>em_turn_id = None, em_item_id = None, em_fragment_sequence = None, em_frame = f\<rparr>\<rparr>"

definition demo_transition :: "daemon_event list \<Rightarrow> run_transition" where
  "demo_transition es = \<lparr>ct_session_id = Ident ''s'', ct_run = demo_run ''s'' ''r'' Running None,
     ct_events = es, ct_occurred_at_ms = 9\<rparr>"

text \<open>A workspace, an open session, and a first run that is streaming.\<close>

definition demo_store1 :: memory_store where
  "demo_store1 = fst (upsert_workspace demo_workspace memory_store_new)"

definition demo_store2 :: memory_store where
  "demo_store2 = fst (commit_session_open demo_session 5 demo_store1)"

definition demo_first :: run_transition where
  "demo_first = demo_transition [demo_run_event, demo_frame_event AssistantTurnStarted,
     demo_frame_event (AssistantMessageDelta ''hi'')]"

definition demo_store3 :: memory_store where
  "demo_store3 = fst (commit_run_transition demo_first demo_store2)"

lemma demo_store1_eq: "demo_store1 = memory_store_new\<lparr>ms_workspaces := [(Ident ''w'', demo_workspace)]\<rparr>"
  by (simp add: demo_store1_def upsert_workspace_def memory_store_new_def bt_put_def)
     (simp add: demo_workspace_def)

definition demo_opened :: event_record where
  "demo_opened = \<lparr>ev_sequence = 1, ev_session_id = Ident ''s'', ev_occurred_at_ms = 5,
     ev_payload = EvSession \<lparr>se_session_id = Ident ''s'', se_status = SessIdle\<rparr>\<rparr>"

lemma demo_store2_eq:
  "demo_store2 = demo_store1\<lparr>ms_sessions := [(Ident ''s'', demo_session)], ms_events := [(1, demo_opened)],
     ms_next_event_sequence := 2, ms_next_commit_id := 2\<rparr>"
  by (simp add: demo_store2_def demo_store1_eq commit_session_open_def append_seed_event_def insert_row_def
      apply_agent_stream_event_def memory_store_new_def next_commit_def bt_put_def bt_contains_def sat_add_def
      u64_max_def wrap_add_def Let_def demo_opened_def) (simp add: demo_session_def)

lemma demo_reachable2: "store_step\<^sup>*\<^sup>* memory_store_new demo_store2"
proof -
  have "store_step memory_store_new demo_store1"
    by (rule workspace_step [of demo_workspace _ _ "snd (upsert_workspace demo_workspace memory_store_new)"])
       (simp add: demo_store1_def)
  moreover have "store_step demo_store1 demo_store2"
    by (rule open_step [of demo_session 5 _ _ "snd (commit_session_open demo_session 5 demo_store1)"])
       (simp_all add: demo_store2_def room_def demo_store1_eq memory_store_new_def u64_max_def)
  ultimately show ?thesis by (meson r_into_rtranclp rtranclp_trans)
qed

lemma demo_room2: "room (length (ct_events demo_first)) demo_store2" "room 2 demo_store2"
  by (simp_all add: room_def demo_store2_eq u64_max_def demo_first_def demo_transition_def)

lemma demo_step23: "store_step demo_store2 demo_store3"
  by (rule transition_step [of demo_first _ _ "snd (commit_run_transition demo_first demo_store2)"])
     (use demo_room2(1) in \<open>simp_all add: demo_store3_def room_to\<close>)

theorem reachable_stores_are_ok_witness: "store_ok demo_store2"
  using reachable_stores_are_ok [OF demo_reachable2] .

lemma demo_accepted: "is_ok (snd (commit_run_transition demo_first demo_store2))"
  by (simp add: commit_run_transition_def demo_store2_eq demo_store1_eq memory_store_new_def
      demo_first_def demo_transition_def demo_run_event_def demo_frame_event_def demo_run_def
      validate_run_execution_context_def validate_run_transition_events_def session_records_def demo_opened_def
      fold_session_records_def apply_daemon_event_def validate_run_transition_def apply_agent_stream_event_def
      Let_def insert_row_def bt_contains_def finish_transition_def next_commit_def split_def mk_turn_key_def)

theorem run_transition_commits_witness:
  "\<exists>r. snd (commit_run_transition demo_first demo_store2) = Ok r \<and>
     map ev_sequence (cr_events r) = [2, 3, 4] \<and> store_log demo_store3 = store_log demo_store2 @ cr_persisted_events r"
proof -
  obtain r where "commit_run_transition demo_first demo_store2 = (demo_store3, Ok r)"
    using demo_accepted unfolding is_ok_iff demo_store3_def by (metis prod.collapse)
  moreover have "store_ok demo_store2" using store_steps_evolve [OF demo_reachable2 store_ok_new] by blast
  moreover note demo_room2(1)
  moreover have "length (ct_events demo_first) = 3" "ms_next_event_sequence demo_store2 = 2"
    by (simp_all add: demo_first_def demo_transition_def demo_store2_eq)
  moreover have "[2..<2 + 3] = [2, 3, 4::nat]" by (simp add: upt_rec)
  ultimately show ?thesis using run_transition_commits [of demo_store2 demo_first demo_store3 r] by simp
qed

theorem history_is_append_only_witness: "evolves demo_store2 demo_store3"
  using history_is_append_only [OF demo_reachable2 r_into_rtranclp, OF demo_step23] .

theorem run_reader_catches_up_witness:
  "\<exists>new. store_log demo_store3 = store_log demo_store2 @ new \<and>
    rr'_records (read_run_events (demo_run_query\<lparr>rq'_after_sequence := None\<rparr>) demo_store3) =
      take 2 (filter (of_run demo_run_query) new)"
proof -
  have "rr'_latest_sequence (read_run_events demo_run_query demo_store2) = None"
    by (simp add: read_run_events_def run_range_eq demo_store2_eq demo_run_query_def demo_opened_def of_run_def)
  from run_reader_catches_up [OF demo_reachable2 r_into_rtranclp this, OF demo_step23]
  show ?thesis by (simp add: demo_run_query_def)
qed

text \<open>A transition whose second event the agent-stream projection rejects.\<close>

definition demo_bad :: run_transition where
  "demo_bad = demo_transition [demo_run_event, demo_frame_event AssistantTurnCompleted]"

text \<open>The commit fails, yet its first event is in the log, and the run it tells of is not stored.\<close>

lemma run_transition_not_atomic:
  "\<not> is_ok (snd (commit_run_transition demo_bad demo_store2)) \<and>
   map ev_payload (store_log (fst (commit_run_transition demo_bad demo_store2))) =
     [ev_payload demo_opened, demo_run_event] \<and>
   bt_get (ms_runs (fst (commit_run_transition demo_bad demo_store2))) (Ident ''r'') = None"
  by (simp add: commit_run_transition_def demo_store2_eq demo_store1_eq memory_store_new_def
      demo_bad_def demo_transition_def demo_run_event_def demo_frame_event_def demo_run_def
      validate_run_execution_context_def validate_run_transition_events_def session_records_def demo_opened_def
      fold_session_records_def apply_daemon_event_def validate_run_transition_def apply_agent_stream_event_def
      Let_def insert_row_def bt_contains_def finish_transition_def next_commit_def split_def store_log_def
      bt_put_def mk_turn_key_def)

theorem failed_transition_effect_witness:
  "\<exists>st' e k. commit_run_transition demo_bad demo_store2 = (st', Err e) \<and> st' \<noteq> demo_store2 \<and> k < 2 \<and>
     ms_runs st' = ms_runs demo_store2 \<and>
     map ev_payload (store_log st') = map ev_payload (store_log demo_store2) @ filter durable (take k (ct_events demo_bad))"
proof -
  obtain st' e where run: "commit_run_transition demo_bad demo_store2 = (st', Err e)"
    using run_transition_not_atomic by (cases "commit_run_transition demo_bad demo_store2"; cases "snd (commit_run_transition demo_bad demo_store2)") auto
  have ok: "store_ok demo_store2" using store_steps_evolve [OF demo_reachable2 store_ok_new] by blast
  have two: "length (ct_events demo_bad) = 2" by (simp add: demo_bad_def demo_transition_def)
  have room: "room (length (ct_events demo_bad)) demo_store2"
    unfolding two by (rule demo_room2(2))
  have "length (store_log st') \<noteq> length (store_log demo_store2)"
  proof -
    have "length (map ev_payload (store_log st')) = 2" using run_transition_not_atomic run by simp
    then show ?thesis by (simp add: demo_store2_eq store_log_def)
  qed
  then have changed: "st' \<noteq> demo_store2" by auto
  from failed_transition_effect [OF ok room run] changed obtain k where k: "k < 2"
      "map ev_payload (store_log st') = map ev_payload (store_log demo_store2) @ filter durable (take k (ct_events demo_bad))"
      "st' = demo_store2\<lparr>ms_events := ms_events st', ms_next_event_sequence := ms_next_event_sequence demo_store2 + k + 1,
        ms_agent_turn_rows := ms_agent_turn_rows st', ms_in_flight := ms_in_flight st'\<rparr>"
    unfolding two by blast
  from arg_cong [OF k(3), of ms_runs] k(1,2) run changed show ?thesis by auto
qed

end
