(* ===== verification/Scheduler.thy ===== *)
theory Scheduler
  imports Projections
begin

text \<open>
  The run scheduler (\<open>crates/ta-orchestrator/src/orchestration/scheduler.rs\<close>): per session a set
  of active runs and a queue of waiting ones; starting, finishing, and rebuilding both from the
  store at startup. The mutex makes every operation atomic, so an operation is a function on
  the table it guards.
\<close>

section \<open>State and operations\<close>

definition max_queued_runs_per_session :: nat where
  "max_queued_runs_per_session = 32"

datatype disposition = StartNow | QueuedAt nat

datatype scheduling_policy = QueueIfBusy | ParallelIfBusy

record rehydrate_plan =
  rp_demote_to_queued :: "(session_id \<times> run_id) list"
  rp_promote_from_queue :: "(session_id \<times> run_id) list"

datatype scheduler_error = QueueFull string

record queued_run =
  qr_run_id :: run_id
  qr_policy :: scheduling_policy

record session_run_schedule =
  sr_active :: "run_id set"
  sr_queued :: "queued_run list"

record run_scheduler =
  rsch_inner :: "(session_id, session_run_schedule) btree"
  rsch_max :: nat

definition empty_schedule :: session_run_schedule where
  "empty_schedule = \<lparr>sr_active = {}, sr_queued = []\<rparr>"

lemma empty_schedule_simps [simp]: "sr_active empty_schedule = {}" "sr_queued empty_schedule = []"
  by (simp_all add: empty_schedule_def)

definition run_scheduler_new :: run_scheduler where
  "run_scheduler_new = \<lparr>rsch_inner = [], rsch_max = max_queued_runs_per_session\<rparr>"

definition can_start_now :: "session_run_schedule \<Rightarrow> scheduling_policy \<Rightarrow> bool" where
  "can_start_now sched policy \<longleftrightarrow>
     sr_queued sched = [] \<and> (sr_active sched = {} \<or> policy = ParallelIfBusy)"

definition schedule_of :: "run_scheduler \<Rightarrow> session_id \<Rightarrow> session_run_schedule" where
  "schedule_of sch s = (case bt_get (rsch_inner sch) s of None \<Rightarrow> empty_schedule | Some x \<Rightarrow> x)"

definition set_schedule :: "session_id \<Rightarrow> session_run_schedule \<Rightarrow> run_scheduler \<Rightarrow> run_scheduler" where
  "set_schedule s x sch = sch\<lparr>rsch_inner := bt_put s x (rsch_inner sch)\<rparr>"

text \<open>\<open>entry(session).or_default()\<close>: the schedule is in the table whatever the answer is.\<close>

definition schedule_start_with_policy :: "session_id \<Rightarrow> run_id \<Rightarrow> scheduling_policy \<Rightarrow> run_scheduler \<Rightarrow>
    run_scheduler \<times> (disposition, scheduler_error) result" where
  "schedule_start_with_policy s i policy sch =
     (let x = schedule_of sch s
      in if can_start_now x policy
         then (set_schedule s (x\<lparr>sr_active := insert i (sr_active x)\<rparr>) sch, Ok StartNow)
         else if rsch_max sch \<le> length (sr_queued x)
         then (set_schedule s x sch, Err (QueueFull (as_str s)))
         else let x' = x\<lparr>sr_queued := sr_queued x @ [\<lparr>qr_run_id = i, qr_policy = policy\<rparr>]\<rparr>
              in (set_schedule s x' sch, Ok (QueuedAt (length (sr_queued x')))))"

definition schedule_start :: "session_id \<Rightarrow> run_id \<Rightarrow> run_scheduler \<Rightarrow>
    run_scheduler \<times> (disposition, scheduler_error) result" where
  "schedule_start s i sch = schedule_start_with_policy s i QueueIfBusy sch"

text \<open>\<open>position\<close> followed by \<open>remove\<close>: the first waiting entry of the run, if any.\<close>

fun remove_queued :: "run_id \<Rightarrow> queued_run list \<Rightarrow> queued_run list" where
  "remove_queued i [] = []"
| "remove_queued i (q # qs) = (if qr_run_id q = i then qs else q # remove_queued i qs)"

definition finish_run :: "session_id \<Rightarrow> run_id \<Rightarrow> run_scheduler \<Rightarrow> run_scheduler \<times> run_id option" where
  "finish_run s i sch =
     (case bt_get (rsch_inner sch) s of
        None \<Rightarrow> (sch, None)
      | Some x \<Rightarrow>
          if i \<in> sr_active x
          then let x1 = x\<lparr>sr_active := sr_active x - {i}\<rparr>
            in (if sr_active x1 = {}
                then (case sr_queued x1 of
                   [] \<Rightarrow> (set_schedule s x1 sch, None)
                 | q # qs \<Rightarrow> (set_schedule s (x1\<lparr>sr_active := insert (qr_run_id q) (sr_active x1), sr_queued := qs\<rparr>) sch,
                     Some (qr_run_id q)))
                else (set_schedule s x1 sch, None))
          else (set_schedule s (x\<lparr>sr_queued := remove_queued i (sr_queued x)\<rparr>) sch, None))"

section \<open>Rebuilding from the store\<close>

definition scheduling_policy_for_run :: "run_projection \<Rightarrow> scheduling_policy" where
  "scheduling_policy_for_run run =
     (case rn_source run of
        SourceNativeSubagent _ _ _ _ _ scope _ _ \<Rightarrow>
          if scope = ModeWorktreeWrite then ParallelIfBusy else QueueIfBusy
      | _ \<Rightarrow> QueueIfBusy)"

fun first_run_event_sequence :: "event_record list \<Rightarrow> run_id \<Rightarrow> nat option" where
  "first_run_event_sequence [] i = None"
| "first_run_event_sequence (r # rs) i =
     (case ev_payload r of
        EvRun e \<Rightarrow> if re_run_id e = i then Some (ev_sequence r) else first_run_event_sequence rs i
      | _ \<Rightarrow> first_run_event_sequence rs i)"

definition live :: "run_projection \<Rightarrow> bool" where
  "live run \<longleftrightarrow> rn_status run \<in> {Queued, WaitingForApproval, Running}"

definition group_push :: "run_projection \<Rightarrow> (session_id, run_projection list) btree \<Rightarrow>
    (session_id, run_projection list) btree" where
  "group_push run m = bt_put (rn_session_id run)
     ((case bt_get m (rn_session_id run) of None \<Rightarrow> [] | Some rs \<Rightarrow> rs) @ [run]) m"

definition group_runs :: "run_projection list \<Rightarrow> (session_id, run_projection list) btree" where
  "group_runs runs = fold group_push (filter live runs) []"

definition rehydrate_key :: "event_record list \<Rightarrow> run_projection \<Rightarrow> nat \<times> string" where
  "rehydrate_key events run =
     (case first_run_event_sequence events (rn_id run) of None \<Rightarrow> u64_max | Some n \<Rightarrow> n, as_str (rn_id run))"

text \<open>One run of the session: the schedule and the runs demoted so far.\<close>

definition rehydrate_run :: "run_projection \<Rightarrow> session_run_schedule \<times> run_id list \<Rightarrow>
    session_run_schedule \<times> run_id list" where
  "rehydrate_run run acc =
     (case acc of (x, demoted) \<Rightarrow>
        let policy = scheduling_policy_for_run run;
            queued = x\<lparr>sr_queued := sr_queued x @ [\<lparr>qr_run_id = rn_id run, qr_policy = policy\<rparr>]\<rparr>
        in if rn_status run \<in> {WaitingForApproval, Running}
           then if can_start_now x policy then (x\<lparr>sr_active := insert (rn_id run) (sr_active x)\<rparr>, demoted)
                else (queued, demoted @ [rn_id run])
           else if rn_status run = Queued then (queued, demoted)
           else (x, demoted))"

definition rehydrate_session :: "event_record list \<Rightarrow> run_projection list \<Rightarrow>
    session_run_schedule \<times> run_id list \<times> run_id list" where
  "rehydrate_session events runs =
     (let sorted = sort_key (rehydrate_key events) runs;
          (x, demoted) = fold rehydrate_run sorted (empty_schedule, [])
      in if sr_active x = {}
         then (case sr_queued x of
             [] \<Rightarrow> (x, demoted, [])
           | q # qs \<Rightarrow> (x\<lparr>sr_active := insert (qr_run_id q) (sr_active x), sr_queued := qs\<rparr>, demoted, [qr_run_id q]))
         else (x, demoted, []))"

fun rehydrate_loop :: "event_record list \<Rightarrow> (session_id \<times> run_projection list) list \<Rightarrow>
    (session_id, session_run_schedule) btree \<Rightarrow> rehydrate_plan \<Rightarrow>
    (session_id, session_run_schedule) btree \<times> rehydrate_plan" where
  "rehydrate_loop events [] m plan = (m, plan)"
| "rehydrate_loop events ((s, runs) # groups) m plan =
     (case rehydrate_session events runs of (x, demoted, promoted) \<Rightarrow>
        rehydrate_loop events groups
          (if sr_active x \<noteq> {} \<or> sr_queued x \<noteq> [] then bt_put s x m else m)
          \<lparr>rp_demote_to_queued = rp_demote_to_queued plan @ map (Pair s) demoted,
           rp_promote_from_queue = rp_promote_from_queue plan @ map (Pair s) promoted\<rparr>)"

definition rehydrate_from_store :: "run_projection list \<Rightarrow> event_record list \<Rightarrow> run_scheduler \<Rightarrow>
    run_scheduler \<times> rehydrate_plan" where
  "rehydrate_from_store runs events sch =
     (case rehydrate_loop events (group_runs runs) []
             \<lparr>rp_demote_to_queued = [], rp_promote_from_queue = []\<rparr> of
        (m, plan) \<Rightarrow> (sch\<lparr>rsch_inner := m\<rparr>, plan))"

section \<open>No run waits while nothing runs\<close>

text \<open>The invariant of a schedule: a run waits only while another is active.\<close>

definition busy_if_waiting :: "session_run_schedule \<Rightarrow> bool" where
  "busy_if_waiting x \<longleftrightarrow> (sr_queued x \<noteq> [] \<longrightarrow> sr_active x \<noteq> {})"

definition scheduler_ok :: "run_scheduler \<Rightarrow> bool" where
  "scheduler_ok sch \<longleftrightarrow> (\<forall>s x. bt_get (rsch_inner sch) s = Some x \<longrightarrow> busy_if_waiting x)"

lemma schedule_of_ok: "scheduler_ok sch \<Longrightarrow> busy_if_waiting (schedule_of sch s)"
  by (auto simp: scheduler_ok_def schedule_of_def busy_if_waiting_def empty_schedule_def split: option.splits)

lemma scheduler_ok_set: "scheduler_ok sch \<Longrightarrow> busy_if_waiting x \<Longrightarrow> scheduler_ok (set_schedule s x sch)"
  by (auto simp: scheduler_ok_def set_schedule_def)

lemma schedule_of_set [simp]:
  "schedule_of (set_schedule s x sch) t = (if t = s then x else schedule_of sch t)"
  "rsch_max (set_schedule s x sch) = rsch_max sch"
  by (simp_all add: schedule_of_def set_schedule_def)

lemma start_ok: "scheduler_ok sch \<Longrightarrow> scheduler_ok (fst (schedule_start_with_policy s i policy sch))"
  using schedule_of_ok [of sch s]
  by (auto simp: schedule_start_with_policy_def Let_def can_start_now_def busy_if_waiting_def
      intro!: scheduler_ok_set)

lemma finish_ok: "scheduler_ok sch \<Longrightarrow> scheduler_ok (fst (finish_run s i sch))"
proof -
  assume ok: "scheduler_ok sch"
  show ?thesis
  proof (cases "bt_get (rsch_inner sch) s")
    case (Some x)
    have busy: "busy_if_waiting x" using ok Some by (simp add: scheduler_ok_def)
    have "remove_queued i [] = []" by simp
    with busy have b: "busy_if_waiting (x\<lparr>sr_queued := remove_queued i (sr_queued x)\<rparr>)"
      by (cases "sr_queued x") (simp_all add: busy_if_waiting_def)
    show ?thesis
    proof (cases "i \<in> sr_active x")
      case True
      consider (promote) q qs where "sr_active x - {i} = {}" "sr_queued x = q # qs"
        | (keep) "sr_active x - {i} \<noteq> {} \<or> sr_queued x = []" by (cases "sr_queued x") auto
      then show ?thesis
      proof cases
        case promote
        then have a: "sr_active x = {i}" using True by blast
        have "busy_if_waiting (x\<lparr>sr_active := {qr_run_id q}, sr_queued := qs\<rparr>)"
          by (simp add: busy_if_waiting_def)
        from scheduler_ok_set [OF ok this] show ?thesis using Some promote(2)
          by (simp add: finish_run_def a)
      next
        case keep
        then have "busy_if_waiting (x\<lparr>sr_active := sr_active x - {i}\<rparr>)" by (auto simp: busy_if_waiting_def)
        from scheduler_ok_set [OF ok this] show ?thesis using Some True keep
          by (auto simp: finish_run_def Let_def simp del: Diff_eq_empty_iff)
      qed
    next
      case False
      then show ?thesis using Some scheduler_ok_set [OF ok b] by (simp add: finish_run_def)
    qed
  qed (use ok in \<open>simp add: finish_run_def\<close>)
qed

lemma rehydrate_session_ok: "busy_if_waiting (fst (rehydrate_session events runs))"
  by (auto simp: rehydrate_session_def busy_if_waiting_def Let_def split: prod.splits list.splits)

lemma rehydrate_loop_ok:
  assumes "\<forall>s x. bt_get m s = Some x \<longrightarrow> busy_if_waiting x" and "rehydrate_loop events groups m plan = (m', plan')"
  shows "\<forall>s x. bt_get m' s = Some x \<longrightarrow> busy_if_waiting x"
  using assms
proof (induction events groups m plan rule: rehydrate_loop.induct)
  case (2 events s runs groups m plan)
  obtain x demoted promoted where x: "rehydrate_session events runs = (x, demoted, promoted)"
    by (cases "rehydrate_session events runs") auto
  have "busy_if_waiting x" using rehydrate_session_ok [of events runs] x by simp
  then have "\<forall>t y. bt_get (if sr_active x \<noteq> {} \<or> sr_queued x \<noteq> [] then bt_put s x m else m) t = Some y \<longrightarrow>
      busy_if_waiting y"
    using "2.prems"(1) by simp
  from "2.IH" [OF x [symmetric] refl this] "2.prems"(2) x show ?case by simp
qed simp

datatype scheduler_op =
    OpStart session_id run_id scheduling_policy
  | OpFinish session_id run_id
  | OpRehydrate "run_projection list" "event_record list"

fun scheduler_step :: "scheduler_op \<Rightarrow> run_scheduler \<Rightarrow> run_scheduler" where
  "scheduler_step (OpStart s i policy) sch = fst (schedule_start_with_policy s i policy sch)"
| "scheduler_step (OpFinish s i) sch = fst (finish_run s i sch)"
| "scheduler_step (OpRehydrate runs events) sch = fst (rehydrate_from_store runs events sch)"

lemma scheduler_step_ok: "scheduler_ok sch \<Longrightarrow> scheduler_ok (scheduler_step op sch)"
proof (cases op)
  case (OpRehydrate runs events)
  obtain m plan where l: "rehydrate_loop events (group_runs runs) []
      \<lparr>rp_demote_to_queued = [], rp_promote_from_queue = []\<rparr> = (m, plan)" by fastforce
  have "\<forall>s x. bt_get m s = Some x \<longrightarrow> busy_if_waiting x" by (rule rehydrate_loop_ok [OF _ l]) simp
  then show ?thesis by (simp add: OpRehydrate rehydrate_from_store_def l scheduler_ok_def)
qed (simp_all add: start_ok finish_ok)

text \<open>
  C12. Whatever runs are started, finished, cancelled and restored in whatever order, no session
  ever has a waiting run while none is active: the queue cannot stall.
\<close>

theorem scheduler_never_stalls:
  "busy_if_waiting (schedule_of (fold scheduler_step ops run_scheduler_new) s)"
proof -
  have "scheduler_ok (fold scheduler_step ops sch)" if "scheduler_ok sch" for sch
    using that by (induction ops arbitrary: sch) (simp_all add: scheduler_step_ok)
  moreover have "scheduler_ok run_scheduler_new" by (simp add: scheduler_ok_def run_scheduler_new_def)
  ultimately show ?thesis using schedule_of_ok by blast
qed

text \<open>
  A start request is answered on every branch: it starts at once only if nothing waits, and
  then only if the session is idle or the run may run in parallel; otherwise it is appended to
  the queue with its position, or refused when 32 runs wait already. The queue never grows
  beyond the limit, other sessions are untouched.
\<close>

theorem schedule_start_spec:
  assumes x: "x = schedule_of sch s" and r: "schedule_start_with_policy s i policy sch = (sch', r)"
  shows "(case r of
      Inr StartNow \<Rightarrow> sr_queued x = [] \<and> (sr_active x = {} \<or> policy = ParallelIfBusy) \<and>
        schedule_of sch' s = x\<lparr>sr_active := insert i (sr_active x)\<rparr>
    | Inr (QueuedAt n) \<Rightarrow> length (sr_queued x) < rsch_max sch \<and> n = length (sr_queued x) + 1 \<and>
        (sr_queued x \<noteq> [] \<or> (sr_active x \<noteq> {} \<and> policy = QueueIfBusy)) \<and>
        schedule_of sch' s = x\<lparr>sr_queued := sr_queued x @ [\<lparr>qr_run_id = i, qr_policy = policy\<rparr>]\<rparr>
    | Inl e \<Rightarrow> e = QueueFull (as_str s) \<and> rsch_max sch \<le> length (sr_queued x) \<and> schedule_of sch' s = x) \<and>
    (\<forall>t. t \<noteq> s \<longrightarrow> schedule_of sch' t = schedule_of sch t) \<and>
    length (sr_queued (schedule_of sch' s)) \<le> max (rsch_max sch) (length (sr_queued x))"
  using r [symmetric] x
  by (cases policy) (auto simp: schedule_start_with_policy_def Let_def can_start_now_def split: if_splits)

section \<open>First come, first served\<close>

text \<open>
  What a client sees of one session: \<open>line\<close>, the runs that were told to wait and not withdrawn
  since, in the order of their requests, and \<open>promoted\<close>, the runs that were started from the
  queue, in the order they were announced.
\<close>

record client_view =
  cv_line :: "run_id list"
  cv_promoted :: "run_id list"

datatype session_op = Start run_id scheduling_policy | Finish run_id

fun observe :: "session_id \<Rightarrow> session_op \<Rightarrow> run_scheduler \<times> client_view \<Rightarrow> run_scheduler \<times> client_view" where
  "observe s (Start i policy) (sch, v) =
     (case schedule_start_with_policy s i policy sch of
        (sch', Inr (QueuedAt _)) \<Rightarrow> (sch', v\<lparr>cv_line := cv_line v @ [i]\<rparr>)
      | (sch', _) \<Rightarrow> (sch', v))"
| "observe s (Finish i) (sch, v) =
     (case finish_run s i sch of
        (sch', Some j) \<Rightarrow> (sch', v\<lparr>cv_promoted := cv_promoted v @ [j]\<rparr>)
      | (sch', None) \<Rightarrow>
          (sch', if i \<in> set (cv_promoted v) then v else v\<lparr>cv_line := remove1 i (cv_line v)\<rparr>))"

fun starts :: "session_op list \<Rightarrow> run_id list" where
  "starts [] = []"
| "starts (Start i _ # ops) = i # starts ops"
| "starts (Finish _ # ops) = starts ops"

definition waiting :: "session_run_schedule \<Rightarrow> run_id list" where
  "waiting x = map qr_run_id (sr_queued x)"

lemma remove_queued_ids: "map qr_run_id (remove_queued i qs) = remove1 i (map qr_run_id qs)"
  by (induction qs) auto

lemma waiting_simps [simp]:
  "waiting (x\<lparr>sr_active := a\<rparr>) = waiting x"
  "waiting (x\<lparr>sr_queued := sr_queued x @ [q]\<rparr>) = waiting x @ [qr_run_id q]"
  "waiting (x\<lparr>sr_queued := remove_queued i (sr_queued x)\<rparr>) = remove1 i (waiting x)"
  "waiting empty_schedule = []"
  by (simp_all add: waiting_def remove_queued_ids empty_schedule_def)

lemma waiting_front: "sr_queued x = q # qs \<Longrightarrow> waiting x = qr_run_id q # waiting (x\<lparr>sr_active := a, sr_queued := qs\<rparr>)"
  by (simp add: waiting_def)

text \<open>Every run the session knows was requested; a waiting run is neither active nor promoted.\<close>

definition fifo_inv :: "session_id \<Rightarrow> run_id set \<Rightarrow> run_scheduler \<times> client_view \<Rightarrow> bool" where
  "fifo_inv s known p \<longleftrightarrow>
     (case p of (sch, v) \<Rightarrow> let x = schedule_of sch s
      in cv_line v = cv_promoted v @ waiting x \<and> distinct (cv_line v) \<and>
         set (cv_line v) \<subseteq> known \<and> sr_active x \<subseteq> known \<and> sr_active x \<inter> set (waiting x) = {})"

lemma fifo_start:
  assumes "fifo_inv s known (sch, v)" and "i \<notin> known"
  shows "fifo_inv s (insert i known) (observe s (Start i policy) (sch, v))"
  using assms
  by (auto simp: fifo_inv_def schedule_start_with_policy_def Let_def subset_iff)

lemma fifo_finish:
  assumes inv: "fifo_inv s known (sch, v)"
  shows "fifo_inv s known (observe s (Finish i) (sch, v))"
proof (cases "bt_get (rsch_inner sch) s")
  case None
  then have "finish_run s i sch = (sch, None)" and "waiting (schedule_of sch s) = []"
    by (simp_all add: finish_run_def schedule_of_def)
  with inv show ?thesis by (auto simp: fifo_inv_def Let_def remove1_idem)
next
  case (Some x)
  then have x: "schedule_of sch s = x" by (simp add: schedule_of_def)
  with inv have v: "cv_line v = cv_promoted v @ waiting x" "distinct (cv_line v)"
    "set (cv_line v) \<subseteq> known" "sr_active x \<subseteq> known" "sr_active x \<inter> set (waiting x) = {}"
    by (auto simp: fifo_inv_def Let_def)
  show ?thesis
  proof (cases "i \<in> sr_active x")
    case True
    then have "i \<notin> set (waiting x)" using v(5) by blast
    then have line: "(if i \<in> set (cv_promoted v) then v else v\<lparr>cv_line := remove1 i (cv_line v)\<rparr>) = v"
      using v(1) by (simp add: remove1_idem)
    show ?thesis
    proof (cases "sr_active x - {i} = {} \<and> sr_queued x \<noteq> []")
      case True
      then obtain q qs where q: "sr_queued x = q # qs" by (cases "sr_queued x") auto
      have a: "sr_active x = {i}" using True \<open>i \<in> sr_active x\<close> by blast
      with q Some have "finish_run s i sch =
          (set_schedule s (x\<lparr>sr_active := {qr_run_id q}, sr_queued := qs\<rparr>) sch, Some (qr_run_id q))"
        using a by (simp add: finish_run_def)
      with v waiting_front [OF q, of "{qr_run_id q}"] show ?thesis by (simp add: fifo_inv_def Let_def)
    next
      case False
      with \<open>i \<in> sr_active x\<close> Some have "finish_run s i sch =
          (set_schedule s (x\<lparr>sr_active := sr_active x - {i}\<rparr>) sch, None)"
        by (auto simp: finish_run_def Let_def split: list.splits simp del: Diff_eq_empty_iff)
      moreover have "sr_active x - {i} \<subseteq> known" "(sr_active x - {i}) \<inter> set (waiting x) = {}" using v(4,5) by auto
      ultimately show ?thesis using v line by (simp add: fifo_inv_def Let_def)
    qed
  next
    case False
    with Some have f: "finish_run s i sch = (set_schedule s (x\<lparr>sr_queued := remove_queued i (sr_queued x)\<rparr>) sch, None)"
      by (simp add: finish_run_def)
    show ?thesis
    proof (cases "i \<in> set (cv_promoted v)")
      case True
      with v(1,2) have "remove1 i (waiting x) = waiting x" by (auto intro!: remove1_idem)
      with f v True show ?thesis by (simp add: fifo_inv_def Let_def)
    next
      case False
      then have "remove1 i (cv_line v) = cv_promoted v @ remove1 i (waiting x)"
        using v(1) by (simp add: remove1_append)
      moreover have "set (remove1 i (cv_line v)) \<subseteq> known" "distinct (remove1 i (cv_line v))"
        "sr_active x \<inter> set (remove1 i (waiting x)) = {}"
        using v(2,3,5) set_remove1_subset [of i "cv_line v"] set_remove1_subset [of i "waiting x"] by auto
      ultimately show ?thesis using f v(4) False by (simp add: fifo_inv_def Let_def)
    qed
  qed
qed

definition served_line :: "session_id \<Rightarrow> session_op list \<Rightarrow> run_scheduler \<times> client_view" where
  "served_line s ops = fold (observe s) ops (run_scheduler_new, \<lparr>cv_line = [], cv_promoted = []\<rparr>)"

lemma fifo_run: "distinct (starts ops) \<Longrightarrow> fifo_inv s (set (starts ops)) (served_line s ops)"
proof -
  assume dist: "distinct (starts ops)"
  have "fifo_inv s (known \<union> set (starts ops)) (fold (observe s) ops p)"
    if "fifo_inv s known p" "distinct (starts ops)" "set (starts ops) \<inter> known = {}" for known p
    using that
  proof (induction ops arbitrary: known p)
    case (Cons op ops)
    obtain sch v where p: "p = (sch, v)" by (cases p)
    show ?case
    proof (cases op)
      case (Start i policy)
      have "fifo_inv s (insert i known) (observe s op p)"
        using fifo_start Cons.prems Start p by simp
      then have "fifo_inv s (insert i known \<union> set (starts ops)) (fold (observe s) ops (observe s op p))"
        using Cons.prems Start by (intro Cons.IH) auto
      then show ?thesis using Start by simp
    next
      case (Finish i)
      have "fifo_inv s known (observe s op p)" using fifo_finish Cons.prems Finish p by simp
      then have "fifo_inv s (known \<union> set (starts ops)) (fold (observe s) ops (observe s op p))"
        using Cons.prems Finish by (intro Cons.IH) auto
      then show ?thesis using Finish by simp
    qed
  qed simp
  from this [of "{}" "(run_scheduler_new, \<lparr>cv_line = [], cv_promoted = []\<rparr>)"] dist show ?thesis
    by (simp add: served_line_def fifo_inv_def run_scheduler_new_def schedule_of_def)
qed

lemma starts_append: "starts (past @ later) = starts past @ starts later"
  by (induction past rule: starts.induct) simp_all

lemma started_at_once:
  "snd (schedule_start_with_policy s i policy sch) = Ok StartNow \<Longrightarrow> waiting (schedule_of sch s) = []"
  by (auto simp: schedule_start_with_policy_def Let_def can_start_now_def waiting_def split: if_splits)

text \<open>
  C5. A session serves its queue first come, first served. For requests with distinct run ids,
  and whatever finishes and withdrawals come in between: the runs told to wait and not withdrawn
  are, in the order of their requests, the runs started from the queue so far followed by those
  still waiting, so none is lost or started twice; and a request is only answered with a start at
  once, whatever its policy, when every run that was told to wait before it and not withdrawn has
  been started, so no waiting run is ever overtaken.
\<close>

theorem scheduler_is_fifo:
  assumes "distinct (starts ops)"
  shows "cv_line (snd (served_line s ops)) =
      cv_promoted (snd (served_line s ops)) @ waiting (schedule_of (fst (served_line s ops)) s) \<and>
    (\<forall>past i policy later. ops = past @ Start i policy # later \<and>
      snd (schedule_start_with_policy s i policy (fst (served_line s past))) = Ok StartNow \<longrightarrow>
      cv_promoted (snd (served_line s past)) = cv_line (snd (served_line s past)))"
proof (intro conjI allI impI)
  show "cv_line (snd (served_line s ops)) =
      cv_promoted (snd (served_line s ops)) @ waiting (schedule_of (fst (served_line s ops)) s)"
    using fifo_run [OF assms, of s] by (auto simp: fifo_inv_def Let_def split: prod.splits)
  fix past i policy later
  assume start: "ops = past @ Start i policy # later \<and>
    snd (schedule_start_with_policy s i policy (fst (served_line s past))) = Ok StartNow"
  with assms have "distinct (starts past)" by (simp add: starts_append)
  from fifo_run [OF this, of s] started_at_once [OF conjunct2 [OF start]]
  show "cv_promoted (snd (served_line s past)) = cv_line (snd (served_line s past))"
    by (auto simp: fifo_inv_def Let_def split: prod.splits)
qed

section \<open>Restoring after a restart\<close>

lemma rehydrate_fold:
  assumes "fold rehydrate_run runs (x, d) = (x', d')"
    and "sr_active x = {} \<longrightarrow> (sr_queued x = [] \<and> d = [])
      \<or> (\<exists>run. rn_status run = Queued \<and> run \<in> U \<and> qr_run_id (hd (sr_queued x)) = rn_id run \<and> sr_queued x \<noteq> [])"
    and "set runs \<subseteq> U" and "\<forall>run\<in>set runs. live run"
  shows "sr_active x' \<union> set (waiting x') = sr_active x \<union> set (waiting x) \<union> rn_id ` set runs \<and>
    set d' \<subseteq> set d \<union> rn_id ` {run \<in> set runs. rn_status run \<noteq> Queued} \<and>
    sr_active x' \<subseteq> sr_active x \<union> rn_id ` {run \<in> set runs. rn_status run \<noteq> Queued} \<and>
    (\<forall>run\<in>set runs. rn_status run \<noteq> Queued \<longrightarrow> rn_id run \<in> sr_active x' \<or> rn_id run \<in> set d') \<and>
    set d \<subseteq> set d' \<and> sr_active x \<subseteq> sr_active x' \<and>
    (sr_active x' = {} \<longrightarrow> (sr_queued x' = [] \<and> d' = [])
      \<or> (\<exists>run. rn_status run = Queued \<and> run \<in> U \<and> qr_run_id (hd (sr_queued x')) = rn_id run \<and> sr_queued x' \<noteq> []))"
  using assms
proof (induction runs arbitrary: x d)
  case (Cons run runs)
  obtain y e where y: "rehydrate_run run (x, d) = (y, e)" by fastforce
  have l: "rn_status run \<in> {Queued, WaitingForApproval, Running}" using Cons.prems(4) by (simp add: live_def)
  have "sr_active y = {} \<longrightarrow> (sr_queued y = [] \<and> e = [])
      \<or> (\<exists>run. rn_status run = Queued \<and> run \<in> U \<and> qr_run_id (hd (sr_queued y)) = rn_id run \<and> sr_queued y \<noteq> [])"
    using y l Cons.prems(2,3)
    by (auto simp: rehydrate_run_def Let_def can_start_now_def hd_append split: if_splits)
  from Cons.IH [OF _ this] Cons.prems y have IH:
    "sr_active x' \<union> set (waiting x') = sr_active y \<union> set (waiting y) \<union> rn_id ` set runs"
    "set d' \<subseteq> set e \<union> rn_id ` {run \<in> set runs. rn_status run \<noteq> Queued}"
    "sr_active x' \<subseteq> sr_active y \<union> rn_id ` {run \<in> set runs. rn_status run \<noteq> Queued}"
    "\<forall>run\<in>set runs. rn_status run \<noteq> Queued \<longrightarrow> rn_id run \<in> sr_active x' \<or> rn_id run \<in> set d'"
    "set e \<subseteq> set d'" "sr_active y \<subseteq> sr_active x'"
    "sr_active x' = {} \<longrightarrow> (sr_queued x' = [] \<and> d' = [])
      \<or> (\<exists>run. rn_status run = Queued \<and> run \<in> U \<and> qr_run_id (hd (sr_queued x')) = rn_id run \<and> sr_queued x' \<noteq> [])"
    by simp_all
  have step: "sr_active y \<union> set (waiting y) = sr_active x \<union> set (waiting x) \<union> {rn_id run}"
    "set e \<subseteq> set d \<union> (if rn_status run = Queued then {} else {rn_id run})" "set d \<subseteq> set e"
    "sr_active y \<subseteq> sr_active x \<union> (if rn_status run = Queued then {} else {rn_id run})" "sr_active x \<subseteq> sr_active y"
    "rn_status run \<noteq> Queued \<longrightarrow> rn_id run \<in> sr_active y \<or> rn_id run \<in> set e"
    using y l by (auto simp: rehydrate_run_def Let_def split: if_splits)
  have more: "rn_id ` {r \<in> set (run # runs). rn_status r \<noteq> Queued} =
      (if rn_status run = Queued then {} else {rn_id run}) \<union> rn_id ` {r \<in> set runs. rn_status r \<noteq> Queued}" by auto
  have "set d' \<subseteq> set d \<union> rn_id ` {r \<in> set (run # runs). rn_status r \<noteq> Queued}"
    "sr_active x' \<subseteq> sr_active x \<union> rn_id ` {r \<in> set (run # runs). rn_status r \<noteq> Queued}"
    unfolding more using IH(2,3) step(2,4) by blast+
  moreover have "sr_active x' \<union> set (waiting x') = sr_active x \<union> set (waiting x) \<union> rn_id ` set (run # runs)"
    using IH(1) step(1) by auto
  moreover have "\<forall>r\<in>set (run # runs). rn_status r \<noteq> Queued \<longrightarrow> rn_id r \<in> sr_active x' \<or> rn_id r \<in> set d'"
    using IH(4,5,6) step(6) by auto
  moreover have "set d \<subseteq> set d'" "sr_active x \<subseteq> sr_active x'" using IH(5,6) step(3,5) by auto
  ultimately show ?case using IH(7) by blast
qed simp

text \<open>
  Restoring a session's schedule after a restart loses no run and invents none: the active
  and the waiting runs are exactly the session's runs that were queued, running or waiting for
  approval; every run that was underway is either active again or reported as demoted; only
  queued runs are promoted, at most one, and never one that was demoted; and nothing waits
  unless something is active.
\<close>

theorem rehydrate_session_exact:
  assumes "rehydrate_session events runs = (x, demoted, promoted)" and "\<forall>run\<in>set runs. live run"
    and "distinct (map rn_id runs)"
  shows "sr_active x \<union> set (waiting x) = rn_id ` set runs \<and>
    set demoted \<subseteq> rn_id ` {run \<in> set runs. rn_status run \<noteq> Queued} \<and>
    rn_id ` {run \<in> set runs. rn_status run \<noteq> Queued} \<subseteq> sr_active x \<union> set demoted \<and>
    set promoted \<subseteq> rn_id ` {run \<in> set runs. rn_status run = Queued} \<and>
    length promoted \<le> 1 \<and> set promoted \<inter> set demoted = {} \<and> busy_if_waiting x"
proof -
  let ?runs = "sort_key (rehydrate_key events) runs"
  obtain y d where y: "fold rehydrate_run ?runs (empty_schedule, []) = (y, d)" by fastforce
  from rehydrate_fold [OF y, of "set runs"] assms(2) have F:
    "sr_active y \<union> set (waiting y) = rn_id ` set runs"
    "set d \<subseteq> rn_id ` {run \<in> set runs. rn_status run \<noteq> Queued}"
    "\<forall>run\<in>set runs. rn_status run \<noteq> Queued \<longrightarrow> rn_id run \<in> sr_active y \<or> rn_id run \<in> set d"
    "sr_active y = {} \<longrightarrow> (sr_queued y = [] \<and> d = [])
      \<or> (\<exists>run. rn_status run = Queued \<and> run \<in> set runs \<and> qr_run_id (hd (sr_queued y)) = rn_id run \<and> sr_queued y \<noteq> [])"
    by simp_all
  have apart: "rn_id ` {run \<in> set runs. rn_status run = Queued} \<inter>
      rn_id ` {run \<in> set runs. rn_status run \<noteq> Queued} = {}"
    using assms(3) by (auto simp: distinct_map inj_on_def)
  have busy: "busy_if_waiting x" using rehydrate_session_ok [of events runs] assms(1) by simp
  show ?thesis
  proof (cases "sr_active y = {} \<and> sr_queued y \<noteq> []")
    case True
    then obtain q qs where q: "sr_queued y = q # qs" by (cases "sr_queued y") auto
    with True assms(1) y have x: "x = y\<lparr>sr_active := {qr_run_id q}, sr_queued := qs\<rparr>" "demoted = d" "promoted = [qr_run_id q]"
      by (simp_all add: rehydrate_session_def)
    have "qr_run_id q \<in> rn_id ` {run \<in> set runs. rn_status run = Queued}" using F(4) True q by auto
    moreover have "waiting y = qr_run_id q # waiting x" using waiting_front [OF q] x(1) by simp
    ultimately show ?thesis using F(1-3) apart x True busy by auto
  next
    case False
    with assms(1) y have x: "x = y" "demoted = d" "promoted = []"
      by (auto simp: rehydrate_session_def split: list.splits if_splits)
    with F busy show ?thesis by auto
  qed
qed

section \<open>Witnesses\<close>

definition demo_ops :: "session_op list" where
  "demo_ops = [Start (Ident ''a'') QueueIfBusy, Start (Ident ''b'') QueueIfBusy, Start (Ident ''c'') ParallelIfBusy,
     Start (Ident ''d'') QueueIfBusy, Finish (Ident ''c''), Finish (Ident ''a'')]"

theorem schedule_start_spec_witness:
  "schedule_of (fst (schedule_start_with_policy (Ident ''s'') (Ident ''a'') QueueIfBusy run_scheduler_new)) (Ident ''s'')
     = \<lparr>sr_active = {Ident ''a''}, sr_queued = []\<rparr>"
proof -
  have x: "empty_schedule = schedule_of run_scheduler_new (Ident ''s'')"
    by (simp add: schedule_of_def run_scheduler_new_def)
  have r: "schedule_start_with_policy (Ident ''s'') (Ident ''a'') QueueIfBusy run_scheduler_new =
      (fst (schedule_start_with_policy (Ident ''s'') (Ident ''a'') QueueIfBusy run_scheduler_new), Ok StartNow)"
    by (simp add: schedule_start_with_policy_def x [symmetric] can_start_now_def)
  from schedule_start_spec [OF x r] show ?thesis by (simp add: empty_schedule_def)
qed

theorem scheduler_is_fifo_witness:
  "cv_promoted (snd (served_line (Ident ''s'') (demo_ops @ [Finish (Ident ''d'')]))) = [Ident ''b''] \<and>
   cv_line (snd (served_line (Ident ''s'') (demo_ops @ [Finish (Ident ''d'')]))) = [Ident ''b''] \<and>
   snd (schedule_start_with_policy (Ident ''s'') (Ident ''e'') ParallelIfBusy
     (fst (served_line (Ident ''s'') (demo_ops @ [Finish (Ident ''d'')])))) = Ok StartNow"
proof -
  let ?past = "demo_ops @ [Finish (Ident ''d'')]"
  have now: "snd (schedule_start_with_policy (Ident ''s'') (Ident ''e'') ParallelIfBusy
     (fst (served_line (Ident ''s'') ?past))) = Ok StartNow"
    and promoted: "cv_promoted (snd (served_line (Ident ''s'') ?past)) = [Ident ''b'']"
    by (simp_all add: served_line_def demo_ops_def schedule_start_with_policy_def finish_run_def can_start_now_def
        run_scheduler_new_def max_queued_runs_per_session_def schedule_of_def set_schedule_def
        Let_def empty_schedule_def)
  have "distinct (starts (?past @ [Start (Ident ''e'') ParallelIfBusy]))" by (simp add: demo_ops_def)
  from scheduler_is_fifo [OF this, of "Ident ''s''"] now promoted show ?thesis by fastforce
qed

theorem rehydrate_session_exact_witness:
  "\<exists>x demoted promoted.
     rehydrate_session [] [demo_run ''s'' ''a'' Queued None, demo_run ''s'' ''b'' Running None] = (x, demoted, promoted) \<and>
     sr_active x \<union> set (waiting x) = {Ident ''a'', Ident ''b''} \<and> set promoted \<inter> set demoted = {} \<and> busy_if_waiting x"
proof -
  let ?runs = "[demo_run ''s'' ''a'' Queued None, demo_run ''s'' ''b'' Running None]"
  obtain x demoted promoted where r: "rehydrate_session [] ?runs = (x, demoted, promoted)"
    by (cases "rehydrate_session [] ?runs") auto
  have "\<forall>run\<in>set ?runs. live run" and "distinct (map rn_id ?runs)"
    by (simp_all add: live_def demo_run_def)
  from rehydrate_session_exact [OF r this] r show ?thesis by (auto simp: demo_run_def)
qed

end
