(* ===== verification/EventHub.thy ===== *)
theory EventHub
  imports Events "HOL-Library.Sublist"
begin

text \<open>
  The runtime event hub (\<open>crates/ta-orchestrator/src/host/event_hub/mod.rs\<close>): live events go to
  the subscribers of their session over bounded channels, and a backlog per session lets a
  subscriber resume behind a cursor. The mutex makes every operation atomic. A channel
  (\<open>mpsc::sync_channel\<close>) and the flag shared with its receiver are an entry of a table of the
  hub's model, since both ends own it.
\<close>

section \<open>State\<close>

definition max_subscriber_queue_depth :: nat where
  "max_subscriber_queue_depth = 256"

definition max_event_backlog_depth :: nat where
  "max_event_backlog_depth = 512"

record hub_channel =
  hc_queue :: "daemon_event_envelope list"
  hc_connected :: bool
  hc_overflowed :: bool

record hub_subscriber =
  hb_id :: nat
  hb_session_id :: session_id
  hb_kinds :: "daemon_event_kind list"

record session_backlog =
  bk_records :: "daemon_event_envelope list"
  bk_required :: "nat option"

record event_hub =
  hub_next_id :: nat
  hub_latest :: "(session_id, nat) btree"
  hub_backlogs :: "(session_id, session_backlog) btree"
  hub_subscribers :: "hub_subscriber list"
  hub_channels :: "(nat, hub_channel) btree"

record hub_subscription =
  su_id :: nat
  su_latest_cursor :: "daemon_event_cursor option"
  su_backlog :: "daemon_event_envelope list"
  su_has_gap :: bool

definition event_hub_new :: event_hub where
  "event_hub_new = \<lparr>hub_next_id = 1, hub_latest = [], hub_backlogs = [], hub_subscribers = [], hub_channels = []\<rparr>"

definition empty_backlog :: session_backlog where
  "empty_backlog = \<lparr>bk_records = [], bk_required = None\<rparr>"

section \<open>Operations\<close>

definition to_event_cursor :: "string \<Rightarrow> session_id \<Rightarrow> nat \<Rightarrow> daemon_event_cursor" where
  "to_event_cursor d s n = \<lparr>cu_daemon_instance_id = d, cu_session_id = s, cu_sequence = n\<rparr>"

definition to_envelope :: "string \<Rightarrow> event_record \<Rightarrow> daemon_event_envelope" where
  "to_envelope d r =
     \<lparr>en_daemon_instance_id = d, en_session_id = ev_session_id r, en_sequence = ev_sequence r,
      en_occurred_at_ms = ev_occurred_at_ms r, en_event = ev_payload r\<rparr>"

definition matches_subscription_kind :: "daemon_event \<Rightarrow> daemon_event_kind list \<Rightarrow> bool" where
  "matches_subscription_kind e kinds \<longleftrightarrow> kinds = [] \<or> event_kind e \<in> set kinds"

text \<open>\<open>position(p)\<close> and \<open>remove\<close>.\<close>

fun remove_first :: "('a \<Rightarrow> bool) \<Rightarrow> 'a list \<Rightarrow> 'a list option" where
  "remove_first p [] = None"
| "remove_first p (x # xs) = (if p x then Some xs else map_option (Cons x) (remove_first p xs))"

lemma remove_first_length: "remove_first p xs = Some ys \<Longrightarrow> length xs = Suc (length ys)"
  by (induction xs arbitrary: ys) (auto split: if_splits)

text \<open>The \<open>while\<close> loop of \<open>SessionEventBacklog::push\<close>.\<close>

function backlog_trim :: "session_backlog \<Rightarrow> session_backlog" where
  "backlog_trim b =
     (if length (bk_records b) \<le> max_event_backlog_depth then b
      else case remove_first (\<lambda>v. event_persistence (en_event v) = Transient) (bk_records b) of
        Some rs \<Rightarrow> backlog_trim (b\<lparr>bk_records := rs\<rparr>)
      | None \<Rightarrow>
          backlog_trim
            \<lparr>bk_records = tl (bk_records b),
             bk_required = Some (case bk_required b of None \<Rightarrow> en_sequence (hd (bk_records b))
               | Some current \<Rightarrow> max current (en_sequence (hd (bk_records b))))\<rparr>)"
  by pat_completeness auto
termination
  by (relation "measure (\<lambda>b. length (bk_records b))") (auto dest: remove_first_length)

declare backlog_trim.simps [simp del]

definition backlog_push :: "daemon_event_envelope \<Rightarrow> session_backlog \<Rightarrow> session_backlog" where
  "backlog_push v b = backlog_trim (b\<lparr>bk_records := bk_records b @ [v]\<rparr>)"

definition can_resume_from :: "session_backlog \<Rightarrow> nat \<Rightarrow> bool" where
  "can_resume_from b after = none_or (\<lambda>required. after \<ge> required) (bk_required b)"

definition events_after :: "session_backlog \<Rightarrow> nat \<Rightarrow> daemon_event_kind list \<Rightarrow> daemon_event_envelope list" where
  "events_after b after kinds =
     filter (\<lambda>v. matches_subscription_kind (en_event v) kinds) (filter (\<lambda>v. en_sequence v > after) (bk_records b))"

datatype send_outcome = Sent | Disconnected | Full

definition try_send :: "daemon_event_envelope \<Rightarrow> hub_channel \<Rightarrow> send_outcome \<times> hub_channel" where
  "try_send v c =
     (if \<not> hc_connected c then (Disconnected, c)
      else if length (hc_queue c) \<ge> max_subscriber_queue_depth then (Full, c)
      else (Sent, c\<lparr>hc_queue := hc_queue c @ [v]\<rparr>))"

text \<open>
  The closure of \<open>retain\<close> in \<open>publish\<close>: whether a subscriber stays, and its channel afterwards.
  Dropping the sender of a subscriber that goes leaves what its receiver holds.
\<close>

definition offer_one :: "daemon_event_envelope \<Rightarrow> hub_subscriber \<Rightarrow> hub_channel option \<Rightarrow>
    bool \<times> hub_channel option" where
  "offer_one v b channel =
     (if hb_session_id b \<noteq> en_session_id v then (True, channel)
      else if \<not> matches_subscription_kind (en_event v) (hb_kinds b) then (True, channel)
      else case channel of
        None \<Rightarrow> (False, None)
      | Some c \<Rightarrow>
          (case try_send v c of
             (Sent, c') \<Rightarrow> (True, Some c')
           | (Disconnected, c') \<Rightarrow> (False, Some c')
           | (Full, c') \<Rightarrow> (False, Some (c'\<lparr>hc_overflowed := True\<rparr>))))"

definition set_channel :: "nat \<Rightarrow> hub_channel option \<Rightarrow> (nat, hub_channel) btree \<Rightarrow> (nat, hub_channel) btree" where
  "set_channel i channel cs = (case channel of None \<Rightarrow> cs | Some c \<Rightarrow> bt_put i c cs)"

fun offer_all :: "daemon_event_envelope \<Rightarrow> hub_subscriber list \<Rightarrow> (nat, hub_channel) btree \<Rightarrow>
    hub_subscriber list \<times> (nat, hub_channel) btree" where
  "offer_all v [] cs = ([], cs)"
| "offer_all v (b # bs) cs =
     (case offer_one v b (bt_get cs (hb_id b)) of (keep, channel) \<Rightarrow>
        (case offer_all v bs (set_channel (hb_id b) channel cs) of (kept, cs') \<Rightarrow>
           (if keep then b # kept else kept, cs')))"

definition hub_publish :: "string \<Rightarrow> event_record \<Rightarrow> event_hub \<Rightarrow> event_hub \<times> daemon_event_envelope" where
  "hub_publish d r hub =
     (let s = ev_session_id r;
          latest = (case bt_get (hub_latest hub) s of None \<Rightarrow> ev_sequence r | Some l \<Rightarrow> max l (ev_sequence r));
          v = to_envelope d r;
          backlog = (case bt_get (hub_backlogs hub) s of None \<Rightarrow> empty_backlog | Some b \<Rightarrow> b);
          (kept, cs) = offer_all v (hub_subscribers hub) (hub_channels hub)
      in (hub\<lparr>hub_latest := bt_put s latest (hub_latest hub),
              hub_backlogs := bt_put s (backlog_push v backlog) (hub_backlogs hub),
              hub_subscribers := kept, hub_channels := cs\<rparr>, v))"

definition newer :: "nat option \<Rightarrow> nat option \<Rightarrow> nat option" where
  "newer live persisted =
     (case (live, persisted) of
        (Some a, Some b) \<Rightarrow> Some (max a b)
      | (Some a, None) \<Rightarrow> Some a
      | (None, Some b) \<Rightarrow> Some b
      | (None, None) \<Rightarrow> None)"

text \<open>The decision of \<open>subscribe\<close>: whether there is a gap, and what to replay.\<close>

definition resume_plan :: "string \<Rightarrow> session_id \<Rightarrow> daemon_event_kind list \<Rightarrow> nat option \<Rightarrow>
    session_backlog option \<Rightarrow> daemon_event_cursor option \<Rightarrow> bool \<times> daemon_event_envelope list" where
  "resume_plan d s kinds latest backlog cursor =
     (case cursor of
        None \<Rightarrow> (False, [])
      | Some c \<Rightarrow>
          if cu_daemon_instance_id c \<noteq> d then (True, [])
          else if cu_session_id c \<noteq> s then (True, [])
          else case latest of
            None \<Rightarrow> if cu_sequence c = 0 then (False, []) else (True, [])
          | Some current \<Rightarrow>
              if cu_sequence c > current then (True, [])
              else if cu_sequence c = current then (False, [])
              else (case backlog of
                  Some b \<Rightarrow> if can_resume_from b (cu_sequence c) then (False, events_after b (cu_sequence c) kinds)
                     else (True, [])
                | None \<Rightarrow> (True, [])))"

text \<open>\<open>None\<close> is the panic when the subscriber ids are exhausted.\<close>

definition hub_subscribe :: "string \<Rightarrow> session_id \<Rightarrow> daemon_event_kind list \<Rightarrow> nat option \<Rightarrow>
    daemon_event_cursor option \<Rightarrow> event_hub \<Rightarrow> (event_hub \<times> hub_subscription) option" where
  "hub_subscribe d s kinds persisted cursor hub =
     (if hub_next_id hub \<ge> u64_max then None
      else
        let i = hub_next_id hub;
            latest = newer (bt_get (hub_latest hub) s) persisted;
            (has_gap, replay) = resume_plan d s kinds latest (bt_get (hub_backlogs hub) s) cursor
        in Some (hub\<lparr>hub_next_id := i + 1,
                  hub_subscribers := hub_subscribers hub @ [\<lparr>hb_id = i, hb_session_id = s, hb_kinds = kinds\<rparr>],
                  hub_channels := bt_put i \<lparr>hc_queue = [], hc_connected = True, hc_overflowed = False\<rparr> (hub_channels hub)\<rparr>,
             \<lparr>su_id = i,
              su_latest_cursor = map_option (to_event_cursor d s) (if has_gap then persisted else latest),
              su_backlog = replay, su_has_gap = has_gap\<rparr>))"

text \<open>The receiver takes the next envelope, if there is one.\<close>

definition hub_receive :: "nat \<Rightarrow> event_hub \<Rightarrow> event_hub \<times> daemon_event_envelope list" where
  "hub_receive i hub =
     (case bt_get (hub_channels hub) i of
        None \<Rightarrow> (hub, [])
      | Some c \<Rightarrow>
          (case hc_queue c of [] \<Rightarrow> (hub, [])
           | v # vs \<Rightarrow> (hub\<lparr>hub_channels := bt_put i (c\<lparr>hc_queue := vs\<rparr>) (hub_channels hub)\<rparr>, [v])))"

text \<open>\<open>RuntimeEventSubscriptionCleanup::drop\<close>, and the receiver being dropped.\<close>

definition hub_cleanup :: "nat \<Rightarrow> event_hub \<Rightarrow> event_hub" where
  "hub_cleanup i hub = hub\<lparr>hub_subscribers := filter (\<lambda>b. hb_id b \<noteq> i) (hub_subscribers hub)\<rparr>"

definition hub_disconnect :: "nat \<Rightarrow> event_hub \<Rightarrow> event_hub" where
  "hub_disconnect i hub =
     (case bt_get (hub_channels hub) i of None \<Rightarrow> hub
      | Some c \<Rightarrow> hub\<lparr>hub_channels := bt_put i (c\<lparr>hc_connected := False\<rparr>) (hub_channels hub)\<rparr>)"

definition latest_cursor_for_session :: "string \<Rightarrow> session_id \<Rightarrow> event_hub \<Rightarrow> daemon_event_cursor option" where
  "latest_cursor_for_session d s hub = map_option (to_event_cursor d s) (bt_get (hub_latest hub) s)"

lemma to_envelope_simps [simp]:
  "en_daemon_instance_id (to_envelope d r) = d" "en_session_id (to_envelope d r) = ev_session_id r"
  "en_sequence (to_envelope d r) = ev_sequence r" "en_event (to_envelope d r) = ev_payload r"
  by (simp_all add: to_envelope_def)

section \<open>The backlog\<close>

text \<open>
  Where \<open>hs\<close> are the records of a session published so far, in ascending order, the backlog holds
  a subsequence of them, at most 512, that contains every durable one behind the mark below
  which resuming is refused.
\<close>

definition above :: "nat option \<Rightarrow> nat \<Rightarrow> bool" where
  "above mark n = none_or (\<lambda>m. m < n) mark"

definition durable_record :: "event_record \<Rightarrow> bool" where
  "durable_record r \<longleftrightarrow> durable (ev_payload r)"

definition backlog_of :: "string \<Rightarrow> event_record list \<Rightarrow> session_backlog \<Rightarrow> event_record list \<Rightarrow> bool" where
  "backlog_of d hs b ks \<longleftrightarrow>
     bk_records b = map (to_envelope d) ks \<and> subseq ks hs \<and> length ks \<le> max_event_backlog_depth \<and>
     filter durable_record ks = filter (\<lambda>r. durable_record r \<and> above (bk_required b) (ev_sequence r)) hs \<and>
     none_or (\<lambda>m. m \<in> ev_sequence ` set hs \<and> max_event_backlog_depth < length (filter durable_record hs))
       (bk_required b)"

lemma transient_iff: "event_persistence e = Transient \<longleftrightarrow> \<not> durable e"
  by (cases "event_persistence e") simp_all

lemma remove_first_map: "remove_first p (map f xs) = map_option (map f) (remove_first (\<lambda>x. p (f x)) xs)"
  by (induction xs) (simp_all add: option.map_comp comp_def)

lemma remove_first_Some:
  "remove_first p xs = Some ys \<Longrightarrow> subseq ys xs \<and> filter (\<lambda>x. \<not> p x) ys = filter (\<lambda>x. \<not> p x) xs"
  by (induction xs arbitrary: ys) (auto split: if_splits)

lemma remove_first_None: "remove_first p xs = None \<longleftrightarrow> (\<forall>x\<in>set xs. \<not> p x)"
  by (induction xs) auto

lemma backlog_of_empty: "\<exists>ks. backlog_of d [] empty_backlog ks"
  by (rule exI [of _ "[]"]) (simp add: backlog_of_def empty_backlog_def)

lemma backlog_trim_small: "length (bk_records b) \<le> max_event_backlog_depth \<Longrightarrow> backlog_trim b = b"
  by (simp add: backlog_trim.simps)

lemma backlog_trim_transient:
  assumes "length (bk_records b) = Suc max_event_backlog_depth"
    and "remove_first (\<lambda>v. event_persistence (en_event v) = Transient) (bk_records b) = Some vs"
  shows "backlog_trim b = b\<lparr>bk_records := vs\<rparr>"
  using assms remove_first_length [OF assms(2)]
  by (subst backlog_trim.simps) (simp add: backlog_trim_small)

lemma backlog_trim_durable:
  assumes "bk_records b = v # vs" and "length vs = max_event_backlog_depth"
    and "remove_first (\<lambda>v. event_persistence (en_event v) = Transient) (bk_records b) = None"
  shows "backlog_trim b = \<lparr>bk_records = vs, bk_required = Some (case bk_required b of
     None \<Rightarrow> en_sequence v | Some current \<Rightarrow> max current (en_sequence v))\<rparr>"
  using assms by (subst backlog_trim.simps) (simp add: backlog_trim_small del: remove_first.simps split: option.split)

lemma length_filter_conj: "length (filter (\<lambda>x. p x \<and> q x) xs) \<le> length (filter p xs)"
  by (induction xs) auto

text \<open>Trimming a list that is one too long, with or without a transient event in it.\<close>

lemma filter_above_tl:
  assumes "sorted_wrt (<) (map ev_sequence (x # xs))"
  shows "filter (\<lambda>r. ev_sequence x < ev_sequence r) (x # xs) = xs"
  using assms by (simp add: filter_id_conv)

lemma backlog_push_ok:
  assumes b: "backlog_of d hs b ks"
    and sorted: "sorted_wrt (<) (map ev_sequence (hs @ [r]))"
  shows "\<exists>ks'. backlog_of d (hs @ [r]) (backlog_push (to_envelope d r) b) ks'"
proof -
  let ?ks = "ks @ [r]" and ?hs = "hs @ [r]" and ?m = "bk_required b"
  note b' = b [unfolded backlog_of_def]
  have below: "above ?m (ev_sequence r)"
    using b' sorted by (cases ?m) (auto simp: above_def sorted_wrt_append)
  have dur: "filter durable_record ?ks = filter (\<lambda>x. durable_record x \<and> above ?m (ev_sequence x)) ?hs"
    using b' below by simp
  have sub: "subseq ?ks ?hs" using b' by (simp add: list_emb_append_mono)
  have req: "none_or (\<lambda>m. m \<in> ev_sequence ` set ?hs \<and> max_event_backlog_depth < length (filter durable_record ?hs)) ?m"
    using b' by (cases ?m) auto
  let ?b = "b\<lparr>bk_records := map (to_envelope d) ?ks\<rparr>"
  have rec: "bk_records ?b = map (to_envelope d) ?ks" by simp
  have push: "backlog_push (to_envelope d r) b = backlog_trim ?b"
    using b' by (simp add: backlog_push_def)
  show ?thesis
  proof (cases "length ?ks \<le> max_event_backlog_depth")
    case True
    then have "backlog_of d ?hs (backlog_trim ?b) ?ks"
      using dur sub req by (simp add: backlog_trim_small backlog_of_def)
    then show ?thesis unfolding push by blast
  next
    case False
    with b' have len: "length ?ks = Suc max_event_backlog_depth" by simp
    let ?p = "\<lambda>x. event_persistence (en_event (to_envelope d x)) = Transient"
    have p: "?p x \<longleftrightarrow> \<not> durable_record x" for x by (simp add: durable_record_def transient_iff)
    show ?thesis
    proof (cases "remove_first ?p ?ks")
      case (Some ys)
      have ys: "subseq ys ?ks" "length ys = max_event_backlog_depth"
        using remove_first_Some [OF Some] remove_first_length [OF Some] len by simp_all
      have dp: "durable_record = (\<lambda>x. \<not> ?p x)" by (rule ext) (simp only: p not_not)
      have keep: "filter durable_record ys = filter durable_record ?ks"
        unfolding dp by (rule conjunct2 [OF remove_first_Some [OF Some]])
      have bk: "bk_records (b\<lparr>bk_records := vs\<rparr>) = vs" "bk_required (b\<lparr>bk_records := vs\<rparr>) = ?m" for vs by simp_all
      have trim: "backlog_trim ?b = b\<lparr>bk_records := map (to_envelope d) ys\<rparr>"
      proof -
        have "remove_first (\<lambda>v. event_persistence (en_event v) = Transient) (bk_records ?b) = Some (map (to_envelope d) ys)"
          unfolding rec remove_first_map Some by simp
        from backlog_trim_transient [OF _ this] len show ?thesis by simp
      qed
      have "backlog_of d ?hs (backlog_trim ?b) ys"
        unfolding backlog_of_def trim bk
        by (intro conjI refl subseq_order.trans [OF ys(1) sub] eq_refl [OF ys(2)] trans [OF keep dur] req)
      then show ?thesis unfolding push by blast
    next
      case None
      then have all: "\<forall>x\<in>set ?ks. durable_record x" by (simp only: remove_first_None p not_not)
      obtain x xs where ks: "?ks = x # xs" by (cases ?ks) auto
      let ?L = "filter (\<lambda>r. durable_record r \<and> above ?m (ev_sequence r)) ?hs"
      have L: "?L = x # xs" using dur all by (simp only: ks filter_id_conv flip: dur)
      then have "x \<in> set ?L" by simp
      then have x: "above ?m (ev_sequence x)" "x \<in> set ?hs" by (simp_all only: set_filter mem_Collect_eq)
      then have mark: "(case ?m of None \<Rightarrow> ev_sequence x | Some c \<Rightarrow> max c (ev_sequence x)) = ev_sequence x"
        by (cases ?m) (auto simp: above_def)
      have len_xs: "length xs = max_event_backlog_depth" using len by (simp only: ks) simp
      have trim: "backlog_trim ?b = \<lparr>bk_records = map (to_envelope d) xs, bk_required = Some (ev_sequence x)\<rparr>"
      proof -
        have "remove_first (\<lambda>v. event_persistence (en_event v) = Transient) (bk_records ?b) = None"
          unfolding rec remove_first_map None by simp
        moreover have "bk_records ?b = to_envelope d x # map (to_envelope d) xs"
          unfolding rec ks by simp
        ultimately have "backlog_trim ?b = \<lparr>bk_records = map (to_envelope d) xs,
            bk_required = Some (case bk_required ?b of None \<Rightarrow> en_sequence (to_envelope d x)
              | Some current \<Rightarrow> max current (en_sequence (to_envelope d x)))\<rparr>"
          using len_xs by (intro backlog_trim_durable) simp_all
        also have "bk_required ?b = ?m" by simp
        finally show ?thesis using mark by (simp only: to_envelope_simps)
      qed
      have "sorted_wrt (<) (map ev_sequence (x # xs))"
        using sorted unfolding L [symmetric] sorted_wrt_map by (rule sorted_wrt_filter)
      then have tail: "filter (\<lambda>r. ev_sequence x < ev_sequence r) ?L = xs"
        unfolding L by (rule filter_above_tl)
      have all_xs: "filter durable_record xs = xs"
        using all unfolding ks by (simp add: filter_id_conv)
      have kept: "filter durable_record xs
          = filter (\<lambda>r. durable_record r \<and> above (Some (ev_sequence x)) (ev_sequence r)) ?hs"
        unfolding all_xs unfolding tail [symmetric] filter_filter
        by (rule filter_cong) (use x(1) in \<open>auto simp: above_def none_or_def split: option.splits\<close>)
      have many: "max_event_backlog_depth < length (filter durable_record ?hs)"
      proof -
        have "length ?L \<le> length (filter durable_record ?hs)" by (rule length_filter_conj)
        then show ?thesis unfolding L length_Cons len_xs by (rule Suc_le_lessD)
      qed
      have "subseq xs ?hs" using sub unfolding ks by (rule subseq_Cons')
      moreover have "none_or (\<lambda>m. m \<in> ev_sequence ` set ?hs \<and>
          max_event_backlog_depth < length (filter durable_record ?hs)) (Some (ev_sequence x))"
        unfolding none_or_def option.case using many imageI [OF x(2)] by (rule conjI [rotated])
      ultimately have "backlog_of d ?hs (backlog_trim ?b) xs"
        unfolding backlog_of_def trim session_backlog.simps
        using kept len_xs by (intro conjI refl) simp_all
      then show ?thesis unfolding push by blast
    qed
  qed
qed

end
