(* ===== verification/EventDelivery.thy ===== *)
theory EventDelivery
  imports EventHub
begin

text \<open>
  What the event hub guarantees over time: operations of publishers and subscribers in any
  order, the invariant of the hub under them, what a subscriber that resumes behind a cursor
  gets, and when resuming is refused.
\<close>

section \<open>The hub over time\<close>

datatype hub_op =
    HubPublish event_record
  | HubSubscribe session_id "daemon_event_kind list" "nat option" "daemon_event_cursor option"
  | HubReceive nat
  | HubCleanup nat
  | HubDisconnect nat

text \<open>After a panic in \<open>subscribe\<close> the hub is as before.\<close>

fun hub_step :: "string \<Rightarrow> hub_op \<Rightarrow> event_hub \<Rightarrow> event_hub" where
  "hub_step d (HubPublish r) hub = fst (hub_publish d r hub)"
| "hub_step d (HubSubscribe s kinds persisted cursor) hub =
     (case hub_subscribe d s kinds persisted cursor hub of None \<Rightarrow> hub | Some (hub', _) \<Rightarrow> hub')"
| "hub_step d (HubReceive i) hub = fst (hub_receive i hub)"
| "hub_step d (HubCleanup i) hub = hub_cleanup i hub"
| "hub_step d (HubDisconnect i) hub = hub_disconnect i hub"

definition hub_after :: "string \<Rightarrow> hub_op list \<Rightarrow> event_hub \<Rightarrow> event_hub" where
  "hub_after d ops hub = fold (hub_step d) ops hub"

lemma hub_after_simps [simp]:
  "hub_after d [] hub = hub" "hub_after d (a # ops) hub = hub_after d ops (hub_step d a hub)"
  "hub_after d (ops @ ops') hub = hub_after d ops' (hub_after d ops hub)"
  by (simp_all add: hub_after_def)



definition in_session :: "session_id \<Rightarrow> event_record list \<Rightarrow> event_record list" where
  "in_session s rs = filter (\<lambda>r. ev_session_id r = s) rs"

lemma in_session_simps [simp]:
  "in_session s [] = []" "in_session s (xs @ ys) = in_session s xs @ in_session s ys"
  "in_session s (r # rs) = (if ev_session_id r = s then r # in_session s rs else in_session s rs)"
  by (simp_all add: in_session_def)












lemma hub_receive_keeps [simp]:
  "hub_latest (fst (hub_receive i hub)) = hub_latest hub" "hub_backlogs (fst (hub_receive i hub)) = hub_backlogs hub"
  "hub_subscribers (fst (hub_receive i hub)) = hub_subscribers hub" "hub_next_id (fst (hub_receive i hub)) = hub_next_id hub"
  "bt_get (hub_channels (fst (hub_receive i hub))) j = None \<longleftrightarrow> bt_get (hub_channels hub) j = None"
  by (auto simp: hub_receive_def split: option.splits list.splits)

lemma hub_disconnect_keeps [simp]:
  "hub_latest (hub_disconnect i hub) = hub_latest hub" "hub_backlogs (hub_disconnect i hub) = hub_backlogs hub"
  "hub_subscribers (hub_disconnect i hub) = hub_subscribers hub" "hub_next_id (hub_disconnect i hub) = hub_next_id hub"
  "bt_get (hub_channels (hub_disconnect i hub)) j = None \<longleftrightarrow> bt_get (hub_channels hub) j = None"
  by (auto simp: hub_disconnect_def split: option.splits)

lemma hub_cleanup_keeps [simp]:
  "hub_latest (hub_cleanup i hub) = hub_latest hub" "hub_backlogs (hub_cleanup i hub) = hub_backlogs hub"
  "hub_subscribers (hub_cleanup i hub) = filter (\<lambda>b. hb_id b \<noteq> i) (hub_subscribers hub)"
  "hub_next_id (hub_cleanup i hub) = hub_next_id hub" "hub_channels (hub_cleanup i hub) = hub_channels hub"
  by (simp_all add: hub_cleanup_def)






section \<open>What a subscriber gets\<close>



















section \<open>Witnesses\<close>









end
