(* ===== verification/Strings.thy ===== *)
theory Strings
  imports Prelude
begin

text \<open>
  Strings and paths as the standard library treats them: splitting, \<open>lines\<close>, prefixes, \<open>trim\<close> of
  strings put together from parts, and the components of a Unix path.
\<close>

section \<open>Splitting and lines\<close>

text \<open>\<open>str::split\<close> on a one-byte character.\<close>

fun split_on :: "char \<Rightarrow> string \<Rightarrow> string list" where
  "split_on c [] = [[]]"
| "split_on c (x # xs) =
     (if x = c then [] # split_on c xs
      else case split_on c xs of [] \<Rightarrow> [[x]] | s # ss \<Rightarrow> (x # s) # ss)"

text \<open>
  \<open>str::lines\<close>: a line ends at a newline, a carriage return before it belongs to the end, and an
  empty rest after the last newline is no line.
\<close>

definition strip_cr :: "string \<Rightarrow> string" where
  "strip_cr l = (if l \<noteq> [] \<and> last l = CHR 0x0D then butlast l else l)"

definition str_lines :: "string \<Rightarrow> string list" where
  "str_lines s = (let ls = split_on (CHR 0x0A) s in
     map strip_cr (butlast ls) @ (if last ls = [] then [] else [last ls]))"

text \<open>\<open>strip_prefix\<close> and \<open>starts_with\<close>.\<close>

fun strip_prefix :: "string \<Rightarrow> string \<Rightarrow> string option" where
  "strip_prefix [] s = Some s"
| "strip_prefix (p # ps) [] = None"
| "strip_prefix (p # ps) (c # cs) = (if p = c then strip_prefix ps cs else None)"

definition starts_with :: "string \<Rightarrow> string \<Rightarrow> bool" where
  "starts_with p s \<longleftrightarrow> strip_prefix p s \<noteq> None"

definition join_with :: "string \<Rightarrow> string list \<Rightarrow> string" where
  "join_with sep ss = (case ss of [] \<Rightarrow> [] | s # rest \<Rightarrow> s @ concat (map (\<lambda>t. sep @ t) rest))"

lemma strip_prefix_iff: "strip_prefix p s = Some t \<longleftrightarrow> s = p @ t"
  by (induction p s rule: strip_prefix.induct) auto

lemma strip_prefix_append [simp]: "strip_prefix p (p @ s) = Some s"
  by (simp add: strip_prefix_iff)

lemma split_on_not_Nil [simp]: "split_on c s \<noteq> []"
  by (induction s) (auto split: list.splits)

lemma split_on_single: "c \<notin> set s \<Longrightarrow> split_on c s = [s]"
  by (induction s) auto

lemma split_on_append: "c \<notin> set a \<Longrightarrow> split_on c (a @ c # b) = a # split_on c b"
  by (induction a) auto

lemma split_on_elems: "a \<in> set (split_on c s) \<Longrightarrow> c \<notin> set a"
  by (induction s arbitrary: a) (auto split: if_splits list.splits)

text \<open>Every line followed by a newline.\<close>

definition unlines :: "string list \<Rightarrow> string" where
  "unlines ls = concat (map (\<lambda>l. l @ [CHR 0x0A]) ls)"

lemma unlines_simps [simp]:
  "unlines [] = []" "unlines (l # ls) = l @ CHR 0x0A # unlines ls" "unlines (xs @ ys) = unlines xs @ unlines ys"
  by (simp_all add: unlines_def)

definition clean_line :: "string \<Rightarrow> bool" where
  "clean_line l \<longleftrightarrow> CHR 0x0A \<notin> set l \<and> strip_cr l = l"

lemma split_unlines:
  "(\<forall>l\<in>set ls. CHR 0x0A \<notin> set l) \<Longrightarrow> split_on (CHR 0x0A) (unlines ls @ r) = ls @ split_on (CHR 0x0A) r"
  by (induction ls) (simp_all add: split_on_append)

lemma lines_unlines:
  assumes "\<forall>l\<in>set ls. clean_line l" shows "str_lines (unlines ls) = ls"
proof -
  have "split_on (CHR 0x0A) (unlines ls) = ls @ [[]]"
    using split_unlines [of ls "[]"] assms by (auto simp: clean_line_def)
  then show ?thesis using assms by (simp add: str_lines_def Let_def butlast_append clean_line_def map_idI)
qed

lemma lines_unlines_last:
  assumes "\<forall>l\<in>set ls. clean_line l" and "CHR 0x0A \<notin> set l" "l \<noteq> []"
  shows "str_lines (unlines ls @ l) = ls @ [l]"
proof -
  have "split_on (CHR 0x0A) (unlines ls @ l) = ls @ [l]"
    using split_unlines [of ls l] assms by (auto simp: clean_line_def split_on_single)
  then show ?thesis using assms by (simp add: str_lines_def Let_def butlast_append clean_line_def map_idI)
qed

section \<open>Trimming strings put together\<close>

definition solid :: "char \<Rightarrow> bool" where
  "solid c \<longleftrightarrow> c \<notin> set (concat white_space)"

definition ascii :: "char \<Rightarrow> bool" where
  "ascii c \<longleftrightarrow> (of_char c :: nat) < 128"

lemma lead_len_zero_iff: "lead_len ws s = 0 \<longleftrightarrow> (\<forall>w\<in>set ws. w \<noteq> [] \<longrightarrow> take (length w) s \<noteq> w)"
  by (induction ws) auto

lemma lead_len_solid:
  assumes "solid c" shows "lead_len white_space (c # s) = 0" "lead_len (map rev white_space) (c # s) = 0"
proof -
  have none: "lead_len ws (c # s) = 0" if "\<forall>w\<in>set ws. set w \<subseteq> set (concat white_space)" for ws
    unfolding lead_len_zero_iff
  proof (intro ballI impI notI)
    fix w assume "w \<in> set ws" and w: "w \<noteq> []" "take (length w) (c # s) = w"
    have "c \<in> set w" using w by (cases w) auto
    with that \<open>w \<in> set ws\<close> assms show False by (auto simp: solid_def)
  qed
  show "lead_len white_space (c # s) = 0" by (rule none) auto
  show "lead_len (map rev white_space) (c # s) = 0" by (rule none) auto
qed

lemma white_space_ascii: "w \<in> set white_space \<Longrightarrow> b \<in> set w \<Longrightarrow> ascii b \<Longrightarrow> length w = 1"
  unfolding white_space_def ascii_def by auto

definition trimmed :: "string \<Rightarrow> bool" where
  "trimmed s \<longleftrightarrow> trim s = s"

lemma trimmed_lead: assumes "trimmed s"
  shows "lead_len white_space s = 0" "lead_len (map rev white_space) (rev s) = 0"
proof -
  obtain q where q: "trim_start s = trim s @ q" using trim_end_prefix unfolding trim_def by blast
  obtain p where p: "s = p @ trim_start s" using strip_lead_suffix unfolding trim_start_def by blast
  have len: "length s = length p + length (trim s) + length q" using p q by (metis length_append add.assoc)
  then have "p = []" using assms by (simp add: trimmed_def)
  then have start: "trim_start s = s" using p by simp
  then show "lead_len white_space s = 0" unfolding trim_start_def by (metis lead_len_strip)
  have "trim_end s = s" using assms start by (simp add: trimmed_def trim_def)
  then have "strip_lead (map rev white_space) (rev s) = rev s" unfolding trim_end_def by (metis rev_rev_ident)
  then show "lead_len (map rev white_space) (rev s) = 0" by (metis lead_len_strip)
qed

lemma trimmedI: "lead_len white_space s = 0 \<Longrightarrow> lead_len (map rev white_space) (rev s) = 0 \<Longrightarrow> trimmed s"
  by (simp add: trimmed_def trim_def trim_start_def trim_end_def strip_lead_fixed)

text \<open>A prefix that starts solid and ends in an ASCII character, before a trimmed rest.\<close>

lemma trimmed_append:
  assumes "solid c" and "ascii e" and p: "trimmed p" "p \<noteq> []"
  shows "trimmed (c # a @ e # p)"
proof (rule trimmedI)
  show "lead_len white_space (c # a @ e # p) = 0" using assms(1) by (rule lead_len_solid)
  show "lead_len (map rev white_space) (rev (c # a @ e # p)) = 0"
    unfolding lead_len_zero_iff
  proof (intro ballI impI notI)
    fix w assume w: "w \<in> set (map rev white_space)" "w \<noteq> []" and t: "take (length w) (rev (c # a @ e # p)) = w"
    then obtain v where v: "v \<in> set white_space" "w = rev v" by auto
    show False
    proof (cases "length w \<le> length p")
      case True
      then have "take (length w) (rev p) = w" using t by simp
      then show False using trimmed_lead(2) [OF p(1)] w unfolding lead_len_zero_iff by blast
    next
      case False
      then obtain r where "take (length w) (rev (c # a @ e # p)) = rev p @ e # r"
        by (simp add: take_Cons')
      then have "e \<in> set w" using t by (metis in_set_conv_decomp)
      then have "length w = 1" using white_space_ascii [OF v(1), of e] v(2) assms(2) by simp
      with False p(2) show False by (cases p) auto
    qed
  qed
qed

lemma trim_newline:
  assumes "solid c" and "solid e" shows "trim (c # a @ [e, CHR 0x0A]) = c # a @ [e]"
proof -
  have "trim_start (c # a @ [e, CHR 0x0A]) = c # a @ [e, CHR 0x0A]"
    by (simp add: trim_start_def strip_lead_fixed lead_len_solid [OF assms(1)])
  moreover have "lead_len (map rev white_space) (CHR 0x0A # e # rev a @ [c]) = 1"
    by (simp add: white_space_def)
  then have "strip_lead (map rev white_space) (CHR 0x0A # e # rev a @ [c]) = e # rev a @ [c]"
    by (subst strip_lead.simps) (simp add: strip_lead_fixed lead_len_solid [OF assms(2)])
  ultimately show ?thesis by (simp add: trim_def trim_end_def)
qed

lemma strip_lead_solid_end:
  assumes "solid c"
  shows "\<exists>r'. strip_lead (map rev white_space) (r @ [c]) = r' @ [c]"
proof (induction "length r" arbitrary: r rule: less_induct)
  case less
  let ?W = "map rev white_space" and ?n = "lead_len (map rev white_space) (r @ [c])"
  show ?case
  proof (cases "?n = 0")
    case True
    then show ?thesis by (auto simp: strip_lead_fixed)
  next
    case False
    have "\<exists>w\<in>set ws. w \<noteq> [] \<and> take (length w) s = w \<and> lead_len ws s = length w" if "lead_len ws s \<noteq> 0" for ws s
      using that by (induction ws) (auto split: if_splits)
    with False obtain w where w: "w \<in> set ?W" "w \<noteq> []" "take (length w) (r @ [c]) = w" "?n = length w" by blast
    have "c \<notin> set w" using w(1) assms by (auto simp: solid_def)
    then have "length w \<le> length r" using w(3) by (cases "length w \<le> length r") (auto simp: take_Cons')
    then have "drop ?n (r @ [c]) = drop (length w) r @ [c]" using w(4) by simp
    moreover have "length (drop (length w) r) < length r" using w(2) \<open>length w \<le> length r\<close> by (cases w) auto
    ultimately show ?thesis using less [of "drop (length w) r"] False by (subst strip_lead.simps) simp
  qed
qed

lemma trim_solid: "solid c \<Longrightarrow> \<exists>t'. trim (c # t) = c # t'"
  using strip_lead_solid_end [of c "rev t"]
  by (auto simp: trim_def trim_start_def trim_end_def strip_lead_fixed lead_len_solid) (metis rev_rev_ident)

lemma solid_not_blank: "solid c \<Longrightarrow> \<not> blank (c # s)"
  using trim_solid [of c s] by (auto simp: blank_def)

section \<open>Paths\<close>

datatype path_component = RootDir | CurDir | ParentDir | Normal string

definition is_absolute :: "string \<Rightarrow> bool" where
  "is_absolute p \<longleftrightarrow> (case p of [] \<Rightarrow> False | c # _ \<Rightarrow> c = CHR ''/'')"

definition segment_component :: "string \<Rightarrow> path_component" where
  "segment_component s = (if s = ''..'' then ParentDir else Normal s)"

text \<open>
  \<open>Path::components\<close>: repeated separators and a trailing one are ignored, and so is a dot
  segment unless the path starts with it.
\<close>

definition path_components :: "string \<Rightarrow> path_component list" where
  "path_components p =
     (if is_absolute p then [RootDir] else if hd (split_on (CHR ''/'') p) = ''.'' then [CurDir] else []) @
     map segment_component (filter (\<lambda>s. s \<noteq> [] \<and> s \<noteq> ''.'') (split_on (CHR ''/'') p))"

text \<open>\<open>Path::starts_with\<close> compares components.\<close>

definition path_starts_with :: "string \<Rightarrow> string \<Rightarrow> bool" where
  "path_starts_with p base \<longleftrightarrow> take (length (path_components base)) (path_components p) = path_components base"

lemma path_starts_with_refl [simp]: "path_starts_with p p"
  by (simp add: path_starts_with_def)

lemma path_starts_with_trans:
  assumes "path_starts_with p q" and "path_starts_with q r"
  shows "path_starts_with p r"
proof -
  let ?c = path_components
  have "length (?c r) \<le> length (?c q)"
    using assms(2) by (metis length_take min.cobounded1 path_starts_with_def)
  then have "take (length (?c r)) (?c p) = take (length (?c r)) (take (length (?c q)) (?c p))"
    by (simp add: min_def)
  with assms show ?thesis by (simp add: path_starts_with_def)
qed

text \<open>\<open>Path::join\<close> on Unix.\<close>

definition path_join :: "string \<Rightarrow> string \<Rightarrow> string" where
  "path_join base p =
     (if is_absolute p then p else if base = [] then p
      else if last base = CHR ''/'' then base @ p else base @ ''/'' @ p)"

fun component_text :: "path_component \<Rightarrow> string" where
  "component_text RootDir = []"
| "component_text CurDir = ''.''"
| "component_text ParentDir = ''..''"
| "component_text (Normal s) = s"

text \<open>\<open>Path::strip_prefix\<close>: the components behind the prefix, with single separators.\<close>

definition path_strip_prefix :: "string \<Rightarrow> string \<Rightarrow> string option" where
  "path_strip_prefix p base =
     (if path_starts_with p base
      then Some (join_with ''/'' (map component_text (drop (length (path_components base)) (path_components p))))
      else None)"

end
