(* ===== verification/Claims.thy ===== *)
theory Claims
  imports Wire Strings
begin

text \<open>
  The registry of file claims (\<open>crates/ta-orchestrator/src/workspace/claims.rs\<close>): which capsule
  works on which files, until when, and the warning when two of them meet. The clock is an
  argument of every operation that reads it; the mutex makes each operation a function.

  A \<open>SystemTime\<close> is a number of nanoseconds since the epoch, a \<open>Duration\<close> a natural number of
  them. A path is a string; a normalised claim path is the list of its segments, which is also
  how \<open>PathBuf\<close> compares. Paths are those of Unix.
\<close>

section \<open>Paths\<close>

datatype claim_error = ClaimInvalidPath string

type_synonym claim_path = "string list"

fun normalize_components :: "string \<Rightarrow> path_component list \<Rightarrow> claim_path \<Rightarrow> (claim_path, claim_error) result" where
  "normalize_components p [] normalized = Ok normalized"
| "normalize_components p (c # cs) normalized =
     (case c of
        Normal segment \<Rightarrow> normalize_components p cs (normalized @ [segment])
      | CurDir \<Rightarrow> normalize_components p cs normalized
      | ParentDir \<Rightarrow> Err (ClaimInvalidPath (''parent traversal is not claimable: '' @ p))
      | RootDir \<Rightarrow> Err (ClaimInvalidPath (''absolute paths are not claimable: '' @ p)))"

definition normalize_claim_path :: "string \<Rightarrow> (claim_path, claim_error) result" where
  "normalize_claim_path p =
     (if p = [] then Err (ClaimInvalidPath ''path is empty'')
      else if is_absolute p then Err (ClaimInvalidPath (''absolute paths are not claimable: '' @ p))
      else try_then (normalize_components p (path_components p) []) (\<lambda>normalized.
        if normalized = [] then Err (ClaimInvalidPath ''path has no file segment'') else Ok normalized))"

text \<open>\<open>sort\<close> and \<open>dedup\<close>.\<close>

definition sort_dedup :: "'a::linorder list \<Rightarrow> 'a list" where
  "sort_dedup xs = remdups_adj (sort xs)"

fun normalize_all :: "string list \<Rightarrow> (claim_path list, claim_error) result" where
  "normalize_all [] = Ok []"
| "normalize_all (p # ps) =
     try_then (normalize_claim_path p) (\<lambda>x. try_then (normalize_all ps) (\<lambda>xs. Ok (x # xs)))"

definition normalize_file_list :: "string list \<Rightarrow> bool \<Rightarrow> (claim_path list, claim_error) result" where
  "normalize_file_list files allow_empty =
     (if files = []
      then if allow_empty then Ok [] else Err (ClaimInvalidPath ''claim requires at least one file'')
      else try_then (normalize_all files) (\<lambda>xs. Ok (sort_dedup xs)))"

section \<open>Time\<close>

type_synonym system_time = int
type_synonym duration = nat

definition default_claim_ttl :: duration where
  "default_claim_ttl = 30 * 60 * 10 ^ 9"

text \<open>The last instant a \<open>SystemTime\<close> can hold: signed 64-bit seconds and nanoseconds.\<close>

definition system_time_max :: system_time where
  "system_time_max = 2 ^ 63 * 10 ^ 9 - 1"

definition time_checked_add :: "system_time \<Rightarrow> duration \<Rightarrow> system_time option" where
  "time_checked_add t d = (if t + int d \<le> system_time_max then Some (t + int d) else None)"

definition checked_add :: "system_time \<Rightarrow> duration \<Rightarrow> (system_time, claim_error) result" where
  "checked_add t d = (case time_checked_add t d of
     None \<Rightarrow> Err (ClaimInvalidPath ''claim ttl overflows system time'') | Some x \<Rightarrow> Ok x)"

text \<open>\<open>now.duration_since(t)\<close> is an error when \<open>t\<close> is later.\<close>

definition duration_since :: "system_time \<Rightarrow> system_time \<Rightarrow> duration option" where
  "duration_since now t = (if t \<le> now then Some (nat (now - t)) else None)"

definition claim_is_expired :: "system_time \<Rightarrow> system_time \<Rightarrow> bool" where
  "claim_is_expired expires_at now = (duration_since now expires_at \<noteq> None)"

definition elapsed_since :: "system_time \<Rightarrow> system_time \<Rightarrow> duration" where
  "elapsed_since start now = (case duration_since now start of None \<Rightarrow> 0 | Some d \<Rightarrow> d)"

section \<open>The registry\<close>

datatype claim_kind = ClaimWrite

type_synonym capsule_id = run_id

record claim_record =
  cm_capsule_id :: capsule_id
  cm_files :: "claim_path list"
  cm_claimed_at :: system_time
  cm_expires_at :: system_time
  cm_kind :: claim_kind

record claim_conflict =
  cf_file :: claim_path
  cf_holding_capsule :: capsule_id
  cf_holding_since :: duration
  cf_holding_kind :: claim_kind

record claim_warning =
  cw'_requesting_capsule :: capsule_id
  cw'_conflicts :: "claim_conflict list"

record stored_claim =
  sc_record :: claim_record
  sc_token :: nat

record claim_registry =
  cg_claims :: "(capsule_id, stored_claim) btree"
  cg_by_file :: "(claim_path, capsule_id list) btree"
  cg_next_token :: nat
  cg_default_ttl :: duration

record claim_handle =
  ch_capsule_id :: capsule_id
  ch_files :: "claim_path list"
  ch_token :: nat

definition claim_registry_new :: claim_registry where
  "claim_registry_new =
     \<lparr>cg_claims = [], cg_by_file = [], cg_next_token = 0, cg_default_ttl = default_claim_ttl\<rparr>"

definition with_default_ttl :: "duration \<Rightarrow> claim_registry \<Rightarrow> claim_registry" where
  "with_default_ttl ttl g = g\<lparr>cg_default_ttl := ttl\<rparr>"

definition next_token :: "claim_registry \<Rightarrow> claim_registry \<times> nat" where
  "next_token g = (let t = sat_add (cg_next_token g) 1 in (g\<lparr>cg_next_token := t\<rparr>, t))"

definition index_insert :: "capsule_id \<Rightarrow> claim_path \<Rightarrow> (claim_path, capsule_id list) btree \<Rightarrow>
    (claim_path, capsule_id list) btree" where
  "index_insert c f m =
     bt_put f (sort_dedup ((case bt_get m f of None \<Rightarrow> [] | Some holders \<Rightarrow> holders) @ [c])) m"

definition insert_claim :: "claim_record \<Rightarrow> nat \<Rightarrow> claim_registry \<Rightarrow> claim_registry" where
  "insert_claim r token g =
     g\<lparr>cg_by_file := fold (index_insert (cm_capsule_id r)) (cm_files r) (cg_by_file g),
       cg_claims := bt_put (cm_capsule_id r) \<lparr>sc_record = r, sc_token = token\<rparr> (cg_claims g)\<rparr>"

definition index_remove :: "capsule_id \<Rightarrow> claim_path \<Rightarrow> (claim_path, capsule_id list) btree \<Rightarrow>
    (claim_path, capsule_id list) btree" where
  "index_remove c f m =
     (case bt_get m f of
        None \<Rightarrow> m
      | Some holders \<Rightarrow>
          (let rest = filter (\<lambda>h. h \<noteq> c) holders
           in if rest = [] then bt_del f m else bt_put f rest m))"

definition remove_from_index :: "capsule_id \<Rightarrow> claim_path list \<Rightarrow> claim_registry \<Rightarrow> claim_registry" where
  "remove_from_index c files g = g\<lparr>cg_by_file := fold (index_remove c) files (cg_by_file g)\<rparr>"

definition remove_claim :: "capsule_id \<Rightarrow> claim_registry \<Rightarrow> claim_registry \<times> bool" where
  "remove_claim c g =
     (case bt_get (cg_claims g) c of
        None \<Rightarrow> (g, False)
      | Some stored \<Rightarrow>
          (remove_from_index c (cm_files (sc_record stored)) (g\<lparr>cg_claims := bt_del c (cg_claims g)\<rparr>), True))"

definition release_if_current :: "capsule_id \<Rightarrow> nat \<Rightarrow> claim_registry \<Rightarrow> claim_registry" where
  "release_if_current c token g =
     (case bt_get (cg_claims g) c of
        None \<Rightarrow> g
      | Some stored \<Rightarrow> if sc_token stored \<noteq> token then g else fst (remove_claim c g))"

definition refresh_if_current :: "capsule_id \<Rightarrow> nat \<Rightarrow> duration \<Rightarrow> system_time \<Rightarrow> claim_registry \<Rightarrow> claim_registry" where
  "refresh_if_current c token additional now g =
     (case bt_get (cg_claims g) c of
        None \<Rightarrow> g
      | Some stored \<Rightarrow>
          if sc_token stored \<noteq> token then g
          else
            let base = (if claim_is_expired (cm_expires_at (sc_record stored)) now then now
                        else cm_expires_at (sc_record stored))
            in case time_checked_add base additional of
                 None \<Rightarrow> g
               | Some e \<Rightarrow> g\<lparr>cg_claims := bt_put c (stored\<lparr>sc_record := (sc_record stored)\<lparr>cm_expires_at := e\<rparr>\<rparr>)
                   (cg_claims g)\<rparr>)"

definition handle_release :: "claim_handle \<Rightarrow> claim_registry \<Rightarrow> claim_registry" where
  "handle_release h g = release_if_current (ch_capsule_id h) (ch_token h) g"

definition handle_refresh :: "claim_handle \<Rightarrow> duration \<Rightarrow> system_time \<Rightarrow> claim_registry \<Rightarrow> claim_registry" where
  "handle_refresh h additional now g = refresh_if_current (ch_capsule_id h) (ch_token h) additional now g"

text \<open>The two loops of \<open>conflict_warning\<close>, with the pairs seen and the conflicts found so far.\<close>

fun holder_loop :: "claim_registry \<Rightarrow> capsule_id \<Rightarrow> system_time \<Rightarrow> claim_path \<Rightarrow> capsule_id list \<Rightarrow>
    (claim_path \<times> capsule_id) set \<times> claim_conflict list \<Rightarrow> (claim_path \<times> capsule_id) set \<times> claim_conflict list" where
  "holder_loop g me now f [] acc = acc"
| "holder_loop g me now f (c # cs) (seen, found) =
     (if c = me then holder_loop g me now f cs (seen, found)
      else if (f, c) \<in> seen then holder_loop g me now f cs (seen, found)
      else let seen' = insert (f, c) seen
      in case bt_get (cg_claims g) c of
        None \<Rightarrow> holder_loop g me now f cs (seen', found)
      | Some stored \<Rightarrow>
          holder_loop g me now f cs (seen', found @
            [\<lparr>cf_file = f, cf_holding_capsule = c,
              cf_holding_since = elapsed_since (cm_claimed_at (sc_record stored)) now,
              cf_holding_kind = cm_kind (sc_record stored)\<rparr>]))"

fun file_loop :: "claim_registry \<Rightarrow> capsule_id \<Rightarrow> system_time \<Rightarrow> claim_path list \<Rightarrow>
    (claim_path \<times> capsule_id) set \<times> claim_conflict list \<Rightarrow> (claim_path \<times> capsule_id) set \<times> claim_conflict list" where
  "file_loop g me now [] acc = acc"
| "file_loop g me now (f # fs) acc =
     (case bt_get (cg_by_file g) f of
        None \<Rightarrow> file_loop g me now fs acc
      | Some holders \<Rightarrow> file_loop g me now fs (holder_loop g me now f holders acc))"

definition claim_conflict_warning :: "capsule_id \<Rightarrow> claim_path list \<Rightarrow> system_time \<Rightarrow> claim_registry \<Rightarrow> claim_warning option" where
  "claim_conflict_warning me files now g =
     (let found = snd (file_loop g me now files ({}, []))
      in if found = [] then None else Some \<lparr>cw'_requesting_capsule = me, cw'_conflicts = found\<rparr>)"

definition sweep_expired_at :: "system_time \<Rightarrow> claim_registry \<Rightarrow> claim_registry \<times> nat" where
  "sweep_expired_at now g =
     (let expired = map fst (filter (\<lambda>e. claim_is_expired (cm_expires_at (sc_record (snd e))) now) (cg_claims g))
      in (fold (\<lambda>c g. fst (remove_claim c g)) expired g, length expired))"

definition claim_files :: "capsule_id \<Rightarrow> string list \<Rightarrow> duration option \<Rightarrow> claim_kind \<Rightarrow> system_time \<Rightarrow> claim_registry \<Rightarrow>
    claim_registry \<times> (claim_handle \<times> claim_warning option, claim_error) result" where
  "claim_files c files ttl kind now g =
     (case normalize_file_list files False of
        Inl e \<Rightarrow> (g, Err e)
      | Inr fs \<Rightarrow>
     (case checked_add now (case ttl of None \<Rightarrow> cg_default_ttl g | Some d \<Rightarrow> d) of
        Inl e \<Rightarrow> (g, Err e)
      | Inr expires_at \<Rightarrow>
          let g1 = fst (sweep_expired_at now g);
              warning = claim_conflict_warning c fs now g1;
              g2 = fst (remove_claim c g1);
              (g3, token) = next_token g2;
              r = \<lparr>cm_capsule_id = c, cm_files = fs, cm_claimed_at = now, cm_expires_at = expires_at, cm_kind = kind\<rparr>
          in (insert_claim r token g3,
              Ok (\<lparr>ch_capsule_id = c, ch_files = fs, ch_token = token\<rparr>, warning))))"

definition check_conflict :: "capsule_id \<Rightarrow> string list \<Rightarrow> system_time \<Rightarrow> claim_registry \<Rightarrow>
    claim_registry \<times> (claim_warning option, claim_error) result" where
  "check_conflict c files now g =
     (case normalize_file_list files True of
        Inl e \<Rightarrow> (g, Err e)
      | Inr fs \<Rightarrow>
          if fs = [] then (g, Ok None)
          else let g1 = fst (sweep_expired_at now g) in (g1, Ok (claim_conflict_warning c fs now g1)))"

definition active_claims :: "system_time \<Rightarrow> claim_registry \<Rightarrow> claim_registry \<times> claim_record list" where
  "active_claims now g =
     (let g1 = fst (sweep_expired_at now g) in (g1, map sc_record (bt_values (cg_claims g1))))"

definition sweep_expired :: "system_time \<Rightarrow> claim_registry \<Rightarrow> claim_registry \<times> nat" where
  "sweep_expired now g = sweep_expired_at now g"

end
