(* ===== verification/ClaimsCorrect.thy ===== *)
theory ClaimsCorrect
  imports Claims
begin

text \<open>
  Correctness of the claim registry: the index by file is a function of the claims, which every
  operation keeps; the warnings name exactly the live claims of other capsules on the same
  files; and a handle acts on its own claim only, never on a newer one.
\<close>

section \<open>Sorted lists without repetition\<close>

lemma strict_sorted_remdups_adj: "sorted xs \<Longrightarrow> sorted_wrt (<) (remdups_adj (xs :: 'a::linorder list))"
  by (induction xs rule: remdups_adj.induct) (fastforce simp: less_le)+

lemma sort_dedup_set [simp]: "set (sort_dedup xs) = set xs"
  by (simp add: sort_dedup_def)

lemma sort_dedup_sorted: "sorted_wrt (<) (sort_dedup xs)"
  by (simp add: sort_dedup_def strict_sorted_remdups_adj)

lemma sort_dedup_eqI: "sorted_wrt (<) ys \<Longrightarrow> set ys = set xs \<Longrightarrow> sort_dedup xs = ys"
  by (rule strict_sorted_equal) (simp_all add: sort_dedup_sorted)

lemma sort_dedup_cong: "set xs = set ys \<Longrightarrow> sort_dedup xs = sort_dedup ys"
  by (rule sort_dedup_eqI) (simp_all add: sort_dedup_sorted)

lemma sort_dedup_Nil [simp]: "sort_dedup xs = [] \<longleftrightarrow> xs = []"
  by (simp add: sort_dedup_def) (metis set_empty set_sort)

section \<open>The index is determined by the claims\<close>

type_synonym claim_table = "(capsule_id, stored_claim) btree"

definition files_of :: "stored_claim \<Rightarrow> claim_path list" where
  "files_of st = cm_files (sc_record st)"

definition holders :: "claim_table \<Rightarrow> claim_path \<Rightarrow> capsule_id list" where
  "holders claims f = map fst (filter (\<lambda>e. f \<in> set (files_of (snd e))) claims)"

definition index_ok :: "claim_table \<Rightarrow> (claim_path, capsule_id list) btree \<Rightarrow> bool" where
  "index_ok claims m \<longleftrightarrow>
     (\<forall>f. bt_get m f = (if holders claims f = [] then None else Some (holders claims f)))"

lemma holders_sorted: "bt_wf claims \<Longrightarrow> sorted_wrt (<) (holders claims f)"
  using bt_wf_filter [of claims] by (simp add: holders_def bt_wf_def)

lemma set_holders:
  "bt_wf claims \<Longrightarrow> set (holders claims f) = {c. \<exists>st. bt_get claims c = Some st \<and> f \<in> set (files_of st)}"
  by (force simp: holders_def bt_get_iff)

lemma holders_eqI:
  "bt_wf claims \<Longrightarrow> sorted_wrt (<) hs \<Longrightarrow> set hs = set (holders claims f) \<Longrightarrow> hs = holders claims f"
  by (rule strict_sorted_equal) (simp_all add: holders_sorted)

definition add_holder :: "capsule_id \<Rightarrow> capsule_id list option \<Rightarrow> capsule_id list" where
  "add_holder c hs = sort_dedup ((case hs of None \<Rightarrow> [] | Some xs \<Rightarrow> xs) @ [c])"

definition drop_holder :: "capsule_id \<Rightarrow> capsule_id list option \<Rightarrow> capsule_id list option" where
  "drop_holder c hs = (case hs of None \<Rightarrow> None | Some xs \<Rightarrow>
     (let rest = filter (\<lambda>h. h \<noteq> c) xs in if rest = [] then None else Some rest))"

lemma index_insert_get:
  "bt_get (index_insert c f m) f' = (if f' = f then Some (add_holder c (bt_get m f)) else bt_get m f')"
  by (simp add: index_insert_def add_holder_def)

lemma index_remove_get:
  "bt_get (index_remove c f m) f' = (if f' = f then drop_holder c (bt_get m f) else bt_get m f')"
  by (auto simp: index_remove_def drop_holder_def Let_def split: option.splits)

lemma add_holder_idem: "add_holder c (Some (add_holder c hs)) = add_holder c hs"
  by (auto simp: add_holder_def intro: sort_dedup_cong)

lemma drop_holder_idem: "drop_holder c (drop_holder c hs) = drop_holder c hs"
  by (auto simp: drop_holder_def Let_def split: option.splits)

lemma fold_index_insert:
  "bt_get (fold (index_insert c) fs m) f = (if f \<in> set fs then Some (add_holder c (bt_get m f)) else bt_get m f)"
  by (induction fs arbitrary: m) (auto simp: index_insert_get add_holder_idem)

lemma fold_index_remove:
  "bt_get (fold (index_remove c) fs m) f = (if f \<in> set fs then drop_holder c (bt_get m f) else bt_get m f)"
  by (induction fs arbitrary: m) (auto simp: index_remove_get drop_holder_idem)

lemma index_ok_get: "index_ok claims m \<Longrightarrow> (case bt_get m f of None \<Rightarrow> [] | Some hs \<Rightarrow> hs) = holders claims f"
  by (simp add: index_ok_def)

lemma index_ok_insert:
  assumes ok: "index_ok claims m" and wf: "bt_wf claims" and new: "bt_get claims c = None"
  shows "index_ok (bt_put c st claims) (fold (index_insert c) (files_of st) m)"
  unfolding index_ok_def
proof
  fix f
  let ?cs = "bt_put c st claims"
  have set: "set (holders ?cs f) = (if f \<in> set (files_of st) then {c} else {}) \<union> set (holders claims f)"
    using wf new by (auto simp: set_holders)
  show "bt_get (fold (index_insert c) (files_of st) m) f = (if holders ?cs f = [] then None else Some (holders ?cs f))"
  proof (cases "f \<in> set (files_of st)")
    case True
    have "add_holder c (bt_get m f) = holders ?cs f"
      unfolding add_holder_def index_ok_get [OF ok]
      using set True wf by (intro sort_dedup_eqI holders_sorted) auto
    moreover have "holders ?cs f \<noteq> []" using set True by auto
    ultimately show ?thesis using True by (simp add: fold_index_insert)
  next
    case False
    then have "holders ?cs f = holders claims f" using set wf by (intro holders_eqI holders_sorted) simp_all
    then show ?thesis using False ok by (simp add: fold_index_insert index_ok_def)
  qed
qed

lemma index_ok_remove:
  assumes ok: "index_ok claims m" and wf: "bt_wf claims" and st: "bt_get claims c = Some st"
  shows "index_ok (bt_del c claims) (fold (index_remove c) (files_of st) m)"
  unfolding index_ok_def
proof
  fix f
  have h: "holders (bt_del c claims) f = filter (\<lambda>h. h \<noteq> c) (holders claims f)"
    by (simp add: holders_def bt_del_def filter_map comp_def conj_commute)
  have "filter (\<lambda>h. h \<noteq> c) (holders claims f) = holders claims f" if "f \<notin> set (files_of st)"
    using that st wf by (auto simp: filter_id_conv set_holders)
  then show "bt_get (fold (index_remove c) (files_of st) m) f =
      (if holders (bt_del c claims) f = [] then None else Some (holders (bt_del c claims) f))"
    using ok by (auto simp: fold_index_remove h index_ok_def drop_holder_def)
qed

section \<open>The invariant\<close>

definition claims_ok :: "claim_registry \<Rightarrow> bool" where
  "claims_ok g \<longleftrightarrow> bt_wf (cg_claims g) \<and> index_ok (cg_claims g) (cg_by_file g) \<and>
     cg_next_token g \<le> u64_max \<and>
     (\<forall>c st. bt_get (cg_claims g) c = Some st \<longrightarrow>
        cm_capsule_id (sc_record st) = c \<and> sc_token st \<le> cg_next_token g)"

lemma claims_ok_new: "claims_ok claim_registry_new"
  by (simp add: claims_ok_def claim_registry_new_def index_ok_def holders_def)

lemma remove_claim_claims [simp]:
  "bt_get (cg_claims (fst (remove_claim c g))) c' = (if c' = c then None else bt_get (cg_claims g) c')"
  "cg_next_token (fst (remove_claim c g)) = cg_next_token g"
  "cg_default_ttl (fst (remove_claim c g)) = cg_default_ttl g"
  by (auto simp: remove_claim_def remove_from_index_def split: option.splits)

lemma remove_claim_ok:
  assumes "claims_ok g" shows "claims_ok (fst (remove_claim c g))"
  using assms index_ok_remove [of "cg_claims g" "cg_by_file g" c]
  by (auto simp: claims_ok_def remove_claim_def remove_from_index_def files_of_def split: option.splits if_splits)

lemma fold_remove_claim:
  "claims_ok g \<Longrightarrow> claims_ok (fold (\<lambda>c g. fst (remove_claim c g)) cs g)"
  "bt_get (cg_claims (fold (\<lambda>c g. fst (remove_claim c g)) cs g)) c' =
     (if c' \<in> set cs then None else bt_get (cg_claims g) c')"
  "cg_next_token (fold (\<lambda>c g. fst (remove_claim c g)) cs g) = cg_next_token g"
  "cg_default_ttl (fold (\<lambda>c g. fst (remove_claim c g)) cs g) = cg_default_ttl g"
  by (induction cs arbitrary: g) (auto simp: remove_claim_ok)

definition expired :: "system_time \<Rightarrow> stored_claim \<Rightarrow> bool" where
  "expired now st \<longleftrightarrow> claim_is_expired (cm_expires_at (sc_record st)) now"

lemma sweep_ok:
  assumes "claims_ok g"
  shows "claims_ok (fst (sweep_expired_at now g))"
    and "bt_get (cg_claims (fst (sweep_expired_at now g))) c =
      (case bt_get (cg_claims g) c of None \<Rightarrow> None | Some st \<Rightarrow> if expired now st then None else Some st)"
    and "cg_next_token (fst (sweep_expired_at now g)) = cg_next_token g"
    and "cg_default_ttl (fst (sweep_expired_at now g)) = cg_default_ttl g"
proof -
  have wf: "bt_wf (cg_claims g)" using assms by (simp add: claims_ok_def)
  have "c \<in> set (map fst (filter (\<lambda>e. claim_is_expired (cm_expires_at (sc_record (snd e))) now) (cg_claims g))) \<longleftrightarrow>
      (\<exists>st. bt_get (cg_claims g) c = Some st \<and> expired now st)"
    using wf by (force simp: expired_def bt_get_iff)
  then show "bt_get (cg_claims (fst (sweep_expired_at now g))) c =
      (case bt_get (cg_claims g) c of None \<Rightarrow> None | Some st \<Rightarrow> if expired now st then None else Some st)"
    by (auto simp: sweep_expired_at_def fold_remove_claim split: option.splits)
qed (simp_all add: sweep_expired_at_def fold_remove_claim assms)

lemma insert_claim_ok:
  assumes ok: "claims_ok g" and new: "bt_get (cg_claims g) (cm_capsule_id r) = None"
    and token: "next_token g = (g', t)"
  shows "claims_ok (insert_claim r t g')"
proof -
  have t: "t = sat_add (cg_next_token g) 1" and g': "g' = g\<lparr>cg_next_token := t\<rparr>"
    using token by (auto simp: next_token_def Let_def)
  have "cg_next_token g \<le> t" "t \<le> u64_max" using ok by (simp_all add: t claims_ok_def sat_add_ge)
  then show ?thesis
    using ok new index_ok_insert [of "cg_claims g" "cg_by_file g" "cm_capsule_id r" "\<lparr>sc_record = r, sc_token = t\<rparr>"]
    by (auto simp: claims_ok_def insert_claim_def g' files_of_def intro: order_trans)
qed

lemma refresh_ok:
  assumes "claims_ok g" shows "claims_ok (refresh_if_current c token additional now g)"
proof -
  have "holders (bt_put c st' cs) f = holders cs f"
    if wf: "bt_wf cs" and "bt_get cs c = Some st" "files_of st' = files_of st" for st st' cs f
    using that by (intro holders_eqI holders_sorted) (auto simp: set_holders)
  with assms show ?thesis
    by (auto simp: claims_ok_def refresh_if_current_def Let_def index_ok_def files_of_def split: option.splits)
qed

section \<open>Operations in any order\<close>

datatype claim_op =
    OpClaim capsule_id "string list" "duration option" claim_kind system_time
  | OpCheck capsule_id "string list" system_time
  | OpSweep system_time
  | OpRefresh claim_handle duration system_time
  | OpRelease claim_handle

fun claim_step :: "claim_op \<Rightarrow> claim_registry \<Rightarrow> claim_registry" where
  "claim_step (OpClaim c files ttl kind now) g = fst (claim_files c files ttl kind now g)"
| "claim_step (OpCheck c files now) g = fst (check_conflict c files now g)"
| "claim_step (OpSweep now) g = fst (sweep_expired now g)"
| "claim_step (OpRefresh h additional now) g = handle_refresh h additional now g"
| "claim_step (OpRelease h) g = handle_release h g"

lemma claim_files_cases:
  obtains (err) e where "claim_files c files ttl kind now g = (g, Err e)"
  | (ok) fs expires_at g1 g2 t where
    "normalize_file_list files False = Ok fs"
    "checked_add now (case ttl of None \<Rightarrow> cg_default_ttl g | Some d \<Rightarrow> d) = Ok expires_at"
    "g1 = fst (sweep_expired_at now g)" "next_token (fst (remove_claim c g1)) = (g2, t)"
    "claim_files c files ttl kind now g =
       (insert_claim \<lparr>cm_capsule_id = c, cm_files = fs, cm_claimed_at = now, cm_expires_at = expires_at, cm_kind = kind\<rparr> t g2,
        Ok (\<lparr>ch_capsule_id = c, ch_files = fs, ch_token = t\<rparr>, claim_conflict_warning c fs now g1))"
proof (cases "normalize_file_list files False")
  case (Inl e)
  then show ?thesis by (intro err) (simp add: claim_files_def)
next
  case fs: (Inr fs)
  show ?thesis
  proof (cases "checked_add now (case ttl of None \<Rightarrow> cg_default_ttl g | Some d \<Rightarrow> d)")
    case (Inl e)
    then show ?thesis using fs by (intro err) (simp add: claim_files_def)
  next
    case (Inr expires_at)
    obtain g2 t where t: "next_token (fst (remove_claim c (fst (sweep_expired_at now g)))) = (g2, t)" by fastforce
    show ?thesis by (rule ok [OF fs Inr refl t]) (simp add: claim_files_def fs Inr t)
  qed
qed

lemma claim_step_ok:
  assumes ok: "claims_ok g" shows "claims_ok (claim_step a g)"
proof (cases a)
  case (OpClaim c files ttl kind now)
  show ?thesis
  proof (cases rule: claim_files_cases [of c files ttl kind now g])
    case err
    then show ?thesis using ok OpClaim by simp
  next
    case (ok fs expires_at g1 g2 t)
    then have "claims_ok g1" using assms sweep_ok(1) by simp
    then have "claims_ok (fst (remove_claim c g1))" by (rule remove_claim_ok)
    from insert_claim_ok [OF this _ ok(4)] ok(5) OpClaim show ?thesis by simp
  qed
next
  case (OpCheck c files now)
  then show ?thesis using ok sweep_ok(1) [OF ok]
    by (auto simp: check_conflict_def Let_def split: sum.splits)
next
  case (OpSweep now)
  then show ?thesis using sweep_ok(1) [OF ok] by (simp add: sweep_expired_def)
next
  case (OpRefresh h additional now)
  then show ?thesis using refresh_ok [OF ok] by (simp add: handle_refresh_def)
next
  case (OpRelease h)
  then show ?thesis using ok remove_claim_ok [OF ok]
    by (auto simp: handle_release_def release_if_current_def split: option.splits)
qed

definition registry_after :: "claim_op list \<Rightarrow> claim_registry \<Rightarrow> claim_registry" where
  "registry_after ops g = fold claim_step ops g"

lemma registry_after_simps [simp]:
  "registry_after [] g = g" "registry_after (a # ops) g = registry_after ops (claim_step a g)"
  by (simp_all add: registry_after_def)

lemma registry_after_ok: "claims_ok g \<Longrightarrow> claims_ok (registry_after ops g)"
  by (induction ops arbitrary: g) (simp_all add: claim_step_ok)

section \<open>Warnings\<close>

definition conflict_of :: "claim_table \<Rightarrow> system_time \<Rightarrow> claim_path \<Rightarrow> capsule_id \<Rightarrow> claim_conflict" where
  "conflict_of claims now f c = (case bt_get claims c of Some st \<Rightarrow>
     \<lparr>cf_file = f, cf_holding_capsule = c, cf_holding_since = elapsed_since (cm_claimed_at (sc_record st)) now,
      cf_holding_kind = cm_kind (sc_record st)\<rparr>)"

definition conflicts_on :: "claim_table \<Rightarrow> capsule_id \<Rightarrow> system_time \<Rightarrow> claim_path \<Rightarrow> claim_conflict list" where
  "conflicts_on claims me now f = map (conflict_of claims now f) (filter (\<lambda>c. c \<noteq> me) (holders claims f))"

lemma holder_loop_eq:
  assumes "distinct cs" and "\<forall>c\<in>set cs. (f, c) \<notin> seen" and "\<forall>c\<in>set cs. bt_get (cg_claims g) c \<noteq> None"
  shows "holder_loop g me now f cs (seen, found) =
      (seen \<union> Pair f ` (set cs - {me}), found @ map (conflict_of (cg_claims g) now f) (filter (\<lambda>c. c \<noteq> me) cs))"
  using assms
proof (induction cs arbitrary: seen found)
  case Nil
  then show ?case by simp
next
  case (Cons c cs)
  then obtain st where st: "bt_get (cg_claims g) c = Some st" by auto
  show ?case
  proof (cases "c = me")
    case True
    then show ?thesis using Cons by simp
  next
    case False
    have new: "\<forall>x\<in>set cs. (f, x) \<notin> insert (f, c) seen" using Cons.prems by auto
    have "holder_loop g me now f (c # cs) (seen, found)
        = holder_loop g me now f cs (insert (f, c) seen, found @ [conflict_of (cg_claims g) now f c])"
      using False st Cons.prems(2) by (simp add: Let_def conflict_of_def)
    also have "\<dots> = (insert (f, c) seen \<union> Pair f ` (set cs - {me}),
        (found @ [conflict_of (cg_claims g) now f c]) @ map (conflict_of (cg_claims g) now f) (filter (\<lambda>c. c \<noteq> me) cs))"
      using Cons.prems by (intro Cons.IH new) simp_all
    finally show ?thesis using False by (simp add: insert_Diff_if)
  qed
qed

lemma file_loop_eq:
  assumes ok: "claims_ok g"
  shows "distinct fs \<Longrightarrow> \<forall>f\<in>set fs. \<forall>c. (f, c) \<notin> seen \<Longrightarrow>
    snd (file_loop g me now fs (seen, found)) = found @ concat (map (conflicts_on (cg_claims g) me now) fs)"
proof (induction fs arbitrary: seen found)
  case Nil
  then show ?case by simp
next
  case (Cons f fs)
  have wf: "bt_wf (cg_claims g)" and index: "index_ok (cg_claims g) (cg_by_file g)" using ok by (simp_all add: claims_ok_def)
  show ?case
  proof (cases "holders (cg_claims g) f = []")
    case True
    then have "bt_get (cg_by_file g) f = None" using index by (simp add: index_ok_def)
    then show ?thesis using Cons True by (simp add: conflicts_on_def)
  next
    case False
    then have hs: "bt_get (cg_by_file g) f = Some (holders (cg_claims g) f)" using index by (simp add: index_ok_def)
    have "distinct (holders (cg_claims g) f)" using holders_sorted [OF wf] by (simp add: strict_sorted_iff)
    moreover have "\<forall>c\<in>set (holders (cg_claims g) f). bt_get (cg_claims g) c \<noteq> None" using wf by (auto simp: set_holders)
    moreover have "\<forall>c\<in>set (holders (cg_claims g) f). (f, c) \<notin> seen" using Cons.prems by simp
    ultimately have loop: "holder_loop g me now f (holders (cg_claims g) f) (seen, found) =
        (seen \<union> Pair f ` (set (holders (cg_claims g) f) - {me}), found @ conflicts_on (cg_claims g) me now f)"
      unfolding conflicts_on_def by (intro holder_loop_eq)
    have "\<forall>x\<in>set fs. \<forall>c. (x, c) \<notin> seen \<union> Pair f ` (set (holders (cg_claims g) f) - {me})"
      using Cons.prems by auto
    with Cons.IH [OF _ this] Cons.prems show ?thesis by (simp add: hs loop)
  qed
qed

lemma normalize_file_list_sorted: "normalize_file_list files b = Ok fs \<Longrightarrow> sorted_wrt (<) fs"
  by (auto simp: normalize_file_list_def try_then_def sort_dedup_sorted split: if_splits sum.splits)

lemma warning_conflicts:
  assumes ok: "claims_ok g" and fs: "sorted_wrt (<) fs"
  shows "(case claim_conflict_warning me fs now g of None \<Rightarrow> [] | Some w \<Rightarrow> cw'_conflicts w)
    = concat (map (conflicts_on (cg_claims g) me now) fs)"
proof -
  have "snd (file_loop g me now fs ({}, [])) = concat (map (conflicts_on (cg_claims g) me now) fs)"
    using file_loop_eq [OF ok, of fs "{}" me now "[]"] fs by (simp add: strict_sorted_iff)
  then show ?thesis by (simp add: claim_conflict_warning_def Let_def)
qed

text \<open>The claims another capsule holds at an instant, as the abstract view of the registry.\<close>

definition live_claim :: "claim_registry \<Rightarrow> system_time \<Rightarrow> capsule_id \<Rightarrow> stored_claim \<Rightarrow> bool" where
  "live_claim g now c st \<longleftrightarrow> bt_get (cg_claims g) c = Some st \<and> \<not> expired now st"

lemma live_claim_sweep:
  "claims_ok g \<Longrightarrow> bt_get (cg_claims (fst (sweep_expired_at now g))) c = Some st \<longleftrightarrow> live_claim g now c st"
  by (auto simp: sweep_ok(2) live_claim_def split: option.splits)

lemma conflicts_on_iff:
  assumes "bt_wf claims"
  shows "x \<in> set (conflicts_on claims me now f) \<longleftrightarrow>
    (\<exists>other st. other \<noteq> me \<and> bt_get claims other = Some st \<and> f \<in> set (files_of st) \<and>
      x = \<lparr>cf_file = f, cf_holding_capsule = other,
        cf_holding_since = elapsed_since (cm_claimed_at (sc_record st)) now, cf_holding_kind = cm_kind (sc_record st)\<rparr>)"
  unfolding conflicts_on_def using assms by (auto simp: set_holders conflict_of_def image_iff)

lemma set_conflicts:
  assumes "claims_ok g"
  shows "set (concat (map (conflicts_on (cg_claims (fst (sweep_expired_at now g))) me now) fs)) =
    {\<lparr>cf_file = f, cf_holding_capsule = other,
      cf_holding_since = elapsed_since (cm_claimed_at (sc_record st)) now, cf_holding_kind = cm_kind (sc_record st)\<rparr>
     | f other st. f \<in> set fs \<and> other \<noteq> me \<and> live_claim g now other st \<and> f \<in> set (files_of st)}"
proof -
  let ?cs = "cg_claims (fst (sweep_expired_at now g))"
  have wf: "bt_wf ?cs" using sweep_ok(1) [OF assms] by (simp add: claims_ok_def)
  show ?thesis
    unfolding set_concat set_map by (simp only: set_eq_iff UN_iff image_iff bex_simps conflicts_on_iff [OF wf]
        live_claim_sweep [OF assms] mem_Collect_eq) blast
qed

lemma distinct_conflicts:
  assumes wf: "bt_wf claims" and fs: "distinct fs"
  shows "distinct (concat (map (conflicts_on claims me now) fs))"
proof -
  have on: "distinct (conflicts_on claims me now f)" for f
  proof -
    have "distinct (holders claims f)" using holders_sorted [OF wf] by (simp add: strict_sorted_iff)
    moreover have "inj_on (conflict_of claims now f) (set (holders claims f))"
      using wf by (auto simp: inj_on_def set_holders conflict_of_def)
    ultimately show ?thesis
      unfolding conflicts_on_def by (auto simp: distinct_map intro: inj_on_subset)
  qed
  have of_file: "cf_file x = f" if "x \<in> set (conflicts_on claims me now f)" for x f
    using that by (auto simp: conflicts_on_iff [OF wf])
  show ?thesis using fs
  proof (induction fs)
    case Nil
    then show ?case by simp
  next
    case (Cons f fs)
    have "False" if "x \<in> set (conflicts_on claims me now f)" "x \<in> set (conflicts_on claims me now f')" "f' \<in> set fs" for x f'
      using of_file [OF that(1)] of_file [OF that(2)] that(3) Cons.prems by simp
    then have "set (conflicts_on claims me now f) \<inter> set (concat (map (conflicts_on claims me now) fs)) = {}"
      by (simp only: set_concat set_map) blast
    then show ?case using on [of f] Cons by (simp del: set_concat)
  qed
qed

text \<open>
  A claim is answered exactly. It always succeeds when the paths are claimable and its time
  to live fits the clock, and then the warning lists, each once, exactly the pairs of a claimed
  file and another capsule whose unexpired claim covers that file, with the time it has been
  held; afterwards the registry holds the unexpired claims of the other capsules and the new
  claim, in place of any older claim of the same capsule.
\<close>

theorem claim_is_exact:
  assumes g: "g = registry_after ops claim_registry_new"
    and claim: "claim_files c files ttl kind now g = (g', Ok (h, warning))"
  shows "normalize_file_list files False = Ok (ch_files h) \<and>
    distinct (case warning of None \<Rightarrow> [] | Some w \<Rightarrow> cw'_conflicts w) \<and>
    set (case warning of None \<Rightarrow> [] | Some w \<Rightarrow> cw'_conflicts w) =
      {\<lparr>cf_file = f, cf_holding_capsule = other,
        cf_holding_since = elapsed_since (cm_claimed_at (sc_record st)) now, cf_holding_kind = cm_kind (sc_record st)\<rparr>
       | f other st. f \<in> set (ch_files h) \<and> other \<noteq> c \<and> live_claim g now other st \<and> f \<in> set (files_of st)} \<and>
    (\<exists>expires_at. checked_add now (case ttl of None \<Rightarrow> cg_default_ttl g | Some d \<Rightarrow> d) = Ok expires_at \<and>
      (\<forall>x st. bt_get (cg_claims g') x = Some st \<longleftrightarrow>
        (if x = c
         then st = \<lparr>sc_record = \<lparr>cm_capsule_id = c, cm_files = ch_files h, cm_claimed_at = now,
                     cm_expires_at = expires_at, cm_kind = kind\<rparr>, sc_token = ch_token h\<rparr>
         else live_claim g now x st)))"
proof -
  have ok: "claims_ok g" unfolding g by (intro registry_after_ok claims_ok_new)
  show ?thesis
  proof (cases rule: claim_files_cases [of c files ttl kind now g])
    case (err e)
    then show ?thesis using claim by simp
  next
    case (ok fs expires_at g1 g2 t)
    have g1: "claims_ok g1" using sweep_ok(1) [OF \<open>claims_ok g\<close>] ok(3) by simp
    have sorted: "sorted_wrt (<) fs" by (rule normalize_file_list_sorted [OF ok(1)])
    then have "distinct fs" by (simp add: strict_sorted_iff)
    have h: "h = \<lparr>ch_capsule_id = c, ch_files = fs, ch_token = t\<rparr>" "warning = claim_conflict_warning c fs now g1"
      using claim ok(5) by auto
    have w: "(case warning of None \<Rightarrow> [] | Some w \<Rightarrow> cw'_conflicts w) = concat (map (conflicts_on (cg_claims g1) c now) fs)"
      unfolding h(2) by (rule warning_conflicts [OF g1 sorted])
    have "bt_wf (cg_claims g1)" using g1 by (simp add: claims_ok_def)
    note exact = distinct_conflicts [OF this \<open>distinct fs\<close>] set_conflicts [OF \<open>claims_ok g\<close>, of now c fs, folded ok(3)]
    have claims: "cg_claims g2 = cg_claims (fst (remove_claim c g1))" using ok(4) by (auto simp: next_token_def Let_def)
    have "bt_get (cg_claims g') x = Some st \<longleftrightarrow> (if x = c
        then st = \<lparr>sc_record = \<lparr>cm_capsule_id = c, cm_files = fs, cm_claimed_at = now,
                    cm_expires_at = expires_at, cm_kind = kind\<rparr>, sc_token = t\<rparr>
        else live_claim g now x st)" for x st
      using claim ok(5) live_claim_sweep [OF \<open>claims_ok g\<close>, of now x st, folded ok(3)]
      by (auto simp: insert_claim_def claims)
    then show ?thesis unfolding w h(1) using ok(1,2) exact by simp
  qed
qed

section \<open>Handles\<close>

lemma claim_step_token:
  assumes "claims_ok g" shows "cg_next_token g \<le> cg_next_token (claim_step a g)"
proof (cases a)
  case (OpClaim c files ttl kind now)
  show ?thesis
  proof (cases rule: claim_files_cases [of c files ttl kind now g])
    case (ok fs expires_at g1 g2 t)
    have "cg_next_token g \<le> sat_add (cg_next_token g) 1" using assms by (simp add: claims_ok_def sat_add_ge)
    then show ?thesis using ok OpClaim sweep_ok(3) [OF assms]
      by (auto simp: next_token_def Let_def insert_claim_def)
  qed (simp add: OpClaim)
qed (use assms sweep_ok(3) [OF assms] in \<open>auto simp: check_conflict_def sweep_expired_def Let_def
    handle_refresh_def refresh_if_current_def handle_release_def release_if_current_def split: sum.splits option.splits\<close>)

text \<open>The claim a handle was issued for is the only one that ever carries its token.\<close>

definition owns :: "claim_handle \<Rightarrow> system_time \<Rightarrow> claim_registry \<Rightarrow> bool" where
  "owns h since g \<longleftrightarrow> ch_token h \<le> cg_next_token g \<and>
     (\<forall>st. bt_get (cg_claims g) (ch_capsule_id h) = Some st \<longrightarrow> sc_token st = ch_token h \<longrightarrow>
        files_of st = ch_files h \<and> cm_claimed_at (sc_record st) = since)"

lemma owns_mono:
  assumes "owns h since g" and "cg_next_token g \<le> cg_next_token g'"
    and "\<And>st. bt_get (cg_claims g') (ch_capsule_id h) = Some st \<Longrightarrow>
      \<exists>st0. bt_get (cg_claims g) (ch_capsule_id h) = Some st0 \<and> sc_token st0 = sc_token st \<and>
        files_of st0 = files_of st \<and> cm_claimed_at (sc_record st0) = cm_claimed_at (sc_record st)"
  shows "owns h since g'"
  using assms unfolding owns_def by (metis order_trans)

lemma owns_sweep: "claims_ok g \<Longrightarrow> owns h since g \<Longrightarrow> owns h since (fst (sweep_expired_at now g))"
  by (rule owns_mono) (auto simp: sweep_ok split: option.splits if_splits)

lemma owns_step:
  assumes ok: "claims_ok g" and owns: "owns h since g" and room: "cg_next_token (claim_step a g) < u64_max"
  shows "owns h since (claim_step a g)"
proof (cases a)
  case (OpClaim c files ttl kind now)
  show ?thesis
  proof (cases rule: claim_files_cases [of c files ttl kind now g])
    case err
    then show ?thesis using owns OpClaim by simp
  next
    case (ok fs expires_at g1 g2 t)
    have g1: "owns h since g1" unfolding ok(3) by (rule owns_sweep [OF assms(1) owns])
    have t: "t = sat_add (cg_next_token g1) 1" "cg_next_token g2 = t" "cg_claims g2 = cg_claims (fst (remove_claim c g1))"
      using ok(4) by (auto simp: next_token_def Let_def)
    have "t < u64_max" using room ok(5) OpClaim t(2) by (simp add: insert_claim_def)
    then have "cg_next_token g1 < t" using t(1) by (simp add: sat_add_def)
    then have "owns h since (insert_claim \<lparr>cm_capsule_id = c, cm_files = fs, cm_claimed_at = now,
        cm_expires_at = expires_at, cm_kind = kind\<rparr> t g2)"
      using g1 by (auto simp: owns_def insert_claim_def t)
    then show ?thesis using ok(5) OpClaim by simp
  qed
next
  case (OpCheck c files now)
  then show ?thesis using owns owns_sweep [OF ok owns]
    by (auto simp: check_conflict_def Let_def split: sum.splits)
next
  case (OpSweep now)
  then show ?thesis using owns_sweep [OF ok owns] by (simp add: sweep_expired_def)
next
  case (OpRefresh h' additional now)
  show ?thesis using claim_step_token [OF ok, of a] OpRefresh
    by (intro owns_mono [OF owns])
      (auto simp: handle_refresh_def refresh_if_current_def Let_def files_of_def split: option.splits if_splits)
next
  case (OpRelease h')
  show ?thesis using claim_step_token [OF ok, of a] OpRelease
    by (intro owns_mono [OF owns])
      (auto simp: handle_release_def release_if_current_def split: option.splits if_splits)
qed

lemma owns_run:
  "claims_ok g \<Longrightarrow> owns h since g \<Longrightarrow> cg_next_token (registry_after ops g) < u64_max \<Longrightarrow>
    owns h since (registry_after ops g)"
proof (induction ops arbitrary: g)
  case (Cons a ops)
  have le: "cg_next_token g \<le> cg_next_token (registry_after ops g)" if "claims_ok g" for g
    using that
  proof (induction ops arbitrary: g)
    case (Cons b ops)
    then show ?case using claim_step_token [of g b] claim_step_ok [of g b] le_trans by fastforce
  qed simp
  note step = claim_step_ok [OF Cons.prems(1)]
  have "cg_next_token (claim_step a g) < u64_max"
    using le [OF step [of a]] Cons.prems(3) by simp
  then have "owns h since (claim_step a g)" by (rule owns_step [OF Cons.prems(1,2)])
  then show ?case using Cons.IH [OF step] Cons.prems(3) by simp
qed simp

lemma owns_fresh:
  assumes "claims_ok g" and "claim_files c files ttl kind now g = (g', Ok (h, warning))"
  shows "owns h now g' \<and> ch_capsule_id h = c"
proof (cases rule: claim_files_cases [of c files ttl kind now g])
  case (err e)
  then show ?thesis using assms(2) by simp
next
  case (ok fs expires_at g1 g2 t)
  then show ?thesis using assms(2)
    by (auto simp: owns_def insert_claim_def files_of_def next_token_def Let_def)
qed

text \<open>
  C37. A claim handle acts on the claim it was issued for and on no other. Whatever happens after
  the handle was issued (expiry, other capsules, the same capsule claiming again, other
  handles): either the capsule's current claim is still the handle's own, with its files and
  its start, or releasing and refreshing the handle change nothing. So dropping an old handle
  never releases a newer claim. (Tokens are distinct as long as fewer than \<open>2^64 - 1\<close> were issued.)
\<close>

theorem stale_handle_is_harmless:
  assumes g: "g = registry_after before claim_registry_new"
    and claim: "claim_files c files ttl kind now g = (g1, Ok (h, warning))"
    and room: "cg_next_token (registry_after later g1) < u64_max"
  shows "(\<exists>st. bt_get (cg_claims (registry_after later g1)) c = Some st \<and> sc_token st = ch_token h \<and>
      files_of st = ch_files h \<and> cm_claimed_at (sc_record st) = now) \<or>
    handle_release h (registry_after later g1) = registry_after later g1 \<and>
    handle_refresh h additional now' (registry_after later g1) = registry_after later g1"
proof -
  let ?g = "registry_after later g1"
  have "claims_ok g" unfolding g by (intro registry_after_ok claims_ok_new)
  note fresh = owns_fresh [OF this claim]
  have "claims_ok g1" using claim_step_ok [OF \<open>claims_ok g\<close>, of "OpClaim c files ttl kind now"] claim by simp
  from owns_run [OF this conjunct1 [OF fresh] room] have owns: "owns h now ?g" .
  show ?thesis
  proof (cases "\<exists>st. bt_get (cg_claims ?g) c = Some st \<and> sc_token st = ch_token h")
    case True
    then show ?thesis using owns fresh by (auto simp: owns_def)
  next
    case False
    then show ?thesis using fresh
      by (auto simp: handle_release_def release_if_current_def handle_refresh_def refresh_if_current_def split: option.splits)
  qed
qed

section \<open>Witnesses\<close>

lemmas claim_eval = claim_files_def normalize_file_list_def normalize_claim_path_def path_components_def
  is_absolute_def segment_component_def checked_add_def time_checked_add_def system_time_max_def
  claim_registry_new_def default_claim_ttl_def sweep_expired_at_def claim_is_expired_def duration_since_def
  remove_claim_def remove_from_index_def index_remove_def next_token_def insert_claim_def index_insert_def sort_dedup_def
  claim_conflict_warning_def sat_add_def u64_max_def elapsed_since_def bt_put_def bt_del_def Let_def

definition demo_claims :: "claim_op list" where
  "demo_claims = [OpClaim (Ident ''a'') [''src//x.rs'', ''./y''] (Some 50) ClaimWrite 10,
     OpClaim (Ident ''b'') [''src/x.rs''] (Some 5) ClaimWrite 20]"

lemma demo_claim:
  "\<exists>g' h. claim_files (Ident ''c'') [''src/x.rs'', ''z''] (Some 7) ClaimWrite 30 (registry_after demo_claims claim_registry_new)
     = (g', Ok (h, Some \<lparr>cw'_requesting_capsule = Ident ''c'', cw'_conflicts =
         [\<lparr>cf_file = [''src'', ''x.rs''], cf_holding_capsule = Ident ''a'', cf_holding_since = 20, cf_holding_kind = ClaimWrite\<rparr>]\<rparr>))
     \<and> ch_files h = [[''src'', ''x.rs''], [''z'']] \<and> cg_next_token g' = 3"
  by (simp add: demo_claims_def claim_eval)

theorem claim_is_exact_witness:
  "\<exists>g' h warning.
     claim_files (Ident ''c'') [''src/x.rs'', ''z''] (Some 7) ClaimWrite 30 (registry_after demo_claims claim_registry_new)
       = (g', Ok (h, warning)) \<and>
     (case warning of None \<Rightarrow> [] | Some w \<Rightarrow> cw'_conflicts w) =
       [\<lparr>cf_file = [''src'', ''x.rs''], cf_holding_capsule = Ident ''a'', cf_holding_since = 20, cf_holding_kind = ClaimWrite\<rparr>] \<and>
     distinct (case warning of None \<Rightarrow> [] | Some w \<Rightarrow> cw'_conflicts w) \<and>
     normalize_file_list [''src/x.rs'', ''z''] False = Ok (ch_files h)"
proof -
  from demo_claim obtain g' h where
    claim: "claim_files (Ident ''c'') [''src/x.rs'', ''z''] (Some 7) ClaimWrite 30 (registry_after demo_claims claim_registry_new)
     = (g', Ok (h, Some \<lparr>cw'_requesting_capsule = Ident ''c'', cw'_conflicts =
         [\<lparr>cf_file = [''src'', ''x.rs''], cf_holding_capsule = Ident ''a'', cf_holding_since = 20, cf_holding_kind = ClaimWrite\<rparr>]\<rparr>))"
    by blast
  from claim_is_exact [OF refl claim] claim show ?thesis by auto
qed

theorem stale_handle_is_harmless_witness:
  "\<exists>g1 h warning.
     claim_files (Ident ''c'') [''src/x.rs'', ''z''] (Some 7) ClaimWrite 30 (registry_after demo_claims claim_registry_new)
       = (g1, Ok (h, warning)) \<and>
     ((\<exists>st. bt_get (cg_claims (registry_after [OpSweep 50] g1)) (Ident ''c'') = Some st \<and> sc_token st = ch_token h) \<or>
      handle_release h (registry_after [OpSweep 50] g1) = registry_after [OpSweep 50] g1)"
proof -
  from demo_claim obtain g1 h warning where
    claim: "claim_files (Ident ''c'') [''src/x.rs'', ''z''] (Some 7) ClaimWrite 30 (registry_after demo_claims claim_registry_new)
     = (g1, Ok (h, warning))" and "cg_next_token g1 = 3"
    by blast
  then have "cg_next_token (registry_after [OpSweep 50] g1) < u64_max"
    by (simp add: sweep_expired_def sweep_expired_at_def fold_remove_claim u64_max_def)
  from stale_handle_is_harmless [OF refl claim this, of 1 0] claim show ?thesis by blast
qed

end
