(* ===== verification/Patch.thy ===== *)
theory Patch
  imports Strings
begin

text \<open>
  Patches (\<open>crates/taugentic-agent/src/patch/model.rs\<close> and \<open>parser.rs\<close>): file operations, their
  text form, and the parser. A path is the string it was written as. The parser works on a list
  of lines and returns how many it consumed.
\<close>

section \<open>The model\<close>

datatype hunk_line_kind = Context | Added | Removed

record hunk_line =
  hl_kind :: hunk_line_kind
  hl_text :: string

record hunk =
  hk_header :: "string option"
  hk_lines :: "hunk_line list"
  hk_end_of_file :: bool

datatype file_op =
    AddFile string string
  | DeleteFile string
  | UpdateFile string "string option" "hunk list"

record patch =
  pt_operations :: "file_op list"

section \<open>Printing\<close>

definition nl :: string where
  "nl = [CHR 0x0A]"

text \<open>\<open>strip_suffix('\n').unwrap_or(contents)\<close>.\<close>

definition strip_newline :: "string \<Rightarrow> string" where
  "strip_newline s = (if s \<noteq> [] \<and> last s = CHR 0x0A then butlast s else s)"

fun line_prefix :: "hunk_line_kind \<Rightarrow> char" where
  "line_prefix Context = CHR '' ''"
| "line_prefix Added = CHR ''+''"
| "line_prefix Removed = CHR ''-''"

definition write_hunk :: "string \<Rightarrow> hunk \<Rightarrow> string" where
  "write_hunk out h =
     (let out1 = (case hk_header h of Some header \<Rightarrow> out @ ''@@ '' @ header @ nl | None \<Rightarrow> out @ ''@@'' @ nl);
          out2 = foldl (\<lambda>out l. out @ line_prefix (hl_kind l) # hl_text l @ nl) out1 (hk_lines h)
      in if hk_end_of_file h then out2 @ ''*** End of File'' @ nl else out2)"

fun write_operation :: "string \<Rightarrow> file_op \<Rightarrow> string" where
  "write_operation out (AddFile path contents) =
     foldl (\<lambda>out l. out @ CHR ''+'' # l @ nl) (out @ ''*** Add File: '' @ path @ nl)
       (split_on (CHR 0x0A) (strip_newline contents))"
| "write_operation out (DeleteFile path) = out @ ''*** Delete File: '' @ path @ nl"
| "write_operation out (UpdateFile path move_to hunks) =
     (let out1 = out @ ''*** Update File: '' @ path @ nl;
          out2 = (case move_to of Some m \<Rightarrow> out1 @ ''*** Move to: '' @ m @ nl | None \<Rightarrow> out1)
      in foldl write_hunk out2 hunks)"

definition to_patch_string :: "patch \<Rightarrow> string" where
  "to_patch_string p = foldl write_operation (''*** Begin Patch'' @ nl) (pt_operations p) @ ''*** End Patch'' @ nl"

section \<open>Parsing\<close>

datatype parse_error = InvalidPatch string | InvalidHunk nat string

definition begin_patch_marker :: string where "begin_patch_marker = ''*** Begin Patch''"
definition end_patch_marker :: string where "end_patch_marker = ''*** End Patch''"
definition add_file_marker :: string where "add_file_marker = ''*** Add File: ''"
definition delete_file_marker :: string where "delete_file_marker = ''*** Delete File: ''"
definition update_file_marker :: string where "update_file_marker = ''*** Update File: ''"
definition move_to_marker :: string where "move_to_marker = ''*** Move to: ''"
definition eof_marker :: string where "eof_marker = ''*** End of File''"

definition quoted :: "string \<Rightarrow> string" where
  "quoted s = CHR 0x27 # s @ [CHR 0x27]"

definition check_patch_boundaries :: "string list \<Rightarrow> (unit, parse_error) result" where
  "check_patch_boundaries ls =
     (case ls of
        [] \<Rightarrow> Err (InvalidPatch (''The first line of the patch must be '' @ quoted begin_patch_marker))
      | first # rest \<Rightarrow>
          if rest \<noteq> [] \<and> trim first = begin_patch_marker \<and> trim (last rest) = end_patch_marker then Ok ()
          else if trim first \<noteq> begin_patch_marker
          then Err (InvalidPatch (''The first line of the patch must be '' @ quoted begin_patch_marker))
          else Err (InvalidPatch (''The last line of the patch must be '' @ quoted end_patch_marker)))"

definition parse_relative_path :: "string \<Rightarrow> nat \<Rightarrow> (string, parse_error) result" where
  "parse_relative_path path line_number =
     (let p = trim path
      in if p = [] \<or> is_absolute p
         then Err (InvalidHunk line_number ''File references must be non-empty relative paths'')
         else if list_ex (\<lambda>c. c \<in> {ParentDir, RootDir}) (path_components p)
         then Err (InvalidHunk line_number ''File references must stay inside the workdir'')
         else Ok p)"

definition kind_of_prefix :: "char \<Rightarrow> hunk_line_kind option" where
  "kind_of_prefix c =
     (if c = CHR '' '' then Some Context else if c = CHR ''+'' then Some Added
      else if c = CHR ''-'' then Some Removed else None)"

text \<open>The loop of \<open>parse_hunk\<close>: the hunk so far and the number of lines consumed.\<close>

fun hunk_loop :: "nat \<Rightarrow> string list \<Rightarrow> hunk \<Rightarrow> nat \<Rightarrow> (hunk \<times> nat, parse_error) result" where
  "hunk_loop n [] h parsed = Ok (h, parsed)"
| "hunk_loop n (line # rest) h parsed =
     (if trim line = eof_marker
      then (if hk_lines h = [] then Err (InvalidHunk (n + parsed) ''Update hunk does not contain any lines'')
            else Ok (h\<lparr>hk_end_of_file := True\<rparr>, parsed + 1))
      else case line of
        [] \<Rightarrow> hunk_loop n rest (h\<lparr>hk_lines := hk_lines h @ [\<lparr>hl_kind = Context, hl_text = []\<rparr>]\<rparr>) (parsed + 1)
      | prefix # text \<Rightarrow>
          (case kind_of_prefix prefix of
             Some kind \<Rightarrow> hunk_loop n rest (h\<lparr>hk_lines := hk_lines h @ [\<lparr>hl_kind = kind, hl_text = text\<rparr>]\<rparr>) (parsed + 1)
           | None \<Rightarrow>
               if hk_lines h \<noteq> [] then Ok (h, parsed)
               else Err (InvalidHunk (n + parsed) (''Unexpected line found in update hunk: '' @ quoted line @
                 ''. Every line should start with '' @ quoted '' '' @ '' (context line), '' @ quoted ''+'' @
                 '' (added line), or '' @ quoted ''-'' @ '' (removed line)''))))"

definition parse_hunk :: "string list \<Rightarrow> nat \<Rightarrow> (hunk \<times> nat, parse_error) result" where
  "parse_hunk ls n =
     (let first = trim (hd ls);
          start = (\<lambda>header.
            try_then (hunk_loop n (tl ls) \<lparr>hk_header = header, hk_lines = [], hk_end_of_file = False\<rparr> 1) (\<lambda>(h, parsed).
              if hk_lines h = [] then Err (InvalidHunk (n + 1) ''Update hunk does not contain any lines'')
              else Ok (h, parsed)))
      in if first = ''@@'' then start None
         else case strip_prefix ''@@ '' first of
           Some header \<Rightarrow> start (Some header)
         | None \<Rightarrow> Err (InvalidHunk n
             (''Expected update hunk to start with a @@ context marker, got: '' @ quoted (hd ls))))"

lemma hunk_loop_consumes:
  "hunk_loop n ls h parsed = Ok (h', parsed') \<Longrightarrow> parsed \<le> parsed' \<and> parsed' \<le> parsed + length ls"
  by (induction n ls h parsed rule: hunk_loop.induct) (fastforce split: if_splits list.splits option.splits)+

lemma parse_hunk_consumes:
  assumes "parse_hunk ls n = Ok (h, consumed)" and "ls \<noteq> []"
  shows "1 \<le> consumed \<and> consumed \<le> length ls"
proof -
  obtain h0 where "hunk_loop n (tl ls) h0 1 = Ok (h, consumed)"
    using assms(1) by (auto simp: parse_hunk_def Let_def try_then_def split: if_splits option.splits sum.splits prod.splits)
  from hunk_loop_consumes [OF this] assms(2) show ?thesis by (cases ls) auto
qed

text \<open>The loop of \<open>parse_update_file\<close>.\<close>

function update_loop :: "nat \<Rightarrow> string list \<Rightarrow> nat \<Rightarrow> hunk list \<Rightarrow> (hunk list \<times> nat, parse_error) result" where
  "update_loop n remaining parsed hunks =
     (case remaining of
        [] \<Rightarrow> Ok (hunks, parsed)
      | first # rest \<Rightarrow>
          if trim first = [] then update_loop n rest (parsed + 1) hunks
          else if starts_with ''*** '' (trim first) then Ok (hunks, parsed)
          else case parse_hunk remaining (n + parsed) of
            Inl e \<Rightarrow> Err e
          | Inr (h, consumed) \<Rightarrow> update_loop n (drop consumed remaining) (parsed + consumed) (hunks @ [h]))"
  by pat_completeness auto
termination
  by (relation "measure (\<lambda>(n, remaining, parsed, hunks). length remaining)") (auto dest: parse_hunk_consumes)

declare update_loop.simps [simp del]

definition parse_update_file :: "string \<Rightarrow> string list \<Rightarrow> nat \<Rightarrow> (file_op \<times> nat, parse_error) result" where
  "parse_update_file path ls n =
     try_then
       (case ls of
          [] \<Rightarrow> Ok (None, ls, 1)
        | first # rest \<Rightarrow>
            (case strip_prefix move_to_marker (trim first) of
               None \<Rightarrow> Ok (None, ls, 1)
             | Some m \<Rightarrow> try_then (parse_relative_path m (n + 1)) (\<lambda>target. Ok (Some target, rest, 2))))
       (\<lambda>(move_to, remaining, parsed).
     try_then (update_loop n remaining parsed []) (\<lambda>(hunks, parsed').
       if hunks = [] then Err (InvalidHunk n (''Update file hunk for path '' @ quoted path @ '' is empty''))
       else try_then (parse_relative_path path n) (\<lambda>p. Ok (UpdateFile p move_to hunks, parsed'))))"

fun add_loop :: "string list \<Rightarrow> string \<Rightarrow> nat \<Rightarrow> string \<times> nat" where
  "add_loop [] contents parsed = (contents, parsed)"
| "add_loop (line # rest) contents parsed =
     (case strip_prefix ''+'' line of
        Some content \<Rightarrow> add_loop rest (contents @ content @ nl) (parsed + 1)
      | None \<Rightarrow> (contents, parsed))"

definition parse_file_op :: "string list \<Rightarrow> nat \<Rightarrow> (file_op \<times> nat, parse_error) result" where
  "parse_file_op ls n =
     (let first = trim (hd ls)
      in case strip_prefix add_file_marker first of
        Some path \<Rightarrow>
          (case add_loop (tl ls) [] 1 of (contents, parsed) \<Rightarrow>
             try_then (parse_relative_path path n) (\<lambda>p. Ok (AddFile p contents, parsed)))
      | None \<Rightarrow>
      (case strip_prefix delete_file_marker first of
        Some path \<Rightarrow> try_then (parse_relative_path path n) (\<lambda>p. Ok (DeleteFile p, 1))
      | None \<Rightarrow>
      (case strip_prefix update_file_marker first of
        Some path \<Rightarrow> parse_update_file path (tl ls) n
      | None \<Rightarrow> Err (InvalidHunk n (quoted first @ '' is not a valid hunk header. Valid hunk headers: '' @
          quoted ''*** Add File: {path}'' @ '', '' @ quoted ''*** Delete File: {path}'' @ '', '' @
          quoted ''*** Update File: {path}'')))))"

lemma add_loop_consumes: "add_loop ls c parsed = (c', parsed') \<Longrightarrow> parsed \<le> parsed' \<and> parsed' \<le> parsed + length ls"
  by (induction ls c parsed arbitrary: c' parsed' rule: add_loop.induct) (fastforce split: option.splits)+

lemma update_loop_consumes:
  "update_loop n ls parsed hunks = Ok (hunks', parsed') \<Longrightarrow> parsed \<le> parsed' \<and> parsed' \<le> parsed + length ls"
proof (induction n ls parsed hunks rule: update_loop.induct)
  case (1 n ls parsed hunks)
  show ?case
  proof (cases ls)
    case Nil
    then show ?thesis using 1(3) by (simp add: update_loop.simps)
  next
    case (Cons first rest)
    note eq = 1(3) [unfolded Cons, simplified update_loop.simps [of n "first # rest"] list.case]
    consider "trim first = []" | "trim first \<noteq> []" "starts_with ''*** '' (trim first)"
      | h consumed where "trim first \<noteq> []" "\<not> starts_with ''*** '' (trim first)"
        "parse_hunk (first # rest) (n + parsed) = Ok (h, consumed)"
      using eq by (auto split: if_splits sum.splits)
    then show ?thesis
    proof cases
      case 1
      then have "update_loop n rest (parsed + 1) hunks = Ok (hunks', parsed')" using eq by simp
      from "1.IH"(1) [OF Cons 1 this] Cons show ?thesis by simp
    next
      case 2
      then show ?thesis using eq Cons by simp
    next
      case 3
      then have run: "update_loop n (drop consumed (first # rest)) (parsed + consumed) (hunks @ [h]) = Ok (hunks', parsed')"
        using eq by simp
      have "1 \<le> consumed \<and> consumed \<le> length ls" using parse_hunk_consumes [OF 3(3)] Cons by simp
      with "1.IH"(2) [OF Cons 3(1,2)] 3(3) run Cons show ?thesis by fastforce
    qed
  qed
qed

lemma parse_file_op_consumes:
  assumes "parse_file_op ls n = Ok (operation, parsed)" and "ls \<noteq> []"
  shows "1 \<le> parsed \<and> parsed \<le> length ls"
proof -
  consider contents where "add_loop (tl ls) [] 1 = (contents, parsed)"
    | "parsed = 1"
    | path where "parse_update_file path (tl ls) n = Ok (operation, parsed)"
    using assms(1) by (auto simp: parse_file_op_def Let_def try_then_def split: option.splits sum.splits prod.splits)
  then show ?thesis
  proof cases
    case 1
    from add_loop_consumes [OF 1] assms(2) show ?thesis by (cases ls) auto
  next
    case 2
    with assms(2) show ?thesis by (cases ls) auto
  next
    case 3
    then obtain remaining start hunks where run: "update_loop n remaining start [] = Ok (hunks, parsed)"
        and fit: "1 \<le> start" "start + length remaining \<le> length ls"
      using assms(2)
      by (cases ls) (auto simp: parse_update_file_def try_then_def split: list.splits option.splits sum.splits prod.splits if_splits)
    from update_loop_consumes [OF run] fit show ?thesis by auto
  qed
qed

function parse_ops :: "string list \<Rightarrow> nat \<Rightarrow> file_op list \<Rightarrow> (file_op list, parse_error) result" where
  "parse_ops remaining n operations =
     (if remaining = [] then Ok operations
      else case parse_file_op remaining n of
        Inl e \<Rightarrow> Err e
      | Inr (operation, parsed) \<Rightarrow> parse_ops (drop parsed remaining) (n + parsed) (operations @ [operation]))"
  by pat_completeness auto
termination
  by (relation "measure (\<lambda>(remaining, n, operations). length remaining)") (auto dest: parse_file_op_consumes)

declare parse_ops.simps [simp del]

definition parse_patch :: "string \<Rightarrow> (patch, parse_error) result" where
  "parse_patch input =
     (let ls = str_lines (trim input)
      in try_then (check_patch_boundaries ls) (\<lambda>_.
         try_then (parse_ops (butlast (tl ls)) 2 []) (\<lambda>operations. Ok \<lparr>pt_operations = operations\<rparr>)))"

end
