(* ===== verification/PatchRoundtrip.thy ===== *)
theory PatchRoundtrip
  imports Patch
begin

text \<open>
  Printing a patch and parsing it again gives the patch back, for patches whose parts can be
  told apart in the text; and the one kind of patch the parser produces for which it does not.
\<close>

section \<open>Patches that can be written down\<close>

definition good_path :: "string \<Rightarrow> bool" where
  "good_path p \<longleftrightarrow> p \<noteq> [] \<and> trimmed p \<and> CHR 0x0A \<notin> set p \<and> \<not> is_absolute p \<and>
     \<not> list_ex (\<lambda>c. c \<in> {ParentDir, RootDir}) (path_components p)"

definition good_hunk_line :: "hunk_line \<Rightarrow> bool" where
  "good_hunk_line l \<longleftrightarrow> clean_line (hl_text l) \<and>
     (if hl_kind l = Context then trim (CHR '' '' # hl_text l) \<noteq> eof_marker else True)"

definition good_header :: "string \<Rightarrow> bool" where
  "good_header x \<longleftrightarrow> x \<noteq> [] \<and> CHR 0x0A \<notin> set x \<and> trimmed (''@@ '' @ x)"

definition good_hunk :: "hunk \<Rightarrow> bool" where
  "good_hunk h \<longleftrightarrow> none_or good_header (hk_header h) \<and> hk_lines h \<noteq> [] \<and> list_all good_hunk_line (hk_lines h)"

definition good_contents :: "string \<Rightarrow> bool" where
  "good_contents c \<longleftrightarrow> c \<noteq> [] \<and> last c = CHR 0x0A \<and>
     list_all (\<lambda>l. strip_cr l = l) (split_on (CHR 0x0A) (strip_newline c))"

fun good_op :: "file_op \<Rightarrow> bool" where
  "good_op (AddFile p c) \<longleftrightarrow> good_path p \<and> good_contents c"
| "good_op (DeleteFile p) \<longleftrightarrow> good_path p"
| "good_op (UpdateFile p m hs) \<longleftrightarrow> good_path p \<and> none_or good_path m \<and> hs \<noteq> [] \<and> list_all good_hunk hs"

section \<open>The lines of a patch\<close>

definition hunk_line_text :: "hunk_line \<Rightarrow> string" where
  "hunk_line_text l = line_prefix (hl_kind l) # hl_text l"

definition hunk_text :: "hunk \<Rightarrow> string list" where
  "hunk_text h = (case hk_header h of Some x \<Rightarrow> ''@@ '' @ x | None \<Rightarrow> ''@@'') # map hunk_line_text (hk_lines h) @
     (if hk_end_of_file h then [eof_marker] else [])"

fun op_lines :: "file_op \<Rightarrow> string list" where
  "op_lines (AddFile p c) = (add_file_marker @ p) # map (Cons (CHR ''+'')) (split_on (CHR 0x0A) (strip_newline c))"
| "op_lines (DeleteFile p) = [delete_file_marker @ p]"
| "op_lines (UpdateFile p m hs) =
     (update_file_marker @ p) # (case m of Some t \<Rightarrow> [move_to_marker @ t] | None \<Rightarrow> []) @ concat (map hunk_text hs)"

lemma foldl_lines: "foldl (\<lambda>out l. out @ f l @ nl) out ls = out @ unlines (map f ls)"
  by (induction ls arbitrary: out) (simp_all add: nl_def)

lemma write_hunk_lines: "write_hunk out h = out @ unlines (hunk_text h)"
  using foldl_lines [of hunk_line_text]
  by (auto simp: write_hunk_def hunk_text_def hunk_line_text_def Let_def nl_def eof_marker_def split: option.splits)

lemma foldl_write_hunk: "foldl write_hunk out hs = out @ unlines (concat (map hunk_text hs))"
  by (induction hs arbitrary: out) (simp_all add: write_hunk_lines)

lemma write_operation_lines: "write_operation out a = out @ unlines (op_lines a)"
  using foldl_lines [of "Cons (CHR ''+'')"]
  by (cases a) (auto simp: foldl_write_hunk Let_def nl_def add_file_marker_def delete_file_marker_def
      update_file_marker_def move_to_marker_def split: option.splits)

lemma to_patch_string_lines:
  "to_patch_string p = unlines (begin_patch_marker # concat (map op_lines (pt_operations p)) @ [end_patch_marker])"
proof -
  have "foldl write_operation out ops = out @ unlines (concat (map op_lines ops))" for out ops
    by (induction ops arbitrary: out) (simp_all add: write_operation_lines)
  then show ?thesis by (simp add: to_patch_string_def nl_def begin_patch_marker_def end_patch_marker_def)
qed

section \<open>Trimmed headers\<close>

lemma solid_marks [simp]: "solid (CHR ''*'')" "solid (CHR ''@'')" "solid (CHR ''+'')" "solid (CHR ''-'')" "solid (CHR ''h'')"
  "solid (CHR ''e'')"
  by (simp_all add: solid_def white_space_def)

lemma ascii_space [simp]: "ascii (CHR '' '')" by (simp add: ascii_def)

lemma trimmed_marks:
  assumes "trimmed p" "p \<noteq> []"
  shows "trim (add_file_marker @ p) = add_file_marker @ p" "trim (delete_file_marker @ p) = delete_file_marker @ p"
    "trim (update_file_marker @ p) = update_file_marker @ p" "trim (move_to_marker @ p) = move_to_marker @ p"
  using trimmed_append [OF _ _ assms, of "CHR ''*''" "CHR '' ''" "''** Add File:''"]
    trimmed_append [OF _ _ assms, of "CHR ''*''" "CHR '' ''" "''** Delete File:''"]
    trimmed_append [OF _ _ assms, of "CHR ''*''" "CHR '' ''" "''** Update File:''"]
    trimmed_append [OF _ _ assms, of "CHR ''*''" "CHR '' ''" "''** Move to:''"]
  by (simp_all add: add_file_marker_def delete_file_marker_def update_file_marker_def move_to_marker_def trimmed_def)

lemma trim_fixed_marks [simp]:
  "trim ''@@'' = ''@@''" "trim eof_marker = eof_marker" "trim begin_patch_marker = begin_patch_marker"
  "trim end_patch_marker = end_patch_marker"
proof -
  have t: "trim (c # a @ [e]) = c # a @ [e]" if "solid c" "solid e" for c a e
    using that by (simp add: trim_def trim_start_def trim_end_def strip_lead_fixed lead_len_solid)
  show "trim ''@@'' = ''@@''" using t [of "CHR ''@''" "CHR ''@''" "[]"] by simp
  show "trim eof_marker = eof_marker" using t [of "CHR ''*''" "CHR ''e''" "''** End of Fil''"] by (simp add: eof_marker_def)
  show "trim begin_patch_marker = begin_patch_marker"
    using t [of "CHR ''*''" "CHR ''h''" "''** Begin Patc''"] by (simp add: begin_patch_marker_def)
  show "trim end_patch_marker = end_patch_marker"
    using t [of "CHR ''*''" "CHR ''h''" "''** End Patc''"] by (simp add: end_patch_marker_def)
qed

section \<open>Parsing hunks\<close>

text \<open>Where a hunk stops: at the end, or at a line that no hunk line starts like.\<close>

definition stops_hunk :: "string list \<Rightarrow> bool" where
  "stops_hunk ls \<longleftrightarrow> (case ls of [] \<Rightarrow> True | l # _ \<Rightarrow>
     (case l of [] \<Rightarrow> False | c # _ \<Rightarrow> kind_of_prefix c = None \<and> trim l \<noteq> eof_marker))"

lemma hunk_line_text_not_eof:
  assumes "good_hunk_line l" shows "trim (hunk_line_text l) \<noteq> eof_marker"
proof (cases "hl_kind l")
  case Context
  with assms show ?thesis by (simp add: good_hunk_line_def hunk_line_text_def)
next
  case Added
  then obtain t where "trim (hunk_line_text l) = CHR ''+'' # t"
    using trim_solid [of "CHR ''+''" "hl_text l"] by (auto simp: hunk_line_text_def)
  then show ?thesis by (simp add: eof_marker_def)
next
  case Removed
  then obtain t where "trim (hunk_line_text l) = CHR ''-'' # t"
    using trim_solid [of "CHR ''-''" "hl_text l"] by (auto simp: hunk_line_text_def)
  then show ?thesis by (simp add: eof_marker_def)
qed

lemma kind_of_line_prefix [simp]: "kind_of_prefix (line_prefix k) = Some k"
  by (cases k) (simp_all add: kind_of_prefix_def)

lemma hunk_loop_lines:
  "list_all good_hunk_line ls \<Longrightarrow>
    hunk_loop n (map hunk_line_text ls @ tail) h parsed =
    hunk_loop n tail (h\<lparr>hk_lines := hk_lines h @ ls\<rparr>) (parsed + length ls)"
proof (induction ls arbitrary: h parsed)
  case Nil
  then show ?case by simp
next
  case (Cons l ls)
  then have "trim (hunk_line_text l) \<noteq> eof_marker" by (simp add: hunk_line_text_not_eof)
  moreover obtain k t where "l = \<lparr>hl_kind = k, hl_text = t\<rparr>" by (cases l)
  ultimately show ?case using Cons by (simp add: hunk_line_text_def)
qed

lemma hunk_loop_stops: "stops_hunk tail \<Longrightarrow> hk_lines h \<noteq> [] \<Longrightarrow> hunk_loop n tail h parsed = Ok (h, parsed)"
  by (auto simp: stops_hunk_def split: list.splits)

lemma parse_hunk_text:
  assumes h: "good_hunk h" and tail: "hk_end_of_file h \<or> stops_hunk tail"
  shows "parse_hunk (hunk_text h @ tail) n = Ok (h, length (hunk_text h))"
proof -
  let ?head = "case hk_header h of Some x \<Rightarrow> ''@@ '' @ x | None \<Rightarrow> ''@@''"
  let ?start = "\<lparr>hk_header = hk_header h, hk_lines = [], hk_end_of_file = False\<rparr>"
  let ?rest = "map hunk_line_text (hk_lines h) @ (if hk_end_of_file h then [eof_marker] else []) @ tail"
  have lines: "hk_lines h \<noteq> []" "list_all good_hunk_line (hk_lines h)" using h by (simp_all add: good_hunk_def)
  have full: "?start\<lparr>hk_lines := hk_lines h\<rparr> = h\<lparr>hk_end_of_file := False\<rparr>" by (cases h) simp
  have loop: "hunk_loop n ?rest ?start 1 = Ok (h, length (hunk_text h))"
  proof (cases "hk_end_of_file h")
    case True
    then have "h\<lparr>hk_end_of_file := True\<rparr> = h" by (cases h) simp
    then show ?thesis using True lines by (simp add: hunk_loop_lines full hunk_text_def)
  next
    case False
    then have "h\<lparr>hk_end_of_file := False\<rparr> = h" by (cases h) simp
    then show ?thesis using False lines tail by (simp add: hunk_loop_lines full hunk_text_def hunk_loop_stops)
  qed
  have head: "trim ?head = ?head" using h by (auto simp: good_hunk_def good_header_def trimmed_def split: option.splits)
  show ?thesis
  proof (cases "hk_header h")
    case None
    with loop lines(1) show ?thesis by (simp add: parse_hunk_def hunk_text_def)
  next
    case (Some x)
    then have "x \<noteq> []" using h by (simp add: good_hunk_def good_header_def)
    with Some loop lines(1) head show ?thesis by (simp add: parse_hunk_def hunk_text_def)
  qed
qed

lemma hunk_text_starts: "\<exists>t ls. hunk_text h = (CHR ''@'' # CHR ''@'' # t) # ls"
  by (auto simp: hunk_text_def split: option.splits)

lemma hunk_text_stops: "stops_hunk (hunk_text h @ ls)"
proof -
  obtain t ls' where "hunk_text h = (CHR ''@'' # CHR ''@'' # t) # ls'" using hunk_text_starts by blast
  moreover obtain t' where "trim (CHR ''@'' # CHR ''@'' # t) = CHR ''@'' # t'" using trim_solid by fastforce
  ultimately show ?thesis by (simp add: stops_hunk_def kind_of_prefix_def eof_marker_def)
qed

text \<open>Where an update stops: at the end, or at the header of the next operation.\<close>

definition stops_update :: "string list \<Rightarrow> bool" where
  "stops_update ls \<longleftrightarrow> (case ls of [] \<Rightarrow> True
     | l # _ \<Rightarrow> trim l = l \<and> starts_with ''*** '' l \<and> l \<noteq> eof_marker)"

lemma stops_update_hunk: "stops_update ls \<Longrightarrow> stops_hunk ls"
  by (auto simp: stops_update_def stops_hunk_def starts_with_def kind_of_prefix_def split: list.splits
      elim!: strip_prefix.elims)

lemma update_loop_hunks:
  "list_all good_hunk hs \<Longrightarrow> stops_update tail \<Longrightarrow>
    update_loop n (concat (map hunk_text hs) @ tail) parsed acc =
    Ok (acc @ hs, parsed + length (concat (map hunk_text hs)))"
proof (induction hs arbitrary: parsed acc)
  case Nil
  then show ?case
    by (subst update_loop.simps) (auto simp: stops_update_def starts_with_def split: list.splits)
next
  case (Cons h hs)
  obtain t ls where ht: "hunk_text h = (CHR ''@'' # CHR ''@'' # t) # ls" using hunk_text_starts by blast
  obtain t' where tr: "trim (CHR ''@'' # CHR ''@'' # t) = CHR ''@'' # t'" using trim_solid by fastforce
  let ?tail = "concat (map hunk_text hs) @ tail"
  have "stops_hunk ?tail"
    using Cons.prems(2) hunk_text_stops stops_update_hunk by (cases hs) simp_all
  then have hunk: "parse_hunk (hunk_text h @ ?tail) (n + parsed) = Ok (h, length (hunk_text h))"
    using Cons.prems(1) by (intro parse_hunk_text) simp_all
  have "update_loop n (hunk_text h @ ?tail) parsed acc
      = update_loop n ?tail (parsed + length (hunk_text h)) (acc @ [h])"
    using hunk by (subst update_loop.simps) (simp add: ht tr starts_with_def)
  with Cons show ?case by simp
qed

section \<open>Parsing operations\<close>

lemma good_path_parses: "good_path p \<Longrightarrow> parse_relative_path p n = Ok p"
  by (auto simp: good_path_def parse_relative_path_def trimmed_def Let_def)

lemma unlines_split: "unlines (split_on (CHR 0x0A) s) = s @ [CHR 0x0A]"
proof (induction s)
  case (Cons x s)
  then show ?case by (cases "split_on (CHR 0x0A) s") auto
qed simp

lemma good_contents_lines: "good_contents c \<Longrightarrow> unlines (split_on (CHR 0x0A) (strip_newline c)) = c"
  unfolding unlines_split by (auto simp: good_contents_def strip_newline_def) (metis append_butlast_last_id)

lemma add_loop_lines:
  assumes "stops_update tail"
  shows "add_loop (map (Cons (CHR ''+'')) ls @ tail) c parsed = (c @ unlines ls, parsed + length ls)"
proof (induction ls arbitrary: c parsed)
  case Nil
  show ?case
  proof (cases tail)
    case (Cons l rest)
    with assms have "strip_prefix ''+'' l = None"
      by (cases l) (auto simp: stops_update_def starts_with_def split: if_splits)
    with Cons show ?thesis by simp
  qed simp
qed (simp add: nl_def)

lemma marker_starts [simp]:
  "starts_with ''*** '' (add_file_marker @ p)" "add_file_marker @ p \<noteq> eof_marker"
  "starts_with ''*** '' (delete_file_marker @ p)" "delete_file_marker @ p \<noteq> eof_marker"
  "starts_with ''*** '' (update_file_marker @ p)" "update_file_marker @ p \<noteq> eof_marker"
  by (simp_all add: starts_with_def add_file_marker_def delete_file_marker_def update_file_marker_def eof_marker_def)

lemma op_lines_stops: "good_op a \<Longrightarrow> stops_update (op_lines a @ ls)"
  by (cases a) (simp_all add: stops_update_def good_path_def trimmed_marks)

lemma parse_update_lines:
  assumes "good_op (UpdateFile p m hs)" and "stops_update tail"
  shows "parse_update_file p (tl (op_lines (UpdateFile p m hs)) @ tail) n =
    Ok (UpdateFile p m hs, length (op_lines (UpdateFile p m hs)))"
proof -
  have hs: "list_all good_hunk hs" "hs \<noteq> []" and p: "good_path p" using assms(1) by simp_all
  note loop = update_loop_hunks [OF hs(1) assms(2)]
  show ?thesis
  proof (cases m)
    case None
    obtain h hs' where "hs = h # hs'" using hs(2) by (cases hs) auto
    moreover obtain t ls where ht: "hunk_text h = (CHR ''@'' # CHR ''@'' # t) # ls" using hunk_text_starts by blast
    moreover obtain t' where tr: "trim (CHR ''@'' # CHR ''@'' # t) = CHR ''@'' # t'" using trim_solid by fastforce
    ultimately have "concat (map hunk_text hs) @ tail = (CHR ''@'' # CHR ''@'' # t) # ls @ concat (map hunk_text hs') @ tail"
      and no_move: "strip_prefix move_to_marker (trim (CHR ''@'' # CHR ''@'' # t)) = None"
      by (simp_all add: move_to_marker_def)
    with loop [of n 1 "[]"] None p hs(2) show ?thesis
      by (simp add: parse_update_file_def good_path_parses)
  next
    case (Some t)
    then have t: "good_path t" using assms(1) by simp
    then have "trim (move_to_marker @ t) = move_to_marker @ t" by (simp add: good_path_def trimmed_marks)
    with loop [of n 2 "[]"] Some p t hs(2) show ?thesis
      by (simp add: parse_update_file_def good_path_parses)
  qed
qed

lemma marker_clash [simp]:
  "strip_prefix add_file_marker (delete_file_marker @ p) = None" "strip_prefix add_file_marker (update_file_marker @ p) = None"
  "strip_prefix delete_file_marker (update_file_marker @ p) = None"
  by (simp_all add: add_file_marker_def delete_file_marker_def update_file_marker_def)

lemma parse_op_lines:
  assumes op: "good_op a" and "stops_update tail"
  shows "parse_file_op (op_lines a @ tail) n = Ok (a, length (op_lines a))"
proof (cases a)
  case (AddFile p c)
  then have "good_path p" "unlines (split_on (CHR 0x0A) (strip_newline c)) = c"
    using op by (simp_all add: good_contents_lines)
  with AddFile show ?thesis
    by (simp add: parse_file_op_def good_path_parses good_path_def trimmed_marks add_loop_lines [OF assms(2)])
next
  case (DeleteFile p)
  then have "good_path p" using op by simp
  with DeleteFile show ?thesis by (simp add: parse_file_op_def good_path_parses good_path_def trimmed_marks)
next
  case (UpdateFile p m hs)
  then have p: "good_path p" using op by simp
  show ?thesis
    using parse_update_lines [OF op [unfolded UpdateFile] assms(2)] UpdateFile p
    by (simp add: parse_file_op_def good_path_def trimmed_marks)
qed

lemma parse_ops_lines:
  "list_all good_op ops \<Longrightarrow> parse_ops (concat (map op_lines ops)) n acc = Ok (acc @ ops)"
proof (induction ops arbitrary: n acc)
  case Nil
  then show ?case by (subst parse_ops.simps) simp
next
  case (Cons a ops)
  have tail: "stops_update (concat (map op_lines ops))"
    using Cons.prems op_lines_stops by (cases ops) (simp_all add: stops_update_def)
  have "op_lines a \<noteq> []" by (cases a) simp_all
  then show ?case
    using Cons parse_op_lines [OF _ tail, of a n] by (subst parse_ops.simps) simp
qed

section \<open>Lines that survive\<close>

lemma trimmed_last: assumes "trimmed p" "p \<noteq> []" shows "last p \<noteq> CHR 0x0D"
proof
  assume "last p = CHR 0x0D"
  then have "take 1 (rev p) = [CHR 0x0D]" using assms(2) by (cases p rule: rev_cases) auto
  moreover have "[CHR 0x0D] \<in> set (map rev white_space)" by (simp add: white_space_def)
  ultimately show False using trimmed_lead(2) [OF assms(1)] unfolding lead_len_zero_iff by force
qed

lemma clean_line_append: "clean_line p \<Longrightarrow> CHR 0x0A \<notin> set a \<Longrightarrow> p \<noteq> [] \<or> strip_cr a = a \<Longrightarrow> clean_line (a @ p)"
  by (auto simp: clean_line_def strip_cr_def butlast_append split: if_splits)

lemma clean_line_Cons: "clean_line p \<Longrightarrow> c \<noteq> CHR 0x0A \<Longrightarrow> c \<noteq> CHR 0x0D \<Longrightarrow> clean_line (c # p)"
  using clean_line_append [of p "[c]"] by (simp add: strip_cr_def)

lemma good_path_clean: "good_path p \<Longrightarrow> clean_line p"
  using trimmed_last by (simp add: good_path_def clean_line_def strip_cr_def)

lemma markers_clean:
  "CHR 0x0A \<notin> set add_file_marker" "CHR 0x0A \<notin> set delete_file_marker" "CHR 0x0A \<notin> set update_file_marker"
  "CHR 0x0A \<notin> set move_to_marker" "clean_line eof_marker" "clean_line begin_patch_marker" "clean_line end_patch_marker"
  "clean_line ''@@''"
  by (simp_all add: add_file_marker_def delete_file_marker_def update_file_marker_def move_to_marker_def
      eof_marker_def begin_patch_marker_def end_patch_marker_def clean_line_def strip_cr_def)

lemma good_header_clean: assumes "good_header x" shows "clean_line (''@@ '' @ x)"
proof -
  have "x \<noteq> []" "CHR 0x0A \<notin> set x" "trimmed (''@@ '' @ x)" using assms by (simp_all add: good_header_def)
  with trimmed_last [of "''@@ '' @ x"] show ?thesis by (simp add: clean_line_def strip_cr_def)
qed

lemma hunk_text_clean: assumes "good_hunk h" shows "\<forall>l\<in>set (hunk_text h). clean_line l"
proof -
  have "clean_line (hunk_line_text l)" if "l \<in> set (hk_lines h)" for l
    using assms that by (cases "hl_kind l")
      (auto simp: good_hunk_def good_hunk_line_def hunk_line_text_def list_all_iff intro!: clean_line_Cons)
  moreover have "clean_line (case hk_header h of Some x \<Rightarrow> ''@@ '' @ x | None \<Rightarrow> ''@@'')"
    using assms good_header_clean markers_clean(8) by (auto simp: good_hunk_def split: option.splits)
  ultimately show ?thesis using markers_clean(5) unfolding hunk_text_def by auto
qed

lemma good_op_lines_clean: assumes "good_op a" shows "\<forall>l\<in>set (op_lines a). clean_line l"
proof (cases a)
  case (AddFile p c)
  have "clean_line l" if "l \<in> set (split_on (CHR 0x0A) (strip_newline c))" for l
    using assms AddFile that split_on_elems by (auto simp: good_contents_def list_all_iff clean_line_def)
  moreover have "clean_line (add_file_marker @ p)"
    using assms AddFile by (intro clean_line_append good_path_clean) (auto simp: markers_clean good_path_def)
  ultimately show ?thesis using AddFile by (auto intro: clean_line_Cons)
next
  case (DeleteFile p)
  then show ?thesis
    using assms clean_line_append [OF good_path_clean [of p] markers_clean(2)] by (auto simp: good_path_def)
next
  case (UpdateFile p m hs)
  have marked: "clean_line (a @ p)" if "good_path p" "CHR 0x0A \<notin> set a" for a p
    using that clean_line_append [OF good_path_clean] by (simp add: good_path_def)
  have "clean_line (update_file_marker @ p)" and "m = Some t \<Longrightarrow> clean_line (move_to_marker @ t)" for t
    using assms UpdateFile marked markers_clean by simp_all
  then show ?thesis
    using UpdateFile assms hunk_text_clean by (auto simp: list_all_iff split: option.splits)
qed

lemma printed_lines:
  assumes "list_all good_op (pt_operations p)"
  shows "str_lines (trim (to_patch_string p)) =
    begin_patch_marker # concat (map op_lines (pt_operations p)) @ [end_patch_marker]"
proof -
  let ?mid = "concat (map op_lines (pt_operations p))"
  have "to_patch_string p = CHR ''*'' # (''** Begin Patch'' @ nl @ unlines ?mid @ ''*** End Patc'') @ [CHR ''h'', CHR 0x0A]"
    by (simp add: to_patch_string_lines begin_patch_marker_def end_patch_marker_def nl_def)
  then have "trim (to_patch_string p) = unlines (begin_patch_marker # ?mid) @ end_patch_marker"
    using trim_newline [of "CHR ''*''" "CHR ''h''" "''** Begin Patch'' @ nl @ unlines ?mid @ ''*** End Patc''"]
    by (simp add: begin_patch_marker_def end_patch_marker_def nl_def)
  moreover have "\<forall>l\<in>set (begin_patch_marker # ?mid). clean_line l"
    using assms good_op_lines_clean markers_clean by (auto simp: list_all_iff)
  ultimately show ?thesis
    using lines_unlines_last [of "begin_patch_marker # ?mid" end_patch_marker]
    by (simp add: end_patch_marker_def)
qed

lemma parse_printed:
  assumes "list_all good_op (pt_operations p)"
  shows "parse_patch (to_patch_string p) = Ok p"
proof -
  have "check_patch_boundaries (begin_patch_marker # concat (map op_lines (pt_operations p)) @ [end_patch_marker]) = Ok ()"
    by (simp add: check_patch_boundaries_def)
  then show ?thesis
    using printed_lines [OF assms] parse_ops_lines [OF assms, of 2 "[]"] by (simp add: parse_patch_def)
qed

text \<open>
  C34. Printing a patch and parsing the text gives the patch back, for any number of operations of any
  kind, when: paths (and move targets) are not empty, trimmed, relative, without a parent component
  and without line ends; the contents of an added file are not empty, end in a newline and have no
  carriage return before a line end; an update has at least one hunk and a hunk at least one line;
  headers are not empty, hold no line ends and do not end in white space; lines hold no line ends; and
  no context line reads as the end-of-file marker.
\<close>

theorem patch_roundtrip: "list_all good_op (pt_operations p) \<Longrightarrow> parse_patch (to_patch_string p) = Ok p"
  by (rule parse_printed)

definition demo_patch :: patch where
  "demo_patch = \<lparr>pt_operations =
     [AddFile ''a/new.txt'' (''one'' @ nl @ ''two'' @ nl), DeleteFile ''old.txt'',
      UpdateFile ''src/m.rs'' (Some ''src/n.rs'')
        [\<lparr>hk_header = Some ''fn f'', hk_lines = [\<lparr>hl_kind = Removed, hl_text = ''x''\<rparr>, \<lparr>hl_kind = Added, hl_text = []\<rparr>],
          hk_end_of_file = False\<rparr>,
         \<lparr>hk_header = None, hk_lines = [\<lparr>hl_kind = Context, hl_text = ''y''\<rparr>], hk_end_of_file = True\<rparr>]]\<rparr>"

theorem patch_roundtrip_witness: "parse_patch (to_patch_string demo_patch) = Ok demo_patch"
  by (rule patch_roundtrip) code_simp

text \<open>The text of an added file without contents is the text of a file with one empty line.\<close>

lemma empty_file_gains_a_line:
  assumes "good_path p"
  shows "parse_patch (to_patch_string \<lparr>pt_operations = [AddFile p []]\<rparr>) = Ok \<lparr>pt_operations = [AddFile p nl]\<rparr>"
proof -
  have "to_patch_string \<lparr>pt_operations = [AddFile p []]\<rparr> = to_patch_string \<lparr>pt_operations = [AddFile p nl]\<rparr>"
    by (simp add: to_patch_string_def strip_newline_def nl_def)
  moreover have "good_op (AddFile p nl)"
    using assms by (simp add: good_contents_def nl_def strip_newline_def strip_cr_def)
  ultimately show ?thesis using parse_printed [of "\<lparr>pt_operations = [AddFile p nl]\<rparr>"] by simp
qed

end
