(* ===== verification/PatchApply.thy ===== *)
theory PatchApply
  imports Patch "HOL-Library.Multiset"
begin

text \<open>
  Applying a patch (\<open>crates/taugentic-agent/src/patch/apply.rs\<close>): where the hunks of an update
  are found in the lines of the file, the replacements they become, and the new content. The
  file system is read through two arguments.
\<close>

section \<open>Changes and errors\<close>

datatype file_change_kind = ChangeAdded | ChangeDeleted | ChangeUpdated

record file_change =
  fc_path :: string
  fc_move_to :: "string option"
  fc_kind :: file_change_kind
  fc_old_content :: "string option"
  fc_new_content :: "string option"
  fc_added_lines :: nat
  fc_removed_lines :: nat

record applied_patch =
  ap_changed_files :: "file_change list"
  ap_added_lines :: nat
  ap_removed_lines :: nat
  ap_diff :: string

datatype 'e apply_error =
    EmptyPatch
  | ReadFile string 'e
  | InspectFile string 'e
  | DeleteDirectory string
  | MissingContext string string
  | MissingLines string string
  | ApplyPathEscape string

section \<open>Lines\<close>

definition old_lines :: "hunk \<Rightarrow> string list" where
  "old_lines h = map hl_text (filter (\<lambda>l. hl_kind l \<in> {Context, Removed}) (hk_lines h))"

definition new_lines :: "hunk \<Rightarrow> string list" where
  "new_lines h = map hl_text (filter (\<lambda>l. hl_kind l \<in> {Context, Added}) (hk_lines h))"

definition split_lines :: "string \<Rightarrow> string list" where
  "split_lines content =
     (let ls = split_on (CHR 0x0A) content in if last ls = [] then butlast ls else ls)"

definition count_lines :: "string \<Rightarrow> nat" where
  "count_lines content = length (str_lines content)"

definition count_added_lines :: "hunk list \<Rightarrow> nat" where
  "count_added_lines hs = length (filter (\<lambda>l. hl_kind l = Added) (concat (map hk_lines hs)))"

definition count_removed_lines :: "hunk list \<Rightarrow> nat" where
  "count_removed_lines hs = length (filter (\<lambda>l. hl_kind l = Removed) (concat (map hk_lines hs)))"

definition seek_sequence :: "string list \<Rightarrow> string list \<Rightarrow> nat \<Rightarrow> bool \<Rightarrow> nat option" where
  "seek_sequence ls pattern start eof =
     (if pattern = [] \<or> length pattern > length ls then None
      else let candidates = [start..<Suc (length ls - length pattern)];
               fits = (\<lambda>candidate. take (length pattern) (drop candidate ls) = pattern)
           in if eof then List.find fits (rev candidates) else List.find fits candidates)"

section \<open>Replacements\<close>

type_synonym replacement = "nat \<times> nat \<times> string list"

text \<open>The search for the lines of one hunk: the place, the length and the lines put there.\<close>

definition locate_hunk :: "string list \<Rightarrow> nat \<Rightarrow> hunk \<Rightarrow> replacement option" where
  "locate_hunk ls line_index h =
     (let pattern = old_lines h; replace = new_lines h
      in case seek_sequence ls pattern line_index (hk_end_of_file h) of
        Some start \<Rightarrow> Some (start, length pattern, replace)
      | None \<Rightarrow>
          (if pattern \<noteq> [] \<and> last pattern = []
           then (let replace' = (if replace \<noteq> [] \<and> last replace = [] then butlast replace else replace)
                 in map_option (\<lambda>start. (start, length (butlast pattern), replace'))
                      (seek_sequence ls (butlast pattern) line_index (hk_end_of_file h)))
           else None))"

text \<open>The search for the header of a hunk, and where the search for its lines starts.\<close>

definition after_header :: "string \<Rightarrow> string list \<Rightarrow> nat \<Rightarrow> hunk \<Rightarrow> (nat, 'e apply_error) result" where
  "after_header path ls line_index h =
     (case hk_header h of
        None \<Rightarrow> Ok line_index
      | Some header \<Rightarrow>
          (case seek_sequence ls [header] line_index False of
             Some index \<Rightarrow> Ok (index + 1)
           | None \<Rightarrow> Err (MissingContext path header)))"

fun replacements_loop :: "string \<Rightarrow> string list \<Rightarrow> hunk list \<Rightarrow> nat \<Rightarrow> replacement list \<Rightarrow>
    (replacement list, 'e apply_error) result" where
  "replacements_loop path ls [] line_index replacements = Ok replacements"
| "replacements_loop path ls (h # hs) line_index replacements =
     try_then (after_header path ls line_index h) (\<lambda>line_index.
     if old_lines h = []
     then replacements_loop path ls hs line_index (replacements @ [(length ls, 0, new_lines h)])
     else case locate_hunk ls line_index h of
       None \<Rightarrow> Err (MissingLines path (join_with nl (old_lines h)))
     | Some (start, len, replace) \<Rightarrow>
         replacements_loop path ls hs (start + len) (replacements @ [(start, len, replace)]))"

definition compute_replacements :: "string \<Rightarrow> string list \<Rightarrow> hunk list \<Rightarrow> (replacement list, 'e apply_error) result" where
  "compute_replacements path ls hs =
     try_then (replacements_loop path ls hs 0 []) (\<lambda>replacements. Ok (sort_key fst replacements))"

text \<open>\<open>Vec::splice\<close>, whose range has to lie in the list.\<close>

definition splice_at :: "string list \<Rightarrow> replacement \<Rightarrow> string list" where
  "splice_at ls r = (case r of (start, len, replace) \<Rightarrow> take start ls @ replace @ drop (start + len) ls)"

definition finish_lines :: "string list \<Rightarrow> string" where
  "finish_lines ls = join_with nl (if ls = [] \<or> last ls \<noteq> [] then ls @ [[]] else ls)"

definition derive_new_content :: "string \<Rightarrow> string \<Rightarrow> hunk list \<Rightarrow> (string, 'e apply_error) result" where
  "derive_new_content path old_content hs =
     (let original_lines = split_lines old_content
      in try_then (compute_replacements path original_lines hs) (\<lambda>replacements.
         Ok (finish_lines (foldl splice_at original_lines (rev replacements)))))"

lemma splice_at_triple: "splice_at ls (start, len, replace) = take start ls @ replace @ drop (start + len) ls"
  by (simp add: splice_at_def)

section \<open>Operations\<close>

record 'e file_reader =
  fr_read :: "string \<Rightarrow> (string, 'e) result"
  fr_is_dir :: "string \<Rightarrow> (bool, 'e) result"

fun apply_file_op :: "'e file_reader \<Rightarrow> file_op \<Rightarrow> string \<Rightarrow> (file_change, 'e apply_error) result" where
  "apply_file_op fs (AddFile path contents) workdir =
     Ok \<lparr>fc_path = path, fc_move_to = None, fc_kind = ChangeAdded, fc_old_content = None,
         fc_new_content = Some contents, fc_added_lines = count_lines contents, fc_removed_lines = 0\<rparr>"
| "apply_file_op fs (DeleteFile path) workdir =
     (let absolute = path_join workdir path
      in case fr_is_dir fs absolute of
        Inl e \<Rightarrow> Err (InspectFile path e)
      | Inr is_dir \<Rightarrow>
          if is_dir then Err (DeleteDirectory path)
          else case fr_read fs absolute of
            Inl e \<Rightarrow> Err (ReadFile path e)
          | Inr old_content \<Rightarrow>
              Ok \<lparr>fc_path = path, fc_move_to = None, fc_kind = ChangeDeleted, fc_old_content = Some old_content,
                  fc_new_content = None, fc_added_lines = 0, fc_removed_lines = count_lines old_content\<rparr>)"
| "apply_file_op fs (UpdateFile path move_to hunks) workdir =
     (case fr_read fs (path_join workdir path) of
        Inl e \<Rightarrow> Err (ReadFile path e)
      | Inr old_content \<Rightarrow>
          try_then (derive_new_content path old_content hunks) (\<lambda>new_content.
            Ok \<lparr>fc_path = path, fc_move_to = move_to, fc_kind = ChangeUpdated, fc_old_content = Some old_content,
                fc_new_content = Some new_content, fc_added_lines = count_added_lines hunks,
                fc_removed_lines = count_removed_lines hunks\<rparr>))"

definition marked_lines :: "char \<Rightarrow> string \<Rightarrow> string" where
  "marked_lines mark content = concat (map (\<lambda>l. mark # l @ nl) (str_lines content))"

definition content_of :: "string option \<Rightarrow> string" where
  "content_of c = (case c of Some s \<Rightarrow> s | None \<Rightarrow> [])"

definition render_change_diff :: "file_change \<Rightarrow> string" where
  "render_change_diff change =
     (let new_path = (case fc_move_to change of Some p \<Rightarrow> p | None \<Rightarrow> fc_path change);
          out = ''--- '' @ fc_path change @ nl @ ''+++ '' @ new_path @ nl
      in case fc_kind change of
        ChangeAdded \<Rightarrow> out @ marked_lines (CHR ''+'') (content_of (fc_new_content change))
      | ChangeDeleted \<Rightarrow> out @ marked_lines (CHR ''-'') (content_of (fc_old_content change))
      | ChangeUpdated \<Rightarrow> out @ ''@@'' @ nl @ marked_lines (CHR ''-'') (content_of (fc_old_content change)) @
          marked_lines (CHR ''+'') (content_of (fc_new_content change)))"

fun apply_ops :: "'e file_reader \<Rightarrow> file_op list \<Rightarrow> string \<Rightarrow> (file_change list, 'e apply_error) result" where
  "apply_ops fs [] workdir = Ok []"
| "apply_ops fs (a # ops) workdir =
     try_then (apply_file_op fs a workdir) (\<lambda>change.
     try_then (apply_ops fs ops workdir) (\<lambda>changes. Ok (change # changes)))"

definition apply_patch :: "'e file_reader \<Rightarrow> patch \<Rightarrow> string \<Rightarrow> (applied_patch, 'e apply_error) result" where
  "apply_patch fs p workdir =
     (if pt_operations p = [] then Err EmptyPatch
      else try_then (apply_ops fs (pt_operations p) workdir) (\<lambda>changes.
        Ok \<lparr>ap_changed_files = changes,
            ap_added_lines = sum_list (map fc_added_lines changes),
            ap_removed_lines = sum_list (map fc_removed_lines changes),
            ap_diff = concat (map render_change_diff changes)\<rparr>))"

section \<open>Where a pattern is found\<close>

definition fits_at :: "string list \<Rightarrow> string list \<Rightarrow> nat \<Rightarrow> bool" where
  "fits_at ls pattern i \<longleftrightarrow> i + length pattern \<le> length ls \<and> take (length pattern) (drop i ls) = pattern"

lemma find_Some_mem: "List.find P xs = Some x \<Longrightarrow> x \<in> set xs \<and> P x"
  by (auto simp: find_Some_iff)

lemma seek_sequence_fits:
  assumes "seek_sequence ls pattern start eof = Some i"
  shows "start \<le> i \<and> fits_at ls pattern i \<and> pattern \<noteq> []"
  using assms find_Some_mem
  by (fastforce simp: seek_sequence_def fits_at_def Let_def split: if_splits)

lemma find_upt_least: "List.find P [a..<b] = Some i \<Longrightarrow> a \<le> j \<Longrightarrow> j < i \<Longrightarrow> \<not> P j"
proof -
  assume f: "List.find P [a..<b] = Some i" and j: "a \<le> j" "j < i"
  then obtain k where k: "k < b - a" "i = a + k" "\<forall>m<k. \<not> P (a + m)"
    by (auto simp: find_Some_iff)
  show "\<not> P j" using k(3) [rule_format, of "j - a"] k(2) j by simp
qed

lemma find_rev_upt_greatest: "List.find P (rev [a..<b]) = Some i \<Longrightarrow> i < j \<Longrightarrow> j < b \<Longrightarrow> \<not> P j"
proof (induction b)
  case (Suc b)
  then show ?case by (cases "a \<le> b") (auto simp: less_Suc_eq split: if_splits)
qed simp

text \<open>
  Without the end-of-file flag the search gives the first place from the start on, with it the
  last one, and nothing only when there is none.
\<close>

lemma seek_sequence_None:
  "seek_sequence ls pattern start eof = None \<longleftrightarrow> pattern = [] \<or> (\<forall>i\<ge>start. \<not> fits_at ls pattern i)"
  by (auto simp: seek_sequence_def fits_at_def Let_def find_None_iff)

lemma seek_sequence_first:
  "seek_sequence ls pattern start False = Some i \<Longrightarrow> start \<le> j \<Longrightarrow> j < i \<Longrightarrow> \<not> fits_at ls pattern j"
  using find_upt_least [of "\<lambda>c. take (length pattern) (drop c ls) = pattern" start "Suc (length ls - length pattern)" i j]
  by (auto simp: seek_sequence_def fits_at_def Let_def split: if_splits)

lemma seek_sequence_last:
  "seek_sequence ls pattern start True = Some i \<Longrightarrow> i < j \<Longrightarrow> \<not> fits_at ls pattern j"
  using find_rev_upt_greatest [of "\<lambda>c. take (length pattern) (drop c ls) = pattern" start "Suc (length ls - length pattern)" i j]
  by (auto simp: seek_sequence_def fits_at_def Let_def split: if_splits)

section \<open>Replacing disjoint regions\<close>

text \<open>
  The content after the replacements, read from the front: what lies between two regions is
  kept, every region gives way to its lines.
\<close>

fun assemble :: "nat \<Rightarrow> string list \<Rightarrow> replacement list \<Rightarrow> string list" where
  "assemble pos ls [] = drop pos ls"
| "assemble pos ls ((start, len, replace) # rs) =
     take (start - pos) (drop pos ls) @ replace @ assemble (start + len) ls rs"

fun spaced :: "nat \<Rightarrow> nat \<Rightarrow> replacement list \<Rightarrow> bool" where
  "spaced pos n [] \<longleftrightarrow> pos \<le> n"
| "spaced pos n ((start, len, replace) # rs) \<longleftrightarrow> pos \<le> start \<and> spaced (start + len) n rs"

text \<open>Every range that is spliced lies in the list it is spliced into.\<close>

fun splices_ok :: "string list \<Rightarrow> replacement list \<Rightarrow> bool" where
  "splices_ok ls [] \<longleftrightarrow> True"
| "splices_ok ls ((start, len, replace) # rs) \<longleftrightarrow>
     start + len \<le> length ls \<and> splices_ok (splice_at ls (start, len, replace)) rs"

lemma spaced_le: "spaced pos n rs \<Longrightarrow> pos \<le> n"
  by (induction pos n rs rule: spaced.induct) auto

lemma spliced_parts:
  "spaced pos (length ls) rs \<Longrightarrow> take pos (foldl splice_at ls (rev rs)) = take pos ls \<and>
    drop pos (foldl splice_at ls (rev rs)) = assemble pos ls rs \<and> pos \<le> length (foldl splice_at ls (rev rs))"
proof (induction rs arbitrary: pos)
  case (Cons r rs)
  obtain start len replace where r: "r = (start, len, replace)" by (cases r)
  let ?in = "foldl splice_at ls (rev rs)"
  have s: "pos \<le> start" "spaced (start + len) (length ls) rs" using Cons.prems r by simp_all
  note inner = Cons.IH [OF s(2)]
  have "take start (take (start + len) ?in) = take start (take (start + len) ls)" using inner by simp
  then have start: "take start ?in = take start ls" by (simp add: min_def)
  have "start \<le> length ls" using spaced_le [OF s(2)] by simp
  moreover have "foldl splice_at ls (rev (r # rs)) = take start ls @ replace @ assemble (start + len) ls rs"
    using inner by (simp add: r splice_at_triple start)
  ultimately show ?case using s(1) by (simp add: r min_def drop_take)
qed simp

lemma splices_append:
  "splices_ok ls (rs @ rs') \<longleftrightarrow> splices_ok ls rs \<and> splices_ok (foldl splice_at ls rs) rs'"
  by (induction ls rs rule: splices_ok.induct) simp_all

lemma spaced_splices_ok: "spaced pos (length ls) rs \<Longrightarrow> splices_ok ls (rev rs)"
proof (induction rs arbitrary: pos)
  case (Cons r rs)
  obtain start len replace where r: "r = (start, len, replace)" by (cases r)
  then have s: "spaced (start + len) (length ls) rs" using Cons.prems by simp
  show ?case using Cons.IH [OF s] spliced_parts [OF s] by (simp add: r splices_append)
qed simp

section \<open>What the loop finds\<close>

text \<open>
  A region and the lines put there stand for a hunk: the region is the old lines; or the old lines
  end in an empty one, they fit nowhere from the region on, and the region is the old lines without
  it, in which case an empty line at the end of the new lines is left out as well.
\<close>

definition stands_for :: "string list \<Rightarrow> hunk \<Rightarrow> replacement \<Rightarrow> bool" where
  "stands_for ls h r = (case r of (start, len, replace) \<Rightarrow>
     start + len \<le> length ls \<and> 0 < len \<and>
     (take len (drop start ls) = old_lines h \<and> replace = new_lines h \<or>
      take len (drop start ls) @ [[]] = old_lines h \<and>
        (\<forall>i\<ge>start. \<not> fits_at ls (old_lines h) i) \<and>
        replace = (if new_lines h \<noteq> [] \<and> last (new_lines h) = [] then butlast (new_lines h) else new_lines h)))"

definition realises :: "string list \<Rightarrow> hunk \<Rightarrow> replacement \<Rightarrow> bool" where
  "realises ls h r \<longleftrightarrow>
     (\<forall>x. hk_header h = Some x \<longrightarrow> x \<in> set (take (fst r) ls)) \<and>
     (if old_lines h = [] then r = (length ls, 0, new_lines h) else stands_for ls h r)"

definition in_place :: "replacement \<Rightarrow> bool" where
  "in_place r = (case r of (start, len, replace) \<Rightarrow> 0 < len)"

lemma in_place_triple [simp]: "in_place (start, len, replace) \<longleftrightarrow> 0 < len"
  by (simp add: in_place_def)

lemma locate_hunk_found:
  assumes "locate_hunk ls k h = Some (start, len, replace)"
  shows "k \<le> start \<and> stands_for ls h (start, len, replace)"
proof -
  consider "seek_sequence ls (old_lines h) k (hk_end_of_file h) = Some start" "len = length (old_lines h)"
      "replace = new_lines h"
    | "seek_sequence ls (butlast (old_lines h)) k (hk_end_of_file h) = Some start" "len = length (butlast (old_lines h))"
      "old_lines h \<noteq> []" "last (old_lines h) = []" "seek_sequence ls (old_lines h) k (hk_end_of_file h) = None"
      "replace = (if new_lines h \<noteq> [] \<and> last (new_lines h) = [] then butlast (new_lines h) else new_lines h)"
    using assms by (auto simp: locate_hunk_def Let_def split: option.splits if_splits)
  then show ?thesis
  proof cases
    case 1
    with seek_sequence_fits [OF 1(1)] show ?thesis by (simp add: fits_at_def stands_for_def)
  next
    case 2
    have "butlast (old_lines h) @ [[]] = old_lines h" using 2(3,4) by (metis append_butlast_last_id)
    moreover have "k \<le> start \<and> start + len \<le> length ls \<and> take len (drop start ls) = butlast (old_lines h)"
      and "butlast (old_lines h) \<noteq> []"
      using seek_sequence_fits [OF 2(1)] unfolding fits_at_def 2(2) [symmetric] by simp_all
    then have "k \<le> start" "start + len \<le> length ls" "0 < len" "take len (drop start ls) = butlast (old_lines h)"
      unfolding 2(2) by (simp_all del: length_butlast)
    moreover have "\<forall>i\<ge>start. \<not> fits_at ls (old_lines h) i"
      using 2(3,5) \<open>k \<le> start\<close> by (auto simp: seek_sequence_None)
    ultimately show ?thesis using 2(6) by (simp add: stands_for_def)
  qed
qed

lemma header_before:
  assumes "seek_sequence ls [x] k False = Some i" and "i < start"
  shows "x \<in> set (take start ls)"
proof -
  have i: "fits_at ls [x] i" using seek_sequence_fits [OF assms(1)] by simp
  then have "i < length ls" "take 1 (drop i ls) = [x]" by (simp_all add: fits_at_def)
  then have "ls ! i = x" by (simp add: take_Suc hd_drop_conv_nth)
  with \<open>i < length ls\<close> show ?thesis using assms(2) by (auto simp: in_set_conv_nth intro!: exI [of _ i])
qed

lemma after_header_found:
  assumes "after_header path ls k h = Ok k'" and "k \<le> length ls"
  shows "k \<le> k'" "k' \<le> length ls" "hk_header h = Some x \<Longrightarrow> k' \<le> i \<Longrightarrow> x \<in> set (take i ls)"
proof -
  have "k \<le> k' \<and> k' \<le> length ls \<and> (hk_header h = Some x \<longrightarrow> k' \<le> i \<longrightarrow> x \<in> set (take i ls))"
  proof (cases "hk_header h")
    case None
    with assms show ?thesis by (simp add: after_header_def)
  next
    case (Some y)
    with assms obtain j where j: "seek_sequence ls [y] k False = Some j" "k' = j + 1"
      by (auto simp: after_header_def split: option.splits)
    then have "k \<le> j" "j + 1 \<le> length ls" using seek_sequence_fits [OF j(1)] by (simp_all add: fits_at_def)
    then show ?thesis using header_before [OF j(1), of i] Some j(2) by auto
  qed
  then show "k \<le> k'" "k' \<le> length ls" "hk_header h = Some x \<Longrightarrow> k' \<le> i \<Longrightarrow> x \<in> set (take i ls)" by blast+
qed

lemma replacements_loop_found:
  assumes "(replacements_loop path ls hs k acc :: (replacement list, 'e apply_error) result) = Ok rs" and "k \<le> length ls"
  shows "\<exists>rs'. rs = acc @ rs' \<and> list_all2 (realises ls) hs rs' \<and> spaced k (length ls) (filter in_place rs')"
  using assms
proof (induction hs arbitrary: k acc)
  case (Cons h hs)
  obtain k' where ok: "(after_header path ls k h :: (nat, 'e apply_error) result) = Ok k'"
    using Cons.prems(1) by (cases "after_header path ls k h :: (nat, 'e apply_error) result") (simp_all add: try_then_def)
  note header = after_header_found [OF ok Cons.prems(2)]
  show ?case
  proof (cases "old_lines h = []")
    case True
    with Cons.prems(1) ok have "(replacements_loop path ls hs k' (acc @ [(length ls, 0, new_lines h)]) ::
      (replacement list, 'e apply_error) result) = Ok rs" by simp
    then obtain rs' where rs': "rs = acc @ (length ls, 0, new_lines h) # rs'" "list_all2 (realises ls) hs rs'"
        "spaced k' (length ls) (filter in_place rs')"
      using Cons.IH [OF _ header(2)] by fastforce
    have "x \<in> set ls" if "hk_header h = Some x" for x using header(3) [OF that header(2)] by simp
    then have "realises ls h (length ls, 0, new_lines h)" using True by (simp add: realises_def)
    moreover have "spaced k (length ls) (filter in_place rs')"
      using rs'(3) header(1) Cons.prems(2) by (cases "filter in_place rs'") auto
    ultimately show ?thesis
      using rs' by (intro exI [of _ "(length ls, 0, new_lines h) # rs'"]) simp
  next
    case False
    with Cons.prems(1) ok obtain start len replace where found: "locate_hunk ls k' h = Some (start, len, replace)"
        and run: "(replacements_loop path ls hs (start + len) (acc @ [(start, len, replace)]) ::
          (replacement list, 'e apply_error) result) = Ok rs"
      by (auto split: option.splits)
    have at: "k' \<le> start" "stands_for ls h (start, len, replace)" using locate_hunk_found [OF found] by simp_all
    then have fits: "start + len \<le> length ls" "0 < len" by (simp_all add: stands_for_def)
    obtain rs' where rs': "rs = acc @ (start, len, replace) # rs'" "list_all2 (realises ls) hs rs'"
        "spaced (start + len) (length ls) (filter in_place rs')"
      using Cons.IH [OF run fits(1)] by auto
    have "realises ls h (start, len, replace)" using False header at by (simp add: realises_def)
    then show ?thesis
      using rs' at(1) header(1) fits(2) by (intro exI [of _ "(start, len, replace) # rs'"]) simp
  qed
qed simp

text \<open>Sorting puts the regions first, in their order, and the lines for the end after them.\<close>

lemma realises_end: "list_all2 (realises ls) hs rs \<Longrightarrow> r \<in> set rs \<Longrightarrow> \<not> in_place r \<Longrightarrow> fst r = length ls \<and> fst (snd r) = 0"
  by (induction rule: list_all2_induct) (auto simp: realises_def stands_for_def in_place_def split: if_splits)

lemma realises_inside: "list_all2 (realises ls) hs rs \<Longrightarrow> r \<in> set rs \<Longrightarrow> in_place r \<Longrightarrow> fst r < length ls"
  by (induction rule: list_all2_induct) (auto simp: realises_def stands_for_def in_place_def split: if_splits)

lemma spaced_sorted: "spaced k n rs \<Longrightarrow> sorted (map fst rs) \<and> (\<forall>r\<in>set rs. k \<le> fst r)"
  by (induction k n rs rule: spaced.induct) fastforce+

lemma spaced_append_end:
  "spaced k n rs \<Longrightarrow> \<forall>r\<in>set es. fst r = n \<and> fst (snd r) = 0 \<Longrightarrow> spaced k n (rs @ es)"
proof (induction k n rs rule: spaced.induct)
  case (1 k n)
  then show ?case
  proof (induction es arbitrary: k)
    case (Cons e es)
    then show ?case by (cases e) auto
  qed simp
qed simp

lemma sorted_replacements:
  assumes "list_all2 (realises ls) hs rs" and "spaced 0 (length ls) (filter in_place rs)"
  shows "sort_key fst rs = filter in_place rs @ filter (\<lambda>r. \<not> in_place r) rs"
    and "spaced 0 (length ls) (sort_key fst rs)"
proof -
  let ?in = "filter in_place rs" and ?rest = "filter (\<lambda>r. \<not> in_place r) rs"
  have inside: "fst r < length ls" if "r \<in> set ?in" for r using that realises_inside [OF assms(1)] by simp
  have at_end: "fst r = length ls \<and> fst (snd r) = 0" if "r \<in> set ?rest" for r using that realises_end [OF assms(1)] by simp
  show eq: "sort_key fst rs = ?in @ ?rest"
  proof (rule properties_for_sort_key)
    show "mset (?in @ ?rest) = mset rs" by (simp flip: multiset_partition [of "mset rs" in_place])
    show "filter (\<lambda>y. fst r = fst y) (?in @ ?rest) = filter (\<lambda>y. fst r = fst y) rs" if "r \<in> set (?in @ ?rest)" for r
    proof (cases "in_place r")
      case True
      with that inside have "fst r < length ls" by auto
      then have "in_place y" if "y \<in> set rs" "fst r = fst y" for y using that realises_end [OF assms(1)] by fastforce
      then have "filter (\<lambda>y. fst r = fst y) ?in = filter (\<lambda>y. fst r = fst y) rs" "filter (\<lambda>y. fst r = fst y) ?rest = []"
        by (auto intro!: filter_cong simp: filter_empty_conv)
      then show ?thesis by (simp only: filter_append append_Nil2)
    next
      case False
      with that at_end have "fst r = length ls" by auto
      then have "\<not> in_place y" if "y \<in> set rs" "fst r = fst y" for y using that realises_inside [OF assms(1)] by fastforce
      then have "filter (\<lambda>y. fst r = fst y) ?rest = filter (\<lambda>y. fst r = fst y) rs" "filter (\<lambda>y. fst r = fst y) ?in = []"
        by (auto intro!: filter_cong simp: filter_empty_conv)
      then show ?thesis by (simp only: filter_append append_Nil)
    qed
    show "sorted (map fst (?in @ ?rest))"
      using spaced_sorted [OF assms(2)] spaced_sorted [OF spaced_append_end [OF assms(2)], of ?rest] at_end by simp
  qed
  show "spaced 0 (length ls) (sort_key fst rs)" unfolding eq using spaced_append_end [OF assms(2)] at_end by blast
qed

section \<open>The new content\<close>


lemma compute_replacements_found:
  assumes "(compute_replacements path ls hs :: (replacement list, 'e apply_error) result) = Ok rs"
  obtains rs0 where "list_all2 (realises ls) hs rs0" "rs = sort_key fst rs0" "spaced 0 (length ls) rs"
proof -
  obtain rs0 where run: "(replacements_loop path ls hs 0 [] :: (replacement list, 'e apply_error) result) = Ok rs0"
      and rs: "rs = sort_key fst rs0"
    using assms by (auto simp: compute_replacements_def try_then_Ok_iff)
  have "list_all2 (realises ls) hs rs0" "spaced 0 (length ls) (filter in_place rs0)"
    using replacements_loop_found [OF run] by simp_all
  from that [OF this(1) rs] sorted_replacements(2) [OF this] rs show thesis by simp
qed


definition demo_update :: "hunk list" where
  "demo_update =
     [\<lparr>hk_header = Some ''a'', hk_lines = [\<lparr>hl_kind = Context, hl_text = ''b''\<rparr>, \<lparr>hl_kind = Removed, hl_text = ''c''\<rparr>,
         \<lparr>hl_kind = Added, hl_text = ''C''\<rparr>], hk_end_of_file = False\<rparr>,
      \<lparr>hk_header = None, hk_lines = [\<lparr>hl_kind = Added, hl_text = ''z''\<rparr>], hk_end_of_file = False\<rparr>,
      \<lparr>hk_header = None, hk_lines = [\<lparr>hl_kind = Removed, hl_text = ''d''\<rparr>], hk_end_of_file = True\<rparr>]"

definition demo_content :: string where
  "demo_content = concat (map (\<lambda>l. l @ nl) [''a'', ''b'', ''c'', ''d'', ''x'', ''d'', ''y''])"



text \<open>
  No splice of an update is out of range: at each one, the region lies in the lines as the
  splices before it left them.
\<close>

theorem splices_in_range:
  "(compute_replacements path ls hs :: (replacement list, 'e apply_error) result) = Ok rs \<Longrightarrow> splices_ok ls (rev rs)"
  by (erule compute_replacements_found) (rule spaced_splices_ok)

theorem splices_in_range_witness:
  "splices_ok (split_lines demo_content) (rev [(1, 2, [''b'', ''C'']), (5, 1, []), (7, 0, [''z''])])"
proof -
  have "(compute_replacements ''f'' (split_lines demo_content) demo_update :: (replacement list, unit apply_error) result) =
      Ok [(1, 2, [''b'', ''C'']), (5, 1, []), (7, 0, [''z''])]"
    by code_simp
  then show ?thesis by (rule splices_in_range)
qed

text \<open>
  A file whose last line is blank loses a line end with any update, because the blank line counts
  as the end of the last line.
\<close>

lemma update_drops_blank_line:
  "(derive_new_content ''f'' (''a'' @ nl @ nl)
      [\<lparr>hk_header = None, hk_lines = [\<lparr>hl_kind = Removed, hl_text = ''a''\<rparr>, \<lparr>hl_kind = Added, hl_text = ''b''\<rparr>],
        hk_end_of_file = False\<rparr>] :: (string, unit apply_error) result) = Ok (''b'' @ nl)"
  by code_simp

end
