(* ===== verification/PatchWriter.thy ===== *)
theory PatchWriter
  imports PatchApply
begin

text \<open>
  Writing an applied patch (\<open>crates/taugentic-agent/src/patch/writer.rs\<close>) and the tool that reads,
  checks, applies and writes a patch (\<open>tools/apply_patch.rs\<close>). The file system is an argument: a
  record of the calls the code makes, on a state of any type.
\<close>

section \<open>The file system\<close>

record ('s, 'e) file_system =
  fs_canonicalize :: "'s \<Rightarrow> string \<Rightarrow> (string, 'e) result"
  fs_exists :: "'s \<Rightarrow> string \<Rightarrow> bool"
  fs_is_dir :: "'s \<Rightarrow> string \<Rightarrow> (bool, 'e) result"
  fs_read :: "'s \<Rightarrow> string \<Rightarrow> (string, 'e) result"
  fs_create_dir_all :: "string \<Rightarrow> 's \<Rightarrow> (unit, 'e) result \<times> 's"
  fs_write :: "string \<Rightarrow> string \<Rightarrow> 's \<Rightarrow> (unit, 'e) result \<times> 's"
  fs_remove_file :: "string \<Rightarrow> 's \<Rightarrow> (unit, 'e) result \<times> 's"

text \<open>
  \<open>Path::parent\<close> is the path of all components but the last, here with single separators.
\<close>

definition path_parent :: "string \<Rightarrow> string option" where
  "path_parent p =
     (let cs = path_components p
      in if cs = [] \<or> last cs = RootDir then None
         else Some (if butlast cs = [RootDir] then ''/'' else join_with ''/'' (map component_text (butlast cs))))"

section \<open>Containment\<close>

datatype 'e write_error =
    WriterPathEscape string
  | CreateParent string 'e
  | WriteFile string 'e
  | DeleteFileFailed string 'e
  | RenameFile string string 'e

fun to_apply_error :: "'e write_error \<Rightarrow> 'e apply_error option" where
  "to_apply_error (WriterPathEscape path) = Some (ApplyPathEscape path)"
| "to_apply_error _ = None"

definition canonicalize_workdir :: "('s, 'e) file_system \<Rightarrow> 's \<Rightarrow> string \<Rightarrow> (string, 'e write_error) result" where
  "canonicalize_workdir fs s workdir =
     (case fs_canonicalize fs s workdir of Inl _ \<Rightarrow> Err (WriterPathEscape workdir) | Inr p \<Rightarrow> Ok p)"

fun missing_loop :: "('s, 'e) file_system \<Rightarrow> 's \<Rightarrow> string \<Rightarrow> path_component list \<Rightarrow> string \<Rightarrow> string list \<Rightarrow>
    (string \<times> string list, 'e write_error) result" where
  "missing_loop fs s relative_path [] existing_parent missing = Ok (existing_parent, missing)"
| "missing_loop fs s relative_path (Normal part # cs) existing_parent missing =
     (let candidate = path_join existing_parent part
      in if fs_exists fs s candidate then missing_loop fs s relative_path cs candidate missing
         else missing_loop fs s relative_path cs existing_parent (missing @ [part]))"
| "missing_loop fs s relative_path (_ # cs) existing_parent missing = Err (WriterPathEscape relative_path)"

definition canonicalize_missing_path ::
    "('s, 'e) file_system \<Rightarrow> 's \<Rightarrow> string \<Rightarrow> string \<Rightarrow> (string, 'e write_error) result" where
  "canonicalize_missing_path fs s workdir relative_path =
     try_then (missing_loop fs s relative_path (path_components relative_path) workdir [])
       (\<lambda>(existing_parent, missing).
          case fs_canonicalize fs s existing_parent of
            Inl _ \<Rightarrow> Err (WriterPathEscape relative_path)
          | Inr canonical \<Rightarrow> Ok (foldl path_join canonical missing))"

definition ensure_contained ::
    "('s, 'e) file_system \<Rightarrow> 's \<Rightarrow> string \<Rightarrow> string \<Rightarrow> (unit, 'e write_error) result" where
  "ensure_contained fs s workdir relative_path =
     (if relative_path = [] \<or> is_absolute relative_path \<or> ParentDir \<in> set (path_components relative_path)
      then Err (WriterPathEscape relative_path)
      else try_then
        (case fs_canonicalize fs s (path_join workdir relative_path) of
           Inr path \<Rightarrow> Ok path
         | Inl _ \<Rightarrow> canonicalize_missing_path fs s workdir relative_path)
        (\<lambda>canonical.
           if path_starts_with canonical workdir then Ok () else Err (WriterPathEscape relative_path)))"

fun ensure_all :: "('s, 'e) file_system \<Rightarrow> 's \<Rightarrow> string \<Rightarrow> file_change list \<Rightarrow> (unit, 'e write_error) result" where
  "ensure_all fs s workdir [] = Ok ()"
| "ensure_all fs s workdir (change # changes) =
     try_then (ensure_contained fs s workdir (fc_path change)) (\<lambda>_.
     try_then (case fc_move_to change of None \<Rightarrow> Ok () | Some m \<Rightarrow> ensure_contained fs s workdir m) (\<lambda>_.
       ensure_all fs s workdir changes))"

definition validate_changes ::
    "('s, 'e) file_system \<Rightarrow> 's \<Rightarrow> applied_patch \<Rightarrow> string \<Rightarrow> (unit, 'e write_error) result" where
  "validate_changes fs s applied workdir =
     try_then (canonicalize_workdir fs s workdir) (\<lambda>workdir.
       ensure_all fs s workdir (ap_changed_files applied))"

section \<open>Writing\<close>

definition write_file :: "('s, 'e) file_system \<Rightarrow> string \<Rightarrow> string \<Rightarrow> 's \<Rightarrow> (unit, 'e write_error) result \<times> 's" where
  "write_file fs path content s =
     (let (made, s1) = (case path_parent path of None \<Rightarrow> (Ok (), s) | Some parent \<Rightarrow> fs_create_dir_all fs parent s)
      in case made of
        Inl e \<Rightarrow> (Err (CreateParent path e), s1)
      | Inr _ \<Rightarrow> (case fs_write fs path content s1 of
          (Inl e, s2) \<Rightarrow> (Err (WriteFile path e), s2)
        | (Inr _, s2) \<Rightarrow> (Ok (), s2)))"

text \<open>One turn of the loop: the bytes written.\<close>

definition write_change ::
    "('s, 'e) file_system \<Rightarrow> string \<Rightarrow> file_change \<Rightarrow> 's \<Rightarrow> (nat, 'e write_error) result \<times> 's" where
  "write_change fs workdir change s =
     (case fc_kind change of
        ChangeAdded \<Rightarrow>
          (let content = content_of (fc_new_content change)
           in case write_file fs (path_join workdir (fc_path change)) content s of
             (Inl e, s1) \<Rightarrow> (Err e, s1)
           | (Inr _, s1) \<Rightarrow> (Ok (length content), s1))
      | ChangeDeleted \<Rightarrow>
          (case fs_remove_file fs (path_join workdir (fc_path change)) s of
             (Inl e, s1) \<Rightarrow> (Err (DeleteFileFailed (fc_path change) e), s1)
           | (Inr _, s1) \<Rightarrow> (Ok 0, s1))
      | ChangeUpdated \<Rightarrow>
          (let target_relative = (case fc_move_to change of Some m \<Rightarrow> m | None \<Rightarrow> fc_path change);
               content = content_of (fc_new_content change)
           in case write_file fs (path_join workdir target_relative) content s of
             (Inl e, s1) \<Rightarrow> (Err e, s1)
           | (Inr _, s1) \<Rightarrow>
               if fc_move_to change = None then (Ok (length content), s1)
               else case fs_remove_file fs (path_join workdir (fc_path change)) s1 of
                 (Inl e, s2) \<Rightarrow> (Err (RenameFile (fc_path change) target_relative e), s2)
               | (Inr _, s2) \<Rightarrow> (Ok (length content), s2)))"

fun write_changes ::
    "('s, 'e) file_system \<Rightarrow> string \<Rightarrow> file_change list \<Rightarrow> nat \<Rightarrow> 's \<Rightarrow> (nat, 'e write_error) result \<times> 's" where
  "write_changes fs workdir [] bytes_written s = (Ok bytes_written, s)"
| "write_changes fs workdir (change # changes) bytes_written s =
     (case write_change fs workdir change s of
        (Inl e, s1) \<Rightarrow> (Err e, s1)
      | (Inr n, s1) \<Rightarrow> write_changes fs workdir changes (bytes_written + n) s1)"

definition write_applied_patch ::
    "('s, 'e) file_system \<Rightarrow> applied_patch \<Rightarrow> string \<Rightarrow> 's \<Rightarrow> (nat, 'e write_error) result \<times> 's" where
  "write_applied_patch fs applied workdir s =
     (case canonicalize_workdir fs s workdir of
        Inl e \<Rightarrow> (Err e, s)
      | Inr workdir \<Rightarrow>
          (case validate_changes fs s applied workdir of
             Inl e \<Rightarrow> (Err e, s)
           | Inr _ \<Rightarrow> write_changes fs workdir (ap_changed_files applied) 0 s))"

section \<open>The tool\<close>

text \<open>The errors of the parts are carried as they are where the code turns them into text.\<close>

datatype 'e patch_tool_error =
    ToolCancelled string
  | InvalidPatchInput parse_error
  | ApplyFailed "'e apply_error"
  | WriteFailed "'e write_error"

record apply_patch_result =
  apr_files_added :: "string list"
  apr_files_modified :: "string list"
  apr_files_deleted :: "string list"
  apr_files_moved :: "(string \<times> string) list"
  apr_diff_text :: string
  apr_bytes_written :: nat

fun op_paths :: "file_op \<Rightarrow> string list" where
  "op_paths (AddFile path _) = [path]"
| "op_paths (DeleteFile path) = [path]"
| "op_paths (UpdateFile path move_to _) = path # (case move_to of None \<Rightarrow> [] | Some m \<Rightarrow> [m])"

fun ensure_paths :: "('s, 'e) file_system \<Rightarrow> 's \<Rightarrow> string \<Rightarrow> string list \<Rightarrow> (unit, 'e apply_error) result" where
  "ensure_paths fs s workdir [] = Ok ()"
| "ensure_paths fs s workdir (path # paths) =
     (case ensure_contained fs s workdir path of
        Inl _ \<Rightarrow> Err (ApplyPathEscape path)
      | Inr _ \<Rightarrow> ensure_paths fs s workdir paths)"

definition ensure_patch_contained ::
    "('s, 'e) file_system \<Rightarrow> 's \<Rightarrow> file_op list \<Rightarrow> string \<Rightarrow> (unit, 'e apply_error) result" where
  "ensure_patch_contained fs s operations workdir =
     (case fs_canonicalize fs s workdir of
        Inl _ \<Rightarrow> Err (ApplyPathEscape workdir)
      | Inr workdir \<Rightarrow> ensure_paths fs s workdir (concat (map op_paths operations)))"

definition patch_tool_result :: "applied_patch \<Rightarrow> nat \<Rightarrow> apply_patch_result" where
  "patch_tool_result applied bytes_written =
     \<lparr>apr_files_added = map fc_path (filter (\<lambda>c. fc_kind c = ChangeAdded) (ap_changed_files applied)),
      apr_files_modified = map fc_path
        (filter (\<lambda>c. fc_kind c = ChangeUpdated \<and> fc_move_to c = None) (ap_changed_files applied)),
      apr_files_deleted = map fc_path (filter (\<lambda>c. fc_kind c = ChangeDeleted) (ap_changed_files applied)),
      apr_files_moved = concat (map (\<lambda>c. case fc_move_to c of None \<Rightarrow> [] | Some m \<Rightarrow> [(fc_path c, m)])
        (ap_changed_files applied)),
      apr_diff_text = ap_diff applied, apr_bytes_written = bytes_written\<rparr>"

definition file_reader_of :: "('s, 'e) file_system \<Rightarrow> 's \<Rightarrow> 'e file_reader" where
  "file_reader_of fs s = \<lparr>fr_read = fs_read fs s, fr_is_dir = fs_is_dir fs s\<rparr>"

text \<open>
  \<open>run\<close> on a decoded input; the three arguments before the input say whether the token is
  cancelled when the code looks at it.
\<close>

definition run_apply_patch ::
    "('s, 'e) file_system \<Rightarrow> string \<Rightarrow> bool \<Rightarrow> bool \<Rightarrow> bool \<Rightarrow> string \<Rightarrow> 's \<Rightarrow>
      (apply_patch_result, 'e patch_tool_error) result \<times> 's" where
  "run_apply_patch fs workdir cancelled0 cancelled1 cancelled2 input s =
     (if cancelled0 then (Err (ToolCancelled ''apply_patch cancelled before execution''), s)
      else case parse_patch input of
        Inl e \<Rightarrow> (Err (InvalidPatchInput e), s)
      | Inr patch \<Rightarrow>
      (case ensure_patch_contained fs s (pt_operations patch) workdir of
        Inl e \<Rightarrow> (Err (ApplyFailed e), s)
      | Inr _ \<Rightarrow>
      (if cancelled1 then (Err (ToolCancelled ''apply_patch cancelled before write''), s)
      else case apply_patch (file_reader_of fs s) patch workdir of
        Inl e \<Rightarrow> (Err (ApplyFailed e), s)
      | Inr applied \<Rightarrow>
      (case validate_changes fs s applied workdir of
        Inl e \<Rightarrow> (Err (WriteFailed e), s)
      | Inr _ \<Rightarrow>
      (if cancelled2 then (Err (ToolCancelled ''apply_patch cancelled before write''), s)
      else case write_applied_patch fs applied workdir s of
        (Inl e, s1) \<Rightarrow> (Err (WriteFailed e), s1)
      | (Inr bytes_written, s1) \<Rightarrow> (Ok (patch_tool_result applied bytes_written), s1))))))"

section \<open>What the tool touches\<close>
















section \<open>How a run ends\<close>

text \<open>The failures after which something may have been written.\<close>

fun write_stage :: "'e patch_tool_error \<Rightarrow> bool" where
  "write_stage (WriteFailed (WriterPathEscape _)) = False"
| "write_stage (WriteFailed _) = True"
| "write_stage _ = False"

definition is_escape :: "'e write_error \<Rightarrow> bool" where
  "is_escape e \<longleftrightarrow> (\<exists>p. e = WriterPathEscape p)"

lemma escape_not_stage: "is_escape e \<longleftrightarrow> \<not> write_stage (WriteFailed e)"
  by (cases e) (simp_all add: is_escape_def)

lemma is_escape_escape [simp]: "is_escape (WriterPathEscape p)"
  by (simp add: is_escape_def)

lemma missing_loop_escape: "missing_loop fs s p cs a m = Err e \<Longrightarrow> is_escape e"
  by (induction fs s p cs a m rule: missing_loop.induct) (auto simp: Let_def split: if_splits)

lemma canonicalize_missing_escape: "canonicalize_missing_path fs s dir p = Err e \<Longrightarrow> is_escape e"
proof (cases "missing_loop fs s p (path_components p) dir []")
  case (Inr r)
  assume "canonicalize_missing_path fs s dir p = Err e"
  with Inr show ?thesis
    by (cases r; cases "fs_canonicalize fs s (fst r)") (auto simp: canonicalize_missing_path_def)
qed (auto simp: canonicalize_missing_path_def dest: missing_loop_escape)

lemma ensure_contained_escape: "ensure_contained fs s dir p = Err e \<Longrightarrow> is_escape e"
  by (auto simp: ensure_contained_def try_then_Err_iff dest: canonicalize_missing_escape split: if_splits sum.splits)

lemma ensure_all_escape: "ensure_all fs s dir changes = Err e \<Longrightarrow> is_escape e"
  by (induction changes) (auto simp: try_then_Err_iff dest: ensure_contained_escape split: option.splits)

lemma validate_escape: "validate_changes fs s applied dir = Err e \<Longrightarrow> is_escape e"
  by (auto simp: validate_changes_def canonicalize_workdir_def try_then_Err_iff dest: ensure_all_escape split: sum.splits)

lemma write_file_stage: "fst (write_file fs path content s) = Err e \<Longrightarrow> \<not> is_escape e"
  by (auto simp: write_file_def is_escape_def split: option.splits sum.splits prod.splits)

lemma write_change_stage: "fst (write_change fs dir change s) = Err e \<Longrightarrow> \<not> is_escape e"
proof -
  assume e: "fst (write_change fs dir change s) = Err e"
  define target where "target = (case fc_move_to change of Some m \<Rightarrow> m | None \<Rightarrow> fc_path change)"
  obtain r1 s1 where w1: "write_file fs (path_join dir (fc_path change)) (content_of (fc_new_content change)) s = (r1, s1)"
    by fastforce
  obtain r2 s2 where w2: "write_file fs (path_join dir target) (content_of (fc_new_content change)) s = (r2, s2)"
    by fastforce
  have "r1 = Err x \<Longrightarrow> \<not> is_escape x" "r2 = Err x \<Longrightarrow> \<not> is_escape x" for x
    using write_file_stage w1 w2 by (metis fst_conv)+
  then show ?thesis
    using e w1 w2 unfolding write_change_def Let_def target_def [symmetric]
    by (cases "fc_kind change") (auto simp: is_escape_def split: sum.splits prod.splits if_splits)
qed

lemma write_changes_stage: "fst (write_changes fs dir changes n s) = Err e \<Longrightarrow> \<not> is_escape e"
proof (induction changes arbitrary: n s)
  case (Cons c cs)
  then show ?case
    using write_change_stage [of fs dir c s] by (cases "write_change fs dir c s") (auto split: sum.splits)
qed simp

lemma writer_escape_unchanged:
  assumes "fst (write_applied_patch fs applied dir s) = Err e" "is_escape e"
  shows "snd (write_applied_patch fs applied dir s) = s"
  using assms write_changes_stage
  by (fastforce simp: write_applied_patch_def split: sum.splits)

lemma run_outcome:
  obtains (unwritten) e where "run_apply_patch fs workdir c0 c1 c2 input s = (Err e, s)" "\<not> write_stage e"
  | (written) p applied where "parse_patch input = Ok p" "apply_patch (file_reader_of fs s) p workdir = Ok applied"
      "validate_changes fs s applied workdir = Ok ()"
      "run_apply_patch fs workdir c0 c1 c2 input s = (case write_applied_patch fs applied workdir s of
        (Inl e, s1) \<Rightarrow> (Err (WriteFailed e), s1) | (Inr n, s1) \<Rightarrow> (Ok (patch_tool_result applied n), s1))"
proof (cases c0)
  case True
  with unwritten show thesis by (simp add: run_apply_patch_def)
next
  case c0: False
  show thesis
  proof (cases "parse_patch input")
    case (Inl e)
    with c0 unwritten show thesis by (simp add: run_apply_patch_def)
  next
    case p: (Inr p)
    show thesis
    proof (cases "ensure_patch_contained fs s (pt_operations p) workdir")
      case (Inl e)
      with c0 p unwritten show thesis by (simp add: run_apply_patch_def)
    next
      case in_dir: (Inr u)
      show thesis
      proof (cases "c1 \<or> (\<exists>e. apply_patch (file_reader_of fs s) p workdir = Err e)")
        case True
        with c0 p in_dir unwritten show thesis by (cases c1) (auto simp: run_apply_patch_def)
      next
        case False
        then obtain applied where c1: "\<not> c1" and a: "apply_patch (file_reader_of fs s) p workdir = Ok applied"
          by (cases "apply_patch (file_reader_of fs s) p workdir") auto
        show thesis
        proof (cases "validate_changes fs s applied workdir")
          case (Inl e)
          then have "\<not> write_stage (WriteFailed e)" using validate_escape escape_not_stage by metis
          with Inl c0 p in_dir c1 a unwritten show thesis by (simp add: run_apply_patch_def)
        next
          case (Inr v)
          with c0 p in_dir c1 a unwritten written show thesis by (cases c2) (simp_all add: run_apply_patch_def)
        qed
      qed
    qed
  qed
qed


text \<open>
  A run that is cancelled, cannot read the patch, finds a path outside the working directory
  or does not find the lines of a hunk changes nothing at all.
\<close>

theorem patch_failure_without_effect:
  assumes "fst (run_apply_patch fs workdir cancelled0 cancelled1 cancelled2 input s) = Err e" and "\<not> write_stage e"
  shows "snd (run_apply_patch fs workdir cancelled0 cancelled1 cancelled2 input s) = s"
proof (cases rule: run_outcome [of fs workdir cancelled0 cancelled1 cancelled2 input s])
  case (written p applied)
  with assms writer_escape_unchanged [of fs applied workdir s] show ?thesis
    by (cases "write_applied_patch fs applied workdir s") (auto simp: escape_not_stage split: sum.splits)
qed simp

section \<open>A file system without links\<close>

text \<open>Files by their full path, every path canonical, directories without limit.\<close>

definition demo_fs :: "(string \<rightharpoonup> string, unit) file_system" where
  "demo_fs = \<lparr>fs_canonicalize = (\<lambda>_. Ok), fs_exists = (\<lambda>s p. s p \<noteq> None), fs_is_dir = (\<lambda>_ _. Ok False),
     fs_read = (\<lambda>s p. case s p of None \<Rightarrow> Err () | Some c \<Rightarrow> Ok c), fs_create_dir_all = (\<lambda>_ s. (Ok (), s)),
     fs_write = (\<lambda>p c s. (Ok (), s(p \<mapsto> c))),
     fs_remove_file = (\<lambda>p s. if s p = None then (Err (), s) else (Ok (), s(p := None)))\<rparr>"

definition demo_files :: "string \<rightharpoonup> string" where
  "demo_files = [''/w/f'' \<mapsto> ''a'' @ nl @ ''b'' @ nl, ''/etc/x'' \<mapsto> ''secret'']"

definition demo_edit :: "string option \<Rightarrow> string \<Rightarrow> string \<Rightarrow> file_op" where
  "demo_edit move_to old_line new_line = UpdateFile ''f'' move_to
     [\<lparr>hk_header = None, hk_lines = [\<lparr>hl_kind = Removed, hl_text = old_line\<rparr>, \<lparr>hl_kind = Added, hl_text = new_line\<rparr>],
       hk_end_of_file = False\<rparr>]"



theorem patch_failure_without_effect_witness:
  "snd (run_apply_patch demo_fs ''/w'' False False False
     (to_patch_string \<lparr>pt_operations = [DeleteFile ''f'', demo_edit None ''absent'' ''A'']\<rparr>) demo_files) = demo_files"
proof (rule patch_failure_without_effect)
  show "fst (run_apply_patch demo_fs ''/w'' False False False
     (to_patch_string \<lparr>pt_operations = [DeleteFile ''f'', demo_edit None ''absent'' ''A'']\<rparr>) demo_files) =
     Err (ApplyFailed (MissingLines ''f'' ''absent''))"
    by code_simp
qed simp

text \<open>Of two updates of one file in a patch only the second is left, since both start from the file as it was.\<close>

lemma second_update_wins:
  "snd (run_apply_patch demo_fs ''/w'' False False False
     (to_patch_string \<lparr>pt_operations = [demo_edit None ''a'' ''A'', demo_edit None ''b'' ''B'']\<rparr>) demo_files) ''/w/f'' =
   Some (''a'' @ nl @ ''B'' @ nl)"
  by code_simp

text \<open>Moving a file onto itself deletes it.\<close>

lemma move_onto_itself_deletes:
  "snd (run_apply_patch demo_fs ''/w'' False False False
     (to_patch_string \<lparr>pt_operations = [demo_edit (Some ''f'') ''a'' ''A'']\<rparr>) demo_files) ''/w/f'' = None"
  by code_simp

text \<open>
  A link in the working directory whose target does not exist neither resolves nor exists: it is
  accepted as a new file, wherever it points, and writing it creates its target.
\<close>

lemma dangling_link_accepted:
  assumes "fs_canonicalize fs s ''/w/l'' = Err e" "\<not> fs_exists fs s ''/w/l''" "fs_canonicalize fs s ''/w'' = Ok ''/w''"
  shows "ensure_contained fs s ''/w'' ''l'' = Ok ()"
proof -
  have "path_components ''l'' = [Normal ''l'']" "path_join ''/w'' ''l'' = ''/w/l''" "path_starts_with ''/w/l'' ''/w''"
    by code_simp+
  with assms show ?thesis by (simp add: ensure_contained_def canonicalize_missing_path_def is_absolute_def)
qed

text \<open>
  A link \<open>l\<close> leads outside, a link \<open>b\<close> there leads back into the working directory, and \<open>a\<close> does not
  exist: the search takes \<open>l/b\<close> for what exists of \<open>l/a/b\<close> and accepts it, although writing it
  creates a directory behind \<open>l\<close>, outside.
\<close>

lemma link_behind_missing_name_accepted:
  assumes "fs_canonicalize fs s ''/w/l/a/b'' = Err e" and "fs_exists fs s ''/w/l''" and "\<not> fs_exists fs s ''/w/l/a''"
    and "fs_exists fs s ''/w/l/b''" and "fs_canonicalize fs s ''/w/l/b'' = Ok ''/w''"
  shows "ensure_contained fs s ''/w'' ''l/a/b'' = Ok ()"
proof -
  have "path_components ''l/a/b'' = [Normal ''l'', Normal ''a'', Normal ''b'']"
    and "path_join ''/w'' ''l/a/b'' = ''/w/l/a/b''" and "path_join ''/w'' ''l'' = ''/w/l''"
    and "path_join ''/w/l'' ''a'' = ''/w/l/a''" and "path_join ''/w/l'' ''b'' = ''/w/l/b''"
    and "path_starts_with (path_join ''/w'' ''a'') ''/w''"
    by code_simp+
  with assms show ?thesis by (simp add: ensure_contained_def canonicalize_missing_path_def is_absolute_def)
qed

end
