(* ===== verification/Workflow.thy ===== *)
theory Workflow
  imports Wire Strings
begin

text \<open>
  Workflow definitions (\<open>crates/ta-workflow/src\<close>): the types of \<open>wire/workflow.rs\<close>, the search
  for duplicate keys in the text, the validation, and the manager that keeps the workflow in
  force. Decoding YAML and reading files are arguments.
\<close>

section \<open>Types\<close>

datatype f64 = F64NaN | F64Inf bool | F64 rat

datatype workflow_source_kind =
  WsLinear | WsGithubIssues | WsGithubPrReviews | WsLocalTasks | WsMissionBoard | WsCli

record workflow_source_binding =
  ws_kind :: workflow_source_kind
  ws_project :: "string option"
  ws_repo :: "string option"
  ws_paths :: "string list"
  ws_active_states :: "string list"
  ws_terminal_states :: "string list"

record workflow_retry_policy =
  wr_initial_ms :: nat
  wr_max_ms :: nat

record workflow_orchestrator_policy =
  wo_max_concurrent_missions :: nat
  wo_max_capsules_per_mission :: nat
  wo_retry :: workflow_retry_policy

datatype workflow_file_write_approval = FileWriteAsk | FileWriteAuto | FileWriteDeny
datatype workflow_process_approval = ProcessAsk | ProcessAskForSensitive | ProcessAuto | ProcessDeny
datatype workflow_network_approval = NetworkAllowlist | NetworkAsk | NetworkDeny

record workflow_approval_policy =
  wa_file_write :: workflow_file_write_approval
  wa_process :: workflow_process_approval
  wa_network :: workflow_network_approval

record workflow_policy =
  wp_approvals :: workflow_approval_policy
  wp_network_allowlist :: "string list"

record workflow_runtime_profile_ref =
  wf_provider :: ident
  wf_model :: model_id
  wf_reasoning_effort :: "string option"

datatype workflow_output_requirement =
  NeedEvidence | NeedTests | NeedPatchOrBlocker | NeedRiskSummary | NeedPlan | NeedReviewFindings

record workflow_outputs_policy =
  wq_required :: "workflow_output_requirement list"

record workflow_budget_limits =
  wb_max_tokens :: "nat option"
  wb_max_cost_usd :: "f64 option"
  wb_max_wall_time_ms :: "nat option"

record workflow_budgets =
  wb_per_capsule :: workflow_budget_limits
  wb_per_orchestrator :: workflow_budget_limits
  wb_per_workflow :: workflow_budget_limits

record workflow_definition =
  wd_kind :: string
  wd_name :: string
  wd_source :: workflow_source_binding
  wd_orchestrator :: workflow_orchestrator_policy
  wd_policy :: workflow_policy
  wd_runtime_profiles :: "(string, workflow_runtime_profile_ref) btree"
  wd_outputs :: workflow_outputs_policy
  wd_budgets :: workflow_budgets

record workflow_validation_error =
  we_path :: string
  we_message :: string

record workflow_validation_report =
  wv_valid :: bool
  wv_errors :: "workflow_validation_error list"

record workflow_loaded_status =
  wl_name :: string
  wl_path :: string
  wl_source_kind :: workflow_source_kind
  wl_runtime_profile_count :: nat
  wl_version :: nat

datatype workflow_reload_outcome =
    Reloaded string "string option" nat
  | ReloadFailed "workflow_validation_error list"

record workflow_status_result =
  wt_loaded :: "workflow_loaded_status option"
  wt_last_reload :: "workflow_reload_outcome option"

definition workflow_kind_v1 :: string where
  "workflow_kind_v1 = ''taugentic.workflow/v1''"

section \<open>Duplicate keys in the text\<close>

text \<open>\<open>str::trim_matches\<close> on a character.\<close>

definition trim_matches :: "char \<Rightarrow> string \<Rightarrow> string" where
  "trim_matches c s = rev (dropWhile (\<lambda>x. x = c) (rev (dropWhile (\<lambda>x. x = c) s)))"

record path_frame =
  pf_indent :: nat
  pf_key :: string

definition key_at_line :: "string \<Rightarrow> (nat \<times> string) option" where
  "key_at_line line =
     (let without_comment = trim_end (hd (split_on (CHR ''#'') line))
      in if trim without_comment = [] then None
         else let indent = length without_comment - length (trim_start without_comment);
                  trimmed = trim_start without_comment
      in if starts_with ''-'' trimmed then None
         else if CHR '':'' \<notin> set trimmed then None
         else let key = trim (takeWhile (\<lambda>c. c \<noteq> CHR '':'') trimmed)
      in if key = [] \<or> list_ex (\<lambda>c. c \<in> set key) [CHR '' '', CHR ''['', CHR '']'', CHR ''{'', CHR ''}''] then None
         else Some (indent, trim_matches (CHR 0x27) (trim_matches (CHR 0x22) key)))"

definition pop_frames :: "nat \<Rightarrow> path_frame list \<Rightarrow> path_frame list" where
  "pop_frames indent stack = rev (dropWhile (\<lambda>f. indent \<le> pf_indent f) (rev stack))"

definition parent_path :: "string list \<Rightarrow> string" where
  "parent_path keys = (if keys = [] then ''$'' else ''$.'' @ join_with ''.'' keys)"

definition duplicate_error :: "string \<Rightarrow> string \<Rightarrow> nat \<Rightarrow> workflow_validation_error" where
  "duplicate_error parent key line_index =
     \<lparr>we_path = parent @ ''.'' @ key, we_message = ''duplicate key on line '' @ dec (line_index + 1)\<rparr>"

fun duplicate_loop :: "nat \<Rightarrow> string list \<Rightarrow> path_frame list \<Rightarrow> (string \<Rightarrow> string set) \<Rightarrow>
    workflow_validation_error list \<Rightarrow> workflow_validation_error list" where
  "duplicate_loop line_index [] stack seen errors = errors"
| "duplicate_loop line_index (line # rest) stack seen errors =
     (case key_at_line line of
        None \<Rightarrow> duplicate_loop (line_index + 1) rest stack seen errors
      | Some (indent, key) \<Rightarrow>
          (let stack1 = pop_frames indent stack;
               parent = parent_path (map pf_key stack1);
               errors1 = (if key \<in> seen parent then errors @ [duplicate_error parent key line_index] else errors)
           in duplicate_loop (line_index + 1) rest (stack1 @ [\<lparr>pf_indent = indent, pf_key = key\<rparr>])
                (seen(parent := insert key (seen parent))) errors1))"

definition duplicate_key_errors :: "string \<Rightarrow> workflow_validation_error list" where
  "duplicate_key_errors contents = duplicate_loop 0 (str_lines contents) [] (\<lambda>_. {}) []"

section \<open>Validation\<close>

definition when_error :: "bool \<Rightarrow> string \<Rightarrow> string \<Rightarrow> workflow_validation_error list" where
  "when_error c path message = (if c then [\<lparr>we_path = path, we_message = message\<rparr>] else [])"

definition validate_positive :: "nat \<Rightarrow> string \<Rightarrow> workflow_validation_error list" where
  "validate_positive v path = when_error (v = 0) path ''value must be greater than zero''"

fun cost_ok :: "f64 \<Rightarrow> bool" where
  "cost_ok F64NaN = False"
| "cost_ok (F64Inf _) = False"
| "cost_ok (F64 q) = (0 \<le> q)"

definition validate_budget_limits :: "string \<Rightarrow> workflow_budget_limits \<Rightarrow> workflow_validation_error list" where
  "validate_budget_limits path limits =
     when_error (wb_max_tokens limits = Some 0) (path @ ''.max_tokens'') ''max_tokens must be greater than zero'' @
     when_error (some_and (\<lambda>c. \<not> cost_ok c) (wb_max_cost_usd limits)) (path @ ''.max_cost_usd'')
       ''max_cost_usd must be finite and non-negative'' @
     when_error (wb_max_wall_time_ms limits = Some 0) (path @ ''.max_wall_time_ms'')
       ''max_wall_time_ms must be greater than zero''"

definition bad_host :: "string \<Rightarrow> bool" where
  "bad_host host \<longleftrightarrow> trim host = [] \<or> CHR ''/'' \<in> set host \<or> CHR '':'' \<in> set host"

fun validate_hosts :: "nat \<Rightarrow> string list \<Rightarrow> workflow_validation_error list" where
  "validate_hosts index [] = []"
| "validate_hosts index (host # hosts) =
     when_error (bad_host host) (''$.policy.network_allowlist['' @ dec index @ '']'')
       ''network allowlist entries must be hostnames without scheme or path'' @
     validate_hosts (index + 1) hosts"

definition validate_workflow :: "workflow_definition \<Rightarrow> workflow_validation_error list" where
  "validate_workflow w =
     when_error (wd_kind w \<noteq> workflow_kind_v1) ''$.kind'' (''kind must be '' @ workflow_kind_v1) @
     when_error (trim (wd_name w) = []) ''$.name'' ''name must not be empty'' @
     when_error (ws_active_states (wd_source w) = []) ''$.source.active_states'' ''at least one active state is required'' @
     when_error (ws_terminal_states (wd_source w) = []) ''$.source.terminal_states''
       ''at least one terminal state is required'' @
     when_error (ws_kind (wd_source w) = WsGithubIssues \<and> ws_repo (wd_source w) = None) ''$.source.repo''
       ''github_issues source requires repo in owner/name form'' @
     validate_positive (wo_max_concurrent_missions (wd_orchestrator w)) ''$.orchestrator.max_concurrent_missions'' @
     validate_positive (wo_max_capsules_per_mission (wd_orchestrator w)) ''$.orchestrator.max_capsules_per_mission'' @
     validate_positive (wr_initial_ms (wo_retry (wd_orchestrator w))) ''$.orchestrator.retry.initial_ms'' @
     validate_positive (wr_max_ms (wo_retry (wd_orchestrator w))) ''$.orchestrator.retry.max_ms'' @
     when_error (wr_initial_ms (wo_retry (wd_orchestrator w)) > wr_max_ms (wo_retry (wd_orchestrator w)))
       ''$.orchestrator.retry'' ''initial_ms must be less than or equal to max_ms'' @
     validate_hosts 0 (wp_network_allowlist (wd_policy w)) @
     when_error (wd_runtime_profiles w = []) ''$.runtime_profiles''
       ''at least one runtime profile is required for background sources'' @
     concat (map (\<lambda>(kind, _). when_error (trim kind = []) (''$.runtime_profiles.'' @ kind) ''capsule kind must not be empty'')
       (wd_runtime_profiles w)) @
     when_error (wq_required (wd_outputs w) = []) ''$.outputs.required'' ''at least one required output is required'' @
     validate_budget_limits ''$.budgets.per_capsule'' (wb_per_capsule (wd_budgets w)) @
     validate_budget_limits ''$.budgets.per_orchestrator'' (wb_per_orchestrator (wd_budgets w)) @
     validate_budget_limits ''$.budgets.per_workflow'' (wb_per_workflow (wd_budgets w))"

text \<open>Decoding the text of a workflow is an argument; its error is the message.\<close>

type_synonym yaml_decoder = "string \<Rightarrow> (workflow_definition, string) result"

definition validation_report :: "workflow_validation_error list \<Rightarrow> workflow_validation_report" where
  "validation_report errors = \<lparr>wv_valid = (errors = []), wv_errors = errors\<rparr>"

definition invalid_report :: "string \<Rightarrow> string \<Rightarrow> workflow_validation_report" where
  "invalid_report path message = \<lparr>wv_valid = False, wv_errors = [\<lparr>we_path = path, we_message = message\<rparr>]\<rparr>"

definition validate_workflow_yaml :: "yaml_decoder \<Rightarrow> string \<Rightarrow> workflow_validation_report" where
  "validate_workflow_yaml decode contents =
     (let errors = duplicate_key_errors contents
      in case decode contents of
        Inl e \<Rightarrow> validation_report (errors @ [\<lparr>we_path = ''$'', we_message = e\<rparr>])
      | Inr w \<Rightarrow> validation_report (errors @ validate_workflow w))"

definition load_workflow_file :: "yaml_decoder \<Rightarrow> (string \<Rightarrow> (string, string) result) \<Rightarrow> string \<Rightarrow> workflow_validation_report" where
  "load_workflow_file decode read path =
     (case read path of
        Inl e \<Rightarrow> invalid_report ''$'' (''failed to read workflow file: '' @ e)
      | Inr contents \<Rightarrow> validate_workflow_yaml decode contents)"

definition parse_valid_workflow :: "yaml_decoder \<Rightarrow> string \<Rightarrow> (workflow_definition, workflow_validation_report) result" where
  "parse_valid_workflow decode contents =
     (let report = validate_workflow_yaml decode contents
      in if \<not> wv_valid report then Err report
         else case decode contents of Inl e \<Rightarrow> Err (invalid_report ''$'' e) | Inr w \<Rightarrow> Ok w)"

section \<open>The manager\<close>

record workflow_state =
  wm_current :: "workflow_definition option"
  wm_path :: "string option"
  wm_version :: nat
  wm_last_reload :: "workflow_reload_outcome option"

datatype 'e workflow_manager_error = MissingPath | InvalidValidateParams | ReadFailed 'e

definition workflow_manager_new :: workflow_state where
  "workflow_manager_new = \<lparr>wm_current = None, wm_path = None, wm_version = 0, wm_last_reload = None\<rparr>"

definition workflow_status :: "workflow_state \<Rightarrow> workflow_status_result" where
  "workflow_status st =
     \<lparr>wt_loaded = (case (wm_current st, wm_path st) of
        (Some w, Some path) \<Rightarrow> Some \<lparr>wl_name = wd_name w, wl_path = path, wl_source_kind = ws_kind (wd_source w),
          wl_runtime_profile_count = min (length (wd_runtime_profiles w)) u32_max, wl_version = wm_version st\<rparr>
      | _ \<Rightarrow> None),
      wt_last_reload = wm_last_reload st\<rparr>"

definition workflow_swap :: "string \<Rightarrow> workflow_definition \<Rightarrow> workflow_state \<Rightarrow> workflow_state" where
  "workflow_swap path w st =
     (let prev_name = map_option wd_name (wm_current st); version = sat_add (wm_version st) 1
      in st\<lparr>wm_version := version, wm_path := Some path, wm_current := Some w,
            wm_last_reload := Some (Reloaded (wd_name w) prev_name version)\<rparr>)"

definition record_failed_reload :: "workflow_validation_report \<Rightarrow> workflow_state \<Rightarrow> workflow_state" where
  "record_failed_reload report st = st\<lparr>wm_last_reload := Some (ReloadFailed (wv_errors report))\<rparr>"

definition load_path :: "yaml_decoder \<Rightarrow> (string \<Rightarrow> (string, 'e) result) \<Rightarrow> string \<Rightarrow> workflow_state \<Rightarrow>
    workflow_state \<times> (workflow_status_result, 'e workflow_manager_error) result" where
  "load_path decode read path st =
     (case read path of
        Inl e \<Rightarrow> (st, Err (ReadFailed e))
      | Inr contents \<Rightarrow>
          (let st1 = (case parse_valid_workflow decode contents of
               Inr w \<Rightarrow> workflow_swap path w st
             | Inl report \<Rightarrow> record_failed_reload report st)
           in (st1, Ok (workflow_status st1))))"

definition workflow_load :: "yaml_decoder \<Rightarrow> (string \<Rightarrow> (string, 'e) result) \<Rightarrow> string \<Rightarrow> workflow_state \<Rightarrow>
    workflow_state \<times> (workflow_status_result, 'e workflow_manager_error) result" where
  "workflow_load decode read path st = load_path decode read (trim path) st"

definition workflow_reload :: "yaml_decoder \<Rightarrow> (string \<Rightarrow> (string, 'e) result) \<Rightarrow> workflow_state \<Rightarrow>
    workflow_state \<times> (workflow_status_result, 'e workflow_manager_error) result" where
  "workflow_reload decode read st =
     (case wm_path st of None \<Rightarrow> (st, Err MissingPath) | Some path \<Rightarrow> load_path decode read path st)"

definition workflow_validate :: "yaml_decoder \<Rightarrow> (string \<Rightarrow> (string, 'e) result) \<Rightarrow> string option \<Rightarrow> string option \<Rightarrow>
    (workflow_validation_report, 'e workflow_manager_error) result" where
  "workflow_validate decode read path contents =
     (case (path, contents) of
        (Some p, None) \<Rightarrow>
          (case read p of Inl e \<Rightarrow> Err (ReadFailed e) | Inr body \<Rightarrow> Ok (validate_workflow_yaml decode body))
      | (None, Some body) \<Rightarrow> Ok (validate_workflow_yaml decode body)
      | _ \<Rightarrow> Err InvalidValidateParams)"

section \<open>Which keys are duplicates\<close>


text \<open>
  The keys around a line indented by \<open>d\<close>, from the outermost in: upwards from it, the nearest
  line indented less, and so on from there. The lines above come with the nearest first.
\<close>

fun enclosing :: "(nat \<times> nat \<times> string) list \<Rightarrow> nat \<Rightarrow> string list" where
  "enclosing [] d = []"
| "enclosing ((n, i, k) # prev) d = (if i < d then enclosing prev i @ [k] else enclosing prev d)"

text \<open>The place of every key: the path of the keys around it, and the key.\<close>

fun places :: "(nat \<times> nat \<times> string) list \<Rightarrow> (nat \<times> nat \<times> string) list \<Rightarrow> (string \<times> string) list" where
  "places prev [] = []"
| "places prev ((n, i, k) # rest) = (parent_path (enclosing prev i), k) # places ((n, i, k) # prev) rest"

lemma length_places [simp]: "length (places prev ks) = length ks"
  by (induction prev ks rule: places.induct) simp_all




text \<open>The errors for places that occurred before.\<close>

definition repeats :: "(string \<times> string) set \<Rightarrow> (nat \<times> nat \<times> string) list \<Rightarrow> (string \<times> string) list \<Rightarrow>
    workflow_validation_error list" where
  "repeats before ks ps = concat (map (\<lambda>j. if ps ! j \<in> before \<union> set (take j ps)
     then [duplicate_error (fst (ps ! j)) (snd (ps ! j)) (fst (ks ! j))] else []) [0..<length ks])"

lemma repeats_simps [simp]:
  "repeats before [] [] = []"
  "repeats before (k # ks) (p # ps) =
     (if p \<in> before then [duplicate_error (fst p) (snd p) (fst k)] else []) @ repeats (insert p before) ks ps"
proof -
  have "[0..<length (k # ks)] = 0 # map Suc [0..<length ks]" by (simp add: map_Suc_upt upt_conv_Cons del: upt_Suc)
  then show "repeats before (k # ks) (p # ps) =
     (if p \<in> before then [duplicate_error (fst p) (snd p) (fst k)] else []) @ repeats (insert p before) ks ps"
    by (simp add: repeats_def comp_def disj_left_commute del: upt_Suc cong: if_cong)
qed (simp add: repeats_def)






section \<open>Which workflows are valid\<close>

definition well_limited :: "workflow_budget_limits \<Rightarrow> bool" where
  "well_limited l \<longleftrightarrow> none_or (\<lambda>n. 0 < n) (wb_max_tokens l) \<and> none_or cost_ok (wb_max_cost_usd l) \<and>
     none_or (\<lambda>n. 0 < n) (wb_max_wall_time_ms l)"

definition well_formed_workflow :: "workflow_definition \<Rightarrow> bool" where
  "well_formed_workflow w \<longleftrightarrow>
     wd_kind w = workflow_kind_v1 \<and> \<not> blank (wd_name w) \<and>
     ws_active_states (wd_source w) \<noteq> [] \<and> ws_terminal_states (wd_source w) \<noteq> [] \<and>
     (ws_kind (wd_source w) = WsGithubIssues \<longrightarrow> ws_repo (wd_source w) \<noteq> None) \<and>
     0 < wo_max_concurrent_missions (wd_orchestrator w) \<and> 0 < wo_max_capsules_per_mission (wd_orchestrator w) \<and>
     0 < wr_initial_ms (wo_retry (wd_orchestrator w)) \<and>
     wr_initial_ms (wo_retry (wd_orchestrator w)) \<le> wr_max_ms (wo_retry (wd_orchestrator w)) \<and>
     list_all (\<lambda>h. \<not> bad_host h) (wp_network_allowlist (wd_policy w)) \<and>
     wd_runtime_profiles w \<noteq> [] \<and> list_all (\<lambda>(kind, _). \<not> blank kind) (wd_runtime_profiles w) \<and>
     wq_required (wd_outputs w) \<noteq> [] \<and>
     well_limited (wb_per_capsule (wd_budgets w)) \<and> well_limited (wb_per_orchestrator (wd_budgets w)) \<and>
     well_limited (wb_per_workflow (wd_budgets w))"

lemma when_error_empty [simp]: "when_error c p m = [] \<longleftrightarrow> \<not> c"
  by (simp add: when_error_def)

lemma validate_hosts_empty [simp]: "validate_hosts n hs = [] \<longleftrightarrow> list_all (\<lambda>h. \<not> bad_host h) hs"
  by (induction hs arbitrary: n) simp_all

lemma validate_limits_empty [simp]: "validate_budget_limits p l = [] \<longleftrightarrow> well_limited l"
  by (auto simp: validate_budget_limits_def well_limited_def none_or_def some_and_def split: option.splits)

lemma validate_workflow_empty: "validate_workflow w = [] \<longleftrightarrow> well_formed_workflow w"
  by (auto simp: validate_workflow_def well_formed_workflow_def validate_positive_def blank_def list_all_iff)

lemma parse_valid_iff:
  "parse_valid_workflow decode contents = Ok w \<longleftrightarrow>
    duplicate_key_errors contents = [] \<and> decode contents = Ok w \<and> well_formed_workflow w"
  by (cases "decode contents")
    (auto simp: parse_valid_workflow_def validate_workflow_yaml_def validation_report_def validate_workflow_empty Let_def)


section \<open>The workflow in force\<close>

text \<open>Loading and reloading, each with the file system as it is at that moment.\<close>

inductive manager_step :: "yaml_decoder \<Rightarrow> workflow_state \<Rightarrow> workflow_state \<Rightarrow> bool" for decode where
  load: "workflow_load decode (read :: string \<Rightarrow> (string, unit) result) path st = (st', r) \<Longrightarrow> manager_step decode st st'"
| reload: "workflow_reload decode (read :: string \<Rightarrow> (string, unit) result) st = (st', r) \<Longrightarrow> manager_step decode st st'"

definition manager_ok :: "workflow_state \<Rightarrow> bool" where
  "manager_ok st \<longleftrightarrow> wm_version st \<le> u64_max \<and>
     (case wm_current st of None \<Rightarrow> wm_path st = None \<and> wm_version st = 0
      | Some w \<Rightarrow> well_formed_workflow w \<and> wm_path st \<noteq> None \<and> 0 < wm_version st)"

text \<open>A step keeps the workflow with its version, or puts a well-formed one in force under the next.\<close>

definition manager_moves :: "workflow_state \<Rightarrow> workflow_state \<Rightarrow> bool" where
  "manager_moves st st' \<longleftrightarrow>
     wm_current st' = wm_current st \<and> wm_path st' = wm_path st \<and> wm_version st' = wm_version st \<or>
     (\<exists>w. wm_current st' = Some w \<and> well_formed_workflow w \<and> wm_path st' \<noteq> None \<and>
       wm_version st' = sat_add (wm_version st) 1)"

lemma manager_moves_refl [simp]: "manager_moves st st"
  by (simp add: manager_moves_def)

lemma load_path_moves:
  assumes "load_path decode read path st = (st', r)" shows "manager_moves st st'"
proof (cases "read path")
  case (Inl e)
  with assms show ?thesis by (simp add: load_path_def manager_moves_def)
next
  case (Inr contents)
  show ?thesis
  proof (cases "parse_valid_workflow decode contents")
    case (Inl report)
    with assms \<open>read path = Ok contents\<close> show ?thesis
      by (auto simp: load_path_def manager_moves_def record_failed_reload_def Let_def)
  next
    case (Inr w)
    then have "well_formed_workflow w" by (simp add: parse_valid_iff)
    with assms \<open>read path = Ok contents\<close> Inr show ?thesis
      by (auto simp: load_path_def manager_moves_def workflow_swap_def Let_def)
  qed
qed

lemma manager_step_moves: "manager_step decode st st' \<Longrightarrow> manager_moves st st'"
proof (induction rule: manager_step.induct)
  case (load read path st st' r)
  then show ?case by (simp add: workflow_load_def load_path_moves)
next
  case (reload read st st' r)
  then show ?case
    by (cases "wm_path st") (auto simp: workflow_reload_def intro: load_path_moves)
qed

lemma manager_moves_ok: "manager_moves st st' \<Longrightarrow> manager_ok st \<Longrightarrow> manager_ok st'"
  by (auto simp: manager_moves_def manager_ok_def sat_add_def u64_max_def split: option.splits)

lemma manager_steps_ok: "(manager_step decode)\<^sup>*\<^sup>* st st' \<Longrightarrow> manager_ok st \<Longrightarrow> manager_ok st'"
  by (induction rule: rtranclp_induct) (blast intro: manager_moves_ok dest: manager_step_moves)+

text \<open>
  Whatever is loaded and reloaded, and however the files change in between, the manager never
  has a workflow in force that is not well-formed; a load that fails, for any reason, leaves the
  workflow, its path and its version as they are, and one that succeeds takes the next version.
\<close>

theorem manager_holds_valid_workflow:
  assumes "(manager_step decode)\<^sup>*\<^sup>* workflow_manager_new st" and "manager_step decode st st'"
  shows "manager_ok st \<and> manager_moves st st'"
proof -
  have "manager_ok workflow_manager_new" by (simp add: manager_ok_def workflow_manager_new_def)
  with manager_steps_ok [OF assms(1)] manager_step_moves [OF assms(2)] show ?thesis by blast
qed

definition demo_workflow :: workflow_definition where
  "demo_workflow = (let limits = \<lparr>wb_max_tokens = Some 100, wb_max_cost_usd = None, wb_max_wall_time_ms = None\<rparr> in
     \<lparr>wd_kind = workflow_kind_v1, wd_name = ''triage'',
      wd_source = \<lparr>ws_kind = WsGithubIssues, ws_project = None, ws_repo = Some ''a/b'', ws_paths = [],
        ws_active_states = [''open''], ws_terminal_states = [''closed'']\<rparr>,
      wd_orchestrator = \<lparr>wo_max_concurrent_missions = 1, wo_max_capsules_per_mission = 2,
        wo_retry = \<lparr>wr_initial_ms = 10, wr_max_ms = 20\<rparr>\<rparr>,
      wd_policy = \<lparr>wp_approvals = \<lparr>wa_file_write = FileWriteAsk, wa_process = ProcessAsk, wa_network = NetworkDeny\<rparr>,
        wp_network_allowlist = [''example.org'']\<rparr>,
      wd_runtime_profiles = [(''debug'', \<lparr>wf_provider = Ident ''p'', wf_model = Ident ''m'', wf_reasoning_effort = None\<rparr>)],
      wd_outputs = \<lparr>wq_required = [NeedTests]\<rparr>,
      wd_budgets = \<lparr>wb_per_capsule = limits, wb_per_orchestrator = limits, wb_per_workflow = limits\<rparr>\<rparr>)"

definition demo_decoder :: yaml_decoder where
  "demo_decoder text = (if text = ''name: triage'' then Ok demo_workflow else Err ''no workflow'')"

definition demo_manager :: workflow_state where
  "demo_manager = fst (workflow_load demo_decoder (\<lambda>p. Ok ''name: triage'' :: (string, unit) result) ''w.yaml'' workflow_manager_new)"

theorem manager_holds_valid_workflow_witness:
  "manager_ok demo_manager \<and> wm_version demo_manager = 1 \<and>
   manager_moves demo_manager (fst (workflow_reload demo_decoder (\<lambda>p. Ok ''junk'' :: (string, unit) result) demo_manager))"
proof -
  let ?first = "workflow_load demo_decoder (\<lambda>p. Ok ''name: triage'' :: (string, unit) result) ''w.yaml'' workflow_manager_new"
  let ?second = "workflow_reload demo_decoder (\<lambda>p. Ok ''junk'' :: (string, unit) result) demo_manager"
  have e1: "?first = (demo_manager, snd ?first)" by (simp add: demo_manager_def)
  have e2: "?second = (fst ?second, snd ?second)" by simp
  have first: "manager_step demo_decoder workflow_manager_new demo_manager" by (rule manager_step.load [OF e1])
  have second: "manager_step demo_decoder demo_manager (fst ?second)" by (rule manager_step.reload [OF e2])
  from manager_holds_valid_workflow [where decode = demo_decoder, OF r_into_rtranclp, OF first second]
  have "manager_ok demo_manager \<and> manager_moves demo_manager (fst ?second)" .
  moreover have "wm_version demo_manager = 1"
  proof -
    have "\<not> blank ''triage''" "\<not> blank ''example.org''" "\<not> blank ''debug''" "duplicate_key_errors ''name: triage'' = []"
      by code_simp+
    then have "parse_valid_workflow demo_decoder ''name: triage'' = Ok demo_workflow"
      by (simp add: parse_valid_iff demo_decoder_def demo_workflow_def well_formed_workflow_def well_limited_def
          bad_host_def blank_def Let_def)
    then show ?thesis
      by (simp add: demo_manager_def workflow_load_def load_path_def workflow_swap_def workflow_manager_new_def
          sat_add_def u64_max_def Let_def)
  qed
  ultimately show ?thesis by simp
qed

text \<open>Two entries of a list of maps have the same place, so their keys are reported.\<close>

lemma list_of_maps_reported:
  "duplicate_key_errors (unlines [''items:'', ''  - name: a'', ''    id: 1'', ''  - name: b'', ''    id: 2'']) =
     [\<lparr>we_path = ''$.items.id'', we_message = ''duplicate key on line 5''\<rparr>]"
  by code_simp

end
