(* ===== verification/AgentSink.thy ===== *)
theory AgentSink
  imports Wire OutputContract
begin

text \<open>
  What the native agent (\<open>crates/taugentic-agent/src\<close>) tells the daemon: its errors
  (\<open>error.rs\<close>) and the sink it reports to (\<open>sink.rs\<close>). A sink is what it answers to a call after
  the calls made before; the history keeps every call with whether it was accepted.
\<close>

section \<open>Errors\<close>

datatype llm_client_error =
    LlmAuth string
  | LlmCredentialsMissing string
  | LlmFeatureRequiresPlatformOrg
  | LlmSubscriptionAuthIncompatible
  | LlmNetwork string
  | LlmRateLimited "nat option" string
  | LlmCreditsExhausted string
  | LlmContextLengthExceeded string
  | LlmInvalidConfig string
  | LlmProcessFailed string
  | LlmCancelled string
  | LlmUnsupported string
  | LlmServerError string

record workspace_capability_unsupported =
  wu_variant :: "string option"
  wu_vendor :: "string option"
  wu_capability :: string
  wu_requested :: string
  wu_reason :: string

datatype execution_error =
    ExAuth string
  | ExCredentialsMissing string
  | ExFeatureRequiresPlatformOrg
  | ExSubscriptionAuthIncompatible
  | ExNetwork string
  | ExRateLimited "nat option" string
  | ExCreditsExhausted string
  | ExContextLengthExceeded string
  | ExInvalidConfig string
  | ExProcessFailed string
  | ExCancelled string
  | ExUnsupported string
  | ExPolicyDenied approval_scope string
  | ExWorkspaceCapabilityUnsupported workspace_capability_unsupported
  | ExServerError string
  | ExInvalidToolInput string
  | ExToolFailed string
  | ExToolListLocked string
  | ExIncompleteContinuation nat
  | ExProcessTimeout nat string

text \<open>\<open>From<LlmClientError>\<close>.\<close>

fun execution_error_of :: "llm_client_error \<Rightarrow> execution_error" where
  "execution_error_of (LlmAuth d) = ExAuth d"
| "execution_error_of (LlmCredentialsMissing d) = ExCredentialsMissing d"
| "execution_error_of LlmFeatureRequiresPlatformOrg = ExFeatureRequiresPlatformOrg"
| "execution_error_of LlmSubscriptionAuthIncompatible = ExSubscriptionAuthIncompatible"
| "execution_error_of (LlmNetwork d) = ExNetwork d"
| "execution_error_of (LlmRateLimited after d) = ExRateLimited after d"
| "execution_error_of (LlmCreditsExhausted d) = ExCreditsExhausted d"
| "execution_error_of (LlmContextLengthExceeded d) = ExContextLengthExceeded d"
| "execution_error_of (LlmInvalidConfig d) = ExInvalidConfig d"
| "execution_error_of (LlmProcessFailed d) = ExProcessFailed d"
| "execution_error_of (LlmCancelled d) = ExCancelled d"
| "execution_error_of (LlmUnsupported d) = ExUnsupported d"
| "execution_error_of (LlmServerError d) = ExServerError d"

section \<open>The sink\<close>

record llm_token_usage =
  lu_prompt_tokens :: nat
  lu_completion_tokens :: nat
  lu_cached_tokens :: "nat option"
  lu_reasoning_tokens :: "nat option"
  lu_model :: string
  lu_provider :: string

datatype sink_call =
    PushStream stream_emission
  | RecordTokenUsage llm_token_usage
  | PushActivity string
  | PushProviderSessionId string
  | RequestApproval approval_request
  | ResolveApproval approval_resolution
  | RecordArtifact artifact_kind string
  | Complete string
  | CompleteWithResult string "capsule_result option"

type_synonym sink_history = "(sink_call \<times> bool) list"

type_synonym execution_sink = "sink_history \<Rightarrow> sink_call \<Rightarrow> execution_error option"

definition sink_send :: "execution_sink \<Rightarrow> sink_call \<Rightarrow> sink_history \<Rightarrow> (unit, execution_error) result \<times> sink_history" where
  "sink_send sink c h =
     (case sink h c of None \<Rightarrow> (Ok (), h @ [(c, True)]) | Some e \<Rightarrow> (Err e, h @ [(c, False)]))"

definition accepted :: "sink_history \<Rightarrow> sink_call list" where
  "accepted h = map fst (filter snd h)"

lemma accepted_simps [simp]:
  "accepted [] = []" "accepted (h @ h') = accepted h @ accepted h'"
  "accepted ((c, b) # h) = (if b then c # accepted h else accepted h)"
  by (simp_all add: accepted_def)

lemma sink_send_cases:
  obtains "sink_send sink c h = (Ok (), h @ [(c, True)])"
  | e where "sink_send sink c h = (Err e, h @ [(c, False)])"
  by (cases "sink h c") (auto simp: sink_send_def)

text \<open>The text of a domain error.\<close>

fun domain_error_text :: "domain_error \<Rightarrow> string" where
  "domain_error_text (EmptyIdentifier label) = label @ '' identifier must not be empty''"
| "domain_error_text EmptyApprovalReason = ''approval reason must not be empty''"
| "domain_error_text EmptyApprovalActorPrincipalId = ''approval actor principal id must not be empty''"
| "domain_error_text InvalidApprovalTtl = ''approval expiresAtMs must be greater than requestedAtMs''"

text \<open>\<open>map_err(|error| ProcessFailed(error.to_string()))\<close>.\<close>

definition or_process_failed :: "('a, domain_error) result \<Rightarrow> ('a, execution_error) result" where
  "or_process_failed r = (case r of Inl e \<Rightarrow> Err (ExProcessFailed (domain_error_text e)) | Inr x \<Rightarrow> Ok x)"

text \<open>An item of the stream, named by the call of the model.\<close>

definition stream_item_id :: "string \<Rightarrow> (item_id, execution_error) result" where
  "stream_item_id i = or_process_failed (ident_new ''agent stream item'' i)"

end
