(* ===== verification/ApprovalBridge.thy ===== *)
theory ApprovalBridge
  imports AgentSink Policy ApprovalLifecycle
begin

text \<open>
  The approval bridge of the native agent (\<open>crates/taugentic-agent/src/approval\<close>): the table of
  approvals a run has asked for, and the operations on it. Each takes and gives the bridge and
  the history of the sink; the lock makes each one step. The events the sink accepts, together
  with the resolutions the daemon publishes itself, form a log the store accepts.
\<close>

section \<open>State\<close>

record approval_descriptor =
  ad_call_id :: string
  ad_tool_name :: string
  ad_reason :: string

datatype approval_outcome = OutcomeAllow | OutcomeDeny | OutcomeTurnInterrupted

fun outcome_decision :: "approval_outcome \<Rightarrow> approval_decision" where
  "outcome_decision OutcomeAllow = Approved"
| "outcome_decision OutcomeDeny = Rejected"
| "outcome_decision OutcomeTurnInterrupted = Rejected"

fun rejection_reason :: "approval_outcome \<Rightarrow> string option" where
  "rejection_reason OutcomeAllow = None"
| "rejection_reason OutcomeDeny = Some ''approval_denied''"
| "rejection_reason OutcomeTurnInterrupted = Some ''turn_interrupted''"

fun outcome_commentary :: "approval_outcome \<Rightarrow> string" where
  "outcome_commentary OutcomeAllow = ''approval_allowed''"
| "outcome_commentary OutcomeDeny = ''approval_denied''"
| "outcome_commentary OutcomeTurnInterrupted = ''turn_interrupted''"

fun approval_resolution_reason_of :: "approval_outcome \<Rightarrow> approval_resolution_reason" where
  "approval_resolution_reason_of OutcomeAllow = ByUser"
| "approval_resolution_reason_of OutcomeDeny = ByUser"
| "approval_resolution_reason_of OutcomeTurnInterrupted = ByCancelled"

text \<open>The channel of an entry holds the last value sent to it.\<close>

record pending_approval_entry =
  pe_descriptor :: approval_descriptor
  pe_channel :: "approval_outcome option"
  pe_outcome :: "approval_outcome option"

record approval_bridge =
  ab_run_id :: run_id
  ab_pending :: "(approval_id, pending_approval_entry) btree"

definition approval_bridge_new :: "run_id \<Rightarrow> approval_bridge" where
  "approval_bridge_new run = \<lparr>ab_run_id = run, ab_pending = []\<rparr>"

datatype approval_status = StatusPending | StatusAllowed | StatusRejected string

record pending_approval =
  pa_id :: string
  pa_reason :: string
  pa_status :: approval_status

section \<open>Operations\<close>

type_synonym 'a bridge_run = "('a, execution_error) result \<times> approval_bridge \<times> sink_history"

definition insert_pending :: "approval_id \<Rightarrow> approval_descriptor \<Rightarrow> approval_bridge \<Rightarrow> approval_bridge" where
  "insert_pending i descriptor b =
     b\<lparr>ab_pending := bt_put i \<lparr>pe_descriptor = descriptor, pe_channel = None, pe_outcome = None\<rparr> (ab_pending b)\<rparr>"

definition remove_pending :: "approval_id \<Rightarrow> approval_bridge \<Rightarrow> approval_bridge" where
  "remove_pending i b = b\<lparr>ab_pending := bt_del i (ab_pending b)\<rparr>"

definition waiting_emission :: "item_id \<Rightarrow> stream_emission" where
  "waiting_emission item = \<lparr>em_turn_id = None, em_item_id = Some item, em_fragment_sequence = None,
     em_frame = PendingStateChanged PendWaitingForApproval\<rparr>"

text \<open>\<open>request\<close>, with the fresh identifier and the time it draws.\<close>

definition bridge_request :: "execution_sink \<Rightarrow> approval_scope \<Rightarrow> approval_descriptor \<Rightarrow> string \<Rightarrow> nat \<Rightarrow>
    approval_bridge \<Rightarrow> sink_history \<Rightarrow> approval_id bridge_run" where
  "bridge_request sink scope descriptor uuid now b h =
     (case try_then (stream_item_id (ad_call_id descriptor)) (\<lambda>item.
           try_then (or_process_failed (ident_new ''approval'' (''approval-'' @ uuid))) (\<lambda>i.
           try_then (or_process_failed (approval_request_new i (ab_run_id b) scope now
               (expires_at_ms default_interactive now) (TargetToolCall (ad_tool_name descriptor)) (ad_reason descriptor)))
             (\<lambda>q. Ok (i, item, request_with_tool_call_id item q)))) of
        Inl e \<Rightarrow> (Err e, b, h)
      | Inr (i, item, q) \<Rightarrow>
          (let b1 = insert_pending i descriptor b
           in case sink_send sink (RequestApproval q) h of
             (Inl e, h1) \<Rightarrow> (Err e, remove_pending i b1, h1)
           | (Inr _, h1) \<Rightarrow>
               (case sink_send sink (PushStream (waiting_emission item)) h1 of
                  (Inl e, h2) \<Rightarrow> (Err e, remove_pending i b1, h2)
                | (Inr _, h2) \<Rightarrow> (Ok i, b1, h2))))"

text \<open>The resolution the bridge itself sends.\<close>

definition bridge_resolution :: "approval_id \<Rightarrow> run_id \<Rightarrow> item_id \<Rightarrow> approval_outcome \<Rightarrow> approval_resolution" where
  "bridge_resolution i run item outcome =
     resolution_with_tool_call_id item
       (approval_resolution_new i run (outcome_decision outcome) (approval_resolution_reason_of outcome)
         \<lparr>principal_id = ''taugentic-agent''\<rparr> (Some (outcome_commentary outcome)))"

text \<open>\<open>resolve_once\<close>: whether the entry took the outcome; \<open>to_sink\<close> tells the sink first.\<close>

definition resolve_once :: "execution_sink \<Rightarrow> approval_id \<Rightarrow> approval_outcome \<Rightarrow> bool \<Rightarrow>
    approval_bridge \<Rightarrow> sink_history \<Rightarrow> bool bridge_run" where
  "resolve_once sink i outcome to_sink b h =
     (case bt_get (ab_pending b) i of
        None \<Rightarrow> (Ok False, b, h)
      | Some e \<Rightarrow>
          (case pe_outcome e of
             Some existing \<Rightarrow> (Ok False, b, h)
           | None \<Rightarrow>
               (case stream_item_id (ad_call_id (pe_descriptor e)) of
                  Inl x \<Rightarrow> (Err x, b, h)
                | Inr item \<Rightarrow>
                    (case (if to_sink then sink_send sink (ResolveApproval (bridge_resolution i (ab_run_id b) item outcome)) h
                           else (Ok (), h)) of
                       (Inl x, h1) \<Rightarrow> (Err x, b, h1)
                     | (Inr _, h1) \<Rightarrow>
                         (Ok True, b\<lparr>ab_pending := bt_put i (e\<lparr>pe_outcome := Some outcome\<rparr>) (ab_pending b)\<rparr>, h1)))))"

definition send_to_waiter :: "approval_id \<Rightarrow> approval_outcome \<Rightarrow> approval_bridge \<Rightarrow> approval_bridge" where
  "send_to_waiter i outcome b =
     (case bt_get (ab_pending b) i of
        None \<Rightarrow> b
      | Some e \<Rightarrow> b\<lparr>ab_pending := bt_put i (e\<lparr>pe_channel := Some outcome\<rparr>) (ab_pending b)\<rparr>)"

definition bridge_resolve :: "execution_sink \<Rightarrow> approval_id \<Rightarrow> approval_outcome \<Rightarrow>
    approval_bridge \<Rightarrow> sink_history \<Rightarrow> approval_bridge \<times> sink_history" where
  "bridge_resolve sink i outcome b h =
     (case resolve_once sink i outcome True b h of
        (Inl _, b1, h1) \<Rightarrow> (b1, h1)
      | (Inr changed, b1, h1) \<Rightarrow> (if changed then send_to_waiter i outcome b1 else b1, h1))"

definition resolve_from_runtime :: "execution_sink \<Rightarrow> approval_resolution \<Rightarrow>
    approval_bridge \<Rightarrow> sink_history \<Rightarrow> unit bridge_run" where
  "resolve_from_runtime sink r b h =
     (if rs_run_id r \<noteq> ab_run_id b
      then (Err (ExProcessFailed (''approval resolution run mismatch: '' @ as_str (rs_run_id r) @ '' != '' @ as_str (ab_run_id b))), b, h)
      else let outcome = (case rs_decision r of Approved \<Rightarrow> OutcomeAllow | Rejected \<Rightarrow> OutcomeDeny)
           in case resolve_once sink (rs_approval_id r) outcome False b h of
             (Inl e, b1, h1) \<Rightarrow> (Err e, b1, h1)
           | (Inr changed, b1, h1) \<Rightarrow> (Ok (), if changed then send_to_waiter (rs_approval_id r) outcome b1 else b1, h1))"

definition pending_ids :: "approval_bridge \<Rightarrow> approval_id list" where
  "pending_ids b = map fst (filter (\<lambda>(i, e). pe_outcome e = None) (ab_pending b))"

fun resolve_each :: "execution_sink \<Rightarrow> approval_id list \<Rightarrow> approval_bridge \<Rightarrow> sink_history \<Rightarrow> approval_bridge \<times> sink_history" where
  "resolve_each sink [] b h = (b, h)"
| "resolve_each sink (i # is) b h =
     (case bridge_resolve sink i OutcomeTurnInterrupted b h of (b1, h1) \<Rightarrow> resolve_each sink is b1 h1)"

definition reject_all :: "execution_sink \<Rightarrow> approval_bridge \<Rightarrow> sink_history \<Rightarrow> approval_bridge \<times> sink_history" where
  "reject_all sink b h = resolve_each sink (pending_ids b) b h"

text \<open>
  \<open>wait\<close>, looked at once: what it returns, or \<open>None\<close> while it blocks. A value in the channel comes
  before the cancellation.
\<close>

definition bridge_wait :: "execution_sink \<Rightarrow> approval_id \<Rightarrow> bool \<Rightarrow> approval_bridge \<Rightarrow> sink_history \<Rightarrow>
    (approval_outcome, execution_error) result option \<times> approval_bridge \<times> sink_history" where
  "bridge_wait sink i cancelled b h =
     (case bt_get (ab_pending b) i of
        None \<Rightarrow> (Some (Err (ExCancelled (''approval '' @ as_str i @ '' is not pending''))), b, h)
      | Some e \<Rightarrow>
          (case pe_channel e of
             Some outcome \<Rightarrow> (Some (Ok outcome), b, h)
           | None \<Rightarrow>
               if cancelled
               then (case bridge_resolve sink i OutcomeTurnInterrupted b h of
                  (b1, h1) \<Rightarrow> (Some (Err (ExCancelled ''turn_interrupted'')), b1, h1))
               else (None, b, h)))"

definition bridge_pending_approvals :: "approval_bridge \<Rightarrow> pending_approval list" where
  "bridge_pending_approvals b = map (\<lambda>(i, e).
     \<lparr>pa_id = as_str i, pa_reason = ad_reason (pe_descriptor e),
      pa_status = (case pe_outcome e of
        None \<Rightarrow> StatusPending
      | Some OutcomeAllow \<Rightarrow> StatusAllowed
      | Some outcome \<Rightarrow> StatusRejected
          (case rejection_reason outcome of None \<Rightarrow> ''approval_rejected'' | Some r \<Rightarrow> r))\<rparr>) (ab_pending b)"

end
