(* ===== verification/ApprovalBridgeLog.thy ===== *)
theory ApprovalBridgeLog
  imports ApprovalBridge Strings
begin

text \<open>
  The approval bridge and the log of the daemon: the requests and resolutions the bridge sends,
  and the resolutions the daemon publishes before it tells the bridge, form a log that the
  approval lifecycle of the store accepts, and a waiter is told the decision of that log.
\<close>

section \<open>The log\<close>

fun approval_sent :: "sink_call \<Rightarrow> approval_event option" where
  "approval_sent (RequestApproval q) = Some (ApprovalRequested q)"
| "approval_sent (ResolveApproval r) = Some (ApprovalResolved r)"
| "approval_sent _ = None"

definition sent_approvals :: "sink_history \<Rightarrow> approval_event list" where
  "sent_approvals h = List.map_filter approval_sent (accepted h)"

lemma sent_simps [simp]:
  "sent_approvals [] = []"
  "sent_approvals (h @ h') = sent_approvals h @ sent_approvals h'"
  "sent_approvals ((c, b) # h) = (if b then (case approval_sent c of None \<Rightarrow> [] | Some e \<Rightarrow> [e]) else []) @ sent_approvals h"
  by (simp_all add: sent_approvals_def List.map_filter_def split: option.split)

text \<open>The state of one approval in the log.\<close>

definition approval_state :: "approval_event list \<Rightarrow> approval_id \<Rightarrow> session_approval_lookup option" where
  "approval_state evs a = approval_run NotFound (filter (\<lambda>e. approval_event_id e = a) evs)"

lemma approval_state_snoc:
  "approval_state (evs @ [e]) a =
    (if approval_event_id e = a then Option.bind (approval_state evs a) (\<lambda>s. approval_step s e) else approval_state evs a)"
  by (simp add: approval_state_def approval_run_append)

definition log_accepted :: "run_id \<Rightarrow> approval_event list \<Rightarrow> bool" where
  "log_accepted run evs \<longleftrightarrow> is_ok (validate_run_transition empty_lifecycle run (map EvApproval evs))"

lemma log_accepted_iff:
  "log_accepted run evs \<longleftrightarrow> (\<forall>e\<in>set evs. approval_event_run e = run) \<and> (\<forall>a. approval_state evs a \<noteq> None)"
proof -
  have "List.map_filter approval_of (map EvApproval evs) = evs" by (induction evs) (simp_all add: map_filter_simps)
  then show ?thesis
    by (simp add: log_accepted_def validate_run_transition_def validate_events_iff approval_trace_def approval_state_def)
qed

lemma log_accepted_snoc:
  assumes "log_accepted run evs" "approval_event_run e = run"
    "Option.bind (approval_state evs (approval_event_id e)) (\<lambda>s. approval_step s e) \<noteq> None"
  shows "log_accepted run (evs @ [e])"
  using assms by (auto simp: log_accepted_iff approval_state_snoc)

section \<open>The bridge with its log\<close>

text \<open>
  A request draws an identifier the log does not have. The daemon publishes a resolution when the
  evs accepts it, and then tells the bridge; everything else the log holds the bridge has sent.
\<close>

inductive bridge_moves :: "execution_sink \<Rightarrow> run_id \<Rightarrow> approval_bridge \<times> sink_history \<times> approval_event list \<Rightarrow> bool"
  for sink run where
  start: "bridge_moves sink run (approval_bridge_new run, [], [])"
| request: "bridge_moves sink run (b, h, evs) \<Longrightarrow> approval_state evs (Ident (''approval-'' @ uuid)) = Some NotFound \<Longrightarrow>
    bridge_request sink scope d uuid now b h = (r, b', h') \<Longrightarrow>
    bridge_moves sink run (b', h', evs @ sent_approvals (drop (length h) h'))"
| resolve: "bridge_moves sink run (b, h, evs) \<Longrightarrow> bridge_resolve sink i outcome b h = (b', h') \<Longrightarrow>
    bridge_moves sink run (b', h', evs @ sent_approvals (drop (length h) h'))"
| reject: "bridge_moves sink run (b, h, evs) \<Longrightarrow> reject_all sink b h = (b', h') \<Longrightarrow>
    bridge_moves sink run (b', h', evs @ sent_approvals (drop (length h) h'))"
| wait: "bridge_moves sink run (b, h, evs) \<Longrightarrow> bridge_wait sink i cancelled b h = (w, b', h') \<Longrightarrow>
    bridge_moves sink run (b', h', evs @ sent_approvals (drop (length h) h'))"
| runtime: "bridge_moves sink run (b, h, evs) \<Longrightarrow> log_accepted run (evs @ [ApprovalResolved r]) \<Longrightarrow>
    resolve_from_runtime sink r b h = (x, b', h') \<Longrightarrow>
    bridge_moves sink run (b', h', evs @ ApprovalResolved r # sent_approvals (drop (length h) h'))"

section \<open>The invariant\<close>

text \<open>What an entry of the table says of its approval in the log.\<close>

definition decided_as :: "approval_event list \<Rightarrow> approval_id \<Rightarrow> approval_outcome \<Rightarrow> bool" where
  "decided_as evs i outcome \<longleftrightarrow>
     list_ex (\<lambda>e. case e of ApprovalResolved r \<Rightarrow> rs_approval_id r = i \<and> rs_decision r = outcome_decision outcome | _ \<Rightarrow> False) evs"

definition entry_ok :: "run_id \<Rightarrow> approval_event list \<Rightarrow> approval_id \<Rightarrow> pending_approval_entry \<Rightarrow> bool" where
  "entry_ok run evs i e \<longleftrightarrow> \<not> blank (ad_call_id (pe_descriptor e)) \<and>
     (case pe_outcome e of
        None \<Rightarrow> pe_channel e = None \<and> (\<exists>q. approval_state evs i = Some (Pending q) \<and> rq_run_id q = run \<and>
          rq_tool_call_id q = Some (Ident (ad_call_id (pe_descriptor e))))
      | Some outcome \<Rightarrow> approval_state evs i = Some Resolved \<and> decided_as evs i outcome \<and>
          (\<forall>told. pe_channel e = Some told \<longrightarrow> told = outcome))"

definition bridge_ok :: "run_id \<Rightarrow> approval_bridge \<Rightarrow> approval_event list \<Rightarrow> bool" where
  "bridge_ok run b evs \<longleftrightarrow> ab_run_id b = run \<and> bt_wf (ab_pending b) \<and> log_accepted run evs \<and>
     (\<forall>i e. bt_get (ab_pending b) i = Some e \<longrightarrow> entry_ok run evs i e)"

lemma decided_iff:
  "decided_as evs i outcome \<longleftrightarrow>
    (\<exists>r. ApprovalResolved r \<in> set evs \<and> rs_approval_id r = i \<and> rs_decision r = outcome_decision outcome)"
proof (induction evs)
  case (Cons e evs)
  then show ?case by (cases e) (auto simp: decided_as_def)
qed (simp add: decided_as_def)

lemma decided_snoc: "decided_as evs i outcome \<Longrightarrow> decided_as (evs @ [e]) i outcome"
  by (simp add: decided_as_def)

lemma entry_other: "entry_ok run evs i e \<Longrightarrow> approval_event_id x \<noteq> i \<Longrightarrow> entry_ok run (evs @ [x]) i e"
  by (auto simp: entry_ok_def approval_state_snoc decided_snoc split: option.splits)

lemma entry_logged: "entry_ok run evs i e \<Longrightarrow> approval_state evs i \<noteq> Some NotFound"
  by (auto simp: entry_ok_def split: option.splits)

lemma bt_put_put: "bt_put (k :: 'k::linorder) v (bt_put k w m) = bt_put k v m"
proof -
  have "filter (\<lambda>x. k < fst x \<and> fst x < k) m = []" "filter (\<lambda>x. fst x < k \<and> k < fst x) m = []"
    by (auto simp: filter_empty_conv)
  then show ?thesis by (simp add: bt_put_def)
qed

lemma stream_item_id_iff: "stream_item_id i = (if blank i then Err (ExProcessFailed (domain_error_text (EmptyIdentifier ''agent stream item''))) else Ok (Ident i))"
  by (simp add: stream_item_id_def or_process_failed_def ident_new_def)

text \<open>An open entry, once its resolution is in the log.\<close>

lemma close_entry:
  assumes ok: "bridge_ok run b evs" and e: "bt_get (ab_pending b) i = Some e" and new: "pe_outcome e = None"
    and r: "rs_approval_id r = i" "rs_run_id r = run" "rs_tool_call_id r = Some (Ident (ad_call_id (pe_descriptor e)))"
      "rs_decision r = outcome_decision outcome" and told: "told = None \<or> told = Some outcome"
  shows "bridge_ok run (b\<lparr>ab_pending := bt_put i (e\<lparr>pe_outcome := Some outcome, pe_channel := told\<rparr>) (ab_pending b)\<rparr>)
    (evs @ [ApprovalResolved r])"
proof -
  have entry: "entry_ok run evs i e" using ok e by (simp add: bridge_ok_def)
  then obtain q where q: "approval_state evs i = Some (Pending q)" "rq_run_id q = run"
      "rq_tool_call_id q = Some (Ident (ad_call_id (pe_descriptor e)))" "\<not> blank (ad_call_id (pe_descriptor e))"
    using new by (auto simp: entry_ok_def)
  have "log_accepted run (evs @ [ApprovalResolved r])"
    by (rule log_accepted_snoc) (use ok q r in \<open>auto simp: bridge_ok_def\<close>)
  moreover have "entry_ok run (evs @ [ApprovalResolved r]) i (e\<lparr>pe_outcome := Some outcome, pe_channel := told\<rparr>)"
    using q r told by (auto simp: entry_ok_def approval_state_snoc decided_as_def)
  moreover have "entry_ok run (evs @ [ApprovalResolved r]) j e'" if "j \<noteq> i" "bt_get (ab_pending b) j = Some e'" for j e'
    using ok that r by (intro entry_other) (auto simp: bridge_ok_def)
  ultimately show ?thesis using ok by (auto simp: bridge_ok_def bt_wf_put)
qed

text \<open>Telling the waiter, which the operations do after \<open>resolve_once\<close>.\<close>

lemma resolve_keeps:
  assumes ok: "bridge_ok run b evs" and step: "bridge_resolve sink i outcome b h = (b', h')"
  shows "\<exists>more. h' = h @ more \<and> bridge_ok run b' (evs @ sent_approvals more)"
proof (cases "bt_get (ab_pending b) i")
  case None
  with ok step show ?thesis by (simp add: bridge_resolve_def resolve_once_def)
next
  case (Some e)
  show ?thesis
  proof (cases "pe_outcome e")
    case None
    have id: "stream_item_id (ad_call_id (pe_descriptor e)) = Ok (Ident (ad_call_id (pe_descriptor e)))"
      using ok Some by (auto simp: bridge_ok_def entry_ok_def stream_item_id_iff)
    let ?r = "bridge_resolution i (ab_run_id b) (Ident (ad_call_id (pe_descriptor e))) outcome"
    have r: "rs_approval_id ?r = i" "rs_run_id ?r = run" "rs_tool_call_id ?r = Some (Ident (ad_call_id (pe_descriptor e)))"
        "rs_decision ?r = outcome_decision outcome"
      using ok by (simp_all add: bridge_resolution_def resolution_with_tool_call_id_def approval_resolution_new_def bridge_ok_def)
    note closed = close_entry [OF ok Some None r, of "Some outcome"]
    show ?thesis
    proof (cases rule: sink_send_cases [of sink "ResolveApproval ?r" h])
      case 1
      then have "h' = h @ [(ResolveApproval ?r, True)]"
          "b' = b\<lparr>ab_pending := bt_put i (e\<lparr>pe_outcome := Some outcome, pe_channel := Some outcome\<rparr>) (ab_pending b)\<rparr>"
        using step Some None id
        by (simp_all add: bridge_resolve_def resolve_once_def send_to_waiter_def bt_put_put)
      with closed show ?thesis by simp
    next
      case (2 x)
      then show ?thesis using step Some None id ok by (auto simp: bridge_resolve_def resolve_once_def)
    qed
  next
    case (Some x)
    with \<open>bt_get (ab_pending b) i = Some e\<close> ok step show ?thesis by (simp add: bridge_resolve_def resolve_once_def)
  qed
qed

lemma resolve_each_keeps:
  "bridge_ok run b evs \<Longrightarrow> resolve_each sink is b h = (b', h') \<Longrightarrow>
    \<exists>more. h' = h @ more \<and> bridge_ok run b' (evs @ sent_approvals more)"
proof (induction "is" arbitrary: b h evs)
  case (Cons i rest)
  obtain b1 h1 where r: "bridge_resolve sink i OutcomeTurnInterrupted b h = (b1, h1)" by fastforce
  from resolve_keeps [OF Cons.prems(1) r] obtain m1 where 1: "h1 = h @ m1" "bridge_ok run b1 (evs @ sent_approvals m1)" by blast
  from Cons.IH [OF 1(2), of h1] Cons.prems(2) r obtain m2 where "h' = h1 @ m2"
      "bridge_ok run b' ((evs @ sent_approvals m1) @ sent_approvals m2)" by auto
  with 1 show ?case by auto
qed simp

lemma request_keeps:
  assumes ok: "bridge_ok run b evs" and fresh: "approval_state evs (Ident (''approval-'' @ uuid)) = Some NotFound"
    and step: "bridge_request sink scope d uuid now b h = (r, b', h')"
  shows "\<exists>more. h' = h @ more \<and> bridge_ok run b' (evs @ sent_approvals more)"
proof -
  define i where "i = Ident (''approval-'' @ uuid)"
  note fresh = fresh [folded i_def]
  have absent: "bt_get (ab_pending b) i = None"
    using ok fresh by (cases "bt_get (ab_pending b) i") (auto simp: bridge_ok_def dest: entry_logged)
  have removed: "bridge_ok run (remove_pending i (insert_pending i d b)) evs'" if "bridge_ok run b evs'" for evs'
    using that absent by (auto simp: bridge_ok_def remove_pending_def insert_pending_def bt_wf_put bt_wf_del)
  show ?thesis
  proof (cases "blank (ad_call_id d) \<or> blank (''approval-'' @ uuid) \<or> blank (ad_reason d) \<or>
      expires_at_ms default_interactive now \<le> now")
    case True
    with step ok show ?thesis
      by (auto simp: bridge_request_def stream_item_id_iff or_process_failed_def ident_new_def approval_request_new_def
          simp del: append_Cons split: if_splits)
  next
    case False
    define q where "q = \<lparr>rq_id = i, rq_run_id = ab_run_id b, rq_tool_call_id = Some (Ident (ad_call_id d)), rq_scope = scope,
      rq_requested_at_ms = now, rq_expires_at_ms = expires_at_ms default_interactive now,
      rq_target = TargetToolCall (ad_tool_name d), rq_reason = ad_reason d\<rparr>"
    have built: "bridge_request sink scope d uuid now b h =
        (let b1 = insert_pending i d b
         in case sink_send sink (RequestApproval q) h of
             (Inl e, h1) \<Rightarrow> (Err e, remove_pending i b1, h1)
           | (Inr _, h1) \<Rightarrow>
               (case sink_send sink (PushStream (waiting_emission (Ident (ad_call_id d)))) h1 of
                  (Inl e, h2) \<Rightarrow> (Err e, remove_pending i b1, h2)
                | (Inr _, h2) \<Rightarrow> (Ok i, b1, h2)))"
      using False unfolding i_def q_def
      by (simp add: bridge_request_def stream_item_id_iff or_process_failed_def ident_new_def
          approval_request_new_def request_with_tool_call_id_def del: append_Cons)
    have accepted: "log_accepted run (evs @ [ApprovalRequested q])"
      by (rule log_accepted_snoc) (use ok fresh in \<open>simp_all add: q_def bridge_ok_def\<close>)
    have state: "approval_state (evs @ [ApprovalRequested q]) i = Some (Pending q)"
      using fresh by (simp add: approval_state_snoc q_def)
    have kept: "bridge_ok run b (evs @ [ApprovalRequested q])"
      using ok accepted absent by (auto simp: bridge_ok_def q_def intro!: entry_other)
    have added: "bridge_ok run (insert_pending i d b) (evs @ [ApprovalRequested q])"
      using kept state False ok by (auto simp: bridge_ok_def insert_pending_def entry_ok_def q_def)
    show ?thesis
      using step ok kept removed [OF ok] removed [OF kept] added unfolding built
      by (auto simp: sink_send_def Let_def split: option.splits)
  qed
qed

lemma runtime_keeps:
  assumes ok: "bridge_ok run b evs" and accepted: "log_accepted run (evs @ [ApprovalResolved r])"
    and step: "resolve_from_runtime sink r b h = (x, b', h')"
  shows "h' = h \<and> bridge_ok run b' (evs @ [ApprovalResolved r])"
proof -
  let ?i = "rs_approval_id r"
  obtain q where q: "approval_state evs ?i = Some (Pending q)" "rq_run_id q = rs_run_id r" "rq_tool_call_id q = rs_tool_call_id r"
    and run: "rs_run_id r = run"
    using accepted by (fastforce simp: log_accepted_iff approval_state_snoc bind_eq_Some_conv
        elim: approval_step.elims split: if_splits)
  have "resolve_from_runtime sink r b h =
      (let outcome = (case rs_decision r of Approved \<Rightarrow> OutcomeAllow | Rejected \<Rightarrow> OutcomeDeny)
       in case resolve_once sink ?i outcome False b h of
         (Inl e, b1, h1) \<Rightarrow> (Err e, b1, h1)
       | (Inr changed, b1, h1) \<Rightarrow> (Ok (), if changed then send_to_waiter ?i outcome b1 else b1, h1))"
    using ok run by (simp add: resolve_from_runtime_def bridge_ok_def)
  note step = step [unfolded this]
  show ?thesis
  proof (cases "bt_get (ab_pending b) ?i")
    case None
    have "bridge_ok run b (evs @ [ApprovalResolved r])"
      using ok accepted None by (auto simp: bridge_ok_def intro!: entry_other)
    with step None show ?thesis by (simp add: resolve_once_def Let_def)
  next
    case (Some e)
    then have entry: "entry_ok run evs ?i e" using ok by (simp add: bridge_ok_def)
    then have new: "pe_outcome e = None" and id: "rs_tool_call_id r = Some (Ident (ad_call_id (pe_descriptor e)))"
      "stream_item_id (ad_call_id (pe_descriptor e)) = Ok (Ident (ad_call_id (pe_descriptor e)))"
      using q by (auto simp: entry_ok_def stream_item_id_iff split: option.splits)
    have "outcome_decision (case rs_decision r of Approved \<Rightarrow> OutcomeAllow | Rejected \<Rightarrow> OutcomeDeny) = rs_decision r"
      by (cases "rs_decision r") simp_all
    from close_entry [OF ok Some new _ run id(1) this [symmetric], of "Some (case rs_decision r of Approved \<Rightarrow> OutcomeAllow | Rejected \<Rightarrow> OutcomeDeny)"]
    show ?thesis
      using step Some new id(2) by (auto simp: resolve_once_def send_to_waiter_def bt_put_put Let_def)
  qed
qed

lemma moves_ok: "bridge_moves sink run x \<Longrightarrow> case x of (b, h, evs) \<Rightarrow> bridge_ok run b evs"
proof (induction rule: bridge_moves.induct)
  case start
  show ?case by (simp add: bridge_ok_def approval_bridge_new_def log_accepted_iff approval_state_def)
next
  case (request b h evs uuid scope d now r b' h')
  then show ?case using request_keeps [of run b evs uuid sink scope d now h r b' h'] by auto
next
  case (resolve b h evs i outcome b' h')
  then show ?case using resolve_keeps [of run b evs sink i outcome h b' h'] by auto
next
  case (reject b h evs b' h')
  then show ?case using resolve_each_keeps [of run b evs sink "pending_ids b" h b' h'] by (auto simp: reject_all_def)
next
  case (wait b h evs i cancelled w b' h')
  have "\<exists>more. h' = h @ more \<and> bridge_ok run b' (evs @ sent_approvals more)"
    using wait resolve_keeps [of run b evs sink i OutcomeTurnInterrupted h b' h']
    by (auto simp: bridge_wait_def split: option.splits if_splits prod.splits)
  then show ?case by auto
next
  case (runtime b h evs r x b' h')
  then show ?case using runtime_keeps [of run b evs r sink h x b' h'] by auto
qed

text \<open>
  C40. The approvals of a native run and the store agree: whatever the bridge is asked to do, and
  whatever the sink refuses, the requests and resolutions it sends, together with the resolutions
  the daemon publishes itself, pass the validation of the store; and what a waiting tool is told
  is the decision of the resolution in that log.
\<close>

theorem bridge_agrees_with_log:
  assumes "bridge_moves sink run (b, h, evs)"
  shows "is_ok (validate_run_transition empty_lifecycle run (map EvApproval evs)) \<and>
    (fst (bridge_wait sink i cancelled b h) = Some (Ok outcome) \<longrightarrow>
      (\<exists>r. ApprovalResolved r \<in> set evs \<and> rs_approval_id r = i \<and> rs_decision r = outcome_decision outcome))"
proof -
  have ok: "bridge_ok run b evs" using moves_ok [OF assms] by simp
  moreover have "decided_as evs i outcome" if told: "fst (bridge_wait sink i cancelled b h) = Some (Ok outcome)"
  proof -
    obtain e where "bt_get (ab_pending b) i = Some e" "pe_channel e = Some outcome"
      using told by (auto simp: bridge_wait_def split: option.splits if_splits prod.splits)
    with ok have "entry_ok run evs i e" by (simp add: bridge_ok_def)
    with \<open>pe_channel e = Some outcome\<close> show ?thesis by (auto simp: entry_ok_def split: option.splits)
  qed
  ultimately show ?thesis by (simp add: bridge_ok_def log_accepted_def decided_iff)
qed

text \<open>A request that the daemon approves; the waiter is told so.\<close>

definition demo_resolution :: approval_resolution where
  "demo_resolution = \<lparr>rs_approval_id = Ident ''approval-u'', rs_run_id = Ident ''run'', rs_tool_call_id = Some (Ident ''c''),
     rs_decision = Approved, rs_reason = ByUser, rs_actor = None, rs_commentary = None\<rparr>"

definition demo_request :: approval_request where
  "demo_request = \<lparr>rq_id = Ident ''approval-u'', rq_run_id = Ident ''run'', rq_tool_call_id = Some (Ident ''c''),
     rq_scope = FileWrite, rq_requested_at_ms = 1, rq_expires_at_ms = expires_at_ms default_interactive 1,
     rq_target = TargetToolCall ''t'', rq_reason = ''r''\<rparr>"

definition demo_bridge :: "approval_outcome option \<Rightarrow> approval_bridge" where
  "demo_bridge told = \<lparr>ab_run_id = Ident ''run'', ab_pending = [(Ident ''approval-u'',
     \<lparr>pe_descriptor = \<lparr>ad_call_id = ''c'', ad_tool_name = ''t'', ad_reason = ''r''\<rparr>, pe_channel = told, pe_outcome = told\<rparr>)]\<rparr>"

definition demo_history :: sink_history where
  "demo_history = [(RequestApproval demo_request, True), (PushStream (waiting_emission (Ident ''c'')), True)]"

lemma demo_texts: "\<not> blank ''c''" "\<not> blank ''approval-u''" "\<not> blank ''r''"
  using solid_not_blank [of "CHR ''c''"] solid_not_blank [of "CHR ''a''"] solid_not_blank [of "CHR ''r''"]
  by (simp_all add: solid_def white_space_def)

lemmas demo_defs = demo_texts demo_request_def demo_resolution_def demo_bridge_def demo_history_def stream_item_id_iff

lemma demo_asks:
  "bridge_request (\<lambda>_ _. None) FileWrite \<lparr>ad_call_id = ''c'', ad_tool_name = ''t'', ad_reason = ''r''\<rparr> ''u'' 1
    (approval_bridge_new (Ident ''run'')) [] = (Ok (Ident ''approval-u''), demo_bridge None, demo_history)"
  by (simp add: demo_defs bridge_request_def or_process_failed_def ident_new_def approval_request_new_def approval_bridge_new_def
      default_interactive_def expires_at_ms_def default_approval_ttl_ms_def sat_add_def u64_max_def insert_pending_def bt_put_def
      request_with_tool_call_id_def sink_send_def)

lemma demo_moves:
  "bridge_moves (\<lambda>_ _. None) (Ident ''run'')
    (demo_bridge (Some OutcomeAllow), demo_history, [ApprovalRequested demo_request, ApprovalResolved demo_resolution])"
proof -
  have "bridge_moves (\<lambda>_ _. None) (Ident ''run'') (demo_bridge None, demo_history, [ApprovalRequested demo_request])"
    using bridge_moves.request [OF bridge_moves.start _ demo_asks]
    by (simp add: approval_state_def demo_history_def)
  moreover have "log_accepted (Ident ''run'') ([ApprovalRequested demo_request] @ [ApprovalResolved demo_resolution])"
    by (auto simp: log_accepted_iff approval_state_def demo_defs)
  moreover have "resolve_from_runtime (\<lambda>_ _. None) demo_resolution (demo_bridge None) demo_history =
      (Ok (), demo_bridge (Some OutcomeAllow), demo_history)"
    by (simp add: resolve_from_runtime_def resolve_once_def send_to_waiter_def bt_put_def demo_defs)
  ultimately show ?thesis using bridge_moves.runtime by fastforce
qed

theorem bridge_agrees_with_log_witness:
  "\<exists>r. ApprovalResolved r \<in> set [ApprovalRequested demo_request, ApprovalResolved demo_resolution] \<and>
     rs_approval_id r = Ident ''approval-u'' \<and> rs_decision r = Approved"
proof -
  have "fst (bridge_wait (\<lambda>_ _. None) (Ident ''approval-u'') False (demo_bridge (Some OutcomeAllow)) demo_history) =
      Some (Ok OutcomeAllow)"
    by (simp add: bridge_wait_def demo_bridge_def)
  with bridge_agrees_with_log [OF demo_moves, of "Ident ''approval-u''" False OutcomeAllow] show ?thesis by simp
qed

end
