(* ===== verification/AgentSession.thy ===== *)
theory AgentSession
  imports AgentSink
begin

text \<open>
  The conversation of a native run (\<open>crates/taugentic-agent/src/session.rs\<close>), the queues of
  messages that reach it while it runs (\<open>queues.rs\<close>), and the tools (\<open>tools/mod.rs\<close>). A JSON value
  is of any type. The locks are left out: every operation is one step.
\<close>

section \<open>Messages\<close>

datatype stream_role = RoleSystem | RoleUser | RoleAssistant | RoleTool

record 'j tool_call_record =
  cr'_id :: string
  cr'_name :: string
  cr'_input :: 'j

record 'j stream_message =
  sm_role :: stream_role
  sm_content :: string
  sm_tool_call_id :: "string option"
  sm_tool_calls :: "'j tool_call_record list"

definition system_message :: "string \<Rightarrow> 'j stream_message" where
  "system_message content = \<lparr>sm_role = RoleSystem, sm_content = content, sm_tool_call_id = None, sm_tool_calls = []\<rparr>"

definition user_message :: "string \<Rightarrow> 'j stream_message" where
  "user_message content = \<lparr>sm_role = RoleUser, sm_content = content, sm_tool_call_id = None, sm_tool_calls = []\<rparr>"

definition assistant_message :: "string \<Rightarrow> 'j tool_call_record list \<Rightarrow> 'j stream_message" where
  "assistant_message content calls =
     \<lparr>sm_role = RoleAssistant, sm_content = content, sm_tool_call_id = None, sm_tool_calls = calls\<rparr>"

definition tool_message :: "string \<Rightarrow> string \<Rightarrow> 'j stream_message" where
  "tool_message call_id content =
     \<lparr>sm_role = RoleTool, sm_content = content, sm_tool_call_id = Some call_id, sm_tool_calls = []\<rparr>"

section \<open>Tools\<close>

record 'j tool_descriptor =
  td_name :: string
  td_description :: string
  td_input_schema :: 'j
  td_approval_scope :: "approval_scope option"
  td_read_only :: bool
  td_parallel_safe :: bool

text \<open>A tool in the registry is what its descriptor says; what it does when run is the loop's argument.\<close>

record 'j registry =
  rg_tools :: "(string, 'j tool_descriptor) btree"
  rg_locked :: bool

definition registry_new :: "'j registry" where
  "registry_new = \<lparr>rg_tools = [], rg_locked = False\<rparr>"

definition registry_insert :: "'j tool_descriptor \<Rightarrow> 'j registry \<Rightarrow> 'j registry" where
  "registry_insert t r = r\<lparr>rg_tools := bt_put (td_name t) t (rg_tools r)\<rparr>"

definition registry_add :: "'j tool_descriptor \<Rightarrow> 'j registry \<Rightarrow> ('j registry, execution_error) result" where
  "registry_add t r =
     (if rg_locked r then Err (ExToolListLocked (''cannot add tool '' @ td_name t @ '' after first API call''))
      else Ok (registry_insert t r))"

definition registry_descriptors :: "'j registry \<Rightarrow> 'j tool_descriptor list" where
  "registry_descriptors r = bt_values (rg_tools r)"

definition lock_tool_list :: "'j registry \<Rightarrow> 'j registry \<times> 'j tool_descriptor list" where
  "lock_tool_list r = (r\<lparr>rg_locked := True\<rparr>, registry_descriptors r)"

section \<open>The session\<close>

record 'j agent_session =
  ag_history :: "'j stream_message list"
  ag_provider_session_id :: "string option"
  ag_locked_tools :: "'j tool_descriptor list option"
  ag_compact_count :: nat

definition prepend_system_prompt :: "'j stream_message list \<Rightarrow> string option \<Rightarrow> 'j stream_message list" where
  "prepend_system_prompt history system_prompt =
     (case system_prompt of
        None \<Rightarrow> history
      | Some p \<Rightarrow>
          (let prompt = trim p
           in if prompt = [] then history
              else case history of
                first # rest \<Rightarrow>
                  if sm_role first = RoleSystem
                  then (if sm_content first = prompt then history
                        else first\<lparr>sm_content := prompt @ [CHR 0x0A, CHR 0x0A] @ sm_content first\<rparr> # rest)
                  else system_message prompt # history
              | [] \<Rightarrow> [system_message prompt]))"

definition session_from_history :: "'j stream_message list \<Rightarrow> string option \<Rightarrow> 'j agent_session" where
  "session_from_history history provider_session_id =
     \<lparr>ag_history = history, ag_provider_session_id = provider_session_id, ag_locked_tools = None, ag_compact_count = 0\<rparr>"

definition session_from_request_history ::
    "'j stream_message list \<Rightarrow> string option \<Rightarrow> string option \<Rightarrow> 'j agent_session" where
  "session_from_request_history history provider_session_id system_prompt =
     session_from_history (prepend_system_prompt history system_prompt) provider_session_id"

definition append_message :: "'j stream_message \<Rightarrow> 'j agent_session \<Rightarrow> 'j agent_session" where
  "append_message m s = s\<lparr>ag_history := ag_history s @ [m]\<rparr>"

definition append_messages :: "'j stream_message list \<Rightarrow> 'j agent_session \<Rightarrow> 'j agent_session" where
  "append_messages ms s = s\<lparr>ag_history := ag_history s @ ms\<rparr>"

definition lock_tool_list_if_unlocked ::
    "'j agent_session \<Rightarrow> 'j registry \<Rightarrow> 'j agent_session \<times> 'j registry \<times> 'j tool_descriptor list" where
  "lock_tool_list_if_unlocked s r =
     (case ag_locked_tools s of
        Some tools \<Rightarrow> (s, r, tools)
      | None \<Rightarrow> (case lock_tool_list r of (r1, tools) \<Rightarrow> (s\<lparr>ag_locked_tools := Some tools\<rparr>, r1, tools)))"

definition session_compact :: "'j agent_session \<Rightarrow> 'j agent_session" where
  "session_compact s =
     (let history = (if length (ag_history s) > 2 then hd (ag_history s) # drop 2 (ag_history s) else ag_history s)
      in s\<lparr>ag_history := history, ag_compact_count := sat_add (ag_compact_count s) 1\<rparr>)"

definition called_ids :: "'j stream_message list \<Rightarrow> string list" where
  "called_ids history = concat (map (\<lambda>m. map cr'_id (sm_tool_calls m)) history)"

definition answered_ids :: "'j stream_message list \<Rightarrow> string list" where
  "answered_ids history = List.map_filter sm_tool_call_id history"

definition missing_tool_results :: "'j stream_message list \<Rightarrow> string list" where
  "missing_tool_results history =
     filter (\<lambda>call. \<not> list_ex (\<lambda>r. r = call) (answered_ids history)) (called_ids history)"

definition repaired_marker :: string where
  "repaired_marker = CHR ''{'' # CHR 0x22 # ''marker'' @ CHR 0x22 # CHR '':'' # CHR 0x22 # ''missing_tool_output_repaired'' @
     CHR 0x22 # CHR '','' # CHR 0x22 # ''interrupted'' @ CHR 0x22 # '':true}''"

definition repair_missing_tool_outputs :: "'j agent_session \<Rightarrow> 'j agent_session \<times> nat" where
  "repair_missing_tool_outputs s =
     (let missing = missing_tool_results (ag_history s)
      in (s\<lparr>ag_history := ag_history s @ map (\<lambda>i. tool_message i repaired_marker) missing\<rparr>, length missing))"

section \<open>Queues\<close>

datatype queue_mode = QueueAll | QueueOneAtATime

text \<open>The time a message is queued at is never read.\<close>

record 'j queued =
  qd_seq :: nat
  qd_message :: "'j stream_message"

record 'j message_queue =
  mq_steering :: "'j queued list"
  mq_follow_up :: "'j queued list"
  mq_steering_mode :: queue_mode
  mq_follow_up_mode :: queue_mode
  mq_next_seq :: nat

definition message_queue_new :: "'j message_queue" where
  "message_queue_new = \<lparr>mq_steering = [], mq_follow_up = [], mq_steering_mode = QueueAll,
     mq_follow_up_mode = QueueAll, mq_next_seq = 0\<rparr>"

definition set_modes :: "queue_mode \<Rightarrow> queue_mode \<Rightarrow> 'j message_queue \<Rightarrow> 'j message_queue" where
  "set_modes steering follow_up q = q\<lparr>mq_steering_mode := steering, mq_follow_up_mode := follow_up\<rparr>"

definition enqueued :: "'j stream_message \<Rightarrow> 'j message_queue \<Rightarrow> 'j queued \<times> 'j message_queue" where
  "enqueued m q = (\<lparr>qd_seq = mq_next_seq q, qd_message = m\<rparr>, q\<lparr>mq_next_seq := sat_add (mq_next_seq q) 1\<rparr>)"

definition push_steering :: "'j stream_message \<Rightarrow> 'j message_queue \<Rightarrow> 'j message_queue" where
  "push_steering m q = (case enqueued m q of (x, q1) \<Rightarrow> q1\<lparr>mq_steering := mq_steering q1 @ [x]\<rparr>)"

definition push_follow_up :: "'j stream_message \<Rightarrow> 'j message_queue \<Rightarrow> 'j message_queue" where
  "push_follow_up m q = (case enqueued m q of (x, q1) \<Rightarrow> q1\<lparr>mq_follow_up := mq_follow_up q1 @ [x]\<rparr>)"

text \<open>What is taken from a queue, and what stays.\<close>

definition drain_queue :: "queue_mode \<Rightarrow> 'j queued list \<Rightarrow> 'j stream_message list \<times> 'j queued list" where
  "drain_queue mode queue =
     (case mode of
        QueueAll \<Rightarrow> (map qd_message queue, [])
      | QueueOneAtATime \<Rightarrow> (case queue of [] \<Rightarrow> ([], []) | x # rest \<Rightarrow> ([qd_message x], rest)))"

text \<open>Draining, after the messages fetched for the queue are put at its end.\<close>

definition drain_steering_into :: "'j stream_message list \<Rightarrow> 'j message_queue \<Rightarrow> 'j agent_session \<Rightarrow>
    'j stream_message list \<times> 'j message_queue \<times> 'j agent_session" where
  "drain_steering_into fetched q s =
     (let q1 = fold push_steering fetched q; (messages, rest) = drain_queue (mq_steering_mode q1) (mq_steering q1)
      in (messages, q1\<lparr>mq_steering := rest\<rparr>, append_messages messages s))"

definition drain_follow_up_into :: "'j stream_message list \<Rightarrow> 'j message_queue \<Rightarrow> 'j agent_session \<Rightarrow>
    'j stream_message list \<times> 'j message_queue \<times> 'j agent_session" where
  "drain_follow_up_into fetched q s =
     (let q1 = fold push_follow_up fetched q; (messages, rest) = drain_queue (mq_follow_up_mode q1) (mq_follow_up q1)
      in (messages, q1\<lparr>mq_follow_up := rest\<rparr>, append_messages messages s))"

section \<open>Conversations without open calls\<close>

text \<open>After the repair every call of the conversation has a result.\<close>

lemma called_append [simp]: "called_ids (h @ h') = called_ids h @ called_ids h'"
  by (simp add: called_ids_def)

lemma answered_append [simp]: "answered_ids (h @ h') = answered_ids h @ answered_ids h'"
  by (simp add: answered_ids_def map_filter_def)

lemma repaired_history:
  fixes s :: "'j agent_session"
  shows "missing_tool_results (ag_history (fst (repair_missing_tool_outputs s))) = []"
proof -
  have "called_ids (map (\<lambda>i. tool_message i repaired_marker :: 'j stream_message) is) = []" for "is"
    by (induction "is") (simp_all add: called_ids_def tool_message_def)
  moreover have "answered_ids (map (\<lambda>i. tool_message i repaired_marker :: 'j stream_message) is) = is" for "is"
    by (induction "is") (simp_all add: answered_ids_def tool_message_def map_filter_simps)
  ultimately show ?thesis
    by (auto simp: repair_missing_tool_outputs_def missing_tool_results_def filter_empty_conv list_ex_iff Let_def)
qed

text \<open>
  Compaction can leave the result of a call whose message is gone: the message it removes is
  always the second, whatever it is.
\<close>

lemma compaction_orphans_a_result:
  "let calls = [\<lparr>cr'_id = ''c'', cr'_name = ''t'', cr'_input = ()\<rparr>];
       s = session_compact (session_from_history [user_message ''q'', assistant_message [] calls, tool_message ''c'' ''r''] None)
   in ag_history s = [user_message ''q'', tool_message ''c'' ''r''] \<and> called_ids (ag_history s) = [] \<and>
      answered_ids (ag_history s) = [''c'']"
  by (simp add: session_compact_def session_from_history_def called_ids_def answered_ids_def user_message_def
      assistant_message_def tool_message_def map_filter_simps)

end
