(* ===== verification/TurnLoop.thy ===== *)
theory TurnLoop
  imports AgentSession ApprovalBridge
begin

text \<open>
  The turn loop of the native agent (\<open>crates/taugentic-agent/src/turn_loop.rs\<close>): one request to the
  model per turn, the tools it calls, and the ends of the loop. What the model streams, what a
  tool answers, who resolves an approval, JSON and the clock are fields of an environment, each
  a function of what the sink has been told so far. Tools that may run in parallel are run one
  after the other here, up to the first that fails.
\<close>

section \<open>Types\<close>

datatype stop_reason = StopEndTurn | StopToolCalls | StopMaxTokens | StopUnknown string

datatype stream_event =
    SvAssistantTextDelta string
  | SvToolCallStarted string nat string
  | SvToolInputDelta string nat string
  | SvToolCallCompleted string nat
  | SvToolCallBatchCompleted
  | SvTokenUsage llm_token_usage
  | SvTurnCompleted stop_reason "string option"

record 'j stream_tool =
  sl_name :: string
  sl_description :: string
  sl_input_schema :: 'j

record 'j stream_request =
  sr'_model :: string
  sr'_messages :: "'j stream_message list"
  sr'_tools :: "'j stream_tool list"
  sr'_provider_session_id :: "string option"

record 'j tool_call =
  tc_id :: string
  tc_name :: string
  tc_input :: 'j
  tc_raw_input :: string
  tc_input_parse_error :: "string option"

record tool_result_message =
  tm_call_id :: string
  tm_content :: string
  tm_outcome :: agent_tool_call_outcome

record partial_tool_call =
  pt_id :: string
  pt_name :: string
  pt_input :: string

record 'j collected_turn =
  ct'_assistant_text :: string
  ct'_tool_calls :: "'j tool_call list"
  ct'_stop_reason :: stop_reason

datatype 'a stream_model = ModelStream 'a | ModelCompact nat | ModelFinish string

definition max_context_limit_retries :: nat where "max_context_limit_retries = 5"
definition max_incomplete_continuation_attempts :: nat where "max_incomplete_continuation_attempts = 3"
definition max_turns :: nat where "max_turns = 32"
definition shell_log_artifact_threshold :: nat where "shell_log_artifact_threshold = 4 * 1024"

record 'j turn_env =
  te_sink :: execution_sink
  te_model :: string
  te_context :: execution_context
  te_output_contract :: "output_contract_kind option"
  te_parallel :: bool
  te_start_stream :: "sink_history \<Rightarrow> 'j stream_request \<Rightarrow>
    ((stream_event, llm_client_error) result list, llm_client_error) result"
  te_cancelled :: "sink_history \<Rightarrow> bool"
  te_fetch_steering :: "sink_history \<Rightarrow> 'j stream_message list"
  te_fetch_follow_up :: "sink_history \<Rightarrow> 'j stream_message list"
  te_parse :: "string \<Rightarrow> ('j, string) result"
  te_print :: "'j \<Rightarrow> (string, string) result"
  te_null :: 'j
  te_empty_object :: 'j
  te_parse_result :: "string \<Rightarrow> capsule_result option"
  te_run_tool :: "sink_history \<Rightarrow> string \<Rightarrow> string \<Rightarrow> 'j \<Rightarrow> ('j, execution_error) result"
  te_duration_ms :: "sink_history \<Rightarrow> string \<Rightarrow> nat"
  te_result_text :: "string \<Rightarrow> nat \<Rightarrow> ('j, execution_error) result \<Rightarrow> string"
  te_decode_patch :: "'j \<Rightarrow> (string, string) result"
  te_decode_shell :: "'j \<Rightarrow> (bool \<times> string \<times> string, string) result"
  te_write_patch :: "sink_history \<Rightarrow> string \<Rightarrow> (string, execution_error) result"
  te_write_log :: "sink_history \<Rightarrow> string \<Rightarrow> string \<Rightarrow> (string, execution_error) result"
  te_uuid :: "sink_history \<Rightarrow> string"
  te_now :: "sink_history \<Rightarrow> nat"
  te_answer :: "sink_history \<Rightarrow> approval_id \<Rightarrow> approval_decision option"

text \<open>The loop; the last field lists the tools that were run, with the name and the call.\<close>

record 'j turn_loop =
  tl_session :: "'j agent_session"
  tl_queues :: "'j message_queue"
  tl_registry :: "'j registry"
  tl_bridge :: approval_bridge
  tl_sink :: sink_history
  tl_turns :: nat
  tl_context_retries :: nat
  tl_continuation_retries :: nat
  tl_tool_runs :: "(string \<times> string) list"

type_synonym ('a, 'j) loop_run = "('a, execution_error) result \<times> 'j turn_loop"

definition loop_then :: "('a, 'j) loop_run \<Rightarrow> ('a \<Rightarrow> 'j turn_loop \<Rightarrow> ('b, 'j) loop_run) \<Rightarrow> ('b, 'j) loop_run" where
  "loop_then m k = (case m of (Inl e, s) \<Rightarrow> (Err e, s) | (Inr x, s) \<Rightarrow> k x s)"

lemma loop_then_simps [simp]:
  "loop_then (Err e, s) k = (Err e, s)" "loop_then (Ok x, s) k = k x s"
  by (simp_all add: loop_then_def)

definition tell_sink :: "'j turn_env \<Rightarrow> sink_call \<Rightarrow> 'j turn_loop \<Rightarrow> (unit, 'j) loop_run" where
  "tell_sink env c s = (case sink_send (te_sink env) c (tl_sink s) of (r, h) \<Rightarrow> (r, s\<lparr>tl_sink := h\<rparr>))"

text \<open>A value that needs no state.\<close>

definition loop_pure :: "('a, execution_error) result \<Rightarrow> 'j turn_loop \<Rightarrow> ('a, 'j) loop_run" where
  "loop_pure r s = (r, s)"

definition stream_turn_id :: "nat \<Rightarrow> (turn_id, execution_error) result" where
  "stream_turn_id turn = or_process_failed (ident_new ''agent stream turn'' (''turn-'' @ dec turn))"

section \<open>Collecting the stream of a turn\<close>

definition tool_call_new :: "'j turn_env \<Rightarrow> string \<Rightarrow> string \<Rightarrow> string \<Rightarrow> 'j tool_call" where
  "tool_call_new env i name raw =
     (let (input, parse_error) =
        (if trim raw = [] then (te_empty_object env, None)
         else case te_parse env raw of Inr v \<Rightarrow> (v, None) | Inl e \<Rightarrow> (te_null env, Some e))
      in \<lparr>tc_id = i, tc_name = name, tc_input = input, tc_raw_input = raw, tc_input_parse_error = parse_error\<rparr>)"

definition text_emission :: "turn_id \<Rightarrow> nat \<Rightarrow> string \<Rightarrow> stream_emission" where
  "text_emission turn n delta = \<lparr>em_turn_id = Some turn, em_item_id = None, em_fragment_sequence = Some n,
     em_frame = AssistantMessageDelta delta\<rparr>"

fun collect_loop :: "'j turn_env \<Rightarrow> turn_id \<Rightarrow> (stream_event, llm_client_error) result list \<Rightarrow> string \<Rightarrow>
    (nat, partial_tool_call) btree \<Rightarrow> stop_reason \<Rightarrow> nat \<Rightarrow> 'j turn_loop \<Rightarrow>
    (string \<times> (nat, partial_tool_call) btree \<times> stop_reason, 'j) loop_run" where
  "collect_loop env turn [] assistant_text calls stop n s = (Ok (assistant_text, calls, stop), s)"
| "collect_loop env turn (Inl e # events) assistant_text calls stop n s = (Err (execution_error_of e), s)"
| "collect_loop env turn (Inr event # events) assistant_text calls stop n s =
     (case event of
        SvAssistantTextDelta delta \<Rightarrow>
          loop_then (tell_sink env (PushStream (text_emission turn n delta)) s) (\<lambda>_ s1.
            collect_loop env turn events (assistant_text @ delta) calls stop (sat_add n 1) s1)
      | SvToolCallStarted i index name \<Rightarrow>
          collect_loop env turn events assistant_text
            (bt_put index \<lparr>pt_id = i, pt_name = name, pt_input = []\<rparr> calls) stop n s
      | SvToolInputDelta i index delta \<Rightarrow>
          (let entry = (case bt_get calls index of Some p \<Rightarrow> p | None \<Rightarrow> \<lparr>pt_id = i, pt_name = [], pt_input = []\<rparr>)
           in collect_loop env turn events assistant_text
                (bt_put index (entry\<lparr>pt_input := pt_input entry @ delta\<rparr>) calls) stop n s)
      | SvToolCallCompleted _ _ \<Rightarrow> collect_loop env turn events assistant_text calls stop n s
      | SvToolCallBatchCompleted \<Rightarrow> collect_loop env turn events assistant_text calls StopToolCalls n s
      | SvTokenUsage usage \<Rightarrow>
          loop_then (tell_sink env (RecordTokenUsage usage) s) (\<lambda>_ s1.
            collect_loop env turn events assistant_text calls stop n s1)
      | SvTurnCompleted reason provider_session_id \<Rightarrow>
          loop_then
            (case provider_session_id of
               None \<Rightarrow> (Ok (), s)
             | Some i \<Rightarrow> tell_sink env (PushProviderSessionId i)
                 (s\<lparr>tl_session := (tl_session s)\<lparr>ag_provider_session_id := Some i\<rparr>\<rparr>))
            (\<lambda>_ s1. (Ok (assistant_text, calls, reason), s1)))"

definition collect_turn :: "'j turn_env \<Rightarrow> turn_id \<Rightarrow> (stream_event, llm_client_error) result list \<Rightarrow>
    'j turn_loop \<Rightarrow> ('j collected_turn, 'j) loop_run" where
  "collect_turn env turn events s =
     loop_then (collect_loop env turn events [] [] StopEndTurn 0 s) (\<lambda>(assistant_text, calls, stop) s1.
       (Ok \<lparr>ct'_assistant_text = assistant_text,
            ct'_tool_calls = map (\<lambda>p. tool_call_new env (pt_id p) (pt_name p) (pt_input p)) (bt_values calls),
            ct'_stop_reason = stop\<rparr>, s1))"

definition compact_after_context_limit :: "execution_error \<Rightarrow> 'j turn_loop \<Rightarrow> ('j collected_turn stream_model, 'j) loop_run" where
  "compact_after_context_limit e s =
     (case e of
        ExContextLengthExceeded detail \<Rightarrow>
          if tl_context_retries s < max_context_limit_retries
          then (let retries = sat_add (tl_context_retries s) 1
                in (Ok (ModelCompact retries),
                    s\<lparr>tl_context_retries := retries, tl_session := session_compact (tl_session s)\<rparr>))
          else (Err (ExContextLengthExceeded detail), s)
      | other \<Rightarrow> (Err other, s))"

definition stream_request_of :: "'j turn_env \<Rightarrow> 'j tool_descriptor list \<Rightarrow> 'j turn_loop \<Rightarrow> 'j stream_request" where
  "stream_request_of env tools s =
     \<lparr>sr'_model = te_model env, sr'_messages = ag_history (tl_session s),
      sr'_tools = map (\<lambda>t. \<lparr>sl_name = td_name t, sl_description = td_description t, sl_input_schema = td_input_schema t\<rparr>) tools,
      sr'_provider_session_id = ag_provider_session_id (tl_session s)\<rparr>"

definition stream_turn :: "'j turn_env \<Rightarrow> 'j tool_descriptor list \<Rightarrow> turn_id \<Rightarrow> 'j turn_loop \<Rightarrow>
    ('j collected_turn stream_model, 'j) loop_run" where
  "stream_turn env tools turn s =
     (case te_start_stream env (tl_sink s) (stream_request_of env tools s) of
        Inl e \<Rightarrow> compact_after_context_limit (execution_error_of e) s
      | Inr events \<Rightarrow>
          (case collect_turn env turn events s of
             (Inr t, s1) \<Rightarrow> (Ok (ModelStream t), s1)
           | (Inl e, s1) \<Rightarrow> compact_after_context_limit e s1))"

definition filter_truncated_tool_calls :: "stop_reason \<Rightarrow> 'j tool_call list \<Rightarrow> 'j tool_call list" where
  "filter_truncated_tool_calls stop calls =
     (if stop \<noteq> StopMaxTokens then calls
      else filter (\<lambda>c. let input = trim (tc_raw_input c)
        in \<not> (input = [] \<or> input = ''null'' \<or> tc_input_parse_error c \<noteq> None)) calls)"

definition finalize_tool_calls :: "stop_reason \<Rightarrow> 'j tool_call list \<Rightarrow> ('j tool_call list, execution_error) result" where
  "finalize_tool_calls stop calls =
     (if stop = StopMaxTokens then Ok (filter_truncated_tool_calls stop calls)
      else case List.find (\<lambda>c. tc_input_parse_error c \<noteq> None) calls of
        Some c \<Rightarrow> Err (ExInvalidToolInput (''tool call '' @ tc_id c @ '' input is invalid JSON: '' @
          (case tc_input_parse_error c of Some e \<Rightarrow> e | None \<Rightarrow> ''unknown parse error'')))
      | None \<Rightarrow> Ok calls)"

section \<open>Running a tool\<close>

definition tool_result :: "'j turn_env \<Rightarrow> string \<Rightarrow> string \<Rightarrow> nat \<Rightarrow> ('j, execution_error) result \<Rightarrow> tool_result_message" where
  "tool_result env call_id tool_name duration_ms output =
     \<lparr>tm_call_id = call_id, tm_content = te_result_text env tool_name duration_ms output,
      tm_outcome = (case output of
        Inr _ \<Rightarrow> OutcomeCompleted
      | Inl (ExCancelled _) \<Rightarrow> OutcomeCancelled
      | Inl _ \<Rightarrow> OutcomeFailed)\<rparr>"

definition tool_emission :: "turn_id \<Rightarrow> item_id \<Rightarrow> nat option \<Rightarrow> agent_stream_frame \<Rightarrow> stream_emission" where
  "tool_emission turn item n frame =
     \<lparr>em_turn_id = Some turn, em_item_id = Some item, em_fragment_sequence = n, em_frame = frame\<rparr>"

text \<open>A frame of a tool call, whose item must be a valid identifier.\<close>

definition push_tool_frame :: "'j turn_env \<Rightarrow> turn_id \<Rightarrow> string \<Rightarrow> nat option \<Rightarrow> agent_stream_frame \<Rightarrow>
    'j turn_loop \<Rightarrow> (unit, 'j) loop_run" where
  "push_tool_frame env turn call_id n frame s =
     loop_then (loop_pure (stream_item_id call_id) s) (\<lambda>item s1.
       tell_sink env (PushStream (tool_emission turn item n frame)) s1)"

definition push_tool_terminal :: "'j turn_env \<Rightarrow> turn_id \<Rightarrow> string \<Rightarrow> agent_tool_call_outcome \<Rightarrow>
    'j turn_loop \<Rightarrow> (unit, 'j) loop_run" where
  "push_tool_terminal env turn call_id outcome s = push_tool_frame env turn call_id None (ToolCallCompleted outcome) s"

definition reject_pending_approvals :: "'j turn_env \<Rightarrow> 'j turn_loop \<Rightarrow> 'j turn_loop" where
  "reject_pending_approvals env s =
     (case reject_all (te_sink env) (tl_bridge s) (tl_sink s) of (b, h) \<Rightarrow> s\<lparr>tl_bridge := b, tl_sink := h\<rparr>)"

definition record_tool_artifact :: "'j turn_env \<Rightarrow> string \<Rightarrow> 'j \<Rightarrow> 'j turn_loop \<Rightarrow> (unit, 'j) loop_run" where
  "record_tool_artifact env tool_name output s =
     (if tool_name = ''apply_patch''
      then (case te_decode_patch env output of
          Inl e \<Rightarrow> (Err (ExToolFailed e), s)
        | Inr diff \<Rightarrow>
            if diff = [] then (Ok (), s)
            else loop_then (loop_pure (te_write_patch env (tl_sink s) diff) s) (\<lambda>path s1.
              tell_sink env (RecordArtifact AkPatch path) s1))
      else if tool_name = ''shell''
      then (case te_decode_shell env output of
          Inl e \<Rightarrow> (Err (ExToolFailed e), s)
        | Inr (truncated, out, err) \<Rightarrow>
            if truncated \<or> sat_add (length out) (length err) \<ge> shell_log_artifact_threshold
            then loop_then (loop_pure (te_write_log env (tl_sink s) out err) s) (\<lambda>path s1.
              tell_sink env (RecordArtifact AkCommandLog path) s1)
            else (Ok (), s))
      else (Ok (), s))"

text \<open>The call of the tool itself, once it is allowed.\<close>

definition run_allowed_tool :: "'j turn_env \<Rightarrow> 'j tool_call \<Rightarrow> 'j turn_loop \<Rightarrow> (tool_result_message, 'j) loop_run" where
  "run_allowed_tool env c s =
     (let duration = te_duration_ms env (tl_sink s) (tc_id c);
          s1 = s\<lparr>tl_tool_runs := tl_tool_runs s @ [(tc_name c, tc_id c)]\<rparr>
      in case te_run_tool env (tl_sink s) (tc_name c) (tc_id c) (tc_input c) of
        Inl e \<Rightarrow> (Ok (tool_result env (tc_id c) (tc_name c) duration (Err e)), s1)
      | Inr output \<Rightarrow>
          (case record_tool_artifact env (tc_name c) output s1 of
             (Inl e, s2) \<Rightarrow> (Ok (tool_result env (tc_id c) (tc_name c) duration (Err e)), s2)
           | (Inr _, s2) \<Rightarrow> (Ok (tool_result env (tc_id c) (tc_name c) duration (Ok output)), s2)))"

text \<open>
  Asking for an approval and waiting for it. Who answers resolves it through the bridge, as the
  daemon does; without an answer the run is cancelled.
\<close>

definition runtime_resolution :: "approval_id \<Rightarrow> run_id \<Rightarrow> string \<Rightarrow> approval_decision \<Rightarrow> approval_resolution" where
  "runtime_resolution i run call_id decision =
     \<lparr>rs_approval_id = i, rs_run_id = run, rs_tool_call_id = Some (Ident call_id), rs_decision = decision,
      rs_reason = ByUser, rs_actor = None, rs_commentary = None\<rparr>"

definition request_approval_of :: "'j turn_env \<Rightarrow> approval_scope \<Rightarrow> approval_descriptor \<Rightarrow> 'j turn_loop \<Rightarrow>
    (approval_id, 'j) loop_run" where
  "request_approval_of env scope descriptor s =
     (case bridge_request (te_sink env) scope descriptor (te_uuid env (tl_sink s)) (te_now env (tl_sink s))
         (tl_bridge s) (tl_sink s) of
        (r, b, h) \<Rightarrow> (r, s\<lparr>tl_bridge := b, tl_sink := h\<rparr>))"

definition wait_for_approval :: "'j turn_env \<Rightarrow> approval_id \<Rightarrow> string \<Rightarrow> 'j turn_loop \<Rightarrow>
    (approval_outcome, 'j) loop_run" where
  "wait_for_approval env i call_id s =
     (let answer = te_answer env (tl_sink s) i;
          (b1, h1) = (case answer of
              None \<Rightarrow> (tl_bridge s, tl_sink s)
            | Some d \<Rightarrow> snd (resolve_from_runtime (te_sink env)
                (runtime_resolution i (ab_run_id (tl_bridge s)) call_id d) (tl_bridge s) (tl_sink s)));
          (r, b2, h2) = bridge_wait (te_sink env) i (answer = None) b1 h1;
          s1 = s\<lparr>tl_bridge := b2, tl_sink := h2\<rparr>
      in case r of
           Some (Inr outcome) \<Rightarrow> (Ok outcome, s1)
         | Some (Inl e) \<Rightarrow> (Err e, s1)
         | None \<Rightarrow> (Err (ExCancelled ''waiting''), s1))"

text \<open>A tool call after its turn was interrupted: its end is reported, and every approval rejected.\<close>

definition interrupted_call :: "'j turn_env \<Rightarrow> turn_id \<Rightarrow> string \<Rightarrow> string \<Rightarrow> 'j turn_loop \<Rightarrow> ('a, 'j) loop_run" where
  "interrupted_call env turn call_id detail s =
     loop_then (push_tool_terminal env turn call_id OutcomeCancelled s) (\<lambda>_ s1.
       (Err (ExCancelled detail), reject_pending_approvals env s1))"

definition execute_tool_call :: "'j turn_env \<Rightarrow> turn_id \<Rightarrow> 'j tool_call \<Rightarrow> 'j turn_loop \<Rightarrow>
    (tool_result_message, 'j) loop_run" where
  "execute_tool_call env turn c s =
     (case bt_get (rg_tools (tl_registry s)) (tc_name c) of
        None \<Rightarrow> (Err (ExToolFailed (''unknown tool '' @ tc_name c)), s)
      | Some tool \<Rightarrow>
          (case td_approval_scope tool of
             None \<Rightarrow> run_allowed_tool env c s
           | Some scope \<Rightarrow>
               (case evaluate_execution_context (te_context env) (operation_new scope (''tool '' @ tc_name c)) of
                  Allow \<Rightarrow> run_allowed_tool env c s
                | Deny reason \<Rightarrow> (Ok (tool_result env (tc_id c) (tc_name c) 0 (Err (ExPolicyDenied scope reason))), s)
                | RequireApproval reason \<Rightarrow>
                    loop_then (request_approval_of env scope
                        \<lparr>ad_call_id = tc_id c, ad_tool_name = tc_name c, ad_reason = reason\<rparr> s) (\<lambda>i s1.
                      case wait_for_approval env i (tc_id c) s1 of
                        (Inl (ExCancelled detail), s2) \<Rightarrow> interrupted_call env turn (tc_id c) detail s2
                      | (Inl e, s2) \<Rightarrow> (Err e, s2)
                      | (Inr OutcomeAllow, s2) \<Rightarrow> run_allowed_tool env c s2
                      | (Inr OutcomeDeny, s2) \<Rightarrow>
                          loop_then (tell_sink env (PushActivity (''tool '' @ tc_name c @ '' denied by approval'')) s2) (\<lambda>_ s3.
                          loop_then (push_tool_terminal env turn (tc_id c) OutcomeCancelled s3) (\<lambda>_ s4.
                            (Err (ExCancelled (''approval denied for tool '' @ tc_name c)), s4)))
                      | (Inr OutcomeTurnInterrupted, s2) \<Rightarrow>
                          interrupted_call env turn (tc_id c) ''turn_interrupted'' s2))))"

section \<open>The tools of a turn\<close>

fun push_calls_started :: "'j turn_env \<Rightarrow> turn_id \<Rightarrow> 'j tool_call list \<Rightarrow> 'j turn_loop \<Rightarrow> (unit, 'j) loop_run" where
  "push_calls_started env turn [] s = (Ok (), s)"
| "push_calls_started env turn (c # cs) s =
     loop_then (loop_pure (stream_item_id (tc_id c)) s) (\<lambda>item s1.
     loop_then (loop_pure (case te_print env (tc_input c) of Inl e \<Rightarrow> Err (ExProcessFailed e) | Inr t \<Rightarrow> Ok t) s1) (\<lambda>input s2.
     loop_then (tell_sink env (PushStream (tool_emission turn item None (ToolCallStarted (tc_name c) input))) s2) (\<lambda>_ s3.
       push_calls_started env turn cs s3)))"

fun execute_tools_serial :: "'j turn_env \<Rightarrow> turn_id \<Rightarrow> 'j tool_call list \<Rightarrow> 'j turn_loop \<Rightarrow>
    (tool_result_message list, 'j) loop_run" where
  "execute_tools_serial env turn [] s = (Ok [], s)"
| "execute_tools_serial env turn (c # cs) s =
     loop_then (execute_tool_call env turn c s) (\<lambda>r s1.
     loop_then (execute_tools_serial env turn cs s1) (\<lambda>rs s2. (Ok (r # rs), s2)))"

definition tool_supports_parallel :: "'j registry \<Rightarrow> 'j tool_call \<Rightarrow> (bool, execution_error) result" where
  "tool_supports_parallel registry c =
     (case bt_get (rg_tools registry) (tc_name c) of
        None \<Rightarrow> Err (ExToolFailed (''unknown tool '' @ tc_name c))
      | Some tool \<Rightarrow> Ok (td_parallel_safe tool))"

text \<open>A batch of parallel calls is run before the next call that may not be in one.\<close>

fun execute_tools_batched :: "'j turn_env \<Rightarrow> turn_id \<Rightarrow> 'j tool_call list \<Rightarrow> 'j tool_call list \<Rightarrow> 'j turn_loop \<Rightarrow>
    (tool_result_message list, 'j) loop_run" where
  "execute_tools_batched env turn [] parallel_batch s = execute_tools_serial env turn parallel_batch s"
| "execute_tools_batched env turn (c # cs) parallel_batch s =
     loop_then (loop_pure (tool_supports_parallel (tl_registry s) c) s) (\<lambda>parallel s0.
       if parallel then execute_tools_batched env turn cs (parallel_batch @ [c]) s0
       else loop_then (execute_tools_serial env turn parallel_batch s0) (\<lambda>rs s1.
            loop_then (execute_tool_call env turn c s1) (\<lambda>r s2.
            loop_then (execute_tools_batched env turn cs [] s2) (\<lambda>rest s3. (Ok (rs @ r # rest), s3)))))"

definition execute_tools :: "'j turn_env \<Rightarrow> turn_id \<Rightarrow> 'j tool_call list \<Rightarrow> 'j turn_loop \<Rightarrow>
    (tool_result_message list, 'j) loop_run" where
  "execute_tools env turn calls s =
     loop_then (push_calls_started env turn calls s) (\<lambda>_ s1.
       if te_parallel env then execute_tools_batched env turn calls [] s1 else execute_tools_serial env turn calls s1)"

fun push_results :: "'j turn_env \<Rightarrow> turn_id \<Rightarrow> tool_result_message list \<Rightarrow> 'j turn_loop \<Rightarrow> (unit, 'j) loop_run" where
  "push_results env turn [] s = (Ok (), s)"
| "push_results env turn (r # rs) s =
     (let s0 = s\<lparr>tl_session := append_message (tool_message (tm_call_id r) (tm_content r)) (tl_session s)\<rparr>
      in loop_then (push_tool_frame env turn (tm_call_id r) (Some 0) (ToolCallProgressed (tm_content r)) s0) (\<lambda>_ s1.
         loop_then (push_tool_frame env turn (tm_call_id r) None (ToolCallCompleted (tm_outcome r)) s1) (\<lambda>_ s2.
           push_results env turn rs s2)))"

section \<open>One turn and the loop\<close>

definition turn_emission :: "turn_id \<Rightarrow> agent_stream_frame \<Rightarrow> stream_emission" where
  "turn_emission turn frame =
     \<lparr>em_turn_id = Some turn, em_item_id = None, em_fragment_sequence = None, em_frame = frame\<rparr>"

text \<open>After the stream of a turn: whether the loop ends.\<close>

definition finish_turn :: "'j turn_env \<Rightarrow> turn_id \<Rightarrow> 'j collected_turn \<Rightarrow> 'j turn_loop \<Rightarrow> (bool, 'j) loop_run" where
  "finish_turn env turn t s =
     loop_then (loop_pure (finalize_tool_calls (ct'_stop_reason t) (ct'_tool_calls t)) (s\<lparr>tl_context_retries := 0\<rparr>)) (\<lambda>calls s1.
       let records = map (\<lambda>c. \<lparr>cr'_id = tc_id c, cr'_name = tc_name c, cr'_input = tc_input c\<rparr>) calls;
           s2 = s1\<lparr>tl_session := append_message (assistant_message (ct'_assistant_text t) records) (tl_session s1)\<rparr>
       in loop_then (tell_sink env (PushStream (turn_emission turn AssistantTurnCompleted)) s2) (\<lambda>_ s3.
          if calls = []
          then (if ct'_stop_reason t = StopMaxTokens
                then (if tl_continuation_retries s3 < max_incomplete_continuation_attempts
                      then (Ok False, s3\<lparr>tl_continuation_retries := sat_add (tl_continuation_retries s3) 1\<rparr>)
                      else (Err (ExProcessFailed ''max continuation attempts reached''), s3))
                else (case drain_follow_up_into (te_fetch_follow_up env (tl_sink s3)) (tl_queues s3) (tl_session s3) of
                    (follow_up, q, session) \<Rightarrow>
                      let s4 = s3\<lparr>tl_queues := q, tl_session := session\<rparr>
                      in if follow_up \<noteq> [] then (Ok False, s4)
                         else let text_result = (case te_output_contract env of None \<Rightarrow> None
                                | Some _ \<Rightarrow> (let trimmed = trim (ct'_assistant_text t)
                                    in if trimmed = [] then None else te_parse_result env trimmed))
                              in loop_then (tell_sink env (CompleteWithResult ''normal end'' text_result) s4) (\<lambda>_ s5. (Ok True, s5))))
          else loop_then (execute_tools env turn calls (s3\<lparr>tl_continuation_retries := 0\<rparr>)) (\<lambda>results s4.
               loop_then (push_results env turn results s4) (\<lambda>_ s5. (Ok False, s5)))))"

definition begin_turn :: "'j turn_env \<Rightarrow> 'j turn_loop \<Rightarrow> (turn_id, 'j) loop_run" where
  "begin_turn env s =
     (let s0 = s\<lparr>tl_turns := sat_add (tl_turns s) 1\<rparr>
      in loop_then (loop_pure (stream_turn_id (tl_turns s0)) s0) (\<lambda>turn s1.
         loop_then (tell_sink env (PushStream (turn_emission turn AssistantTurnStarted)) s1) (\<lambda>_ s2. (Ok turn, s2))))"

definition turn_step :: "'j turn_env \<Rightarrow> 'j turn_loop \<Rightarrow> (bool, 'j) loop_run" where
  "turn_step env s =
     (let s0 = (if tl_turns s > 0
          then (case drain_steering_into (te_fetch_steering env (tl_sink s)) (tl_queues s) (tl_session s) of
            (_, q, session) \<Rightarrow> s\<lparr>tl_queues := q, tl_session := session\<rparr>)
          else s)
      in if tl_turns s0 \<ge> max_turns
         then loop_then (tell_sink env (Complete ''max turns reached'') s0) (\<lambda>_ s1. (Ok True, s1))
         else if te_cancelled env (tl_sink s0)
         then (Err (ExCancelled ''turn interrupted''), reject_pending_approvals env s0)
         else loop_then (begin_turn env s0) (\<lambda>turn s1.
           case lock_tool_list_if_unlocked (fst (repair_missing_tool_outputs (tl_session s1))) (tl_registry s1) of
             (session, registry, tools) \<Rightarrow>
               loop_then (stream_turn env tools turn (s1\<lparr>tl_session := session, tl_registry := registry\<rparr>)) (\<lambda>m s2.
                 case m of
                   ModelStream t \<Rightarrow> finish_turn env turn t s2
                 | ModelCompact _ \<Rightarrow> (Ok False, s2)
                 | ModelFinish reason \<Rightarrow> loop_then (tell_sink env (Complete reason) s2) (\<lambda>_ s3. (Ok True, s3)))))"

definition turn_loop_new :: "run_id \<Rightarrow> 'j agent_session \<Rightarrow> 'j message_queue \<Rightarrow> 'j registry \<Rightarrow> sink_history \<Rightarrow> 'j turn_loop" where
  "turn_loop_new run session queues registry h =
     \<lparr>tl_session = session, tl_queues = queues, tl_registry = registry, tl_bridge = approval_bridge_new run,
      tl_sink = h, tl_turns = 0, tl_context_retries = 0, tl_continuation_retries = 0, tl_tool_runs = []\<rparr>"

end
