(* ===== verification/TurnLoopRelation.thy ===== *)
theory TurnLoopRelation
  imports TurnLoop Strings
begin

text \<open>
  What an operation inside a turn may change. A relation between states that is closed under the
  elementary changes (a message, a queue, a retry, a call of the sink that starts no turn, a run
  of a permitted tool) holds between the states before and after every operation of the loop
  between the start of a turn and the next; the relation is the parameter of a locale.
\<close>

section \<open>Calls of the sink\<close>

fun is_turn_start :: "sink_call \<Rightarrow> bool" where
  "is_turn_start (PushStream em) \<longleftrightarrow> em_frame em = AssistantTurnStarted"
| "is_turn_start _ \<longleftrightarrow> False"

text \<open>Calls that say nothing about turns and tool calls.\<close>

definition neutral :: "sink_call \<Rightarrow> bool" where
  "neutral c \<longleftrightarrow> (case c of PushStream em \<Rightarrow> (\<exists>st. em_frame em = PendingStateChanged st) | _ \<Rightarrow> True)"

lemma neutral_calls [simp]:
  "neutral (RecordTokenUsage u)" "neutral (PushProviderSessionId i)" "neutral (PushActivity a)"
  "neutral (RequestApproval q)" "neutral (ResolveApproval r)" "neutral (RecordArtifact k p)" "neutral (Complete d)"
  "neutral (CompleteWithResult d x)" "neutral (PushStream (waiting_emission item))"
  by (simp_all add: neutral_def waiting_emission_def)

lemma neutral_no_start: "neutral c \<Longrightarrow> \<not> is_turn_start c"
  by (cases c) (auto simp: neutral_def)

definition extends_neutrally :: "sink_history \<Rightarrow> sink_history \<Rightarrow> bool" where
  "extends_neutrally h h' \<longleftrightarrow> (\<exists>more. h' = h @ more \<and> (\<forall>(c, _)\<in>set more. neutral c))"

lemma extends_refl [simp]: "extends_neutrally h h"
  by (simp add: extends_neutrally_def)

lemma extends_trans: "extends_neutrally h h1 \<Longrightarrow> extends_neutrally h1 h2 \<Longrightarrow> extends_neutrally h h2"
  by (auto simp: extends_neutrally_def)

lemma extends_send: "neutral c \<Longrightarrow> extends_neutrally h (snd (sink_send sink c h))"
  by (auto simp: extends_neutrally_def sink_send_def split: option.split)

text \<open>The bridge sends only such calls.\<close>

lemma extends_resolve_once: "extends_neutrally h (snd (snd (resolve_once sink i x to_sink b h)))"
  using extends_send [of "ResolveApproval r" h sink for r]
  by (auto simp: resolve_once_def split: option.split sum.split prod.split) (metis snd_conv)+

lemma extends_resolve: "extends_neutrally h (snd (bridge_resolve sink i x b h))"
  using extends_resolve_once [of h sink i x True b] by (auto simp: bridge_resolve_def split: sum.split prod.split)

lemma extends_resolve_each: "extends_neutrally h (snd (resolve_each sink is b h))"
proof (induction "is" arbitrary: b h)
  case (Cons i rest)
  obtain b1 h1 where r: "bridge_resolve sink i OutcomeTurnInterrupted b h = (b1, h1)" by fastforce
  then have "extends_neutrally h h1" using extends_resolve by (metis snd_conv)
  then show ?case using Cons extends_trans by (simp add: r)
qed simp

lemma extends_runtime: "extends_neutrally h (snd (snd (resolve_from_runtime sink r b h)))"
  using extends_resolve_once [of h sink "rs_approval_id r" OutcomeAllow False b]
    extends_resolve_once [of h sink "rs_approval_id r" OutcomeDeny False b]
  by (cases "rs_decision r") (auto simp: resolve_from_runtime_def split: sum.split prod.split)

lemma extends_wait: "extends_neutrally h (snd (snd (bridge_wait sink i cancelled b h)))"
  using extends_resolve [of h sink i OutcomeTurnInterrupted b] by (auto simp: bridge_wait_def split: option.split prod.split)

lemma extends_request: "extends_neutrally h (snd (snd (bridge_request sink scope d uuid now b h)))"
  by (auto simp: bridge_request_def sink_send_def extends_neutrally_def Let_def split: sum.split prod.split option.split)

section \<open>What may run\<close>

text \<open>
  An approved call: its request had been accepted by the sink when the answer was given, and the
  answer was to approve it.
\<close>

definition approved_call :: "'j turn_env \<Rightarrow> sink_history \<Rightarrow> string \<Rightarrow> string \<Rightarrow> bool" where
  "approved_call env h name call_id \<longleftrightarrow> (\<exists>q asked later. h = asked @ later \<and> RequestApproval q \<in> set (accepted asked) \<and>
     rq_target q = TargetToolCall name \<and> rq_tool_call_id q = Some (Ident call_id) \<and>
     te_answer env asked (rq_id q) = Some Approved)"

definition permitted :: "'j turn_env \<Rightarrow> (string, 'j tool_descriptor) btree \<Rightarrow> sink_history \<Rightarrow> string \<times> string \<Rightarrow> bool" where
  "permitted env tools h = (\<lambda>(name, call_id).
     case bt_get tools name of
       None \<Rightarrow> False
     | Some tool \<Rightarrow>
         (case td_approval_scope tool of
            None \<Rightarrow> True
          | Some scope \<Rightarrow>
              (case evaluate_execution_context (te_context env) (operation_new scope (''tool '' @ name)) of
                 Allow \<Rightarrow> True
               | Deny _ \<Rightarrow> False
               | RequireApproval _ \<Rightarrow> approved_call env h name call_id)))"

lemma permitted_later: "permitted env tools h x \<Longrightarrow> permitted env tools (h @ later) x"
  by (auto simp: permitted_def approved_call_def split: option.splits policy_decision.splits) (metis append.assoc)

section \<open>Asking for an approval and waiting for it\<close>

text \<open>A request that succeeded, and what the bridge and the sink hold after it.\<close>

lemma bridge_request_Ok:
  assumes "bridge_request sink scope d uuid now b h = (Ok i, b', h')"
  shows "b' = insert_pending i d b \<and> \<not> blank (ad_call_id d) \<and>
    (\<exists>q. h' = h @ [(RequestApproval q, True), (PushStream (waiting_emission (Ident (ad_call_id d))), True)] \<and>
       rq_id q = i \<and> rq_target q = TargetToolCall (ad_tool_name d) \<and> rq_tool_call_id q = Some (Ident (ad_call_id d)))"
  using assms
  by (auto simp: bridge_request_def sink_send_def Let_def try_then_def request_with_tool_call_id_def
      approval_request_new_def or_process_failed_def stream_item_id_def ident_new_def
      split: sum.splits option.splits if_splits)

text \<open>After a fresh request the wait allows a tool only when the answer was to approve.\<close>

lemma fresh_wait_allows:
  assumes "bt_get (ab_pending (tl_bridge s)) i = Some \<lparr>pe_descriptor = d, pe_channel = None, pe_outcome = None\<rparr>"
    and "fst (wait_for_approval env i call_id s) = Ok OutcomeAllow"
  shows "te_answer env (tl_sink s) i = Some Approved"
proof (cases "te_answer env (tl_sink s) i")
  case None
  with assms show ?thesis
    by (auto simp: wait_for_approval_def bridge_wait_def Let_def split: prod.splits)
next
  case (Some answer)
  show ?thesis
  proof (cases answer)
    case Rejected
    with Some assms show ?thesis
      by (auto simp: wait_for_approval_def bridge_wait_def Let_def resolve_from_runtime_def runtime_resolution_def
          resolve_once_def send_to_waiter_def split: prod.splits sum.splits option.splits)
  qed (simp add: Some)
qed

lemma wait_changes:
  "\<exists>b h. snd (wait_for_approval env i call_id s) = s\<lparr>tl_bridge := b, tl_sink := h\<rparr> \<and> extends_neutrally (tl_sink s) h"
proof -
  obtain b1 h1 where first: "(case te_answer env (tl_sink s) i of None \<Rightarrow> (tl_bridge s, tl_sink s)
      | Some d \<Rightarrow> snd (resolve_from_runtime (te_sink env) (runtime_resolution i (ab_run_id (tl_bridge s)) call_id d)
          (tl_bridge s) (tl_sink s))) = (b1, h1)" by fastforce
  then have h1: "extends_neutrally (tl_sink s) h1" using extends_runtime by (auto split: option.splits) (metis snd_conv)
  obtain r b2 h2 where second: "bridge_wait (te_sink env) i (te_answer env (tl_sink s) i = None) b1 h1 = (r, b2, h2)"
    by (metis prod_cases3)
  then have "extends_neutrally h1 h2" using extends_wait by (metis snd_conv)
  with h1 have "extends_neutrally (tl_sink s) h2" by (rule extends_trans)
  then show ?thesis
    by (auto simp: wait_for_approval_def first second Let_def split: option.split sum.split)
qed

text \<open>
  The relation. A tool call that is run must be permitted; the registry can only be locked.
\<close>

locale loop_relation =
  fixes env :: "'j turn_env" and R :: "'j turn_loop \<Rightarrow> 'j turn_loop \<Rightarrow> bool"
  assumes refl: "R s s"
    and trans: "R s s1 \<Longrightarrow> R s1 s2 \<Longrightarrow> R s s2"
    and told: "\<forall>(c, _)\<in>set calls. \<not> is_turn_start c \<Longrightarrow> R s (s\<lparr>tl_sink := tl_sink s @ calls\<rparr>)"
    and session: "R s (s\<lparr>tl_session := a\<rparr>)"
    and queues: "R s (s\<lparr>tl_queues := q\<rparr>)"
    and bridge: "R s (s\<lparr>tl_bridge := b\<rparr>)"
    and retries: "R s (s\<lparr>tl_context_retries := n\<rparr>)" "R s (s\<lparr>tl_continuation_retries := n\<rparr>)"
    and locking: "R s (s\<lparr>tl_registry := (tl_registry s)\<lparr>rg_locked := True\<rparr>\<rparr>)"
    and runs: "permitted env (rg_tools (tl_registry s)) (tl_sink s) run \<Longrightarrow> R s (s\<lparr>tl_tool_runs := tl_tool_runs s @ [run]\<rparr>)"
begin

named_theorems related

lemma changes:
  "R s s' \<Longrightarrow> R s (s'\<lparr>tl_session := a\<rparr>)" "R s s' \<Longrightarrow> R s (s'\<lparr>tl_queues := q\<rparr>)" "R s s' \<Longrightarrow> R s (s'\<lparr>tl_bridge := b\<rparr>)"
  "R s s' \<Longrightarrow> R s (s'\<lparr>tl_context_retries := n\<rparr>)" "R s s' \<Longrightarrow> R s (s'\<lparr>tl_continuation_retries := n\<rparr>)"
  by (erule trans [OF _ session], erule trans [OF _ queues], erule trans [OF _ bridge],
      erule trans [OF _ retries(1)], erule trans [OF _ retries(2)])

lemma changed_before: "R (s\<lparr>tl_session := a\<rparr>) s' \<Longrightarrow> R s s'"
  by (rule trans [OF session])

lemma extended: "R s s' \<Longrightarrow> extends_neutrally (tl_sink s') h \<Longrightarrow> R s (s'\<lparr>tl_sink := h\<rparr>)"
proof -
  assume R: "R s s'" and "extends_neutrally (tl_sink s') h"
  then obtain more where "h = tl_sink s' @ more" "\<forall>(c, _)\<in>set more. \<not> is_turn_start c"
    using neutral_no_start by (fastforce simp: extends_neutrally_def)
  with trans [OF R told] show ?thesis by blast
qed

lemma then_related:
  assumes "R s (snd m)" and "\<And>x s1. m = (Ok x, s1) \<Longrightarrow> R s1 (snd (k x s1))" shows "R s (snd (loop_then m k))"
proof (cases m)
  case (Pair r s1)
  with assms trans show ?thesis by (cases r) fastforce+
qed

lemma pure_related [related]: "R s (snd (loop_pure r s))"
  by (simp add: loop_pure_def refl)

lemma tell_related [related]: "\<not> is_turn_start c \<Longrightarrow> R s (snd (tell_sink env c s))"
  using told [of "[(c, b)]" s for b]
  by (cases rule: sink_send_cases [of "te_sink env" c "tl_sink s"]) (simp_all add: tell_sink_def)

subsection \<open>The stream\<close>

lemma collect_loop_related [related]: "R s (snd (collect_loop env turn events a calls stop n s))"
proof (induction events arbitrary: a calls stop n s)
  case (Cons x events)
  show ?case
  proof (cases x)
    case (Inr event)
    then show ?thesis
      using Cons.IH
      by (cases event) (auto simp: Let_def text_emission_def
          intro!: then_related tell_related refl changed_before [OF tell_related] split: option.split)
  qed (simp add: refl)
qed (simp add: refl)

lemma collect_turn_related [related]: "R s (snd (collect_turn env turn events s))"
  unfolding collect_turn_def by (rule then_related) (auto intro: collect_loop_related refl split: prod.split)

lemma compact_related [related]: "R s (snd (compact_after_context_limit e s))"
  by (cases e) (auto simp: compact_after_context_limit_def Let_def intro: refl changes)

lemma stream_turn_related [related]: "R s (snd (stream_turn env tools turn s))"
proof (cases "te_start_stream env (tl_sink s) (stream_request_of env tools s)")
  case (Inr events)
  obtain r s1 where "collect_turn env turn events s = (r, s1)" by fastforce
  moreover from this have "R s s1" using collect_turn_related by (metis snd_conv)
  ultimately show ?thesis
    using Inr trans [OF _ compact_related] by (simp add: stream_turn_def split: sum.split)
qed (simp add: stream_turn_def compact_related)

subsection \<open>A tool call\<close>

lemma tool_frame_related [related]:
  "frame \<noteq> AssistantTurnStarted \<Longrightarrow> R s (snd (push_tool_frame env turn i n frame s))"
  unfolding push_tool_frame_def by (rule then_related) (auto simp: tool_emission_def loop_pure_def intro: related refl split: sum.splits)

lemma terminal_related [related]: "R s (snd (push_tool_terminal env turn i outcome s))"
  by (simp add: push_tool_terminal_def tool_frame_related)

lemma reject_related [related]: "R s (reject_pending_approvals env s)"
proof -
  obtain b h where r: "resolve_each (te_sink env) (pending_ids (tl_bridge s)) (tl_bridge s) (tl_sink s) = (b, h)" by fastforce
  then have "extends_neutrally (tl_sink s) h" using extends_resolve_each by (metis snd_conv)
  then have "R s ((s\<lparr>tl_bridge := b\<rparr>)\<lparr>tl_sink := h\<rparr>)" by (intro extended bridge) simp
  with r show ?thesis by (simp add: reject_pending_approvals_def reject_all_def)
qed

lemma artifact_related [related]: "R s (snd (record_tool_artifact env name v s))"
  by (auto simp: record_tool_artifact_def loop_pure_def intro!: then_related tell_related refl split: sum.split)

lemma run_allowed_related:
  assumes "permitted env (rg_tools (tl_registry s)) (tl_sink s) (tc_name c, tc_id c)"
  shows "R s (snd (run_allowed_tool env c s))"
proof -
  let ?s1 = "s\<lparr>tl_tool_runs := tl_tool_runs s @ [(tc_name c, tc_id c)]\<rparr>"
  have "R s (snd (record_tool_artifact env (tc_name c) v ?s1))" for v
    using trans [OF runs [OF assms] artifact_related] .
  then show ?thesis
    using runs [OF assms]
    by (simp add: run_allowed_tool_def Let_def split: sum.split prod.split) (metis snd_conv)
qed

lemma interrupted_related [related]: "R s (snd (interrupted_call env turn i detail s))"
  unfolding interrupted_call_def by (rule then_related) (simp_all add: related)

lemma request_related [related]: "R s (snd (request_approval_of env scope d s))"
proof -
  obtain r b h where r: "bridge_request (te_sink env) scope d (te_uuid env (tl_sink s)) (te_now env (tl_sink s))
      (tl_bridge s) (tl_sink s) = (r, b, h)" by (metis prod_cases3)
  then have "extends_neutrally (tl_sink s) h" using extends_request by (metis snd_conv)
  then have "R s ((s\<lparr>tl_bridge := b\<rparr>)\<lparr>tl_sink := h\<rparr>)" by (intro extended bridge) simp
  with r show ?thesis by (simp add: request_approval_of_def)
qed

lemma wait_related [related]: "R s (snd (wait_for_approval env i call_id s))"
proof -
  obtain b h where wait: "snd (wait_for_approval env i call_id s) = s\<lparr>tl_bridge := b, tl_sink := h\<rparr>"
    and h: "extends_neutrally (tl_sink s) h" using wait_changes by blast
  then have "R s ((s\<lparr>tl_bridge := b\<rparr>)\<lparr>tl_sink := h\<rparr>)" by (intro extended bridge) simp
  with wait show ?thesis by simp
qed

lemma denied_related:
  "R s (snd (loop_then (tell_sink env (PushActivity detail) s) (\<lambda>_ s3.
      loop_then (push_tool_terminal env turn i outcome s3) (\<lambda>_ s4. (Err e, s4)))))"
  by (auto intro!: then_related tell_related terminal_related refl)

text \<open>A call that needs an approval is run only when it was given.\<close>

lemma asked_related:
  assumes tool: "bt_get (rg_tools (tl_registry s)) (tc_name c) = Some tool" "td_approval_scope tool = Some scope"
    "evaluate_execution_context (te_context env) (operation_new scope (''tool '' @ tc_name c)) = RequireApproval reason"
    and asked: "request_approval_of env scope \<lparr>ad_call_id = tc_id c, ad_tool_name = tc_name c, ad_reason = reason\<rparr> s = (Ok i, s1)"
    and waited: "wait_for_approval env i (tc_id c) s1 = (Ok OutcomeAllow, s2)"
  shows "R s1 (snd (run_allowed_tool env c s2))"
proof -
  let ?d = "\<lparr>ad_call_id = tc_id c, ad_tool_name = tc_name c, ad_reason = reason\<rparr>"
  obtain b h where request: "bridge_request (te_sink env) scope ?d (te_uuid env (tl_sink s)) (te_now env (tl_sink s))
      (tl_bridge s) (tl_sink s) = (Ok i, b, h)" and s1: "s1 = s\<lparr>tl_bridge := b, tl_sink := h\<rparr>"
    using asked by (auto simp: request_approval_of_def split: prod.splits)
  note request = bridge_request_Ok [OF request]
  have "te_answer env (tl_sink s1) i = Some Approved"
    using waited request by (intro fresh_wait_allows [where d = ?d and call_id = "tc_id c"]) (simp_all add: s1 insert_pending_def)
  moreover obtain b' later where s2: "s2 = s1\<lparr>tl_bridge := b', tl_sink := tl_sink s1 @ later\<rparr>"
    using wait_changes [of env i "tc_id c" s1] waited by (auto simp: extends_neutrally_def)
  moreover obtain q where q: "h = tl_sink s @ [(RequestApproval q, True), (PushStream (waiting_emission (Ident (tc_id c))), True)]"
      "rq_id q = i" "rq_target q = TargetToolCall (tc_name c)" "rq_tool_call_id q = Some (Ident (tc_id c))"
    using request by auto
  moreover from q(1) have "RequestApproval q \<in> set (accepted (tl_sink s1))" by (simp add: s1)
  ultimately have "approved_call env (tl_sink s2) (tc_name c) (tc_id c)"
    unfolding approved_call_def by (intro exI [of _ q] exI [of _ "tl_sink s1"] exI [of _ later]) simp
  with tool have "permitted env (rg_tools (tl_registry s2)) (tl_sink s2) (tc_name c, tc_id c)"
    by (simp add: permitted_def s1 s2)
  moreover have "R s1 s2" using wait_related [of s1 i "tc_id c"] waited by simp
  ultimately show ?thesis using run_allowed_related trans by blast
qed

lemma answered_related:
  assumes "R s (snd m)" and "\<And>s2. m = (Ok OutcomeAllow, s2) \<Longrightarrow> R s (snd (run_allowed_tool env c s2))"
  shows "R s (snd (case m of
        (Inl (ExCancelled detail), s2) \<Rightarrow> interrupted_call env turn (tc_id c) detail s2
      | (Inl e, s2) \<Rightarrow> (Err e, s2)
      | (Inr OutcomeAllow, s2) \<Rightarrow> run_allowed_tool env c s2
      | (Inr OutcomeDeny, s2) \<Rightarrow>
          loop_then (tell_sink env (PushActivity (''tool '' @ tc_name c @ '' denied by approval'')) s2) (\<lambda>_ s3.
          loop_then (push_tool_terminal env turn (tc_id c) OutcomeCancelled s3) (\<lambda>_ s4.
            (Err (ExCancelled (''approval denied for tool '' @ tc_name c)), s4)))
      | (Inr OutcomeTurnInterrupted, s2) \<Rightarrow> interrupted_call env turn (tc_id c) ''turn_interrupted'' s2))"
proof -
  obtain r s2 where m: "m = (r, s2)" by (cases m)
  with assms(1) have "R s s2" by simp
  note after = trans [OF this]
  show ?thesis
  proof (cases r)
    case (Inl e)
    then show ?thesis using m \<open>R s s2\<close> by (cases e) (auto intro: after [OF interrupted_related])
  next
    case (Inr outcome)
    show ?thesis
    proof (cases outcome)
      case OutcomeDeny
      show ?thesis unfolding m Inr OutcomeDeny prod.case sum.case approval_outcome.case by (rule after [OF denied_related])
    qed (use m Inr assms(2) in \<open>auto intro: after [OF interrupted_related]\<close>)
  qed
qed

lemma execute_call_related [related]: "R s (snd (execute_tool_call env turn c s))"
proof (cases "bt_get (rg_tools (tl_registry s)) (tc_name c)")
  case None
  then show ?thesis by (simp add: execute_tool_call_def refl)
next
  case (Some tool)
  note tool = Some
  show ?thesis
  proof (cases "td_approval_scope tool")
    case None
    with tool have "R s (snd (run_allowed_tool env c s))" by (intro run_allowed_related) (simp add: permitted_def)
    with tool None show ?thesis by (simp add: execute_tool_call_def)
  next
    case (Some scope)
    show ?thesis
    proof (cases "evaluate_execution_context (te_context env) (operation_new scope (''tool '' @ tc_name c))")
      case Allow
      with tool Some have "R s (snd (run_allowed_tool env c s))" by (intro run_allowed_related) (simp add: permitted_def)
      with tool Some Allow show ?thesis by (simp add: execute_tool_call_def)
    next
      case (RequireApproval reason)
      have "R s1 (snd (run_allowed_tool env c s2))"
        if "request_approval_of env scope \<lparr>ad_call_id = tc_id c, ad_tool_name = tc_name c, ad_reason = reason\<rparr> s = (Ok i, s1)"
          "wait_for_approval env i (tc_id c) s1 = (Ok OutcomeAllow, s2)" for i s1 s2
        by (rule asked_related [OF tool Some RequireApproval that])
      then show ?thesis
        unfolding execute_tool_call_def tool Some RequireApproval option.case policy_decision.case
        by (intro then_related request_related answered_related wait_related) blast
    qed (use tool Some in \<open>simp add: execute_tool_call_def refl\<close>)
  qed
qed

subsection \<open>The tools and the end of a turn\<close>

lemma calls_started_related [related]: "R s (snd (push_calls_started env turn cs s))"
  by (induction cs arbitrary: s) (auto simp: tool_emission_def intro!: then_related pure_related tell_related refl)

lemma serial_related [related]: "R s (snd (execute_tools_serial env turn cs s))"
  by (induction cs arbitrary: s) (auto intro!: then_related execute_call_related refl)

lemma batched_related [related]: "R s (snd (execute_tools_batched env turn cs batch s))"
  by (induction cs arbitrary: batch s)
    (auto intro!: then_related pure_related serial_related execute_call_related refl)

lemma tools_related [related]: "R s (snd (execute_tools env turn cs s))"
  unfolding execute_tools_def by (auto intro!: then_related related)

lemma results_related [related]: "R s (snd (push_results env turn rs s))"
proof (induction rs arbitrary: s)
  case (Cons r rs)
  show ?case
    unfolding push_results.simps Let_def
    by (rule changed_before, rule then_related [OF tool_frame_related], simp)
      (rule then_related [OF tool_frame_related Cons.IH], simp)
qed (simp add: refl)

lemma finish_related [related]: "R s (snd (finish_turn env turn t s))"
proof (cases "finalize_tool_calls (ct'_stop_reason t) (ct'_tool_calls t)")
  case (Inl e)
  then show ?thesis by (simp add: finish_turn_def loop_pure_def retries)
next
  case (Inr calls)
  have completed: "R s1 (snd (tell_sink env (PushStream (turn_emission turn AssistantTurnCompleted)) s1))" for s1
    by (rule tell_related) (simp add: turn_emission_def)
  have ended: "R s3 (snd (case drain_follow_up_into fetched (tl_queues s3) (tl_session s3) of
      (follow_up, q, a) \<Rightarrow>
        if follow_up \<noteq> [] then (Ok False, s3\<lparr>tl_queues := q, tl_session := a\<rparr>)
        else loop_then (tell_sink env (CompleteWithResult ''normal end'' x) (s3\<lparr>tl_queues := q, tl_session := a\<rparr>))
          (\<lambda>_ s5. (Ok True, s5))))" for s3 fetched x
  proof -
    have change: "R s3 (s3\<lparr>tl_queues := q, tl_session := a\<rparr>)" for q a by (rule changes(1) [OF queues])
    have "R s3 (snd (loop_then (tell_sink env (CompleteWithResult ''normal end'' x) (s3\<lparr>tl_queues := q, tl_session := a\<rparr>))
          (\<lambda>_ s5. (Ok True, s5))))" for q a
      by (rule trans [OF change then_related [OF tell_related]]) (simp_all add: refl)
    with change show ?thesis by (simp split: prod.split)
  qed
  have tools: "R s3 (snd (loop_then (execute_tools env turn calls (s3\<lparr>tl_continuation_retries := 0\<rparr>)) (\<lambda>results s4.
      loop_then (push_results env turn results s4) (\<lambda>_ s5. (Ok False, s5)))))" for s3
    by (rule trans [OF retries(2) then_related [OF tools_related]])
      (rule then_related [OF results_related], simp add: refl)
  show ?thesis
    unfolding finish_turn_def Inr loop_pure_def loop_then_simps Let_def
  proof (rule trans [OF changes(1) [OF retries(1)] then_related [OF completed]], goal_cases)
    case (1 u s3)
    show ?case
    proof (cases "calls = []")
      case True
      then show ?thesis using ended retries(2) refl by (auto simp del: split_paired_All)
    qed (simp only: if_False tools)
  qed
qed

text \<open>What a step does after its turn has started.\<close>

lemma turn_body_related:
  "R s (snd (case lock_tool_list_if_unlocked (fst (repair_missing_tool_outputs (tl_session s))) (tl_registry s) of
      (a, registry, tools) \<Rightarrow>
        loop_then (stream_turn env tools turn (s\<lparr>tl_session := a, tl_registry := registry\<rparr>)) (\<lambda>m s2.
          case m of
            ModelStream t \<Rightarrow> finish_turn env turn t s2
          | ModelCompact _ \<Rightarrow> (Ok False, s2)
          | ModelFinish reason \<Rightarrow> loop_then (tell_sink env (Complete reason) s2) (\<lambda>_ s3. (Ok True, s3)))))"
proof -
  obtain a registry tools where lock: "lock_tool_list_if_unlocked (fst (repair_missing_tool_outputs (tl_session s))) (tl_registry s) =
      (a, registry, tools)" by (metis prod_cases3)
  then have "registry = tl_registry s \<or> registry = (tl_registry s)\<lparr>rg_locked := True\<rparr>"
    by (auto simp: lock_tool_list_if_unlocked_def lock_tool_list_def split: option.splits)
  then have start: "R s (s\<lparr>tl_session := a, tl_registry := registry\<rparr>)"
    using trans [OF session locking, of s a] session [of s a] by auto
  show ?thesis
    unfolding lock prod.case
    by (rule trans [OF start then_related [OF stream_turn_related]])
      (auto intro!: finish_related then_related tell_related refl split: stream_model.split)
qed

end

end
