(* ===== verification/TurnLoopRun.thy ===== *)
theory TurnLoopRun
  imports TurnLoopRelation
begin

text \<open>
  The loop over the turns (\<open>TurnLoop::execute\<close>, \<open>run\<close>) and its end: no operation inside a turn
  starts another, so the loop starts at most the turns its limit allows.
\<close>

section \<open>Turns and their starts\<close>

definition turn_starts :: "sink_history \<Rightarrow> nat" where
  "turn_starts h = length (filter is_turn_start (accepted h))"

lemma turn_starts_simps [simp]:
  "turn_starts [] = 0" "turn_starts (h @ h') = turn_starts h + turn_starts h'"
  "turn_starts ((c, b) # h) = (if b \<and> is_turn_start c then Suc (turn_starts h) else turn_starts h)"
  by (simp_all add: turn_starts_def)

text \<open>What a state has counted; everything inside a turn keeps it.\<close>

definition turn_mark :: "'j turn_loop \<Rightarrow> nat \<times> nat" where
  "turn_mark s = (tl_turns s, turn_starts (tl_sink s))"

lemma no_starts: "\<forall>(c, _)\<in>set calls. \<not> is_turn_start c \<Longrightarrow> turn_starts calls = 0"
  by (induction calls) auto

interpretation counted: loop_relation env "\<lambda>s s'. turn_mark s' = turn_mark s" for env
  by unfold_locales (simp_all add: turn_mark_def no_starts)

lemma stream_turn_id_Ok [simp]: "stream_turn_id n = Ok (Ident (''turn-'' @ dec n))"
proof -
  have "\<not> blank (''turn-'' @ dec n)" using solid_not_blank [of "CHR ''t''"] by (simp add: solid_def white_space_def)
  then show ?thesis by (simp add: stream_turn_id_def or_process_failed_def ident_new_def)
qed

text \<open>A turn begins with its number and at most one start.\<close>

lemma begin_turn_mark:
  assumes "tl_turns s < max_turns"
  shows "tl_turns (snd (begin_turn env s)) = tl_turns s + 1"
    "turn_starts (tl_sink (snd (begin_turn env s))) \<le> turn_starts (tl_sink s) + 1"
proof -
  have turns: "sat_add (tl_turns s) 1 = tl_turns s + 1"
    using assms by (intro sat_add_exact) (simp add: max_turns_def u64_max_def)
  let ?c = "PushStream (turn_emission (Ident (''turn-'' @ dec (tl_turns s + 1))) AssistantTurnStarted)"
  obtain r h where send: "sink_send (te_sink env) ?c (tl_sink s) = (r, h)" by fastforce
  then have "turn_starts h \<le> turn_starts (tl_sink s) + 1" by (auto simp: sink_send_def split: option.splits)
  moreover have "snd (begin_turn env s) = s\<lparr>tl_turns := tl_turns s + 1, tl_sink := h\<rparr>"
    using send unfolding begin_turn_def Let_def turns by (cases r) (simp_all add: loop_pure_def tell_sink_def)
  ultimately show "tl_turns (snd (begin_turn env s)) = tl_turns s + 1"
    "turn_starts (tl_sink (snd (begin_turn env s))) \<le> turn_starts (tl_sink s) + 1" by simp_all
qed

lemma mark_steering: "turn_mark (case drain_steering_into f (tl_queues s) (tl_session s) of
    (_, q, session) \<Rightarrow> s\<lparr>tl_queues := q, tl_session := session\<rparr>) = turn_mark s"
  by (simp add: turn_mark_def split: prod.split)

text \<open>
  A step ends the loop without another start, or fails, or counts one more turn of those allowed;
  only then can there be another start.
\<close>

lemma turn_step_counts:
  assumes "turn_step env s = (r, s')"
  shows "turn_mark s' = turn_mark s \<or> tl_turns s < max_turns \<and> tl_turns s' = tl_turns s + 1 \<and>
      turn_starts (tl_sink s') \<le> turn_starts (tl_sink s) + 1"
    and "r = Ok False \<Longrightarrow> tl_turns s < max_turns \<and> tl_turns s' = tl_turns s + 1"
proof -
  define s0 where "s0 = (if tl_turns s > 0
    then (case drain_steering_into (te_fetch_steering env (tl_sink s)) (tl_queues s) (tl_session s) of
            (_, q, session) \<Rightarrow> s\<lparr>tl_queues := q, tl_session := session\<rparr>) else s)"
  have s0: "turn_mark s0 = turn_mark s" by (simp add: s0_def mark_steering)
  then have t0: "tl_turns s0 = tl_turns s" "turn_starts (tl_sink s0) = turn_starts (tl_sink s)" by (simp_all add: turn_mark_def)
  have "(turn_mark s' = turn_mark s \<and> r \<noteq> Ok False) \<or> tl_turns s < max_turns \<and> tl_turns s' = tl_turns s + 1 \<and>
      turn_starts (tl_sink s') \<le> turn_starts (tl_sink s) + 1"
  proof (cases "tl_turns s0 \<ge> max_turns \<or> te_cancelled env (tl_sink s0)")
    case True
    have "turn_mark (snd (turn_step env s)) = turn_mark s \<and> fst (turn_step env s) \<noteq> Ok False"
    proof (cases "tl_turns s0 \<ge> max_turns")
      case True
      obtain x s1 where t: "tell_sink env (Complete ''max turns reached'') s0 = (x, s1)" by fastforce
      have "turn_mark s1 = turn_mark s" using counted.tell_related [of "Complete ''max turns reached''" env s0] t s0 by simp
      then show ?thesis using True t unfolding turn_step_def s0_def [symmetric] Let_def by (cases x) simp_all
    next
      case False
      then show ?thesis using True s0 counted.reject_related [of env s0] unfolding turn_step_def s0_def [symmetric] Let_def by simp
    qed
    with assms show ?thesis by simp
  next
    case False
    define k where "k = (\<lambda>turn s1. case lock_tool_list_if_unlocked (fst (repair_missing_tool_outputs (tl_session s1))) (tl_registry s1) of
             (session, registry, tools) \<Rightarrow>
               loop_then (stream_turn env tools turn (s1\<lparr>tl_session := session, tl_registry := registry\<rparr>)) (\<lambda>m s2.
                 case m of
                   ModelStream t \<Rightarrow> finish_turn env turn t s2
                 | ModelCompact _ \<Rightarrow> (Ok False, s2)
                 | ModelFinish reason \<Rightarrow> loop_then (tell_sink env (Complete reason) s2) (\<lambda>_ s3. (Ok True, s3))))"
    have step: "turn_step env s = loop_then (begin_turn env s0) k"
      using False unfolding turn_step_def s0_def [symmetric] Let_def k_def by simp
    obtain b s1 where b: "begin_turn env s0 = (b, s1)" by fastforce
    have s1: "tl_turns s1 = tl_turns s + 1" "turn_starts (tl_sink s1) \<le> turn_starts (tl_sink s) + 1"
      using begin_turn_mark [of s0 env] False b t0 by simp_all
    have "turn_mark (snd (k turn s1)) = turn_mark s1" for turn
      unfolding k_def by (rule counted.turn_body_related)
    then have "turn_mark (snd (turn_step env s)) = turn_mark s1" unfolding step b by (cases b) simp_all
    with assms s1 False t0 show ?thesis by (simp add: turn_mark_def)
  qed
  then show "turn_mark s' = turn_mark s \<or> tl_turns s < max_turns \<and> tl_turns s' = tl_turns s + 1 \<and>
      turn_starts (tl_sink s') \<le> turn_starts (tl_sink s) + 1"
    and "r = Ok False \<Longrightarrow> tl_turns s < max_turns \<and> tl_turns s' = tl_turns s + 1" by blast+
qed

section \<open>The loop\<close>

function execute_loop :: "'j turn_env \<Rightarrow> 'j turn_loop \<Rightarrow> (unit, 'j) loop_run" where
  "execute_loop env s =
     (case turn_step env s of
        (Inl e, s1) \<Rightarrow> (Err e, s1)
      | (Inr finished, s1) \<Rightarrow> if finished then (Ok (), s1) else execute_loop env s1)"
  by pat_completeness auto
termination
proof (relation "measure (\<lambda>(env, s). max_turns - tl_turns s)", simp)
  fix env :: "'j turn_env" and s s1 :: "'j turn_loop" and r and finished :: bool
  assume "(r, s1) = turn_step env s" "r = Ok finished" "\<not> finished"
  then have "tl_turns s < max_turns \<and> tl_turns s1 = tl_turns s + 1"
    using turn_step_counts(2) [of env s r s1] by simp
  then show "((env, s1), env, s) \<in> measure (\<lambda>(env, s). max_turns - tl_turns s)" by auto
qed

declare execute_loop.simps [simp del]

text \<open>\<open>run\<close>: the bridge is attached by being part of the state.\<close>

definition run_turn_loop :: "'j turn_env \<Rightarrow> run_id \<Rightarrow> 'j agent_session \<Rightarrow> 'j message_queue \<Rightarrow> 'j registry \<Rightarrow> sink_history \<Rightarrow>
    (unit, 'j) loop_run" where
  "run_turn_loop env run session queues registry h = execute_loop env (turn_loop_new run session queues registry h)"

lemma execute_loop_counts:
  "tl_turns s \<le> max_turns \<Longrightarrow> turn_starts (tl_sink (snd (execute_loop env s))) + tl_turns s \<le> turn_starts (tl_sink s) + max_turns \<and>
    tl_turns (snd (execute_loop env s)) \<le> max_turns"
proof (induction env s rule: execute_loop.induct)
  case (1 env s)
  obtain r s1 where step: "turn_step env s = (r, s1)" by fastforce
  note counts = turn_step_counts [OF step]
  show ?case
  proof (cases "r = Ok False")
    case True
    then have "tl_turns s < max_turns" "tl_turns s1 = tl_turns s + 1" using counts(2) by simp_all
    then have starts: "turn_starts (tl_sink s1) \<le> turn_starts (tl_sink s) + 1" using counts(1) by (auto simp: turn_mark_def)
    have "execute_loop env s = execute_loop env s1" using step True by (subst execute_loop.simps) simp
    moreover have "turn_starts (tl_sink (snd (execute_loop env s1))) + tl_turns s1 \<le> turn_starts (tl_sink s1) + max_turns \<and>
        tl_turns (snd (execute_loop env s1)) \<le> max_turns"
      using "1.IH" [OF step [symmetric] True] \<open>tl_turns s < max_turns\<close> \<open>tl_turns s1 = tl_turns s + 1\<close> by simp
    ultimately show ?thesis using starts \<open>tl_turns s1 = tl_turns s + 1\<close> by simp
  next
    case False
    then have "snd (execute_loop env s) = s1" using step by (subst execute_loop.simps) (auto split: sum.split)
    then show ?thesis using counts(1) "1.prems" by (auto simp: turn_mark_def)
  qed
qed

text \<open>A step that ends the loop well has just completed the run: the sink's last call, which it accepted.\<close>

definition is_completion :: "sink_call \<Rightarrow> bool" where
  "is_completion c \<longleftrightarrow> (case c of Complete _ \<Rightarrow> True | CompleteWithResult _ _ \<Rightarrow> True | _ \<Rightarrow> False)"

definition completed_last :: "sink_history \<Rightarrow> bool" where
  "completed_last h \<longleftrightarrow> (\<exists>before c. h = before @ [(c, True)] \<and> is_completion c)"

definition ends_completed :: "(bool, 'j) loop_run \<Rightarrow> bool" where
  "ends_completed run \<longleftrightarrow> (fst run = Ok True \<longrightarrow> completed_last (tl_sink (snd run)))"

lemma ends_then: "(\<And>x s1. m = (Ok x, s1) \<Longrightarrow> ends_completed (k x s1)) \<Longrightarrow> ends_completed (loop_then m k)"
  by (cases m; cases "fst m") (auto simp: ends_completed_def loop_then_def)

lemma ends_if: "ends_completed m \<Longrightarrow> ends_completed n \<Longrightarrow> ends_completed (if b then m else n)"
  by simp

lemma ends_triple: "(\<And>a b c. ends_completed (f a b c)) \<Longrightarrow> ends_completed (case p of (a, b, c) \<Rightarrow> f a b c)"
  by (simp split: prod.split)

lemma ends_plain: "ends_completed (Ok False, s)" "ends_completed (Err e, s)"
  by (simp_all add: ends_completed_def)

lemma tell_completion:
  assumes "is_completion c" shows "ends_completed (loop_then (tell_sink env c s) (\<lambda>_ s1. (Ok True, s1)))"
  using assms by (cases rule: sink_send_cases [of "te_sink env" c "tl_sink s"])
    (auto simp: ends_completed_def tell_sink_def completed_last_def)

lemma completions: "is_completion (Complete d)" "is_completion (CompleteWithResult d x)"
  by (simp_all add: is_completion_def)

lemma finish_turn_ends: "ends_completed (finish_turn env turn t s)"
  unfolding finish_turn_def Let_def
  by (rule tell_completion completions ends_plain | rule ends_then ends_if ends_triple)+

lemma turn_step_ends: "ends_completed (turn_step env s)"
proof -
  have body: "ends_completed (case m of ModelStream t \<Rightarrow> finish_turn env turn t s2 | ModelCompact _ \<Rightarrow> (Ok False, s2)
      | ModelFinish reason \<Rightarrow> loop_then (tell_sink env (Complete reason) s2) (\<lambda>_ s3. (Ok True, s3)))" for m turn s2
    by (cases m) (simp_all add: finish_turn_ends ends_plain tell_completion completions)
  show ?thesis unfolding turn_step_def Let_def
    by (rule tell_completion completions ends_plain body | rule ends_then ends_if ends_triple)+
qed

lemma execute_loop_ends: "fst (execute_loop env s) = Ok () \<Longrightarrow> completed_last (tl_sink (snd (execute_loop env s)))"
proof (induction env s rule: execute_loop.induct)
  case (1 env s)
  obtain r s1 where step: "turn_step env s = (r, s1)" by fastforce
  show ?case
  proof (cases "r = Ok False")
    case True
    with step have "execute_loop env s = execute_loop env s1" by (subst execute_loop.simps) simp
    with 1(2) "1.IH" [OF step [symmetric] True] show ?thesis by simp
  next
    case False
    with 1(2) step have r: "r = Ok True" by (subst (asm) execute_loop.simps) (auto split: sum.splits if_splits)
    with step have "execute_loop env s = (Ok (), s1)" by (subst execute_loop.simps) simp
    with step r turn_step_ends [of env s] show ?thesis by (simp add: ends_completed_def)
  qed
qed

text \<open>
  C18. The limit on turns, and how a run of the agent ends. However its turns end, in tool calls, compaction, continuation or
  follow-ups, at most 32 are started, by the loop's own counter and by the frames its sink has accepted. When the loop returns
  without an error, the last thing it has told the sink is that the run is complete, and the sink has accepted it. (That the loop returns
  is not claimed: it needs a stream that ends, tools that return, and an answer to every approval.)
\<close>

theorem turn_limit_holds:
  "\<exists>r s'. run_turn_loop env run session queues registry h = (r, s') \<and> tl_turns s' \<le> 32 \<and>
    turn_starts (tl_sink s') \<le> turn_starts h + 32 \<and>
    (r = Ok () \<longrightarrow> (\<exists>before c. tl_sink s' = before @ [(c, True)] \<and> is_completion c))"
proof -
  let ?s = "turn_loop_new run session queues registry h"
  have "tl_turns ?s = 0" "tl_sink ?s = h" by (simp_all add: turn_loop_new_def)
  with execute_loop_counts [of ?s env] execute_loop_ends [of env ?s] show ?thesis
    unfolding run_turn_loop_def completed_last_def by (cases "execute_loop env ?s") (simp add: max_turns_def)
qed

end
