(* ===== verification/TurnLoopStream.thy ===== *)
theory TurnLoopStream
  imports TurnLoopRun AgentTurns
begin

text \<open>
  The stream of a native run fits the store: the frames the loop sends, in the order it sends
  them, are what the agent-turn projection accepts.
\<close>

section \<open>Projecting what the sink accepted\<close>

text \<open>
  The daemon gives every call a sequence and a time and stores the frames as events of the run;
  \<open>stamp\<close> is that assignment.
\<close>

definition stream_record :: "nat \<times> nat \<Rightarrow> session_id \<Rightarrow> run_id \<Rightarrow> stream_emission \<Rightarrow> event_record" where
  "stream_record st sid run em = \<lparr>ev_sequence = fst st, ev_session_id = sid, ev_occurred_at_ms = snd st,
     ev_payload = EvAgentStream \<lparr>as_run_id = run, as_emission = em\<rparr>\<rparr>"

fun project_call :: "(nat \<Rightarrow> nat \<times> nat) \<Rightarrow> session_id \<Rightarrow> run_id \<Rightarrow> nat \<Rightarrow> sink_call \<Rightarrow> in_flight \<Rightarrow>
    (in_flight, store_error) result" where
  "project_call stamp sid run n (PushStream em) fl =
     map_sum id fst (apply_agent_stream_event fl (stream_record (stamp n) sid run em))"
| "project_call stamp sid run n _ fl = Ok fl"

fun project_calls :: "(nat \<Rightarrow> nat \<times> nat) \<Rightarrow> session_id \<Rightarrow> run_id \<Rightarrow> nat \<Rightarrow> sink_call list \<Rightarrow> in_flight \<Rightarrow>
    (in_flight, store_error) result" where
  "project_calls stamp sid run n [] fl = Ok fl"
| "project_calls stamp sid run n (c # cs) fl =
     try_then (project_call stamp sid run n c fl) (project_calls stamp sid run (n + 1) cs)"

lemma project_calls_append:
  "project_calls stamp sid run n (cs @ cs') fl =
    try_then (project_calls stamp sid run n cs fl) (project_calls stamp sid run (n + length cs) cs')"
proof (induction cs arbitrary: n fl)
  case (Cons c cs)
  then show ?case by (cases "project_call stamp sid run n c fl") simp_all
qed simp

text \<open>The identifier of a turn of the loop.\<close>

definition turn_ident :: "nat \<Rightarrow> turn_id" where
  "turn_ident n = Ident (''turn-'' @ dec n)"

lemma turn_ident_inj: "m \<le> max_turns \<Longrightarrow> n \<le> max_turns \<Longrightarrow> turn_ident m = turn_ident n \<longleftrightarrow> m = n"
proof -
  assume "m \<le> max_turns" "n \<le> max_turns"
  then have "m \<le> u64_max" "n \<le> u64_max" by (simp_all add: max_turns_def u64_max_def)
  then show ?thesis by (auto simp: turn_ident_def) (metis parse_u64_dec option.inject)
qed

text \<open>
  The projection during turn \<open>t\<close>: it has accepted everything, nothing of a later turn is in
  flight, the turn is in flight when \<open>running\<close>, and its calls in flight are \<open>open\<close>.
\<close>

record projection_view =
  vw_stamp :: "nat \<Rightarrow> nat \<times> nat"
  vw_session :: session_id
  vw_run :: run_id
  vw_start :: in_flight

definition projects :: "projection_view \<Rightarrow> sink_history \<Rightarrow> (in_flight \<Rightarrow> bool) \<Rightarrow> bool" where
  "projects v h P \<longleftrightarrow> (\<exists>fl. project_calls (vw_stamp v) (vw_session v) (vw_run v) 0 (accepted h) (vw_start v) = Ok fl \<and> P fl)"

definition later_fresh :: "projection_view \<Rightarrow> nat \<Rightarrow> in_flight \<Rightarrow> bool" where
  "later_fresh v t fl \<longleftrightarrow> (\<forall>u>t. u \<le> max_turns \<longrightarrow>
     \<not> bt_contains (fl_turns fl) (vw_session v, vw_run v, Some (turn_ident u)))"

definition in_turn :: "projection_view \<Rightarrow> nat \<Rightarrow> bool \<Rightarrow> item_id set \<Rightarrow> in_flight \<Rightarrow> bool" where
  "in_turn v t running calls fl \<longleftrightarrow> later_fresh v t fl \<and>
     (running \<longrightarrow> bt_contains (fl_turns fl) (vw_session v, vw_run v, Some (turn_ident t))) \<and>
     (\<forall>u item. bt_contains (fl_calls fl) (vw_session v, vw_run v, u, item) \<longleftrightarrow>
        u = Some (turn_ident t) \<and> item \<in> Some ` calls)"

definition at_turn :: "projection_view \<Rightarrow> nat \<Rightarrow> bool \<Rightarrow> item_id set \<Rightarrow> 'j turn_loop \<Rightarrow> bool" where
  "at_turn v t running calls s \<longleftrightarrow> tl_turns s = t \<and> t \<le> max_turns \<and> projects v (tl_sink s) (in_turn v t running calls)"

definition projected_ok :: "projection_view \<Rightarrow> 'j turn_loop \<Rightarrow> bool" where
  "projected_ok v s \<longleftrightarrow> projects v (tl_sink s) (\<lambda>_. True)"

lemma at_turn_ok: "at_turn v t running calls s \<Longrightarrow> projected_ok v s"
  by (auto simp: at_turn_def projected_ok_def projects_def)

text \<open>One more call, accepted or not.\<close>

lemma projects_rejected: "projects v h P \<Longrightarrow> projects v (h @ [(c, False)]) P"
  by (simp add: projects_def)

lemma projects_accepted:
  assumes "projects v h P" and "\<And>n fl. P fl \<Longrightarrow> \<exists>fl'. project_call (vw_stamp v) (vw_session v) (vw_run v) n c fl = Ok fl' \<and> Q fl'"
  shows "projects v (h @ [(c, True)]) Q"
proof -
  obtain fl where fl: "project_calls (vw_stamp v) (vw_session v) (vw_run v) 0 (accepted h) (vw_start v) = Ok fl" "P fl"
    using assms(1) by (auto simp: projects_def)
  obtain fl' where "project_call (vw_stamp v) (vw_session v) (vw_run v) (length (accepted h)) c fl = Ok fl'" "Q fl'"
    using assms(2) [OF fl(2)] by blast
  with fl(1) show ?thesis by (simp add: projects_def project_calls_append)
qed

lemma project_neutral: "neutral c \<Longrightarrow> project_call stamp sid run n c fl = Ok fl"
  by (cases c) (auto simp: neutral_def apply_agent_stream_event_def stream_record_def Let_def)

lemma projects_neutral:
  assumes "projects v h P" and "extends_neutrally h h'" shows "projects v h' P"
proof -
  have "\<forall>(c, _)\<in>set more. neutral c \<Longrightarrow> projects v (h @ more) P" for more
  proof (induction more rule: rev_induct)
    case (snoc x more)
    obtain c b where x: "x = (c, b)" by (cases x)
    have "projects v (h @ more) P" "neutral c" using snoc x by auto
    then show ?case
      using projects_rejected [of v "h @ more" P c] projects_accepted [of v "h @ more" P c P] project_neutral [of c]
      by (cases b) (auto simp: x)
  qed (simp add: assms(1))
  with assms(2) show ?thesis by (auto simp: extends_neutrally_def)
qed

section \<open>The frames of a turn\<close>

lemma frame_turn_started:
  assumes "in_turn v t running {} fl" "t + 1 \<le> max_turns"
  shows "\<exists>fl'. project_call (vw_stamp v) (vw_session v) (vw_run v) n
      (PushStream (turn_emission (turn_ident (t + 1)) AssistantTurnStarted)) fl = Ok fl' \<and> in_turn v (t + 1) True {} fl'"
proof -
  have fresh: "\<not> bt_contains (fl_turns fl) (vw_session v, vw_run v, Some (turn_ident (t + 1)))"
      "\<not> bt_contains (fl_calls fl) (vw_session v, vw_run v, Some (turn_ident (t + 1)), item)" for item
    using assms by (auto simp: in_turn_def later_fresh_def)
  then show ?thesis
    using assms
    by (auto simp: apply_agent_stream_event_def stream_record_def turn_emission_def mk_turn_key_def Let_def
        in_turn_def later_fresh_def turn_ident_inj)
qed

lemma frame_text:
  assumes "in_turn v t True calls fl"
  shows "\<exists>fl'. project_call (vw_stamp v) (vw_session v) (vw_run v) n
      (PushStream (text_emission (turn_ident t) k delta)) fl = Ok fl' \<and> in_turn v t True calls fl'"
proof -
  obtain x where x: "bt_get (fl_turns fl) (vw_session v, vw_run v, Some (turn_ident t)) = Some x"
    using assms by (auto simp: in_turn_def bt_contains_iff)
  show ?thesis
    using assms x
    by (auto simp: apply_agent_stream_event_def stream_record_def text_emission_def mk_turn_key_def Let_def
        in_turn_def later_fresh_def bt_contains_iff turn_ident_inj)
qed

lemma frame_turn_completed:
  assumes "in_turn v t True calls fl"
  shows "\<exists>fl'. project_call (vw_stamp v) (vw_session v) (vw_run v) n
      (PushStream (turn_emission (turn_ident t) AssistantTurnCompleted)) fl = Ok fl' \<and> in_turn v t False calls fl'"
proof -
  obtain x where x: "bt_get (fl_turns fl) (vw_session v, vw_run v, Some (turn_ident t)) = Some x"
    using assms by (auto simp: in_turn_def bt_contains_iff)
  show ?thesis
    using assms x
    by (auto simp: apply_agent_stream_event_def stream_record_def turn_emission_def mk_turn_key_def Let_def
        in_turn_def later_fresh_def bt_contains_iff)
qed

lemma frame_call_started:
  assumes "in_turn v t running calls fl" "i \<notin> calls" "t \<le> max_turns"
  shows "\<exists>fl'. project_call (vw_stamp v) (vw_session v) (vw_run v) n
      (PushStream (tool_emission (turn_ident t) i k (ToolCallStarted name input))) fl = Ok fl' \<and>
      in_turn v t running (insert i calls) fl'"
proof -
  have "\<not> bt_contains (fl_calls fl) (vw_session v, vw_run v, Some (turn_ident t), Some i)"
    using assms by (auto simp: in_turn_def)
  then show ?thesis
    using assms
    by (auto simp: apply_agent_stream_event_def stream_record_def tool_emission_def mk_call_key_def Let_def
        in_turn_def later_fresh_def turn_ident_inj)
qed

lemma frame_call_progressed:
  assumes "in_turn v t running calls fl" "i \<in> calls" "t \<le> max_turns"
  shows "\<exists>fl'. project_call (vw_stamp v) (vw_session v) (vw_run v) n
      (PushStream (tool_emission (turn_ident t) i k (ToolCallProgressed delta))) fl = Ok fl' \<and> in_turn v t running calls fl'"
proof -
  obtain x where x: "bt_get (fl_calls fl) (vw_session v, vw_run v, Some (turn_ident t), Some i) = Some x"
    using assms by (auto simp: in_turn_def bt_contains_iff)
  show ?thesis
    using assms x
    by (auto simp: apply_agent_stream_event_def stream_record_def tool_emission_def mk_call_key_def Let_def
        in_turn_def later_fresh_def turn_ident_inj bt_contains_iff)
qed

lemma frame_call_completed:
  assumes "in_turn v t running calls fl" "i \<in> calls" "t \<le> max_turns"
  shows "\<exists>fl'. project_call (vw_stamp v) (vw_session v) (vw_run v) n
      (PushStream (tool_emission (turn_ident t) i k (ToolCallCompleted outcome))) fl = Ok fl' \<and>
      in_turn v t running (calls - {i}) fl'"
proof -
  obtain x where x: "bt_get (fl_calls fl) (vw_session v, vw_run v, Some (turn_ident t), Some i) = Some x"
    using assms by (auto simp: in_turn_def bt_contains_iff)
  show ?thesis
    using assms x
    by (auto simp: apply_agent_stream_event_def stream_record_def tool_emission_def mk_call_key_def Let_def
        in_turn_def later_fresh_def turn_ident_inj bt_contains_iff)
qed

section \<open>What holds after an operation\<close>

definition loop_post :: "('a, 'j) loop_run \<Rightarrow> ('a \<Rightarrow> 'j turn_loop \<Rightarrow> bool) \<Rightarrow> ('j turn_loop \<Rightarrow> bool) \<Rightarrow> bool" where
  "loop_post m Q E \<longleftrightarrow> (case m of (Inl e, s) \<Rightarrow> E s | (Inr x, s) \<Rightarrow> Q x s)"

lemma post_simps [simp]: "loop_post (Ok x, s) Q E \<longleftrightarrow> Q x s" "loop_post (Err e, s) Q E \<longleftrightarrow> E s"
  by (simp_all add: loop_post_def)

lemma post_then:
  assumes "loop_post m R E" and "\<And>x s. R x s \<Longrightarrow> loop_post (k x s) Q E" shows "loop_post (loop_then m k) Q E"
proof (cases m)
  case (Pair r s)
  with assms show ?thesis by (cases r) simp_all
qed

lemma post_weaken:
  "loop_post m R F \<Longrightarrow> (\<And>x s. R x s \<Longrightarrow> Q x s) \<Longrightarrow> (\<And>s. F s \<Longrightarrow> E s) \<Longrightarrow> loop_post m Q E"
  by (auto simp: loop_post_def split: sum.splits prod.splits)

lemma post_same: "loop_post m (\<lambda>_. P) P \<longleftrightarrow> P (snd m)"
  by (auto simp: loop_post_def split: prod.split sum.split)

lemma post_pure: "(\<And>x. r = Ok x \<Longrightarrow> Q x s) \<Longrightarrow> E s \<Longrightarrow> loop_post (loop_pure r s) Q E"
  by (cases r) (simp_all add: loop_pure_def)

lemma at_turn_update [simp]:
  "at_turn v t b C (s\<lparr>tl_session := x\<rparr>) = at_turn v t b C s" "at_turn v t b C (s\<lparr>tl_queues := q\<rparr>) = at_turn v t b C s"
  "at_turn v t b C (s\<lparr>tl_registry := g\<rparr>) = at_turn v t b C s" "at_turn v t b C (s\<lparr>tl_bridge := bb\<rparr>) = at_turn v t b C s"
  "at_turn v t b C (s\<lparr>tl_context_retries := n\<rparr>) = at_turn v t b C s"
  "at_turn v t b C (s\<lparr>tl_continuation_retries := n\<rparr>) = at_turn v t b C s"
  "at_turn v t b C (s\<lparr>tl_tool_runs := rs\<rparr>) = at_turn v t b C s"
  by (simp_all add: at_turn_def)

lemma post_tell_frame:
  assumes at: "at_turn v t b C s"
    and frame: "\<And>n fl. in_turn v t b C fl \<Longrightarrow>
      \<exists>fl'. project_call (vw_stamp v) (vw_session v) (vw_run v) n c fl = Ok fl' \<and> in_turn v t b' C' fl'"
  shows "loop_post (tell_sink env c s) (\<lambda>_. at_turn v t b' C') (at_turn v t b C)"
proof (cases rule: sink_send_cases [of "te_sink env" c "tl_sink s"])
  case 1
  with at projects_accepted [of v "tl_sink s" "in_turn v t b C" c "in_turn v t b' C'"] frame show ?thesis
    by (simp add: tell_sink_def at_turn_def)
next
  case (2 e)
  with at projects_rejected [of v "tl_sink s" "in_turn v t b C" c] show ?thesis by (simp add: tell_sink_def at_turn_def)
qed

lemma at_turn_neutral:
  "at_turn v t b C s \<Longrightarrow> extends_neutrally (tl_sink s) h \<Longrightarrow> at_turn v t b C (s\<lparr>tl_sink := h\<rparr>)"
  by (auto simp: at_turn_def intro: projects_neutral)

lemma post_tell_neutral:
  assumes "at_turn v t b C s" "neutral c"
  shows "loop_post (tell_sink env c s) (\<lambda>_. at_turn v t b C) (at_turn v t b C)"
  using assms by (intro post_tell_frame) (simp_all add: project_neutral)

section \<open>The stream of the model\<close>

text \<open>The calls a stream names, by their index.\<close>

fun named_calls :: "(stream_event, llm_client_error) result list \<Rightarrow> (nat \<times> string) list" where
  "named_calls [] = []"
| "named_calls (Inr (SvToolCallStarted i index name) # events) = (index, i) # named_calls events"
| "named_calls (Inr (SvToolInputDelta i index delta) # events) = (index, i) # named_calls events"
| "named_calls (_ # events) = named_calls events"

text \<open>Different calls of a stream have different names.\<close>

definition names_distinct :: "(nat \<times> string) set \<Rightarrow> bool" where
  "names_distinct N \<longleftrightarrow> (\<forall>(k, i)\<in>N. \<forall>(k', i')\<in>N. k \<noteq> k' \<longrightarrow> i \<noteq> i')"

lemma post_collect_loop:
  assumes "at_turn v t True C s" "bt_wf calls" "\<forall>k p. bt_get calls k = Some p \<longrightarrow> (k, pt_id p) \<in> N"
    "set (named_calls events) \<subseteq> N"
  shows "loop_post (collect_loop env (turn_ident t) events a calls stop n s)
    (\<lambda>(_, calls', _) s'. at_turn v t True C s' \<and> bt_wf calls' \<and> (\<forall>k p. bt_get calls' k = Some p \<longrightarrow> (k, pt_id p) \<in> N))
    (at_turn v t True C)"
  using assms
proof (induction events arbitrary: a calls stop n s)
  case (Cons x events)
  note at = Cons.prems(1)
  show ?case
  proof (cases x)
    case (Inl e)
    with at show ?thesis by simp
  next
    case (Inr event)
    show ?thesis
    proof (cases event)
      case (SvAssistantTextDelta delta)
      show ?thesis
        unfolding Inr collect_loop.simps SvAssistantTextDelta stream_event.case
        by (rule post_then [OF post_tell_frame [OF at frame_text]])
          (use Cons Inr SvAssistantTextDelta in auto)
    next
      case (SvTurnCompleted reason i)
      have "loop_post (case i of None \<Rightarrow> (Ok (), s) | Some i \<Rightarrow> tell_sink env (PushProviderSessionId i)
            (s\<lparr>tl_session := (tl_session s)\<lparr>ag_provider_session_id := Some i\<rparr>\<rparr>)) (\<lambda>_. at_turn v t True C) (at_turn v t True C)"
        using at by (cases i) (auto intro!: post_tell_neutral)
      then show ?thesis
        unfolding Inr collect_loop.simps SvTurnCompleted stream_event.case
        by (rule post_then) (use Cons in auto)
    next
      case (SvTokenUsage u)
      show ?thesis
        unfolding Inr collect_loop.simps SvTokenUsage stream_event.case
        by (rule post_then [OF post_tell_neutral [OF at]]) (use Cons Inr SvTokenUsage in auto)
    next
      case (SvToolInputDelta i k delta)
      show ?thesis
        unfolding Inr collect_loop.simps SvToolInputDelta stream_event.case Let_def
        by (rule Cons.IH) (use Cons.prems Inr SvToolInputDelta in \<open>auto simp: bt_wf_put split: option.split\<close>)
    qed (use Cons Inr in \<open>auto simp: bt_wf_put\<close>)
  qed
qed auto

lemma distinct_call_ids:
  assumes "bt_wf m" "\<forall>k p. bt_get m k = Some p \<longrightarrow> (k, pt_id p) \<in> N" "names_distinct N"
  shows "distinct (map pt_id (bt_values m))"
proof -
  have keys: "distinct (map fst m)" using assms(1) by (rule bt_wf_distinct)
  have "x = y" if "x \<in> set m" "y \<in> set m" "pt_id (snd x) = pt_id (snd y)" for x y
  proof -
    have "(fst x, pt_id (snd x)) \<in> N" "(fst y, pt_id (snd y)) \<in> N"
      using that assms(2) bt_get_iff [OF assms(1)] by (metis prod.collapse)+
    then have "fst x = fst y" using assms(3) that(3) by (fastforce simp: names_distinct_def)
    then show "x = y" using keys that by (metis eq_key_imp_eq_value prod.collapse)
  qed
  then have "inj_on (pt_id \<circ> snd) (set m)" by (auto intro!: inj_onI)
  then show ?thesis using keys by (simp add: distinct_map comp_def)
qed

lemma tool_call_new_id [simp]: "tc_id (tool_call_new env i name raw) = i"
  by (simp add: tool_call_new_def Let_def split: prod.split)

lemma post_collect_turn:
  assumes "at_turn v t True C s" "names_distinct (set (named_calls events))"
  shows "loop_post (collect_turn env (turn_ident t) events s)
    (\<lambda>r s'. at_turn v t True C s' \<and> distinct (map tc_id (ct'_tool_calls r))) (at_turn v t True C)"
proof -
  have "loop_post (collect_loop env (turn_ident t) events [] [] StopEndTurn 0 s)
    (\<lambda>(_, calls', _) s'. at_turn v t True C s' \<and> bt_wf calls' \<and>
      (\<forall>k p. bt_get calls' k = Some p \<longrightarrow> (k, pt_id p) \<in> set (named_calls events)))
    (at_turn v t True C)"
    using assms by (intro post_collect_loop) simp_all
  then show ?thesis
    unfolding collect_turn_def
    by (rule post_then) (use assms(2) distinct_call_ids in \<open>auto simp: comp_def\<close>)
qed

lemma post_compact:
  "at_turn v t True C s \<Longrightarrow>
    loop_post (compact_after_context_limit e s) (\<lambda>m s'. at_turn v t True C s' \<and> (\<exists>n. m = ModelCompact n)) (projected_ok v)"
  by (cases e) (auto simp: compact_after_context_limit_def Let_def at_turn_def projected_ok_def projects_def)

lemma post_stream_turn:
  assumes at: "at_turn v t True C s"
    and names: "\<And>h req events. te_start_stream env h req = Ok events \<Longrightarrow> names_distinct (set (named_calls events))"
  shows "loop_post (stream_turn env tools (turn_ident t) s)
    (\<lambda>m s'. at_turn v t True C s' \<and> (\<forall>r. m = ModelStream r \<longrightarrow> distinct (map tc_id (ct'_tool_calls r)))) (projected_ok v)"
proof (cases "te_start_stream env (tl_sink s) (stream_request_of env tools s)")
  case (Inl e)
  then show ?thesis by (simp add: stream_turn_def) (rule post_weaken [OF post_compact [OF at]], auto)
next
  case (Inr events)
  obtain r s1 where collect: "collect_turn env (turn_ident t) events s = (r, s1)" by fastforce
  note post = post_collect_turn [OF at names [OF Inr], of env, unfolded collect]
  show ?thesis
  proof (cases r)
    case (Inl e)
    with post have "at_turn v t True C s1" by simp
    then show ?thesis
      using Inl Inr collect
      by (simp add: stream_turn_def \<open>te_start_stream env (tl_sink s) (stream_request_of env tools s) = Ok events\<close>)
        (rule post_weaken [OF post_compact], auto)
  next
    case (Inr x)
    with post \<open>te_start_stream env (tl_sink s) (stream_request_of env tools s) = Ok events\<close> collect show ?thesis
      by (simp add: stream_turn_def)
  qed
qed

lemma finalize_distinct:
  "finalize_tool_calls stop calls = Ok calls' \<Longrightarrow> distinct (map tc_id calls) \<Longrightarrow> distinct (map tc_id calls')"
  by (auto simp: finalize_tool_calls_def filter_truncated_tool_calls_def distinct_map_filter split: if_splits option.splits)

section \<open>Approvals say nothing about the stream\<close>

lemma at_turn_bridge:
  "at_turn v t b C s \<Longrightarrow> extends_neutrally (tl_sink s) h \<Longrightarrow> at_turn v t b C (s\<lparr>tl_bridge := x, tl_sink := h\<rparr>)"
  using at_turn_neutral [of v t b C "s\<lparr>tl_bridge := x\<rparr>" h] by simp

lemma at_turn_reject: "at_turn v t b C s \<Longrightarrow> at_turn v t b C (reject_pending_approvals env s)"
  using extends_resolve_each [of "tl_sink s" "te_sink env" "pending_ids (tl_bridge s)" "tl_bridge s"]
  by (auto simp: reject_pending_approvals_def reject_all_def intro!: at_turn_bridge split: prod.split)

lemma post_request:
  "at_turn v t b C s \<Longrightarrow> loop_post (request_approval_of env scope d s) (\<lambda>_. at_turn v t b C) (at_turn v t b C)"
  using extends_request [of "tl_sink s" "te_sink env" scope d "te_uuid env (tl_sink s)" "te_now env (tl_sink s)" "tl_bridge s"]
  by (auto simp: request_approval_of_def loop_post_def intro!: at_turn_bridge split: prod.split sum.split)

lemma at_turn_wait: "at_turn v t b C s \<Longrightarrow> at_turn v t b C (snd (wait_for_approval env i call_id s))"
proof -
  assume at: "at_turn v t b C s"
  obtain b1 h1 where first: "(case te_answer env (tl_sink s) i of None \<Rightarrow> (tl_bridge s, tl_sink s)
      | Some d \<Rightarrow> snd (resolve_from_runtime (te_sink env) (runtime_resolution i (ab_run_id (tl_bridge s)) call_id d)
          (tl_bridge s) (tl_sink s))) = (b1, h1)" by fastforce
  then have h1: "extends_neutrally (tl_sink s) h1" using extends_runtime by (auto split: option.splits) (metis snd_conv)
  obtain r b2 h2 where second: "bridge_wait (te_sink env) i (te_answer env (tl_sink s) i = None) b1 h1 = (r, b2, h2)"
    by (metis prod_cases3)
  then have "extends_neutrally h1 h2" using extends_wait by (metis snd_conv)
  from at_turn_bridge [OF at extends_trans [OF h1 this]] show ?thesis
    by (simp add: wait_for_approval_def first second Let_def split: option.split sum.split)
qed

section \<open>The frames of the tools\<close>

lemma stream_item_id_Ok: "stream_item_id i = Ok item \<Longrightarrow> item = Ident i"
  by (auto simp: stream_item_id_def or_process_failed_def ident_new_def split: if_splits sum.splits)

lemma at_turn_bound: "at_turn v t b C s \<Longrightarrow> t \<le> max_turns"
  by (simp add: at_turn_def)

lemma post_progress:
  assumes at: "at_turn v t b C s" and "Ident i \<in> C"
  shows "loop_post (push_tool_frame env (turn_ident t) i n (ToolCallProgressed delta) s)
    (\<lambda>_. at_turn v t b C) (at_turn v t b C)"
proof -
  have "loop_post (tell_sink env (PushStream (tool_emission (turn_ident t) (Ident i) n (ToolCallProgressed delta))) s)
      (\<lambda>_. at_turn v t b C) (at_turn v t b C)"
    by (rule post_tell_frame [OF at frame_call_progressed]) (use assms at_turn_bound in auto)
  with at show ?thesis
    unfolding push_tool_frame_def by (cases "stream_item_id i") (auto simp: loop_pure_def dest: stream_item_id_Ok)
qed

lemma post_completed:
  assumes at: "at_turn v t b C s" and "Ident i \<in> C"
  shows "loop_post (push_tool_frame env (turn_ident t) i n (ToolCallCompleted outcome) s)
    (\<lambda>_. at_turn v t b (C - {Ident i})) (at_turn v t b C)"
proof -
  have "loop_post (tell_sink env (PushStream (tool_emission (turn_ident t) (Ident i) n (ToolCallCompleted outcome))) s)
      (\<lambda>_. at_turn v t b (C - {Ident i})) (at_turn v t b C)"
    by (rule post_tell_frame [OF at frame_call_completed]) (use assms at_turn_bound in auto)
  with at show ?thesis
    unfolding push_tool_frame_def by (cases "stream_item_id i") (auto simp: loop_pure_def dest: stream_item_id_Ok)
qed

lemma post_terminal:
  "at_turn v t b C s \<Longrightarrow> Ident i \<in> C \<Longrightarrow>
    loop_post (push_tool_terminal env (turn_ident t) i outcome s) (\<lambda>_. at_turn v t b (C - {Ident i})) (at_turn v t b C)"
  by (simp add: push_tool_terminal_def post_completed)

lemma post_artifact:
  "at_turn v t b C s \<Longrightarrow> loop_post (record_tool_artifact env name x s) (\<lambda>_. at_turn v t b C) (at_turn v t b C)"
  unfolding record_tool_artifact_def
  by (auto intro!: post_then [where R = "\<lambda>_. at_turn v t b C"] post_pure post_tell_neutral split: sum.split)

lemma post_run_allowed:
  assumes "at_turn v t b C s"
  shows "loop_post (run_allowed_tool env c s) (\<lambda>r s'. at_turn v t b C s' \<and> tm_call_id r = tc_id c) E"
proof -
  let ?s1 = "s\<lparr>tl_tool_runs := tl_tool_runs s @ [(tc_name c, tc_id c)]\<rparr>"
  have "at_turn v t b C (snd (record_tool_artifact env (tc_name c) x ?s1))" for x
    using post_artifact [of v t b C ?s1 env "tc_name c" x] assms by (simp add: post_same)
  then show ?thesis
    using assms
    by (auto simp: run_allowed_tool_def Let_def tool_result_def loop_post_def split: sum.split prod.split) (metis snd_conv)+
qed

lemma post_interrupted:
  assumes "at_turn v t b C s" "Ident i \<in> C"
  shows "loop_post (interrupted_call env (turn_ident t) i detail s) Q (projected_ok v)"
proof -
  have "loop_post (push_tool_terminal env (turn_ident t) i OutcomeCancelled s) (\<lambda>_. at_turn v t b (C - {Ident i})) (projected_ok v)"
    by (rule post_weaken [OF post_terminal [OF assms]]) (auto intro: at_turn_ok)
  then show ?thesis
    unfolding interrupted_call_def by (rule post_then) (auto intro: at_turn_ok at_turn_reject)
qed

text \<open>What the end of the wait does.\<close>

lemma post_after_wait:
  assumes at: "at_turn v t b C (snd m)" and call: "Ident (tc_id c) \<in> C"
  shows "loop_post (case m of
        (Inl (ExCancelled detail), s2) \<Rightarrow> interrupted_call env (turn_ident t) (tc_id c) detail s2
      | (Inl e, s2) \<Rightarrow> (Err e, s2)
      | (Inr OutcomeAllow, s2) \<Rightarrow> run_allowed_tool env c s2
      | (Inr OutcomeDeny, s2) \<Rightarrow>
          loop_then (tell_sink env (PushActivity (''tool '' @ tc_name c @ '' denied by approval'')) s2) (\<lambda>_ s3.
          loop_then (push_tool_terminal env (turn_ident t) (tc_id c) OutcomeCancelled s3) (\<lambda>_ s4.
            (Err (ExCancelled (''approval denied for tool '' @ tc_name c)), s4)))
      | (Inr OutcomeTurnInterrupted, s2) \<Rightarrow> interrupted_call env (turn_ident t) (tc_id c) ''turn_interrupted'' s2)
    (\<lambda>r s'. at_turn v t b C s' \<and> tm_call_id r = tc_id c) (projected_ok v)"
proof -
  obtain r s2 where m: "m = (r, s2)" by (cases m)
  have denied: "loop_post (loop_then (tell_sink env (PushActivity (''tool '' @ tc_name c @ '' denied by approval'')) s2) (\<lambda>_ s3.
          loop_then (push_tool_terminal env (turn_ident t) (tc_id c) OutcomeCancelled s3) (\<lambda>_ s4.
            (Err (ExCancelled (''approval denied for tool '' @ tc_name c)), s4)))) Q (projected_ok v)"
    for Q :: "tool_result_message \<Rightarrow> 'a turn_loop \<Rightarrow> bool"
  proof (rule post_then)
    show "loop_post (tell_sink env (PushActivity (''tool '' @ tc_name c @ '' denied by approval'')) s2)
        (\<lambda>_. at_turn v t b C) (projected_ok v)"
      by (rule post_weaken [OF post_tell_neutral]) (use at m in \<open>auto intro: at_turn_ok\<close>)
    fix x and s3 :: "'a turn_loop"
    assume "at_turn v t b C s3"
    note told = post_weaken [OF post_terminal [OF this call], where Q = "\<lambda>_. projected_ok v" and E = "projected_ok v"]
    show "loop_post (loop_then (push_tool_terminal env (turn_ident t) (tc_id c) OutcomeCancelled s3)
        (\<lambda>_ s4. (Err (ExCancelled (''approval denied for tool '' @ tc_name c)), s4))) Q (projected_ok v)"
      by (rule post_then [OF told]) (auto intro: at_turn_ok)
  qed
  have at: "at_turn v t b C s2" using at m by simp
  show ?thesis
  proof (cases r)
    case (Inl e)
    then show ?thesis using m at call by (cases e) (auto intro: at_turn_ok post_interrupted)
  next
    case (Inr outcome)
    show ?thesis
    proof (cases outcome)
      case OutcomeDeny
      show ?thesis unfolding m Inr OutcomeDeny prod.case sum.case approval_outcome.case by (rule denied)
    qed (use m Inr at call in \<open>auto intro: post_interrupted post_run_allowed\<close>)
  qed
qed

lemma post_execute_call:
  assumes at: "at_turn v t b C s" and call: "Ident (tc_id c) \<in> C"
  shows "loop_post (execute_tool_call env (turn_ident t) c s)
    (\<lambda>r s'. at_turn v t b C s' \<and> tm_call_id r = tc_id c) (projected_ok v)"
proof -
  have asked: "loop_post (loop_then (request_approval_of env scope d s) k) Q (projected_ok v)"
    if "\<And>x s1. at_turn v t b C s1 \<Longrightarrow> loop_post (k x s1) Q (projected_ok v)" for scope d Q
      and k :: "approval_id \<Rightarrow> 'a turn_loop \<Rightarrow> (tool_result_message, 'a) loop_run"
    by (rule post_then [OF post_weaken [OF post_request [OF at]]]) (use that in \<open>auto intro: at_turn_ok\<close>)
  show ?thesis
    unfolding execute_tool_call_def
    by (auto intro!: asked post_after_wait at_turn_wait post_run_allowed
        simp: at call at_turn_ok [OF at] tool_result_def split: option.split policy_decision.split)
qed

section \<open>All the tools of a turn\<close>

definition call_items :: "'j tool_call list \<Rightarrow> item_id set" where
  "call_items cs = Ident ` tc_id ` set cs"

lemma call_items_simps [simp]:
  "call_items [] = {}" "call_items (c # cs) = insert (Ident (tc_id c)) (call_items cs)"
  "call_items (cs @ ds) = call_items cs \<union> call_items ds"
  by (auto simp: call_items_def)

lemma post_calls_started:
  assumes "at_turn v t b C s" "distinct (map tc_id cs)" "call_items cs \<inter> C = {}"
  shows "loop_post (push_calls_started env (turn_ident t) cs s) (\<lambda>_. at_turn v t b (C \<union> call_items cs)) (projected_ok v)"
  using assms
proof (induction cs arbitrary: s C)
  case (Cons c cs)
  let ?C = "insert (Ident (tc_id c)) C"
  note ok = at_turn_ok [OF Cons.prems(1)]
  have frame: "loop_post (tell_sink env (PushStream (tool_emission (turn_ident t) (Ident (tc_id c)) None (ToolCallStarted name input))) s)
      (\<lambda>_. at_turn v t b ?C) (projected_ok v)" for name input
    by (rule post_weaken [OF post_tell_frame [OF Cons.prems(1) frame_call_started]])
      (use Cons.prems at_turn_bound in \<open>auto intro: at_turn_ok\<close>)
  have rest: "loop_post (push_calls_started env (turn_ident t) cs s3) (\<lambda>_. at_turn v t b (C \<union> call_items (c # cs))) (projected_ok v)"
    if "at_turn v t b ?C s3" for s3
    using Cons.IH [OF that] Cons.prems(2,3) by (fastforce simp: call_items_def)
  show ?case
    unfolding push_calls_started.simps
    by (rule post_then [where R = "\<lambda>item s'. s' = s \<and> item = Ident (tc_id c)"])
      (auto intro!: post_pure post_then [where R = "\<lambda>_ s'. s' = s"] post_then [OF frame] rest [simplified] simp: ok dest: stream_item_id_Ok)
qed simp

lemma post_serial:
  assumes "at_turn v t b C s" "call_items cs \<subseteq> C"
  shows "loop_post (execute_tools_serial env (turn_ident t) cs s)
    (\<lambda>rs s'. at_turn v t b C s' \<and> map tm_call_id rs = map tc_id cs) (projected_ok v)"
  using assms
proof (induction cs arbitrary: s)
  case (Cons c cs)
  show ?case
    unfolding execute_tools_serial.simps
  proof (rule post_then [OF post_execute_call [OF Cons.prems(1)]])
    show "Ident (tc_id c) \<in> C" using Cons.prems(2) by simp
    fix r :: tool_result_message and s1 :: "'a turn_loop"
    assume "at_turn v t b C s1 \<and> tm_call_id r = tc_id c"
    with Cons.prems(2) show "loop_post (loop_then (execute_tools_serial env (turn_ident t) cs s1) (\<lambda>rs s2. (Ok (r # rs), s2)))
        (\<lambda>rs s'. at_turn v t b C s' \<and> map tm_call_id rs = map tc_id (c # cs)) (projected_ok v)"
      by (intro post_then [OF Cons.IH]) auto
  qed
qed simp

lemma post_batched:
  assumes "at_turn v t b C s" "call_items (batch @ cs) \<subseteq> C"
  shows "loop_post (execute_tools_batched env (turn_ident t) cs batch s)
    (\<lambda>rs s'. at_turn v t b C s' \<and> map tm_call_id rs = map tc_id (batch @ cs)) (projected_ok v)"
  using assms
proof (induction cs arbitrary: batch s)
  case Nil
  then show ?case by (simp add: post_serial)
next
  case (Cons c cs)
  note ok = at_turn_ok [OF Cons.prems(1)]
  have parallel: "loop_post (execute_tools_batched env (turn_ident t) cs (batch @ [c]) s)
      (\<lambda>rs s'. at_turn v t b C s' \<and> map tm_call_id rs = map tc_id (batch @ c # cs)) (projected_ok v)"
    using Cons.IH [OF Cons.prems(1), of "batch @ [c]"] Cons.prems(2) by simp
  have serial: "loop_post (loop_then (execute_tools_serial env (turn_ident t) batch s) (\<lambda>rs s1.
      loop_then (execute_tool_call env (turn_ident t) c s1) (\<lambda>r s2.
      loop_then (execute_tools_batched env (turn_ident t) cs [] s2) (\<lambda>rest s3. (Ok (rs @ r # rest), s3)))))
      (\<lambda>rs s'. at_turn v t b C s' \<and> map tm_call_id rs = map tc_id (batch @ c # cs)) (projected_ok v)"
  proof (rule post_then [OF post_serial [OF Cons.prems(1)]], use Cons.prems(2) in simp)
    fix rs :: "tool_result_message list" and s1 :: "'a turn_loop"
    assume rs: "at_turn v t b C s1 \<and> map tm_call_id rs = map tc_id batch"
    show "loop_post (loop_then (execute_tool_call env (turn_ident t) c s1) (\<lambda>r s2.
        loop_then (execute_tools_batched env (turn_ident t) cs [] s2) (\<lambda>rest s3. (Ok (rs @ r # rest), s3))))
        (\<lambda>rs s'. at_turn v t b C s' \<and> map tm_call_id rs = map tc_id (batch @ c # cs)) (projected_ok v)"
    proof (rule post_then [OF post_execute_call])
      show "at_turn v t b C s1" "Ident (tc_id c) \<in> C" using rs Cons.prems(2) by simp_all
      fix r :: tool_result_message and s2 :: "'a turn_loop"
      assume r: "at_turn v t b C s2 \<and> tm_call_id r = tc_id c"
      show "loop_post (loop_then (execute_tools_batched env (turn_ident t) cs [] s2) (\<lambda>rest s3. (Ok (rs @ r # rest), s3)))
          (\<lambda>rs s'. at_turn v t b C s' \<and> map tm_call_id rs = map tc_id (batch @ c # cs)) (projected_ok v)"
        by (rule post_then [OF Cons.IH [of s2 "[]"]]) (use r rs Cons.prems(2) in auto)
    qed
  qed
  show ?case
    unfolding execute_tools_batched.simps
    by (rule post_then [where R = "\<lambda>_ s'. s' = s"]) (auto intro!: post_pure parallel [simplified] serial [simplified] simp: ok)
qed

lemma post_tools:
  assumes "at_turn v t b {} s" "distinct (map tc_id cs)"
  shows "loop_post (execute_tools env (turn_ident t) cs s)
    (\<lambda>rs s'. at_turn v t b (call_items cs) s' \<and> map tm_call_id rs = map tc_id cs) (projected_ok v)"
  unfolding execute_tools_def
proof (rule post_then [OF post_calls_started])
  show "at_turn v t b {} s" "distinct (map tc_id cs)" "call_items cs \<inter> {} = {}" using assms by simp_all
  fix x and s1 :: "'a turn_loop"
  assume "at_turn v t b ({} \<union> call_items cs) s1"
  then show "loop_post (if te_parallel env then execute_tools_batched env (turn_ident t) cs [] s1
      else execute_tools_serial env (turn_ident t) cs s1)
      (\<lambda>rs s'. at_turn v t b (call_items cs) s' \<and> map tm_call_id rs = map tc_id cs) (projected_ok v)"
    using post_batched [of v t b "call_items cs" s1 "[]" cs env] post_serial [of v t b "call_items cs" s1 cs env] by simp
qed

lemma post_results:
  assumes "at_turn v t b (Ident ` tm_call_id ` set rs) s" "distinct (map tm_call_id rs)"
  shows "loop_post (push_results env (turn_ident t) rs s) (\<lambda>_. at_turn v t b {}) (projected_ok v)"
  using assms
proof (induction rs arbitrary: s)
  case (Cons r rs)
  let ?C = "Ident ` tm_call_id ` set (r # rs)"
  have rest: "?C - {Ident (tm_call_id r)} = Ident ` tm_call_id ` set rs" using Cons.prems(2) by auto (metis image_eqI)
  let ?s0 = "s\<lparr>tl_session := append_message (tool_message (tm_call_id r) (tm_content r)) (tl_session s)\<rparr>"
  have "at_turn v t b ?C ?s0" using Cons.prems(1) by simp
  note progress = post_weaken [OF post_progress [OF this, of "tm_call_id r"], where E = "projected_ok v"]
  show ?case
    unfolding push_results.simps Let_def
  proof (rule post_then [OF progress])
    fix x and s1 :: "'a turn_loop"
    assume "at_turn v t b ?C s1"
    note ended = post_weaken [OF post_completed [OF this, of "tm_call_id r"], unfolded rest, where E = "projected_ok v"]
    show "loop_post (loop_then (push_tool_frame env (turn_ident t) (tm_call_id r) None (ToolCallCompleted (tm_outcome r)) s1)
        (\<lambda>_ s2. push_results env (turn_ident t) rs s2)) (\<lambda>_. at_turn v t b {}) (projected_ok v)"
      by (rule post_then [OF ended]) (use Cons.IH Cons.prems(2) in \<open>auto intro: at_turn_ok\<close>)
  qed (auto intro: at_turn_ok)
qed simp

section \<open>The turns of a run\<close>

text \<open>Between two turns no tool call of the run is in flight.\<close>

definition settled :: "projection_view \<Rightarrow> 'j turn_loop \<Rightarrow> bool" where
  "settled v s \<longleftrightarrow> (\<exists>t b. at_turn v t b {} s)"

lemma settledI: "at_turn v t b {} s \<Longrightarrow> settled v s"
  by (auto simp: settled_def)

lemma settled_ok: "settled v s \<Longrightarrow> projected_ok v s"
  by (auto simp: settled_def intro: at_turn_ok)

lemma post_settled: "loop_post (tell_sink env c s) (\<lambda>_. settled v) (projected_ok v)" if "settled v s" "neutral c"
proof -
  obtain t b where "at_turn v t b {} s" using \<open>settled v s\<close> by (auto simp: settled_def)
  from post_tell_neutral [OF this \<open>neutral c\<close>] show ?thesis by (rule post_weaken) (auto intro: settledI at_turn_ok)
qed

lemma post_run_tools:
  assumes "at_turn v t b {} s" "distinct (map tc_id cs)"
  shows "loop_post (loop_then (execute_tools env (turn_ident t) cs s) (\<lambda>results s4.
      loop_then (push_results env (turn_ident t) results s4) (\<lambda>_ s5. (Ok False, s5)))) (\<lambda>_. settled v) (projected_ok v)"
proof (rule post_then [OF post_tools [OF assms]])
  fix rs :: "tool_result_message list" and s4 :: "'a turn_loop"
  assume rs: "at_turn v t b (call_items cs) s4 \<and> map tm_call_id rs = map tc_id cs"
  then have "Ident ` tm_call_id ` set rs = call_items cs" by (metis call_items_def list.set_map)
  with rs assms(2) have "at_turn v t b (Ident ` tm_call_id ` set rs) s4" "distinct (map tm_call_id rs)" by simp_all
  then show "loop_post (loop_then (push_results env (turn_ident t) rs s4) (\<lambda>_ s5. (Ok False, s5))) (\<lambda>_. settled v) (projected_ok v)"
    by (intro post_then [OF post_results]) (auto intro: settledI)
qed

lemma post_finish_turn:
  assumes at: "at_turn v t True {} s" and ids: "distinct (map tc_id (ct'_tool_calls x))"
  shows "loop_post (finish_turn env (turn_ident t) x s) (\<lambda>_. settled v) (projected_ok v)"
proof (cases "finalize_tool_calls (ct'_stop_reason x) (ct'_tool_calls x)")
  case (Inl e)
  with at show ?thesis by (auto simp: finish_turn_def loop_pure_def intro!: at_turn_ok [of v t True "{}"])
next
  case (Inr calls)
  have distinct: "distinct (map tc_id calls)" using finalize_distinct [OF Inr ids] .
  have ended: "loop_post (tell_sink env (PushStream (turn_emission (turn_ident t) AssistantTurnCompleted)) s2)
      (\<lambda>_. at_turn v t False {}) (projected_ok v)" if "at_turn v t True {} s2" for s2
    by (rule post_weaken [OF post_tell_frame [OF that frame_turn_completed]]) (auto intro: at_turn_ok)
  have completed: "loop_post (loop_then (tell_sink env (CompleteWithResult d r) s4) (\<lambda>_ s5. (Ok True, s5)))
      (\<lambda>_. settled v) (projected_ok v)" if "at_turn v t False {} s4" for s4 d r
    by (rule post_then [OF post_settled [OF settledI [OF that]]]) simp_all
  show ?thesis
    unfolding finish_turn_def loop_pure_def Inr loop_then_simps Let_def
  proof (rule post_then [OF ended])
    show "at_turn v t True {} (s\<lparr>tl_context_retries := 0, tl_session := y\<rparr>)" for y using at by simp
    fix u and s3 :: "'a turn_loop"
    assume "at_turn v t False {} s3"
    then show "loop_post (if calls = []
          then (if ct'_stop_reason x = StopMaxTokens
                then (if tl_continuation_retries s3 < max_incomplete_continuation_attempts
                      then (Ok False, s3\<lparr>tl_continuation_retries := sat_add (tl_continuation_retries s3) 1\<rparr>)
                      else (Err (ExProcessFailed ''max continuation attempts reached''), s3))
                else (case drain_follow_up_into (te_fetch_follow_up env (tl_sink s3)) (tl_queues s3) (tl_session s3) of
                    (follow_up, q, session) \<Rightarrow>
                      if follow_up \<noteq> [] then (Ok False, s3\<lparr>tl_queues := q, tl_session := session\<rparr>)
                      else loop_then (tell_sink env (CompleteWithResult ''normal end''
                              (case te_output_contract env of None \<Rightarrow> None
                                | Some _ \<Rightarrow> if trim (ct'_assistant_text x) = [] then None
                                    else te_parse_result env (trim (ct'_assistant_text x))))
                            (s3\<lparr>tl_queues := q, tl_session := session\<rparr>)) (\<lambda>_ s5. (Ok True, s5))))
          else loop_then (execute_tools env (turn_ident t) calls (s3\<lparr>tl_continuation_retries := 0\<rparr>)) (\<lambda>results s4.
               loop_then (push_results env (turn_ident t) results s4) (\<lambda>_ s5. (Ok False, s5))))
        (\<lambda>_. settled v) (projected_ok v)"
      by (auto intro: settledI at_turn_ok simp: completed post_run_tools distinct split: prod.split)
  qed
qed

lemma post_begin_turn:
  assumes at: "at_turn v t b {} s" and "t < max_turns"
  shows "loop_post (begin_turn env s) (\<lambda>turn s'. turn = turn_ident (t + 1) \<and> at_turn v (t + 1) True {} s') (projected_ok v)"
proof -
  have turns: "sat_add (tl_turns s) 1 = t + 1"
    using assms sat_add_exact [of "tl_turns s" 1] by (simp add: at_turn_def max_turns_def u64_max_def)
  have projected: "projects v (tl_sink s) (in_turn v t b {})" using at by (simp add: at_turn_def)
  let ?c = "PushStream (turn_emission (turn_ident (t + 1)) AssistantTurnStarted)"
  have frame: "projects v (tl_sink s @ [(?c, True)]) (in_turn v (t + 1) True {})"
    by (rule projects_accepted [OF projected frame_turn_started]) (use assms(2) in simp_all)
  have named: "stream_turn_id (t + 1) = Ok (turn_ident (t + 1))" by (simp add: turn_ident_def)
  have step: "begin_turn env s = loop_then (tell_sink env ?c (s\<lparr>tl_turns := t + 1\<rparr>)) (\<lambda>_ s2. (Ok (turn_ident (t + 1)), s2))"
    unfolding begin_turn_def Let_def turns using named by (simp add: loop_pure_def del: stream_turn_id_Ok)
  show ?thesis
  proof (cases rule: sink_send_cases [of "te_sink env" ?c "tl_sink s"])
    case 1
    with frame assms(2) show ?thesis unfolding step by (simp add: tell_sink_def at_turn_def)
  next
    case (2 e)
    with projects_rejected [OF projected, of ?c] show ?thesis
      unfolding step by (auto simp: tell_sink_def projected_ok_def projects_def)
  qed
qed

lemma post_turn_step:
  assumes settled: "settled v s"
    and names: "\<And>h req events. te_start_stream env h req = Ok events \<Longrightarrow> names_distinct (set (named_calls events))"
  shows "loop_post (turn_step env s) (\<lambda>_. settled v) (projected_ok v)"
proof -
  obtain t b where at: "at_turn v t b {} s" using settled by (auto simp: settled_def)
  define s0 where "s0 = (if tl_turns s > 0
    then (case drain_steering_into (te_fetch_steering env (tl_sink s)) (tl_queues s) (tl_session s) of
            (_, q, session) \<Rightarrow> s\<lparr>tl_queues := q, tl_session := session\<rparr>) else s)"
  have s0: "at_turn v t b {} s0" using at by (auto simp: s0_def split: prod.split)
  have capped: "loop_post (loop_then (tell_sink env (Complete d) s0) (\<lambda>_ s1. (Ok True, s1))) (\<lambda>_. settled v) (projected_ok v)" for d
    by (rule post_then [OF post_settled [OF settledI [OF s0]]]) simp_all
  have streamed: "loop_post (case m of
             ModelStream x \<Rightarrow> finish_turn env (turn_ident u) x s2
           | ModelCompact _ \<Rightarrow> (Ok False, s2)
           | ModelFinish reason \<Rightarrow> loop_then (tell_sink env (Complete reason) s2) (\<lambda>_ s3. (Ok True, s3)))
      (\<lambda>_. settled v) (projected_ok v)"
    if "at_turn v u True {} s2 \<and> (\<forall>r. m = ModelStream r \<longrightarrow> distinct (map tc_id (ct'_tool_calls r)))" for m u s2
    using that post_then [OF post_settled [OF settledI], of v u True s2 "Complete reason" "\<lambda>_ s3. (Ok True, s3)" "\<lambda>_. settled v" env for reason]
    by (cases m) (auto intro: settledI simp: post_finish_turn)
  have streaming: "loop_post (case lock_tool_list_if_unlocked (fst (repair_missing_tool_outputs (tl_session s1))) (tl_registry s1) of
             (session, registry, tools) \<Rightarrow>
               loop_then (stream_turn env tools turn (s1\<lparr>tl_session := session, tl_registry := registry\<rparr>)) (\<lambda>m s2.
                 case m of
                   ModelStream x \<Rightarrow> finish_turn env turn x s2
                 | ModelCompact _ \<Rightarrow> (Ok False, s2)
                 | ModelFinish reason \<Rightarrow> loop_then (tell_sink env (Complete reason) s2) (\<lambda>_ s3. (Ok True, s3))))
      (\<lambda>_. settled v) (projected_ok v)" if "turn = turn_ident u \<and> at_turn v u True {} s1" for turn u s1
    using that by (auto intro!: post_then [OF post_stream_turn streamed] names split: prod.split)
  have ongoing: "t < max_turns" if "\<not> tl_turns s0 \<ge> max_turns" using s0 that by (simp add: at_turn_def)
  show ?thesis
    unfolding turn_step_def s0_def [symmetric] Let_def
    by (auto intro!: capped [simplified] at_turn_ok [OF at_turn_reject [OF s0]]
        post_then [OF post_begin_turn [OF s0 ongoing] streaming [simplified]])
qed

section \<open>The run\<close>

text \<open>The provider gives the different calls of a stream different names.\<close>

definition provider_names_calls :: "'j turn_env \<Rightarrow> bool" where
  "provider_names_calls env \<longleftrightarrow>
     (\<forall>h req events. te_start_stream env h req = Ok events \<longrightarrow> names_distinct (set (named_calls events)))"

lemma post_execute_loop:
  "settled v s \<Longrightarrow> provider_names_calls env \<Longrightarrow> loop_post (execute_loop env s) (\<lambda>_. settled v) (projected_ok v)"
proof (induction env s rule: execute_loop.induct)
  case (1 env s)
  have step: "loop_post (turn_step env s) (\<lambda>_. settled v) (projected_ok v)"
    by (rule post_turn_step [OF "1.prems"(1)]) (use "1.prems"(2) in \<open>auto simp: provider_names_calls_def\<close>)
  obtain r s1 where r: "turn_step env s = (r, s1)" by fastforce
  show ?case
  proof (cases r)
    case (Inl e)
    with step r show ?thesis by (subst execute_loop.simps) simp
  next
    case (Inr finished)
    have "settled v s1" using step r Inr by simp
    with "1.IH" [OF r [symmetric] Inr] "1.prems"(2) r Inr show ?thesis
      by (subst execute_loop.simps) (cases finished, simp_all)
  qed
qed

text \<open>Nothing of a run is in flight before it starts.\<close>

definition nothing_in_flight :: "run_id \<Rightarrow> in_flight \<Rightarrow> bool" where
  "nothing_in_flight run fl \<longleftrightarrow>
     (\<forall>(k, _)\<in>set (fl_turns fl). fst (snd k) \<noteq> run) \<and> (\<forall>(k, _)\<in>set (fl_calls fl). fst (snd k) \<noteq> run)"

lemma starts_settled:
  assumes "nothing_in_flight run fl"
  shows "settled \<lparr>vw_stamp = stamp, vw_session = sid, vw_run = run, vw_start = fl\<rparr> (turn_loop_new run' session queues registry [])"
proof -
  have "\<not> bt_contains (fl_turns fl) (sid, run, u)" "\<not> bt_contains (fl_calls fl) (sid, run, u, item)" for u item
    using assms by (auto simp: nothing_in_flight_def bt_contains_keys)
  then show ?thesis
    by (auto simp: settled_def at_turn_def turn_loop_new_def projects_def in_turn_def later_fresh_def max_turns_def
        intro!: exI [of _ False])
qed

section \<open>An example\<close>

text \<open>A tool that writes files, under a policy that asks for an approval.\<close>

definition write_tool :: "unit tool_descriptor" where
  "write_tool = \<lparr>td_name = ''write'', td_description = ''writes a file'', td_input_schema = (),
     td_approval_scope = Some FileWrite, td_read_only = False, td_parallel_safe = False\<rparr>"

definition asking_context :: execution_context where
  "asking_context = (let path = WorkspacePath ''/w'' in
     \<lparr>ec_workspace_id = Ident ''w'', ec_workspace_root = path, ec_effective_cwd = path, ec_artifact_root = path,
      ec_workspace_scope = ScopeLocal path,
      ec_sandbox_profile = \<lparr>sp_read_roots = [path], sp_write_roots = [path], sp_denied_roots = [],
        sp_process_exec = ExecDenied\<rparr>,
      ec_permission_policy = PermWorkspaceWriteWithApproval, ec_network_policy = NetNone, ec_env_policy = EnvAll\<rparr>)"

text \<open>A model that calls the tool once and then says that it is done; the call is approved.\<close>

definition example_env :: "unit turn_env" where
  "example_env = \<lparr>te_sink = (\<lambda>_ _. None), te_model = ''m'', te_context = asking_context, te_output_contract = None,
     te_parallel = False,
     te_start_stream = (\<lambda>h _. Ok (if length h = 1
       then [Ok (SvToolCallStarted ''c1'' 0 ''write''), Ok SvToolCallBatchCompleted, Ok (SvTurnCompleted StopToolCalls None)]
       else [Ok (SvAssistantTextDelta ''done''), Ok (SvTurnCompleted StopEndTurn None)])),
     te_cancelled = (\<lambda>_. False), te_fetch_steering = (\<lambda>_. []), te_fetch_follow_up = (\<lambda>_. []),
     te_parse = (\<lambda>_. Ok ()), te_print = (\<lambda>_. Ok ''{}''), te_null = (), te_empty_object = (), te_parse_result = (\<lambda>_. None),
     te_run_tool = (\<lambda>_ _ _ _. Ok ()), te_duration_ms = (\<lambda>_ _. 1), te_result_text = (\<lambda>_ _ _. ''ok''),
     te_decode_patch = (\<lambda>_. Ok []), te_decode_shell = (\<lambda>_. Ok (False, [], [])), te_write_patch = (\<lambda>_ _. Ok ''p''),
     te_write_log = (\<lambda>_ _ _. Ok ''l''), te_uuid = (\<lambda>_. ''u''), te_now = (\<lambda>_. 5), te_answer = (\<lambda>_ _. Some Approved)\<rparr>"

definition example_run :: "(unit, unit) loop_run" where
  "example_run = run_turn_loop example_env (Ident ''run'') (session_from_history [user_message ''q''] None) message_queue_new
     (registry_insert write_tool registry_new) []"

text \<open>
  C6. Everything a native run streams is accepted by the projection of agent turns, in the order
  the run sends it and whatever the model, the tools, the approvals and the sink do, when nothing
  of the run was in flight before and every stream gives different calls different names; and
  when the run ends without an error, every tool call it started has been completed.
\<close>

theorem native_stream_is_accepted:
  assumes "provider_names_calls env" and "nothing_in_flight run before"
    and "run_turn_loop env run session queues registry [] = (r, s)"
  shows "\<exists>fl. project_calls stamp sid run 0 (accepted (tl_sink s)) before = Ok fl \<and>
    (r = Ok () \<longrightarrow> (\<forall>turn item. \<not> bt_contains (fl_calls fl) (sid, run, turn, item)))"
proof -
  let ?v = "\<lparr>vw_stamp = stamp, vw_session = sid, vw_run = run, vw_start = before\<rparr>"
  have post: "loop_post (r, s) (\<lambda>_. settled ?v) (projected_ok ?v)"
    unfolding assms(3) [symmetric] run_turn_loop_def by (rule post_execute_loop [OF starts_settled [OF assms(2)] assms(1)])
  show ?thesis
  proof (cases r)
    case (Inl e)
    with post show ?thesis by (auto simp: projected_ok_def projects_def)
  next
    case (Inr u)
    with post show ?thesis by (auto simp: settled_def at_turn_def projects_def in_turn_def)
  qed
qed

theorem native_stream_is_accepted_witness:
  "provider_names_calls example_env \<and> nothing_in_flight (Ident ''run'') \<lparr>fl_turns = [], fl_calls = []\<rparr> \<and>
   (\<exists>fl. project_calls (\<lambda>n. (n, n)) (Ident ''s'') (Ident ''run'') 0 (accepted (tl_sink (snd example_run)))
      \<lparr>fl_turns = [], fl_calls = []\<rparr> = Ok fl)"
proof -
  have names: "provider_names_calls example_env"
    by (auto simp: provider_names_calls_def example_env_def names_distinct_def)
  have fresh: "nothing_in_flight (Ident ''run'') \<lparr>fl_turns = [], fl_calls = []\<rparr>" by (simp add: nothing_in_flight_def)
  have run: "run_turn_loop example_env (Ident ''run'') (session_from_history [user_message ''q''] None) message_queue_new
      (registry_insert write_tool registry_new) [] = (fst example_run, snd example_run)"
    by (simp add: example_run_def)
  from native_stream_is_accepted [OF names fresh run, of "\<lambda>n. (n, n)" "Ident ''s''"] names fresh show ?thesis by blast
qed

end
