(* ===== verification/TurnLoopSafety.thy ===== *)
theory TurnLoopSafety
  imports TurnLoopStream
begin

text \<open>
  Which tools the loop runs: the record of the tools that were run is compared with the policy of
  the execution context and with the approvals the sink was asked for.
\<close>

text \<open>
  From one state to a later one: the tools stay, the sink is told more, and what was run in between
  was permitted.
\<close>

definition goes_on :: "'j turn_env \<Rightarrow> 'j turn_loop \<Rightarrow> 'j turn_loop \<Rightarrow> bool" where
  "goes_on env s s' \<longleftrightarrow> rg_tools (tl_registry s') = rg_tools (tl_registry s) \<and>
     (\<exists>more. tl_sink s' = tl_sink s @ more) \<and>
     (\<exists>runs. tl_tool_runs s' = tl_tool_runs s @ runs \<and>
        list_all (permitted env (rg_tools (tl_registry s)) (tl_sink s')) runs)"

lemma goes_refl: "goes_on env s s"
  by (simp add: goes_on_def)

lemma goes_trans:
  assumes "goes_on env s s1" "goes_on env s1 s2" shows "goes_on env s s2"
proof -
  obtain m1 r1 where 1: "tl_sink s1 = tl_sink s @ m1" "tl_tool_runs s1 = tl_tool_runs s @ r1"
      "list_all (permitted env (rg_tools (tl_registry s)) (tl_sink s1)) r1" "rg_tools (tl_registry s1) = rg_tools (tl_registry s)"
    using assms(1) by (auto simp: goes_on_def)
  obtain m2 r2 where 2: "tl_sink s2 = tl_sink s1 @ m2" "tl_tool_runs s2 = tl_tool_runs s1 @ r2"
      "list_all (permitted env (rg_tools (tl_registry s1)) (tl_sink s2)) r2" "rg_tools (tl_registry s2) = rg_tools (tl_registry s1)"
    using assms(2) by (auto simp: goes_on_def)
  have "list_all (permitted env (rg_tools (tl_registry s)) (tl_sink s2)) r1"
    using 1(3) unfolding 2(1) list_all_iff by (blast intro: permitted_later)
  with 1 2 show ?thesis by (simp add: goes_on_def)
qed

interpretation going: loop_relation env "goes_on env" for env
  by unfold_locales (erule (1) goes_trans | simp add: goes_on_def)+

text \<open>The steps of the loop and the loop.\<close>

lemma goes_begin_turn: "goes_on env s (snd (begin_turn env s))"
proof -
  let ?s0 = "s\<lparr>tl_turns := sat_add (tl_turns s) 1\<rparr>"
  have "goes_on env s (snd (tell_sink env c ?s0))" for c
    by (cases rule: sink_send_cases [of "te_sink env" c "tl_sink s"]) (simp_all add: tell_sink_def goes_on_def)
  moreover have "goes_on env s ?s0" by (simp add: goes_on_def)
  ultimately show ?thesis
    unfolding begin_turn_def Let_def stream_turn_id_Ok
    by (auto simp: loop_pure_def loop_then_def split: sum.split prod.split) (metis snd_conv)+
qed

lemma goes_turn_step: "goes_on env s (snd (turn_step env s))"
proof -
  define s0 where "s0 = (if tl_turns s > 0
    then (case drain_steering_into (te_fetch_steering env (tl_sink s)) (tl_queues s) (tl_session s) of
            (_, q, session) \<Rightarrow> s\<lparr>tl_queues := q, tl_session := session\<rparr>) else s)"
  have s0: "goes_on env s s0" by (simp add: s0_def goes_on_def split: prod.split)
  have ended: "goes_on env s0 (snd (loop_then (tell_sink env (Complete d) s0) (\<lambda>_ s1. (Ok True, s1))))" for d
    by (rule going.then_related [OF going.tell_related]) (simp_all add: goes_refl)
  have turn: "goes_on env s0 (snd (loop_then (begin_turn env s0) (\<lambda>turn s1.
      case lock_tool_list_if_unlocked (fst (repair_missing_tool_outputs (tl_session s1))) (tl_registry s1) of
        (session, registry, tools) \<Rightarrow>
          loop_then (stream_turn env tools turn (s1\<lparr>tl_session := session, tl_registry := registry\<rparr>)) (\<lambda>m s2.
            case m of
              ModelStream t \<Rightarrow> finish_turn env turn t s2
            | ModelCompact _ \<Rightarrow> (Ok False, s2)
            | ModelFinish reason \<Rightarrow> loop_then (tell_sink env (Complete reason) s2) (\<lambda>_ s3. (Ok True, s3))))))"
    by (rule going.then_related [OF goes_begin_turn going.turn_body_related])
  show ?thesis
    unfolding turn_step_def s0_def [symmetric] Let_def
    using goes_trans [OF s0 ended] goes_trans [OF s0 turn] goes_trans [OF s0 going.reject_related] by simp
qed

lemma goes_execute_loop: "goes_on env s (snd (execute_loop env s))"
proof (induction env s rule: execute_loop.induct)
  case (1 env s)
  obtain r s1 where step: "turn_step env s = (r, s1)" by fastforce
  then have s1: "goes_on env s s1" using goes_turn_step by (metis snd_conv)
  show ?case
  proof (cases "r = Ok False")
    case True
    then have "execute_loop env s = execute_loop env s1" using step by (subst execute_loop.simps) simp
    with goes_trans [OF s1 "1.IH" [OF step [symmetric] True]] show ?thesis by simp
  next
    case False
    then have "snd (execute_loop env s) = s1" using step by (subst execute_loop.simps) (auto split: sum.split)
    with s1 show ?thesis by simp
  qed
qed

section \<open>The example\<close>

lemma example_env_fields:
  "te_sink example_env = (\<lambda>_ _. None)" "te_context example_env = asking_context" "te_output_contract example_env = None"
  "te_parallel example_env = False"
  "te_start_stream example_env = (\<lambda>h _. Ok (if length h = 1
       then [Ok (SvToolCallStarted ''c1'' 0 ''write''), Ok SvToolCallBatchCompleted, Ok (SvTurnCompleted StopToolCalls None)]
       else [Ok (SvAssistantTextDelta ''done''), Ok (SvTurnCompleted StopEndTurn None)]))"
  "te_cancelled example_env = (\<lambda>_. False)" "te_fetch_steering example_env = (\<lambda>_. [])" "te_fetch_follow_up example_env = (\<lambda>_. [])"
  "te_parse example_env = (\<lambda>_. Ok ())" "te_print example_env = (\<lambda>_. Ok ''{}'')" "te_null example_env = ()" "te_empty_object example_env = ()"
  "te_run_tool example_env = (\<lambda>_ _ _ _. Ok ())" "te_duration_ms example_env = (\<lambda>_ _. 1)" "te_result_text example_env = (\<lambda>_ _ _. ''ok'')"
  "te_uuid example_env = (\<lambda>_. ''u'')" "te_now example_env = (\<lambda>_. 5)" "te_answer example_env = (\<lambda>_ _. Some Approved)"
  by (simp_all add: example_env_def)

definition example_start :: "unit turn_loop" where
  "example_start = turn_loop_new (Ident ''run'') (session_from_history [user_message ''q''] None) message_queue_new
     (registry_insert write_tool registry_new) []"

lemma trim_Nil: "trim [] = []"
  by code_simp

lemma example_texts:
  "\<not> blank ''c1''" "\<not> blank ''approval-u''" "\<not> blank ''tool write writes to the workspace''"
  using solid_not_blank [of "CHR ''c''"] solid_not_blank [of "CHR ''a''"] solid_not_blank [of "CHR ''t''"]
  by (simp_all add: solid_def white_space_def)

text \<open>The first turn asks for the approval, is given it, and runs the tool.\<close>

lemma example_step: "case turn_step example_env example_start of (r, s1) \<Rightarrow> r = Ok False \<and> tl_tool_runs s1 = [(''write'', ''c1'')]"
  by (simp add: turn_step_def example_start_def turn_loop_new_def example_env_fields max_turns_def begin_turn_def Let_def
     loop_pure_def sat_add_def u64_max_def tell_sink_def sink_send_def session_from_history_def repair_missing_tool_outputs_def
     missing_tool_results_def called_ids_def answered_ids_def user_message_def map_filter_simps lock_tool_list_if_unlocked_def
     lock_tool_list_def registry_insert_def registry_new_def write_tool_def stream_turn_def collect_turn_def registry_descriptors_def bt_put_def
     tool_call_new_def example_texts trim_Nil finish_turn_def finalize_tool_calls_def assistant_message_def append_message_def execute_tools_def
     stream_item_id_def or_process_failed_def ident_new_def default_interactive_def default_approval_ttl_ms_def
     execute_tool_call_def operation_new_def evaluate_execution_context_def denied_reason_def asking_context_def context_approval_reason_def
     request_approval_of_def bridge_request_def approval_bridge_new_def approval_request_new_def expires_at_ms_def insert_pending_def request_with_tool_call_id_def
     wait_for_approval_def runtime_resolution_def resolve_from_runtime_def resolve_once_def send_to_waiter_def bridge_wait_def
     run_allowed_tool_def record_tool_artifact_def tool_result_def push_tool_frame_def)

lemma example_runs_tool: "(''write'', ''c1'') \<in> set (tl_tool_runs (snd example_run))"
proof -
  obtain s1 where step: "turn_step example_env example_start = (Ok False, s1)" "tl_tool_runs s1 = [(''write'', ''c1'')]"
    using example_step by (auto split: prod.splits)
  then have "example_run = execute_loop example_env s1"
    unfolding example_run_def run_turn_loop_def example_start_def [symmetric] by (subst execute_loop.simps) simp
  with goes_execute_loop [of example_env s1] step(2) show ?thesis by (auto simp: goes_on_def)
qed

text \<open>After an earlier call to the sink the model only says that it is done, and the first turn ends the loop.\<close>

lemma example_ends:
  "fst (run_turn_loop example_env (Ident ''run'') (session_from_history [user_message ''q''] None) message_queue_new registry_new
     [(PushActivity ''a'', True)]) = Ok ()"
  unfolding run_turn_loop_def
  by (subst execute_loop.simps)
    (simp add: turn_step_def turn_loop_new_def example_env_fields max_turns_def begin_turn_def Let_def
     loop_pure_def sat_add_def u64_max_def tell_sink_def sink_send_def session_from_history_def repair_missing_tool_outputs_def
     missing_tool_results_def called_ids_def answered_ids_def user_message_def map_filter_simps lock_tool_list_if_unlocked_def
     lock_tool_list_def registry_new_def stream_turn_def collect_turn_def registry_descriptors_def finish_turn_def
     finalize_tool_calls_def assistant_message_def append_message_def drain_follow_up_into_def message_queue_new_def drain_queue_def
     append_messages_def)

theorem turn_limit_holds_witness:
  "\<exists>s' before c. run_turn_loop example_env (Ident ''run'') (session_from_history [user_message ''q''] None) message_queue_new registry_new
     [(PushActivity ''a'', True)] = (Ok (), s') \<and> tl_sink s' = before @ [(c, True)] \<and> is_completion c"
proof -
  obtain r s' where run: "run_turn_loop example_env (Ident ''run'') (session_from_history [user_message ''q''] None) message_queue_new
      registry_new [(PushActivity ''a'', True)] = (r, s')"
    and ends: "r = Ok () \<longrightarrow> (\<exists>before c. tl_sink s' = before @ [(c, True)] \<and> is_completion c)"
    using turn_limit_holds [of example_env "Ident ''run''" "session_from_history [user_message ''q''] None" message_queue_new
      registry_new "[(PushActivity ''a'', True)]"] by blast
  moreover have "r = Ok ()" using example_ends run by simp
  ultimately show ?thesis by blast
qed

text \<open>
  C39. Only permitted tools run: whatever the model asks for, every tool a run has called is in the
  registry, is not denied by the execution context of the run, and, when the context asks for an
  approval, its call was sent to the sink for approval before it ran and was approved.
\<close>

theorem only_permitted_tools_run:
  assumes "run_turn_loop env run session queues registry h = (r, s)" and "call \<in> set (tl_tool_runs s)"
  shows "permitted env (rg_tools registry) (tl_sink s) call"
proof -
  have "goes_on env (turn_loop_new run session queues registry h) s"
    using goes_execute_loop [of env "turn_loop_new run session queues registry h"] assms(1) by (simp add: run_turn_loop_def)
  with assms(2) show ?thesis by (auto simp: goes_on_def turn_loop_new_def list_all_iff)
qed

theorem only_permitted_tools_run_witness:
  "permitted example_env (rg_tools (registry_insert write_tool registry_new)) (tl_sink (snd example_run)) (''write'', ''c1'')"
proof -
  have "run_turn_loop example_env (Ident ''run'') (session_from_history [user_message ''q''] None) message_queue_new
      (registry_insert write_tool registry_new) [] = (fst example_run, snd example_run)"
    by (simp add: example_run_def)
  from only_permitted_tools_run [OF this example_runs_tool] show ?thesis .
qed

end
