(* ===== verification/ActiveExecution.thy ===== *)
theory ActiveExecution
  imports Wire
begin

text \<open>
  The table of live executions (\<open>crates/ta-orchestrator/src/orchestration/service/active_execution.rs\<close>):
  which runs this process executes, for which session, and the handle through which a running
  agent is cancelled and told about approvals. The mutex makes every access one step; the calls
  of a handle that a step decides on are kept in \<open>ao_cancelled\<close> and \<open>ao_resolved\<close>, in their
  order. \<open>cancel_run\<close> waits for a handle with the lock released, so its loop is a sequence of
  looks with steps of other threads between them (\<open>cancel_look\<close>; the loop itself, with its
  deadline, is part of the theory \<open>RunExecution\<close>).
\<close>

section \<open>State and operations\<close>

record 'h active_execution =
  ax_session_id :: session_id
  ax_handle :: "'h option"
  ax_cancel_requested :: bool
  ax_cancel_delivered :: bool

record 'h active_execution_owner =
  ao_entries :: "(run_id, 'h active_execution) btree"
  ao_cancelled :: "'h list"
  ao_resolved :: "('h \<times> approval_resolution) list"

datatype attach_handle_disposition = Attached | CancelRequested

definition active_execution_owner_new :: "'h active_execution_owner" where
  "active_execution_owner_new = \<lparr>ao_entries = [], ao_cancelled = [], ao_resolved = []\<rparr>"

definition claim_run :: "run_id \<Rightarrow> session_id \<Rightarrow> 'h active_execution_owner \<Rightarrow> 'h active_execution_owner" where
  "claim_run i s ow = ow\<lparr>ao_entries := bt_put i
     \<lparr>ax_session_id = s, ax_handle = None, ax_cancel_requested = False, ax_cancel_delivered = False\<rparr>
     (ao_entries ow)\<rparr>"

text \<open>\<open>handle.cancel()\<close> with the error text of its callers; \<open>cancel\<close> is what the handle answers.\<close>

definition deliver_cancel :: "('h \<Rightarrow> (unit, string) result) \<Rightarrow> run_id \<Rightarrow> 'h \<Rightarrow> 'h active_execution_owner \<Rightarrow>
    'h active_execution_owner \<times> (unit, string) result" where
  "deliver_cancel cancel i h ow =
     (ow\<lparr>ao_cancelled := ao_cancelled ow @ [h]\<rparr>,
      case cancel h of
        Inl e \<Rightarrow> Err (''failed to cancel run '' @ as_str i @ '': '' @ e)
      | Inr u \<Rightarrow> Ok ())"

definition attach_handle :: "('h \<Rightarrow> (unit, string) result) \<Rightarrow> run_id \<Rightarrow> 'h \<Rightarrow> 'h active_execution_owner \<Rightarrow>
    'h active_execution_owner \<times> (attach_handle_disposition, string) result" where
  "attach_handle cancel i h ow =
     (case bt_get (ao_entries ow) i of
        None \<Rightarrow> (ow, Err (''active execution missing while attaching handle for '' @ as_str i))
      | Some x \<Rightarrow>
          let pending_cancel = ax_cancel_requested x \<and> \<not> ax_cancel_delivered x;
              x' = x\<lparr>ax_cancel_delivered := ax_cancel_delivered x \<or> pending_cancel, ax_handle := Some h\<rparr>;
              ow' = ow\<lparr>ao_entries := bt_put i x' (ao_entries ow)\<rparr>
          in if pending_cancel
             then (case deliver_cancel cancel i h ow' of
                 (ow'', Inl e) \<Rightarrow> (ow'', Err e)
               | (ow'', Inr u) \<Rightarrow> (ow'', Ok CancelRequested))
             else (ow', Ok Attached))"

definition is_running_owned_by :: "run_id \<Rightarrow> session_id \<Rightarrow> 'h active_execution_owner \<Rightarrow> bool" where
  "is_running_owned_by i s ow = some_and (\<lambda>x. ax_session_id x = s) (bt_get (ao_entries ow) i)"

definition release_run :: "run_id \<Rightarrow> 'h active_execution_owner \<Rightarrow> 'h active_execution_owner \<times> bool" where
  "release_run i ow = (ow\<lparr>ao_entries := bt_del i (ao_entries ow)\<rparr>, bt_contains (ao_entries ow) i)"

definition active_count :: "'h active_execution_owner \<Rightarrow> nat" where
  "active_count ow = length (ao_entries ow)"

text \<open>What one look of the loop of \<open>cancel_run\<close> finds, before it waits or leaves the loop.\<close>

datatype 'h cancel_look_result = LookFailed string | LookNoHandle | LookDelivered | LookDeliver 'h

definition cancel_look :: "run_id \<Rightarrow> session_id \<Rightarrow> 'h active_execution_owner \<Rightarrow>
    'h active_execution_owner \<times> 'h cancel_look_result" where
  "cancel_look i s ow =
     (case bt_get (ao_entries ow) i of
        None \<Rightarrow> (ow, LookFailed (''active execution missing while cancelling '' @ as_str i))
      | Some x \<Rightarrow>
          if ax_session_id x \<noteq> s
          then (ow, LookFailed (''run '' @ as_str i @ '' is not owned by session '' @ as_str s))
          else
            let x1 = x\<lparr>ax_cancel_requested := True\<rparr>
            in (case ax_handle x1 of
                  None \<Rightarrow> (ow\<lparr>ao_entries := bt_put i x1 (ao_entries ow)\<rparr>, LookNoHandle)
                | Some h \<Rightarrow>
                    if ax_cancel_delivered x1
                    then (ow\<lparr>ao_entries := bt_put i x1 (ao_entries ow)\<rparr>, LookDelivered)
                    else (ow\<lparr>ao_entries := bt_put i (x1\<lparr>ax_cancel_delivered := True\<rparr>) (ao_entries ow)\<rparr>,
                          LookDeliver h)))"

definition resolve_approval :: "('h \<Rightarrow> approval_resolution \<Rightarrow> (unit, string) result) \<Rightarrow> run_id \<Rightarrow> session_id \<Rightarrow>
    approval_resolution \<Rightarrow> 'h active_execution_owner \<Rightarrow>
    'h active_execution_owner \<times> (unit, string) result" where
  "resolve_approval resolve i s resolution ow =
     (case bt_get (ao_entries ow) i of
        None \<Rightarrow> (ow, Err (''active execution missing while resolving approval for '' @ as_str i))
      | Some x \<Rightarrow>
          if ax_session_id x \<noteq> s
          then (ow, Err (''run '' @ as_str i @ '' is not owned by session '' @ as_str s))
          else (case ax_handle x of
              None \<Rightarrow> (ow, Err (''active execution handle missing while resolving approval for '' @ as_str i))
            | Some h \<Rightarrow>
                (ow\<lparr>ao_resolved := ao_resolved ow @ [(h, resolution)]\<rparr>,
                 case resolve h resolution of
                   Inl e \<Rightarrow> Err (''failed to resolve approval for '' @ as_str i @ '': '' @ e)
                 | Inr u \<Rightarrow> Ok ())))"

text \<open>\<open>Drop for ActiveExecutionStore\<close>: every handle still in the table is cancelled.\<close>

definition drop_executions :: "'h active_execution_owner \<Rightarrow> 'h list" where
  "drop_executions ow = map the (filter (\<lambda>h. h \<noteq> None) (map ax_handle (bt_values (ao_entries ow))))"

section \<open>A cancellation reaches the handle\<close>

text \<open>
  The accesses of all threads in the order of the lock, and what a history of them says of a
  run, latest access first: who owns it, which handle it has, whether its owner asked for its
  cancellation.
\<close>

datatype 'h execution_access =
    AccessClaim run_id session_id
  | AccessAttach run_id 'h
  | AccessRelease run_id
  | AccessCancel run_id session_id
  | AccessResolve run_id session_id approval_resolution

text \<open>A look that finds a handle to cancel calls it, with the lock released.\<close>

definition look_and_cancel :: "('h \<Rightarrow> (unit, string) result) \<Rightarrow> run_id \<Rightarrow> session_id \<Rightarrow>
    'h active_execution_owner \<Rightarrow> 'h active_execution_owner" where
  "look_and_cancel cancel i s ow =
     (case cancel_look i s ow of
        (ow', LookDeliver h) \<Rightarrow> fst (deliver_cancel cancel i h ow')
      | (ow', look) \<Rightarrow> ow')"

fun run_access :: "('h \<Rightarrow> (unit, string) result) \<Rightarrow> ('h \<Rightarrow> approval_resolution \<Rightarrow> (unit, string) result) \<Rightarrow>
    'h execution_access \<Rightarrow> 'h active_execution_owner \<Rightarrow> 'h active_execution_owner" where
  "run_access cancel resolve (AccessClaim i s) ow = claim_run i s ow"
| "run_access cancel resolve (AccessAttach i h) ow = fst (attach_handle cancel i h ow)"
| "run_access cancel resolve (AccessRelease i) ow = fst (release_run i ow)"
| "run_access cancel resolve (AccessCancel i s) ow = look_and_cancel cancel i s ow"
| "run_access cancel resolve (AccessResolve i s v) ow = fst (resolve_approval resolve i s v ow)"

fun owner_in :: "'h execution_access list \<Rightarrow> run_id \<Rightarrow> session_id option" where
  "owner_in [] i = None"
| "owner_in (AccessClaim j s # past) i = (if j = i then Some s else owner_in past i)"
| "owner_in (AccessRelease j # past) i = (if j = i then None else owner_in past i)"
| "owner_in (_ # past) i = owner_in past i"

fun handle_in :: "'h execution_access list \<Rightarrow> run_id \<Rightarrow> 'h option" where
  "handle_in [] i = None"
| "handle_in (AccessClaim j s # past) i = (if j = i then None else handle_in past i)"
| "handle_in (AccessRelease j # past) i = (if j = i then None else handle_in past i)"
| "handle_in (AccessAttach j h # past) i = (if j = i \<and> owner_in past i \<noteq> None then Some h else handle_in past i)"
| "handle_in (_ # past) i = handle_in past i"

fun asked_in :: "'h execution_access list \<Rightarrow> run_id \<Rightarrow> bool" where
  "asked_in [] i = False"
| "asked_in (AccessClaim j s # past) i = (j \<noteq> i \<and> asked_in past i)"
| "asked_in (AccessRelease j # past) i = (j \<noteq> i \<and> asked_in past i)"
| "asked_in (AccessCancel j s # past) i = (j = i \<and> owner_in past i = Some s \<or> asked_in past i)"
| "asked_in (_ # past) i = asked_in past i"

fun attached_in :: "'h execution_access list \<Rightarrow> 'h set" where
  "attached_in [] = {}"
| "attached_in (AccessAttach j h # past) = insert h (attached_in past)"
| "attached_in (_ # past) = attached_in past"

text \<open>Every handle is attached once, to a run that has none: one agent is started per claim.\<close>

fun attached_once :: "'h execution_access list \<Rightarrow> bool" where
  "attached_once [] = True"
| "attached_once (AccessAttach j h # past) = (h \<notin> attached_in past \<and> handle_in past j = None \<and> attached_once past)"
| "attached_once (_ # past) = attached_once past"

definition entry_in :: "'h execution_access list \<Rightarrow> run_id \<Rightarrow> 'h active_execution option" where
  "entry_in past i = map_option (\<lambda>s. \<lparr>ax_session_id = s, ax_handle = handle_in past i,
     ax_cancel_requested = asked_in past i,
     ax_cancel_delivered = (asked_in past i \<and> handle_in past i \<noteq> None)\<rparr>) (owner_in past i)"

definition table_tracks :: "'h execution_access list \<Rightarrow> 'h active_execution_owner \<Rightarrow> bool" where
  "table_tracks past ow \<longleftrightarrow>
     (\<forall>i. bt_get (ao_entries ow) i = entry_in past i) \<and>
     distinct (ao_cancelled ow) \<and> set (ao_cancelled ow) \<subseteq> attached_in past \<and>
     (\<forall>i h. handle_in past i = Some h \<longrightarrow> (h \<in> set (ao_cancelled ow)) = asked_in past i)"

lemma unowned: "owner_in past i = None \<Longrightarrow> handle_in past i = None \<and> \<not> asked_in past i"
  by (induction past i rule: owner_in.induct) (auto split: if_splits)

lemma handle_attached: "handle_in past i = Some h \<Longrightarrow> h \<in> attached_in past"
  by (induction past i rule: handle_in.induct) (auto split: if_splits)

lemma handle_of_one_run:
  "attached_once past \<Longrightarrow> handle_in past i = Some h \<Longrightarrow> handle_in past j = Some h \<Longrightarrow> i = j"
proof (induction past)
  case (Cons a past)
  show ?case
  proof (cases a)
    case (AccessAttach k g)
    have "g \<notin> attached_in past" using Cons.prems AccessAttach by simp
    then have "handle_in past j \<noteq> Some g" for j using handle_attached by metis
    with Cons AccessAttach show ?thesis by (simp split: if_splits)
  qed (use Cons in \<open>simp_all split: if_splits\<close>)
qed simp

lemma attach_effect:
  assumes "bt_get (ao_entries ow) i = Some \<lparr>ax_session_id = s, ax_handle = None,
    ax_cancel_requested = asked, ax_cancel_delivered = False\<rparr>"
  shows "fst (attach_handle cancel i h ow) = ow\<lparr>ao_entries := bt_put i \<lparr>ax_session_id = s,
      ax_handle = Some h, ax_cancel_requested = asked, ax_cancel_delivered = asked\<rparr> (ao_entries ow),
    ao_cancelled := ao_cancelled ow @ (if asked then [h] else [])\<rparr>"
  using assms by (cases "cancel h") (simp_all add: attach_handle_def deliver_cancel_def Let_def)

lemma cancel_effect:
  assumes "bt_get (ao_entries ow) i = Some \<lparr>ax_session_id = s, ax_handle = ho,
    ax_cancel_requested = asked, ax_cancel_delivered = (asked \<and> ho \<noteq> None)\<rparr>"
  shows "look_and_cancel cancel i s ow = ow\<lparr>ao_entries := bt_put i \<lparr>ax_session_id = s,
      ax_handle = ho, ax_cancel_requested = True, ax_cancel_delivered = (ho \<noteq> None)\<rparr> (ao_entries ow),
    ao_cancelled := ao_cancelled ow @ (case ho of None \<Rightarrow> [] | Some h \<Rightarrow> if asked then [] else [h])\<rparr>"
  using assms
  by (cases ho) (simp_all add: look_and_cancel_def cancel_look_def deliver_cancel_def Let_def)

lemma access_tracked:
  assumes tr: "table_tracks past ow" and once: "attached_once (a # past)"
  shows "table_tracks (a # past) (run_access cancel resolve a ow)"
proof (cases a)
  case (AccessClaim i s)
  with tr show ?thesis by (simp add: table_tracks_def claim_run_def entry_in_def)
next
  case (AccessRelease i)
  with tr show ?thesis by (simp add: table_tracks_def release_run_def entry_in_def)
next
  case (AccessResolve i s v)
  then have "ao_entries (run_access cancel resolve a ow) = ao_entries ow"
    "ao_cancelled (run_access cancel resolve a ow) = ao_cancelled ow"
    by (simp_all add: resolve_approval_def split: option.splits)
  with tr AccessResolve show ?thesis by (simp add: table_tracks_def entry_in_def)
next
  case (AccessAttach i h)
  have get: "bt_get (ao_entries ow) i = entry_in past i" using tr by (simp add: table_tracks_def)
  have fresh: "h \<notin> attached_in past" "handle_in past i = None" using once AccessAttach by simp_all
  show ?thesis
  proof (cases "owner_in past i")
    case None
    then have "run_access cancel resolve a ow = ow"
      using AccessAttach get by (simp add: attach_handle_def entry_in_def)
    moreover have "entry_in (a # past) = entry_in past"
      using None AccessAttach by (auto simp: entry_in_def fun_eq_iff)
    moreover have "handle_in (a # past) = handle_in past"
      using None AccessAttach by (auto simp: fun_eq_iff)
    ultimately show ?thesis using tr AccessAttach by (auto simp: table_tracks_def)
  next
    case (Some s)
    then have e: "entry_in past i = Some \<lparr>ax_session_id = s, ax_handle = None,
        ax_cancel_requested = asked_in past i, ax_cancel_delivered = False\<rparr>"
      using fresh by (simp add: entry_in_def)
    have "h \<notin> set (ao_cancelled ow)" using tr fresh by (auto simp: table_tracks_def)
    with tr AccessAttach Some fresh show ?thesis
      by (auto simp: table_tracks_def attach_effect [OF get [unfolded e]] entry_in_def dest: handle_attached)
  qed
next
  case (AccessCancel i s)
  have get: "bt_get (ao_entries ow) i = entry_in past i" using tr by (simp add: table_tracks_def)
  show ?thesis
  proof (cases "owner_in past i = Some s")
    case False
    then have "run_access cancel resolve a ow = ow"
      using AccessCancel get
      by (auto simp: look_and_cancel_def cancel_look_def entry_in_def split: option.splits)
    moreover have "asked_in (a # past) = asked_in past" using False AccessCancel by (auto simp: fun_eq_iff)
    ultimately show ?thesis using tr AccessCancel by (auto simp: table_tracks_def entry_in_def)
  next
    case True
    then have e: "entry_in past i = Some \<lparr>ax_session_id = s, ax_handle = handle_in past i,
        ax_cancel_requested = asked_in past i,
        ax_cancel_delivered = (asked_in past i \<and> handle_in past i \<noteq> None)\<rparr>"
      by (simp add: entry_in_def)
    note eff = cancel_effect [OF get [unfolded e]]
    have once': "attached_once past" using once AccessCancel by simp
    show ?thesis
    proof (cases "handle_in past i")
      case None
      with tr True AccessCancel eff show ?thesis by (auto simp: table_tracks_def entry_in_def)
    next
      case (Some h)
      have one: "j = i" if "handle_in past j = Some h" for j
        using handle_of_one_run [OF once' that Some] .
      have mem: "h \<in> attached_in past" using Some by (rule handle_attached)
      show ?thesis
      proof (cases "asked_in past i")
        case asked: True
        with tr True Some AccessCancel eff show ?thesis by (auto simp: table_tracks_def entry_in_def)
      next
        case False
        then have "h \<notin> set (ao_cancelled ow)" using tr Some by (auto simp: table_tracks_def)
        moreover have "(g \<in> set (ao_cancelled ow @ [h])) = (j = i \<or> asked_in past j)"
          if "handle_in past j = Some g" for j g
        proof (cases "j = i")
          case True
          with that Some show ?thesis by simp
        next
          case other: False
          with that one have "g \<noteq> h" by blast
          moreover have "(g \<in> set (ao_cancelled ow)) = asked_in past j" using that tr by (simp add: table_tracks_def)
          ultimately show ?thesis using other by simp
        qed
        moreover have "ao_cancelled (run_access cancel resolve a ow) = ao_cancelled ow @ [h]"
          using AccessCancel eff Some False by simp
        moreover have "bt_get (ao_entries (run_access cancel resolve a ow)) j = entry_in (a # past) j" for j
          using tr AccessCancel eff True Some by (simp add: table_tracks_def entry_in_def)
        ultimately show ?thesis using tr True AccessCancel mem unfolding table_tracks_def by auto
      qed
    qed
  qed
qed

lemma accesses_tracked:
  "attached_once past \<Longrightarrow>
   table_tracks past (fold (run_access cancel resolve) (rev past) active_execution_owner_new)"
proof (induction past)
  case Nil
  show ?case by (simp add: table_tracks_def active_execution_owner_new_def entry_in_def)
next
  case (Cons a past)
  have "attached_once past" using Cons.prems by (cases a) simp_all
  with Cons have "table_tracks past (fold (run_access cancel resolve) (rev past) active_execution_owner_new)"
    by blast
  from access_tracked [OF this Cons.prems] show ?case by simp
qed

text \<open>
  C21. Let every handle be attached at most once, and only to a run that has none, as the service does when it starts the one agent of
  a claim. Then, whatever claims, attachments, releases, cancellations and approvals the threads make in whatever order, no
  handle is cancelled twice, and the handle of a live run has been cancelled exactly if the owning session asked for it since
  the run was claimed: a request that came before the handle was there is delivered when the handle is attached, and none is
  lost. (A second handle for the same claim would not be cancelled by a request that was delivered to the first.)
\<close>

theorem cancel_reaches_the_handle:
  assumes "attached_once past"
    and "ow = fold (run_access cancel resolve) (rev past) active_execution_owner_new"
  shows "distinct (ao_cancelled ow) \<and>
    (\<forall>i h. handle_in past i = Some h \<longrightarrow>
       is_running_owned_by i (the (owner_in past i)) ow \<and>
       (h \<in> set (ao_cancelled ow) \<longleftrightarrow> asked_in past i))"
proof -
  have tr: "table_tracks past ow" using accesses_tracked [OF assms(1)] assms(2) by simp
  then have "is_running_owned_by i (the (owner_in past i)) ow" if "handle_in past i = Some h" for i h
    using that unowned [of past i]
    by (cases "owner_in past i") (auto simp: table_tracks_def is_running_owned_by_def entry_in_def some_and_def)
  with tr show ?thesis by (auto simp: table_tracks_def)
qed

theorem cancel_reaches_the_handle_witness:
  "\<exists>ow. ow = fold (run_access (\<lambda>h. Ok ()) (\<lambda>h v. Ok ())) [AccessClaim (Ident ''r'') (Ident ''s''),
       AccessCancel (Ident ''r'') (Ident ''s''), AccessAttach (Ident ''r'') (7 :: nat),
       AccessCancel (Ident ''r'') (Ident ''s'')] active_execution_owner_new \<and>
     distinct (ao_cancelled ow) \<and> 7 \<in> set (ao_cancelled ow)"
proof -
  let ?past = "[AccessCancel (Ident ''r'') (Ident ''s''), AccessAttach (Ident ''r'') (7 :: nat),
    AccessCancel (Ident ''r'') (Ident ''s''), AccessClaim (Ident ''r'') (Ident ''s'')]"
  have "attached_once ?past" by simp
  from cancel_reaches_the_handle [OF this refl, of "\<lambda>h. Ok ()" "\<lambda>h v. Ok ()"] show ?thesis by auto
qed

end
