(* ===== verification/RunBudget.thy ===== *)
theory RunBudget
  imports Policy Events Projections
begin

text \<open>
  The usage a run and its tree of child runs are charged
  (\<open>crates/ta-orchestrator/src/orchestration/run_execution/budget.rs\<close>, the functions without
  access to the service): the root of a run, the runs below a root, the usage the event log
  shows, and the event that records a breach. The maps and sets are those of the code; the
  loops of the code are recursive functions with an explicit measure.
\<close>

section \<open>The tree of a run\<close>

record budget_projection =
  bp_run_id :: run_id
  bp_parent_run_id :: "run_id option"
  bp_run_usage :: budget_usage
  bp_aggregate_usage :: budget_usage

definition no_usage :: budget_usage where
  "no_usage = \<lparr>total_tokens = 0, wall_clock_ms = 0, tool_calls = 0\<rparr>"

definition parent_run_id :: "run_projection \<Rightarrow> run_id option" where
  "parent_run_id run =
     (case rn_source run of
        SourceNativeSubagent p _ _ _ _ _ _ _ \<Rightarrow> Some p
      | SourceForked p _ \<Rightarrow> Some p
      | SourceUser _ _ _ \<Rightarrow> None)"

definition run_ids :: "(run_id, run_projection) btree \<Rightarrow> run_id set" where
  "run_ids runs = rn_id ` set (bt_values runs)"

lemma finite_run_ids [simp]: "finite (run_ids runs)"
  by (simp add: run_ids_def)

lemma run_ids_get: "bt_get runs i = Some run \<Longrightarrow> rn_id run \<in> run_ids runs"
  unfolding run_ids_def by (force dest: map_of_SomeD)

text \<open>The loop of \<open>root_run_id\<close>: from parent to parent, with the runs visited so far.\<close>

function root_loop :: "(run_id, run_projection) btree \<Rightarrow> run_projection \<Rightarrow> run_id set \<Rightarrow> run_id" where
  "root_loop runs current visited =
     (if rn_id current \<in> visited then rn_id current
      else case parent_run_id current of
        None \<Rightarrow> rn_id current
      | Some parent_id \<Rightarrow>
          (case bt_get runs parent_id of
             None \<Rightarrow> parent_id
           | Some parent \<Rightarrow> root_loop runs parent (insert (rn_id current) visited)))"
  by pat_completeness auto
termination
proof (relation "measure (\<lambda>(runs, current, visited). card (insert (rn_id current) (run_ids runs) - visited))")
  fix runs :: "(run_id, run_projection) btree" and current :: run_projection and visited parent_id parent
  assume fresh: "rn_id current \<notin> visited" and parent: "bt_get runs parent_id = Some parent"
  have "insert (rn_id parent) (run_ids runs) - insert (rn_id current) visited
      \<subset> insert (rn_id current) (run_ids runs) - visited"
    using fresh run_ids_get [OF parent] by blast
  then show "((runs, parent, insert (rn_id current) visited), runs, current, visited)
      \<in> measure (\<lambda>(runs, current, visited). card (insert (rn_id current) (run_ids runs) - visited))"
    by (simp add: psubset_card_mono)
qed simp

declare root_loop.simps [simp del]

definition root_run_id :: "run_projection \<Rightarrow> (run_id, run_projection) btree \<Rightarrow> run_id" where
  "root_run_id run runs = root_loop runs run {}"

text \<open>One pass over the runs: the children of the runs found so far, in the order of the map.\<close>

definition aggregate_pass :: "run_projection list \<Rightarrow> run_id set \<Rightarrow> run_id set" where
  "aggregate_pass runs ids =
     fold (\<lambda>run ids. if some_and (\<lambda>p. p \<in> ids) (parent_run_id run) then insert (rn_id run) ids else ids) runs ids"

lemma aggregate_pass_bounds: "ids \<subseteq> aggregate_pass runs ids \<and> aggregate_pass runs ids \<subseteq> ids \<union> rn_id ` set runs"
  unfolding aggregate_pass_def by (induction runs arbitrary: ids) (auto split: if_splits, blast+)

function aggregate_loop :: "(run_id, run_projection) btree \<Rightarrow> run_id set \<Rightarrow> run_id set" where
  "aggregate_loop runs ids =
     (let ids' = aggregate_pass (bt_values runs) ids
      in if card ids' = card ids then ids' else aggregate_loop runs ids')"
  by pat_completeness auto
termination
proof (relation "measure (\<lambda>(runs, ids). card (run_ids runs - ids))")
  fix runs :: "(run_id, run_projection) btree" and ids ids'
  assume ids': "ids' = aggregate_pass (bt_values runs) ids" and new: "card ids' \<noteq> card ids"
  have "ids \<subseteq> ids'" "ids' \<subseteq> ids \<union> run_ids runs"
    using aggregate_pass_bounds [of ids "bt_values runs"] by (auto simp: ids' run_ids_def)
  moreover have "ids \<noteq> ids'" using new by blast
  ultimately have "run_ids runs - ids' \<subset> run_ids runs - ids" by blast
  then show "((runs, ids'), runs, ids) \<in> measure (\<lambda>(runs, ids). card (run_ids runs - ids))"
    by (simp add: psubset_card_mono)
qed simp

declare aggregate_loop.simps [simp del]

definition aggregate_run_ids :: "run_id \<Rightarrow> (run_id, run_projection) btree \<Rightarrow> run_id set" where
  "aggregate_run_ids i runs = aggregate_loop runs {i}"

section \<open>Usage\<close>

definition usage_entry :: "run_id \<Rightarrow> (run_id, budget_usage) btree \<Rightarrow> budget_usage" where
  "usage_entry i usage = (case bt_get usage i of None \<Rightarrow> no_usage | Some u \<Rightarrow> u)"

text \<open>One record of the log; \<open>entry(run).or_default()\<close> makes an entry for every stream event.\<close>

definition usage_record :: "event_record \<Rightarrow> (run_id, budget_usage) btree \<Rightarrow> (run_id, budget_usage) btree" where
  "usage_record r usage =
     (case ev_payload r of
        EvAgentStream e \<Rightarrow>
          let entry = usage_entry (as_run_id e) usage
          in bt_put (as_run_id e)
               (case em_frame (as_emission e) of
                  TokenUsageUpdated (Some tokens) _ \<Rightarrow> entry\<lparr>total_tokens := tokens\<rparr>
                | ToolCallStarted _ _ \<Rightarrow> entry\<lparr>tool_calls := sat_add (tool_calls entry) 1\<rparr>
                | _ \<Rightarrow> entry) usage
      | _ \<Rightarrow> usage)"

definition usage_by_run :: "event_record list \<Rightarrow> (run_id, budget_usage) btree" where
  "usage_by_run events = fold usage_record events []"

definition elapsed_ms :: "run_projection \<Rightarrow> nat \<Rightarrow> nat" where
  "elapsed_ms run now_ms =
     (case rn_started_at_ms run of
        None \<Rightarrow> 0
      | Some started \<Rightarrow> (case rn_ended_at_ms run of None \<Rightarrow> now_ms | Some e \<Rightarrow> e) - started)"

definition usage_for_run :: "run_projection \<Rightarrow> budget_usage option \<Rightarrow> nat \<Rightarrow> budget_usage" where
  "usage_for_run run event_usage now_ms =
     (case event_usage of None \<Rightarrow> no_usage | Some u \<Rightarrow> u)\<lparr>wall_clock_ms := elapsed_ms run now_ms\<rparr>"

definition add_usage :: "(run_id, budget_usage) btree \<Rightarrow> run_id \<Rightarrow> budget_usage \<Rightarrow> budget_usage" where
  "add_usage usage_by i usage =
     (case bt_get usage_by i of
        None \<Rightarrow> usage
      | Some u \<Rightarrow> usage\<lparr>total_tokens := sat_add (total_tokens usage) (total_tokens u),
                       tool_calls := sat_add (tool_calls usage) (tool_calls u)\<rparr>)"

definition aggregate_usage :: "run_id \<Rightarrow> run_id set \<Rightarrow> (run_id, run_projection) btree \<Rightarrow>
    (run_id, budget_usage) btree \<Rightarrow> nat \<Rightarrow> budget_usage" where
  "aggregate_usage root_id ids runs usage_by now_ms =
     (fold (add_usage usage_by) (sorted_list_of_set ids) no_usage)
       \<lparr>wall_clock_ms := (case bt_get runs root_id of None \<Rightarrow> 0 | Some run \<Rightarrow> elapsed_ms run now_ms)\<rparr>"

text \<open>The part of \<open>budget_projection\<close> after the store was read: the runs and records of one session.\<close>

definition project_budget :: "run_projection \<Rightarrow> run_projection list \<Rightarrow> event_record list \<Rightarrow> nat \<Rightarrow> budget_projection" where
  "project_budget run runs events now_ms =
     (let runs_by_id = fold (\<lambda>r. bt_put (rn_id r) r) runs [];
          root_id = root_run_id run runs_by_id;
          usage = usage_by_run events
      in \<lparr>bp_run_id = rn_id run, bp_parent_run_id = parent_run_id run,
          bp_run_usage = usage_for_run run (bt_get usage (rn_id run)) now_ms,
          bp_aggregate_usage =
            aggregate_usage root_id (aggregate_run_ids root_id runs_by_id) runs_by_id usage now_ms\<rparr>)"

definition decide_budget :: "budget_policy \<Rightarrow> budget_projection \<Rightarrow> budget_decision" where
  "decide_budget policy p =
     (case decide_run policy (bp_run_usage p) of
        WithinBudget \<Rightarrow> decide_parent_aggregate policy (bp_aggregate_usage p)
      | BudgetExceededBy x \<Rightarrow> BudgetExceededBy x)"

text \<open>
  \<open>wire_scope\<close> and \<open>wire_metric\<close> translate between two enums with the same variants, which the
  model has once.
\<close>

definition budget_exceeded_event_of :: "budget_projection \<Rightarrow> budget_exceeded \<Rightarrow> budget_exceeded_event" where
  "budget_exceeded_event_of p x =
     (let usage = (case bx_scope x of
            ScopeRun \<Rightarrow> bp_run_usage p | ScopeParentAggregate \<Rightarrow> bp_aggregate_usage p)
      in \<lparr>be_run_id = bp_run_id p, be_parent_run_id = bp_parent_run_id p,
          be_breach = \<lparr>bb_scope = bx_scope x, bb_metric = bx_metric x, bb_limit = bx_limit x,
            bb_actual = bx_actual x\<rparr>,
          be_snapshot = \<lparr>bs_run_id = bp_run_id p, bs_parent_run_id = bp_parent_run_id p,
            bs_scope = bx_scope x, bs_total_tokens = total_tokens usage,
            bs_wall_clock_ms = wall_clock_ms usage, bs_tool_calls = tool_calls usage\<rparr>\<rparr>)"

section \<open>The whole tree is charged\<close>

definition descends :: "run_projection list \<Rightarrow> (run_id \<times> run_id) set" where
  "descends runs = {(p, c). \<exists>run \<in> set runs. parent_run_id run = Some p \<and> rn_id run = c}"

lemma descendsI: "run \<in> set runs \<Longrightarrow> parent_run_id run = Some p \<Longrightarrow> (p, rn_id run) \<in> descends runs"
  by (auto simp: descends_def)

lemma pass_sound: "set runs \<subseteq> set all \<Longrightarrow> aggregate_pass runs ids \<subseteq> (descends all)\<^sup>* `` ids"
proof (induction runs arbitrary: ids)
  case Nil
  show ?case by (auto simp: aggregate_pass_def)
next
  case (Cons run runs)
  let ?ids = "if some_and (\<lambda>p. p \<in> ids) (parent_run_id run) then insert (rn_id run) ids else ids"
  have "?ids \<subseteq> (descends all)\<^sup>* `` ids"
  proof (cases "parent_run_id run")
    case (Some p)
    have "(p, rn_id run) \<in> descends all" using Cons.prems Some by (auto intro: descendsI)
    with Some show ?thesis by (auto simp: some_and_def)
  qed (auto simp: some_and_def)
  then have "(descends all)\<^sup>* `` ?ids \<subseteq> (descends all)\<^sup>* `` ids"
    by (metis Image_mono rtrancl_idemp_self_comp relcomp_Image subset_refl)
  moreover have "aggregate_pass runs ?ids \<subseteq> (descends all)\<^sup>* `` ?ids" using Cons by simp
  moreover have "aggregate_pass (run # runs) ids = aggregate_pass runs ?ids" by (simp add: aggregate_pass_def)
  ultimately show ?case by blast
qed

lemma pass_collects:
  "run \<in> set runs \<Longrightarrow> parent_run_id run = Some p \<Longrightarrow> p \<in> ids \<Longrightarrow> rn_id run \<in> aggregate_pass runs ids"
proof (induction runs arbitrary: ids)
  case (Cons r runs)
  let ?ids = "if some_and (\<lambda>p. p \<in> ids) (parent_run_id r) then insert (rn_id r) ids else ids"
  have step: "aggregate_pass (r # runs) ids = aggregate_pass runs ?ids" by (simp add: aggregate_pass_def)
  show ?case
  proof (cases "r = run")
    case True
    then have "rn_id run \<in> ?ids" using Cons.prems by (simp add: some_and_def)
    then show ?thesis using aggregate_pass_bounds [of ?ids runs] unfolding step by blast
  next
    case False
    then have "run \<in> set runs" "p \<in> ?ids" using Cons.prems by auto
    from Cons.IH [OF this(1) Cons.prems(2) this(2)] show ?thesis unfolding step .
  qed
qed simp

text \<open>The fixed point is the set of the runs below the given ones.\<close>

lemma aggregate_loop_eq:
  "finite ids \<Longrightarrow> aggregate_loop runs ids = (descends (bt_values runs))\<^sup>* `` ids"
proof (induction runs ids rule: aggregate_loop.induct)
  case (1 runs ids)
  let ?D = "descends (bt_values runs)" and ?ids = "aggregate_pass (bt_values runs) ids"
  have grows: "ids \<subseteq> ?ids" "?ids \<subseteq> ids \<union> rn_id ` set (bt_values runs)"
    using aggregate_pass_bounds [of ids "bt_values runs"] by auto
  then have fin: "finite ?ids" using "1.prems" by (meson List.finite_set finite_Un finite_imageI finite_subset)
  have sound: "?ids \<subseteq> ?D\<^sup>* `` ids" using pass_sound [of "bt_values runs" "bt_values runs" ids] by simp
  show ?case
  proof (cases "card ?ids = card ids")
    case True
    then have same: "?ids = ids" using card_subset_eq [OF fin grows(1)] by simp
    have "c \<in> ids" if "(p, c) \<in> ?D" "p \<in> ids" for p c
      using that pass_collects [of _ "bt_values runs" p ids] same by (auto simp: descends_def)
    then have "?D `` ids \<subseteq> ids" by blast
    then have "?D\<^sup>* `` ids = ids" by (rule Image_closed_trancl)
    with True same show ?thesis by (simp add: aggregate_loop.simps [of runs ids])
  next
    case False
    have "?D\<^sup>* `` ?ids = ?D\<^sup>* `` ids"
    proof
      have "?D\<^sup>* `` ?ids \<subseteq> ?D\<^sup>* `` (?D\<^sup>* `` ids)" using sound by (rule Image_mono [OF subset_refl])
      then show "?D\<^sup>* `` ?ids \<subseteq> ?D\<^sup>* `` ids" by (simp flip: relcomp_Image)
      show "?D\<^sup>* `` ids \<subseteq> ?D\<^sup>* `` ?ids" using grows(1) by (rule Image_mono [OF subset_refl])
    qed
    with False "1.IH" [OF refl False fin] show ?thesis by (simp add: aggregate_loop.simps [of runs ids] Let_def)
  qed
qed

definition keyed_runs :: "(run_id, run_projection) btree \<Rightarrow> bool" where
  "keyed_runs runs \<longleftrightarrow> (\<forall>k r. bt_get runs k = Some r \<longrightarrow> rn_id r = k) \<and>
     (\<forall>r \<in> set (bt_values runs). bt_get runs (rn_id r) = Some r)"

lemma keyed_parent:
  assumes "keyed_runs runs"
  shows "(p, c) \<in> descends (bt_values runs) \<longleftrightarrow> (\<exists>run. bt_get runs c = Some run \<and> parent_run_id run = Some p)"
proof
  assume "(p, c) \<in> descends (bt_values runs)"
  then obtain run where "run \<in> set (bt_values runs)" "parent_run_id run = Some p" "rn_id run = c"
    by (auto simp: descends_def)
  with assms show "\<exists>run. bt_get runs c = Some run \<and> parent_run_id run = Some p"
    unfolding keyed_runs_def by blast
next
  assume "\<exists>run. bt_get runs c = Some run \<and> parent_run_id run = Some p"
  then obtain run where r: "bt_get runs c = Some run" "parent_run_id run = Some p" by blast
  then have "run \<in> set (bt_values runs)" by (force dest: map_of_SomeD)
  moreover have "rn_id run = c" using assms r by (simp add: keyed_runs_def)
  ultimately show "(p, c) \<in> descends (bt_values runs)" using r descendsI by blast
qed

text \<open>The root is above the run, and nothing is above the root but what is below it, too.\<close>

lemma root_loop_top:
  "keyed_runs runs \<Longrightarrow> bt_get runs (rn_id current) = Some current \<Longrightarrow>
   \<forall>v \<in> visited. \<forall>j. (j, v) \<in> descends (bt_values runs) \<longrightarrow> (rn_id current, j) \<in> (descends (bt_values runs))\<^sup>* \<Longrightarrow>
   r = root_loop runs current visited \<Longrightarrow>
   (r, rn_id current) \<in> (descends (bt_values runs))\<^sup>* \<and>
   (\<forall>j. (j, r) \<in> descends (bt_values runs) \<longrightarrow> (r, j) \<in> (descends (bt_values runs))\<^sup>*)"
proof (induction runs current visited arbitrary: r rule: root_loop.induct)
  case (1 runs current visited)
  let ?D = "descends (bt_values runs)"
  note keyed = "1.prems"(1) and cur = "1.prems"(2) and vis = "1.prems"(3)
  note r = "1.prems"(4) [unfolded root_loop.simps [of runs current visited]]
  have up: "(j, rn_id current) \<in> ?D \<longleftrightarrow> parent_run_id current = Some j" for j
    using keyed_parent [OF keyed] cur by simp
  consider (seen) "rn_id current \<in> visited"
    | (top) "rn_id current \<notin> visited" "parent_run_id current = None"
    | (gone) p where "rn_id current \<notin> visited" "parent_run_id current = Some p" "bt_get runs p = None"
    | (up) p parent where "rn_id current \<notin> visited" "parent_run_id current = Some p" "bt_get runs p = Some parent"
    by (metis not_None_eq)
  then show ?case
  proof cases
    case seen
    with r vis show ?thesis by simp
  next
    case top
    with r up show ?thesis by simp
  next
    case gone
    then have "(j, p) \<notin> ?D" for j using keyed_parent [OF keyed] by simp
    with gone r up show ?thesis by auto
  next
    case (up p parent)
    have id: "rn_id parent = p" using keyed up(3) by (simp add: keyed_runs_def)
    have edge: "(p, rn_id current) \<in> ?D" using keyed_parent [OF keyed] cur up(2) by simp
    have vis': "\<forall>v \<in> insert (rn_id current) visited. \<forall>j. (j, v) \<in> ?D \<longrightarrow> (rn_id parent, j) \<in> ?D\<^sup>*"
    proof (intro ballI allI impI)
      fix v j assume v: "v \<in> insert (rn_id current) visited" and j: "(j, v) \<in> ?D"
      show "(rn_id parent, j) \<in> ?D\<^sup>*"
      proof (cases "v = rn_id current")
        case True
        then have "j = p" using j keyed_parent [OF keyed] cur up(2) by simp
        with id show ?thesis by simp
      next
        case False
        then have "(rn_id current, j) \<in> ?D\<^sup>*" using v j vis by blast
        with edge id show ?thesis by (simp add: converse_rtrancl_into_rtrancl)
      qed
    qed
    have "r = root_loop runs parent (insert (rn_id current) visited)" using r up by simp
    from "1.IH" [OF up(1) up(2) up(3) keyed _ vis' this] id up(3)
    have ih: "(r, p) \<in> ?D\<^sup>*" "\<forall>j. (j, r) \<in> ?D \<longrightarrow> (r, j) \<in> ?D\<^sup>*" by simp_all
    from rtrancl_into_rtrancl [OF ih(1) edge] ih(2) show ?thesis by blast
  qed
qed

definition keyed_by_id :: "run_projection list \<Rightarrow> (run_id, run_projection) btree" where
  "keyed_by_id runs = fold (\<lambda>r. bt_put (rn_id r) r) runs []"

lemma keyed_fold:
  assumes "distinct (map rn_id runs)"
  shows "bt_wf (keyed_by_id runs) \<and> (\<forall>k r. bt_get (keyed_by_id runs) k = Some r \<longleftrightarrow> r \<in> set runs \<and> rn_id r = k)"
  using assms unfolding keyed_by_id_def
proof (induction runs rule: rev_induct)
  case (snoc run runs)
  then have "rn_id run \<notin> rn_id ` set runs" by simp
  then have "rn_id r \<noteq> rn_id run" if "r \<in> set runs" for r using that by (metis imageI)
  moreover have "distinct (map rn_id runs)" using snoc.prems by simp
  ultimately show ?case using snoc.IH by auto
qed simp

lemma keyed_values:
  assumes "distinct (map rn_id runs)"
  shows "keyed_runs (keyed_by_id runs)" "set (bt_values (keyed_by_id runs)) = set runs"
proof -
  note k = keyed_fold [OF assms]
  have mem: "r \<in> set (bt_values (keyed_by_id runs)) \<longleftrightarrow> (\<exists>k. bt_get (keyed_by_id runs) k = Some r)" for r
    using bt_get_iff [OF conjunct1 [OF k]] by force
  show "set (bt_values (keyed_by_id runs)) = set runs" using mem k by auto
  show "keyed_runs (keyed_by_id runs)" using mem k by (auto simp: keyed_runs_def)
qed

text \<open>What the log shows of a run: the calls of tools it started, the tokens it reported last.\<close>

definition starts_call_of :: "run_id \<Rightarrow> event_record \<Rightarrow> bool" where
  "starts_call_of i r = (case ev_payload r of
     EvAgentStream e \<Rightarrow> as_run_id e = i \<and>
       (case em_frame (as_emission e) of ToolCallStarted _ _ \<Rightarrow> True | _ \<Rightarrow> False)
   | _ \<Rightarrow> False)"

definition started_calls :: "run_id \<Rightarrow> event_record list \<Rightarrow> nat" where
  "started_calls i events = length (filter (starts_call_of i) events)"

definition reported_tokens :: "run_id \<Rightarrow> event_record \<Rightarrow> nat option" where
  "reported_tokens i r = (case ev_payload r of
     EvAgentStream e \<Rightarrow> if as_run_id e = i then
       (case em_frame (as_emission e) of TokenUsageUpdated t _ \<Rightarrow> t | _ \<Rightarrow> None) else None
   | _ \<Rightarrow> None)"

definition last_tokens :: "run_id \<Rightarrow> event_record list \<Rightarrow> nat" where
  "last_tokens i events = fold (\<lambda>r t. case reported_tokens i r of None \<Rightarrow> t | Some n \<Rightarrow> n) events 0"

lemma usage_entry_step:
  "usage_entry i (usage_record r usage) =
     (usage_entry i usage)\<lparr>
        total_tokens := (case reported_tokens i r of None \<Rightarrow> total_tokens (usage_entry i usage) | Some n \<Rightarrow> n),
        tool_calls := (if starts_call_of i r then sat_add (tool_calls (usage_entry i usage)) 1
          else tool_calls (usage_entry i usage))\<rparr>"
  by (cases "ev_payload r"; cases "bt_get usage i")
     (auto simp: usage_record_def usage_entry_def reported_tokens_def starts_call_of_def Let_def no_usage_def
       split: agent_stream_frame.splits option.splits)

lemma usage_entry_eq:
  "total_tokens (usage_entry i (usage_by_run events)) = last_tokens i events \<and>
   tool_calls (usage_entry i (usage_by_run events)) = min u64_max (started_calls i events)"
proof (induction events rule: rev_induct)
  case Nil
  show ?case by (simp add: usage_by_run_def usage_entry_def last_tokens_def started_calls_def no_usage_def)
next
  case (snoc r events)
  have "usage_by_run (events @ [r]) = usage_record r (usage_by_run events)" by (simp add: usage_by_run_def)
  moreover have "last_tokens i (events @ [r]) =
      (case reported_tokens i r of None \<Rightarrow> last_tokens i events | Some n \<Rightarrow> n)"
    by (simp add: last_tokens_def split: option.split)
  moreover have "started_calls i (events @ [r]) = started_calls i events + (if starts_call_of i r then 1 else 0)"
    by (simp add: started_calls_def)
  ultimately show ?case using snoc by (auto simp: usage_entry_step sat_add_def split: option.splits)
qed

lemma add_usage_eq:
  "total_tokens (add_usage ub i u) = (if bt_get ub i = None then total_tokens u else
     sat_add (total_tokens u) (total_tokens (usage_entry i ub)))"
  "tool_calls (add_usage ub i u) = (if bt_get ub i = None then tool_calls u else
     sat_add (tool_calls u) (tool_calls (usage_entry i ub)))"
  by (auto simp: add_usage_def usage_entry_def split: option.splits)

lemma min_min_add: "min c (min c a + b) = min c (a + b)" for c :: nat
  by (simp add: min_def)

lemma add_usage_sum:
  assumes "total_tokens u \<le> u64_max" and "tool_calls u \<le> u64_max"
  shows "total_tokens (fold (add_usage ub) is u) =
      min u64_max (total_tokens u + (\<Sum>i\<leftarrow>is. total_tokens (usage_entry i ub))) \<and>
    tool_calls (fold (add_usage ub) is u) =
      min u64_max (tool_calls u + (\<Sum>i\<leftarrow>is. tool_calls (usage_entry i ub)))"
  using assms
proof (induction "is" arbitrary: u)
  case (Cons i ids)
  have none: "usage_entry i ub = no_usage" if "bt_get ub i = None" using that by (simp add: usage_entry_def)
  have cap: "total_tokens (add_usage ub i u) = min u64_max (total_tokens u + total_tokens (usage_entry i ub))"
    "tool_calls (add_usage ub i u) = min u64_max (tool_calls u + tool_calls (usage_entry i ub))"
    using Cons.prems none by (auto simp: add_usage_eq sat_add_def no_usage_def)
  then have "total_tokens (add_usage ub i u) \<le> u64_max" "tool_calls (add_usage ub i u) \<le> u64_max" by simp_all
  from Cons.IH [OF this] show ?case
    by (simp only: fold_simps cap min_min_add list.map sum_list.Cons add.assoc)
qed simp

lemma capped_sum: "min c (\<Sum>i\<in>A. min c (f i)) = min c (\<Sum>i\<in>A. f i :: nat)" if "finite A" for c :: nat
  using that
proof (induction A)
  case (insert x A)
  let ?s = "\<Sum>i\<in>A. min c (f i)" and ?t = "\<Sum>i\<in>A. f i"
  have "min c (min c (f x) + ?s) = min c (min c ?s + f x)"
    by (simp only: min_min_add add.commute [of ?s])
  also have "\<dots> = min c (min c ?t + f x)" by (simp only: insert.IH)
  finally show ?case using insert.hyps by (simp add: min_min_add add.commute)
qed simp

lemma aggregate_usage_eq:
  assumes "finite ids"
  shows "total_tokens (aggregate_usage r ids runs (usage_by_run events) now) =
      min u64_max (\<Sum>i\<in>ids. last_tokens i events)"
    and "tool_calls (aggregate_usage r ids runs (usage_by_run events) now) =
      min u64_max (\<Sum>i\<in>ids. started_calls i events)"
  using add_usage_sum [of no_usage "usage_by_run events" "sorted_list_of_set ids"] assms
    capped_sum [OF assms, of u64_max "\<lambda>i. started_calls i events"]
  by (simp_all add: aggregate_usage_def usage_entry_eq no_usage_def sum_list_distinct_conv_sum_set)

text \<open>The tree, with the run at its top whose elapsed time is charged.\<close>

definition elapsed_of :: "run_id \<Rightarrow> run_projection list \<Rightarrow> nat \<Rightarrow> nat" where
  "elapsed_of i runs now = (case find (\<lambda>r. rn_id r = i) runs of None \<Rightarrow> 0 | Some r \<Rightarrow> elapsed_ms r now)"

definition topmost :: "run_projection \<Rightarrow> run_projection list \<Rightarrow> run_id \<Rightarrow> bool" where
  "topmost run runs root_id \<longleftrightarrow> (root_id, rn_id run) \<in> (descends runs)\<^sup>* \<and>
     (\<forall>j. (j, root_id) \<in> descends runs \<longrightarrow> (root_id, j) \<in> (descends runs)\<^sup>*)"

lemma tree_is_charged:
  assumes run: "run \<in> set runs" and ids: "distinct (map rn_id runs)"
  shows "\<exists>tree. finite tree \<and> rn_id run \<in> tree \<and>
    (\<forall>(p, c) \<in> descends runs. p \<in> tree \<longleftrightarrow> c \<in> tree) \<and>
    (\<forall>i \<in> tree. (rn_id run, i) \<in> (descends runs \<union> (descends runs)\<inverse>)\<^sup>*) \<and>
    tool_calls (bp_aggregate_usage (project_budget run runs events now)) =
      min u64_max (\<Sum>i\<in>tree. started_calls i events) \<and>
    total_tokens (bp_aggregate_usage (project_budget run runs events now)) =
      min u64_max (\<Sum>i\<in>tree. last_tokens i events) \<and>
    (\<exists>root_id. topmost run runs root_id \<and>
      wall_clock_ms (bp_aggregate_usage (project_budget run runs events now)) = elapsed_of root_id runs now)"
proof -
  let ?m = "keyed_by_id runs" and ?D = "descends runs"
  let ?r = "root_run_id run ?m"
  let ?tree = "aggregate_run_ids ?r ?m"
  note keyed = keyed_values [OF ids]
  have D: "descends (bt_values ?m) = ?D" using keyed(2) by (simp add: descends_def)
  have tree: "?tree = ?D\<^sup>* `` {?r}" using aggregate_loop_eq [of "{?r}" ?m] by (simp add: aggregate_run_ids_def D)
  have get: "bt_get ?m (rn_id run) = Some run" using keyed_fold [OF ids] run by simp
  have "\<forall>v \<in> {}. \<forall>j. (j, v) \<in> ?D \<longrightarrow> (rn_id run, j) \<in> ?D\<^sup>*" by simp
  from root_loop_top [OF keyed(1) get, unfolded D, OF this refl]
  have top: "(?r, rn_id run) \<in> ?D\<^sup>*" "\<And>j. (j, ?r) \<in> ?D \<Longrightarrow> (?r, j) \<in> ?D\<^sup>*"
    by (simp_all add: root_run_id_def)
  have "finite ?D" unfolding descends_def
    by (rule finite_subset [of _ "(\<lambda>run. (the (parent_run_id run), rn_id run)) ` set runs"]) force+
  then have fin: "finite ?tree" unfolding tree
    by (metis finite_Image finite.emptyI finite.insertI finite_rtrancl_Image)
  have one: "p = q" if "(p, c) \<in> ?D" "(q, c) \<in> ?D" for p q c
    using that keyed_parent [OF keyed(1), unfolded D] by auto
  have closed: "p \<in> ?tree \<longleftrightarrow> c \<in> ?tree" if pc: "(p, c) \<in> ?D" for p c
  proof
    assume "c \<in> ?tree"
    then have "(?r, c) \<in> ?D\<^sup>*" by (simp add: tree)
    then show "p \<in> ?tree" unfolding tree
      using pc top(2) one by (cases rule: rtranclE) auto
  qed (use pc in \<open>auto simp: tree intro: rtrancl_into_rtrancl\<close>)
  have conn: "(rn_id run, i) \<in> (?D \<union> ?D\<inverse>)\<^sup>*" if "i \<in> ?tree" for i
  proof -
    have "(rn_id run, ?r) \<in> (?D\<inverse>)\<^sup>*" using top(1) by (simp add: rtrancl_converse)
    moreover have "(?r, i) \<in> ?D\<^sup>*" using that by (simp add: tree)
    ultimately show ?thesis by (meson Un_upper1 Un_upper2 rtrancl_mono rtrancl_trans subsetD)
  qed
  have "bp_aggregate_usage (project_budget run runs events now) =
      aggregate_usage ?r ?tree ?m (usage_by_run events) now"
    by (simp add: project_budget_def Let_def keyed_by_id_def)
  with aggregate_usage_eq [OF fin] have "tool_calls (bp_aggregate_usage (project_budget run runs events now)) =
      min u64_max (\<Sum>i\<in>?tree. started_calls i events)"
    "total_tokens (bp_aggregate_usage (project_budget run runs events now)) =
      min u64_max (\<Sum>i\<in>?tree. last_tokens i events)" by simp_all
  moreover have "rn_id run \<in> ?tree" using top(1) by (simp add: tree)
  moreover have "topmost run runs ?r" using top by (simp add: topmost_def)
  moreover have "wall_clock_ms (bp_aggregate_usage (project_budget run runs events now)) = elapsed_of ?r runs now"
  proof -
    have "bt_get ?m ?r = find (\<lambda>r. rn_id r = ?r) runs"
    proof (cases "find (\<lambda>r. rn_id r = ?r) runs")
      case None
      then have "bt_get ?m ?r \<noteq> Some q" for q using keyed_fold [OF ids] by (auto simp: find_None_iff)
      with None show ?thesis by (cases "bt_get ?m ?r") auto
    next
      case (Some q)
      then have "q \<in> set runs" "rn_id q = ?r" by (auto simp: find_Some_iff)
      with Some keyed_fold [OF ids] show ?thesis by simp
    qed
    then show ?thesis
      by (simp add: project_budget_def Let_def keyed_by_id_def aggregate_usage_def elapsed_of_def)
  qed
  ultimately show ?thesis using fin closed conn by blast
qed

text \<open>What a run and its whole tree have spent, from the log and the graph of parents alone.\<close>

definition run_tree :: "run_projection \<Rightarrow> run_projection list \<Rightarrow> run_id set" where
  "run_tree run runs = {i. (rn_id run, i) \<in> (descends runs \<union> (descends runs)\<inverse>)\<^sup>*}"

definition run_spending :: "run_projection \<Rightarrow> event_record list \<Rightarrow> nat \<Rightarrow> budget_usage" where
  "run_spending run events now = \<lparr>total_tokens = last_tokens (rn_id run) events, wall_clock_ms = elapsed_ms run now,
     tool_calls = min u64_max (started_calls (rn_id run) events)\<rparr>"

definition tree_spending :: "run_projection \<Rightarrow> run_projection list \<Rightarrow> event_record list \<Rightarrow> nat \<Rightarrow> budget_usage \<Rightarrow> bool" where
  "tree_spending run runs events now u \<longleftrightarrow>
     total_tokens u = min u64_max (\<Sum>i\<in>run_tree run runs. last_tokens i events) \<and>
     tool_calls u = min u64_max (\<Sum>i\<in>run_tree run runs. started_calls i events) \<and>
     (\<exists>root_id. topmost run runs root_id \<and> wall_clock_ms u = elapsed_of root_id runs now)"

lemma own_usage_is_spent: "bp_run_usage (project_budget run runs events now) = run_spending run events now"
proof -
  have "(case bt_get (usage_by_run events) (rn_id run) of None \<Rightarrow> no_usage | Some u \<Rightarrow> u) = usage_entry (rn_id run) (usage_by_run events)"
    by (simp add: usage_entry_def)
  then show ?thesis using usage_entry_eq [of "rn_id run" events]
    by (simp add: project_budget_def Let_def usage_for_run_def run_spending_def)
qed

lemma aggregate_usage_is_spent:
  assumes "run \<in> set runs" and "distinct (map rn_id runs)"
  shows "tree_spending run runs events now (bp_aggregate_usage (project_budget run runs events now))"
proof -
  obtain tree where tree: "rn_id run \<in> tree" and closed: "\<forall>(p, c) \<in> descends runs. p \<in> tree \<longleftrightarrow> c \<in> tree"
    and conn: "\<forall>i \<in> tree. (rn_id run, i) \<in> (descends runs \<union> (descends runs)\<inverse>)\<^sup>*"
    and spent: "tool_calls (bp_aggregate_usage (project_budget run runs events now)) = min u64_max (\<Sum>i\<in>tree. started_calls i events)"
      "total_tokens (bp_aggregate_usage (project_budget run runs events now)) = min u64_max (\<Sum>i\<in>tree. last_tokens i events)"
      "\<exists>root_id. topmost run runs root_id \<and>
        wall_clock_ms (bp_aggregate_usage (project_budget run runs events now)) = elapsed_of root_id runs now"
    using tree_is_charged [OF assms, of events now]
    by (elim exE conjE) (rule that, assumption, assumption, assumption, assumption, assumption, intro exI conjI, assumption, assumption)
  have "i \<in> tree" if "(rn_id run, i) \<in> (descends runs \<union> (descends runs)\<inverse>)\<^sup>*" for i
    using that by (induction rule: rtrancl_induct) (use tree closed in auto)
  with conn have "run_tree run runs = tree" by (auto simp: run_tree_def)
  with spent show ?thesis by (simp add: tree_spending_def)
qed

text \<open>
  C15. The aggregate budget is charged for the whole tree of a run: the runs that are connected to
  it by \<open>parent_run_id\<close>, upwards and downwards, among the runs of its session, also when the chain
  of parents is circular or leaves the session. The charge is the number of tool calls these runs
  started and the sum of the tokens each reported last, up to the largest number of 64 bits.
  The two loops that find the tree end for all maps.
\<close>

theorem budget_charges_the_whole_tree:
  assumes run: "run \<in> set runs" and ids: "distinct (map rn_id runs)"
  shows "\<exists>tree. finite tree \<and> rn_id run \<in> tree \<and>
    (\<forall>(p, c) \<in> descends runs. p \<in> tree \<longleftrightarrow> c \<in> tree) \<and>
    (\<forall>i \<in> tree. (rn_id run, i) \<in> (descends runs \<union> (descends runs)\<inverse>)\<^sup>*) \<and>
    tool_calls (bp_aggregate_usage (project_budget run runs events now)) =
      min u64_max (\<Sum>i\<in>tree. started_calls i events) \<and>
    total_tokens (bp_aggregate_usage (project_budget run runs events now)) =
      min u64_max (\<Sum>i\<in>tree. last_tokens i events)"
  using tree_is_charged [OF assms, of events now] by (elim exE conjE) (intro exI conjI; assumption)

definition demo_parent :: run_projection where
  "demo_parent = demo_run ''s'' ''p'' Running (Some 100)"

definition demo_child :: run_projection where
  "demo_child = (demo_run ''s'' ''c'' Running None)\<lparr>rn_source := SourceForked (Ident ''p'') 4\<rparr>"

definition demo_call :: "nat \<Rightarrow> string \<Rightarrow> event_record" where
  "demo_call n i = \<lparr>ev_sequence = n, ev_session_id = Ident ''s'', ev_occurred_at_ms = n,
     ev_payload = EvAgentStream \<lparr>as_run_id = Ident i, as_emission = \<lparr>em_turn_id = None, em_item_id = None,
       em_fragment_sequence = None, em_frame = ToolCallStarted ''ls'' ''.''\<rparr>\<rparr>\<rparr>"

lemma demo_descends: "descends [demo_parent, demo_child] = {(Ident ''p'', Ident ''c'')}"
  by (auto simp: descends_def demo_parent_def demo_child_def demo_run_def parent_run_id_def)

theorem budget_charges_the_whole_tree_witness:
  "tool_calls (bp_aggregate_usage (project_budget demo_child [demo_parent, demo_child]
     [demo_call 1 ''p'', demo_call 2 ''c'', demo_call 3 ''p''] 200)) = 3"
proof -
  have "demo_child \<in> set [demo_parent, demo_child]" "distinct (map rn_id [demo_parent, demo_child])"
    by (simp_all add: demo_parent_def demo_child_def demo_run_def)
  from budget_charges_the_whole_tree [OF this] obtain tree where
    fin: "finite tree" and child: "rn_id demo_child \<in> tree"
    and closed: "\<forall>(p, c) \<in> {(Ident ''p'', Ident ''c'')}. p \<in> tree \<longleftrightarrow> c \<in> tree"
    and conn: "\<forall>i \<in> tree. (rn_id demo_child, i) \<in> ({(Ident ''p'', Ident ''c'')} \<union> {(Ident ''p'', Ident ''c'')}\<inverse>)\<^sup>*"
    and calls: "tool_calls (bp_aggregate_usage (project_budget demo_child [demo_parent, demo_child]
       [demo_call 1 ''p'', demo_call 2 ''c'', demo_call 3 ''p''] 200)) =
      min u64_max (\<Sum>i\<in>tree. started_calls i [demo_call 1 ''p'', demo_call 2 ''c'', demo_call 3 ''p''])"
    unfolding demo_descends by metis
  have id: "rn_id demo_child = Ident ''c''" by (simp add: demo_child_def demo_run_def)
  have "i \<in> {Ident ''p'', Ident ''c''}" if "i \<in> tree" for i
    using conn [rule_format, OF that] id by (induction rule: rtrancl_induct) auto
  with child closed id have "tree = {Ident ''p'', Ident ''c''}" by auto
  with calls show ?thesis
    by (simp add: started_calls_def starts_call_of_def demo_call_def u64_max_def)
qed

text \<open>
  The usage a model provider reports for a native run is recorded as its own kind of event,
  which the budget does not read: such a run is charged no tokens.
\<close>

lemma recorded_tokens_not_charged:
  "last_tokens i (events @ [r]) = last_tokens i events" if "ev_payload r = EvTokenUsageRecorded e"
  using that by (simp add: last_tokens_def reported_tokens_def)

end
