(* ===== verification/RunErrors.thy ===== *)
theory RunErrors
  imports AgentSink StoreErrors
begin

text \<open>
  The errors of the orchestrator's run execution
  (\<open>crates/ta-orchestrator/src/orchestration/run_execution/errors.rs\<close>) and of the runtime it uses
  (\<open>orchestration/agent_runtime/service.rs\<close>). Their texts for people are left out: where the code
  puts one into an event, the model takes the function that makes it as an argument.
\<close>

datatype run_execution_error =
    Store store_error
  | EmptyArtifactStoragePath
  | EmptyRunObjective
  | SessionNotFound string
  | RunNotFound string
  | RunSessionMismatch string
  | RunNotWaitingForApproval string
  | RunNotLiveOwned string
  | RunNotNativeHarness string
  | RunNotResumable string
  | RunForkPointNotFound string
  | RunForkPointNotTurnBoundary string
  | RunNotQueued string
  | RunNotCancellable string
  | RunQueueFull string
  | SessionWorkspaceNotFound string
  | WorkspaceTrustRequired string
  | WorkspaceScopeUnsupported string
  | CapabilityUnsupported workspace_capability_unsupported
  | ExecutionContextPathInvalid string
  | UnknownRecipeId string
  | RecipeContractConflict string output_contract_kind output_contract_kind
  | OutputContractViolation validation_error
  | RunBudgetExceeded string
  | ApprovalNotFound string
  | ApprovalAlreadyResolved string
  | ProviderExecutionFailed string

datatype agent_runtime_service_error =
    NoRuntimeProviderConfigured
  | RuntimeProfileNotFound string
  | AuthProfileNotFound string
  | UnknownModel string string
  | UnknownAuthProfile string string
  | RuntimeExtensionNotFound string
  | InvalidAgentRuntimeConfig string
  | RuntimeCapabilityUnsupported workspace_capability_unsupported
  | RuntimeExecutionFailed string

text \<open>\<open>Display\<close> of the runtime's error; the text of an unsupported capability is its own \<open>Display\<close>.\<close>

definition agent_runtime_error_text :: "(workspace_capability_unsupported \<Rightarrow> string) \<Rightarrow>
    agent_runtime_service_error \<Rightarrow> string" where
  "agent_runtime_error_text capability_text e =
     (case e of
        NoRuntimeProviderConfigured \<Rightarrow> ''no runtime provider configured''
      | RuntimeProfileNotFound i \<Rightarrow> ''runtime profile does not exist: '' @ i
      | AuthProfileNotFound i \<Rightarrow> ''auth profile does not exist: '' @ i
      | UnknownModel p m \<Rightarrow> ''runtime profile references unknown model '' @ m @ '' for provider '' @ p
      | UnknownAuthProfile p a \<Rightarrow>
          ''runtime profile references unknown auth profile '' @ a @ '' for provider '' @ p
      | RuntimeExtensionNotFound i \<Rightarrow> ''runtime extension does not exist: '' @ i
      | InvalidAgentRuntimeConfig t \<Rightarrow> t
      | RuntimeCapabilityUnsupported u \<Rightarrow> capability_text u
      | RuntimeExecutionFailed t \<Rightarrow> t)"

definition map_agent_runtime_error :: "(workspace_capability_unsupported \<Rightarrow> string) \<Rightarrow>
    agent_runtime_service_error \<Rightarrow> run_execution_error" where
  "map_agent_runtime_error capability_text e =
     (case e of
        RuntimeCapabilityUnsupported u \<Rightarrow> CapabilityUnsupported u
      | _ \<Rightarrow> ProviderExecutionFailed (agent_runtime_error_text capability_text e))"

end
