(* ===== verification/ExecutionContexts.thy ===== *)
theory ExecutionContexts
  imports Policy Projections RunErrors Strings
begin

text \<open>
  How the execution context of a run is put together
  (\<open>crates/ta-orchestrator/src/orchestration/run_execution/execution_context.rs\<close>): from the
  policy mode of the runtime profile for a run of a user, from the context of the parent for a
  child run or a fork. What the dispatch of a run allocates (a worktree, file claims) is an
  argument here; the theory \<open>RunExecution\<close> allocates it.
\<close>

section \<open>Requests and results\<close>

record execution_context_request =
  xr_workspace_mode :: workspace_mode
  xr_cleanup_policy :: worktree_cleanup_policy
  xr_planned_write_files :: "string list"

definition workspace_write_request :: execution_context_request where
  "workspace_write_request = \<lparr>xr_workspace_mode = ModeWorkspaceWrite, xr_cleanup_policy = DeleteOnSuccess,
     xr_planned_write_files = []\<rparr>"

record prepared_execution_context =
  px_execution_context :: execution_context
  px_workspace_info :: "worktree_info option"
  px_claimed_files :: "string list"
  px_conflict_warning :: "conflict_warning option"
  px_conflict_summary :: "conflict_summary option"

record dispatch_workspace =
  dw_effective_cwd :: string
  dw_worktree_info :: "worktree_info option"
  dw_claimed_files :: "string list"
  dw_conflict_warning :: "conflict_warning option"

record compiled_execution_policy =
  cx_permission_policy :: permission_policy
  cx_process_exec :: process_exec_policy
  cx_network_policy :: network_policy

record execution_workspace_input =
  xi_workspace_id :: workspace_id
  xi_workspace_root :: workspace_path
  xi_parent_repo :: workspace_path
  xi_artifact_root :: workspace_path
  xi_request :: execution_context_request
  xi_compiled_policy :: compiled_execution_policy
  xi_env_policy :: env_policy
  xi_denied_roots :: "workspace_path list"

text \<open>\<open>{workspace_mode:?}\<close>.\<close>

fun workspace_mode_debug :: "workspace_mode \<Rightarrow> string" where
  "workspace_mode_debug ModeReadonly = ''Readonly''"
| "workspace_mode_debug ModeWorkspaceWrite = ''WorkspaceWrite''"
| "workspace_mode_debug ModeWorktreeWrite = ''WorktreeWrite''"
| "workspace_mode_debug ModeRepoWriteWithApproval = ''RepoWriteWithApproval''"
| "workspace_mode_debug ModeRemoteWorker = ''RemoteWorker''"
| "workspace_mode_debug ModeContainerized = ''Containerized''"
| "workspace_mode_debug ModeEphemeral = ''Ephemeral''"

definition context_inheritance_unsupported :: "string \<Rightarrow> string \<Rightarrow> run_execution_error" where
  "context_inheritance_unsupported requested reason = CapabilityUnsupported
     \<lparr>wu_variant = None, wu_vendor = None, wu_capability = ''contextInheritance'',
      wu_requested = requested, wu_reason = reason\<rparr>"

section \<open>Scopes\<close>

definition reject_unsupported_scope :: "workspace_mode \<Rightarrow> (unit, run_execution_error) result" where
  "reject_unsupported_scope mode =
     (case mode of
        ModeRemoteWorker \<Rightarrow> Err (WorkspaceScopeUnsupported ''remoteWorker'')
      | ModeContainerized \<Rightarrow> Err (WorkspaceScopeUnsupported ''containerized'')
      | ModeEphemeral \<Rightarrow> Err (WorkspaceScopeUnsupported ''ephemeral'')
      | _ \<Rightarrow> Ok ())"

definition workspace_scope_for :: "workspace_mode \<Rightarrow> workspace_path \<Rightarrow> workspace_path \<Rightarrow> workspace_path \<Rightarrow>
    worktree_info option \<Rightarrow> (workspace_scope, run_execution_error) result" where
  "workspace_scope_for mode workspace_root repo_root effective_cwd info =
     (case mode of
        ModeReadonly \<Rightarrow> Ok (ScopeReadonly workspace_root)
      | ModeWorkspaceWrite \<Rightarrow> Ok (ScopeLocal workspace_root)
      | ModeRepoWriteWithApproval \<Rightarrow> Ok (ScopeLocal repo_root)
      | ModeWorktreeWrite \<Rightarrow>
          (case info of
             None \<Rightarrow> Err (ExecutionContextPathInvalid ''worktree scope has no prepared worktree'')
           | Some w \<Rightarrow> Ok (ScopeWorktree workspace_root effective_cwd (wt_branch w)))
      | _ \<Rightarrow> Err (WorkspaceScopeUnsupported (workspace_mode_debug mode)))"

definition workspace_mode_for_fork :: "execution_context \<Rightarrow> (workspace_mode, run_execution_error) result" where
  "workspace_mode_for_fork parent =
     (case ec_workspace_scope parent of
        ScopeReadonly _ \<Rightarrow> Ok ModeReadonly
      | ScopeWorktree _ _ _ \<Rightarrow> Ok ModeWorktreeWrite
      | ScopeLocal _ \<Rightarrow>
          (if ec_permission_policy parent = PermRepoWriteWithApproval
           then Ok ModeRepoWriteWithApproval else Ok ModeWorkspaceWrite)
      | ScopeRemote _ \<Rightarrow> Err (context_inheritance_unsupported ''remote''
          ''the parent workspace scope cannot be forked by the native harness'')
      | ScopeContainer _ \<Rightarrow> Err (context_inheritance_unsupported ''container''
          ''the parent workspace scope cannot be forked by the native harness'')
      | ScopeEphemeral _ \<Rightarrow> Err (context_inheritance_unsupported ''ephemeral''
          ''the parent workspace scope cannot be forked by the native harness''))"

section \<open>Policies\<close>

definition compile_execution_policy :: "workspace_mode \<Rightarrow> runtime_policy_mode \<Rightarrow> bool \<Rightarrow> compiled_execution_policy" where
  "compile_execution_policy mode runtime_policy_mode supports_network =
     (let engine = from_runtime_policy_mode runtime_policy_mode;
          file_write = engine_evaluate engine (operation_new FileWrite ''write workspace files'') supports_network;
          process_exec = engine_evaluate engine (operation_new ProcessExec ''execute workspace processes'') supports_network;
          network_access = engine_evaluate engine (operation_new NetworkAccess ''access the network'') supports_network
      in \<lparr>cx_permission_policy =
            (case mode of
               ModeReadonly \<Rightarrow> PermReadOnly
             | ModeRepoWriteWithApproval \<Rightarrow>
                 (case file_write of Deny _ \<Rightarrow> PermReadOnly | _ \<Rightarrow> PermRepoWriteWithApproval)
             | ModeWorkspaceWrite \<Rightarrow>
                 (case file_write of Deny _ \<Rightarrow> PermReadOnly
                  | RequireApproval _ \<Rightarrow> PermWorkspaceWriteWithApproval | Allow \<Rightarrow> PermWorkspaceWrite)
             | ModeWorktreeWrite \<Rightarrow>
                 (case file_write of Deny _ \<Rightarrow> PermReadOnly
                  | RequireApproval _ \<Rightarrow> PermWorkspaceWriteWithApproval | Allow \<Rightarrow> PermWorkspaceWrite)
             | _ \<Rightarrow> PermReadOnly),
          cx_process_exec = (case process_exec of Deny _ \<Rightarrow> ExecDenied | _ \<Rightarrow> ExecAllowAll),
          cx_network_policy = (case network_access of Deny _ \<Rightarrow> NetNone | _ \<Rightarrow> NetOpen)\<rparr>)"

definition push_unique :: "workspace_path list \<Rightarrow> workspace_path \<Rightarrow> workspace_path list" where
  "push_unique paths path = (if path \<in> set paths then paths else paths @ [path])"

definition sandbox_profile_for :: "workspace_path \<Rightarrow> workspace_path \<Rightarrow> workspace_path \<Rightarrow> workspace_path \<Rightarrow>
    permission_policy \<Rightarrow> process_exec_policy \<Rightarrow> workspace_path list \<Rightarrow> sandbox_profile" where
  "sandbox_profile_for workspace_root effective_cwd artifact_root repo_root permission process_exec denied =
     (let read_roots = push_unique [workspace_root] effective_cwd;
          (reads, writes) =
            (if permission = PermReadOnly then (read_roots, [])
             else if permission \<in> {PermRepoWriteWithApproval, PermUnrestricted}
             then (push_unique read_roots repo_root, push_unique (push_unique [] repo_root) artifact_root)
             else (read_roots, push_unique (push_unique [] effective_cwd) artifact_root))
      in \<lparr>sp_read_roots = reads, sp_write_roots = writes, sp_denied_roots = denied,
          sp_process_exec = process_exec\<rparr>)"

definition path_allowed :: "workspace_path list \<Rightarrow> workspace_path \<Rightarrow> bool" where
  "path_allowed roots path = list_ex (\<lambda>r. path_starts_with (path_str path) (path_str r)) roots"

definition require_parent_write :: "execution_context \<Rightarrow> workspace_mode \<Rightarrow> workspace_path \<Rightarrow>
    (unit, run_execution_error) result" where
  "require_parent_write parent mode path =
     (if ec_permission_policy parent = PermReadOnly \<or>
         \<not> path_allowed (sp_write_roots (ec_sandbox_profile parent)) path
      then Err (context_inheritance_unsupported (workspace_mode_debug mode)
        ''the requested child scope would widen the parent filesystem authority'')
      else Ok ())"

definition child_workspace_write_permission :: "permission_policy \<Rightarrow> permission_policy" where
  "child_workspace_write_permission parent =
     (case parent of
        PermWorkspaceWriteWithApproval \<Rightarrow> PermWorkspaceWriteWithApproval
      | PermRepoWriteWithApproval \<Rightarrow> PermWorkspaceWriteWithApproval
      | PermWorkspaceWrite \<Rightarrow> PermWorkspaceWrite
      | PermUnrestricted \<Rightarrow> PermWorkspaceWrite
      | PermReadOnly \<Rightarrow> PermReadOnly)"

definition child_permission :: "execution_context \<Rightarrow> workspace_mode \<Rightarrow> workspace_path \<Rightarrow>
    (permission_policy, run_execution_error) result" where
  "child_permission parent mode repo_root =
     (case mode of
        ModeReadonly \<Rightarrow> Ok PermReadOnly
      | ModeWorkspaceWrite \<Rightarrow>
          try_then (require_parent_write parent mode (ec_workspace_root parent))
            (\<lambda>_. Ok (child_workspace_write_permission (ec_permission_policy parent)))
      | ModeWorktreeWrite \<Rightarrow>
          try_then (require_parent_write parent mode (ec_effective_cwd parent))
            (\<lambda>_. Ok (child_workspace_write_permission (ec_permission_policy parent)))
      | ModeRepoWriteWithApproval \<Rightarrow>
          try_then (require_parent_write parent mode repo_root) (\<lambda>_. Ok PermRepoWriteWithApproval)
      | _ \<Rightarrow> Err (context_inheritance_unsupported (workspace_mode_debug mode)
          ''the requested child workspace scope is not implemented''))"

definition compile_child_execution_policy :: "execution_context \<Rightarrow> workspace_mode \<Rightarrow> workspace_path \<Rightarrow>
    (compiled_execution_policy, run_execution_error) result" where
  "compile_child_execution_policy parent mode repo_root =
     (if \<not> path_allowed (sp_read_roots (ec_sandbox_profile parent)) (ec_workspace_root parent)
      then Err (context_inheritance_unsupported (workspace_mode_debug mode)
        ''the parent context does not grant read access to its workspace root'')
      else try_then (child_permission parent mode repo_root) (\<lambda>permission.
        Ok \<lparr>cx_permission_policy = permission,
            cx_process_exec = sp_process_exec (ec_sandbox_profile parent),
            cx_network_policy = ec_network_policy parent\<rparr>))"

section \<open>The context\<close>

text \<open>\<open>sort\<close> and \<open>dedup\<close>; the count is a \<open>u32\<close>.\<close>

definition conflict_summary_for_warning :: "conflict_warning \<Rightarrow> conflict_summary" where
  "conflict_summary_for_warning w =
     \<lparr>cs_warning_count = of_nat (length (cw_conflicts w)),
      cs_files = remdups_adj (sort (map fc_file (cw_conflicts w)))\<rparr>"

text \<open>
  \<open>prepare_execution_context_from_workspace\<close> after the dispatch; \<open>canonical\<close> is
  \<open>WorkspacePath::canonicalize_existing\<close> with the text of its error.
\<close>

definition context_of_dispatch :: "(string \<Rightarrow> (workspace_path, string) result) \<Rightarrow> execution_workspace_input \<Rightarrow>
    dispatch_workspace \<Rightarrow> (prepared_execution_context, run_execution_error) result" where
  "context_of_dispatch canonical input dispatch =
     try_then (map_err ExecutionContextPathInvalid (canonical (dw_effective_cwd dispatch))) (\<lambda>effective_cwd.
     try_then (workspace_scope_for (xr_workspace_mode (xi_request input)) (xi_workspace_root input)
         (xi_parent_repo input) effective_cwd (dw_worktree_info dispatch)) (\<lambda>scope.
       let compiled = xi_compiled_policy input;
           sandbox = sandbox_profile_for (xi_workspace_root input) effective_cwd (xi_artifact_root input)
             (xi_parent_repo input) (cx_permission_policy compiled) (cx_process_exec compiled) (xi_denied_roots input)
       in Ok \<lparr>px_execution_context =
               \<lparr>ec_workspace_id = xi_workspace_id input, ec_workspace_root = xi_workspace_root input,
                ec_effective_cwd = effective_cwd, ec_artifact_root = xi_artifact_root input,
                ec_workspace_scope = scope, ec_sandbox_profile = sandbox,
                ec_permission_policy = cx_permission_policy compiled,
                ec_network_policy = cx_network_policy compiled, ec_env_policy = xi_env_policy input\<rparr>,
             px_workspace_info = dw_worktree_info dispatch,
             px_claimed_files = dw_claimed_files dispatch,
             px_conflict_warning = dw_conflict_warning dispatch,
             px_conflict_summary = map_option conflict_summary_for_warning (dw_conflict_warning dispatch)\<rparr>))"

text \<open>
  The input for a run of a user: a workspace the user trusts, and the policy of the profile;
  \<open>artifact_root\<close> is the directory of the artifacts, created and made canonical.
\<close>

definition root_context_input :: "(workspace_path, string) result \<Rightarrow> bool \<Rightarrow> workspace \<Rightarrow>
    runtime_policy_mode \<Rightarrow> execution_context_request \<Rightarrow> (execution_workspace_input, run_execution_error) result" where
  "root_context_input artifact_root supports_network w policy_mode request =
     (case ws_trust_state w of
        UserConfirmed _ \<Rightarrow>
          try_then (map_err ExecutionContextPathInvalid artifact_root) (\<lambda>artifacts.
            Ok \<lparr>xi_workspace_id = ws_id w, xi_workspace_root = ws_root_realpath w,
                xi_parent_repo = unwrap_or (ws_git_repo_root w) (ws_root_realpath w),
                xi_artifact_root = artifacts, xi_request = request,
                xi_compiled_policy =
                  compile_execution_policy (xr_workspace_mode request) policy_mode supports_network,
                xi_env_policy = workspace_default_env, xi_denied_roots = []\<rparr>)
      | _ \<Rightarrow> Err (WorkspaceTrustRequired (as_str (ws_id w))))"

text \<open>The input for a child run: the session's workspace as the parent knew it, and its policy.\<close>

definition child_context_input :: "workspace \<Rightarrow> execution_context \<Rightarrow> execution_context_request \<Rightarrow>
    (execution_workspace_input, run_execution_error) result" where
  "child_context_input w parent request =
     (if ws_id w \<noteq> ec_workspace_id parent \<or> ws_root_realpath w \<noteq> ec_workspace_root parent
      then Err (context_inheritance_unsupported (workspace_mode_debug (xr_workspace_mode request))
        ''the parent execution context no longer matches the session workspace'')
      else
        let parent_repo = unwrap_or (ws_git_repo_root w) (ws_root_realpath w)
        in try_then (compile_child_execution_policy parent (xr_workspace_mode request) parent_repo) (\<lambda>compiled.
           Ok \<lparr>xi_workspace_id = ec_workspace_id parent, xi_workspace_root = ec_workspace_root parent,
               xi_parent_repo = parent_repo, xi_artifact_root = ec_artifact_root parent,
               xi_request = request, xi_compiled_policy = compiled, xi_env_policy = ec_env_policy parent,
               xi_denied_roots = sp_denied_roots (ec_sandbox_profile parent)\<rparr>))"

section \<open>A frozen context decides as the policy it was made from\<close>

datatype decision_kind = KindAllow | KindRequireApproval | KindDeny

fun kind_of :: "policy_decision \<Rightarrow> decision_kind" where
  "kind_of Allow = KindAllow"
| "kind_of (RequireApproval _) = KindRequireApproval"
| "kind_of (Deny _) = KindDeny"

lemma context_kind:
  "kind_of (evaluate_execution_context c op) =
     (if (case op_scope op of
            FileWrite \<Rightarrow> ec_permission_policy c = PermReadOnly \<or> sp_write_roots (ec_sandbox_profile c) = []
          | ProcessExec \<Rightarrow> sp_process_exec (ec_sandbox_profile c) = ExecDenied
          | NetworkAccess \<Rightarrow> ec_network_policy c = NetNone) then KindDeny
      else if ec_permission_policy c \<in> {PermWorkspaceWriteWithApproval, PermRepoWriteWithApproval}
      then KindRequireApproval else KindAllow)"
  by (cases "op_scope op"; cases "ec_permission_policy c")
     (simp_all add: evaluate_execution_context_def denied_reason_def Let_def)

lemma policy_kind:
  "kind_of (evaluate_runtime_policy mode op lane) =
     (if op_scope op = NetworkAccess \<and> \<not> lane then KindDeny
      else case mode of ModeRequireApproval \<Rightarrow> KindRequireApproval | ModeAllow \<Rightarrow> KindAllow | ModeDeny \<Rightarrow> KindDeny)"
  by (cases mode) (simp_all add: evaluate_runtime_policy_def)

lemma context_of_dispatch_Ok:
  assumes "context_of_dispatch canonical input dispatch = Ok px"
  shows "ec_permission_policy (px_execution_context px) = cx_permission_policy (xi_compiled_policy input)"
    "ec_network_policy (px_execution_context px) = cx_network_policy (xi_compiled_policy input)"
    "ec_env_policy (px_execution_context px) = xi_env_policy input"
    "canonical (dw_effective_cwd dispatch) = Ok (ec_effective_cwd (px_execution_context px))"
    "ec_sandbox_profile (px_execution_context px) = sandbox_profile_for (xi_workspace_root input)
       (ec_effective_cwd (px_execution_context px)) (xi_artifact_root input) (xi_parent_repo input)
       (cx_permission_policy (xi_compiled_policy input)) (cx_process_exec (xi_compiled_policy input))
       (xi_denied_roots input)"
  using assms by (auto simp: context_of_dispatch_def try_then_Ok_iff Let_def)

lemma push_unique_set [simp]: "set (push_unique ps p) = insert p (set ps)" "push_unique ps p \<noteq> []"
  by (auto simp: push_unique_def)

lemma sandbox_profile_simps [simp]:
  "sp_process_exec (sandbox_profile_for w c a r p e d) = e"
  "sp_denied_roots (sandbox_profile_for w c a r p e d) = d"
  "set (sp_write_roots (sandbox_profile_for w c a r p e d)) =
     (if p = PermReadOnly then {} else if p \<in> {PermRepoWriteWithApproval, PermUnrestricted} then {r, a} else {c, a})"
  by (auto simp: sandbox_profile_for_def Let_def)

lemma sandbox_writes_empty [simp]: "sp_write_roots (sandbox_profile_for w c a r p e d) = [] \<longleftrightarrow> p = PermReadOnly"
  by (simp add: sandbox_profile_for_def Let_def)

text \<open>
  The context frozen for a run of a user who may write to the workspace decides every
  operation the way the policy of the runtime profile decided when the run was made: writing,
  executing and reaching the network are allowed, need an approval or are denied by the one
  exactly when by the other. A run is only given a context in a workspace the user trusts.
\<close>

theorem frozen_context_decides_as_policy:
  assumes input: "root_context_input artifact_root supports_network w mode request = Ok input"
    and px: "context_of_dispatch canonical input dispatch = Ok px"
    and writes: "xr_workspace_mode request \<in> {ModeWorkspaceWrite, ModeWorktreeWrite}"
  shows "kind_of (evaluate_execution_context (px_execution_context px) op) =
      kind_of (evaluate_runtime_policy mode op supports_network) \<and>
    (\<exists>who. ws_trust_state w = UserConfirmed who)"
proof -
  have i: "xi_compiled_policy input =
      compile_execution_policy (xr_workspace_mode request) mode supports_network"
    and trust: "\<exists>who. ws_trust_state w = UserConfirmed who"
    using input by (auto simp: root_context_input_def try_then_Ok_iff split: trust_state.splits)
  note c = context_of_dispatch_Ok [OF px]
  show ?thesis using writes trust
    by (cases mode; cases "op_scope op")
       (auto simp: context_kind policy_kind c i compile_execution_policy_def engine_evaluate_def
         from_runtime_policy_mode_def evaluate_runtime_policy_def operation_new_def Let_def)
qed

section \<open>The authority of a child\<close>

lemma child_permission_Ok:
  assumes "child_permission parent mode repo = Ok p"
  shows "p \<noteq> PermReadOnly \<Longrightarrow> ec_permission_policy parent \<noteq> PermReadOnly \<and>
      path_allowed (sp_write_roots (ec_sandbox_profile parent))
        (if mode = ModeWorkspaceWrite then ec_workspace_root parent
         else if mode = ModeWorktreeWrite then ec_effective_cwd parent else repo)"
    and "ec_permission_policy parent \<in> {PermWorkspaceWriteWithApproval, PermRepoWriteWithApproval} \<Longrightarrow>
      mode \<noteq> ModeReadonly \<Longrightarrow> p \<in> {PermWorkspaceWriteWithApproval, PermRepoWriteWithApproval}"
    and "p \<in> {PermRepoWriteWithApproval, PermUnrestricted} \<Longrightarrow> mode = ModeRepoWriteWithApproval"
    and "p \<noteq> PermReadOnly \<Longrightarrow> mode \<in> {ModeWorkspaceWrite, ModeWorktreeWrite, ModeRepoWriteWithApproval}"
  using assms
  by (cases mode; cases "ec_permission_policy parent";
      auto simp: child_permission_def try_then_Ok_iff require_parent_write_def
        child_workspace_write_permission_def split: if_splits)+

lemma path_allowed_nonempty: "path_allowed roots p \<Longrightarrow> roots \<noteq> []"
  by (auto simp: path_allowed_def)

text \<open>
  C14. A child run or a fork never has more authority than its parent: what the frozen context of
  the parent denies, the child's denies; where the parent needs an approval, the child needs one
  too or is denied, except for executing and reaching the network in the readonly scope; and a
  directory the child may write is inside one the parent may write, or is the artifact directory,
  or is the child's own worktree. Environment, network and denied directories are the parent's.
  The dispatch gives a run outside a worktree the workspace root as its directory.
\<close>

theorem child_authority_within_parent:
  assumes input: "child_context_input w parent request = Ok input"
    and px: "context_of_dispatch canonical input dispatch = Ok px"
    and cwd: "xr_workspace_mode request \<noteq> ModeWorktreeWrite \<longrightarrow>
      canonical (dw_effective_cwd dispatch) = Ok (ec_workspace_root parent)"
    and child: "child = px_execution_context px"
  shows "(kind_of (evaluate_execution_context parent op) = KindDeny \<longrightarrow>
        kind_of (evaluate_execution_context child op) = KindDeny) \<and>
    (kind_of (evaluate_execution_context parent op) = KindRequireApproval \<and>
       kind_of (evaluate_execution_context child op) = KindAllow \<longrightarrow>
        xr_workspace_mode request = ModeReadonly \<and> op_scope op \<noteq> FileWrite) \<and>
    (\<forall>r \<in> set (sp_write_roots (ec_sandbox_profile child)).
        path_allowed (sp_write_roots (ec_sandbox_profile parent)) r \<or> r = ec_artifact_root parent \<or>
        xr_workspace_mode request = ModeWorktreeWrite \<and> r = ec_effective_cwd child) \<and>
    ec_env_policy child = ec_env_policy parent \<and> ec_network_policy child = ec_network_policy parent \<and>
    sp_denied_roots (ec_sandbox_profile child) = sp_denied_roots (ec_sandbox_profile parent)"
proof -
  let ?mode = "xr_workspace_mode request" and ?repo = "xi_parent_repo input"
  obtain p where p: "child_permission parent ?mode ?repo = Ok p"
    and i: "cx_permission_policy (xi_compiled_policy input) = p"
      "cx_process_exec (xi_compiled_policy input) = sp_process_exec (ec_sandbox_profile parent)"
      "cx_network_policy (xi_compiled_policy input) = ec_network_policy parent"
      "xi_env_policy input = ec_env_policy parent" "xi_artifact_root input = ec_artifact_root parent"
      "xi_denied_roots input = sp_denied_roots (ec_sandbox_profile parent)"
    using input by (auto simp: child_context_input_def compile_child_execution_policy_def Let_def
        try_then_Ok_iff split: if_splits)
  note c = context_of_dispatch_Ok [OF px, folded child, unfolded i]
  note perm = child_permission_Ok [OF p]
  have cwd': "ec_effective_cwd child = ec_workspace_root parent" if "?mode \<noteq> ModeWorktreeWrite"
    using cwd that c(4) by simp
  have "kind_of (evaluate_execution_context child op) = KindDeny"
    if "kind_of (evaluate_execution_context parent op) = KindDeny"
    using that perm(1) by (auto simp: context_kind c dest: path_allowed_nonempty split: approval_scope.splits if_splits)
  moreover have "?mode = ModeReadonly \<and> op_scope op \<noteq> FileWrite"
    if "kind_of (evaluate_execution_context parent op) = KindRequireApproval"
      and "kind_of (evaluate_execution_context child op) = KindAllow"
  proof -
    have asks: "ec_permission_policy parent \<in> {PermWorkspaceWriteWithApproval, PermRepoWriteWithApproval}"
      using that(1) by (auto simp: context_kind split: if_splits)
    have "p \<notin> {PermWorkspaceWriteWithApproval, PermRepoWriteWithApproval}"
      using that(2) by (auto simp: context_kind c split: if_splits)
    then have ro: "?mode = ModeReadonly" using perm(2) [OF asks] by blast
    then have "p = PermReadOnly" using p by (simp add: child_permission_def)
    with that(2) ro show ?thesis by (auto simp: context_kind c)
  qed
  moreover have "path_allowed (sp_write_roots (ec_sandbox_profile parent)) r \<or> r = ec_artifact_root parent \<or>
      ?mode = ModeWorktreeWrite \<and> r = ec_effective_cwd child"
    if r: "r \<in> set (sp_write_roots (ec_sandbox_profile child))" for r
  proof -
    have np: "p \<noteq> PermReadOnly" using r by (auto simp: c)
    show ?thesis
    proof (cases "p \<in> {PermRepoWriteWithApproval, PermUnrestricted}")
      case True
      then have "?mode = ModeRepoWriteWithApproval" by (rule perm(3))
      with r perm(1) [OF np] True show ?thesis by (auto simp: c)
    next
      case False
      then have "r \<in> {ec_effective_cwd child, ec_artifact_root parent}" using r np by (auto simp: c)
      moreover have "p = PermRepoWriteWithApproval" if "?mode = ModeRepoWriteWithApproval"
        using p that by (auto simp: child_permission_def try_then_Ok_iff)
      ultimately show ?thesis using perm(1,4) [OF np] False cwd' by auto
    qed
  qed
  ultimately show ?thesis using c by simp
qed

definition demo_space :: workspace where
  "demo_space = \<lparr>ws_id = Ident ''w'', ws_root_realpath = WorkspacePath ''/w'', ws_display_name = ''w'',
     ws_trust_state = UserConfirmed ''t'', ws_git_repo_root = None, ws_created_at = ''t'', ws_last_used_at = ''t''\<rparr>"

definition demo_dispatch :: dispatch_workspace where
  "demo_dispatch = \<lparr>dw_effective_cwd = ''/w'', dw_worktree_info = None, dw_claimed_files = [],
     dw_conflict_warning = None\<rparr>"

definition demo_canonical :: "string \<Rightarrow> (workspace_path, string) result" where
  "demo_canonical p = Ok (WorkspacePath p)"

text \<open>A parent that needs an approval for everything, and the contexts made from it.\<close>

definition demo_root_context :: execution_context where
  "demo_root_context = (case root_context_input (Ok (WorkspacePath ''/a'')) True demo_space ModeRequireApproval
       workspace_write_request of
     Inr input \<Rightarrow> (case context_of_dispatch demo_canonical input demo_dispatch of
       Inr px \<Rightarrow> px_execution_context px | Inl e \<Rightarrow> undefined) | Inl e \<Rightarrow> undefined)"

lemmas demo_context_defs = demo_root_context_def root_context_input_def context_of_dispatch_def demo_space_def
  workspace_write_request_def compile_execution_policy_def engine_evaluate_def from_runtime_policy_mode_def
  evaluate_runtime_policy_def operation_new_def demo_canonical_def demo_dispatch_def workspace_scope_for_def
  sandbox_profile_for_def push_unique_def Let_def

lemma demo_root_context_eq:
  "demo_root_context = \<lparr>ec_workspace_id = Ident ''w'', ec_workspace_root = WorkspacePath ''/w'',
     ec_effective_cwd = WorkspacePath ''/w'', ec_artifact_root = WorkspacePath ''/a'',
     ec_workspace_scope = ScopeLocal (WorkspacePath ''/w''),
     ec_sandbox_profile = \<lparr>sp_read_roots = [WorkspacePath ''/w''],
       sp_write_roots = [WorkspacePath ''/w'', WorkspacePath ''/a''], sp_denied_roots = [],
       sp_process_exec = ExecAllowAll\<rparr>,
     ec_permission_policy = PermWorkspaceWriteWithApproval, ec_network_policy = NetOpen,
     ec_env_policy = workspace_default_env\<rparr>"
  by (simp add: demo_context_defs)

theorem frozen_context_decides_as_policy_witness:
  "kind_of (evaluate_execution_context demo_root_context (operation_new FileWrite ''edit'')) = KindRequireApproval"
proof -
  obtain input where i: "root_context_input (Ok (WorkspacePath ''/a'')) True demo_space ModeRequireApproval
      workspace_write_request = Ok input" by (simp add: root_context_input_def demo_space_def)
  moreover obtain px where px: "context_of_dispatch demo_canonical input demo_dispatch = Ok px"
    using i by (auto simp: root_context_input_def demo_space_def context_of_dispatch_def demo_canonical_def
        workspace_write_request_def workspace_scope_for_def Let_def)
  ultimately have "demo_root_context = px_execution_context px" by (simp add: demo_root_context_def)
  with frozen_context_decides_as_policy [OF i px, of "operation_new FileWrite ''edit''"] show ?thesis
    by (simp add: workspace_write_request_def policy_kind operation_new_def)
qed

definition demo_child_context :: "workspace_mode \<Rightarrow> execution_context" where
  "demo_child_context mode = (case child_context_input demo_space demo_root_context
       (workspace_write_request\<lparr>xr_workspace_mode := mode\<rparr>) of
     Inr input \<Rightarrow> (case context_of_dispatch demo_canonical input demo_dispatch of
       Inr px \<Rightarrow> px_execution_context px | Inl e \<Rightarrow> undefined) | Inl e \<Rightarrow> undefined)"

lemmas demo_child_defs = child_context_input_def demo_root_context_eq demo_space_def workspace_write_request_def
  compile_child_execution_policy_def child_permission_def require_parent_write_def path_allowed_def
  child_workspace_write_permission_def context_of_dispatch_def demo_canonical_def demo_dispatch_def
  workspace_scope_for_def sandbox_profile_for_def push_unique_def Let_def

theorem child_authority_within_parent_witness:
  "kind_of (evaluate_execution_context (demo_child_context ModeWorkspaceWrite)
     (operation_new ProcessExec ''ls'')) \<noteq> KindAllow"
proof -
  obtain input where i: "child_context_input demo_space demo_root_context
      (workspace_write_request\<lparr>xr_workspace_mode := ModeWorkspaceWrite\<rparr>) = Ok input"
    by (simp add: demo_child_defs)
  moreover obtain px where px: "context_of_dispatch demo_canonical input demo_dispatch = Ok px"
    using i by (auto simp: demo_child_defs)
  ultimately have child: "demo_child_context ModeWorkspaceWrite = px_execution_context px"
    by (simp add: demo_child_context_def)
  have "kind_of (evaluate_execution_context demo_root_context (operation_new ProcessExec ''ls'')) = KindRequireApproval"
    by (simp add: context_kind operation_new_def demo_root_context_eq)
  with child_authority_within_parent [OF i px _ child, of "operation_new ProcessExec ''ls''"] show ?thesis
    by (auto simp: demo_canonical_def demo_dispatch_def demo_root_context_eq)
qed

text \<open>
  The exception is real: a readonly child of a parent that needs an approval to execute and to
  reach the network does both without.
\<close>

lemma readonly_child_needs_no_approval:
  "kind_of (evaluate_execution_context demo_root_context (operation_new ProcessExec ''ls'')) = KindRequireApproval"
  "kind_of (evaluate_execution_context (demo_child_context ModeReadonly) (operation_new ProcessExec ''ls'')) = KindAllow"
  "kind_of (evaluate_execution_context (demo_child_context ModeReadonly) (operation_new NetworkAccess ''get'')) = KindAllow"
  by (simp_all add: context_kind operation_new_def demo_child_context_def demo_child_defs)

end
