(* ===== verification/ForkSnapshot.thy ===== *)
theory ForkSnapshot
  imports MemoryStore AgentSession RunErrors
begin

text \<open>
  The conversation a forked run starts from
  (\<open>crates/ta-orchestrator/src/orchestration/run_execution/fork_snapshot.rs\<close>): the parent's events
  and turn rows up to the fork point, read from the store page by page, the check that the fork
  point lies between two turns, and the messages made from the rows. The decoder of JSON texts
  is an argument.
\<close>

section \<open>Reading the parent's events\<close>

definition fork_replay_batch_limit :: nat where
  "fork_replay_batch_limit = 500"

definition fork_replay_total_limit :: nat where
  "fork_replay_total_limit = 10000"

record 'j fork_initial_state =
  fi_messages :: "'j stream_message list"
  fi_provider_session_id :: "string option"

definition fork_point :: "run_id \<Rightarrow> nat \<Rightarrow> string" where
  "fork_point i boundary = as_str i @ '':'' @ dec boundary"

text \<open>One page: the records up to the boundary, and whether it was passed.\<close>

fun collect_until :: "nat \<Rightarrow> event_record list \<Rightarrow> event_record list \<Rightarrow> nat option \<Rightarrow>
    event_record list \<times> nat option \<times> bool" where
  "collect_until boundary [] events after_seq = (events, after_seq, False)"
| "collect_until boundary (r # rs) events after_seq =
     (if ev_sequence r > boundary then (events, after_seq, True)
      else collect_until boundary rs (events @ [r]) (Some (ev_sequence r)))"

lemma collect_until_all:
  "collect_until boundary rs events after_seq = (events', after', False) \<Longrightarrow> events' = events @ rs"
  by (induction rs arbitrary: events after_seq) (fastforce split: if_splits)+

function read_events_loop :: "memory_store \<Rightarrow> session_id \<Rightarrow> run_id \<Rightarrow> nat \<Rightarrow> event_record list \<Rightarrow> nat option \<Rightarrow>
    (event_record list, run_execution_error) result" where
  "read_events_loop st s i boundary events after_seq =
     (if length events \<ge> fork_replay_total_limit
      then Err (RunForkPointNotFound (fork_point i boundary @ '' exceeds replay limit''))
      else
        let remaining = fork_replay_total_limit - length events;
            range = read_run_events \<lparr>rq'_session_id = s, rq'_run_id = i, rq'_after_sequence = after_seq,
              rq'_limit = min remaining fork_replay_batch_limit\<rparr> st
        in if rr'_records range = [] then Ok events
           else (case collect_until boundary (rr'_records range) events after_seq of
             (events', after', beyond) \<Rightarrow>
               if beyond then Ok events' else read_events_loop st s i boundary events' after'))"
  by pat_completeness auto
termination
proof (relation "measure (\<lambda>(st, s, i, boundary, events, after_seq). fork_replay_total_limit - length events)")
  fix st s i boundary events after_seq and range :: run_event_range and events' rest after' and beyond :: bool
  assume few: "\<not> fork_replay_total_limit \<le> length events" and "rr'_records range \<noteq> []"
    and p: "(events', rest) = collect_until boundary (rr'_records range) events after_seq"
      "(after', beyond) = rest" "\<not> beyond"
  then have "length events < length events'"
    using collect_until_all [of boundary "rr'_records range" events after_seq events' after'] by simp
  with few show "((st, s, i, boundary, events', after'), st, s, i, boundary, events, after_seq)
      \<in> measure (\<lambda>(st, s, i, boundary, events, after_seq). fork_replay_total_limit - length events)"
    by (simp add: diff_less_mono2)
qed simp

declare read_events_loop.simps [simp del]

definition read_parent_events_until :: "memory_store \<Rightarrow> session_id \<Rightarrow> run_id \<Rightarrow> nat \<Rightarrow>
    (event_record list, run_execution_error) result" where
  "read_parent_events_until st s i boundary = read_events_loop st s i boundary [] None"

section \<open>The fork point lies between two turns\<close>

type_synonym open_turns = "turn_id option set \<times> (turn_id option \<times> string option) set"

definition track_open :: "event_record \<Rightarrow> open_turns \<Rightarrow> open_turns" where
  "track_open r acc =
     (case ev_payload r of
        EvAgentStream e \<Rightarrow>
          let turn = em_turn_id (as_emission e);
              call = (turn, map_option as_str (em_item_id (as_emission e)))
          in (case em_frame (as_emission e) of
                AssistantTurnStarted \<Rightarrow> (insert turn (fst acc), snd acc)
              | AssistantTurnCompleted \<Rightarrow> (fst acc - {turn}, snd acc)
              | ToolCallStarted _ _ \<Rightarrow> (fst acc, insert call (snd acc))
              | ToolCallCompleted _ \<Rightarrow> (fst acc, snd acc - {call})
              | _ \<Rightarrow> acc)
      | _ \<Rightarrow> acc)"

definition next_event_continues_same_turn :: "memory_store \<Rightarrow> session_id \<Rightarrow> run_id \<Rightarrow> nat \<Rightarrow> event_record \<Rightarrow> bool" where
  "next_event_continues_same_turn st s i boundary last_record =
     (case ev_payload last_record of
        EvAgentStream last_stream \<Rightarrow>
          (case rr'_records (read_run_events \<lparr>rq'_session_id = s, rq'_run_id = i,
                   rq'_after_sequence = Some boundary, rq'_limit = 1\<rparr> st) of
             [] \<Rightarrow> False
           | n # _ \<Rightarrow>
               (case ev_payload n of
                  EvAgentStream next_stream \<Rightarrow>
                    em_turn_id (as_emission next_stream) = em_turn_id (as_emission last_stream) \<and>
                    (case em_frame (as_emission next_stream) of
                       ToolCallStarted _ _ \<Rightarrow> True
                     | ToolCallCompleted _ \<Rightarrow> True
                     | PendingStateChanged _ \<Rightarrow> True
                     | _ \<Rightarrow> False)
                | _ \<Rightarrow> False))
      | _ \<Rightarrow> False)"

definition validate_fork_boundary :: "memory_store \<Rightarrow> session_id \<Rightarrow> run_id \<Rightarrow> nat \<Rightarrow> event_record list \<Rightarrow>
    (unit, run_execution_error) result" where
  "validate_fork_boundary st s i boundary events =
     (case List.find (\<lambda>r. ev_sequence r = boundary) events of
        None \<Rightarrow> Err (RunForkPointNotFound (fork_point i boundary))
      | Some last_record \<Rightarrow>
          if fold track_open events ({}, {}) \<noteq> ({}, {})
          then Err (RunForkPointNotTurnBoundary (fork_point i boundary))
          else if next_event_continues_same_turn st s i boundary last_record
          then Err (RunForkPointNotTurnBoundary (fork_point i boundary))
          else Ok ())"

section \<open>Reading the parent's rows\<close>

fun row_run_id :: "agent_turn_row \<Rightarrow> run_id" where
  "row_run_id (RowAssistant r) = ar_run_id r"
| "row_run_id (RowToolCall r) = tr_run_id r"
| "row_run_id (RowPendingState r) = pr_run_id r"

lemma turn_page_rows:
  "turn_page_loop q rs rows = (rows', more_left) \<Longrightarrow>
   \<exists>new. rows' = rows @ new \<and>
     set new \<subseteq> {r \<in> set rs. none_or (\<lambda>b. row_sequence r < b) (tq_before_sequence q)}"
proof (induction q rs rows rule: turn_page_loop.induct)
  case (2 q r rs rows)
  consider (skip) "row_session_id r \<noteq> tq_session_id q \<or> some_and (\<lambda>b. row_sequence r \<ge> b) (tq_before_sequence q)"
    | (full) "row_session_id r = tq_session_id q" "\<not> some_and (\<lambda>b. row_sequence r \<ge> b) (tq_before_sequence q)"
        "length rows = tq_limit q"
    | (take) "row_session_id r = tq_session_id q" "\<not> some_and (\<lambda>b. row_sequence r \<ge> b) (tq_before_sequence q)"
        "length rows \<noteq> tq_limit q" by blast
  then show ?case
  proof cases
    case skip
    then have l: "turn_page_loop q rs rows = (rows', more_left)" using "2.prems" by (auto split: if_splits)
    show ?thesis
    proof (cases "row_session_id r = tq_session_id q")
      case True
      then have "\<not> row_session_id r \<noteq> tq_session_id q" "some_and (\<lambda>b. row_sequence r \<ge> b) (tq_before_sequence q)"
        using skip by auto
      from "2.IH"(2) [OF this l] show ?thesis by auto
    next
      case False
      from "2.IH"(1) [OF False l] show ?thesis by auto
    qed
  next
    case full
    then show ?thesis using "2.prems" by auto
  next
    case take
    then have "turn_page_loop q rs (rows @ [r]) = (rows', more_left)" using "2.prems" by auto
    from "2.IH"(3) [OF _ take(2) take(3) this] take(1) obtain new where
      "rows' = (rows @ [r]) @ new" "set new \<subseteq> {r \<in> set rs. none_or (\<lambda>b. row_sequence r < b) (tq_before_sequence q)}"
      by blast
    moreover have "none_or (\<lambda>b. row_sequence r < b) (tq_before_sequence q)"
      using take(2) by (cases "tq_before_sequence q") auto
    ultimately show ?thesis by (intro exI [of _ "r # new"]) auto
  qed
qed simp

lemma turn_page_next:
  assumes "tp_next_before_sequence (session_agent_turns_page_of q st) = Some b"
  shows "\<exists>r \<in> set (bt_values (ms_agent_turn_rows st)). row_sequence r = b \<and>
    none_or (\<lambda>b. row_sequence r < b) (tq_before_sequence q)"
proof -
  obtain rows m where l: "turn_page_loop q (rev (bt_values (ms_agent_turn_rows st))) [] = (rows, m)" by fastforce
  with assms have "rows \<noteq> []" "row_sequence (last rows) = b"
    by (auto simp: session_agent_turns_page_of_def split: if_splits)
  moreover from turn_page_rows [OF l] have "set rows \<subseteq> {r \<in> set (bt_values (ms_agent_turn_rows st)).
      none_or (\<lambda>b. row_sequence r < b) (tq_before_sequence q)}" by auto
  ultimately show ?thesis using last_in_set [of rows] by blast
qed

function read_rows_loop :: "memory_store \<Rightarrow> session_id \<Rightarrow> run_id \<Rightarrow> nat \<Rightarrow> agent_turn_row list \<Rightarrow> nat option \<Rightarrow>
    (agent_turn_row list, run_execution_error) result" where
  "read_rows_loop st s i boundary rows before =
     (if length rows \<ge> fork_replay_total_limit
      then Err (RunForkPointNotFound (fork_point i boundary @ '' exceeds turn-row replay limit''))
      else
        let remaining = fork_replay_total_limit - length rows;
            page = session_agent_turns_page_of \<lparr>tq_session_id = s, tq_before_sequence = before,
              tq_limit = min remaining fork_replay_batch_limit\<rparr> st
        in if tp_rows page = [] then Ok rows
           else
             let rows' = rows @ filter (\<lambda>r. row_run_id r = i \<and> row_sequence r \<le> boundary) (tp_rows page)
             in (case tp_next_before_sequence page of
                   None \<Rightarrow> Ok rows'
                 | Some next_before \<Rightarrow> read_rows_loop st s i boundary rows' (Some next_before)))"
  by pat_completeness auto
termination
proof (relation "measure (\<lambda>(st, s, i, boundary, rows, before).
    length (filter (\<lambda>r. none_or (\<lambda>b. row_sequence r < b) before) (bt_values (ms_agent_turn_rows st))))")
  fix st s i boundary rows before remaining page rows' next_before
  assume p: "page = session_agent_turns_page_of \<lparr>tq_session_id = s, tq_before_sequence = before,
      tq_limit = min remaining fork_replay_batch_limit\<rparr> st"
    and n: "tp_next_before_sequence page = Some next_before"
  let ?rows = "bt_values (ms_agent_turn_rows st)"
  obtain r where r: "r \<in> set ?rows" "row_sequence r = next_before" "none_or (\<lambda>b. row_sequence r < b) before"
    using turn_page_next [OF n [unfolded p]] by auto
  have imp: "none_or (\<lambda>b. row_sequence x < b) before" if "row_sequence x < next_before" for x
    using r that by (cases before) auto
  have "filter (\<lambda>r. row_sequence r < next_before) ?rows =
      filter (\<lambda>r. row_sequence r < next_before) (filter (\<lambda>r. none_or (\<lambda>b. row_sequence r < b) before) ?rows)"
    using imp by (auto simp: intro!: filter_cong)
  moreover have "length (filter (\<lambda>r. row_sequence r < next_before) xs) < length xs" if "r \<in> set xs" for xs
    using that r(2) by (intro length_filter_less) auto
  moreover have "r \<in> set (filter (\<lambda>r. none_or (\<lambda>b. row_sequence r < b) before) ?rows)" using r(1,3) by simp
  ultimately have "length (filter (\<lambda>r. row_sequence r < next_before) ?rows) <
      length (filter (\<lambda>r. none_or (\<lambda>b. row_sequence r < b) before) ?rows)" by (simp only:)
  then show "((st, s, i, boundary, rows', Some next_before), st, s, i, boundary, rows, before)
      \<in> measure (\<lambda>(st, s, i, boundary, rows, before).
          length (filter (\<lambda>r. none_or (\<lambda>b. row_sequence r < b) before) (bt_values (ms_agent_turn_rows st))))"
    by simp
qed simp

declare read_rows_loop.simps [simp del]

definition read_parent_turn_rows_until :: "memory_store \<Rightarrow> session_id \<Rightarrow> run_id \<Rightarrow> nat \<Rightarrow>
    (agent_turn_row list, run_execution_error) result" where
  "read_parent_turn_rows_until st s i boundary =
     try_then (read_rows_loop st s i boundary [] (if boundary = u64_max then None else Some (boundary + 1)))
       (\<lambda>rows. Ok (sort_key row_sequence rows))"

section \<open>The messages\<close>

definition tool_call_record_of :: "(string \<Rightarrow> ('j, string) result) \<Rightarrow> agent_tool_call_row \<Rightarrow>
    ('j tool_call_record, run_execution_error) result" where
  "tool_call_record_of parse_json row =
     (case tr_item_id row of
        None \<Rightarrow> Err (RunForkPointNotTurnBoundary ''fork snapshot has tool row without item id'')
      | Some item \<Rightarrow>
          (case parse_json (tr_input row) of
             Inl e \<Rightarrow> Err (RunForkPointNotTurnBoundary
               (''fork snapshot has invalid tool input JSON for '' @ as_str item @ '': '' @ e))
           | Inr input \<Rightarrow> Ok \<lparr>cr'_id = as_str item, cr'_name = tr_tool_name row, cr'_input = input\<rparr>))"

fun tool_call_records :: "(string \<Rightarrow> ('j, string) result) \<Rightarrow> agent_tool_call_row list \<Rightarrow>
    ('j tool_call_record list, run_execution_error) result" where
  "tool_call_records parse_json [] = Ok []"
| "tool_call_records parse_json (r # rs) =
     try_then (tool_call_record_of parse_json r) (\<lambda>c.
     try_then (tool_call_records parse_json rs) (\<lambda>cs. Ok (c # cs)))"

text \<open>The rows of the turn behind its assistant row, and what is left.\<close>

fun turn_tool_rows :: "turn_id option \<Rightarrow> agent_turn_row list \<Rightarrow> agent_tool_call_row list \<times> agent_turn_row list" where
  "turn_tool_rows turn (RowToolCall r # rest) =
     (if tr_turn_id r = turn
      then (case turn_tool_rows turn rest of (tools, left) \<Rightarrow> (r # tools, left)) else ([], RowToolCall r # rest))"
| "turn_tool_rows turn (RowPendingState r # rest) =
     (if pr_turn_id r = turn then turn_tool_rows turn rest else ([], RowPendingState r # rest))"
| "turn_tool_rows turn rest = ([], rest)"

lemma turn_tool_rows_length: "length (snd (turn_tool_rows turn rows)) \<le> length rows"
  by (induction turn rows rule: turn_tool_rows.induct) (auto split: prod.splits)

fun tool_result_messages :: "agent_tool_call_row list \<Rightarrow> ('j stream_message list, run_execution_error) result" where
  "tool_result_messages [] = Ok []"
| "tool_result_messages (r # rs) =
     (case tr_item_id r of
        None \<Rightarrow> Err (RunForkPointNotTurnBoundary ''fork snapshot has tool row without item id'')
      | Some item \<Rightarrow> try_then (tool_result_messages rs) (\<lambda>ms. Ok (tool_message (as_str item) (tr_output r) # ms)))"

function rows_to_messages :: "(string \<Rightarrow> ('j, string) result) \<Rightarrow> agent_turn_row list \<Rightarrow>
    ('j stream_message list, run_execution_error) result" where
  "rows_to_messages parse_json [] = Ok []"
| "rows_to_messages parse_json (row # rest) =
     (case row of
        RowAssistant assistant \<Rightarrow>
          (case turn_tool_rows (ar_turn_id assistant) rest of (tools, left) \<Rightarrow>
             try_then (tool_call_records parse_json tools) (\<lambda>calls.
             try_then (tool_result_messages tools) (\<lambda>results.
             try_then (rows_to_messages parse_json left) (\<lambda>ms.
               Ok (assistant_message (ar_text assistant) calls # results @ ms)))))
      | _ \<Rightarrow> Err (RunForkPointNotTurnBoundary ''fork snapshot has tool row without assistant row''))"
  by pat_completeness auto
termination
  by (relation "measure (\<lambda>(parse_json, rows). length rows)")
     (auto simp: le_imp_less_Suc dest!: sym [of "turn_tool_rows _ _"] intro: turn_tool_rows_length
       [THEN order_trans] | metis le_imp_less_Suc turn_tool_rows_length snd_conv)+

definition turn_rows_to_messages :: "(string \<Rightarrow> ('j, string) result) \<Rightarrow> string \<Rightarrow> agent_turn_row list \<Rightarrow>
    ('j stream_message list, run_execution_error) result" where
  "turn_rows_to_messages parse_json parent_objective rows =
     try_then (rows_to_messages parse_json rows) (\<lambda>ms. Ok (user_message parent_objective # ms))"

section \<open>The initial state\<close>

definition fork_initial_state_for_parent :: "(string \<Rightarrow> ('j, string) result) \<Rightarrow> memory_store \<Rightarrow> session_id \<Rightarrow>
    run_projection \<Rightarrow> nat \<Rightarrow> ('j fork_initial_state, run_execution_error) result" where
  "fork_initial_state_for_parent parse_json st s parent boundary =
     try_then (read_parent_events_until st s (rn_id parent) boundary) (\<lambda>events.
     try_then (validate_fork_boundary st s (rn_id parent) boundary events) (\<lambda>_.
     try_then (read_parent_turn_rows_until st s (rn_id parent) boundary) (\<lambda>rows.
     try_then (turn_rows_to_messages parse_json (rn_objective parent) rows) (\<lambda>messages.
       Ok \<lparr>fi_messages = messages, fi_provider_session_id = None\<rparr>))))"

definition build_fork_initial_state :: "(string \<Rightarrow> ('j, string) result) \<Rightarrow> memory_store \<Rightarrow> run_projection \<Rightarrow>
    ('j fork_initial_state option, run_execution_error) result" where
  "build_fork_initial_state parse_json st run =
     (case rn_source run of
        SourceForked parent_id parent_event_seq \<Rightarrow>
          (case bt_get (ms_runs st) parent_id of
             None \<Rightarrow> Err (RunNotFound (as_str parent_id))
           | Some parent \<Rightarrow>
               if rn_session_id parent \<noteq> rn_session_id run
               then Err (RunSessionMismatch (as_str (rn_id parent)))
               else if rn_harness parent \<noteq> HarnessNative
               then Err (RunNotNativeHarness (as_str (rn_id parent)))
               else try_then (fork_initial_state_for_parent parse_json st (rn_session_id run) parent parent_event_seq)
                 (\<lambda>state. Ok (Some state)))
      | _ \<Rightarrow> Ok None)"

definition fork_initial_state_for_run :: "(string \<Rightarrow> ('j, string) result) \<Rightarrow> session_id \<Rightarrow> run_id \<Rightarrow> memory_store \<Rightarrow>
    ('j fork_initial_state option, run_execution_error) result" where
  "fork_initial_state_for_run parse_json s i st =
     (case bt_get (ms_runs st) i of
        None \<Rightarrow> Err (RunNotFound (as_str i))
      | Some run \<Rightarrow>
          if rn_session_id run \<noteq> s then Err (RunSessionMismatch (as_str (rn_id run)))
          else build_fork_initial_state parse_json st run)"

end
