(* ===== verification/RunService.thy ===== *)
theory RunService
  imports MemoryStore Scheduler Claims ActiveExecution RunBudget ExecutionContexts ForkSnapshot
begin

text \<open>
  The state the run execution of the orchestrator works on, and the operations of its runtime
  (\<open>crates/ta-orchestrator/src/orchestration/service/run_execution.rs\<close>).

  Each shared part is behind a mutex of its own: the store, the live executions, the scheduler,
  the file claims, the resources of the runs. A thread works on them in locked sections; before
  each section the other threads may have done anything, which is the field \<open>se_others\<close> of the
  environment. Time, random identifiers, git, the file system, the provider's agent and its
  handle are fields of the environment, too; every use of it takes the next tick, so that two
  reads of the clock or two sections of other threads can differ.

  An operation gives \<open>None\<close> when it does not return: the fuel of one of its unbounded loops is used
  up, or the thread panics.
\<close>

section \<open>State\<close>

record 'w workspace_run_resources =
  wr_worktree :: "'w option"
  wr_claim :: "claim_handle option"

datatype worktree_mark = MarkSuccess | MarkFailed | MarkCancelled | MarkTerminal

record ('h, 'w) service =
  sv_store :: memory_store
  sv_active :: "'h active_execution_owner"
  sv_scheduler :: run_scheduler
  sv_claims :: claim_registry
  sv_resources :: "(run_id, 'w workspace_run_resources) btree"
  sv_marks :: "('w \<times> worktree_mark) list"
  sv_published :: "event_record list"
  sv_ticks :: nat

record runtime_profile_summary =
  rps_id :: runtime_profile_id
  rps_display_name :: string
  rps_provider_id :: string
  rps_model_id :: "model_id option"
  rps_auth_profile_id :: "string option"
  rps_policy_mode :: runtime_policy_mode

datatype agent_execution_harness = NativeLoop | AcpHarness | CodexAppServer

record capsule_recipe =
  cpr_id :: string
  cpr_name :: string
  cpr_description :: "string option"
  cpr_contract :: output_contract_kind
  cpr_prompt_template :: string
  cpr_default_model :: "string option"

text \<open>What \<open>create\<close> of the worktree manager returns: the handle, its path and its branch.\<close>

record 'w created_worktree =
  cwt_handle :: 'w
  cwt_path :: string
  cwt_branch :: string

text \<open>
  What the agent is started with; the recipes of the registry, which do not change while the
  daemon runs, go with it unseen (\<open>se_execute\<close> may depend on them).
\<close>

record 'j provider_run_start =
  ps_runtime_profile :: runtime_profile_summary
  ps_session_id :: session_id
  ps_run_id :: run_id
  ps_objective :: string
  ps_execution_context :: execution_context
  ps_fork_initial_state :: "'j fork_initial_state option"
  ps_output_contract :: "output_contract_kind option"
  ps_model_id :: "model_id option"

record ('h, 'w, 'j) service_env =
  se_others :: "nat \<Rightarrow> ('h, 'w) service \<Rightarrow> ('h, 'w) service"
  se_now :: "nat \<Rightarrow> nat"
  se_system_time :: "nat \<Rightarrow> system_time"
  se_receipt_time :: "nat \<Rightarrow> nat option"
  se_uuid :: "nat \<Rightarrow> string"
  se_sha256 :: "string \<Rightarrow> string"
  se_parse_json :: "string \<Rightarrow> ('j, string) result"
  se_selected_profile :: "nat \<Rightarrow> (runtime_profile_summary, agent_runtime_service_error) result"
  se_runtime_profile :: "nat \<Rightarrow> runtime_profile_id \<Rightarrow> (runtime_profile_summary, agent_runtime_service_error) result"
  se_harness :: "runtime_profile_summary \<Rightarrow> (agent_execution_harness, agent_runtime_service_error) result"
  se_execute :: "nat \<Rightarrow> 'j provider_run_start \<Rightarrow> ('h, agent_runtime_service_error) result"
  se_cancel :: "'h \<Rightarrow> (unit, string) result"
  se_resolve :: "'h \<Rightarrow> approval_resolution \<Rightarrow> (unit, string) result"
  se_handle_waits :: "nat \<Rightarrow> nat"
  se_create_worktree :: "nat \<Rightarrow> string \<Rightarrow> run_id \<Rightarrow> worktree_cleanup_policy \<Rightarrow> ('w created_worktree, string) result"
  se_is_dir :: "nat \<Rightarrow> string \<Rightarrow> bool"
  se_canonical :: "nat \<Rightarrow> string \<Rightarrow> (workspace_path, string) result"
  se_artifact_root :: "nat \<Rightarrow> (workspace_path, string) result"
  se_supports_network :: bool
  se_budget_policy :: budget_policy
  se_recipes :: "string \<Rightarrow> capsule_recipe option"
  se_error_text :: "run_execution_error \<Rightarrow> string"
  se_capability_text :: "workspace_capability_unsupported \<Rightarrow> string"
  se_validation_text :: "validation_error \<Rightarrow> string"

section \<open>Operations as functions on the state\<close>

type_synonym ('h, 'w, 'a) run_operation = "('h, 'w) service \<Rightarrow> (('h, 'w) service \<times> (run_execution_error + 'a)) option"

definition op_then :: "('h, 'w, 'a) run_operation \<Rightarrow> ('a \<Rightarrow> ('h, 'w, 'b) run_operation) \<Rightarrow> ('h, 'w, 'b) run_operation" where
  "op_then m k sv = (case m sv of None \<Rightarrow> None
     | Some (sv', r) \<Rightarrow> (case r of Inl e \<Rightarrow> Some (sv', Inl e) | Inr x \<Rightarrow> k x sv'))"

text \<open>A step whose \<open>Result\<close> is looked at instead of passed on.\<close>

definition op_result :: "('h, 'w, 'a) run_operation \<Rightarrow> (run_execution_error + 'a \<Rightarrow> ('h, 'w, 'b) run_operation) \<Rightarrow>
    ('h, 'w, 'b) run_operation" where
  "op_result m k sv = (case m sv of None \<Rightarrow> None | Some (sv', r) \<Rightarrow> k r sv')"

definition op_of :: "(run_execution_error + 'a) \<Rightarrow> ('h, 'w, 'a) run_operation" where
  "op_of r sv = Some (sv, r)"

abbreviation op_ok :: "'a \<Rightarrow> ('h, 'w, 'a) run_operation" where
  "op_ok x \<equiv> op_of (Inr x)"

abbreviation op_err :: "run_execution_error \<Rightarrow> ('h, 'w, 'a) run_operation" where
  "op_err e \<equiv> op_of (Inl e)"

text \<open>No return.\<close>

definition op_none :: "('h, 'w, 'a) run_operation" where
  "op_none sv = None"

text \<open>The next tick of the environment, and a section behind a lock.\<close>

definition op_tick :: "(nat \<Rightarrow> ('h, 'w, 'a) run_operation) \<Rightarrow> ('h, 'w, 'a) run_operation" where
  "op_tick k sv = k (sv_ticks sv) (sv\<lparr>sv_ticks := Suc (sv_ticks sv)\<rparr>)"

definition locked :: "('h, 'w, 'j) service_env \<Rightarrow> ('h, 'w, 'a) run_operation \<Rightarrow> ('h, 'w, 'a) run_operation" where
  "locked env m = op_tick (\<lambda>n sv. m (se_others env n sv))"

definition op_read :: "(('h, 'w) service \<Rightarrow> run_execution_error + 'a) \<Rightarrow> ('h, 'w, 'a) run_operation" where
  "op_read f sv = Some (sv, f sv)"

definition op_update :: "(('h, 'w) service \<Rightarrow> ('h, 'w) service \<times> 'a) \<Rightarrow> ('h, 'w, 'a) run_operation" where
  "op_update f sv = (case f sv of (sv', x) \<Rightarrow> Some (sv', Inr x))"

text \<open>A call of the store with \<open>?\<close>: a \<open>StoreError\<close> becomes the service's error.\<close>

definition op_store :: "(memory_store \<Rightarrow> 'a outcome) \<Rightarrow> ('h, 'w, 'a) run_operation" where
  "op_store f sv = (case f (sv_store sv) of (st, r) \<Rightarrow> Some (sv\<lparr>sv_store := st\<rparr>, map_err Store r))"

definition runtime_then :: "('h, 'w, 'j) service_env \<Rightarrow> ('a, agent_runtime_service_error) result \<Rightarrow>
    ('a \<Rightarrow> ('h, 'w, 'b) run_operation) \<Rightarrow> ('h, 'w, 'b) run_operation" where
  "runtime_then env r k = op_then (op_of (map_err (map_agent_runtime_error (se_capability_text env)) r)) k"

section \<open>Runs and sessions of the store\<close>

definition stored_run :: "run_id \<Rightarrow> ('h, 'w) service \<Rightarrow> (run_projection, run_execution_error) result" where
  "stored_run i sv = (case bt_get (ms_runs (sv_store sv)) i of
     None \<Rightarrow> Err (RunNotFound (as_str i)) | Some run \<Rightarrow> Ok run)"

definition session_run :: "session_id \<Rightarrow> run_id \<Rightarrow> ('h, 'w) service \<Rightarrow> (run_projection, run_execution_error) result" where
  "session_run s i sv = try_then (stored_run i sv) (\<lambda>run.
     if rn_session_id run \<noteq> s then Err (RunSessionMismatch (as_str (rn_id run))) else Ok run)"

definition is_live :: "run_id \<Rightarrow> session_id \<Rightarrow> ('h, 'w) service \<Rightarrow> bool" where
  "is_live i s sv = is_running_owned_by i s (sv_active sv)"

definition live_owned_run :: "session_id \<Rightarrow> run_id \<Rightarrow> ('h, 'w) service \<Rightarrow> (run_projection, run_execution_error) result" where
  "live_owned_run s i sv = try_then (session_run s i sv) (\<lambda>run.
     if rn_status run \<noteq> Running \<or> \<not> is_live i s sv then Err (RunNotLiveOwned (as_str (rn_id run))) else Ok run)"

definition require_session :: "session_id \<Rightarrow> ('h, 'w) service \<Rightarrow> (unit, run_execution_error) result" where
  "require_session s sv = (if bt_get (ms_sessions (sv_store sv)) s = None
     then Err (SessionNotFound (as_str s)) else Ok ())"

definition load_run_projection :: "('h, 'w, 'j) service_env \<Rightarrow> run_id \<Rightarrow> ('h, 'w, run_projection) run_operation" where
  "load_run_projection env i = locked env (op_read (stored_run i))"

definition commit_transition :: "session_id \<Rightarrow> run_projection \<Rightarrow> daemon_event list \<Rightarrow> nat \<Rightarrow>
    ('h, 'w, run_transition_result) run_operation" where
  "commit_transition s run events now = op_store (commit_run_transition
     \<lparr>ct_session_id = s, ct_run = run, ct_events = events, ct_occurred_at_ms = now\<rparr>)"

definition publish_records :: "event_record list \<Rightarrow> ('h, 'w, unit) run_operation" where
  "publish_records records = op_update (\<lambda>sv. (sv\<lparr>sv_published := sv_published sv @ records\<rparr>, ()))"

section \<open>Live executions\<close>

definition claim_live_run :: "run_id \<Rightarrow> session_id \<Rightarrow> ('h, 'w, unit) run_operation" where
  "claim_live_run i s = op_update (\<lambda>sv. (sv\<lparr>sv_active := claim_run i s (sv_active sv)\<rparr>, ()))"

text \<open>
  \<open>cancel_run\<close> of the live executions: look, and wait for a handle until the deadline; \<open>waits\<close> is
  how many times the thread wakes up before it.
\<close>

primrec cancel_looks :: "('h, 'w, 'j) service_env \<Rightarrow> nat \<Rightarrow> run_id \<Rightarrow> session_id \<Rightarrow> ('h, 'w, unit) run_operation" where
  "cancel_looks env 0 i s = locked env (op_then (op_update (\<lambda>sv.
     case cancel_look i s (sv_active sv) of (ow, look) \<Rightarrow> (sv\<lparr>sv_active := ow\<rparr>, look))) (\<lambda>look.
       case look of
         LookFailed e \<Rightarrow> op_err (ProviderExecutionFailed e)
       | LookNoHandle \<Rightarrow> op_ok ()
       | LookDelivered \<Rightarrow> op_ok ()
       | LookDeliver h \<Rightarrow> op_then (op_update (\<lambda>sv.
           case deliver_cancel (se_cancel env) i h (sv_active sv) of (ow, r) \<Rightarrow> (sv\<lparr>sv_active := ow\<rparr>, r)))
           (\<lambda>r. op_of (map_err ProviderExecutionFailed r))))"
| "cancel_looks env (Suc n) i s = locked env (op_then (op_update (\<lambda>sv.
     case cancel_look i s (sv_active sv) of (ow, look) \<Rightarrow> (sv\<lparr>sv_active := ow\<rparr>, look))) (\<lambda>look.
       case look of
         LookFailed e \<Rightarrow> op_err (ProviderExecutionFailed e)
       | LookNoHandle \<Rightarrow> cancel_looks env n i s
       | LookDelivered \<Rightarrow> op_ok ()
       | LookDeliver h \<Rightarrow> op_then (op_update (\<lambda>sv.
           case deliver_cancel (se_cancel env) i h (sv_active sv) of (ow, r) \<Rightarrow> (sv\<lparr>sv_active := ow\<rparr>, r)))
           (\<lambda>r. op_of (map_err ProviderExecutionFailed r))))"

definition cancel_live_run :: "('h, 'w, 'j) service_env \<Rightarrow> run_id \<Rightarrow> session_id \<Rightarrow> ('h, 'w, unit) run_operation" where
  "cancel_live_run env i s = op_tick (\<lambda>n. cancel_looks env (se_handle_waits env n) i s)"

definition resolve_live_approval :: "('h, 'w, 'j) service_env \<Rightarrow> run_id \<Rightarrow> session_id \<Rightarrow> approval_resolution \<Rightarrow>
    ('h, 'w, unit) run_operation" where
  "resolve_live_approval env i s resolution = locked env (op_then (op_update (\<lambda>sv.
     case resolve_approval (se_resolve env) i s resolution (sv_active sv) of (ow, r) \<Rightarrow> (sv\<lparr>sv_active := ow\<rparr>, r)))
     (\<lambda>r. op_of (map_err ProviderExecutionFailed r)))"

text \<open>
  \<open>start_provider_run\<close>: the agent's thread runs until the agent has a handle or failed
  (\<open>se_execute\<close>: \<open>build_execution_request\<close> and the thread), and tells the sink meanwhile; then the
  handle is attached.
\<close>

definition start_provider_run :: "('h, 'w, 'j) service_env \<Rightarrow> 'j provider_run_start \<Rightarrow> ('h, 'w, unit) run_operation" where
  "start_provider_run env start = op_tick (\<lambda>n sv.
     op_then (op_of (map_err (\<lambda>e. ProviderExecutionFailed (agent_runtime_error_text (se_capability_text env) e))
       (se_execute env n start))) (\<lambda>h.
     locked env (op_then (op_update (\<lambda>sv.
       case attach_handle (se_cancel env) (ps_run_id start) h (sv_active sv) of (ow, r) \<Rightarrow> (sv\<lparr>sv_active := ow\<rparr>, r)))
       (\<lambda>r. op_then (op_of (map_err ProviderExecutionFailed r)) (\<lambda>disposition. op_ok ()))))
     (se_others env n sv))"

section \<open>Scheduling\<close>

definition schedule_run_start_with_policy :: "('h, 'w, 'j) service_env \<Rightarrow> session_id \<Rightarrow> run_id \<Rightarrow> scheduling_policy \<Rightarrow>
    ('h, 'w, disposition) run_operation" where
  "schedule_run_start_with_policy env s i policy = locked env (op_then (op_update (\<lambda>sv.
     case schedule_start_with_policy s i policy (sv_scheduler sv) of (sch, r) \<Rightarrow> (sv\<lparr>sv_scheduler := sch\<rparr>, r)))
     (\<lambda>r. op_of (map_err (\<lambda>e. case e of QueueFull t \<Rightarrow> RunQueueFull t) r)))"

definition worktree_mark_for :: "run_status \<Rightarrow> worktree_mark" where
  "worktree_mark_for status =
     (case status of Completed \<Rightarrow> MarkSuccess | Failed \<Rightarrow> MarkFailed | BudgetExceeded \<Rightarrow> MarkFailed
      | Cancelled \<Rightarrow> MarkCancelled | _ \<Rightarrow> MarkTerminal)"

text \<open>\<open>WorkspaceRunRegistry::finish\<close>: the claim is released, the worktree told how the run ended.\<close>

definition finish_resources :: "run_id \<Rightarrow> run_status \<Rightarrow> ('h, 'w) service \<Rightarrow> ('h, 'w) service" where
  "finish_resources i status sv =
     (case bt_get (sv_resources sv) i of
        None \<Rightarrow> sv
      | Some x \<Rightarrow> sv\<lparr>sv_resources := bt_del i (sv_resources sv),
          sv_claims := (case wr_claim x of None \<Rightarrow> sv_claims sv | Some c \<Rightarrow> handle_release c (sv_claims sv)),
          sv_marks := (case wr_worktree x of None \<Rightarrow> sv_marks sv
            | Some w \<Rightarrow> sv_marks sv @ [(w, worktree_mark_for status)])\<rparr>)"

definition finish_scheduled_run :: "('h, 'w, 'j) service_env \<Rightarrow> session_id \<Rightarrow> run_id \<Rightarrow> run_status \<Rightarrow>
    ('h, 'w, run_id option) run_operation" where
  "finish_scheduled_run env s i status =
     op_then (locked env (op_update (\<lambda>sv. (sv\<lparr>sv_active := fst (release_run i (sv_active sv))\<rparr>, ())))) (\<lambda>_.
     op_then (locked env (op_update (\<lambda>sv. (finish_resources i status sv, ())))) (\<lambda>_.
     locked env (op_update (\<lambda>sv. case finish_run s i (sv_scheduler sv) of
       (sch, started) \<Rightarrow> (sv\<lparr>sv_scheduler := sch\<rparr>, started)))))"

text \<open>The closure \<open>fail_scheduled_run\<close>: the run's place is given up before the error is returned.\<close>

definition or_give_up :: "('h, 'w, 'j) service_env \<Rightarrow> session_id \<Rightarrow> run_id \<Rightarrow> ('h, 'w, 'a) run_operation \<Rightarrow>
    ('h, 'w, 'a) run_operation" where
  "or_give_up env s i m = op_result m (\<lambda>r. case r of
     Inr x \<Rightarrow> op_ok x
   | Inl e \<Rightarrow> op_then (finish_scheduled_run env s i Failed) (\<lambda>_. op_err e))"

section \<open>The workspace of a run\<close>

definition protocol_workspace_path :: "claim_path \<Rightarrow> string" where
  "protocol_workspace_path p = join_with ''/'' p"

definition protocol_conflict_warning :: "claim_warning \<Rightarrow> conflict_warning" where
  "protocol_conflict_warning w =
     \<lparr>cw_requesting_capsule = cw'_requesting_capsule w, cw_severity = ConflictWarn,
      cw_conflicts = map (\<lambda>c. \<lparr>fc_file = protocol_workspace_path (cf_file c),
        fc_holding_capsule = cf_holding_capsule c,
        fc_holding_kind = (case cf_holding_kind c of Claims.ClaimWrite \<Rightarrow> Wire.ClaimWrite)\<rparr>) (cw'_conflicts w)\<rparr>"

definition allocate_worktree :: "('h, 'w, 'j) service_env \<Rightarrow> run_id \<Rightarrow> string \<Rightarrow> string \<Rightarrow> worktree_cleanup_policy \<Rightarrow>
    ('h, 'w, 'w \<times> worktree_info \<times> string) run_operation" where
  "allocate_worktree env i parent_repo workspace_root cleanup = op_tick (\<lambda>n.
     runtime_then env (map_err RuntimeExecutionFailed (se_create_worktree env n parent_repo i cleanup)) (\<lambda>created.
     case path_strip_prefix workspace_root parent_repo of
       None \<Rightarrow> runtime_then env (Err (RuntimeExecutionFailed (''workspace root '' @ workspace_root @
         '' is outside git repository '' @ parent_repo))) op_ok
     | Some rest \<Rightarrow>
         let path = path_join (cwt_path created) rest
         in if \<not> se_is_dir env n path
            then runtime_then env (Err (RuntimeExecutionFailed (''workspace path '' @ path @
              '' does not exist in prepared worktree''))) op_ok
            else op_ok (cwt_handle created, \<lparr>wt_path = cwt_path created, wt_branch = cwt_branch created,
              wt_cleanup_policy = cleanup\<rparr>, path)))"

definition claim_planned_files :: "('h, 'w, 'j) service_env \<Rightarrow> run_id \<Rightarrow> string list \<Rightarrow>
    ('h, 'w, claim_handle option \<times> string list \<times> conflict_warning option) run_operation" where
  "claim_planned_files env i planned =
     (if planned = [] then op_ok (None, [], None)
      else locked env (op_tick (\<lambda>n. op_then (op_update (\<lambda>sv.
          case claim_files i planned None Claims.ClaimWrite (se_system_time env n) (sv_claims sv) of
            (g, r) \<Rightarrow> (sv\<lparr>sv_claims := g\<rparr>, r)))
        (\<lambda>r. case r of
           Inl (ClaimInvalidPath t) \<Rightarrow> runtime_then env (Err (RuntimeExecutionFailed t)) op_ok
         | Inr (handle, warning) \<Rightarrow> op_ok (Some handle, map protocol_workspace_path (ch_files handle),
             map_option protocol_conflict_warning warning)))))"

definition allocate_execution_workspace :: "('h, 'w, 'j) service_env \<Rightarrow> run_id \<Rightarrow> string \<Rightarrow> string \<Rightarrow>
    execution_context_request \<Rightarrow> ('h, 'w, dispatch_workspace) run_operation" where
  "allocate_execution_workspace env i parent_repo workspace_root request =
     op_then (if xr_workspace_mode request = ModeWorktreeWrite
       then op_then (allocate_worktree env i parent_repo workspace_root (xr_cleanup_policy request))
         (\<lambda>(w, info, path). op_ok (Some w, Some info, path))
       else op_ok (None, None, workspace_root)) (\<lambda>(worktree, info, cwd).
     op_then (claim_planned_files env i (xr_planned_write_files request)) (\<lambda>(claim, files, warning).
     op_then (if worktree = None \<and> claim = None then op_ok ()
       else locked env (op_update (\<lambda>sv. (sv\<lparr>sv_resources :=
         bt_put i \<lparr>wr_worktree = worktree, wr_claim = claim\<rparr> (sv_resources sv)\<rparr>, ())))) (\<lambda>_.
     op_ok \<lparr>dw_effective_cwd = cwd, dw_worktree_info = info, dw_claimed_files = files,
       dw_conflict_warning = warning\<rparr>)))"

section \<open>Preparing the execution context\<close>

definition session_workspace :: "session_id \<Rightarrow> ('h, 'w) service \<Rightarrow> (workspace, run_execution_error) result" where
  "session_workspace s sv =
     (case bt_get (ms_sessions (sv_store sv)) s of
        None \<Rightarrow> Err (SessionNotFound (as_str s))
      | Some x \<Rightarrow>
          (case bt_get (ms_workspaces (sv_store sv)) (sn_workspace_id x) of
             None \<Rightarrow> Err (SessionWorkspaceNotFound (as_str (sn_workspace_id x)))
           | Some w \<Rightarrow> Ok w))"

definition prepare_context_from_workspace :: "('h, 'w, 'j) service_env \<Rightarrow> run_id \<Rightarrow> execution_workspace_input \<Rightarrow>
    ('h, 'w, prepared_execution_context) run_operation" where
  "prepare_context_from_workspace env i input =
     op_then (allocate_execution_workspace env i (path_str (xi_parent_repo input)) (path_str (xi_workspace_root input))
       (xi_request input)) (\<lambda>dispatch.
     op_tick (\<lambda>n. op_of (context_of_dispatch (se_canonical env n) input dispatch)))"

definition prepare_execution_context :: "('h, 'w, 'j) service_env \<Rightarrow> session_id \<Rightarrow> run_id \<Rightarrow>
    runtime_profile_summary \<Rightarrow> execution_context_request \<Rightarrow> ('h, 'w, prepared_execution_context) run_operation" where
  "prepare_execution_context env s i profile request =
     op_then (op_of (reject_unsupported_scope (xr_workspace_mode request))) (\<lambda>_.
     op_then (locked env (op_read (session_workspace s))) (\<lambda>w.
     op_tick (\<lambda>n. op_then (op_of (root_context_input (se_artifact_root env n) (se_supports_network env) w
       (rps_policy_mode profile) request)) (\<lambda>input.
     prepare_context_from_workspace env i input))))"

definition prepare_child_execution_context :: "('h, 'w, 'j) service_env \<Rightarrow> session_id \<Rightarrow> run_id \<Rightarrow>
    execution_context \<Rightarrow> execution_context_request \<Rightarrow> ('h, 'w, prepared_execution_context) run_operation" where
  "prepare_child_execution_context env s i parent request =
     op_then (op_of (reject_unsupported_scope (xr_workspace_mode request))) (\<lambda>_.
     op_then (locked env (op_read (session_workspace s))) (\<lambda>w.
     op_then (op_of (child_context_input w parent request)) (\<lambda>input.
     prepare_context_from_workspace env i input)))"

end
