(* ===== verification/RunExecution.thy ===== *)
theory RunExecution
  imports RunService
begin

text \<open>
  The run execution service of the orchestrator
  (\<open>crates/ta-orchestrator/src/orchestration/run_execution/\<close>): what the sink of a running agent
  does, how a run completes, is budgeted, cancelled, promoted from the queue and started, and how
  approvals are decided and expire. Finishing a run promotes the next one, and starting that may
  fail and promote the next: the loop \<open>advance_ready_queue\<close> has fuel, and the operations below it
  take it as the argument \<open>advance\<close>.
\<close>

section \<open>Results and transitions\<close>

record run_summary =
  su_id :: run_id
  su_runtime_profile_id :: runtime_profile_id
  su_objective :: string
  su_status :: run_status

record run_mutation_result =
  mu_run :: run_summary
  mu_events :: "event_record list"

record run_completion_projection =
  rcp_output_contract :: "output_contract_kind option"
  rcp_result :: "capsule_result option"
  rcp_contract_violation :: "validation_error option"

definition default_completion :: run_completion_projection where
  "default_completion = \<lparr>rcp_output_contract = None, rcp_result = None, rcp_contract_violation = None\<rparr>"

type_synonym ('h, 'w) advance = "session_id \<Rightarrow> run_id \<Rightarrow> run_status \<Rightarrow> ('h, 'w, event_record list) run_operation"

definition project_run_summary :: "run_projection \<Rightarrow> run_summary" where
  "project_run_summary run = \<lparr>su_id = rn_id run, su_runtime_profile_id = rn_runtime_profile_id run,
     su_objective = rn_objective run, su_status = rn_status run\<rparr>"

definition recipe_id_for_run :: "run_projection \<Rightarrow> string option" where
  "recipe_id_for_run run =
     (case rn_source run of
        SourceNativeSubagent _ _ _ _ recipe _ _ _ \<Rightarrow> recipe
      | SourceUser _ _ recipe \<Rightarrow> recipe
      | SourceForked _ _ \<Rightarrow> None)"

definition output_contract_for_run :: "run_projection \<Rightarrow> output_contract_kind option" where
  "output_contract_for_run run =
     (case rn_source run of
        SourceNativeSubagent _ _ contract _ _ _ _ _ \<Rightarrow> contract
      | SourceUser contract _ _ \<Rightarrow> contract
      | SourceForked _ _ \<Rightarrow> None)"

definition execution_overrides_for_run :: "run_projection \<Rightarrow> model_id option" where
  "execution_overrides_for_run run =
     (case rn_source run of
        SourceNativeSubagent _ _ _ model _ _ _ _ \<Rightarrow> model
      | SourceUser _ model _ \<Rightarrow> model
      | SourceForked _ _ \<Rightarrow> None)"

definition run_status_event :: "run_id \<Rightarrow> run_status \<Rightarrow> string \<Rightarrow> string option \<Rightarrow> daemon_event" where
  "run_status_event i status detail recipe = EvRun \<lparr>re_run_id = i, re_status = status, re_detail = detail,
     re_output_contract = None, re_recipe_id = recipe, re_result = None\<rparr>"

definition start_running_transition :: "run_id \<Rightarrow> string option \<Rightarrow> run_status \<times> daemon_event list" where
  "start_running_transition i recipe = (Running, [run_status_event i Running ''Execution started'' recipe])"

definition build_queue_transition :: "run_id \<Rightarrow> nat \<Rightarrow> string option \<Rightarrow> run_status \<times> daemon_event list" where
  "build_queue_transition i position recipe =
     (Queued, [run_status_event i Queued (''Queued behind active run at position '' @ dec position) recipe])"

text \<open>
  The request asks for what the policy decided; \<open>expect\<close> panics on an invalid request, which would
  need a blank reason or a clock that stands at the largest number.
\<close>

definition build_start_transition :: "('h, 'w, 'j) service_env \<Rightarrow> run_id \<Rightarrow> policy_decision \<Rightarrow> string option \<Rightarrow>
    ('h, 'w, run_status \<times> daemon_event list) run_operation" where
  "build_start_transition env i outcome_kind recipe =
     (case outcome_kind of
        Allow \<Rightarrow> op_ok (start_running_transition i recipe)
      | Deny reason \<Rightarrow> op_ok (Failed, [run_status_event i Failed reason recipe])
      | RequireApproval reason \<Rightarrow> op_tick (\<lambda>n.
          let requested_at = se_now env n
          in (case approval_request_new (Ident (''approval-'' @ se_uuid env n)) i ProcessExec requested_at
                  (expires_at_ms default_interactive requested_at) (TargetProcessExec None) reason of
                Inr approval \<Rightarrow> op_ok (WaitingForApproval,
                  [run_status_event i WaitingForApproval ''Waiting for approval'' recipe,
                   EvApproval (ApprovalRequested approval)])
              | Inl e \<Rightarrow> op_none)))"

section \<open>The sink of a running agent\<close>

definition commit_live_run_status_with_completion :: "('h, 'w, 'j) service_env \<Rightarrow> session_id \<Rightarrow> run_id \<Rightarrow>
    run_status \<Rightarrow> string \<Rightarrow> run_completion_projection \<Rightarrow> ('h, 'w, run_mutation_result) run_operation" where
  "commit_live_run_status_with_completion env s i status detail completion =
     locked env (op_then (op_read (live_owned_run s i)) (\<lambda>run. op_tick (\<lambda>n.
       op_then (commit_transition s
           (run\<lparr>rn_status := status,
                rn_result := (if rcp_contract_violation completion = None then rcp_result completion else None),
                rn_contract_violation := rcp_contract_violation completion\<rparr>)
           [EvRun \<lparr>re_run_id = i, re_status = status, re_detail = detail,
              re_output_contract = rcp_output_contract completion, re_recipe_id = recipe_id_for_run run,
              re_result = rcp_result completion\<rparr>] (se_now env n))
         (\<lambda>committed. op_ok \<lparr>mu_run = project_run_summary (cr_run committed), mu_events = cr_events committed\<rparr>))))"

definition commit_live_run_status :: "('h, 'w, 'j) service_env \<Rightarrow> session_id \<Rightarrow> run_id \<Rightarrow> run_status \<Rightarrow> string \<Rightarrow>
    ('h, 'w, run_mutation_result) run_operation" where
  "commit_live_run_status env s i status detail =
     commit_live_run_status_with_completion env s i status detail default_completion"

text \<open>The commits that leave the run as it is and add one event.\<close>

definition commit_live_event :: "('h, 'w, 'j) service_env \<Rightarrow> session_id \<Rightarrow> run_id \<Rightarrow> (nat \<Rightarrow> daemon_event) \<Rightarrow>
    ('h, 'w, run_mutation_result) run_operation" where
  "commit_live_event env s i event =
     locked env (op_then (op_read (live_owned_run s i)) (\<lambda>run. op_tick (\<lambda>n.
       op_then (commit_transition s run [event (se_now env n)] (se_now env n))
         (\<lambda>committed. op_ok \<lparr>mu_run = project_run_summary (cr_run committed), mu_events = cr_events committed\<rparr>))))"

definition commit_live_agent_stream :: "('h, 'w, 'j) service_env \<Rightarrow> session_id \<Rightarrow> run_id \<Rightarrow> stream_emission \<Rightarrow>
    ('h, 'w, run_mutation_result) run_operation" where
  "commit_live_agent_stream env s i frame =
     commit_live_event env s i (\<lambda>now. EvAgentStream \<lparr>as_run_id = i, as_emission = frame\<rparr>)"

definition and_publish :: "('h, 'w, run_mutation_result) run_operation \<Rightarrow> ('h, 'w, unit) run_operation" where
  "and_publish m = op_then m (\<lambda>committed. publish_records (mu_events committed))"

definition emit_live_run_detail_and_publish :: "('h, 'w, 'j) service_env \<Rightarrow> session_id \<Rightarrow> run_id \<Rightarrow> string \<Rightarrow>
    ('h, 'w, unit) run_operation" where
  "emit_live_run_detail_and_publish env s i detail = and_publish (commit_live_run_status env s i Running detail)"

definition emit_agent_stream_and_publish :: "('h, 'w, 'j) service_env \<Rightarrow> session_id \<Rightarrow> run_id \<Rightarrow> stream_emission \<Rightarrow>
    ('h, 'w, unit) run_operation" where
  "emit_agent_stream_and_publish env s i frame = and_publish (commit_live_agent_stream env s i frame)"

definition record_token_usage_and_publish :: "('h, 'w, 'j) service_env \<Rightarrow> session_id \<Rightarrow> run_id \<Rightarrow> llm_token_usage \<Rightarrow>
    ('h, 'w, unit) run_operation" where
  "record_token_usage_and_publish env s i usage = and_publish (commit_live_event env s i (\<lambda>now.
     EvTokenUsageRecorded \<lparr>tu_run_id = i, tu_capsule_id = None, tu_prompt_tokens = lu_prompt_tokens usage,
       tu_completion_tokens = lu_completion_tokens usage, tu_cached_tokens = lu_cached_tokens usage,
       tu_reasoning_tokens = lu_reasoning_tokens usage, tu_model = lu_model usage,
       tu_provider = lu_provider usage, tu_recorded_at_ms = now\<rparr>))"

definition request_approval_and_publish :: "('h, 'w, 'j) service_env \<Rightarrow> session_id \<Rightarrow> run_id \<Rightarrow> approval_request \<Rightarrow>
    ('h, 'w, unit) run_operation" where
  "request_approval_and_publish env s i request =
     (if rq_run_id request \<noteq> i then op_err (RunSessionMismatch (as_str (rq_run_id request)))
      else and_publish (commit_live_event env s i (\<lambda>now. EvApproval (ApprovalRequested request))))"

definition resolve_approval_and_publish :: "('h, 'w, 'j) service_env \<Rightarrow> session_id \<Rightarrow> run_id \<Rightarrow> approval_resolution \<Rightarrow>
    ('h, 'w, unit) run_operation" where
  "resolve_approval_and_publish env s i resolution =
     (if rs_run_id resolution \<noteq> i then op_err (RunSessionMismatch (as_str (rs_run_id resolution)))
      else and_publish (commit_live_event env s i (\<lambda>now. EvApproval (ApprovalResolved resolution))))"

definition fail_live_run_and_publish :: "('h, 'w) advance \<Rightarrow> ('h, 'w, 'j) service_env \<Rightarrow> session_id \<Rightarrow> run_id \<Rightarrow>
    string \<Rightarrow> ('h, 'w, unit) run_operation" where
  "fail_live_run_and_publish advance env s i detail =
     op_then (commit_live_run_status env s i Failed detail) (\<lambda>committed.
     op_then (advance s i Failed) (\<lambda>records.
     publish_records (mu_events committed @ records)))"

definition fail_live_run_without_publish :: "('h, 'w, 'j) service_env \<Rightarrow> session_id \<Rightarrow> run_id \<Rightarrow> string \<Rightarrow>
    ('h, 'w, run_projection \<times> event_record list) run_operation" where
  "fail_live_run_without_publish env s i detail =
     op_then (commit_live_run_status env s i Failed detail) (\<lambda>committed.
     op_then (load_run_projection env i) (\<lambda>run. op_ok (run, mu_events committed)))"

section \<open>Budgets\<close>

definition budget_projection_of :: "session_id \<Rightarrow> run_id \<Rightarrow> nat \<Rightarrow> ('h, 'w) service \<Rightarrow>
    (budget_projection, run_execution_error) result" where
  "budget_projection_of s i now sv = try_then (session_run s i sv) (\<lambda>run.
     Ok (project_budget run (filter (\<lambda>r. rn_session_id r = s) (bt_values (ms_runs (sv_store sv))))
       (session_records s (sv_store sv)) now))"

definition daemon_actor :: approval_actor where
  "daemon_actor = \<lparr>principal_id = ''taugentic-daemon''\<rparr>"

text \<open>A resolution that answers a pending request, for its tool call if it has one.\<close>

definition answer_request :: "approval_request \<Rightarrow> approval_decision \<Rightarrow> approval_resolution_reason \<Rightarrow> approval_actor \<Rightarrow>
    string option \<Rightarrow> approval_resolution" where
  "answer_request q outcome_kind reason actor commentary =
     (let r = approval_resolution_new (rq_id q) (rq_run_id q) outcome_kind reason actor commentary
      in (case rq_tool_call_id q of None \<Rightarrow> r | Some t \<Rightarrow> resolution_with_tool_call_id t r))"

text \<open>The events that reject every pending approval of a run.\<close>

definition rejections :: "session_id \<Rightarrow> run_id \<Rightarrow> approval_resolution_reason \<Rightarrow> approval_actor \<Rightarrow> string \<Rightarrow>
    ('h, 'w) service \<Rightarrow> (daemon_event list, run_execution_error) result" where
  "rejections s i reason actor commentary sv =
     try_then (map_err Store (approvals_for_session \<lparr>aq_session_id = s, aq_run_id = Some i, aq_approval_id = None\<rparr>
       (sv_store sv))) (\<lambda>approvals.
     Ok (map (\<lambda>q. EvApproval (ApprovalResolved (answer_request q Rejected reason actor (Some commentary)))) approvals))"

definition fail_run_for_budget :: "('h, 'w) advance \<Rightarrow> ('h, 'w, 'j) service_env \<Rightarrow> session_id \<Rightarrow> run_id \<Rightarrow>
    budget_projection \<Rightarrow> budget_exceeded \<Rightarrow> nat \<Rightarrow> bool \<Rightarrow> ('h, 'w, unit) run_operation" where
  "fail_run_for_budget advance env s i projection x now cancel_live_provider =
     op_then (if cancel_live_provider
       then op_then (locked env (op_read (\<lambda>sv. Ok (is_live i s sv))))
         (\<lambda>l. if l then cancel_live_run env i s else op_ok ())
       else op_ok ()) (\<lambda>_.
     op_then (locked env (op_then (op_read (session_run s i)) (\<lambda>run.
       if rn_status run \<noteq> Running then op_ok None
       else op_then (op_read (rejections s i ByBudgetExceeded daemon_actor ''budget_exceeded'')) (\<lambda>answers.
         let run' = run\<lparr>rn_status := BudgetExceeded\<rparr>
         in op_then (commit_transition s run'
              ([EvBudget (BudgetEvExceeded (budget_exceeded_event_of projection x))] @ answers @
               [run_status_event i BudgetExceeded (redacted_reason x) (recipe_id_for_run run')]) now)
            (\<lambda>committed. op_ok (Some (rn_id (cr_run committed), cr_events committed))))))) (\<lambda>committed.
     case committed of
       None \<Rightarrow> op_ok ()
     | Some (j, events) \<Rightarrow> op_then (advance s j BudgetExceeded) (\<lambda>records. publish_records (events @ records))))"

definition enforce_budget :: "('h, 'w) advance \<Rightarrow> ('h, 'w, 'j) service_env \<Rightarrow> session_id \<Rightarrow> run_id \<Rightarrow> bool \<Rightarrow>
    ('h, 'w, unit) run_operation" where
  "enforce_budget advance env s i cancel_live_provider = op_tick (\<lambda>n.
     op_then (locked env (op_read (budget_projection_of s i (se_now env n)))) (\<lambda>projection.
     case decide_budget (se_budget_policy env) projection of
       WithinBudget \<Rightarrow> op_ok ()
     | BudgetExceededBy x \<Rightarrow>
         op_then (fail_run_for_budget advance env s i projection x (se_now env n) cancel_live_provider) (\<lambda>_.
         op_err (RunBudgetExceeded (redacted_reason x)))))"

section \<open>Starting the agent of a run\<close>

definition start_provider_execution :: "('h, 'w) advance \<Rightarrow> ('h, 'w, 'j) service_env \<Rightarrow> session_id \<Rightarrow> run_id \<Rightarrow>
    string \<Rightarrow> runtime_profile_summary \<Rightarrow> model_id option \<Rightarrow> ('h, 'w, unit) run_operation" where
  "start_provider_execution advance env s i objective profile model =
     op_then (enforce_budget advance env s i False) (\<lambda>_.
     op_then (locked env (op_read (\<lambda>sv. fork_initial_state_for_run (se_parse_json env) s i (sv_store sv)))) (\<lambda>fork.
     op_then (load_run_projection env i) (\<lambda>run.
     start_provider_run env \<lparr>ps_runtime_profile = profile, ps_session_id = s, ps_run_id = i, ps_objective = objective,
       ps_execution_context = rn_execution_context run, ps_fork_initial_state = fork,
       ps_output_contract = output_contract_for_run run, ps_model_id = model\<rparr>)))"

text \<open>
  What follows the commit of a running run in \<open>start_run\<close> and \<open>promote_queued_run\<close>: the agent is
  started; if that fails while the run is still running, the run fails.
\<close>

definition start_committed_run :: "('h, 'w) advance \<Rightarrow> ('h, 'w, 'j) service_env \<Rightarrow> session_id \<Rightarrow>
    runtime_profile_summary \<Rightarrow> run_projection \<Rightarrow> event_record list \<Rightarrow>
    ('h, 'w, run_projection \<times> event_record list) run_operation" where
  "start_committed_run advance env s profile run events =
     (if rn_status run \<noteq> Running then op_ok (run, events)
      else op_result (start_provider_execution advance env s (rn_id run) (rn_objective run) profile
          (execution_overrides_for_run run)) (\<lambda>started.
        op_then (load_run_projection env (rn_id run)) (\<lambda>latest.
          case started of
            Inl e \<Rightarrow>
              if rn_status latest = Running
              then op_then (fail_live_run_without_publish env s (rn_id latest) (se_error_text env e))
                (\<lambda>(failed, failed_events). op_ok (failed, events @ failed_events))
              else op_ok (if rn_status latest \<noteq> Cancelled then latest else run, events)
          | Inr u \<Rightarrow> op_ok (if rn_status latest \<noteq> Cancelled then latest else run, events))))"

text \<open>The commit itself, with the claim of a run that is now running.\<close>

definition commit_and_claim :: "session_id \<Rightarrow> run_projection \<Rightarrow> daemon_event list \<Rightarrow> nat \<Rightarrow>
    ('h, 'w, run_projection \<times> event_record list) run_operation" where
  "commit_and_claim s run events now =
     op_then (commit_transition s run events now) (\<lambda>committed.
     op_then (if rn_status (cr_run committed) = Running then claim_live_run (rn_id (cr_run committed)) s else op_ok ())
       (\<lambda>_. op_ok (cr_run committed, cr_events committed)))"

section \<open>The ready queue\<close>

definition promote_queued_run :: "('h, 'w) advance \<Rightarrow> ('h, 'w, 'j) service_env \<Rightarrow> session_id \<Rightarrow> run_id \<Rightarrow>
    ('h, 'w, run_mutation_result) run_operation" where
  "promote_queued_run advance env s i =
     op_then (load_run_projection env i) (\<lambda>queued.
     if rn_session_id queued \<noteq> s then op_err (RunSessionMismatch (as_str (rn_id queued)))
     else if rn_status queued \<noteq> Queued then op_err (RunNotQueued (as_str (rn_id queued)))
     else op_tick (\<lambda>n. runtime_then env (se_runtime_profile env n (rn_runtime_profile_id queued)) (\<lambda>profile.
       let outcome_kind = evaluate_execution_context (rn_execution_context queued) (operation_new ProcessExec ''execute run'')
       in op_then (locked env (op_then (op_read (session_run s i)) (\<lambda>run.
            if rn_status run \<noteq> Queued then op_err (RunNotQueued (as_str (rn_id run)))
            else op_then (build_start_transition env (rn_id run) outcome_kind (recipe_id_for_run run)) (\<lambda>(status, events).
              op_tick (\<lambda>n. commit_and_claim s (run\<lparr>rn_status := status\<rparr>) events (se_now env n)))))) (\<lambda>(run, events).
          op_then (start_committed_run advance env s profile run events) (\<lambda>(run', events').
            op_ok \<lparr>mu_run = project_run_summary run', mu_events = events'\<rparr>)))))"

text \<open>
  The loop of \<open>advance_ready_queue\<close>. A run that is promoted may exceed its budget and finish
  itself, which promotes the next: those loops run inside, with the fuel that is left.
\<close>

primrec advance_loop :: "nat \<Rightarrow> ('h, 'w, 'j) service_env \<Rightarrow> session_id \<Rightarrow> run_id option \<Rightarrow> event_record list \<Rightarrow>
    ('h, 'w, event_record list) run_operation" where
  "advance_loop 0 env s next_run promoted = op_none"
| "advance_loop (Suc fuel) env s next_run promoted =
     (case next_run of
        None \<Rightarrow> op_ok promoted
      | Some i \<Rightarrow>
          op_then (promote_queued_run (\<lambda>s' j status. op_then (finish_scheduled_run env s' j status)
            (\<lambda>started. advance_loop fuel env s' started [])) env s i) (\<lambda>r.
          if su_status (mu_run r) = Failed
          then op_then (finish_scheduled_run env s i Failed)
            (\<lambda>started. advance_loop fuel env s started (promoted @ mu_events r))
          else op_ok (promoted @ mu_events r)))"

definition advance_ready_queue :: "nat \<Rightarrow> ('h, 'w, 'j) service_env \<Rightarrow> ('h, 'w) advance" where
  "advance_ready_queue fuel env s i status =
     op_then (finish_scheduled_run env s i status) (\<lambda>started. advance_loop fuel env s started [])"

definition demote_waiting_run_to_queued :: "('h, 'w, 'j) service_env \<Rightarrow> session_id \<Rightarrow> run_id \<Rightarrow> ('h, 'w, unit) run_operation" where
  "demote_waiting_run_to_queued env s i = locked env (op_then (op_read (session_run s i)) (\<lambda>run.
     if rn_status run \<noteq> WaitingForApproval then op_err (RunNotWaitingForApproval (as_str (rn_id run)))
     else op_tick (\<lambda>n. op_then (commit_transition s (run\<lparr>rn_status := Queued\<rparr>)
       [run_status_event i Queued ''Queued after daemon restart reconciliation'' (recipe_id_for_run run)] (se_now env n))
       (\<lambda>_. op_ok ()))))"

primrec op_each :: "('a \<Rightarrow> ('h, 'w, unit) run_operation) \<Rightarrow> 'a list \<Rightarrow> ('h, 'w, unit) run_operation" where
  "op_each f [] = op_ok ()"
| "op_each f (x # xs) = op_then (f x) (\<lambda>_. op_each f xs)"

definition rehydrate_scheduler_on_boot :: "nat \<Rightarrow> ('h, 'w, 'j) service_env \<Rightarrow> ('h, 'w, unit) run_operation" where
  "rehydrate_scheduler_on_boot fuel env =
     op_then (locked env (op_update (\<lambda>sv.
       case rehydrate_from_store (bt_values (ms_runs (sv_store sv))) (bt_values (ms_events (sv_store sv))) (sv_scheduler sv) of
         (sch, plan) \<Rightarrow> (sv\<lparr>sv_scheduler := sch\<rparr>, plan)))) (\<lambda>plan.
     op_then (op_each (\<lambda>(s, i). demote_waiting_run_to_queued env s i) (rp_demote_to_queued plan)) (\<lambda>_.
     op_each (\<lambda>(s, i). op_then (promote_queued_run (advance_ready_queue fuel env) env s i) (\<lambda>_. op_ok ()))
       (rp_promote_from_queue plan)))"

end
