(* ===== verification/RunOperations.thy ===== *)
theory RunOperations
  imports RunExecution
begin

text \<open>
  The requests the run execution service answers
  (\<open>crates/ta-orchestrator/src/orchestration/run_execution/\<close>: \<open>provider_sink/completion.rs\<close>,
  \<open>completion_result.rs\<close>, \<open>artifacts.rs\<close>, \<open>approval.rs\<close>, \<open>cancel.rs\<close>, \<open>resume.rs\<close>, \<open>start.rs\<close>,
  \<open>native_children.rs\<close>, \<open>run_fork.rs\<close>).
\<close>

section \<open>Completing a run\<close>

datatype completion_receipt_state = ReceiptToPromote | ReceiptToQuarantine

fun completion_label :: "output_contract_kind \<Rightarrow> string" where
  "completion_label KDebug = ''Debug''"
| "completion_label KPatch = ''Patch''"
| "completion_label KReview = ''Review''"
| "completion_label KTest = ''Test''"
| "completion_label KPlan = ''Plan''"
| "completion_label KCustom = ''Custom''"

text \<open>\<open>{contract:?}\<close> is the name of the variant, which is the label.\<close>

definition validate_completion_payload :: "output_contract_kind option \<Rightarrow> capsule_result option \<Rightarrow>
    (unit, validation_error) result" where
  "validate_completion_payload output_contract res =
     (case (output_contract, res) of
        (Some contract, Some r) \<Rightarrow> validate_result_against_contract contract r
      | (Some contract, None) \<Rightarrow> Err (CustomError
          (''output contract '' @ completion_label contract @ '' requires a matching CapsuleResult''))
      | (None, _) \<Rightarrow> Ok ())"

fun completion_event_sequence :: "event_record list \<Rightarrow> nat option" where
  "completion_event_sequence [] = None"
| "completion_event_sequence (r # rs) =
     (case ev_payload r of
        EvRun e \<Rightarrow> if re_status e \<in> {Completed, Failed} then Some (ev_sequence r) else completion_event_sequence rs
      | _ \<Rightarrow> completion_event_sequence rs)"

fun receipt_kind_for_contract :: "output_contract_kind \<Rightarrow> receipt_kind" where
  "receipt_kind_for_contract KDebug = RkSummary"
| "receipt_kind_for_contract KPatch = RkPatch"
| "receipt_kind_for_contract KReview = RkReviewFinding"
| "receipt_kind_for_contract KTest = RkTestOutput"
| "receipt_kind_for_contract KPlan = RkSummary"
| "receipt_kind_for_contract KCustom = RkArtifact"

definition receipt_kind_for_result :: "capsule_result \<Rightarrow> receipt_kind" where
  "receipt_kind_for_result r = receipt_kind_for_contract (contract_kind r)"

definition completion_receipt_summary :: "string \<Rightarrow> capsule_result option \<Rightarrow> completion_receipt_state \<Rightarrow> string" where
  "completion_receipt_summary label res state =
     (case (state, res) of
        (ReceiptToPromote, Some r) \<Rightarrow>
          completion_label (contract_kind r) @ '' CapsuleResult returned from native run''
      | (ReceiptToQuarantine, Some r) \<Rightarrow>
          completion_label (contract_kind r) @ '' CapsuleResult quarantined after daemon validation''
      | (ReceiptToQuarantine, None) \<Rightarrow> label @ '' CapsuleResult missing from native run''
      | (ReceiptToPromote, None) \<Rightarrow> label @ '' completion result'')"

text \<open>The receipts of the store, with \<open>?\<close>.\<close>

definition store_receipts :: "(receipt_table \<Rightarrow> (receipt_table \<times> context_receipt, store_error) result) \<Rightarrow>
    memory_store \<Rightarrow> context_receipt outcome" where
  "store_receipts f st = (case f (ms_receipts st) of
     Inl e \<Rightarrow> (st, Err e) | Inr (t, r) \<Rightarrow> (st\<lparr>ms_receipts := t\<rparr>, Ok r))"

definition store_create_receipt :: "('h, 'w, 'j) service_env \<Rightarrow> nat \<Rightarrow> create_receipt \<Rightarrow> memory_store \<Rightarrow>
    context_receipt outcome" where
  "store_create_receipt env n input =
     store_receipts (receipts_create (se_sha256 env) (se_uuid env n) (se_receipt_time env n) input)"

definition completion_receipt_input :: "run_projection \<Rightarrow> nat \<Rightarrow> receipt_kind \<Rightarrow> string \<Rightarrow> capsule_result option \<Rightarrow>
    completion_receipt_state \<Rightarrow> create_receipt" where
  "completion_receipt_input run event_seq kind label res state =
     (let turn = (case rn_source run of SourceNativeSubagent _ t _ _ _ _ _ _ \<Rightarrow> Some t | _ \<Rightarrow> None)
      in \<lparr>ci_session_id = rn_session_id run, ci_run_id = rn_id run, ci_parent_run_id = parent_run_id run,
          ci_kind = kind,
          ci_provenance = \<lparr>pv_artifact_id = None, pv_agent_turn_id = turn,
            pv_event_seq = map_option (\<lambda>_. event_seq) turn,
            pv_stream_cursor = Some (''run:'' @ as_str (rn_id run) @ '':event:'' @ dec event_seq)\<rparr>,
          ci_title = Some (label @ '' result''),
          ci_summary = Some (completion_receipt_summary label res state)\<rparr>)"

definition append_completion_result_receipt :: "('h, 'w, 'j) service_env \<Rightarrow> run_projection \<Rightarrow> nat \<Rightarrow>
    output_contract_kind option \<Rightarrow> capsule_result option \<Rightarrow> completion_receipt_state \<Rightarrow>
    ('h, 'w, event_record list) run_operation" where
  "append_completion_result_receipt env run event_seq output_contract res state =
     (case opt_or (map_option receipt_kind_for_result res) (map_option receipt_kind_for_contract output_contract) of
        None \<Rightarrow> op_ok []
      | Some kind \<Rightarrow>
     (case map_option completion_label (opt_or output_contract (map_option contract_kind res)) of
        None \<Rightarrow> op_ok []
      | Some label \<Rightarrow>
          op_then (locked env (op_tick (\<lambda>n.
            op_then (op_store (store_create_receipt env n (completion_receipt_input run event_seq kind label res state)))
              (\<lambda>created. op_tick (\<lambda>n. case state of
                 ReceiptToPromote \<Rightarrow> op_store (store_receipts (receipts_promote (se_receipt_time env n) (rc_id created)))
               | ReceiptToQuarantine \<Rightarrow>
                   op_store (store_receipts (receipts_quarantine (se_receipt_time env n) (rc_id created)))))))) (\<lambda>receipt.
          op_then (locked env (op_tick (\<lambda>n. op_store (commit_receipt_event (rn_session_id run)
            (EvContextReceipt (case state of
               ReceiptToPromote \<Rightarrow> ReceiptPromoted receipt | ReceiptToQuarantine \<Rightarrow> ReceiptQuarantined receipt))
            (se_now env n))))) (\<lambda>committed. op_ok [oe_event committed]))))"

definition append_completion_receipt :: "('h, 'w, 'j) service_env \<Rightarrow> run_projection \<Rightarrow> event_record list \<Rightarrow>
    output_contract_kind option \<Rightarrow> capsule_result option \<Rightarrow> completion_receipt_state \<Rightarrow>
    ('h, 'w, event_record list) run_operation" where
  "append_completion_receipt env run records output_contract res state =
     (case completion_event_sequence records of
        None \<Rightarrow> op_ok []
      | Some event_seq \<Rightarrow> append_completion_result_receipt env run event_seq output_contract res state)"

definition complete_live_run_transition :: "('h, 'w) advance \<Rightarrow> ('h, 'w, 'j) service_env \<Rightarrow> session_id \<Rightarrow> run_id \<Rightarrow>
    string \<Rightarrow> capsule_result option \<Rightarrow> ('h, 'w, run_mutation_result) run_operation" where
  "complete_live_run_transition advance env s i detail res =
     op_then (load_run_projection env i) (\<lambda>run.
     let output_contract = output_contract_for_run run
     in case validate_completion_payload output_contract res of
          Inl violation \<Rightarrow>
            op_then (commit_live_run_status_with_completion env s i Failed (se_validation_text env violation)
              \<lparr>rcp_output_contract = output_contract, rcp_result = res, rcp_contract_violation = Some violation\<rparr>) (\<lambda>committed.
            op_then (append_completion_receipt env run (mu_events committed) output_contract res ReceiptToQuarantine) (\<lambda>receipts.
            op_then (advance s i Failed) (\<lambda>promoted.
            op_then (publish_records (mu_events committed @ receipts @ promoted)) (\<lambda>_.
            op_err (OutputContractViolation violation)))))
        | Inr u \<Rightarrow>
            op_then (commit_live_run_status_with_completion env s i Completed detail
              \<lparr>rcp_output_contract = output_contract, rcp_result = res, rcp_contract_violation = None\<rparr>) (\<lambda>committed.
            op_then (append_completion_receipt env run (mu_events committed) output_contract res ReceiptToPromote) (\<lambda>receipts.
            op_then (advance s i Completed) (\<lambda>promoted.
            op_ok \<lparr>mu_run = mu_run committed, mu_events = mu_events committed @ receipts @ promoted\<rparr>))))"

definition complete_live_run_and_publish :: "('h, 'w) advance \<Rightarrow> ('h, 'w, 'j) service_env \<Rightarrow> session_id \<Rightarrow> run_id \<Rightarrow>
    string \<Rightarrow> capsule_result option \<Rightarrow> ('h, 'w, unit) run_operation" where
  "complete_live_run_and_publish advance env s i detail res =
     and_publish (complete_live_run_transition advance env s i detail res)"

section \<open>Artifacts\<close>

fun receipt_kind_for_artifact :: "artifact_kind \<Rightarrow> receipt_kind" where
  "receipt_kind_for_artifact AkPatch = RkPatch"
| "receipt_kind_for_artifact AkFileSnapshot = RkEvidence"
| "receipt_kind_for_artifact AkTranscript = RkArtifact"
| "receipt_kind_for_artifact AkCommandLog = RkArtifact"

fun artifact_kind_label :: "artifact_kind \<Rightarrow> string" where
  "artifact_kind_label AkTranscript = ''transcript''"
| "artifact_kind_label AkPatch = ''patch''"
| "artifact_kind_label AkFileSnapshot = ''file snapshot''"
| "artifact_kind_label AkCommandLog = ''command log''"

definition artifact_receipt_create_input :: "run_projection \<Rightarrow> artifact_record \<Rightarrow> create_receipt option" where
  "artifact_receipt_create_input run a =
     (if rn_harness run \<noteq> HarnessNative then None
      else Some \<lparr>ci_session_id = ac_session_id a, ci_run_id = ac_run_id a, ci_parent_run_id = parent_run_id run,
        ci_kind = receipt_kind_for_artifact (ac_kind a),
        ci_provenance = \<lparr>pv_artifact_id = Some (ac_id a), pv_agent_turn_id = None, pv_event_seq = None,
          pv_stream_cursor = None\<rparr>,
        ci_title = Some (''Artifact '' @ as_str (ac_id a)),
        ci_summary = Some (artifact_kind_label (ac_kind a) @ '' artifact returned from native run'')\<rparr>)"

definition append_artifact_receipt_event :: "('h, 'w, 'j) service_env \<Rightarrow> nat \<Rightarrow> artifact_record \<Rightarrow> create_receipt \<Rightarrow>
    memory_store \<Rightarrow> event_record option outcome" where
  "append_artifact_receipt_event env n a input st =
     (if list_ex (\<lambda>r. pv_artifact_id (rc_provenance r) = Some (ac_id a))
          (receipts_list \<lparr>lq_session_id = ci_session_id input, lq_run_id = Some (ci_run_id input), lq_state = None,
             lq_kind = Some (ci_kind input), lq_parent_run_id = ci_parent_run_id input, lq_limit = None\<rparr> (ms_receipts st))
      then (st, Ok None)
      else outcome_then (store_create_receipt env n input st) (\<lambda>receipt st1.
        outcome_then (commit_receipt_event (ac_session_id a) (EvContextReceipt (ReceiptCreated receipt)) (se_now env n) st1)
          (\<lambda>committed st2. (st2, Ok (Some (oe_event committed))))))"

text \<open>A failure to make the receipt is logged only; what it did to the store stays.\<close>

definition artifact_receipt_events :: "('h, 'w, 'j) service_env \<Rightarrow> run_projection \<Rightarrow> artifact_record \<Rightarrow>
    ('h, 'w, event_record list) run_operation" where
  "artifact_receipt_events env run a =
     (case artifact_receipt_create_input run a of
        None \<Rightarrow> op_ok []
      | Some input \<Rightarrow> op_tick (\<lambda>n. op_result (op_store (append_artifact_receipt_event env n a input)) (\<lambda>r.
          op_ok (case r of Inl e \<Rightarrow> [] | Inr event \<Rightarrow> (case event of None \<Rightarrow> [] | Some x \<Rightarrow> [x])))))"

definition project_artifact_summary :: "artifact_record \<Rightarrow> artifact_summary" where
  "project_artifact_summary a = \<lparr>af_id = ac_id a, af_run_id = ac_run_id a, af_kind = ac_kind a,
     af_storage_path = ac_storage_path a\<rparr>"

definition record_artifact :: "('h, 'w, 'j) service_env \<Rightarrow> artifact_record \<Rightarrow>
    ('h, 'w, artifact_summary \<times> event_record list) run_operation" where
  "record_artifact env artifact =
     (let storage_path = trim (ac_storage_path artifact); a = artifact\<lparr>ac_storage_path := storage_path\<rparr>
      in if storage_path = [] then op_err EmptyArtifactStoragePath
         else op_then (locked env (op_read (live_owned_run (ac_session_id a) (ac_run_id a)))) (\<lambda>_.
           locked env (op_tick (\<lambda>n.
             op_result (op_store (commit_artifact_publish a (se_now env n))) (\<lambda>r. case r of
               Inl (Store (CommitRunStatusMismatch entity expected actual)) \<Rightarrow>
                 if entity = ''artifact''
                 then op_err (RunNotLiveOwned ''artifact run is no longer actively running'')
                 else op_err (Store (CommitRunStatusMismatch entity expected actual))
             | Inl e \<Rightarrow> op_err e
             | Inr committed \<Rightarrow>
                 op_then (op_read (stored_run (ac_run_id (oa_artifact committed)))) (\<lambda>run.
                 op_then (artifact_receipt_events env run (oa_artifact committed)) (\<lambda>more_events.
                 op_ok (project_artifact_summary (oa_artifact committed), oa_event committed # more_events)))))))) "

definition record_artifact_and_publish :: "('h, 'w, 'j) service_env \<Rightarrow> session_id \<Rightarrow> run_id \<Rightarrow> artifact_kind \<Rightarrow>
    string \<Rightarrow> ('h, 'w, unit) run_operation" where
  "record_artifact_and_publish env s i kind path = op_tick (\<lambda>n.
     op_then (record_artifact env \<lparr>ac_id = Ident (''artifact-'' @ se_uuid env n), ac_session_id = s, ac_run_id = i,
       ac_kind = kind, ac_storage_path = path\<rparr>) (\<lambda>(summary, events). publish_records events))"

section \<open>Approvals\<close>

definition expire_pending_approval :: "('h, 'w, 'j) service_env \<Rightarrow> session_id \<Rightarrow> approval_request \<Rightarrow> nat \<Rightarrow>
    ('h, 'w, run_projection \<times> event_record list \<times> approval_resolution option) run_operation" where
  "expire_pending_approval env s approval now =
     (let resolution = answer_request approval Rejected ByExpired daemon_actor (Some ''approval_expired'')
      in locked env (op_then (op_read (session_run s (rq_run_id approval))) (\<lambda>run.
         op_then (op_read (\<lambda>sv. Ok (if rn_status run = Running \<and> is_live (rn_id run) s sv then Some resolution else None)))
           (\<lambda>live_resolution.
         op_then (if rn_status run = WaitingForApproval
           then let run' = run\<lparr>rn_status := Failed\<rparr>
             in commit_transition s run' [EvApproval (ApprovalResolved resolution),
                  run_status_event (rn_id run') Failed ''Approval expired'' (recipe_id_for_run run')] now
           else commit_transition s run [EvApproval (ApprovalResolved resolution)] now) (\<lambda>committed.
         op_ok (cr_run committed, cr_events committed, live_resolution))))))"

definition tell_live_agent :: "('h, 'w, 'j) service_env \<Rightarrow> run_id \<Rightarrow> session_id \<Rightarrow> approval_resolution option \<Rightarrow>
    ('h, 'w, unit) run_operation" where
  "tell_live_agent env i s live_resolution =
     (case live_resolution of None \<Rightarrow> op_ok () | Some resolution \<Rightarrow> resolve_live_approval env i s resolution)"

definition expire_and_publish :: "('h, 'w, 'j) service_env \<Rightarrow> session_id \<Rightarrow> approval_request \<Rightarrow> nat \<Rightarrow>
    ('h, 'w, event_record list) run_operation" where
  "expire_and_publish env s approval now =
     op_then (expire_pending_approval env s approval now) (\<lambda>(run, events, live_resolution).
     op_then (publish_records events) (\<lambda>_.
     op_then (tell_live_agent env (rn_id run) s live_resolution) (\<lambda>_. op_ok events)))"

primrec expire_each :: "('h, 'w, 'j) service_env \<Rightarrow> session_id \<Rightarrow> nat \<Rightarrow> approval_request list \<Rightarrow> event_record list \<Rightarrow>
    ('h, 'w, event_record list) run_operation" where
  "expire_each env s now [] published = op_ok published"
| "expire_each env s now (q # qs) published =
     (if \<not> is_expired (rq_expires_at_ms q) now then expire_each env s now qs published
      else op_then (expire_and_publish env s q now) (\<lambda>events. expire_each env s now qs (published @ events)))"

definition expire_pending_approvals_for_session :: "('h, 'w, 'j) service_env \<Rightarrow> session_id \<Rightarrow>
    ('h, 'w, event_record list) run_operation" where
  "expire_pending_approvals_for_session env s = op_tick (\<lambda>n.
     op_then (locked env (op_read (\<lambda>sv. map_err Store (approvals_for_session
       \<lparr>aq_session_id = s, aq_run_id = None, aq_approval_id = None\<rparr> (sv_store sv))))) (\<lambda>approvals.
     expire_each env s (se_now env n) approvals []))"

record decide_params =
  dp_approval_id :: approval_id
  dp_decision :: approval_decision
  dp_commentary :: "string option"

text \<open>The first locked section of \<open>decide_approval\<close>: the request is pending and expired, or decided.\<close>

datatype decided_approval =
    ApprovalExpired approval_request
  | ApprovalDecided run_projection "event_record list" "approval_resolution option"

definition decide_locked :: "('h, 'w, 'j) service_env \<Rightarrow> session_id \<Rightarrow> approval_actor \<Rightarrow> decide_params \<Rightarrow> nat \<Rightarrow>
    ('h, 'w, decided_approval) run_operation" where
  "decide_locked env s actor params now =
     op_then (op_read (\<lambda>sv. map_err Store (approval_lookup s (dp_approval_id params) (sv_store sv)))) (\<lambda>found.
     case found of
       Resolved \<Rightarrow> op_err (ApprovalAlreadyResolved (as_str (dp_approval_id params)))
     | NotFound \<Rightarrow> op_err (ApprovalNotFound (as_str (dp_approval_id params)))
     | Pending approval \<Rightarrow>
         if is_expired (rq_expires_at_ms approval) now then op_ok (ApprovalExpired approval)
         else
           op_then (op_read (stored_run (rq_run_id approval))) (\<lambda>run.
           op_then (op_read (require_session s)) (\<lambda>_.
           let resolution = answer_request (approval\<lparr>rq_id := dp_approval_id params\<rparr>) (dp_decision params) ByUser actor
                 (dp_commentary params)
           in op_then (op_read (\<lambda>sv. Ok (rn_status run = Running \<and> is_live (rn_id run) s sv))) (\<lambda>in_live_run.
              if in_live_run
              then op_tick (\<lambda>n. op_then (commit_transition s run [EvApproval (ApprovalResolved resolution)] (se_now env n))
                (\<lambda>committed. op_ok (ApprovalDecided (cr_run committed) (cr_events committed) (Some resolution))))
              else if rn_status run \<noteq> WaitingForApproval then op_err (RunNotWaitingForApproval (as_str (rn_id run)))
              else
                let run' = run\<lparr>rn_status := (case dp_decision params of Approved \<Rightarrow> Running | Rejected \<Rightarrow> Failed)\<rparr>;
                    detail = (case dp_decision params of Approved \<Rightarrow> ''Approval granted'' | Rejected \<Rightarrow> ''Approval rejected'')
                in op_tick (\<lambda>n. op_then (commit_and_claim s run' [EvApproval (ApprovalResolved resolution),
                     run_status_event (rn_id run') (rn_status run') detail (recipe_id_for_run run')] (se_now env n))
                   (\<lambda>(run', events). op_ok (ApprovalDecided run' events None)))))))"

text \<open>What follows a decision: the live agent is told, or the run of the approval is started.\<close>

definition start_decided_run :: "('h, 'w) advance \<Rightarrow> ('h, 'w, 'j) service_env \<Rightarrow> session_id \<Rightarrow> run_projection \<Rightarrow>
    event_record list \<Rightarrow> ('h, 'w, run_projection \<times> event_record list) run_operation" where
  "start_decided_run advance env s run events = op_tick (\<lambda>n.
     runtime_then env (se_runtime_profile env n (rn_runtime_profile_id run)) (\<lambda>profile.
     op_result (start_provider_execution advance env s (rn_id run) (rn_objective run) profile
       (execution_overrides_for_run run)) (\<lambda>started.
     op_then (load_run_projection env (rn_id run)) (\<lambda>latest.
       case started of
         Inr u \<Rightarrow> op_ok (run, events)
       | Inl e \<Rightarrow>
           if rn_status latest = Running
           then op_then (fail_live_run_without_publish env s (rn_id latest) (se_error_text env e))
             (\<lambda>(failed, failed_events). op_ok (failed, events @ failed_events))
           else op_ok (if rn_status latest \<noteq> Cancelled then latest else run, events)))))"

definition decide_approval :: "('h, 'w) advance \<Rightarrow> ('h, 'w, 'j) service_env \<Rightarrow> session_id \<Rightarrow> approval_actor \<Rightarrow>
    decide_params \<Rightarrow> ('h, 'w, run_mutation_result) run_operation" where
  "decide_approval advance env s actor params = op_tick (\<lambda>n.
     let now = se_now env n
     in op_then (locked env (decide_locked env s actor params now)) (\<lambda>decided.
        case decided of
          ApprovalExpired approval \<Rightarrow>
            op_then (expire_and_publish env s approval now) (\<lambda>_.
            op_err (ApprovalAlreadyResolved (as_str (dp_approval_id params))))
        | ApprovalDecided run events live_resolution \<Rightarrow>
            op_then (tell_live_agent env (rn_id run) s live_resolution) (\<lambda>_.
            op_then (if rn_status run = Running \<and> live_resolution = None
              then start_decided_run advance env s run events else op_ok (run, events)) (\<lambda>(run', events').
            op_then (if rn_status run' = Failed then advance s (rn_id run') Failed else op_ok []) (\<lambda>promoted.
            op_ok \<lparr>mu_run = project_run_summary run', mu_events = events' @ promoted\<rparr>)))))"

section \<open>Cancelling\<close>

definition max_native_child_cancel_cascade_runs :: nat where
  "max_native_child_cancel_cascade_runs = 64"

definition cancellable :: "run_status \<Rightarrow> bool" where
  "cancellable status \<longleftrightarrow> status \<in> {Queued, Running, WaitingForApproval}"

definition cancellable_native_child_run_ids :: "session_id \<Rightarrow> run_id \<Rightarrow> run_id set \<Rightarrow> ('h, 'w) service \<Rightarrow> run_id list" where
  "cancellable_native_child_run_ids s parent visited sv =
     sort (map rn_id (filter (\<lambda>run. rn_session_id run = s \<and> rn_id run \<noteq> parent \<and> rn_id run \<notin> visited \<and>
       cancellable (rn_status run) \<and>
       (case rn_source run of SourceNativeSubagent p _ _ _ _ _ _ _ \<Rightarrow> p = parent | _ \<Rightarrow> False))
       (bt_values (ms_runs (sv_store sv)))))"

definition cancel_detail :: "string option \<Rightarrow> string" where
  "cancel_detail reason = (case reason of
     None \<Rightarrow> ''Run cancelled'' | Some t \<Rightarrow> if trim t = [] then ''Run cancelled'' else trim t)"

text \<open>The guard of both locked sections; the status is kept in mind from the first.\<close>

definition cancellable_run :: "session_id \<Rightarrow> run_id \<Rightarrow> ('h, 'w) service \<Rightarrow> (run_projection, run_execution_error) result" where
  "cancellable_run s i sv = try_then (session_run s i sv) (\<lambda>run.
     if \<not> cancellable (rn_status run) then Err (RunNotCancellable (as_str (rn_id run))) else Ok run)"

definition cancel_check :: "session_id \<Rightarrow> run_id \<Rightarrow> ('h, 'w) service \<Rightarrow> (bool, run_execution_error) result" where
  "cancel_check s i sv = try_then (cancellable_run s i sv) (\<lambda>run.
     let was_running = (rn_status run = Running)
     in if was_running \<and> \<not> is_live i s sv then Err (RunNotCancellable (as_str (rn_id run)))
        else try_then (require_session s sv) (\<lambda>_. Ok was_running))"

definition cancel_commit :: "('h, 'w, 'j) service_env \<Rightarrow> session_id \<Rightarrow> approval_actor \<Rightarrow> run_id \<Rightarrow> string \<Rightarrow>
    ('h, 'w, run_projection \<times> event_record list) run_operation" where
  "cancel_commit env s actor i detail =
     locked env (op_then (op_read (cancellable_run s i)) (\<lambda>run.
     op_then (op_read (require_session s)) (\<lambda>_.
     op_then (if rn_status run \<in> {Running, WaitingForApproval}
       then op_read (rejections s (rn_id run) ByCancelled actor detail) else op_ok []) (\<lambda>answers.
     let run' = run\<lparr>rn_status := Cancelled\<rparr>
     in op_tick (\<lambda>n. op_then (commit_transition s run'
          (answers @ [run_status_event (rn_id run') Cancelled detail (recipe_id_for_run run')]) (se_now env n))
        (\<lambda>committed. op_ok (cr_run committed, cr_events committed)))))))"

text \<open>
  \<open>cancel_run_with_cascade\<close>: the run, then its native children, depth first. Every call adds a
  run to the visited ones and fails above 64 of them, so 66 calls inside one another are enough
  fuel.
\<close>

primrec each_child :: "(run_id \<Rightarrow> run_id set \<Rightarrow> ('h, 'w, event_record list \<times> run_id set) run_operation) \<Rightarrow> run_id list \<Rightarrow>
    event_record list \<Rightarrow> run_id set \<Rightarrow> ('h, 'w, event_record list \<times> run_id set) run_operation" where
  "each_child f [] events visited = op_ok (events, visited)"
| "each_child f (i # ids) events visited =
     op_then (f i visited) (\<lambda>(child_events, visited'). each_child f ids (events @ child_events) visited')"

primrec cancel_run_with_cascade :: "nat \<Rightarrow> ('h, 'w) advance \<Rightarrow> ('h, 'w, 'j) service_env \<Rightarrow> session_id \<Rightarrow>
    approval_actor \<Rightarrow> string option \<Rightarrow> run_id \<Rightarrow> run_id set \<Rightarrow>
    ('h, 'w, run_mutation_result \<times> run_id set) run_operation" where
  "cancel_run_with_cascade 0 advance env s actor reason i visited = op_none"
| "cancel_run_with_cascade (Suc fuel) advance env s actor reason i visited =
     (if i \<in> visited
      then op_err (RunNotCancellable (''native child cancel cascade loop at '' @ as_str i))
      else if card (insert i visited) > max_native_child_cancel_cascade_runs
      then op_err (ProviderExecutionFailed (''native child cancel cascade exceeded '' @
        dec max_native_child_cancel_cascade_runs @ '' runs''))
      else
        let detail = cancel_detail reason
        in op_then (locked env (op_read (cancel_check s i))) (\<lambda>was_running.
           op_then (if was_running then cancel_live_run env i s else op_ok ()) (\<lambda>_.
           op_then (cancel_commit env s actor i detail) (\<lambda>(run, events).
           op_then (locked env (op_read (\<lambda>sv. Ok (cancellable_native_child_run_ids s (rn_id run) (insert i visited) sv))))
             (\<lambda>children.
           op_then (each_child (\<lambda>j v. op_then (cancel_run_with_cascade fuel advance env s actor (Some detail) j v)
               (\<lambda>(r, v'). op_ok (mu_events r, v'))) children events (insert i visited)) (\<lambda>(events', visited').
           op_then (advance s (rn_id run) Cancelled) (\<lambda>promoted.
           op_ok (\<lparr>mu_run = project_run_summary run, mu_events = events' @ promoted\<rparr>, visited'))))))))"

definition cancel_run :: "('h, 'w) advance \<Rightarrow> ('h, 'w, 'j) service_env \<Rightarrow> session_id \<Rightarrow> approval_actor \<Rightarrow> run_id \<Rightarrow>
    string option \<Rightarrow> ('h, 'w, run_mutation_result) run_operation" where
  "cancel_run advance env s actor i reason =
     op_then (cancel_run_with_cascade (max_native_child_cancel_cascade_runs + 2) advance env s actor reason i {})
       (\<lambda>(r, visited). op_ok r)"

end
