(* ===== verification/RunStart.thy ===== *)
theory RunStart
  imports RunOperations
begin

text \<open>
  Starting runs (\<open>start.rs\<close>, \<open>native_children.rs\<close>, \<open>run_fork.rs\<close> and \<open>resume.rs\<close> of
  \<open>crates/ta-orchestrator/src/orchestration/run_execution/\<close>, \<open>orchestration/recipes/resolution.rs\<close>),
  the sink of a running agent (\<open>provider_sink.rs\<close>), and all requests of the service together.
\<close>

section \<open>Recipes\<close>

record delegate_recipe_request =
  dl_objective :: string
  dl_output_contract :: "output_contract_kind option"
  dl_model_id :: "model_id option"
  dl_recipe_id :: "string option"

definition resolve_delegate_recipe :: "(string \<Rightarrow> capsule_recipe option) \<Rightarrow> delegate_recipe_request \<Rightarrow>
    (delegate_recipe_request, run_execution_error) result" where
  "resolve_delegate_recipe recipes request =
     (case dl_recipe_id request of
        None \<Rightarrow> Ok request
      | Some recipe_id \<Rightarrow>
          (case recipes recipe_id of
             None \<Rightarrow> Err (UnknownRecipeId recipe_id)
           | Some recipe \<Rightarrow>
               if some_and (\<lambda>contract. contract \<noteq> cpr_contract recipe) (dl_output_contract request)
               then Err (RecipeContractConflict recipe_id (cpr_contract recipe) (the (dl_output_contract request)))
               else Ok \<lparr>dl_objective = cpr_prompt_template recipe @ [CHR 0x0A, CHR 0x0A] @ dl_objective request,
                   dl_output_contract = Some (cpr_contract recipe),
                   dl_model_id = opt_or (dl_model_id request) (map_option Ident (cpr_default_model recipe)),
                   dl_recipe_id = Some recipe_id\<rparr>))"

section \<open>New runs\<close>

definition harness_kind_of :: "agent_execution_harness \<Rightarrow> run_harness_kind" where
  "harness_kind_of h = (case h of
     NativeLoop \<Rightarrow> HarnessNative | AcpHarness \<Rightarrow> HarnessAcp | CodexAppServer \<Rightarrow> HarnessCodexAppServer)"

text \<open>The projection of a run that is committed for the first time.\<close>

definition new_run_projection :: "run_id \<Rightarrow> session_id \<Rightarrow> runtime_profile_id \<Rightarrow> string \<Rightarrow> run_status \<Rightarrow>
    run_harness_kind \<Rightarrow> run_source \<Rightarrow> prepared_execution_context \<Rightarrow> run_projection" where
  "new_run_projection i s profile_id objective status harness source px =
     \<lparr>rn_id = i, rn_session_id = s, rn_runtime_profile_id = profile_id, rn_objective = objective,
      rn_status = status, rn_harness = harness, rn_source = source,
      rn_execution_context = px_execution_context px, rn_result = None, rn_contract_violation = None,
      rn_started_at_ms = None, rn_ended_at_ms = None, rn_last_event_seq = None,
      rn_workspace_info = px_workspace_info px, rn_claimed_files = px_claimed_files px,
      rn_conflict_summary = px_conflict_summary px\<rparr>"

definition build_first_transition :: "('h, 'w, 'j) service_env \<Rightarrow> disposition \<Rightarrow> run_id \<Rightarrow> policy_decision \<Rightarrow>
    string option \<Rightarrow> ('h, 'w, run_status \<times> daemon_event list) run_operation" where
  "build_first_transition env d i policy_says recipe =
     (case d of
        StartNow \<Rightarrow> build_start_transition env i policy_says recipe
      | QueuedAt position \<Rightarrow> op_ok (build_queue_transition i position recipe))"

record start_run_command =
  sc'_objective :: string
  sc'_recipe_id :: "string option"
  sc'_model_id :: "model_id option"

definition start_run :: "('h, 'w) advance \<Rightarrow> ('h, 'w, 'j) service_env \<Rightarrow> session_id \<Rightarrow> start_run_command \<Rightarrow>
    ('h, 'w, run_mutation_result) run_operation" where
  "start_run advance env s command =
     op_then (op_of (resolve_delegate_recipe (se_recipes env)
       \<lparr>dl_objective = sc'_objective command, dl_output_contract = None, dl_model_id = sc'_model_id command,
        dl_recipe_id = sc'_recipe_id command\<rparr>)) (\<lambda>resolved.
     let objective = trim (dl_objective resolved)
     in if objective = [] then op_err EmptyRunObjective
        else op_then (locked env (op_read (require_session s))) (\<lambda>_.
        op_tick (\<lambda>n.
        let i = Ident (''run-'' @ se_uuid env n)
        in runtime_then env (se_selected_profile env n) (\<lambda>profile.
        op_then (schedule_run_start_with_policy env s i QueueIfBusy) (\<lambda>d.
        op_then (or_give_up env s i (prepare_execution_context env s i profile workspace_write_request)) (\<lambda>px.
        let policy_says = evaluate_execution_context (px_execution_context px) (operation_new ProcessExec ''execute run'')
        in op_then (or_give_up env s i (runtime_then env (se_harness env profile) op_ok)) (\<lambda>harness.
        op_then (locked env (op_then (build_first_transition env d i policy_says (dl_recipe_id resolved)) (\<lambda>(status, events).
          op_tick (\<lambda>n. or_give_up env s i (commit_and_claim s
            (new_run_projection i s (rps_id profile) objective status (harness_kind_of harness)
               (SourceUser (dl_output_contract resolved) (dl_model_id resolved) (dl_recipe_id resolved)) px)
            events (se_now env n)))))) (\<lambda>(run, events).
        op_then (start_committed_run advance env s profile run events) (\<lambda>(run', events').
        op_then (if rn_status run' = Failed then advance s (rn_id run') Failed else op_ok []) (\<lambda>promoted.
        op_ok \<lparr>mu_run = project_run_summary run', mu_events = events' @ promoted\<rparr>)))))))))) "

text \<open>As \<open>start_committed_run\<close>, but a failure is published at once: children and forks.\<close>

definition start_published_run :: "('h, 'w) advance \<Rightarrow> ('h, 'w, 'j) service_env \<Rightarrow> session_id \<Rightarrow>
    runtime_profile_summary \<Rightarrow> run_projection \<Rightarrow> model_id option \<Rightarrow> ('h, 'w, run_projection) run_operation" where
  "start_published_run advance env s profile run model =
     (if rn_status run \<noteq> Running then op_ok run
      else op_result (start_provider_execution advance env s (rn_id run) (rn_objective run) profile model) (\<lambda>started.
        op_then (load_run_projection env (rn_id run)) (\<lambda>latest.
          case started of
            Inl e \<Rightarrow>
              if rn_status latest = Running
              then op_then (fail_live_run_and_publish advance env s (rn_id latest) (se_error_text env e))
                (\<lambda>_. load_run_projection env (rn_id latest))
              else op_ok (if rn_status latest \<noteq> Cancelled then latest else run)
          | Inr u \<Rightarrow> op_ok (if rn_status latest \<noteq> Cancelled then latest else run))))"

definition native_harness :: "('h, 'w, 'j) service_env \<Rightarrow> run_projection \<Rightarrow> runtime_profile_summary \<Rightarrow>
    ('h, 'w, unit) run_operation" where
  "native_harness env parent profile = runtime_then env (se_harness env profile) (\<lambda>harness.
     if harness \<noteq> NativeLoop then op_err (RunNotNativeHarness (as_str (rn_id parent))) else op_ok ())"

record native_child_run_request =
  nc_parent_run_id :: run_id
  nc_parent_turn_id :: turn_id
  nc_objective :: string
  nc_output_contract :: "output_contract_kind option"
  nc_model_id :: "model_id option"
  nc_recipe_id :: "string option"
  nc_workspace_scope :: workspace_mode
  nc_cleanup_policy :: worktree_cleanup_policy
  nc_planned_write_files :: "string list"

definition start_native_child_run :: "('h, 'w) advance \<Rightarrow> ('h, 'w, 'j) service_env \<Rightarrow> session_id \<Rightarrow>
    native_child_run_request \<Rightarrow> ('h, 'w, run_id \<times> run_status) run_operation" where
  "start_native_child_run advance env s request =
     op_then (op_of (resolve_delegate_recipe (se_recipes env)
       \<lparr>dl_objective = nc_objective request, dl_output_contract = nc_output_contract request,
        dl_model_id = nc_model_id request, dl_recipe_id = nc_recipe_id request\<rparr>)) (\<lambda>resolved.
     let objective = trim (dl_objective resolved)
     in if objective = [] then op_err EmptyRunObjective
        else op_then (locked env (op_read (live_owned_run s (nc_parent_run_id request)))) (\<lambda>parent.
        op_tick (\<lambda>n. runtime_then env (se_runtime_profile env n (rn_runtime_profile_id parent)) (\<lambda>profile.
        if rn_harness parent \<noteq> HarnessNative then op_err (RunNotNativeHarness (as_str (rn_id parent)))
        else
          let i = Ident (''run-'' @ se_uuid env n);
              policy = (if nc_workspace_scope request = ModeWorktreeWrite then ParallelIfBusy else QueueIfBusy)
          in op_then (schedule_run_start_with_policy env s i policy) (\<lambda>d.
             op_then (or_give_up env s i (prepare_child_execution_context env s i (rn_execution_context parent)
               \<lparr>xr_workspace_mode = nc_workspace_scope request, xr_cleanup_policy = nc_cleanup_policy request,
                xr_planned_write_files = nc_planned_write_files request\<rparr>)) (\<lambda>px.
             let policy_says = evaluate_execution_context (px_execution_context px)
                   (operation_new ProcessExec ''execute native child run'')
             in op_then (or_give_up env s i (native_harness env parent profile)) (\<lambda>_.
             op_then (locked env (op_then (build_first_transition env d i policy_says (dl_recipe_id resolved)) (\<lambda>(status, events).
               op_tick (\<lambda>n. or_give_up env s i (commit_and_claim s
                 (new_run_projection i s (rps_id profile) objective status HarnessNative
                    (SourceNativeSubagent (rn_id parent) (nc_parent_turn_id request) (dl_output_contract resolved)
                       (dl_model_id resolved) (dl_recipe_id resolved) (nc_workspace_scope request)
                       (nc_cleanup_policy request) (nc_planned_write_files request)) px)
                 (events @ (case px_conflict_warning px of None \<Rightarrow> [] | Some w \<Rightarrow> [EvConflict (ConflictWarningEv i w)]))
                 (se_now env n)))))) (\<lambda>(run, events).
             op_then (publish_records events) (\<lambda>_.
             op_then (start_published_run advance env s profile run (execution_overrides_for_run run)) (\<lambda>run'.
             op_ok (rn_id run', rn_status run'))))))))))) "

section \<open>Forks\<close>

record run_record =
  rd_id :: run_id
  rd_session_id :: session_id
  rd_parent_run_id :: "run_id option"
  rd_runtime_profile_id :: runtime_profile_id
  rd_objective :: string
  rd_status :: run_status
  rd_harness :: run_harness_kind
  rd_source :: run_source
  rd_execution_context :: execution_context
  rd_started_at_ms :: "nat option"
  rd_ended_at_ms :: "nat option"
  rd_last_event_seq :: "nat option"
  rd_workspace_info :: "worktree_info option"
  rd_claimed_files :: "string list"
  rd_conflict_summary :: "conflict_summary option"

definition project_run_record :: "run_projection \<Rightarrow> run_record" where
  "project_run_record run =
     \<lparr>rd_id = rn_id run, rd_session_id = rn_session_id run, rd_parent_run_id = parent_run_id run,
      rd_runtime_profile_id = rn_runtime_profile_id run, rd_objective = rn_objective run,
      rd_status = rn_status run, rd_harness = rn_harness run, rd_source = rn_source run,
      rd_execution_context = rn_execution_context run, rd_started_at_ms = rn_started_at_ms run,
      rd_ended_at_ms = rn_ended_at_ms run, rd_last_event_seq = rn_last_event_seq run,
      rd_workspace_info = rn_workspace_info run, rd_claimed_files = rn_claimed_files run,
      rd_conflict_summary = rn_conflict_summary run\<rparr>"

record fork_run_request =
  fk_session_id :: session_id
  fk_parent_run_id :: run_id
  fk_parent_event_seq :: nat
  fk_objective :: "string option"

text \<open>The checks of \<open>fork_run\<close> on the parent and the fork point, behind the lock of the store.\<close>

definition forkable_parent :: "(string \<Rightarrow> ('j, string) result) \<Rightarrow> session_id \<Rightarrow> fork_run_request \<Rightarrow> ('h, 'w) service \<Rightarrow>
    (run_projection, run_execution_error) result" where
  "forkable_parent parse_json s request sv =
     try_then (session_run s (fk_parent_run_id request) sv) (\<lambda>parent.
       let boundary = fk_parent_event_seq request;
           not_found = Err (RunForkPointNotFound (fork_point (rn_id parent) boundary))
       in if rn_harness parent \<noteq> HarnessNative then Err (RunNotNativeHarness (as_str (rn_id parent)))
          else (case rn_last_event_seq parent of
            None \<Rightarrow> not_found
          | Some latest \<Rightarrow>
              if boundary = 0 \<or> boundary > latest then not_found
              else
                (case rr'_records (read_run_events \<lparr>rq'_session_id = s, rq'_run_id = rn_id parent,
                     rq'_after_sequence = Some (boundary - 1), rq'_limit = 1\<rparr> (sv_store sv)) of
                   [] \<Rightarrow> not_found
                 | r # rs \<Rightarrow>
                     if ev_sequence r \<noteq> boundary then not_found
                     else try_then (fork_initial_state_for_parent parse_json (sv_store sv) s parent boundary)
                       (\<lambda>state. Ok parent))))"

definition fork_objective :: "fork_run_request \<Rightarrow> run_projection \<Rightarrow> (string, run_execution_error) result" where
  "fork_objective request parent =
     (let objective = (case fk_objective request of None \<Rightarrow> rn_objective parent | Some t \<Rightarrow> trim t)
      in if trim objective = [] then Err EmptyRunObjective else Ok objective)"

definition fork_run :: "('h, 'w) advance \<Rightarrow> ('h, 'w, 'j) service_env \<Rightarrow> session_id \<Rightarrow> fork_run_request \<Rightarrow>
    ('h, 'w, run_record) run_operation" where
  "fork_run advance env s request =
     (if fk_session_id request \<noteq> s then op_err (RunSessionMismatch (as_str (fk_parent_run_id request)))
      else op_then (locked env (op_read (forkable_parent (se_parse_json env) s request))) (\<lambda>parent.
      op_tick (\<lambda>n. runtime_then env (se_runtime_profile env n (rn_runtime_profile_id parent)) (\<lambda>profile.
      op_then (op_of (fork_objective request parent)) (\<lambda>objective.
      let i = Ident (''run-'' @ se_uuid env n)
      in op_then (schedule_run_start_with_policy env s i QueueIfBusy) (\<lambda>d.
      op_then (or_give_up env s i (op_of (workspace_mode_for_fork (rn_execution_context parent)))) (\<lambda>mode.
      op_then (or_give_up env s i (prepare_child_execution_context env s i (rn_execution_context parent)
        \<lparr>xr_workspace_mode = mode, xr_cleanup_policy = DeleteOnSuccess, xr_planned_write_files = []\<rparr>)) (\<lambda>px.
      op_then (or_give_up env s i (native_harness env parent profile)) (\<lambda>_.
      let policy_says = evaluate_execution_context (px_execution_context px)
            (operation_new ProcessExec ''execute forked native run'')
      in op_then (locked env (op_then (build_first_transition env d i policy_says None) (\<lambda>(status, events).
           op_tick (\<lambda>n. or_give_up env s i (commit_and_claim s
             (new_run_projection i s (rps_id profile) objective status HarnessNative
                (SourceForked (rn_id parent) (fk_parent_event_seq request)) px) events (se_now env n)))))) (\<lambda>(run, events).
      op_then (publish_records events) (\<lambda>_.
      op_then (start_published_run advance env s profile run None) (\<lambda>run'.
      op_ok (project_run_record run')))))))))))))"

section \<open>Resuming\<close>

datatype resume_run_state = ResumeQueued | ResumeLive

text \<open>\<open>{:?}\<close> of a status.\<close>

fun run_status_debug :: "run_status \<Rightarrow> string" where
  "run_status_debug Queued = ''Queued''"
| "run_status_debug Running = ''Running''"
| "run_status_debug WaitingForApproval = ''WaitingForApproval''"
| "run_status_debug Completed = ''Completed''"
| "run_status_debug Failed = ''Failed''"
| "run_status_debug BudgetExceeded = ''BudgetExceeded''"
| "run_status_debug Cancelled = ''Cancelled''"

definition resume_run :: "('h, 'w, 'j) service_env \<Rightarrow> session_id \<Rightarrow> run_id \<Rightarrow>
    ('h, 'w, nat option \<times> run_record \<times> resume_run_state) run_operation" where
  "resume_run env s i =
     op_then (load_run_projection env i) (\<lambda>run.
     if rn_session_id run \<noteq> s then op_err (RunSessionMismatch (as_str (rn_id run)))
     else op_tick (\<lambda>n. runtime_then env (se_runtime_profile env n (rn_runtime_profile_id run)) (\<lambda>profile.
       runtime_then env (se_harness env profile) (\<lambda>harness.
       if rn_harness run \<noteq> HarnessNative \<or> harness \<noteq> NativeLoop
       then op_err (RunNotNativeHarness (as_str (rn_id run)))
       else op_then
         (if rn_status run = Queued then op_ok ResumeQueued
          else if rn_status run \<in> {Running, WaitingForApproval}
          then op_then (locked env (op_read (\<lambda>sv. Ok (is_live (rn_id run) s sv)))) (\<lambda>l.
            if l then op_ok ResumeLive
            else op_err (RunNotResumable (as_str (rn_id run) @ '' terminated unexpectedly and has no live native owner'')))
          else op_err (RunNotResumable (as_str (rn_id run) @ '' is terminal ('' @ run_status_debug (rn_status run) @ '')'')))
         (\<lambda>state. op_ok (rn_last_event_seq run, project_run_record run, state))))))"

section \<open>All requests\<close>

text \<open>The sink of a running agent (\<open>ExecutionSink for ProviderRunExecutionSink\<close>).\<close>

definition sink_operation :: "('h, 'w) advance \<Rightarrow> ('h, 'w, 'j) service_env \<Rightarrow> session_id \<Rightarrow> run_id \<Rightarrow> sink_call \<Rightarrow>
    ('h, 'w, unit) run_operation" where
  "sink_operation advance env s i call =
     (case call of
        PushStream frame \<Rightarrow>
          op_then (emit_agent_stream_and_publish env s i frame) (\<lambda>_. enforce_budget advance env s i True)
      | RecordTokenUsage usage \<Rightarrow> record_token_usage_and_publish env s i usage
      | PushActivity detail \<Rightarrow> emit_live_run_detail_and_publish env s i detail
      | PushProviderSessionId _ \<Rightarrow> op_ok ()
      | RequestApproval request \<Rightarrow> request_approval_and_publish env s i request
      | ResolveApproval resolution \<Rightarrow> resolve_approval_and_publish env s i resolution
      | RecordArtifact kind path \<Rightarrow> record_artifact_and_publish env s i kind path
      | Complete detail \<Rightarrow> complete_live_run_and_publish advance env s i detail None
      | CompleteWithResult detail res \<Rightarrow> complete_live_run_and_publish advance env s i detail res)"

definition sink_start_native_child_run :: "('h, 'w) advance \<Rightarrow> ('h, 'w, 'j) service_env \<Rightarrow> session_id \<Rightarrow> run_id \<Rightarrow>
    native_child_run_request \<Rightarrow> ('h, 'w, run_id \<times> run_status) run_operation" where
  "sink_start_native_child_run advance env s i request =
     (if nc_parent_run_id request \<noteq> i
      then op_err (ProviderExecutionFailed (''native child run parent '' @ as_str (nc_parent_run_id request) @
        '' does not match active run '' @ as_str i))
      else start_native_child_run advance env s request)"

datatype service_request =
    RequestSink session_id run_id sink_call
  | RequestFail session_id run_id string
  | RequestStart session_id start_run_command
  | RequestChild session_id run_id native_child_run_request
  | RequestFork session_id fork_run_request
  | RequestResume session_id run_id
  | RequestDecide session_id approval_actor decide_params
  | RequestExpire session_id
  | RequestCancel session_id approval_actor run_id "string option"
  | RequestArtifact artifact_record
  | RequestComplete session_id run_id string "capsule_result option"
  | RequestBoot

definition done_with :: "('h, 'w, 'a) run_operation \<Rightarrow> ('h, 'w, unit) run_operation" where
  "done_with m = op_then m (\<lambda>_. op_ok ())"

fun serve :: "nat \<Rightarrow> ('h, 'w, 'j) service_env \<Rightarrow> service_request \<Rightarrow> ('h, 'w, unit) run_operation" where
  "serve fuel env (RequestSink s i call) = sink_operation (advance_ready_queue fuel env) env s i call"
| "serve fuel env (RequestFail s i detail) = fail_live_run_and_publish (advance_ready_queue fuel env) env s i detail"
| "serve fuel env (RequestStart s command) = done_with (start_run (advance_ready_queue fuel env) env s command)"
| "serve fuel env (RequestChild s i request) =
     done_with (sink_start_native_child_run (advance_ready_queue fuel env) env s i request)"
| "serve fuel env (RequestFork s request) = done_with (fork_run (advance_ready_queue fuel env) env s request)"
| "serve fuel env (RequestResume s i) = done_with (resume_run env s i)"
| "serve fuel env (RequestDecide s actor params) =
     done_with (decide_approval (advance_ready_queue fuel env) env s actor params)"
| "serve fuel env (RequestExpire s) = done_with (expire_pending_approvals_for_session env s)"
| "serve fuel env (RequestCancel s actor i reason) =
     done_with (cancel_run (advance_ready_queue fuel env) env s actor i reason)"
| "serve fuel env (RequestArtifact a) = done_with (record_artifact env a)"
| "serve fuel env (RequestComplete s i detail res) =
     done_with (complete_live_run_transition (advance_ready_queue fuel env) env s i detail res)"
| "serve fuel env RequestBoot = rehydrate_scheduler_on_boot fuel env"

end
