(* ===== verification/RunRelation.thy ===== *)
theory RunRelation
  imports RunStart
begin

text \<open>
  What every operation of the run execution service keeps of a relation on the store: the laws of
  the relation are asked for the commits the service makes, with what it checks before them, and
  for whatever the other threads do.
\<close>

section \<open>Rules for operations\<close>

definition store_kept :: "('h, 'w, 'a) run_operation \<Rightarrow> bool" where
  "store_kept m \<longleftrightarrow> (\<forall>sv sv' r. m sv = Some (sv', r) \<longrightarrow> sv_store sv' = sv_store sv)"

definition finished :: "run_status \<Rightarrow> bool" where
  "finished status \<longleftrightarrow> status \<in> {Completed, Failed, BudgetExceeded, Cancelled}"

lemma stored_run_Ok: "stored_run i sv = Ok run \<longleftrightarrow> bt_get (ms_runs (sv_store sv)) i = Some run"
  by (auto simp: stored_run_def split: option.splits)

lemma session_run_Ok:
  "session_run s i sv = Ok run \<longleftrightarrow> bt_get (ms_runs (sv_store sv)) i = Some run \<and> rn_session_id run = s"
  by (auto simp: session_run_def try_then_Ok_iff stored_run_Ok split: if_splits)

lemma live_owned_run_Ok:
  "live_owned_run s i sv = Ok run \<longleftrightarrow> bt_get (ms_runs (sv_store sv)) i = Some run \<and> rn_session_id run = s \<and>
     rn_status run = Running \<and> is_live i s sv"
  by (auto simp: live_owned_run_def try_then_Ok_iff session_run_Ok split: if_splits)

locale store_relation =
  fixes env :: "('h, 'w, 'j) service_env" and R :: "memory_store \<Rightarrow> memory_store \<Rightarrow> bool"
  assumes refl: "R st st"
    and trans: "R st st1 \<Longrightarrow> R st1 st2 \<Longrightarrow> R st st2"
    and others: "R (sv_store sv) (sv_store (se_others env n sv))"
    and change: "bt_get (ms_runs st) i = Some old \<Longrightarrow> rn_id run = rn_id old \<Longrightarrow>
      \<not> finished (rn_status old) \<or> run = old \<Longrightarrow>
      commit_run_transition \<lparr>ct_session_id = s, ct_run = run, ct_events = events, ct_occurred_at_ms = now\<rparr> st = (st', res) \<Longrightarrow>
      R st st'"
    and create: "rn_id run = Ident (''run-'' @ se_uuid env n) \<Longrightarrow>
      commit_run_transition \<lparr>ct_session_id = s, ct_run = run, ct_events = events, ct_occurred_at_ms = now\<rparr> st = (st', res) \<Longrightarrow>
      R st st'"
    and artifact: "commit_artifact_publish a now st = (st', res') \<Longrightarrow> R st st'"
    and receipt_event: "commit_receipt_event s (EvContextReceipt e) now st = (st', res'') \<Longrightarrow> R st st'"
    and receipt_created: "receipts_create (se_sha256 env) uuid time input (ms_receipts st) = Ok (t, x) \<Longrightarrow>
      R st (st\<lparr>ms_receipts := t\<rparr>)"
    and receipt_promoted: "receipts_promote time j (ms_receipts st) = Ok (t, x) \<Longrightarrow> R st (st\<lparr>ms_receipts := t\<rparr>)"
    and receipt_quarantined: "receipts_quarantine time j (ms_receipts st) = Ok (t, x) \<Longrightarrow> R st (st\<lparr>ms_receipts := t\<rparr>)"
begin

text \<open>An operation from a given store, and from any.\<close>

definition related_at :: "memory_store \<Rightarrow> ('h, 'w, 'a) run_operation \<Rightarrow> bool" where
  "related_at st m \<longleftrightarrow> (\<forall>sv sv' r. sv_store sv = st \<longrightarrow> m sv = Some (sv', r) \<longrightarrow> R st (sv_store sv'))"

definition related :: "('h, 'w, 'a) run_operation \<Rightarrow> bool" where
  "related m \<longleftrightarrow> (\<forall>st. related_at st m)"

lemma related_at: "related m \<Longrightarrow> related_at st m"
  by (simp add: related_def)

lemma relatedI: "(\<And>st. related_at st m) \<Longrightarrow> related m"
  by (simp add: related_def)

lemma at_of [intro!]: "related_at st (op_of r)"
  by (simp add: related_at_def op_of_def refl)

lemma at_tick [intro!]:
  assumes "\<And>n. related_at st (k n)"
  shows "related_at st (op_tick k)"
  unfolding related_at_def
proof (intro allI impI)
  fix sv sv' r assume st: "sv_store sv = st" and run: "op_tick k sv = Some (sv', r)"
  let ?sv = "sv\<lparr>sv_ticks := Suc (sv_ticks sv)\<rparr>"
  have "k (sv_ticks sv) ?sv = Some (sv', r)" using run by (simp add: op_tick_def)
  moreover have "sv_store ?sv = st" using st by simp
  ultimately show "R st (sv_store sv')" using assms [of "sv_ticks sv"] unfolding related_at_def by blast
qed

lemma at_read_then [intro!]:
  "(\<And>x sv. sv_store sv = st \<Longrightarrow> f sv = Ok x \<Longrightarrow> related_at st (k x)) \<Longrightarrow> related_at st (op_then (op_read f) k)"
  unfolding related_at_def op_then_def op_read_def by (auto split: sum.splits simp: refl)

lemma at_of_then [intro!]:
  "(\<And>x. r = Ok x \<Longrightarrow> related_at st (k x)) \<Longrightarrow> related_at st (op_then (op_of r) k)"
  unfolding related_at_def op_then_def op_of_def by (auto split: sum.splits simp: refl)

lemma at_runtime_then [intro!]: "(\<And>x. related_at st (k x)) \<Longrightarrow> related_at st (runtime_then env r k)"
  unfolding runtime_then_def by blast

lemma at_update_then [intro!]:
  "(\<And>sv sv' x. f sv = (sv', x) \<Longrightarrow> sv_store sv' = sv_store sv) \<Longrightarrow> (\<And>x. related_at st (k x)) \<Longrightarrow>
   related_at st (op_then (op_update f) k)"
  unfolding related_at_def op_then_def op_update_def by (force split: prod.splits)

lemma at_update [intro!]:
  "(\<And>sv sv' x. f sv = (sv', x) \<Longrightarrow> sv_store sv' = sv_store sv) \<Longrightarrow> related_at st (op_update f)"
  unfolding related_at_def op_update_def by (force split: prod.splits simp: refl)

lemma at_read [intro!]: "related_at st (op_read f)"
  unfolding related_at_def op_read_def by (auto simp: refl)

lemma at_then:
  assumes "related_at st m" and "\<And>x. related (k x)"
  shows "related_at st (op_then m k)"
  unfolding related_at_def
proof (intro allI impI)
  fix sv sv' r assume st: "sv_store sv = st" and run: "op_then m k sv = Some (sv', r)"
  from run obtain sv1 r1 where m: "m sv = Some (sv1, r1)"
    by (auto simp: op_then_def split: option.splits)
  then have first: "R st (sv_store sv1)" using assms(1) st by (simp add: related_at_def)
  show "R st (sv_store sv')"
  proof (cases r1)
    case (Inl e)
    with run m first show ?thesis by (simp add: op_then_def)
  next
    case (Inr x)
    then have "k x sv1 = Some (sv', r)" using run m by (simp add: op_then_def)
    then have "R (sv_store sv1) (sv_store sv')" using assms(2) [of x] unfolding related_def related_at_def by blast
    with first show ?thesis by (rule trans)
  qed
qed

lemma at_kept_then:
  assumes "store_kept m" and "\<And>x. related_at st (k x)"
  shows "related_at st (op_then m k)"
  using assms unfolding related_at_def store_kept_def op_then_def
  by (fastforce split: option.splits sum.splits simp: refl)

lemma at_result:
  assumes "related_at st m" and "\<And>r. related (k r)"
  shows "related_at st (op_result m k)"
  using assms unfolding related_def related_at_def op_result_def
  by (fastforce split: option.splits intro: trans)

lemma related_then [intro!]: "related m \<Longrightarrow> (\<And>x. related (k x)) \<Longrightarrow> related (op_then m k)"
  by (rule relatedI, rule at_then, rule related_at)

lemma related_result [intro!]: "related m \<Longrightarrow> (\<And>r. related (k r)) \<Longrightarrow> related (op_result m k)"
  by (rule relatedI, rule at_result, rule related_at)

lemma related_locked [intro!]:
  assumes "\<And>st. related_at st m"
  shows "related (locked env m)"
  unfolding related_def related_at_def
proof (intro allI impI)
  fix st and sv sv' :: "('h, 'w) service" and r
  assume st: "sv_store sv = st" and run: "locked env m sv = Some (sv', r)"
  let ?sv = "sv\<lparr>sv_ticks := Suc (sv_ticks sv)\<rparr>"
  let ?mid = "se_others env (sv_ticks sv) ?sv"
  have "m ?mid = Some (sv', r)" using run by (simp add: locked_def op_tick_def)
  then have "R (sv_store ?mid) (sv_store sv')" using assms by (simp add: related_at_def)
  moreover have "R st (sv_store ?mid)" using others [of ?sv "sv_ticks sv"] st by simp
  ultimately show "R st (sv_store sv')" using trans by blast
qed

lemma related_tick [intro!]: "(\<And>n. related (k n)) \<Longrightarrow> related (op_tick k)"
  by (blast intro: relatedI at_tick related_at)

lemma related_of [intro!]: "related (op_of r)"
  by (blast intro: relatedI)

lemma related_read [intro!]: "related (op_read f)"
  by (blast intro: relatedI)

lemma related_runtime_then [intro!]: "(\<And>x. related (k x)) \<Longrightarrow> related (runtime_then env r k)"
  by (blast intro: relatedI at_runtime_then related_at)

lemma related_update [intro!]:
  "(\<And>sv sv' x. f sv = (sv', x) \<Longrightarrow> sv_store sv' = sv_store sv) \<Longrightarrow> related (op_update f)"
  by (blast intro: relatedI)

section \<open>The commits\<close>

lemma at_change:
  "bt_get (ms_runs st) i = Some old \<Longrightarrow> rn_id run = rn_id old \<Longrightarrow> \<not> finished (rn_status old) \<or> run = old \<Longrightarrow>
   related_at st (commit_transition s run events now)"
  unfolding related_at_def commit_transition_def op_store_def
  by (auto split: prod.splits intro: change)

lemma at_create:
  "rn_id run = Ident (''run-'' @ se_uuid env n) \<Longrightarrow> related_at st (commit_transition s run events now)"
  unfolding related_at_def commit_transition_def op_store_def
  by (auto split: prod.splits intro: create)

lemma not_finished [simp]: "\<not> finished Running" "\<not> finished Queued" "\<not> finished WaitingForApproval"
  by (simp_all add: finished_def)

lemma at_artifact: "related_at st (op_store (commit_artifact_publish a now))"
  unfolding related_at_def op_store_def by (auto split: prod.splits intro: artifact)

lemma at_receipt_event: "related_at st (op_store (commit_receipt_event s (EvContextReceipt e) now))"
  unfolding related_at_def op_store_def by (auto split: prod.splits intro: receipt_event)

lemma create_receipt:
  "store_create_receipt env n input st = (st', r) \<Longrightarrow> R st st'"
  by (auto simp: store_create_receipt_def store_receipts_def refl intro: receipt_created split: sum.splits prod.splits)

lemma at_create_receipt: "related_at st (op_store (store_create_receipt env n input))"
  unfolding related_at_def op_store_def by (auto split: prod.splits intro: create_receipt)

lemma at_promote: "related_at st (op_store (store_receipts (receipts_promote time j)))"
  unfolding related_at_def op_store_def store_receipts_def
  by (auto split: prod.splits sum.splits simp: refl intro: receipt_promoted)

lemma at_quarantine: "related_at st (op_store (store_receipts (receipts_quarantine time j)))"
  unfolding related_at_def op_store_def store_receipts_def
  by (auto split: prod.splits sum.splits simp: refl intro: receipt_quarantined)

section \<open>Branches\<close>

lemma related_if [intro!]: "(b \<Longrightarrow> related m) \<Longrightarrow> (\<not> b \<Longrightarrow> related n) \<Longrightarrow> related (if b then m else n)"
  by simp

lemma related_let [intro!]: "related (f e) \<Longrightarrow> related (Let e f)"
  by simp

lemma related_case_option [intro!]:
  "(v = None \<Longrightarrow> related m) \<Longrightarrow> (\<And>x. v = Some x \<Longrightarrow> related (f x)) \<Longrightarrow> related (case_option m f v)"
  by (simp split: option.split)

lemma related_case_sum [intro!]:
  "(\<And>x. v = Inl x \<Longrightarrow> related (f x)) \<Longrightarrow> (\<And>x. v = Inr x \<Longrightarrow> related (g x)) \<Longrightarrow> related (case_sum f g v)"
  by (simp split: sum.split)

lemma related_case_prod [intro!]: "(\<And>x y. v = (x, y) \<Longrightarrow> related (f x y)) \<Longrightarrow> related (case_prod f v)"
  by (simp split: prod.split)

lemma at_if [intro!]: "(b \<Longrightarrow> related_at st m) \<Longrightarrow> (\<not> b \<Longrightarrow> related_at st n) \<Longrightarrow> related_at st (if b then m else n)"
  by simp

lemma at_let [intro!]: "related_at st (f e) \<Longrightarrow> related_at st (Let e f)"
  by simp

lemma at_case_option [intro!]:
  "(v = None \<Longrightarrow> related_at st m) \<Longrightarrow> (\<And>x. v = Some x \<Longrightarrow> related_at st (f x)) \<Longrightarrow> related_at st (case_option m f v)"
  by (simp split: option.split)

lemma at_case_prod [intro!]: "(\<And>x y. v = (x, y) \<Longrightarrow> related_at st (f x y)) \<Longrightarrow> related_at st (case_prod f v)"
  by (simp split: prod.split)

lemma at_result_any: "related_at st m \<Longrightarrow> (\<And>r. related (k r)) \<Longrightarrow> related_at st (op_result m k)"
  by (rule at_result)

section \<open>Operations of the runtime\<close>

lemma related_publish [intro!]: "related (publish_records rs)"
  unfolding publish_records_def by (rule related_update) auto

lemma related_load [intro!]: "related (load_run_projection env i)"
  unfolding load_run_projection_def by (intro related_locked at_read)

lemma related_locked_read [intro!]: "related (locked env (op_read f))"
  by (intro related_locked at_read)

lemma related_locked_update [intro!]:
  "(\<And>sv sv' x. f sv = (sv', x) \<Longrightarrow> sv_store sv' = sv_store sv) \<Longrightarrow> related (locked env (op_update f))"
  by (intro related_locked at_update)

lemma at_claim [intro!]: "related_at st (claim_live_run i s)"
  unfolding claim_live_run_def by (rule at_update) auto

lemma related_look:
  "(\<And>x. related (k x)) \<Longrightarrow> related (locked env (op_then (op_update (\<lambda>sv.
     case f (sv_active sv) of (ow, look) \<Rightarrow> (sv\<lparr>sv_active := ow\<rparr>, look))) k))"
  by (rule related_locked, rule at_update_then) (auto split: prod.splits intro: related_at)

lemma related_cancel_looks [intro!]: "related (cancel_looks env waits i s)"
proof (induction waits)
  case 0 show ?case by (simp, rule related_look) (auto split: cancel_look_result.split prod.splits)
next
  case (Suc n)
  then show ?case by (simp, intro related_look) (auto split: cancel_look_result.split prod.splits)
qed

lemma related_cancel_live [intro!]: "related (cancel_live_run env i s)"
  unfolding cancel_live_run_def by (intro related_tick related_cancel_looks)

lemma related_resolve_live [intro!]: "related (resolve_live_approval env i s resolution)"
  unfolding resolve_live_approval_def by (rule related_look) (rule related_of)

lemma related_start_provider [intro!]: "related (start_provider_run env start)"
proof -
  have after: "related (locked env (op_then (op_update (\<lambda>sv.
       case attach_handle (se_cancel env) (ps_run_id start) h (sv_active sv) of (ow, r) \<Rightarrow> (sv\<lparr>sv_active := ow\<rparr>, r)))
       (\<lambda>r. op_then (op_of (map_err ProviderExecutionFailed r)) (\<lambda>disposition. op_ok ()))))" for h
    by (rule related_look) (intro related_then related_of)
  have "related (\<lambda>sv. op_then (op_of (map_err (\<lambda>e. ProviderExecutionFailed (agent_runtime_error_text (se_capability_text env) e))
       (se_execute env n start))) (\<lambda>h.
     locked env (op_then (op_update (\<lambda>sv.
       case attach_handle (se_cancel env) (ps_run_id start) h (sv_active sv) of (ow, r) \<Rightarrow> (sv\<lparr>sv_active := ow\<rparr>, r)))
       (\<lambda>r. op_then (op_of (map_err ProviderExecutionFailed r)) (\<lambda>disposition. op_ok ()))))
     (se_others env n sv))" (is "related (\<lambda>sv. ?m (se_others env n sv))") for n
  proof -
    have m: "related ?m" by (intro related_then related_of after)
    show ?thesis unfolding related_def related_at_def
    proof (intro allI impI)
      fix st and sv sv' :: "('h, 'w) service" and r
      assume st: "sv_store sv = st" and run: "?m (se_others env n sv) = Some (sv', r)"
      have "R (sv_store (se_others env n sv)) (sv_store sv')"
        using m run unfolding related_def related_at_def by blast
      with others [of sv n] st show "R st (sv_store sv')" using trans by blast
    qed
  qed
  then show ?thesis unfolding start_provider_run_def by (rule related_tick)
qed

lemma related_schedule [intro!]: "related (schedule_run_start_with_policy env s i policy)"
  unfolding schedule_run_start_with_policy_def
  by (rule related_locked, rule at_update_then) (auto split: prod.splits)

lemma related_finish [intro!]: "related (finish_scheduled_run env s i status)"
  unfolding finish_scheduled_run_def
  by (intro related_then related_locked_update)
    (auto simp: finish_resources_def split: prod.splits option.splits)

lemma related_give_up [intro!]: "related m \<Longrightarrow> related (or_give_up env s i m)"
  unfolding or_give_up_def by (intro related_result related_case_sum related_of related_then related_finish)

lemma at_give_up: "related_at st m \<Longrightarrow> related_at st (or_give_up env s i m)"
  unfolding or_give_up_def
  by (rule at_result, assumption, intro related_case_sum related_of related_then related_finish)

lemma related_claim_files [intro!]: "related (claim_planned_files env i planned)"
  unfolding claim_planned_files_def
  by (intro related_if related_of related_locked at_tick at_update_then) (auto split: prod.splits sum.splits claim_error.splits)

lemma related_allocate_worktree [intro!]: "related (allocate_worktree env i parent_repo workspace_root cleanup)"
  unfolding allocate_worktree_def
  by (intro related_tick related_runtime_then related_case_option related_let related_if related_of)

lemma related_allocate [intro!]: "related (allocate_execution_workspace env i parent_repo workspace_root request)"
  unfolding allocate_execution_workspace_def
  by (intro related_then related_if related_of related_allocate_worktree related_case_prod related_claim_files
      related_locked_update) auto

lemma related_prepare_workspace [intro!]: "related (prepare_context_from_workspace env i input)"
  unfolding prepare_context_from_workspace_def by (intro related_then related_allocate related_tick related_of)

lemma related_prepare [intro!]: "related (prepare_execution_context env s i profile request)"
  unfolding prepare_execution_context_def
  by (intro related_then related_of related_locked_read related_tick related_prepare_workspace)

lemma related_prepare_child [intro!]: "related (prepare_child_execution_context env s i parent request)"
  unfolding prepare_child_execution_context_def
  by (intro related_then related_of related_locked_read related_prepare_workspace)

end

end
