(* ===== verification/ServiceRelation.thy ===== *)
theory ServiceRelation
  imports RunRelation
begin

text \<open>
  Every request of the run execution service keeps a relation on the store with the laws of
  \<open>RunRelation\<close>. The operations that finish a run are related when what advances the queue is,
  and the loop that advances it is by induction on its fuel.
\<close>

context store_relation begin

section \<open>Commits of a run\<close>

lemma at_commit_and_claim:
  "related_at st (commit_transition s run events now) \<Longrightarrow> related_at st (commit_and_claim s run events now)"
  unfolding commit_and_claim_def
  by (rule at_then, assumption) (blast intro: related_at relatedI)

lemmas live_run_rules = related_locked at_read_then at_tick at_then [OF at_change] related_of

lemma related_commit_live_status [intro!]:
  "related (commit_live_run_status_with_completion env s i status detail completion)"
  unfolding commit_live_run_status_with_completion_def
  by (intro live_run_rules) (auto simp: live_owned_run_Ok)

lemma related_commit_status [intro!]: "related (commit_live_run_status env s i status detail)"
  unfolding commit_live_run_status_def by (rule related_commit_live_status)

lemma related_commit_live_event [intro!]: "related (commit_live_event env s i event)"
  unfolding commit_live_event_def by (intro live_run_rules) (auto simp: live_owned_run_Ok)

lemma related_and_publish [intro!]: "related m \<Longrightarrow> related (and_publish m)"
  unfolding and_publish_def by (intro related_then related_publish)

lemma related_emit_detail [intro!]: "related (emit_live_run_detail_and_publish env s i detail)"
  unfolding emit_live_run_detail_and_publish_def by (intro related_and_publish related_commit_status)

lemma related_emit_frame [intro!]: "related (emit_agent_stream_and_publish env s i frame)"
  unfolding emit_agent_stream_and_publish_def commit_live_agent_stream_def
  by (intro related_and_publish related_commit_live_event)

lemma related_usage [intro!]: "related (record_token_usage_and_publish env s i usage)"
  unfolding record_token_usage_and_publish_def by (intro related_and_publish related_commit_live_event)

lemma related_request_approval [intro!]: "related (request_approval_and_publish env s i request)"
  unfolding request_approval_and_publish_def
  by (intro related_if related_of related_and_publish related_commit_live_event)

lemma related_sink_resolve [intro!]: "related (resolve_approval_and_publish env s i resolution)"
  unfolding resolve_approval_and_publish_def
  by (intro related_if related_of related_and_publish related_commit_live_event)

lemma related_fail_quietly [intro!]: "related (fail_live_run_without_publish env s i detail)"
  unfolding fail_live_run_without_publish_def
  by (intro related_then related_commit_status related_load related_of)

section \<open>Budgets and the agent's start\<close>

definition advancing :: "('h, 'w) advance \<Rightarrow> bool" where
  "advancing advance \<longleftrightarrow> (\<forall>s i status. related (advance s i status))"

lemma related_advance: "advancing advance \<Longrightarrow> related (advance s i status)"
  by (simp add: advancing_def)

lemma related_fail_live [intro!]:
  "advancing advance \<Longrightarrow> related (fail_live_run_and_publish advance env s i detail)"
  unfolding fail_live_run_and_publish_def
  by (intro related_then related_commit_status related_publish related_advance)

lemma related_fail_for_budget:
  assumes adv: "advancing advance"
  shows "related (fail_run_for_budget advance env s i projection x now c)"
proof -
  have commit: "related (locked env (op_then (op_read (session_run s i)) (\<lambda>run.
       if rn_status run \<noteq> Running then op_ok None
       else op_then (op_read (rejections s i ByBudgetExceeded daemon_actor ''budget_exceeded'')) (\<lambda>answers.
         let run' = run\<lparr>rn_status := BudgetExceeded\<rparr>
         in op_then (commit_transition s run'
              ([EvBudget (BudgetEvExceeded (budget_exceeded_event_of projection x))] @ answers @
               [run_status_event i BudgetExceeded (redacted_reason x) (recipe_id_for_run run')]) now)
            (\<lambda>committed. op_ok (Some (rn_id (cr_run committed), cr_events committed)))))))"
    unfolding Let_def
    by (intro related_locked at_read_then at_if at_of at_then [OF at_change] related_of) (auto simp: session_run_Ok)
  show ?thesis unfolding fail_run_for_budget_def
    by (intro related_then related_if related_of related_locked_read related_cancel_live commit
        related_case_option related_case_prod related_publish related_advance adv)
qed

lemma related_enforce [intro!]: "advancing advance \<Longrightarrow> related (enforce_budget advance env s i c)"
  unfolding enforce_budget_def
  by (intro related_tick related_then related_locked_read)
    (auto split: budget_decision.split intro: related_fail_for_budget)

lemma related_start_execution [intro!]:
  "advancing advance \<Longrightarrow> related (start_provider_execution advance env s i objective profile model)"
  unfolding start_provider_execution_def
  by (intro related_then related_enforce related_locked_read related_load related_start_provider)

lemma related_start_committed [intro!]:
  "advancing advance \<Longrightarrow> related (start_committed_run advance env s profile run events)"
  unfolding start_committed_run_def
  by (intro related_if related_of related_result related_start_execution related_then related_load
      related_case_sum related_fail_quietly related_case_prod)

section \<open>The ready queue\<close>

lemma at_build_then:
  assumes "\<And>x. related_at st (k x)"
  shows "related_at st (op_then (build_start_transition env i outcome_kind recipe) k)"
proof (rule at_kept_then [OF _ assms])
  show "store_kept (build_start_transition env i outcome_kind recipe)"
    by (auto simp: store_kept_def build_start_transition_def op_none_def op_of_def op_tick_def Let_def
        split: policy_decision.splits sum.splits)
qed

lemma related_promote:
  assumes adv: "advancing advance"
  shows "related (promote_queued_run advance env s i)"
proof -
  have commit: "related (locked env (op_then (op_read (session_run s i)) (\<lambda>run.
            if rn_status run \<noteq> Queued then op_err (RunNotQueued (as_str (rn_id run)))
            else op_then (build_start_transition env (rn_id run) outcome_kind (recipe_id_for_run run)) (\<lambda>(status, events).
              op_tick (\<lambda>n. commit_and_claim s (run\<lparr>rn_status := status\<rparr>) events (se_now env n))))))" for outcome_kind
    by (intro related_locked at_read_then at_if at_of at_build_then at_case_prod at_tick at_commit_and_claim at_change)
      (auto simp: session_run_Ok)
  show ?thesis unfolding promote_queued_run_def Let_def
    by (intro related_then related_load related_if related_of related_tick related_runtime_then commit
        related_case_prod related_start_committed adv)
qed

lemma related_none [intro!]: "related op_none"
  by (simp add: related_def related_at_def op_none_def)

lemma related_loop: "related (advance_loop fuel env s next_run promoted)"
proof (induction fuel arbitrary: s next_run promoted)
  case 0 show ?case by (simp add: related_none)
next
  case (Suc fuel)
  have "advancing (\<lambda>s' j status. op_then (finish_scheduled_run env s' j status) (\<lambda>started. advance_loop fuel env s' started []))"
    unfolding advancing_def by (intro allI related_then related_finish Suc.IH)
  then show ?case
    by (simp, intro related_case_option related_of related_then related_promote related_if related_finish Suc.IH)
qed

lemma advancing_queue [intro!]: "advancing (advance_ready_queue fuel env)"
  unfolding advancing_def advance_ready_queue_def by (intro allI related_then related_finish related_loop)

lemma related_demote [intro!]: "related (demote_waiting_run_to_queued env s i)"
  unfolding demote_waiting_run_to_queued_def
  by (intro related_locked at_read_then at_if at_of at_tick at_then [OF at_change] related_of) (auto simp: session_run_Ok)

lemma related_each: "(\<And>x. related (f x)) \<Longrightarrow> related (op_each f xs)"
  by (induction xs) auto

lemma related_rehydrate [intro!]: "related (rehydrate_scheduler_on_boot fuel env)"
  unfolding rehydrate_scheduler_on_boot_def
  by (intro related_then related_locked_update related_each related_case_prod related_demote related_promote
      related_of advancing_queue) (auto split: prod.splits)

section \<open>Completion\<close>

lemma related_append_receipt [intro!]:
  "related (append_completion_result_receipt env run event_seq output_contract res state)"
proof -
  have make: "related (locked env (op_tick (\<lambda>n.
            op_then (op_store (store_create_receipt env n input))
              (\<lambda>created. op_tick (\<lambda>n. case state of
                 ReceiptToPromote \<Rightarrow> op_store (store_receipts (receipts_promote (se_receipt_time env n) (rc_id created)))
               | ReceiptToQuarantine \<Rightarrow>
                   op_store (store_receipts (receipts_quarantine (se_receipt_time env n) (rc_id created))))))))" for input
    by (intro related_locked at_tick at_then [OF at_create_receipt] relatedI)
      (auto split: completion_receipt_state.split intro: at_promote at_quarantine)
  have tell: "related (locked env (op_tick (\<lambda>n. op_store (commit_receipt_event s (EvContextReceipt e) (se_now env n)))))" for s e
    by (intro related_locked at_tick at_receipt_event)
  show ?thesis unfolding append_completion_result_receipt_def
    by (intro related_case_option related_of related_then make tell)
qed

lemma related_append [intro!]: "related (append_completion_receipt env run records output_contract res state)"
  unfolding append_completion_receipt_def by (intro related_case_option related_of related_append_receipt)

lemma related_complete [intro!]:
  "advancing advance \<Longrightarrow> related (complete_live_run_transition advance env s i detail res)"
  unfolding complete_live_run_transition_def Let_def
  by (intro related_then related_load related_case_sum related_commit_live_status related_append
      related_advance related_publish related_of)

lemma related_complete_publish [intro!]:
  "advancing advance \<Longrightarrow> related (complete_live_run_and_publish advance env s i detail res)"
  unfolding complete_live_run_and_publish_def by (intro related_and_publish related_complete)

section \<open>Artifacts\<close>

lemma at_artifact_receipt: "related_at st (op_store (append_artifact_receipt_event env n a input))"
proof -
  have "R st st'" if "append_artifact_receipt_event env n a input st = (st', r)" for st' r
  proof -
    obtain st1 r1 where made: "store_create_receipt env n input st = (st1, r1)" by fastforce
    note first = create_receipt [OF made]
    show ?thesis
    proof (cases r1)
      case (Inl e)
      with that made first show ?thesis by (auto simp: append_artifact_receipt_event_def refl split: if_splits)
    next
      case (Inr receipt)
      obtain st2 r2 where told: "commit_receipt_event (ac_session_id a) (EvContextReceipt (ReceiptCreated receipt))
        (se_now env n) st1 = (st2, r2)" by fastforce
      from trans [OF first receipt_event [OF told]] have "R st st2" .
      with that made Inr told show ?thesis
        by (cases r2) (auto simp: append_artifact_receipt_event_def refl split: if_splits)
    qed
  qed
  then show ?thesis unfolding related_at_def op_store_def by (auto split: prod.splits)
qed

lemma related_artifact_receipt [intro!]: "related (artifact_receipt_events env run a)"
  unfolding artifact_receipt_events_def
  by (intro related_case_option related_of related_tick related_result relatedI [OF at_artifact_receipt])

lemma related_record [intro!]: "related (record_artifact env artifact)"
proof -
  have after: "related (case r of
       Inl (Store (CommitRunStatusMismatch entity expected actual)) \<Rightarrow>
         if entity = ''artifact''
         then op_err (RunNotLiveOwned ''artifact run is no longer actively running'')
         else op_err (Store (CommitRunStatusMismatch entity expected actual))
     | Inl e \<Rightarrow> op_err e
     | Inr committed \<Rightarrow>
         op_then (op_read (stored_run (ac_run_id (oa_artifact committed)))) (\<lambda>run.
         op_then (artifact_receipt_events env run (oa_artifact committed)) (\<lambda>more_events.
         op_ok (project_artifact_summary (oa_artifact committed), oa_event committed # more_events))))" for r
    by (auto split: sum.split run_execution_error.split store_error.split)
  show ?thesis unfolding record_artifact_def Let_def
    by (intro related_if related_of related_then related_locked_read related_locked at_tick at_result at_artifact after)
qed

lemma related_record_publish [intro!]: "related (record_artifact_and_publish env s i kind path)"
  unfolding record_artifact_and_publish_def
  by (intro related_tick related_then related_record related_case_prod related_publish)

section \<open>Approvals\<close>

lemma related_expire_one [intro!]: "related (expire_pending_approval env s approval now)"
  unfolding expire_pending_approval_def Let_def
  by (intro related_locked at_read_then at_then [OF at_if] at_change related_of)
    (auto simp: session_run_Ok)

lemma related_tell [intro!]: "related (tell_live_agent env i s live_resolution)"
  unfolding tell_live_agent_def by (intro related_case_option related_of related_resolve_live)

lemma related_expire_publish [intro!]: "related (expire_and_publish env s approval now)"
  unfolding expire_and_publish_def
  by (intro related_then related_expire_one related_case_prod related_publish related_tell related_of)

lemma related_expire_each [intro!]: "related (expire_each env s now qs published)"
  by (induction qs arbitrary: published) auto

lemma related_expire [intro!]: "related (expire_pending_approvals_for_session env s)"
  unfolding expire_pending_approvals_for_session_def
  by (intro related_tick related_then related_locked_read related_expire_each)

lemma at_decide: "related_at st (decide_locked env s actor params now)"
proof -
  have pending: "related_at st (case found of
       Resolved \<Rightarrow> op_err e | NotFound \<Rightarrow> op_err e' | Pending approval \<Rightarrow> m approval)"
    if "\<And>approval. related_at st (m approval)" for found e e' and m :: "approval_request \<Rightarrow> ('h, 'w, 'c) run_operation"
    using that by (cases found) auto
  show ?thesis unfolding decide_locked_def Let_def
    by (intro at_read_then at_if at_of pending at_tick at_then [OF at_change] at_then [OF at_commit_and_claim]
        at_change related_case_prod related_of) (auto simp: stored_run_Ok)
qed

lemma related_decided_run [intro!]:
  "advancing advance \<Longrightarrow> related (start_decided_run advance env s run events)"
  unfolding start_decided_run_def
  by (intro related_tick related_runtime_then related_result related_start_execution related_then related_load
      related_case_sum related_if related_fail_quietly related_case_prod related_of)

lemma related_decide [intro!]:
  assumes "advancing advance"
  shows "related (decide_approval advance env s actor params)"
proof -
  have decided: "related (case x of ApprovalExpired approval \<Rightarrow> m approval
      | ApprovalDecided run events live_resolution \<Rightarrow> k run events live_resolution)"
    if "\<And>approval. related (m approval)" and "\<And>run events l. related (k run events l)"
    for x and m :: "approval_request \<Rightarrow> ('h, 'w, 'c) run_operation" and k
    using that by (cases x) auto
  show ?thesis unfolding decide_approval_def Let_def
    by (intro related_tick related_then related_locked at_decide decided related_expire_publish related_of related_tell
        related_if related_decided_run related_case_prod related_advance assms)
qed

section \<open>Cancelling\<close>

lemma related_cancel_commit [intro!]: "related (cancel_commit env s actor i detail)"
proof -
  have answered: "related_at st (op_then (if b then op_read f else op_ok []) k)"
    if "\<And>x. related_at st (k x)" for st b f and k :: "daemon_event list \<Rightarrow> ('h, 'w, 'c) run_operation"
    using that by auto
  show ?thesis unfolding cancel_commit_def Let_def
    by (intro related_locked at_read_then answered at_tick at_then [OF at_change] related_of)
      (auto simp: cancellable_run_def try_then_Ok_iff session_run_Ok cancellable_def finished_def split: if_splits)
qed

lemma related_each_child:
  "(\<And>j v. related (f j v)) \<Longrightarrow> related (each_child f ids events visited)"
  by (induction ids arbitrary: events visited) auto

lemma related_cascade:
  assumes "advancing advance"
  shows "related (cancel_run_with_cascade fuel advance env s actor reason i visited)"
proof (induction fuel arbitrary: reason i visited)
  case 0 show ?case by (simp add: related_none)
next
  case (Suc fuel)
  show ?case unfolding cancel_run_with_cascade.simps Let_def
    by (intro related_if related_of related_then related_locked_read related_cancel_live related_cancel_commit
        related_case_prod related_each_child Suc.IH related_advance assms)
qed

lemma related_cancel [intro!]: "advancing advance \<Longrightarrow> related (cancel_run advance env s actor i reason)"
  unfolding cancel_run_def by (intro related_then related_cascade related_case_prod related_of)

section \<open>Starting runs\<close>

lemma at_first_then:
  assumes "\<And>x. related_at st (k x)"
  shows "related_at st (op_then (build_first_transition env d i policy_says recipe) k)"
  using assms by (auto simp: build_first_transition_def intro: at_build_then split: disposition.split)

lemmas first_commit_rules = related_locked at_first_then at_case_prod at_tick at_give_up at_commit_and_claim

lemma related_new_run:
  "i = Ident (''run-'' @ se_uuid env n) \<Longrightarrow>
   related (locked env (op_then (build_first_transition env d i policy_says recipe) (\<lambda>(status, events).
     op_tick (\<lambda>n. or_give_up env s i (commit_and_claim s
       (new_run_projection i s profile_id objective status harness source px) (g events) (se_now env n))))))"
  by (intro first_commit_rules at_create) (auto simp: new_run_projection_def)

lemma related_start_run [intro!]:
  assumes "advancing advance"
  shows "related (start_run advance env s command)"
  unfolding start_run_def Let_def
  by (intro related_then related_of related_if related_locked_read related_tick related_runtime_then related_schedule
      related_give_up related_prepare related_new_run related_case_prod related_start_committed related_advance assms)
    (rule HOL.refl)

lemma related_start_published [intro!]:
  "advancing advance \<Longrightarrow> related (start_published_run advance env s profile run model)"
  unfolding start_published_run_def
  by (intro related_if related_of related_result related_start_execution related_then related_load related_case_sum
      related_fail_live)

lemma related_native_harness [intro!]: "related (native_harness env parent profile)"
  unfolding native_harness_def by (intro related_runtime_then related_if related_of)

lemma related_start_child [intro!]:
  assumes "advancing advance"
  shows "related (start_native_child_run advance env s request)"
  unfolding start_native_child_run_def Let_def
  by (intro related_then related_of related_if related_locked_read related_tick related_runtime_then related_schedule
      related_give_up related_prepare_child related_native_harness related_new_run related_case_prod related_publish
      related_start_published assms)
    (rule HOL.refl)

lemma related_fork [intro!]:
  assumes "advancing advance"
  shows "related (fork_run advance env s request)"
  unfolding fork_run_def Let_def
  by (intro related_then related_of related_if related_locked_read related_tick related_runtime_then related_schedule
      related_give_up related_prepare_child related_native_harness related_new_run related_case_prod related_publish
      related_start_published assms)
    (rule HOL.refl)

lemma related_resume [intro!]: "related (resume_run env s i)"
  unfolding resume_run_def
  by (intro related_then related_load related_of related_if related_tick related_runtime_then related_locked_read)

section \<open>All requests\<close>

lemma related_sink [intro!]: "advancing advance \<Longrightarrow> related (sink_operation advance env s i call)"
  unfolding sink_operation_def by (cases call) auto

lemma related_sink_child [intro!]: "advancing advance \<Longrightarrow> related (sink_start_native_child_run advance env s i request)"
  unfolding sink_start_native_child_run_def by (intro related_if related_of related_start_child)

lemma related_done [intro!]: "related m \<Longrightarrow> related (done_with m)"
  unfolding done_with_def by (intro related_then related_of)

lemma related_serve: "related (serve fuel env request)"
  by (cases request) (auto simp del: advancing_def)

lemma serve_keeps: "serve fuel env request sv = Some (sv', r) \<Longrightarrow> R (sv_store sv) (sv_store sv')"
  using related_serve unfolding related_def related_at_def by blast

end

end
