(* ===== verification/ServiceAnswers.thy ===== *)
theory ServiceAnswers
  imports RunStart
begin

text \<open>
  Every request of the run execution service returns: no operation waits for fuel, and no thread
  panics. The loop that advances a session's queue runs at most once for each waiting run, and the
  cascade of a cancellation at most 64 deep, so small amounts of fuel are enough.
\<close>

section \<open>Rules\<close>

text \<open>How many runs of a session wait.\<close>

definition waiting_runs :: "session_id \<Rightarrow> ('h, 'w) service \<Rightarrow> nat" where
  "waiting_runs s sv = length (sr_queued (schedule_of (sv_scheduler sv) s))"

text \<open>
  What is asked of the other threads and the clock: no other thread lets a further run of the
  session wait meanwhile, and the clock is before the end of its range.
\<close>

definition quiet :: "session_id \<Rightarrow> ('h, 'w, 'j) service_env \<Rightarrow> bool" where
  "quiet s env \<longleftrightarrow> (\<forall>n sv. waiting_runs s (se_others env n sv) \<le> waiting_runs s sv) \<and> (\<forall>n. se_now env n < u64_max)"

text \<open>From a state with at most \<open>w\<close> waiting runs to such a state, with a result that satisfies \<open>Q\<close> if it is one.\<close>

definition settles :: "('h, 'w, 'j) service_env \<Rightarrow> session_id \<Rightarrow> nat \<Rightarrow> ('h, 'w, 'a) run_operation \<Rightarrow> ('a \<Rightarrow> bool) \<Rightarrow> bool" where
  "settles env s w m Q \<longleftrightarrow> (quiet s env \<longrightarrow> (\<forall>sv. waiting_runs s sv \<le> w \<longrightarrow>
     (\<exists>sv' r. m sv = Some (sv', r) \<and> waiting_runs s sv' \<le> w \<and> (\<forall>x. r = Ok x \<longrightarrow> Q x))))"

abbreviation answers :: "('h, 'w, 'j) service_env \<Rightarrow> session_id \<Rightarrow> nat \<Rightarrow> ('h, 'w, 'a) run_operation \<Rightarrow> bool" where
  "answers env s w m \<equiv> settles env s w m (\<lambda>_. True)"

text \<open>The same without a bound on the state afterwards.\<close>

definition returns :: "('h, 'w, 'j) service_env \<Rightarrow> session_id \<Rightarrow> nat \<Rightarrow> ('h, 'w, 'a) run_operation \<Rightarrow> bool" where
  "returns env s w m \<longleftrightarrow> (quiet s env \<longrightarrow> (\<forall>sv. waiting_runs s sv \<le> w \<longrightarrow> m sv \<noteq> None))"

lemma waiting_updates [simp]:
  "waiting_runs s (sv\<lparr>sv_ticks := t\<rparr>) = waiting_runs s sv"
  "waiting_runs s (sv\<lparr>sv_store := st\<rparr>) = waiting_runs s sv"
  "waiting_runs s (sv\<lparr>sv_active := a\<rparr>) = waiting_runs s sv"
  "waiting_runs s (sv\<lparr>sv_claims := c\<rparr>) = waiting_runs s sv"
  "waiting_runs s (sv\<lparr>sv_resources := x\<rparr>) = waiting_runs s sv"
  "waiting_runs s (sv\<lparr>sv_marks := ms\<rparr>) = waiting_runs s sv"
  "waiting_runs s (sv\<lparr>sv_published := p\<rparr>) = waiting_runs s sv"
  by (simp_all add: waiting_runs_def)

lemma answers_of [intro!]: "(\<And>x. r = Ok x \<Longrightarrow> Q x) \<Longrightarrow> settles env s w (op_of r) Q"
  by (auto simp: settles_def op_of_def)

lemma settles_then:
  assumes "settles env s w m P" and "\<And>x. P x \<Longrightarrow> settles env s w (k x) Q"
  shows "settles env s w (op_then m k) Q"
  unfolding settles_def
proof (intro impI allI)
  fix sv :: "('a, 'b) service" assume quiet: "quiet s env" and sv: "waiting_runs s sv \<le> w"
  from assms(1) quiet sv obtain sv1 r where m: "m sv = Some (sv1, r)" "waiting_runs s sv1 \<le> w" "\<forall>x. r = Ok x \<longrightarrow> P x"
    unfolding settles_def by blast
  show "\<exists>sv' r. op_then m k sv = Some (sv', r) \<and> waiting_runs s sv' \<le> w \<and> (\<forall>x. r = Ok x \<longrightarrow> Q x)"
  proof (cases r)
    case (Inr x)
    with m assms(2) [of x] quiet show ?thesis unfolding settles_def by (simp add: op_then_def)
  qed (use m in \<open>simp add: op_then_def\<close>)
qed

lemma answers_then [intro!]:
  "answers env s w m \<Longrightarrow> (\<And>x. settles env s w (k x) Q) \<Longrightarrow> settles env s w (op_then m k) Q"
  by (rule settles_then)

lemma answers_result [intro!]:
  assumes "answers env s w m" and "\<And>r. settles env s w (k r) Q"
  shows "settles env s w (op_result m k) Q"
  unfolding settles_def
proof (intro impI allI)
  fix sv :: "('a, 'b) service" assume quiet: "quiet s env" and sv: "waiting_runs s sv \<le> w"
  from assms(1) quiet sv obtain sv1 r where m: "m sv = Some (sv1, r)" "waiting_runs s sv1 \<le> w"
    unfolding settles_def by blast
  with assms(2) [of r] quiet show "\<exists>sv' r. op_result m k sv = Some (sv', r) \<and> waiting_runs s sv' \<le> w \<and> (\<forall>x. r = Ok x \<longrightarrow> Q x)"
    unfolding settles_def by (simp add: op_result_def)
qed

lemma answers_tick [intro!]: "(\<And>n. settles env s w (k n) Q) \<Longrightarrow> settles env s w (op_tick k) Q"
  unfolding settles_def op_tick_def by simp

lemma answers_others:
  "settles env s w m Q \<Longrightarrow> settles env s w (\<lambda>sv. m (se_others env n sv)) Q"
  unfolding settles_def quiet_def by (meson le_trans)

lemma answers_locked [intro!]: "settles env s w m Q \<Longrightarrow> settles env s w (locked env m) Q"
  unfolding locked_def by (rule answers_tick, rule answers_others)

lemma answers_read [intro!]: "answers env s w (op_read f)"
  by (auto simp: settles_def op_read_def)

lemma answers_update [intro!]:
  "(\<And>sv sv' x. f sv = (sv', x) \<Longrightarrow> waiting_runs s sv' \<le> waiting_runs s sv) \<Longrightarrow> answers env s w (op_update f)"
  unfolding settles_def op_update_def by (fastforce split: prod.splits dest: le_trans)

lemma answers_store [intro!]: "answers env s w (op_store f)"
  by (auto simp: settles_def op_store_def split: prod.splits)

lemma answers_runtime [intro!]: "(\<And>x. settles env s w (k x) Q) \<Longrightarrow> settles env s w (runtime_then env r k) Q"
  unfolding runtime_then_def by (intro answers_then answers_of) auto

lemma answers_if [intro!]:
  "(b \<Longrightarrow> settles env s w m Q) \<Longrightarrow> (\<not> b \<Longrightarrow> settles env s w n Q) \<Longrightarrow> settles env s w (if b then m else n) Q"
  by simp

lemma answers_let [intro!]: "settles env s w (f e) Q \<Longrightarrow> settles env s w (Let e f) Q"
  by simp

lemma answers_option [intro!]:
  "settles env s w m Q \<Longrightarrow> (\<And>x. settles env s w (f x) Q) \<Longrightarrow> settles env s w (case_option m f v) Q"
  by (simp split: option.split)

lemma answers_sum [intro!]:
  "(\<And>x. settles env s w (f x) Q) \<Longrightarrow> (\<And>x. settles env s w (g x) Q) \<Longrightarrow> settles env s w (case_sum f g v) Q"
  by (simp split: sum.split)

lemma answers_prod [intro!]: "(\<And>x y. settles env s w (f x y) Q) \<Longrightarrow> settles env s w (case_prod f v) Q"
  by (simp split: prod.split)

lemma answers_ok: "answers env s w (op_of r)"
  by (rule answers_of) simp

lemma answers_commit [intro!]: "answers env s w (commit_transition t run events now)"
  unfolding commit_transition_def by (rule answers_store)

lemma answers_publish [intro!]: "answers env s w (publish_records rs)"
  unfolding publish_records_def by (rule answers_update) auto

lemma answers_load [intro!]: "answers env s w (load_run_projection env i)"
  unfolding load_run_projection_def by (intro answers_locked answers_read)

lemmas answers_rules = answers_ok answers_then answers_result answers_tick answers_locked answers_read answers_store
  answers_runtime answers_if answers_let answers_option answers_sum answers_prod answers_commit answers_publish answers_load

section \<open>Operations of the runtime\<close>

lemma answers_claim: "answers env s w (claim_live_run i t)"
  unfolding claim_live_run_def by (rule answers_update) auto

lemma answers_active_then:
  "(\<And>x. settles env s w (k x) Q) \<Longrightarrow> settles env s w (op_then (op_update (\<lambda>sv.
     case f (sv_active sv) of (ow, r) \<Rightarrow> (sv\<lparr>sv_active := ow\<rparr>, r))) k) Q"
  by (intro answers_then answers_update) (auto split: prod.splits)

lemma answers_cancel_looks: "answers env s w (cancel_looks env waits i t)"
proof (induction waits)
  case 0 show ?case
    by (simp, intro answers_rules answers_active_then)
      (auto split: cancel_look_result.split prod.splits)
next
  case (Suc n)
  then show ?case
    by (simp, intro answers_rules answers_active_then)
      (auto split: cancel_look_result.split prod.splits)
qed

lemma answers_cancel_live: "answers env s w (cancel_live_run env i t)"
  unfolding cancel_live_run_def by (intro answers_tick answers_cancel_looks)

lemma answers_resolve_live: "answers env s w (resolve_live_approval env i t resolution)"
  unfolding resolve_live_approval_def by (intro answers_locked answers_active_then answers_ok)

lemma answers_start_provider: "answers env s w (start_provider_run env start)"
  unfolding start_provider_run_def by (intro answers_tick answers_others answers_then answers_ok answers_locked answers_active_then)

section \<open>Finishing a run\<close>

lemma op_then_assoc: "op_then (op_then m f) g = op_then m (\<lambda>x. op_then (f x) g)"
  by (rule ext) (simp add: op_then_def split: option.split sum.split prod.split)

lemma op_then_ok: "op_then m op_ok = m"
  by (rule ext) (auto simp: op_then_def op_of_def split: option.split sum.split prod.split)

lemma finish_run_waiting:
  assumes "finish_run s i sch = (sch', started)"
  shows "case started of
      None \<Rightarrow> length (sr_queued (schedule_of sch' s)) \<le> length (sr_queued (schedule_of sch s))
    | Some j \<Rightarrow> Suc (length (sr_queued (schedule_of sch' s))) = length (sr_queued (schedule_of sch s))"
proof -
  have "length (remove_queued i qs) \<le> length qs" for qs by (induction qs) auto
  with assms show ?thesis
    by (auto simp: finish_run_def schedule_of_def set_schedule_def Let_def split: option.splits if_splits list.splits)
qed

lemma finish_resources_waiting [simp]: "waiting_runs s (finish_resources i status sv) = waiting_runs s sv"
  by (auto simp: finish_resources_def waiting_runs_def split: option.split)

text \<open>A run that is started from the queue was one of the waiting runs.\<close>

lemma settles_finish_then:
  assumes none: "settles env s w (k None) Q" and some: "\<And>j v. w = Suc v \<Longrightarrow> settles env s v (k (Some j)) Q"
  shows "settles env s w (op_then (finish_scheduled_run env s i status) k) Q"
proof -
  have last: "settles env s w (op_then (locked env (op_update (\<lambda>sv. case finish_run s i (sv_scheduler sv) of
       (sch, started) \<Rightarrow> (sv\<lparr>sv_scheduler := sch\<rparr>, started)))) k) Q"
    unfolding settles_def
  proof (intro impI allI)
    fix sv :: "('a, 'b) service" assume quiet: "quiet s env" and sv: "waiting_runs s sv \<le> w"
    let ?sv = "se_others env (sv_ticks sv) (sv\<lparr>sv_ticks := Suc (sv_ticks sv)\<rparr>)"
    have le: "waiting_runs s ?sv \<le> w" using quiet sv unfolding quiet_def
      by (metis (no_types) le_trans waiting_updates(1))
    obtain sch started where f: "finish_run s i (sv_scheduler ?sv) = (sch, started)" by fastforce
    let ?sv' = "?sv\<lparr>sv_scheduler := sch\<rparr>"
    have run: "op_then (locked env (op_update (\<lambda>sv. case finish_run s i (sv_scheduler sv) of
       (sch, started) \<Rightarrow> (sv\<lparr>sv_scheduler := sch\<rparr>, started)))) k sv = k started ?sv'"
      by (simp add: op_then_def locked_def op_tick_def op_update_def f)
    note dropped = finish_run_waiting [OF f]
    show "\<exists>sv' r. op_then (locked env (op_update (\<lambda>sv. case finish_run s i (sv_scheduler sv) of
       (sch, started) \<Rightarrow> (sv\<lparr>sv_scheduler := sch\<rparr>, started)))) k sv = Some (sv', r) \<and> waiting_runs s sv' \<le> w \<and>
       (\<forall>x. r = Ok x \<longrightarrow> Q x)"
    proof (cases started)
      case None
      with dropped le have "waiting_runs s ?sv' \<le> w" by (simp add: waiting_runs_def)
      with none quiet None show ?thesis unfolding run settles_def by blast
    next
      case (Some j)
      with dropped le obtain v where v: "w = Suc v" "waiting_runs s ?sv' \<le> v"
        by (cases w) (simp_all add: waiting_runs_def)
      with some [OF v(1), of j] quiet obtain sv' r where "k (Some j) ?sv' = Some (sv', r)" "waiting_runs s sv' \<le> v"
        "\<forall>x. r = Ok x \<longrightarrow> Q x" unfolding settles_def by blast
      with v(1) Some show ?thesis unfolding run by (metis le_SucI)
    qed
  qed
  show ?thesis unfolding finish_scheduled_run_def op_then_assoc
    by (rule answers_then, intro answers_locked answers_update, clarsimp,
        rule answers_then, intro answers_locked answers_update, clarsimp, rule last)
qed

lemma answers_finish: "answers env s w (finish_scheduled_run env s i status)"
proof -
  have "answers env s w (op_then (finish_scheduled_run env s i status) op_ok)"
  proof (rule settles_finish_then)
    fix j v assume "w = Suc v"
    show "answers env s v (op_ok (Some j))" by (rule answers_ok)
  qed (rule answers_ok)
  then show ?thesis by (simp add: op_then_ok)
qed

lemma answers_give_up: "answers env s w m \<Longrightarrow> answers env s w (or_give_up env s i m)"
  unfolding or_give_up_def by (intro answers_result answers_sum answers_ok answers_then answers_finish)

section \<open>Runs and the queue\<close>

lemma answers_claim_files: "answers env s w (claim_planned_files env i planned)"
  unfolding claim_planned_files_def
  by (intro answers_rules answers_update) (auto split: prod.splits sum.splits claim_error.splits)

lemma answers_allocate: "answers env s w (allocate_execution_workspace env i parent_repo workspace_root request)"
  unfolding allocate_execution_workspace_def allocate_worktree_def
  by (intro answers_rules answers_claim_files answers_update) auto

lemma answers_prepare_workspace: "answers env s w (prepare_context_from_workspace env i input)"
  unfolding prepare_context_from_workspace_def by (intro answers_rules answers_allocate)

lemma answers_prepare:
  "answers env s w (prepare_execution_context env t i profile request)"
  "answers env s w (prepare_child_execution_context env t i parent request)"
  unfolding prepare_execution_context_def prepare_child_execution_context_def
  by (intro answers_rules answers_prepare_workspace)+

lemma answers_commit_and_claim: "answers env s w (commit_and_claim t run events now)"
  unfolding commit_and_claim_def by (intro answers_rules answers_claim)

lemma answers_live_commits:
  "answers env s w (commit_live_run_status_with_completion env t i status detail completion)"
  "answers env s w (commit_live_event env t i event)"
  unfolding commit_live_run_status_with_completion_def commit_live_event_def by (intro answers_rules)+

lemma answers_live_status: "answers env s w (commit_live_run_status env t i status detail)"
  unfolding commit_live_run_status_def by (rule answers_live_commits)

lemma answers_and_publish: "answers env s w m \<Longrightarrow> answers env s w (and_publish m)"
  unfolding and_publish_def by (intro answers_rules)

lemma answers_emit:
  "answers env s w (emit_live_run_detail_and_publish env t i detail)"
  "answers env s w (emit_agent_stream_and_publish env t i frame)"
  "answers env s w (record_token_usage_and_publish env t i usage)"
  "answers env s w (request_approval_and_publish env t i request)"
  "answers env s w (resolve_approval_and_publish env t i resolution)"
  unfolding emit_live_run_detail_and_publish_def emit_agent_stream_and_publish_def record_token_usage_and_publish_def
    request_approval_and_publish_def resolve_approval_and_publish_def commit_live_agent_stream_def
  by (intro answers_rules answers_and_publish answers_live_status answers_live_commits)+

definition advances :: "('h, 'w, 'j) service_env \<Rightarrow> session_id \<Rightarrow> nat \<Rightarrow> ('h, 'w) advance \<Rightarrow> bool" where
  "advances env s w advance \<longleftrightarrow> (\<forall>i status. answers env s w (advance s i status))"

lemma answers_advance: "advances env s w advance \<Longrightarrow> answers env s w (advance s i status)"
  by (simp add: advances_def)

lemma answers_fail_live: "advances env s w advance \<Longrightarrow> answers env s w (fail_live_run_and_publish advance env s i detail)"
  unfolding fail_live_run_and_publish_def by (intro answers_rules answers_live_status answers_advance)

lemma answers_fail_quietly: "answers env s w (fail_live_run_without_publish env t i detail)"
  unfolding fail_live_run_without_publish_def by (intro answers_rules answers_live_status)

lemma answers_fail_for_budget:
  "advances env s w advance \<Longrightarrow> answers env s w (fail_run_for_budget advance env s i projection x now c)"
  unfolding fail_run_for_budget_def by (intro answers_rules answers_cancel_live answers_advance)

lemma answers_enforce: "advances env s w advance \<Longrightarrow> answers env s w (enforce_budget advance env s i c)"
  unfolding enforce_budget_def
  by (intro answers_rules) (auto split: budget_decision.split intro: answers_fail_for_budget)

lemma answers_start_execution:
  "advances env s w advance \<Longrightarrow> answers env s w (start_provider_execution advance env s i objective profile model)"
  unfolding start_provider_execution_def by (intro answers_rules answers_enforce answers_start_provider)

lemma answers_start_committed:
  "advances env s w advance \<Longrightarrow> answers env s w (start_committed_run advance env s profile run events)"
  unfolding start_committed_run_def
  by (intro answers_rules answers_start_execution answers_fail_quietly)

text \<open>The approval request a start makes is valid, so \<open>expect\<close> does not panic.\<close>

definition startable :: "Policy.operation \<Rightarrow> bool" where
  "startable op \<longleftrightarrow> \<not> blank (context_approval_reason op)"

lemma startable_runs:
  "startable (operation_new ProcessExec ''execute run'')"
  "startable (operation_new ProcessExec ''execute native child run'')"
  "startable (operation_new ProcessExec ''execute forked native run'')"
  by code_simp+

lemma answers_build:
  assumes "startable op"
  shows "answers env s w (build_start_transition env i (evaluate_execution_context c op) recipe)"
proof (cases "evaluate_execution_context c op")
  case (RequireApproval reason)
  then have reason: "\<not> blank reason"
    using assms by (auto simp: evaluate_execution_context_def startable_def split: option.splits permission_policy.splits)
  have later: "n < expires_at_ms default_interactive n" if "n < u64_max" for n
    using that by (simp add: sat_add_def expires_at_ms_def default_interactive_def default_approval_ttl_ms_def)
  show ?thesis unfolding RequireApproval build_start_transition_def settles_def
  proof (intro impI allI)
    fix sv :: "('a, 'b) service" assume quiet: "quiet s env" and sv: "waiting_runs s sv \<le> w"
    let ?now = "se_now env (sv_ticks sv)"
    have "?now < expires_at_ms default_interactive ?now" using quiet by (intro later) (simp add: quiet_def)
    with reason show "\<exists>sv' r. (case RequireApproval reason of Allow \<Rightarrow> op_ok (start_running_transition i recipe)
        | RequireApproval reason \<Rightarrow> op_tick (\<lambda>n. let requested_at = se_now env n in
            case approval_request_new (Ident (''approval-'' @ se_uuid env n)) i ProcessExec requested_at
              (expires_at_ms default_interactive requested_at) (TargetProcessExec None) reason of
              Inl e \<Rightarrow> op_none
            | Inr approval \<Rightarrow> op_ok (WaitingForApproval,
                [run_status_event i WaitingForApproval ''Waiting for approval'' recipe, EvApproval (ApprovalRequested approval)]))
        | Deny reason \<Rightarrow> op_ok (Failed, [run_status_event i Failed reason recipe])) sv = Some (sv', r) \<and>
        waiting_runs s sv' \<le> w \<and> (\<forall>x. r = Ok x \<longrightarrow> True)"
      using sv by (simp add: op_tick_def op_of_def Let_def approval_request_new_def)
  qed
qed (simp_all add: build_start_transition_def answers_ok)

lemma answers_promote:
  "advances env s w advance \<Longrightarrow> answers env s w (promote_queued_run advance env s i)"
  unfolding promote_queued_run_def
  by (intro answers_rules answers_build startable_runs answers_commit_and_claim answers_start_committed)

lemma answers_loop:
  assumes "next_run = None \<Longrightarrow> 1 \<le> fuel" and "next_run \<noteq> None \<Longrightarrow> w + 2 \<le> fuel"
  shows "answers env s w (advance_loop fuel env s next_run promoted)"
  using assms
proof (induction fuel arbitrary: w next_run promoted)
  case 0
  then show ?case by (cases next_run) auto
next
  case (Suc fuel)
  show ?case
  proof (cases next_run)
    case None
    then show ?thesis by (simp add: answers_ok)
  next
    case (Some i)
    with Suc.prems(2) have fuel: "w + 1 \<le> fuel" by simp
    have onward: "answers env s w (op_then (finish_scheduled_run env s j status) (\<lambda>started. advance_loop fuel env s started ps))" for j status ps
      by (rule settles_finish_then) (use fuel in \<open>auto intro!: Suc.IH\<close>)
    then have "advances env s w (\<lambda>s' j status. op_then (finish_scheduled_run env s' j status)
        (\<lambda>started. advance_loop fuel env s' started []))" by (simp add: advances_def)
    then show ?thesis
      by (simp add: Some) (rule answers_then, erule answers_promote, rule answers_if, rule onward, rule answers_ok)
  qed
qed

lemma advances_queue: "w + 1 \<le> fuel \<Longrightarrow> advances env s w (advance_ready_queue fuel env)"
  unfolding advances_def advance_ready_queue_def
  by (intro allI settles_finish_then answers_loop) auto

section \<open>Requests\<close>

lemma answers_append_receipt: "answers env s w (append_completion_receipt env run records output_contract res state)"
  unfolding append_completion_receipt_def append_completion_result_receipt_def
  by (intro answers_rules) (auto split: completion_receipt_state.split)

lemma answers_complete:
  "advances env s w advance \<Longrightarrow> answers env s w (complete_live_run_transition advance env s i detail res)"
  unfolding complete_live_run_transition_def
  by (intro answers_rules answers_live_commits answers_append_receipt answers_advance)

lemma answers_recorded:
  "answers env s w (case r of
       Inl (Store (CommitRunStatusMismatch entity expected actual)) \<Rightarrow>
         if entity = ''artifact''
         then op_err (RunNotLiveOwned ''artifact run is no longer actively running'')
         else op_err (Store (CommitRunStatusMismatch entity expected actual))
     | Inl e \<Rightarrow> op_err e
     | Inr committed \<Rightarrow>
         op_then (op_read (stored_run (ac_run_id (oa_artifact committed)))) (\<lambda>run.
         op_then (artifact_receipt_events env run (oa_artifact committed)) (\<lambda>more_events.
         op_ok (project_artifact_summary (oa_artifact committed), oa_event committed # more_events))))"
  by (auto split: sum.split run_execution_error.split store_error.split simp: artifact_receipt_events_def)

lemma answers_record: "answers env s w (record_artifact env artifact)"
  unfolding record_artifact_def by (intro answers_rules answers_recorded)

lemma answers_tell: "answers env s w (tell_live_agent env i t live_resolution)"
  unfolding tell_live_agent_def by (intro answers_rules answers_resolve_live)

lemma answers_expire_publish: "answers env s w (expire_and_publish env t approval now)"
  unfolding expire_and_publish_def expire_pending_approval_def
  by (intro answers_rules answers_tell)

lemma answers_expire_each: "answers env s w (expire_each env t now qs published)"
  by (induction qs arbitrary: published) (auto intro: answers_rules answers_expire_publish)

lemma answers_expire: "answers env s w (expire_pending_approvals_for_session env t)"
  unfolding expire_pending_approvals_for_session_def by (intro answers_rules answers_expire_each)

lemma answers_found:
  "(\<And>approval. answers env s w (m approval)) \<Longrightarrow> answers env s w (case found of
     Resolved \<Rightarrow> op_err e | NotFound \<Rightarrow> op_err e' | Pending approval \<Rightarrow> m approval)"
  by (cases found) auto

lemma answers_decide_locked: "answers env s w (decide_locked env t actor params now)"
  unfolding decide_locked_def by (intro answers_rules answers_commit_and_claim answers_found)

lemma answers_decided:
  "(\<And>approval. answers env s w (m approval)) \<Longrightarrow> (\<And>run events l. answers env s w (k run events l)) \<Longrightarrow>
   answers env s w (case x of ApprovalExpired approval \<Rightarrow> m approval
     | ApprovalDecided run events live_resolution \<Rightarrow> k run events live_resolution)"
  by (cases x) auto

lemma answers_decide:
  "advances env s w advance \<Longrightarrow> answers env s w (decide_approval advance env s actor params)"
  unfolding decide_approval_def start_decided_run_def
  by (intro answers_rules answers_decide_locked answers_decided answers_expire_publish answers_tell answers_advance
      answers_start_execution answers_fail_quietly)

text \<open>
  The cascade adds a run to the visited ones on every level, and fails above 64 of them.
\<close>

lemma settles_each_child:
  assumes "\<And>i v. P v \<Longrightarrow> settles env s w (f i v) (\<lambda>x. P (snd x))" and "P visited"
  shows "settles env s w (each_child f ids events visited) (\<lambda>x. P (snd x))"
  using assms(2)
proof (induction ids arbitrary: events visited)
  case Nil
  then show ?case by (auto intro: answers_of)
next
  case (Cons i ids)
  show ?case
    by (simp, rule settles_then [OF assms(1) [OF Cons.prems]]) (auto split: prod.splits intro: Cons.IH)
qed

definition visited_ok :: "nat \<Rightarrow> run_id set \<Rightarrow> bool" where
  "visited_ok n visited \<longleftrightarrow> finite visited \<and> n \<le> card visited \<and> card visited \<le> max_native_child_cancel_cascade_runs"

lemma answers_cancel_commit: "answers env s w (cancel_commit env t actor i detail)"
  unfolding cancel_commit_def by (intro answers_rules)

lemma settles_cascade:
  assumes "advances env s w advance" and "visited_ok n visited"
    and "max_native_child_cancel_cascade_runs + 2 \<le> fuel + n"
  shows "settles env s w (cancel_run_with_cascade fuel advance env s actor reason i visited) (\<lambda>x. visited_ok n (snd x))"
  using assms(2,3)
proof (induction fuel arbitrary: reason i visited n)
  case 0
  then show ?case by (simp add: visited_ok_def)
next
  case (Suc fuel)
  show ?case
  proof (cases "i \<in> visited \<or> max_native_child_cancel_cascade_runs < card (insert i visited)")
    case True
    then show ?thesis by (auto intro!: answers_of)
  next
    case False
    then have deeper: "visited_ok (Suc n) (insert i visited)" using Suc.prems(1) by (auto simp: visited_ok_def)
    have fuel: "max_native_child_cancel_cascade_runs + 2 \<le> fuel + Suc n" using Suc.prems(2) by simp
    have child: "settles env s w (op_then (cancel_run_with_cascade fuel advance env s actor (Some d) j v)
        (\<lambda>(r, v'). op_ok (mu_events r, v'))) (\<lambda>x. visited_ok (Suc n) (snd x))" if "visited_ok (Suc n) v" for d j v
      by (rule settles_then [OF Suc.IH [OF that fuel]]) (auto intro: answers_of)
    have weaken: "visited_ok (Suc n) v \<Longrightarrow> visited_ok n v" for v by (simp add: visited_ok_def)
    have children: "settles env s w (op_then (each_child (\<lambda>j v. op_then (cancel_run_with_cascade fuel advance env s actor (Some d) j v)
        (\<lambda>(r, v'). op_ok (mu_events r, v'))) ids events (insert i visited)) (\<lambda>(events', visited').
          op_then (advance s (rn_id run) Cancelled) (\<lambda>promoted.
          op_ok (\<lparr>mu_run = project_run_summary run, mu_events = events' @ promoted\<rparr>, visited')))) (\<lambda>x. visited_ok n (snd x))"
      for d ids events run
      by (rule settles_then [OF settles_each_child [where P = "visited_ok (Suc n)", OF child deeper]])
        (auto intro!: answers_then answers_advance assms(1) answers_of weaken)
    have "settles env s w (cancel_run_with_cascade (Suc fuel) advance env s actor reason i visited) (\<lambda>x. visited_ok n (snd x)) =
      settles env s w (op_then (locked env (op_read (cancel_check s i))) (\<lambda>was_running.
           op_then (if was_running then cancel_live_run env i s else op_ok ()) (\<lambda>_.
           op_then (cancel_commit env s actor i (cancel_detail reason)) (\<lambda>(run, events).
           op_then (locked env (op_read (\<lambda>sv. Ok (cancellable_native_child_run_ids s (rn_id run) (insert i visited) sv))))
             (\<lambda>children.
           op_then (each_child (\<lambda>j v. op_then (cancel_run_with_cascade fuel advance env s actor (Some (cancel_detail reason)) j v)
               (\<lambda>(r, v'). op_ok (mu_events r, v'))) children events (insert i visited)) (\<lambda>(events', visited').
           op_then (advance s (rn_id run) Cancelled) (\<lambda>promoted.
           op_ok (\<lparr>mu_run = project_run_summary run, mu_events = events' @ promoted\<rparr>, visited')))))))) (\<lambda>x. visited_ok n (snd x))"
      using False by (simp add: Let_def)
    then show ?thesis
      by (simp only:) (rule answers_then, intro answers_rules, rule answers_then, intro answers_rules answers_cancel_live,
        rule answers_then, rule answers_cancel_commit, rule answers_prod, rule answers_then, intro answers_rules, rule children)
  qed
qed

lemma answers_cancel:
  assumes "advances env s w advance"
  shows "answers env s w (cancel_run advance env s actor i reason)"
proof -
  have "visited_ok 0 {}" by (simp add: visited_ok_def)
  from settles_cascade [OF assms this, of "max_native_child_cancel_cascade_runs + 2"] show ?thesis
    unfolding cancel_run_def by (rule settles_then) (auto intro: answers_ok)
qed

lemma answers_resume: "answers env s w (resume_run env t i)"
  unfolding resume_run_def by (intro answers_rules)

section \<open>Starting runs\<close>

text \<open>A start may let one more run wait.\<close>

lemma returns_answers: "settles env s w m Q \<Longrightarrow> returns env s w m"
  unfolding settles_def returns_def by fastforce

lemma returns_then:
  assumes "answers env s w m" and "\<And>x. returns env s w (k x)"
  shows "returns env s w (op_then m k)"
  unfolding returns_def
proof (intro impI allI)
  fix sv :: "('a, 'b) service" assume quiet: "quiet s env" and sv: "waiting_runs s sv \<le> w"
  from assms(1) quiet sv obtain sv1 r where m: "m sv = Some (sv1, r)" "waiting_runs s sv1 \<le> w"
    unfolding settles_def by blast
  with assms(2) quiet show "op_then m k sv \<noteq> None"
    unfolding returns_def by (cases r) (simp_all add: op_then_def)
qed

lemma returns_tick: "(\<And>n. returns env s w (k n)) \<Longrightarrow> returns env s w (op_tick k)"
  unfolding returns_def op_tick_def by simp

lemma returns_runtime: "(\<And>x. returns env s w (k x)) \<Longrightarrow> returns env s w (runtime_then env r k)"
  unfolding runtime_then_def by (intro returns_then answers_ok)

lemma returns_if: "(b \<Longrightarrow> returns env s w m) \<Longrightarrow> (\<not> b \<Longrightarrow> returns env s w n) \<Longrightarrow> returns env s w (if b then m else n)"
  by simp

lemma returns_of: "returns env s w (op_of r)"
  by (simp add: returns_def op_of_def)

lemma returns_schedule_then:
  assumes "\<And>x. answers env s (Suc w) (k x)"
  shows "returns env s w (op_then (schedule_run_start_with_policy env s i policy) k)"
  unfolding returns_def
proof (intro impI allI)
  fix sv :: "('a, 'b) service" assume quiet: "quiet s env" and sv: "waiting_runs s sv \<le> w"
  let ?sv = "se_others env (sv_ticks sv) (sv\<lparr>sv_ticks := Suc (sv_ticks sv)\<rparr>)"
  have le: "waiting_runs s ?sv \<le> w" using quiet sv unfolding quiet_def
    by (metis (no_types) le_trans waiting_updates(1))
  obtain sch r where r: "schedule_start_with_policy s i policy (sv_scheduler ?sv) = (sch, r)" by fastforce
  have "waiting_runs s (?sv\<lparr>sv_scheduler := sch\<rparr>) \<le> Suc w"
    using r le by (auto simp: waiting_runs_def schedule_start_with_policy_def Let_def split: if_splits)
  with assms quiet show "op_then (schedule_run_start_with_policy env s i policy) k sv \<noteq> None"
    unfolding settles_def schedule_run_start_with_policy_def
    by (cases r) (fastforce simp: op_then_def locked_def op_tick_def op_update_def op_of_def r map_err_def)+
qed

lemmas returns_rules = returns_then returns_tick returns_runtime returns_if returns_of answers_ok answers_locked answers_read

lemma answers_first:
  "startable op \<Longrightarrow> answers env s w (build_first_transition env d i (evaluate_execution_context c op) recipe)"
  by (cases d) (auto simp: build_first_transition_def intro: answers_build answers_ok)

lemmas answers_start_rules = answers_rules answers_give_up answers_prepare answers_first startable_runs
  answers_commit_and_claim answers_start_committed answers_advance

lemma returns_start:
  "advances env s (Suc w) advance \<Longrightarrow> returns env s w (start_run advance env s command)"
  unfolding start_run_def Let_def
  by (intro returns_rules returns_schedule_then answers_start_rules)

lemma answers_start_published:
  "advances env s w advance \<Longrightarrow> answers env s w (start_published_run advance env s profile run model)"
  unfolding start_published_run_def
  by (intro answers_rules answers_start_execution answers_fail_live)

lemma answers_native_harness: "answers env s w (native_harness env parent profile)"
  unfolding native_harness_def by (intro answers_rules)

lemma returns_child:
  "advances env s (Suc w) advance \<Longrightarrow> returns env s w (start_native_child_run advance env s request)"
  unfolding start_native_child_run_def Let_def
  by (intro returns_rules returns_schedule_then answers_start_rules answers_native_harness answers_start_published)

lemma returns_fork:
  "advances env s (Suc w) advance \<Longrightarrow> returns env s w (fork_run advance env s request)"
  unfolding fork_run_def Let_def
  by (intro returns_rules returns_schedule_then answers_start_rules answers_native_harness answers_start_published)

section \<open>Every request returns\<close>

fun request_session :: "service_request \<Rightarrow> session_id option" where
  "request_session (RequestSink s i call) = Some s"
| "request_session (RequestFail s i detail) = Some s"
| "request_session (RequestStart s command) = Some s"
| "request_session (RequestChild s i request) = Some s"
| "request_session (RequestFork s request) = Some s"
| "request_session (RequestResume s i) = Some s"
| "request_session (RequestDecide s actor params) = Some s"
| "request_session (RequestExpire s) = Some s"
| "request_session (RequestCancel s actor i reason) = Some s"
| "request_session (RequestArtifact a) = Some (ac_session_id a)"
| "request_session (RequestComplete s i detail res) = Some s"
| "request_session RequestBoot = None"

lemma returns_done: "returns env s w m \<Longrightarrow> returns env s w (done_with m)"
  unfolding returns_def done_with_def by (auto simp: op_then_def op_of_def split: option.splits sum.splits prod.splits)

lemma answers_sink:
  assumes "advances env s w advance"
  shows "answers env s w (sink_operation advance env s i call)"
  unfolding sink_operation_def complete_live_run_and_publish_def record_artifact_and_publish_def
  by (cases call)
    (auto intro!: answers_rules answers_emit answers_enforce answers_record answers_and_publish answers_complete assms)

text \<open>
  C8. Every request but the startup is answered. With as much fuel as runs of its session wait and
  two more, it returns: the loop that promotes waiting runs cannot go round for ever, however the
  runs it starts fail, the cascade of a cancellation stays within its bound, and no path panics.
  This holds while the other threads do not make the session's queue longer meanwhile.
\<close>

theorem every_request_returns:
  assumes "request_session request = Some s" and "quiet s env" and "waiting_runs s sv + 2 \<le> fuel"
  shows "\<exists>sv' r. serve fuel env request sv = Some (sv', r)"
proof -
  let ?w = "waiting_runs s sv"
  have adv: "advances env s ?w (advance_ready_queue fuel env)" "advances env s (Suc ?w) (advance_ready_queue fuel env)"
    using assms(3) by (auto intro!: advances_queue)
  have "returns env s ?w (serve fuel env request)"
    using assms(1)
    by (cases request)
      (auto intro!: returns_done adv returns_if returns_of returns_start returns_fork returns_child
        returns_answers [OF answers_sink [OF adv(1)]] returns_answers [OF answers_fail_live [OF adv(1)]]
        returns_answers [OF answers_decide [OF adv(1)]] returns_answers [OF answers_cancel [OF adv(1)]]
        returns_answers [OF answers_complete [OF adv(1)]] returns_answers [OF answers_resume]
        returns_answers [OF answers_expire] returns_answers [OF answers_record]
        simp: sink_start_native_child_run_def)
  then show ?thesis using assms(2) unfolding returns_def by fastforce
qed

end
