(* ===== verification/ServiceSafety.thy ===== *)
theory ServiceSafety
  imports ServiceRelation ServiceAnswers StoreHistory
begin

text \<open>
  What holds however many requests the run execution service serves and whatever the other threads
  of the daemon do between its locked sections, as long as they keep to the same rules: the store
  stays well-formed and its history is only extended, and a finished run keeps its outcome.
\<close>

section \<open>Requests served one after the other\<close>

inductive served :: "(('h, 'w, 'j) service_env \<Rightarrow> bool) \<Rightarrow> ('h, 'w) service \<Rightarrow> ('h, 'w) service \<Rightarrow> bool"
  for allowed :: "('h, 'w, 'j) service_env \<Rightarrow> bool" where
  no_request: "served allowed sv sv"
| one_more: "served allowed sv sv1 \<Longrightarrow> allowed env \<Longrightarrow> serve fuel env request sv1 = Some (sv2, r) \<Longrightarrow>
    served allowed sv sv2"

lemma served_related:
  assumes "served allowed sv sv'"
    and "\<And>fuel env request sv sv' r. allowed env \<Longrightarrow> serve fuel env request sv = Some (sv', r) \<Longrightarrow> R (sv_store sv) (sv_store sv')"
    and "\<And>st. R st st" and "\<And>a b c. R a b \<Longrightarrow> R b c \<Longrightarrow> R a c"
  shows "R (sv_store sv) (sv_store sv')"
  using assms(1) by induction (blast intro: assms(2-4))+

section \<open>The service takes the steps of the store only\<close>

text \<open>Unless the sequence counter saturates on the way.\<close>

definition stepped :: "memory_store \<Rightarrow> memory_store \<Rightarrow> bool" where
  "stepped st st' \<longleftrightarrow> (ms_next_event_sequence st' < u64_max \<longrightarrow>
     ms_next_event_sequence st \<le> ms_next_event_sequence st' \<and> store_step\<^sup>*\<^sup>* st st')"

definition others_step :: "('h, 'w, 'j) service_env \<Rightarrow> bool" where
  "others_step env \<longleftrightarrow> (\<forall>n sv. stepped (sv_store sv) (sv_store (se_others env n sv)))"

lemma stepped_refl: "stepped st st"
  by (simp add: stepped_def)

lemma stepped_trans: "stepped a b \<Longrightarrow> stepped b c \<Longrightarrow> stepped a c"
  by (auto simp: stepped_def)

lemma steppedI: "store_step st st' \<Longrightarrow> ms_next_event_sequence st \<le> ms_next_event_sequence st' \<Longrightarrow> stepped st st'"
  by (auto simp: stepped_def)

lemma transition_stepped:
  assumes run: "commit_run_transition input st = (st', res)"
  shows "stepped st st'"
  unfolding stepped_def
proof
  assume unfilled: "ms_next_event_sequence st' < u64_max"
  have "ms_next_event_sequence st \<le> ms_next_event_sequence st'"
    using run
  proof (cases rule: run_transition_cases)
    case (failed session st1 e)
    with emit_events_next(1) [OF failed(2)] unfilled show ?thesis by simp
  next
    case (committed session em pe st1)
    have same: "ms_next_event_sequence st' = ms_next_event_sequence st1"
      by (rule finish_transition_fields(2) [OF committed(3)])
    with emit_events_next(1) [OF committed(2)] unfilled show ?thesis by simp
  qed simp
  moreover have "store_step st st'" by (rule transition_step [OF run]) (simp add: room_to_def unfilled)
  ultimately show "ms_next_event_sequence st \<le> ms_next_event_sequence st' \<and> store_step\<^sup>*\<^sup>* st st'" by blast
qed

lemma append_next: "append_seed_event r st = (st', res) \<Longrightarrow> ms_next_event_sequence st \<le> ms_next_event_sequence st'"
  by (auto simp: append_seed_event_def insert_row_def Let_def split: if_splits sum.splits option.splits)

lemma next_commit_next [simp]:
  "next_commit a b st = (st', c) \<Longrightarrow> ms_next_event_sequence st' = ms_next_event_sequence st"
  by (auto simp: next_commit_def)

lemma artifact_next:
  assumes "commit_artifact_publish a t st = (st', res)"
  shows "ms_next_event_sequence st \<le> ms_next_event_sequence st'"
  using assms unfolding commit_artifact_publish_def
  by (fastforce simp: save_seed_artifact_def outcome_then_def Let_def split: if_splits option.splits prod.splits sum.splits
      dest: append_next)

lemma receipt_event_next:
  assumes "commit_receipt_event s e t st = (st', res)"
  shows "ms_next_event_sequence st \<le> ms_next_event_sequence st'"
  using assms unfolding commit_receipt_event_def
  by (fastforce simp: outcome_then_def Let_def split: if_splits prod.splits sum.splits dest: append_next)

lemma room_one: "ms_next_event_sequence st \<le> ms_next_event_sequence st' \<Longrightarrow> ms_next_event_sequence st' < u64_max \<Longrightarrow> room 1 st"
  by (simp add: room_def)

lemma artifact_stepped: "commit_artifact_publish a t st = (st', res) \<Longrightarrow> stepped st st'"
  unfolding stepped_def by (blast intro: artifact_step room_one dest: artifact_next)

lemma receipt_event_stepped: "commit_receipt_event s (EvContextReceipt e) t st = (st', res) \<Longrightarrow> stepped st st'"
  unfolding stepped_def by (blast intro: receipt_event_step room_one dest: receipt_event_next)

lemma receipts_stepped: "stepped st (st\<lparr>ms_receipts := t\<rparr>)"
  by (rule steppedI) (simp_all add: receipts_step)

interpretation steps: store_relation env "\<lambda>st st'. others_step env \<longrightarrow> stepped st st'" for env
  by unfold_locales
    (auto intro: stepped_refl transition_stepped artifact_stepped receipt_event_stepped receipts_stepped
      dest: stepped_trans simp: others_step_def)

text \<open>
  C2. The composition with the store: starting from a store the daemon can reach, whatever requests
  are served, with whatever answers of the agents, of git, of the clock, and with failures on any
  path, and while the other threads take steps of the store between the locked sections, the store
  satisfies its invariant and its history is only extended, unless the sequence counter reached
  its largest number.
\<close>

theorem service_keeps_the_store_ok:
  assumes "served others_step sv sv'" and "store_step\<^sup>*\<^sup>* memory_store_new (sv_store sv)"
    and "ms_next_event_sequence (sv_store sv') < u64_max"
  shows "store_ok (sv_store sv') \<and> evolves (sv_store sv) (sv_store sv')"
proof -
  have "stepped (sv_store sv) (sv_store sv')"
    using assms(1) by (rule served_related) (use steps.serve_keeps in \<open>blast intro: stepped_refl stepped_trans\<close>)+
  then have "store_step\<^sup>*\<^sup>* (sv_store sv) (sv_store sv')" using assms(3) by (simp add: stepped_def)
  then show ?thesis by (rule store_steps_evolve [OF _ conjunct1 [OF store_steps_evolve [OF assms(2) store_ok_new]]])
qed

section \<open>Finished runs\<close>

text \<open>The runs are filed under their own identifiers, and what is finished stays as it ended.\<close>

definition same_outcome :: "run_projection \<Rightarrow> run_projection \<Rightarrow> bool" where
  "same_outcome run run' \<longleftrightarrow> run' = run\<lparr>rn_started_at_ms := rn_started_at_ms run',
     rn_ended_at_ms := rn_ended_at_ms run', rn_last_event_seq := rn_last_event_seq run'\<rparr>"

definition runs_keyed :: "memory_store \<Rightarrow> bool" where
  "runs_keyed st \<longleftrightarrow> (\<forall>i run. bt_get (ms_runs st) i = Some run \<longrightarrow> rn_id run = i)"

definition keeps_finished :: "run_id \<Rightarrow> memory_store \<Rightarrow> memory_store \<Rightarrow> bool" where
  "keeps_finished i st st' \<longleftrightarrow> (runs_keyed st \<longrightarrow> runs_keyed st' \<and>
     (\<forall>run. bt_get (ms_runs st) i = Some run \<longrightarrow> finished (rn_status run) \<longrightarrow>
        (\<exists>run'. bt_get (ms_runs st') i = Some run' \<and> same_outcome run run')))"

definition keeps_run :: "run_id \<Rightarrow> ('h, 'w, 'j) service_env \<Rightarrow> bool" where
  "keeps_run i env \<longleftrightarrow> (\<forall>n. Ident (''run-'' @ se_uuid env n) \<noteq> i) \<and>
     (\<forall>n sv. keeps_finished i (sv_store sv) (sv_store (se_others env n sv)))"

lemma same_outcome_refl: "same_outcome run run"
  by (simp add: same_outcome_def)

lemma same_outcome_trans: "same_outcome a b \<Longrightarrow> same_outcome b c \<Longrightarrow> same_outcome a c"
  unfolding same_outcome_def by (cases a; cases b; cases c) simp

lemma same_outcome_status: "same_outcome run run' \<Longrightarrow> rn_status run' = rn_status run"
  unfolding same_outcome_def by (cases run; cases run') simp

lemma same_outcome_commit: "same_outcome run (with_commit_metadata run old t n)"
  by (simp add: same_outcome_def with_commit_metadata_def)

lemma keeps_finished_refl: "keeps_finished i st st"
  by (auto simp: keeps_finished_def intro: same_outcome_refl)

lemma keeps_finished_trans:
  assumes "keeps_finished i a b" and "keeps_finished i b c"
  shows "keeps_finished i a c"
  unfolding keeps_finished_def
proof (intro impI conjI allI)
  assume keyed: "runs_keyed a"
  with assms(1) have b: "runs_keyed b" by (simp add: keeps_finished_def)
  with assms(2) show "runs_keyed c" by (simp add: keeps_finished_def)
  fix run assume run: "bt_get (ms_runs a) i = Some run" "finished (rn_status run)"
  with assms(1) keyed obtain run1 where r1: "bt_get (ms_runs b) i = Some run1" "same_outcome run run1"
    unfolding keeps_finished_def by blast
  moreover from r1 run(2) have "finished (rn_status run1)" by (simp add: same_outcome_status)
  ultimately obtain run2 where "bt_get (ms_runs c) i = Some run2" "same_outcome run1 run2"
    using assms(2) b unfolding keeps_finished_def by blast
  with r1(2) show "\<exists>run'. bt_get (ms_runs c) i = Some run' \<and> same_outcome run run'"
    by (blast intro: same_outcome_trans)
qed

lemma keeps_finished_same: "ms_runs st' = ms_runs st \<Longrightarrow> keeps_finished i st st'"
  by (auto simp: keeps_finished_def runs_keyed_def intro: same_outcome_refl)

text \<open>The loop over the events leaves the runs alone; the commit writes the run it is given.\<close>

lemma emit_events_runs: "emit_events input ps em pe st = (st', res) \<Longrightarrow> ms_runs st' = ms_runs st"
proof (induction ps arbitrary: em pe st)
  case (Cons p ps)
  let ?e = "\<lparr>ev_sequence = ms_next_event_sequence st, ev_session_id = ct_session_id input,
      ev_occurred_at_ms = ct_occurred_at_ms input, ev_payload = p\<rparr>"
  show ?case
  proof (cases "apply_agent_stream_event (ms_in_flight st) ?e")
    case (Inl err)
    with Cons.prems show ?thesis by (auto simp: Let_def)
  next
    case (Inr q)
    then obtain fl row where a: "apply_agent_stream_event (ms_in_flight st) ?e = Ok (fl, row)" by (cases q) simp
    obtain em2 pe2 st2 where step: "emit_events input ps em2 pe2 st2 = (st', res)" and st2: "ms_runs st2 = ms_runs st"
      using Cons.prems a by (cases "durable p") (force simp: Let_def insert_row_def split: option.splits)+
    from Cons.IH [OF step] st2 show ?thesis by simp
  qed
qed simp

lemma transition_runs:
  assumes "commit_run_transition input st = (st', res)"
  shows "ms_runs st' = ms_runs st \<or> (\<exists>t n. ms_runs st' = bt_put (rn_id (ct_run input))
    (with_commit_metadata (ct_run input) (bt_get (ms_runs st) (rn_id (ct_run input))) t n) (ms_runs st))"
  using assms
proof (cases rule: run_transition_cases)
  case (failed session st1 e)
  then show ?thesis using emit_events_runs [OF failed(2)] by simp
next
  case (committed session em pe st1)
  from finish_transition_fields(11) [OF committed(3)] obtain r where
    "transition_result input session (bt_get (ms_runs st) (rn_id (ct_run input))) em pe st1 st' r" by blast
  then show ?thesis using emit_events_runs [OF committed(2)] by (auto simp: transition_result_def)
qed simp

lemma change_keeps_finished:
  assumes old: "bt_get (ms_runs st) j = Some old" and id: "rn_id run = rn_id old"
    and open_or_same: "\<not> finished (rn_status old) \<or> run = old"
    and commit: "commit_run_transition \<lparr>ct_session_id = s, ct_run = run, ct_events = events, ct_occurred_at_ms = now\<rparr> st =
      (st', res)"
  shows "keeps_finished i st st'"
  using transition_runs [OF commit]
proof
  assume "\<exists>t n. ms_runs st' = bt_put (rn_id (ct_run \<lparr>ct_session_id = s, ct_run = run, ct_events = events, ct_occurred_at_ms = now\<rparr>))
    (with_commit_metadata (ct_run \<lparr>ct_session_id = s, ct_run = run, ct_events = events, ct_occurred_at_ms = now\<rparr>)
      (bt_get (ms_runs st) (rn_id (ct_run \<lparr>ct_session_id = s, ct_run = run, ct_events = events, ct_occurred_at_ms = now\<rparr>))) t n)
    (ms_runs st)"
  then obtain x t n where put: "ms_runs st' = bt_put (rn_id run) (with_commit_metadata run x t n) (ms_runs st)" by auto
  have kept: "rn_id (with_commit_metadata run x t n) = rn_id run" by (simp add: with_commit_metadata_def)
  show ?thesis unfolding keeps_finished_def
  proof (intro impI conjI allI)
    assume keyed: "runs_keyed st"
    with old have j: "rn_id old = j" by (simp add: runs_keyed_def)
    show "runs_keyed st'" using keyed kept by (auto simp: runs_keyed_def put)
    fix r assume r: "bt_get (ms_runs st) i = Some r" "finished (rn_status r)"
    show "\<exists>run'. bt_get (ms_runs st') i = Some run' \<and> same_outcome r run'"
    proof (cases "i = j")
      case True
      with r old open_or_same have "run = r" by auto
      with True id j show ?thesis by (auto simp: put same_outcome_commit)
    qed (use r id j in \<open>auto simp: put intro: same_outcome_refl\<close>)
  qed
qed (rule keeps_finished_same)

lemma create_keeps_finished:
  assumes "rn_id run \<noteq> i"
    and commit: "commit_run_transition \<lparr>ct_session_id = s, ct_run = run, ct_events = events, ct_occurred_at_ms = now\<rparr> st =
      (st', res)"
  shows "keeps_finished i st st'"
proof -
  have kept: "rn_id (with_commit_metadata run x t n) = rn_id run" for x t n by (simp add: with_commit_metadata_def)
  from transition_runs [OF commit] assms(1) show ?thesis
    by (auto simp: keeps_finished_def runs_keyed_def kept intro: same_outcome_refl split: if_splits)
qed

lemma artifact_runs: "commit_artifact_publish a t st = (st', res) \<Longrightarrow> ms_runs st' = ms_runs st"
  unfolding commit_artifact_publish_def
  by (auto simp: save_seed_artifact_def append_seed_event_def insert_row_def next_commit_def outcome_then_def Let_def
      split: if_splits option.splits prod.splits sum.splits)

lemma receipt_event_runs: "commit_receipt_event s e t st = (st', res) \<Longrightarrow> ms_runs st' = ms_runs st"
  unfolding commit_receipt_event_def
  by (auto simp: append_seed_event_def insert_row_def next_commit_def outcome_then_def Let_def
      split: if_splits option.splits prod.splits sum.splits)

interpretation outcomes: store_relation env "\<lambda>st st'. keeps_run i env \<longrightarrow> keeps_finished i st st'" for env i
proof
  fix st st1 st2
  assume "keeps_run i env \<longrightarrow> keeps_finished i st st1" "keeps_run i env \<longrightarrow> keeps_finished i st1 st2"
  then show "keeps_run i env \<longrightarrow> keeps_finished i st st2" by (blast intro: keeps_finished_trans)
next
  fix run :: run_projection and n s events now st st' res
  assume id: "rn_id run = Ident (''run-'' @ se_uuid env n)"
    and commit: "commit_run_transition \<lparr>ct_session_id = s, ct_run = run, ct_events = events, ct_occurred_at_ms = now\<rparr> st = (st', res)"
  show "keeps_run i env \<longrightarrow> keeps_finished i st st'"
  proof
    assume "keeps_run i env"
    with id have "rn_id run \<noteq> i" by (simp only: keeps_run_def) blast
    then show "keeps_finished i st st'" by (rule create_keeps_finished [OF _ commit])
  qed
qed (auto simp: keeps_run_def intro: keeps_finished_refl change_keeps_finished
    intro: keeps_finished_same artifact_runs receipt_event_runs)

text \<open>
  C7. A run that has completed, failed, exceeded its budget or been cancelled keeps its status, its
  result and everything else of its projection except the commit's time stamps and sequence,
  whatever requests the service serves afterwards (late sink calls of its agent, approvals,
  cancellations, promotions from the queue, restarts), while other threads keep to the same rule
  and no new run is given its identifier.
\<close>

theorem finished_runs_stay_finished:
  assumes "served (keeps_run i) sv sv'" and "store_ok (sv_store sv)"
    and "bt_get (ms_runs (sv_store sv)) i = Some run" and "finished (rn_status run)"
  shows "\<exists>run'. bt_get (ms_runs (sv_store sv')) i = Some run' \<and> same_outcome run run' \<and> rn_status run' = rn_status run"
proof -
  have "keeps_finished i (sv_store sv) (sv_store sv')"
    using assms(1)
    by (rule served_related) (use outcomes.serve_keeps in \<open>blast intro: keeps_finished_refl keeps_finished_trans\<close>)+
  moreover have "runs_keyed (sv_store sv)" using assms(2) by (auto simp: store_ok_def refs_ok_def runs_keyed_def)
  ultimately show ?thesis using assms(3,4) same_outcome_status unfolding keeps_finished_def by blast
qed

section \<open>Witnesses\<close>

definition demo_limits :: budget_limits where
  "demo_limits = \<lparr>max_tokens = Some 1000, max_wall_clock_ms = Some 5, max_tool_calls = None\<rparr>"

text \<open>Nobody else is running, and nothing of the outside works.\<close>

definition demo_env :: "(unit, unit, unit) service_env" where
  "demo_env = \<lparr>se_others = (\<lambda>n sv. sv), se_now = (\<lambda>n. 20), se_system_time = (\<lambda>n. int n), se_receipt_time = (\<lambda>n. Some n),
     se_uuid = (\<lambda>n. replicate n (CHR ''u'')), se_sha256 = id, se_parse_json = (\<lambda>t. Err ''no json''),
     se_selected_profile = (\<lambda>n. Err (RuntimeExecutionFailed ''none'')),
     se_runtime_profile = (\<lambda>n i. Err (RuntimeExecutionFailed ''none'')),
     se_harness = (\<lambda>p. Ok NativeLoop), se_execute = (\<lambda>n start. Ok ()), se_cancel = (\<lambda>h. Ok ()),
     se_resolve = (\<lambda>h r. Ok ()), se_handle_waits = (\<lambda>n. 0),
     se_create_worktree = (\<lambda>n p i c. Err ''no git''), se_is_dir = (\<lambda>n p. False), se_canonical = (\<lambda>n p. Ok (WorkspacePath p)),
     se_artifact_root = (\<lambda>n. Ok (WorkspacePath ''/a'')), se_supports_network = False,
     se_budget_policy = \<lparr>per_run = demo_limits, parent_aggregate = demo_limits\<rparr>, se_recipes = (\<lambda>i. None),
     se_error_text = (\<lambda>e. ''failed''), se_capability_text = (\<lambda>c. ''c''), se_validation_text = (\<lambda>e. ''e'')\<rparr>"

definition demo_commit :: "run_status \<Rightarrow> run_transition" where
  "demo_commit status = \<lparr>ct_session_id = Ident ''s'', ct_run = demo_run ''s'' ''r'' status None,
     ct_events = [run_status_event (Ident ''r'') status ''go'' None], ct_occurred_at_ms = 9\<rparr>"

definition demo_store_with :: "run_status \<Rightarrow> memory_store" where
  "demo_store_with status = fst (commit_run_transition (demo_commit status) demo_store2)"

definition demo_service :: "run_status \<Rightarrow> (unit, unit) service" where
  "demo_service status = \<lparr>sv_store = demo_store_with status,
     sv_active = claim_run (Ident ''r'') (Ident ''s'') active_execution_owner_new,
     sv_scheduler = run_scheduler_new, sv_claims = claim_registry_new, sv_resources = [], sv_marks = [],
     sv_published = [], sv_ticks = 0\<rparr>"

lemmas demo_commit_defs = commit_run_transition_def validate_run_execution_context_def
  validate_run_transition_events_def session_records_def fold_session_records_def apply_daemon_event_def
  validate_run_transition_def apply_agent_stream_event_def finish_transition_def next_commit_def split_def Let_def
  bt_contains_def bt_put_def with_commit_metadata_def compute_session_status_from_runs_def run_status_event_def

lemma demo_store_step: "store_step demo_store2 (demo_store_with status)"
  by (rule transition_step [of "demo_commit status" _ _ "snd (commit_run_transition (demo_commit status) demo_store2)"])
     (simp_all add: demo_store_with_def room_to room_def demo_store2_eq u64_max_def demo_commit_def)

lemma demo_store_reachable: "store_step\<^sup>*\<^sup>* memory_store_new (demo_store_with status)"
  using demo_reachable2 demo_store_step by (rule rtranclp.rtrancl_into_rtrancl)

lemmas demo_store_defs = demo_store_with_def demo_commit_def demo_store2_eq demo_store1_eq memory_store_new_def
  demo_commit_defs demo_opened_def demo_run_def demo_session_def insert_row_def sat_add_def u64_max_def wrap_add_def

lemma demo_completed_run:
  "\<exists>run. bt_get (ms_runs (demo_store_with Completed)) (Ident ''r'') = Some run \<and> rn_status run = Completed"
  by (simp add: demo_store_defs)

lemmas demo_serve_defs = sink_operation_def emit_live_run_detail_and_publish_def and_publish_def
  commit_live_run_status_def commit_live_run_status_with_completion_def locked_def op_tick_def op_then_def op_read_def
  op_of_def op_store_def live_owned_run_def session_run_def stored_run_def is_live_def commit_transition_def
  publish_records_def op_update_def map_err_def demo_service_def demo_env_def default_completion_def
  is_running_owned_by_def active_execution_owner_new_def claim_run_def project_run_summary_def recipe_id_for_run_def

lemma demo_served_live:
  "\<exists>sv' r. serve 1 demo_env (RequestSink (Ident ''s'') (Ident ''r'') (PushActivity ''on'')) (demo_service Running) =
     Some (sv', r) \<and> ms_next_event_sequence (sv_store sv') < u64_max"
  by (simp add: demo_serve_defs demo_store_defs)

lemma demo_served_late:
  "\<exists>sv' r. serve 1 demo_env (RequestSink (Ident ''s'') (Ident ''r'') (PushActivity ''on'')) (demo_service Completed) =
     Some (sv', r)"
  by (simp add: demo_serve_defs demo_store_defs)

lemma demo_quiet: "others_step demo_env" "keeps_run (Ident ''r'') demo_env"
  by (simp_all add: others_step_def keeps_run_def demo_env_def stepped_refl keeps_finished_refl)

theorem service_keeps_the_store_ok_witness:
  "\<exists>sv' :: (unit, unit) service. store_ok (sv_store sv') \<and> evolves (demo_store_with Running) (sv_store sv')"
proof -
  obtain sv' r where run: "serve 1 demo_env (RequestSink (Ident ''s'') (Ident ''r'') (PushActivity ''on'')) (demo_service Running) =
     Some (sv', r)" and unfilled: "ms_next_event_sequence (sv_store sv') < u64_max"
    using demo_served_live by blast
  have sv: "served (others_step :: (unit, unit, unit) service_env \<Rightarrow> bool) (demo_service Running) sv'" by (rule one_more [where allowed = others_step and env = demo_env, OF no_request demo_quiet(1) run])
  have st: "sv_store (demo_service Running) = demo_store_with Running" by (simp add: demo_service_def)
  show ?thesis
    using service_keeps_the_store_ok [OF sv _ unfilled] demo_store_reachable [of Running] unfolding st by blast
qed

theorem finished_runs_stay_finished_witness:
  "\<exists>sv' run' :: run_projection. served (keeps_run (Ident ''r'') :: (unit, unit, unit) service_env \<Rightarrow> bool) (demo_service Completed) sv' \<and>
     bt_get (ms_runs (sv_store sv')) (Ident ''r'') = Some run' \<and> rn_status run' = Completed"
proof -
  obtain sv' r where run: "serve 1 demo_env (RequestSink (Ident ''s'') (Ident ''r'') (PushActivity ''on'')) (demo_service Completed) =
     Some (sv', r)" using demo_served_late by blast
  have sv: "served (keeps_run (Ident ''r'') :: (unit, unit, unit) service_env \<Rightarrow> bool) (demo_service Completed) sv'"
    by (rule one_more [where allowed = "keeps_run (Ident ''r'')" and env = demo_env, OF no_request demo_quiet(2) run])
  have st: "sv_store (demo_service Completed) = demo_store_with Completed" by (simp add: demo_service_def)
  obtain q where "bt_get (ms_runs (demo_store_with Completed)) (Ident ''r'') = Some q" "rn_status q = Completed"
    using demo_completed_run by blast
  moreover have "store_ok (demo_store_with Completed)"
    using store_steps_evolve [OF demo_store_reachable store_ok_new] by blast
  ultimately show ?thesis
    using finished_runs_stay_finished [OF sv, of q] sv st by (auto simp: finished_def)
qed

theorem every_request_returns_witness:
  "\<exists>sv' r. serve 2 demo_env (RequestCancel (Ident ''s'') daemon_actor (Ident ''r'') None) (demo_service Running) = Some (sv', r)"
proof -
  have "quiet (Ident ''s'') demo_env" by (simp add: quiet_def demo_env_def u64_max_def)
  moreover have "waiting_runs (Ident ''s'') (demo_service Running) = 0"
    by (simp add: waiting_runs_def demo_service_def schedule_of_def run_scheduler_new_def empty_schedule_def)
  ultimately show ?thesis
    using every_request_returns [of "RequestCancel (Ident ''s'') daemon_actor (Ident ''r'') None" "Ident ''s''" demo_env
      "demo_service Running" 2] by simp
qed

end
