(* ===== verification/ServiceEffects.thy ===== *)
theory ServiceEffects
  imports ServiceSafety
begin

text \<open>
  What the requests of the run execution service do, when no other thread commits meanwhile: a
  cancellation cancels the run and its native children and answers the open approvals, a completion obeys the
  output contract, an exceeded budget stops the run, and an agent that is not live any more changes nothing.
\<close>

section \<open>Commits\<close>

definition alone :: "('h, 'w, 'j) service_env \<Rightarrow> bool" where
  "alone env \<longleftrightarrow> (\<forall>n sv. sv_store (se_others env n sv) = sv_store sv)"

lemma op_then_cases:
  assumes "op_then m k sv = Some (sv', r)"
  obtains (error) e where "m sv = Some (sv', Inl e)" "r = Inl e"
  | (step) sv1 x where "m sv = Some (sv1, Inr x)" "k x sv1 = Some (sv', r)"
  using assms unfolding op_then_def by (auto split: option.splits sum.splits)

lemma locked_alone:
  assumes "alone env" and "locked env m sv = Some (sv', r)"
  obtains mid where "sv_store mid = sv_store sv" "m mid = Some (sv', r)"
proof
  let ?mid = "se_others env (sv_ticks sv) (sv\<lparr>sv_ticks := Suc (sv_ticks sv)\<rparr>)"
  show "sv_store ?mid = sv_store sv" using assms(1) by (simp add: alone_def)
  show "m ?mid = Some (sv', r)" using assms(2) by (simp add: locked_def op_tick_def)
qed

lemma locked_read_alone:
  assumes "alone env" and "locked env (op_read f) sv = Some (sv', r)"
  shows "sv_store sv' = sv_store sv" and "r = f sv'"
proof -
  from locked_alone [OF assms] obtain mid where "sv_store mid = sv_store sv" "op_read f mid = Some (sv', r)" .
  then show "sv_store sv' = sv_store sv" and "r = f sv'" by (auto simp: op_read_def)
qed

lemma op_tick_cases:
  assumes "op_tick k sv = Some (sv', r)"
  obtains n mid where "sv_store mid = sv_store sv" "k n mid = Some (sv', r)"
proof (rule that)
  show "sv_store (sv\<lparr>sv_ticks := Suc (sv_ticks sv)\<rparr>) = sv_store sv" by simp
  show "k (sv_ticks sv) (sv\<lparr>sv_ticks := Suc (sv_ticks sv)\<rparr>) = Some (sv', r)" using assms by (simp add: op_tick_def)
qed

lemma commit_Ok:
  assumes "commit_transition s run events now sv = Some (sv', Ok c)"
  shows "bt_get (ms_runs (sv_store sv')) (rn_id run) = Some (cr_run c)" and "same_outcome run (cr_run c)"
    and "rn_id (cr_run c) = rn_id run" and "runs_keyed (sv_store sv) \<Longrightarrow> runs_keyed (sv_store sv')"
proof -
  let ?input = "\<lparr>ct_session_id = s, ct_run = run, ct_events = events, ct_occurred_at_ms = now\<rparr>"
  from assms have commit: "commit_run_transition ?input (sv_store sv) = (sv_store sv', Ok c)"
    by (auto simp: commit_transition_def op_store_def map_err_def split: prod.splits sum.splits)
  then have "bt_get (ms_runs (sv_store sv')) (rn_id run) = Some (cr_run c) \<and> same_outcome run (cr_run c) \<and>
    rn_id (cr_run c) = rn_id run"
  proof (cases rule: run_transition_cases)
    case (committed session em pe st1)
    have id: "rn_id (with_commit_metadata run x t n) = rn_id run" for x t n by (simp add: with_commit_metadata_def)
    from finish_transition_fields(11) [OF committed(3)]
    have "transition_result ?input session (bt_get (ms_runs (sv_store sv)) (rn_id run)) em pe st1 (sv_store sv') c" by auto
    then show ?thesis by (auto simp: transition_result_def id same_outcome_commit)
  qed auto
  then show "bt_get (ms_runs (sv_store sv')) (rn_id run) = Some (cr_run c)" and "same_outcome run (cr_run c)"
    and "rn_id (cr_run c) = rn_id run" by blast+
  have id: "rn_id (with_commit_metadata run x t n) = rn_id run" for x t n by (simp add: with_commit_metadata_def)
  show "runs_keyed (sv_store sv')" if "runs_keyed (sv_store sv)"
    using transition_runs [OF commit] that by (auto simp: runs_keyed_def id split: if_splits)
qed

lemma commit_always: "\<exists>sv' r. commit_transition s run events now sv = Some (sv', r)"
  by (auto simp: commit_transition_def op_store_def split: prod.splits)

lemma commit_others:
  assumes "commit_transition s run events now sv = Some (sv', r)"
  shows "j \<noteq> rn_id run \<Longrightarrow> bt_get (ms_runs (sv_store sv')) j = bt_get (ms_runs (sv_store sv)) j"
proof -
  let ?input = "\<lparr>ct_session_id = s, ct_run = run, ct_events = events, ct_occurred_at_ms = now\<rparr>"
  from assms obtain res where "commit_run_transition ?input (sv_store sv) = (sv_store sv', res)"
    by (auto simp: commit_transition_def op_store_def map_err_def split: prod.splits sum.splits)
  from transition_runs [OF this] show "j \<noteq> rn_id run \<Longrightarrow> bt_get (ms_runs (sv_store sv')) j = bt_get (ms_runs (sv_store sv)) j"
    by auto
qed

lemma same_outcome_fields:
  assumes "same_outcome run run'"
  shows "rn_id run' = rn_id run" "rn_result run' = rn_result run" "rn_contract_violation run' = rn_contract_violation run"
    "rn_source run' = rn_source run" "rn_session_id run' = rn_session_id run"
  using assms unfolding same_outcome_def by (cases run; cases run'; simp)+

section \<open>Cancelling settles the approvals\<close>

lemma approvals_open:
  assumes "store_ok st"
  shows "approvals_for_session q st = Ok (rev (map snd (open_requests (session_records (aq_session_id q) st) q)))"
proof -
  let ?evs = "session_records (aq_session_id q) st"
  from assms have "log_ok st" and folds: "folds_ok st" by (simp_all add: store_ok_def)
  from log_ok_sorted [OF this(1)] have srt: "by_sequence ?evs"
    unfolding session_records_log by (rule sorted_wrt_filter)
  from folds obtain lifecycle where "fold_session_records ?evs = Ok lifecycle"
    unfolding folds_ok_def is_ok_iff by blast
  with pending_approvals_listed [OF srt this, of q] show ?thesis by (simp add: approvals_for_session_def)
qed

lemma commit_log:
  assumes "store_ok (sv_store sv)" and "ms_next_event_sequence (sv_store sv') < u64_max"
    and "commit_transition s run events now sv = Some (sv', Ok c)"
  obtains new where "session_records s (sv_store sv') = session_records s (sv_store sv) @ new"
    and "map ev_payload new = filter durable events" and "store_ok (sv_store sv')"
proof -
  let ?input = "\<lparr>ct_session_id = s, ct_run = run, ct_events = events, ct_occurred_at_ms = now\<rparr>"
  let ?st = "sv_store sv" and ?st' = "sv_store sv'"
  from assms(3) have commit: "commit_run_transition ?input ?st = (?st', Ok c)"
    by (auto simp: commit_transition_def op_store_def map_err_def split: prod.splits sum.splits)
  have room: "room_to (length (ct_events ?input)) ?st ?st'" using assms(2) by (simp add: room_to_def)
  from transition_store_ok [OF assms(1) room commit] have ok: "store_ok ?st'" .
  let ?new = "persisted_of (stamped ?input (ms_next_event_sequence ?st) events)"
  have log: "store_log ?st' = store_log ?st @ ?new"
    using commit
  proof (cases rule: run_transition_cases)
    case (committed session em pe st1)
    from room_to_emitted [OF room committed(2,3)] have "room (length (ct_events ?input)) ?st" .
    with emit_events_ok [OF committed(2)] assms(1) have "store_log st1 = store_log ?st @ ?new"
      by (simp add: store_ok_def)
    with finish_transition_fields(1) [OF committed(3)] show ?thesis by simp
  qed auto
  have "filter (\<lambda>r. ev_session_id r = s) ?new = ?new"
    by (rule filter_True) (use stamped_facts(3) [of ?input] in auto)
  then have "session_records s ?st' = session_records s ?st @ ?new"
    by (simp add: session_records_log log)
  moreover have "map ev_payload (persisted_of (stamped ?input n ps)) = filter durable ps" for n ps
    by (induction ps arbitrary: n) simp_all
  ultimately show thesis using ok by (intro that)
qed

lemma answers_durable: "durable (EvApproval (ApprovalResolved v))"
  by simp

lemma rejections_answer:
  assumes "rejections s i reason actor commentary sv = Ok rejected" and "store_ok (sv_store sv)"
    and "(n, a) \<in> set (open_requests (session_records s (sv_store sv)) \<lparr>aq_session_id = s, aq_run_id = Some i, aq_approval_id = None\<rparr>)"
  shows "\<exists>v. EvApproval (ApprovalResolved v) \<in> set rejected \<and> rs_approval_id v = rq_id a \<and>
    rs_decision v = Rejected \<and> rs_reason v = reason"
proof -
  let ?q = "\<lparr>aq_session_id = s, aq_run_id = Some i, aq_approval_id = None\<rparr>"
  from assms(1) have "rejected = map (\<lambda>q. EvApproval (ApprovalResolved (answer_request q Rejected reason actor (Some commentary))))
      (rev (map snd (open_requests (session_records s (sv_store sv)) ?q)))"
    by (simp add: rejections_def approvals_open [OF assms(2)] map_err_def)
  with assms(3) have "EvApproval (ApprovalResolved (answer_request a Rejected reason actor (Some commentary))) \<in> set rejected"
    by force
  moreover have "rs_approval_id (answer_request a Rejected reason actor (Some commentary)) = rq_id a"
    "rs_decision (answer_request a Rejected reason actor (Some commentary)) = Rejected"
    "rs_reason (answer_request a Rejected reason actor (Some commentary)) = reason"
    by (simp_all add: answer_request_def approval_resolution_new_def resolution_with_tool_call_id_def Let_def split: option.split)
  ultimately show ?thesis by blast
qed

text \<open>A commit of a cancellation that succeeds: what it started from and what it committed.\<close>

lemma op_then_OkE:
  assumes "op_then m k sv = Some (sv', Ok r)"
  obtains sv1 x where "m sv = Some (sv1, Ok x)" "k x sv1 = Some (sv', Ok r)"
  using assms by (cases rule: op_then_cases) auto

lemma cancel_commit_Ok:
  assumes "alone env" and "runs_keyed (sv_store sv)" and "cancel_commit env s actor i detail sv = Some (sv', Ok (run, events))"
  obtains old answers n mid c where "bt_get (ms_runs (sv_store sv)) i = Some old" "rn_session_id old = s" "cancellable (rn_status old)"
    and "sv_store mid = sv_store sv"
    and "if rn_status old = Queued then answers = [] else rejections s i ByCancelled actor detail mid = Ok answers"
    and "commit_transition s (old\<lparr>rn_status := Cancelled\<rparr>)
       (answers @ [run_status_event i Cancelled detail (recipe_id_for_run (old\<lparr>rn_status := Cancelled\<rparr>))]) (se_now env n) mid =
       Some (sv', Ok c)" and "cr_run c = run"
proof -
  from locked_alone [OF assms(1) assms(3) [unfolded cancel_commit_def]] obtain mid where mid: "sv_store mid = sv_store sv" and
    steps: "op_then (op_read (cancellable_run s i)) (\<lambda>run.
     op_then (op_read (require_session s)) (\<lambda>_.
     op_then (if rn_status run \<in> {Running, WaitingForApproval}
       then op_read (rejections s (rn_id run) ByCancelled actor detail) else op_ok []) (\<lambda>answers.
     let run' = run\<lparr>rn_status := Cancelled\<rparr>
     in op_tick (\<lambda>n. op_then (commit_transition s run'
          (answers @ [run_status_event (rn_id run') Cancelled detail (recipe_id_for_run run')]) (se_now env n))
        (\<lambda>committed. op_ok (cr_run committed, cr_events committed)))))) mid = Some (sv', Ok (run, events))" .
  from steps obtain old where checked: "cancellable_run s i mid = Ok old"
    and rest: "op_then (op_read (require_session s)) (\<lambda>_.
     op_then (if rn_status old \<in> {Running, WaitingForApproval}
       then op_read (rejections s (rn_id old) ByCancelled actor detail) else op_ok []) (\<lambda>answers.
     let run' = old\<lparr>rn_status := Cancelled\<rparr>
     in op_tick (\<lambda>n. op_then (commit_transition s run'
          (answers @ [run_status_event (rn_id run') Cancelled detail (recipe_id_for_run run')]) (se_now env n))
        (\<lambda>committed. op_ok (cr_run committed, cr_events committed))))) mid = Some (sv', Ok (run, events))"
    by (rule op_then_OkE) (auto simp: op_read_def)
  from checked have old: "bt_get (ms_runs (sv_store sv)) i = Some old" "rn_session_id old = s" "cancellable (rn_status old)"
    using mid by (auto simp: cancellable_run_def try_then_Ok_iff session_run_Ok split: if_splits)
  then have id: "rn_id old = i" using assms(2) by (simp add: runs_keyed_def)
  from rest obtain answers where
    answers: "if rn_status old = Queued then answers = [] else rejections s i ByCancelled actor detail mid = Ok answers"
    and last: "op_tick (\<lambda>n. op_then (commit_transition s (old\<lparr>rn_status := Cancelled\<rparr>)
          (answers @ [run_status_event i Cancelled detail (recipe_id_for_run (old\<lparr>rn_status := Cancelled\<rparr>))]) (se_now env n))
        (\<lambda>committed. op_ok (cr_run committed, cr_events committed))) mid = Some (sv', Ok (run, events))"
    using old(3) id
    by (elim op_then_OkE) (auto simp: op_read_def op_of_def Let_def cancellable_def split: if_splits)
  from last obtain n mid' where mid': "sv_store mid' = sv_store mid" and
    fin: "op_then (commit_transition s (old\<lparr>rn_status := Cancelled\<rparr>)
          (answers @ [run_status_event i Cancelled detail (recipe_id_for_run (old\<lparr>rn_status := Cancelled\<rparr>))]) (se_now env n))
        (\<lambda>committed. op_ok (cr_run committed, cr_events committed)) mid' = Some (sv', Ok (run, events))"
    by (rule op_tick_cases)
  from fin obtain c where commit: "commit_transition s (old\<lparr>rn_status := Cancelled\<rparr>)
          (answers @ [run_status_event i Cancelled detail (recipe_id_for_run (old\<lparr>rn_status := Cancelled\<rparr>))]) (se_now env n)
          mid' = Some (sv', Ok c)" and c: "cr_run c = run"
    by (rule op_then_OkE) (auto simp: op_of_def)
  have "rejections s i ByCancelled actor detail mid' = rejections s i ByCancelled actor detail mid"
    using mid' by (simp add: rejections_def)
  with answers have "if rn_status old = Queued then answers = [] else rejections s i ByCancelled actor detail mid' = Ok answers" by simp
  moreover have "sv_store mid' = sv_store sv" using mid mid' by simp
  ultimately show thesis using that old commit c by blast
qed

lemma cancel_commit_runs:
  assumes "alone env" and "runs_keyed (sv_store sv)" and "cancel_commit env s actor i detail sv = Some (sv', Ok (run, events))"
  shows "bt_get (ms_runs (sv_store sv')) i = Some run" and "rn_status run = Cancelled" and "rn_id run = i"
    and "runs_keyed (sv_store sv')" and "\<And>j. j \<noteq> i \<Longrightarrow> bt_get (ms_runs (sv_store sv')) j = bt_get (ms_runs (sv_store sv)) j"
proof -
  from cancel_commit_Ok [OF assms] obtain old answers n mid c where
    old: "bt_get (ms_runs (sv_store sv)) i = Some old" and mid: "sv_store mid = sv_store sv" and c: "cr_run c = run"
    and commit: "commit_transition s (old\<lparr>rn_status := Cancelled\<rparr>)
       (answers @ [run_status_event i Cancelled detail (recipe_id_for_run (old\<lparr>rn_status := Cancelled\<rparr>))]) (se_now env n) mid =
       Some (sv', Ok c)" .
  have id: "rn_id old = i" using assms(2) old by (simp add: runs_keyed_def)
  from commit_Ok [OF commit] id mid c assms(2) show "bt_get (ms_runs (sv_store sv')) i = Some run"
    and "rn_status run = Cancelled" and "rn_id run = i" and "runs_keyed (sv_store sv')"
    by (auto dest: same_outcome_status)
  show "bt_get (ms_runs (sv_store sv')) j = bt_get (ms_runs (sv_store sv)) j" if "j \<noteq> i" for j
    using commit_others [OF commit] that id mid by simp
qed

lemma cancel_commit_ids:
  assumes "alone env" and "runs_keyed (sv_store sv)" and "cancel_commit env s actor i detail sv = Some (sv', Ok (run, events))"
  shows "rn_id ` set (bt_values (ms_runs (sv_store sv'))) \<subseteq> insert i (rn_id ` set (bt_values (ms_runs (sv_store sv))))"
proof -
  from cancel_commit_Ok [OF assms] obtain old answers n mid c where
    old: "bt_get (ms_runs (sv_store sv)) i = Some old" and mid: "sv_store mid = sv_store sv"
    and commit: "commit_transition s (old\<lparr>rn_status := Cancelled\<rparr>)
       (answers @ [run_status_event i Cancelled detail (recipe_id_for_run (old\<lparr>rn_status := Cancelled\<rparr>))]) (se_now env n) mid =
       Some (sv', Ok c)" .
  have id: "rn_id old = i" using assms(2) old by (simp add: runs_keyed_def)
  have kept: "rn_id (with_commit_metadata run x t n) = rn_id run" for run x t n by (simp add: with_commit_metadata_def)
  have put: "set (bt_values (bt_put k v m)) \<subseteq> insert v (set (bt_values m))" for k :: run_id and v :: run_projection and m
    by (auto simp: bt_put_def)
  from commit obtain input res where "commit_run_transition input (sv_store sv) = (sv_store sv', res)" "rn_id (ct_run input) = i"
    using id mid by (auto simp: commit_transition_def op_store_def map_err_def split: prod.splits sum.splits)
  then consider "ms_runs (sv_store sv') = ms_runs (sv_store sv)"
    | x t n where "ms_runs (sv_store sv') = bt_put i (with_commit_metadata (ct_run input) x t n) (ms_runs (sv_store sv))"
      "rn_id (ct_run input) = i"
    using transition_runs by blast
  then show ?thesis
  proof cases
    case (2 x t n)
    have "rn_id ` set (bt_values (ms_runs (sv_store sv'))) \<subseteq>
        rn_id ` insert (with_commit_metadata (ct_run input) x t n) (set (bt_values (ms_runs (sv_store sv))))"
      unfolding 2(1) by (rule image_mono) (rule put)
    then show ?thesis using 2(2) kept by simp
  qed auto
qed

section \<open>Agents whose run is not running\<close>

text \<open>An operation that fails from a given store and leaves it as it is.\<close>

definition refused :: "memory_store \<Rightarrow> ('h, 'w, 'a) run_operation \<Rightarrow> bool" where
  "refused st m \<longleftrightarrow> (\<forall>sv sv' r. sv_store sv = st \<longrightarrow> m sv = Some (sv', r) \<longrightarrow> \<not> is_ok r \<and> sv_store sv' = st)"

definition not_running :: "session_id \<Rightarrow> run_id \<Rightarrow> memory_store \<Rightarrow> bool" where
  "not_running s i st \<longleftrightarrow> (\<forall>run. bt_get (ms_runs st) i = Some run \<longrightarrow> rn_session_id run = s \<longrightarrow> rn_status run \<noteq> Running)"

lemma refusedD: "refused st m \<Longrightarrow> sv_store sv = st \<Longrightarrow> m sv = Some (sv', r) \<Longrightarrow> \<not> is_ok r \<and> sv_store sv' = st"
  unfolding refused_def by (drule spec, drule spec, drule spec, drule (1) mp, drule (1) mp)

lemma refused_err: "refused st (op_err e)"
  by (simp add: refused_def op_of_def)

lemma refused_then:
  assumes "refused st m"
  shows "refused st (op_then m k)"
  unfolding refused_def
proof (intro allI impI)
  fix sv sv' r assume st: "sv_store sv = st" and run: "op_then m k sv = Some (sv', r)"
  from run show "\<not> is_ok r \<and> sv_store sv' = st"
  proof (cases rule: op_then_cases)
    case (error e)
    with refusedD [OF assms st error(1)] show ?thesis by simp
  next
    case (step sv1 x)
    from refusedD [OF assms st step(1)] show ?thesis by simp
  qed
qed

lemma refused_read_then: "(\<And>sv x. sv_store sv = st \<Longrightarrow> f sv \<noteq> Ok x) \<Longrightarrow> refused st (op_then (op_read f) k)"
  unfolding refused_def op_then_def op_read_def by (auto split: sum.splits)

lemma refused_locked:
  assumes "alone env" and "refused st m"
  shows "refused st (locked env m)"
  unfolding refused_def
proof (intro allI impI)
  fix sv sv' r assume st: "sv_store sv = st" and run: "locked env m sv = Some (sv', r)"
  from locked_alone [OF assms(1) run] obtain mid where mid: "sv_store mid = sv_store sv" "m mid = Some (sv', r)" .
  from mid(1) st have "sv_store mid = st" by (rule HOL.trans)
  from refusedD [OF assms(2) this mid(2)] show "\<not> is_ok r \<and> sv_store sv' = st" .
qed

lemma not_live: "not_running s i st \<Longrightarrow> sv_store sv = st \<Longrightarrow> live_owned_run s i sv \<noteq> Ok run"
  by (auto simp: not_running_def live_owned_run_Ok)

lemma refused_commits:
  assumes "alone env" and "not_running s i st"
  shows "refused st (commit_live_run_status_with_completion env s i status detail completion)"
    and "refused st (commit_live_event env s i event)"
    and "refused st (locked env (op_then (op_read (live_owned_run s i)) k))"
  unfolding commit_live_run_status_with_completion_def commit_live_event_def
  by (intro refused_locked [OF assms(1)] refused_read_then not_live [OF assms(2)], assumption)+

lemma refused_read: "(\<And>sv x. sv_store sv = st \<Longrightarrow> f sv \<noteq> Ok x) \<Longrightarrow> refused st (op_read f)"
  unfolding refused_def op_read_def is_ok_def by (auto split: sum.splits)

lemma refused_load_then:
  assumes "alone env" and "\<And>x. refused st (k x)"
  shows "refused st (op_then (load_run_projection env i) k)"
  unfolding refused_def
proof (intro allI impI)
  fix sv sv' r assume st: "sv_store sv = st" and run: "op_then (load_run_projection env i) k sv = Some (sv', r)"
  from run show "\<not> is_ok r \<and> sv_store sv' = st"
  proof (cases rule: op_then_cases)
    case (error e)
    from locked_alone [OF assms(1) error(1) [unfolded load_run_projection_def]] st error(2) show ?thesis
      by (auto simp: op_read_def)
  next
    case (step sv1 x)
    from locked_alone [OF assms(1) step(1) [unfolded load_run_projection_def]] st have "sv_store sv1 = st"
      by (auto simp: op_read_def)
    from refusedD [OF assms(2) this step(2)] show ?thesis .
  qed
qed

lemma refused_tick: "(\<And>n. refused st (k n)) \<Longrightarrow> refused st (op_tick k)"
  unfolding refused_def by (blast elim: op_tick_cases)

lemma refused_record:
  assumes "alone env" and "not_running s i st"
  shows "refused st (record_artifact_and_publish env s i kind path)"
proof -
  have "refused st (locked env (op_read (live_owned_run s i)))"
    by (intro refused_locked [OF assms(1)] refused_read not_live [OF assms(2)])
  then have "refused st (record_artifact env \<lparr>ac_id = j, ac_session_id = s, ac_run_id = i, ac_kind = kind,
      ac_storage_path = path\<rparr>)" for j
    unfolding record_artifact_def by (auto simp: Let_def intro: refused_err refused_then)
  then show ?thesis unfolding record_artifact_and_publish_def by (intro refused_tick refused_then)
qed

text \<open>
  C20. Once a run is not running, everything its agent still tells is refused: frames, details,
  usage, approvals, artifacts and the completion fail, and the store is as it was.
\<close>

theorem late_agents_change_nothing:
  assumes "alone env" and "not_running s i (sv_store sv)" and "\<And>p. call \<noteq> PushProviderSessionId p"
    and "sink_operation advance env s i call sv = Some (sv', r)"
  shows "\<not> is_ok r \<and> sv_store sv' = sv_store sv"
proof -
  let ?st = "sv_store sv"
  note commits = refused_commits [OF assms(1,2)]
  have published: "refused ?st (and_publish m)" if "refused ?st m" for m :: "('a, 'b, run_mutation_result) run_operation"
    unfolding and_publish_def using that by (rule refused_then)
  have complete: "refused ?st (complete_live_run_and_publish advance env s i detail res)" for detail res
    unfolding complete_live_run_and_publish_def complete_live_run_transition_def Let_def
    by (intro published refused_load_then [OF assms(1)]) (auto split: sum.split intro: refused_then commits)
  have asked: "refused ?st (request_approval_and_publish env s i q)" "refused ?st (resolve_approval_and_publish env s i v)" for q v
    unfolding request_approval_and_publish_def resolve_approval_and_publish_def
    by (simp_all add: refused_err published commits)
  have "refused ?st (sink_operation advance env s i call)"
    using assms(3)
    by (cases call)
      (auto simp: sink_operation_def emit_agent_stream_and_publish_def commit_live_agent_stream_def
        record_token_usage_and_publish_def emit_live_run_detail_and_publish_def commit_live_run_status_def
        intro: refused_then published commits asked complete refused_record assms)
  from refusedD [OF this HOL.refl assms(4)] show ?thesis .
qed

section \<open>Cancelling\<close>

text \<open>Operations that leave the store alone, alone.\<close>

lemma locked_kept:
  assumes "alone env" and "locked env m sv = Some (sv', r)" and "\<And>sv1 sv2 r. m sv1 = Some (sv2, r) \<Longrightarrow> sv_store sv2 = sv_store sv1"
  shows "sv_store sv' = sv_store sv"
  using locked_alone [OF assms(1,2)] assms(3) by metis

lemma look_kept:
  "op_update (\<lambda>sv. case f (sv_active sv) of (ow, x) \<Rightarrow> (sv\<lparr>sv_active := ow\<rparr>, x)) sv = Some (sv', r) \<Longrightarrow>
   sv_store sv' = sv_store sv"
  by (auto simp: op_update_def split: prod.splits)

lemma cancel_looks_kept:
  assumes "alone env"
  shows "cancel_looks env n i s sv = Some (sv', r) \<Longrightarrow> sv_store sv' = sv_store sv"
proof (induction n arbitrary: sv sv' r)
  case 0
  show ?case
    by (rule locked_kept [OF assms 0 [unfolded cancel_looks.simps]], erule op_then_cases)
      (auto dest!: look_kept split: cancel_look_result.splits simp: op_of_def elim!: op_then_cases)
next
  case (Suc n)
  show ?case
    by (rule locked_kept [OF assms Suc.prems [unfolded cancel_looks.simps]], erule op_then_cases)
      (auto dest!: look_kept Suc.IH split: cancel_look_result.splits simp: op_of_def elim!: op_then_cases)
qed

lemma cancel_live_kept:
  "alone env \<Longrightarrow> cancel_live_run env i s sv = Some (sv', r) \<Longrightarrow> sv_store sv' = sv_store sv"
  unfolding cancel_live_run_def by (erule op_tick_cases) (metis cancel_looks_kept)

text \<open>What an operation after the commit of a finished run leaves of it.\<close>

lemma finished_kept:
  fixes env :: "('h, 'w, 'j) service_env" and m :: "('h, 'w, 'a) run_operation"
  assumes "store_relation.related (\<lambda>st st'. keeps_run i env \<longrightarrow> keeps_finished i st st') m" and "keeps_run i env"
    and "m sv = Some (sv', r)" and "runs_keyed (sv_store sv)"
    and "bt_get (ms_runs (sv_store sv)) i = Some run" and "finished (rn_status run)"
  obtains run' where "bt_get (ms_runs (sv_store sv')) i = Some run'" "same_outcome run run'"
proof -
  have "keeps_finished i (sv_store sv) (sv_store sv')"
    using assms(1-3) unfolding outcomes.related_def outcomes.related_at_def by blast
  with assms(4-6) that show thesis unfolding keeps_finished_def by blast
qed

definition run_cancelled :: "run_id \<Rightarrow> memory_store \<Rightarrow> bool" where
  "run_cancelled i st \<longleftrightarrow> (\<exists>run. bt_get (ms_runs st) i = Some run \<and> rn_status run = Cancelled)"

lemma stays_cancelled:
  fixes env :: "('h, 'w, 'j) service_env" and m :: "('h, 'w, 'a) run_operation"
  assumes "store_relation.related (\<lambda>st st'. keeps_run i env \<longrightarrow> keeps_finished i st st') m" and "keeps_run i env"
    and "m sv = Some (sv', r)" and "runs_keyed (sv_store sv)"
  shows "runs_keyed (sv_store sv')" and "run_cancelled i (sv_store sv) \<Longrightarrow> run_cancelled i (sv_store sv')"
proof -
  have "keeps_finished i (sv_store sv) (sv_store sv')"
    using assms(1-3) unfolding outcomes.related_def outcomes.related_at_def by blast
  with assms(4) show "runs_keyed (sv_store sv')" by (simp add: keeps_finished_def)
  show "run_cancelled i (sv_store sv')" if c: "run_cancelled i (sv_store sv)"
  proof -
    from c obtain run where run: "bt_get (ms_runs (sv_store sv)) i = Some run" "rn_status run = Cancelled"
      by (auto simp: run_cancelled_def)
    from finished_kept [OF assms run(1)] run(2) obtain run' where
      "bt_get (ms_runs (sv_store sv')) i = Some run'" "same_outcome run run'" by (auto simp: finished_def)
    with run(2) same_outcome_status [of run run'] show ?thesis by (auto simp: run_cancelled_def)
  qed
qed

text \<open>What follows the commit of a cancellation.\<close>

definition cascade_below :: "nat \<Rightarrow> ('h, 'w) advance \<Rightarrow> ('h, 'w, 'j) service_env \<Rightarrow> session_id \<Rightarrow> approval_actor \<Rightarrow>
    string option \<Rightarrow> run_id \<Rightarrow> run_id set \<Rightarrow> run_projection \<Rightarrow> event_record list \<Rightarrow>
    ('h, 'w, run_mutation_result \<times> run_id set) run_operation" where
  "cascade_below fuel advance env s actor reason i visited run events =
     op_then (locked env (op_read (\<lambda>sv. Ok (cancellable_native_child_run_ids s (rn_id run) (insert i visited) sv)))) (\<lambda>children.
     op_then (each_child (\<lambda>j v. op_then (cancel_run_with_cascade fuel advance env s actor (Some (cancel_detail reason)) j v)
               (\<lambda>(r, v'). op_ok (mu_events r, v'))) children events (insert i visited)) (\<lambda>(events', visited').
     op_then (advance s (rn_id run) Cancelled) (\<lambda>promoted.
     op_ok (\<lparr>mu_run = project_run_summary run, mu_events = events' @ promoted\<rparr>, visited'))))"

lemma cascade_OkE:
  assumes "alone env"
    and "cancel_run_with_cascade (Suc fuel) advance env s actor reason i visited sv = Some (sv', Ok x)"
  obtains sv1 sv2 run events where "sv_store sv1 = sv_store sv"
    and "cancel_commit env s actor i (cancel_detail reason) sv1 = Some (sv2, Ok (run, events))"
    and "cascade_below fuel advance env s actor reason i visited run events sv2 = Some (sv', Ok x)"
proof -
  from assms(2) have "op_then (locked env (op_read (cancel_check s i))) (\<lambda>was_running.
      op_then (if was_running then cancel_live_run env i s else op_ok ()) (\<lambda>_.
      op_then (cancel_commit env s actor i (cancel_detail reason)) (\<lambda>(run, events).
        cascade_below fuel advance env s actor reason i visited run events))) sv = Some (sv', Ok x)"
    unfolding cascade_below_def by (auto simp: Let_def op_of_def split: if_splits)
  then obtain sv1 b where check: "locked env (op_read (cancel_check s i)) sv = Some (sv1, Ok b)"
    and rest: "op_then (if b then cancel_live_run env i s else op_ok ()) (\<lambda>_.
      op_then (cancel_commit env s actor i (cancel_detail reason)) (\<lambda>(run, events).
        cascade_below fuel advance env s actor reason i visited run events)) sv1 = Some (sv', Ok x)"
    by (rule op_then_OkE)
  from rest obtain sv2 u where live: "(if b then cancel_live_run env i s else op_ok ()) sv1 = Some (sv2, Ok u)"
    and rest: "op_then (cancel_commit env s actor i (cancel_detail reason)) (\<lambda>(run, events).
        cascade_below fuel advance env s actor reason i visited run events) sv2 = Some (sv', Ok x)"
    by (rule op_then_OkE)
  have "sv_store sv2 = sv_store sv1" using live cancel_live_kept [OF assms(1)] by (cases b) (auto simp: op_of_def)
  with locked_read_alone(1) [OF assms(1) check] have "sv_store sv2 = sv_store sv" by simp
  moreover from rest obtain sv3 y where "cancel_commit env s actor i (cancel_detail reason) sv2 = Some (sv3, Ok y)"
    "(case y of (run, events) \<Rightarrow> cascade_below fuel advance env s actor reason i visited run events) sv3 = Some (sv', Ok x)"
    by (rule op_then_OkE)
  ultimately show thesis using that by (cases y) auto
qed

lemma cascade_below_kept:
  fixes env :: "('h, 'w, 'j) service_env"
  shows "store_relation.related (\<lambda>st st'. keeps_run k env \<longrightarrow> keeps_finished k st st')
    (cascade_below fuel (advance_ready_queue n env) env s actor reason i visited run events)"
  and "store_relation.related (\<lambda>st st'. others_step env \<longrightarrow> stepped st st')
    (cascade_below fuel (advance_ready_queue n env) env s actor reason i visited run events)"
  unfolding cascade_below_def
  by (intro outcomes.related_then outcomes.related_locked_read outcomes.related_each_child outcomes.related_cascade
      outcomes.related_advance outcomes.advancing_queue outcomes.related_case_prod outcomes.related_of
      steps.related_then steps.related_locked_read steps.related_each_child steps.related_cascade
      steps.related_advance steps.advancing_queue steps.related_case_prod steps.related_of)+

lemma cascade_cancels:
  fixes env :: "('h, 'w, 'j) service_env"
  assumes "alone env" and "keeps_run i env" and "runs_keyed (sv_store sv)"
    and "cancel_run_with_cascade fuel (advance_ready_queue n env) env s actor reason i visited sv = Some (sv', Ok x)"
  shows "run_cancelled i (sv_store sv')"
proof (cases fuel)
  case 0
  with assms(4) show ?thesis by (simp add: op_none_def)
next
  case (Suc m)
  from cascade_OkE [OF assms(1) assms(4) [unfolded Suc]] obtain sv1 sv2 run events where sv1: "sv_store sv1 = sv_store sv"
    and commit: "cancel_commit env s actor i (cancel_detail reason) sv1 = Some (sv2, Ok (run, events))"
    and below: "cascade_below m (advance_ready_queue n env) env s actor reason i visited run events sv2 = Some (sv', Ok x)" .
  from cancel_commit_runs [OF assms(1) _ commit] assms(3) sv1 have "run_cancelled i (sv_store sv2)" "runs_keyed (sv_store sv2)"
    by (auto simp: run_cancelled_def)
  with stays_cancelled [OF cascade_below_kept(1) assms(2) below] show ?thesis by blast
qed

lemma each_child_cancels:
  fixes env :: "('h, 'w, 'j) service_env"
    and f :: "run_id \<Rightarrow> run_id set \<Rightarrow> ('h, 'w, event_record list \<times> run_id set) run_operation"
  assumes "\<And>j v sv sv' x. j \<in> set ids \<Longrightarrow> runs_keyed (sv_store sv) \<Longrightarrow> f j v sv = Some (sv', Ok x) \<Longrightarrow> run_cancelled j (sv_store sv')"
    and "\<And>j v k. store_relation.related (\<lambda>st st'. keeps_run k env \<longrightarrow> keeps_finished k st st') (f j v)"
    and "\<And>j. j \<in> set ids \<Longrightarrow> keeps_run j env"
    and "runs_keyed (sv_store sv)" and "each_child f ids events v sv = Some (sv', Ok x)"
  shows "\<forall>j\<in>set ids. run_cancelled j (sv_store sv')"
  using assms
proof (induction ids arbitrary: events v sv)
  case (Cons j ids)
  have all: "store_relation.related (\<lambda>st st'. keeps_run k env \<longrightarrow> keeps_finished k st st') (each_child f ids e w)" for k e w
    by (rule outcomes.related_each_child) (rule Cons.prems(2))
  from Cons.prems(5) obtain sv1 y where one: "f j v sv = Some (sv1, Ok y)"
    and rest: "(case y of (child_events, v') \<Rightarrow> each_child f ids (events @ child_events) v') sv1 = Some (sv', Ok x)"
    unfolding each_child.simps by (rule op_then_OkE)
  obtain e w where y: "y = (e, w)" by fastforce
  note rest = rest [unfolded y prod.case]
  note keep = Cons.prems(3) [of j, simplified]
  have keyed: "runs_keyed (sv_store sv1)" by (rule stays_cancelled(1) [OF Cons.prems(2) keep one Cons.prems(4)])
  have "run_cancelled j (sv_store sv1)" using Cons.prems(1) [OF _ Cons.prems(4) one] by simp
  with stays_cancelled(2) [OF all keep rest keyed] have "run_cancelled j (sv_store sv')" by blast
  moreover have "\<forall>j\<in>set ids. run_cancelled j (sv_store sv')"
    by (rule Cons.IH [OF _ Cons.prems(2) _ keyed rest]) (use Cons.prems(1,3) in auto)
  ultimately show ?case by simp
qed simp

text \<open>The runs started by a run as its native children.\<close>

definition native_child_of :: "run_id \<Rightarrow> run_projection \<Rightarrow> bool" where
  "native_child_of i run \<longleftrightarrow> (case rn_source run of SourceNativeSubagent p _ _ _ _ _ _ _ \<Rightarrow> p = i | _ \<Rightarrow> False)"

lemma children_listed:
  assumes "runs_keyed (sv_store sv)" and "bt_get (ms_runs (sv_store sv)) j = Some child"
    and "rn_session_id child = s" "native_child_of i child" "cancellable (rn_status child)" "j \<notin> insert i visited"
  shows "j \<in> set (cancellable_native_child_run_ids s i (insert i visited) sv)"
proof -
  have "rn_id child = j" using assms(1,2) by (simp add: runs_keyed_def)
  moreover have "child \<in> set (bt_values (ms_runs (sv_store sv)))" using assms(2) by (force dest: map_of_SomeD)
  ultimately show ?thesis using assms(3-6)
    unfolding cancellable_native_child_run_ids_def native_child_of_def by auto
qed

lemma listed_children: "j \<in> set (cancellable_native_child_run_ids s i visited sv) \<Longrightarrow>
    \<exists>run. run \<in> set (bt_values (ms_runs (sv_store sv))) \<and> rn_id run = j"
  unfolding cancellable_native_child_run_ids_def by auto

lemma below_cancels_children:
  fixes env :: "('h, 'w, 'j) service_env"
  assumes "alone env" and "\<And>run. run \<in> set (bt_values (ms_runs (sv_store sv))) \<Longrightarrow> keeps_run (rn_id run) env"
    and "runs_keyed (sv_store sv)" and "rn_id run = i"
    and "cascade_below fuel (advance_ready_queue n env) env s actor reason i visited run events sv = Some (sv', Ok x)"
    and "j \<in> set (cancellable_native_child_run_ids s i (insert i visited) sv)"
  shows "run_cancelled j (sv_store sv')"
proof -
  let ?f = "\<lambda>j v. op_then (cancel_run_with_cascade fuel (advance_ready_queue n env) env s actor (Some (cancel_detail reason)) j v)
               (\<lambda>(r, v'). op_ok (mu_events r, v'))"
  from assms(5) obtain sv1 children where
    look: "locked env (op_read (\<lambda>sv. Ok (cancellable_native_child_run_ids s (rn_id run) (insert i visited) sv))) sv = Some (sv1, Ok children)"
    and rest: "op_then (each_child ?f children events (insert i visited)) (\<lambda>(events', visited').
      op_then (advance_ready_queue n env s (rn_id run) Cancelled) (\<lambda>promoted.
      op_ok (\<lparr>mu_run = project_run_summary run, mu_events = events' @ promoted\<rparr>, visited'))) sv1 = Some (sv', Ok x)"
    unfolding cascade_below_def by (rule op_then_OkE)
  from locked_read_alone [OF assms(1) look] have sv1: "sv_store sv1 = sv_store sv"
    and children: "children = cancellable_native_child_run_ids s i (insert i visited) sv1" using assms(4) by simp_all
  then have same: "children = cancellable_native_child_run_ids s i (insert i visited) sv"
    by (simp add: cancellable_native_child_run_ids_def)
  have keep: "keeps_run k env" if "k \<in> set children" for k using listed_children that assms(2) unfolding same by blast
  have keyed: "runs_keyed (sv_store sv1)" using assms(3) sv1 by simp
  from rest obtain sv2 y where each: "each_child ?f children events (insert i visited) sv1 = Some (sv2, Ok y)"
    and last: "(case y of (events', visited') \<Rightarrow>
      op_then (advance_ready_queue n env s (rn_id run) Cancelled) (\<lambda>promoted.
      op_ok (\<lparr>mu_run = project_run_summary run, mu_events = events' @ promoted\<rparr>, visited'))) sv2 = Some (sv', Ok x)"
    by (rule op_then_OkE)
  have f: "store_relation.related (\<lambda>st st'. keeps_run k env \<longrightarrow> keeps_finished k st st') (?f j v)" for j v k
    by (intro outcomes.related_then outcomes.related_cascade outcomes.advancing_queue outcomes.related_case_prod outcomes.related_of)
  have done': "store_relation.related (\<lambda>st st'. keeps_run k env \<longrightarrow> keeps_finished k st st') (case y of (events', visited') \<Rightarrow>
      op_then (advance_ready_queue n env s (rn_id run) Cancelled) (\<lambda>promoted.
      op_ok (\<lparr>mu_run = project_run_summary run, mu_events = events' @ promoted\<rparr>, visited')))" for k
    by (intro outcomes.related_then outcomes.related_advance outcomes.advancing_queue outcomes.related_case_prod outcomes.related_of)
  have one: "run_cancelled k (sv_store b)" if "k \<in> set children" "runs_keyed (sv_store a)" "?f k v a = Some (b, Ok z)" for k v a b z
    using that(3) by (rule op_then_OkE)
      (auto simp: op_of_def intro: cascade_cancels [OF assms(1) keep [OF that(1)] that(2)] split: prod.splits)
  have j: "j \<in> set children" using assms(6) same by simp
  have "run_cancelled j (sv_store sv2)"
    by (rule each_child_cancels [OF _ f keep keyed each, THEN bspec, OF _ _ j]) (rule one; assumption)+
  moreover have "runs_keyed (sv_store sv2)"
    by (rule stays_cancelled(1) [OF outcomes.related_each_child [OF f] keep [OF j] each keyed])
  ultimately show ?thesis using stays_cancelled(2) [OF done' keep [OF j] last] by blast
qed

text \<open>The approvals that were open when the commit was made are answered by it, and stay so.\<close>

lemma cancel_answers_approvals:
  fixes env :: "('h, 'w, 'j) service_env"
  assumes "alone env" and "store_ok (sv_store sv)" and "ms_next_event_sequence (sv_store sv') < u64_max"
    and "cancel_run_with_cascade fuel (advance_ready_queue n env) env s actor reason i visited sv = Some (sv', Ok x)"
    and "bt_get (ms_runs (sv_store sv)) i = Some old" and "rn_status old \<noteq> Queued"
    and "approvals_for_session \<lparr>aq_session_id = s, aq_run_id = Some i, aq_approval_id = None\<rparr> (sv_store sv) = Ok pending"
    and "a \<in> set pending"
  shows "\<exists>entry\<in>set (session_records s (sv_store sv')). \<exists>v. ev_payload entry = EvApproval (ApprovalResolved v) \<and>
    rs_approval_id v = rq_id a \<and> rs_decision v = Rejected \<and> rs_reason v = ByCancelled"
proof -
  let ?q = "\<lparr>aq_session_id = s, aq_run_id = Some i, aq_approval_id = None\<rparr>"
  from assms(4) obtain m where m: "fuel = Suc m" by (cases fuel) (auto simp: op_none_def)
  from cascade_OkE [OF assms(1) assms(4) [unfolded m]] obtain sv1 sv2 run events where sv1: "sv_store sv1 = sv_store sv"
    and commit: "cancel_commit env s actor i (cancel_detail reason) sv1 = Some (sv2, Ok (run, events))"
    and below: "cascade_below m (advance_ready_queue n env) env s actor reason i visited run events sv2 = Some (sv', Ok x)" .
  have keyed: "runs_keyed (sv_store sv1)" using assms(2) sv1 by (auto simp: store_ok_def refs_ok_def runs_keyed_def)
  have "others_step env" using assms(1) by (simp add: alone_def others_step_def stepped_refl)
  with cascade_below_kept(2) below have "stepped (sv_store sv2) (sv_store sv')"
    unfolding steps.related_def steps.related_at_def by blast
  with assms(3) have later: "ms_next_event_sequence (sv_store sv2) < u64_max" "store_step\<^sup>*\<^sup>* (sv_store sv2) (sv_store sv')"
    by (auto simp: stepped_def)
  from cancel_commit_Ok [OF assms(1) keyed commit] obtain old' answers n mid c where old': "bt_get (ms_runs (sv_store sv1)) i = Some old'"
    and mid: "sv_store mid = sv_store sv1"
    and answers: "if rn_status old' = Queued then answers = [] else rejections s i ByCancelled actor (cancel_detail reason) mid = Ok answers"
    and fin: "commit_transition s (old'\<lparr>rn_status := Cancelled\<rparr>)
       (answers @ [run_status_event i Cancelled (cancel_detail reason) (recipe_id_for_run (old'\<lparr>rn_status := Cancelled\<rparr>))])
       (se_now env n) mid = Some (sv2, Ok c)" .
  have "old' = old" using old' sv1 assms(5) by simp
  with answers assms(6) have rejected: "rejections s i ByCancelled actor (cancel_detail reason) mid = Ok answers" by simp
  have ok: "store_ok (sv_store mid)" using assms(2) mid sv1 by simp
  from approvals_open [OF assms(2), of ?q] assms(7) have "pending = rev (map snd (open_requests (session_records s (sv_store mid)) ?q))"
    using mid sv1 by simp
  with assms(8) obtain k where "(k, a) \<in> set (open_requests (session_records s (sv_store mid)) ?q)" by auto
  from rejections_answer [OF rejected ok this] obtain v where v: "EvApproval (ApprovalResolved v) \<in> set answers"
    "rs_approval_id v = rq_id a" "rs_decision v = Rejected" "rs_reason v = ByCancelled" by blast
  from commit_log [OF ok later(1) fin] obtain new where
    log: "session_records s (sv_store sv2) = session_records s (sv_store mid) @ new" and
    new: "map ev_payload new = filter durable (answers @
      [run_status_event i Cancelled (cancel_detail reason) (recipe_id_for_run (old'\<lparr>rn_status := Cancelled\<rparr>))])" and
    ok2: "store_ok (sv_store sv2)" .
  have "EvApproval (ApprovalResolved v) \<in> set (map ev_payload new)" unfolding new using v(1) by (simp add: answers_durable)
  then obtain entry where entry: "entry \<in> set new" "ev_payload entry = EvApproval (ApprovalResolved v)" by force
  from store_steps_evolve [OF later(2) ok2] obtain more where "store_log (sv_store sv') = store_log (sv_store sv2) @ more"
    unfolding evolves_def by blast
  then have "session_records s (sv_store sv') = session_records s (sv_store sv2) @ filter (\<lambda>r. ev_session_id r = s) more"
    by (simp add: session_records_log)
  with entry(1) log have "entry \<in> set (session_records s (sv_store sv'))" by simp
  with entry(2) v(2-4) show ?thesis by blast
qed

text \<open>
  C13. A cancellation that is answered has settled everything: the run is cancelled in the store, and so is every native child
  of it that could still be cancelled, whatever the cancellations of the children and the promotions from the queue have done
  afterwards. If the run was running or waiting for an approval, each approval of it that was open is answered in the log by a rejection
  that gives the cancellation as its reason. No other thread commits meanwhile, no new run is given the identifier of an existing
  one, and the log's counter stays below its largest value.
\<close>

theorem cancel_settles_the_run:
  fixes env :: "('h, 'w, 'j) service_env"
  assumes "alone env" and "\<forall>run\<in>set (bt_values (ms_runs (sv_store sv))). keeps_run (rn_id run) env"
    and "store_ok (sv_store sv)" and "ms_next_event_sequence (sv_store sv') < u64_max"
    and "cancel_run (advance_ready_queue fuel env) env s actor i reason sv = Some (sv', Ok r)"
  shows "run_cancelled i (sv_store sv') \<and>
    (\<forall>j child. bt_get (ms_runs (sv_store sv)) j = Some child \<and> rn_session_id child = s \<and> native_child_of i child \<and>
       cancellable (rn_status child) \<longrightarrow> run_cancelled j (sv_store sv')) \<and>
    (\<forall>old pending. bt_get (ms_runs (sv_store sv)) i = Some old \<and> rn_status old \<noteq> Queued \<and>
       approvals_for_session \<lparr>aq_session_id = s, aq_run_id = Some i, aq_approval_id = None\<rparr> (sv_store sv) = Ok pending \<longrightarrow>
       (\<forall>a\<in>set pending. \<exists>entry\<in>set (session_records s (sv_store sv')). \<exists>v. ev_payload entry = EvApproval (ApprovalResolved v) \<and>
          rs_approval_id v = rq_id a \<and> rs_decision v = Rejected \<and> rs_reason v = ByCancelled))"
proof -
  from assms(5) obtain x where cascade: "cancel_run_with_cascade (Suc (max_native_child_cancel_cascade_runs + 1))
      (advance_ready_queue fuel env) env s actor reason i {} sv = Some (sv', Ok x)"
    unfolding cancel_run_def by (rule op_then_OkE) (simp del: cancel_run_with_cascade.simps add: op_of_def split: prod.splits)
  from cascade_OkE [OF assms(1) cascade] obtain sv1 sv2 run events where sv1: "sv_store sv1 = sv_store sv"
    and commit: "cancel_commit env s actor i (cancel_detail reason) sv1 = Some (sv2, Ok (run, events))"
    and below: "cascade_below (max_native_child_cancel_cascade_runs + 1) (advance_ready_queue fuel env) env s actor reason i {} run events sv2 =
      Some (sv', Ok x)" .
  have keyed: "runs_keyed (sv_store sv)" using assms(3) by (auto simp: store_ok_def refs_ok_def runs_keyed_def)
  note cc = cancel_commit_runs [OF assms(1) _ commit, unfolded sv1, OF keyed]
  from cancel_commit_Ok [OF assms(1) _ commit, unfolded sv1, OF keyed] obtain old where
    old: "bt_get (ms_runs (sv_store sv)) i = Some old" by blast
  have known: "keeps_run j env" if "bt_get (ms_runs (sv_store sv)) j = Some q" for j q
  proof -
    have "q \<in> set (bt_values (ms_runs (sv_store sv)))" using that by (force dest: map_of_SomeD)
    moreover have "rn_id q = j" using keyed that by (simp add: runs_keyed_def)
    ultimately show ?thesis using assms(2) by blast
  qed
  have i: "run_cancelled i (sv_store sv')" by (rule cascade_cancels [OF assms(1) known [OF old] keyed cascade])
  have "run_cancelled j (sv_store sv')" if child: "bt_get (ms_runs (sv_store sv)) j = Some child" "rn_session_id child = s"
    "native_child_of i child" "cancellable (rn_status child)" for j child
  proof (cases "j = i")
    case False
    with child(1) cc(5) have "bt_get (ms_runs (sv_store sv2)) j = Some child" by simp
    from children_listed [OF cc(4) this child(2-4), of "{}"] False
    have listed: "j \<in> set (cancellable_native_child_run_ids s i (insert i {}) sv2)" by simp
    have "keeps_run (rn_id q) env" if "q \<in> set (bt_values (ms_runs (sv_store sv2)))" for q
    proof -
      have "rn_id q \<in> rn_id ` set (bt_values (ms_runs (sv_store sv2)))" using that by (rule imageI)
      then have "rn_id q \<in> insert i (rn_id ` set (bt_values (ms_runs (sv_store sv))))"
        using cancel_commit_ids [OF assms(1) _ commit, unfolded sv1, OF keyed] by (rule rev_subsetD)
      then show ?thesis using known [OF old] assms(2) by auto
    qed
    from below_cancels_children [OF assms(1) this cc(4,3) below listed] show ?thesis .
  qed (use i in simp)
  moreover note cancel_answers_approvals [OF assms(1,3,4) cascade]
  ultimately show ?thesis using i by blast
qed

section \<open>Completions and the output contract\<close>

lemma load_alone:
  assumes "alone env" and "load_run_projection env i sv = Some (sv', r)"
  shows "sv_store sv' = sv_store sv" and "r = stored_run i sv"
  using locked_alone [OF assms(1) assms(2) [unfolded load_run_projection_def]]
  by (auto simp: op_read_def stored_run_def)

lemma op_read_cases:
  assumes "op_then (op_read f) k sv = Some (sv', Ok r)"
  obtains x where "f sv = Ok x" "k x sv = Some (sv', Ok r)"
  using assms by (cases rule: op_then_cases) (auto simp: op_read_def)

text \<open>The commit of a live run, alone: it starts from the stored run.\<close>

lemma live_commit_alone:
  assumes "alone env" and "bt_get (ms_runs (sv_store sv)) i = Some run"
    and "locked env (op_then (op_read (live_owned_run s i)) (\<lambda>run. op_tick (\<lambda>n.
      op_then (commit_transition s (f run) (g run n) (se_now env n)) k))) sv = Some (sv', Ok r)"
  obtains mid n c sv1 where "sv_store mid = sv_store sv" and "k c sv1 = Some (sv', Ok r)"
    and "commit_transition s (f run) (g run n) (se_now env n) mid = Some (sv1, Ok c)"
proof -
  from locked_alone [OF assms(1,3)] obtain mid where mid: "sv_store mid = sv_store sv" and
    steps: "op_then (op_read (live_owned_run s i)) (\<lambda>run. op_tick (\<lambda>n.
      op_then (commit_transition s (f run) (g run n) (se_now env n)) k)) mid = Some (sv', Ok r)" .
  from steps obtain x where x: "live_owned_run s i mid = Ok x" and
    tick: "op_tick (\<lambda>n. op_then (commit_transition s (f x) (g x n) (se_now env n)) k) mid = Some (sv', Ok r)"
    by (rule op_read_cases)
  from x have "x = run" using assms(2) mid by (auto simp: live_owned_run_Ok)
  from tick obtain n mid' where mid': "sv_store mid' = sv_store mid" and
    last: "op_then (commit_transition s (f x) (g x n) (se_now env n)) k mid' = Some (sv', Ok r)"
    by (rule op_tick_cases)
  from last show thesis
  proof (cases rule: op_then_cases)
    case (step sv1 c)
    with mid mid' \<open>x = run\<close> show thesis by (intro that [of mid' c sv1 n]) simp_all
  qed simp
qed

lemma live_status_alone:
  assumes "alone env" and "store_ok (sv_store sv)" and "bt_get (ms_runs (sv_store sv)) i = Some run"
    and "commit_live_run_status_with_completion env s i status detail completion sv = Some (sv', Ok r)"
  obtains run' where "bt_get (ms_runs (sv_store sv')) i = Some run'" "runs_keyed (sv_store sv')"
    "same_outcome (run\<lparr>rn_status := status,
       rn_result := (if rcp_contract_violation completion = None then rcp_result completion else None),
       rn_contract_violation := rcp_contract_violation completion\<rparr>) run'"
proof -
  have id: "rn_id run = i" and keyed: "runs_keyed (sv_store sv)"
    using assms(2,3) by (auto simp: store_ok_def refs_ok_def runs_keyed_def)
  from live_commit_alone [OF assms(1,3) assms(4) [unfolded commit_live_run_status_with_completion_def]]
  show thesis
  proof cases
    case (1 mid n c sv1)
    then have "sv1 = sv'" by (simp add: op_of_def)
    with commit_Ok [OF 1(3)] id keyed 1(1) show thesis by (intro that [of "cr_run c"]) auto
  qed
qed

lemma live_commit_errors:
  "commit_live_run_status_with_completion env s i status detail completion sv = Some (sv', Err (OutputContractViolation v)) \<Longrightarrow> False"
  "commit_live_run_status_with_completion env s i status detail completion sv = Some (sv', Err (RunBudgetExceeded t)) \<Longrightarrow> False"
  unfolding commit_live_run_status_with_completion_def
  by (auto simp: locked_def op_tick_def op_then_def op_read_def op_of_def commit_transition_def op_store_def map_err_def
      live_owned_run_def session_run_def stored_run_def try_then_def split: option.splits sum.splits if_splits prod.splits)

text \<open>A commit that fails leaves the run as it was.\<close>

lemma failed_commit_run:
  assumes "commit_transition s run events now sv = Some (sv', Err e)"
  shows "ms_runs (sv_store sv') = ms_runs (sv_store sv)"
proof -
  let ?input = "\<lparr>ct_session_id = s, ct_run = run, ct_events = events, ct_occurred_at_ms = now\<rparr>"
  from assms obtain x where "commit_run_transition ?input (sv_store sv) = (sv_store sv', Err x)"
    by (auto simp: commit_transition_def op_store_def map_err_def split: prod.splits sum.splits)
  then show ?thesis
  proof (cases rule: run_transition_cases)
    case (failed session st1 e)
    then show ?thesis using emit_events_runs [OF failed(2)] by simp
  next
    case (committed session em pe st1)
    from finish_transition_fields(11) [OF committed(3)] show ?thesis by auto
  qed simp
qed

lemma failed_locked_commit:
  assumes "alone env" and "locked env (op_then (op_read f) (\<lambda>run. op_tick (\<lambda>n.
      op_then (commit_transition s (g run) (h run) (se_now env n)) (\<lambda>c. op_ok (k c))))) sv = Some (sv', Err e)"
  shows "ms_runs (sv_store sv') = ms_runs (sv_store sv)"
proof -
  from locked_alone [OF assms] obtain mid where mid: "sv_store mid = sv_store sv" and
    steps: "op_then (op_read f) (\<lambda>run. op_tick (\<lambda>n.
      op_then (commit_transition s (g run) (h run) (se_now env n)) (\<lambda>c. op_ok (k c)))) mid = Some (sv', Err e)" .
  show ?thesis
  proof (cases "f mid")
    case (Inl x)
    with steps mid show ?thesis by (simp add: op_then_def op_read_def)
  next
    case (Inr run)
    with steps have tick: "op_tick (\<lambda>n. op_then (commit_transition s (g run) (h run) (se_now env n)) (\<lambda>c. op_ok (k c))) mid =
      Some (sv', Err e)" by (simp add: op_then_def [of "op_read f"] op_read_def)
    then obtain n mid' where mid': "sv_store mid' = sv_store mid"
      and last: "op_then (commit_transition s (g run) (h run) (se_now env n)) (\<lambda>c. op_ok (k c)) mid' = Some (sv', Err e)"
      by (rule op_tick_cases)
    from last show ?thesis
    proof (cases rule: op_then_cases)
      case (error x)
      with failed_commit_run [OF error(1)] mid mid' show ?thesis by simp
    qed (simp add: op_of_def)
  qed
qed

lemma failed_live_commit:
  assumes "alone env" and "commit_live_run_status_with_completion env s i status detail completion sv = Some (sv', Err e)"
  shows "ms_runs (sv_store sv') = ms_runs (sv_store sv)"
  by (rule failed_locked_commit [OF assms(1) assms(2) [unfolded commit_live_run_status_with_completion_def]])

lemma after_status:
  fixes env :: "('h, 'w, 'j) service_env"
  assumes "alone env" and "keeps_run i env" and "store_ok (sv_store sv)" and "bt_get (ms_runs (sv_store sv)) i = Some run"
    and "finished status"
    and "op_then (commit_live_run_status_with_completion env s i status detail completion) k sv = Some (sv', out)"
    and "\<And>c. store_relation.related (\<lambda>st st'. keeps_run i env \<longrightarrow> keeps_finished i st st') (k c)"
    and "\<And>e. commit_live_run_status_with_completion env s i status detail completion sv = Some (sv', Err e) \<Longrightarrow> out = Err e \<Longrightarrow> P"
    and "\<And>run'. bt_get (ms_runs (sv_store sv')) i = Some run' \<Longrightarrow> same_outcome (run\<lparr>rn_status := status,
       rn_result := (if rcp_contract_violation completion = None then rcp_result completion else None),
       rn_contract_violation := rcp_contract_violation completion\<rparr>) run' \<Longrightarrow> P"
  shows P
  using assms(6)
proof (cases rule: op_then_cases)
  case (error e)
  then show P by (rule assms(8))
next
  case (step sv1 c)
  let ?new = "run\<lparr>rn_status := status,
       rn_result := (if rcp_contract_violation completion = None then rcp_result completion else None),
       rn_contract_violation := rcp_contract_violation completion\<rparr>"
  from live_status_alone [OF assms(1,3,4) step(1)] obtain run1 where run1: "bt_get (ms_runs (sv_store sv1)) i = Some run1"
    "runs_keyed (sv_store sv1)" "same_outcome ?new run1" .
  have "finished (rn_status run1)" using same_outcome_status [OF run1(3)] assms(5) by simp
  from finished_kept [OF assms(7,2) step(2) run1(2,1) this] obtain run' where
    "bt_get (ms_runs (sv_store sv')) i = Some run'" "same_outcome run1 run'" .
  with run1(3) show P by (blast intro: assms(9) same_outcome_trans)
qed

text \<open>What a contract asks of a reported result: one of its own kind that meets it; without a contract, nothing.\<close>

definition payload_fits :: "output_contract_kind option \<Rightarrow> capsule_result option \<Rightarrow> bool" where
  "payload_fits contract res \<longleftrightarrow> (\<forall>kind. contract = Some kind \<longrightarrow> (\<exists>r. res = Some r \<and> contract_kind r = kind \<and> meets_contract r))"

lemma payload_validated: "is_ok (validate_completion_payload contract res) \<longleftrightarrow> payload_fits contract res"
  by (auto simp: validate_completion_payload_def payload_fits_def is_ok_iff validate_ok_iff split: option.splits)

text \<open>
  C16. A completion obeys the output contract of the run. One that is accepted has reported a result of the contract's kind that
  meets it (or none was asked for), and has left the run completed with exactly that result. One whose result does not fit
  is never accepted: the run has failed, with no result and the violation recorded, or it is exactly as it was, because the
  commit was refused (the run was not live any more, say), and then the answer is another error than the violation. Whatever
  the promotions that follow do, this stays so; no other thread commits meanwhile, and no new run is given the run's identifier.
\<close>

theorem completion_obeys_the_contract:
  fixes env :: "('h, 'w, 'j) service_env"
  assumes "alone env" and "keeps_run i env" and "store_ok (sv_store sv)"
    and run: "bt_get (ms_runs (sv_store sv)) i = Some run"
    and completed: "complete_live_run_transition (advance_ready_queue fuel env) env s i detail res sv = Some (sv', out)"
  shows "(is_ok out \<longrightarrow> payload_fits (output_contract_for_run run) res \<and>
      (\<exists>run'. bt_get (ms_runs (sv_store sv')) i = Some run' \<and> rn_status run' = Completed \<and>
        rn_result run' = res \<and> rn_contract_violation run' = None)) \<and>
    (\<not> payload_fits (output_contract_for_run run) res \<longrightarrow>
      (\<exists>run'. bt_get (ms_runs (sv_store sv')) i = Some run' \<and>
        (rn_status run' = Failed \<and> rn_result run' = None \<and> rn_contract_violation run' \<noteq> None \<or>
         run' = run \<and> (\<forall>v. out \<noteq> Err (OutputContractViolation v)))))"
proof -
  from completed obtain sv1 where sv1: "sv_store sv1 = sv_store sv" and
    rest: "(let output_contract = output_contract_for_run run in
      case validate_completion_payload output_contract res of
        Inl violation \<Rightarrow> op_then (commit_live_run_status_with_completion env s i Failed (se_validation_text env violation)
              \<lparr>rcp_output_contract = output_contract, rcp_result = res, rcp_contract_violation = Some violation\<rparr>) (\<lambda>committed.
            op_then (append_completion_receipt env run (mu_events committed) output_contract res ReceiptToQuarantine) (\<lambda>receipts.
            op_then (advance_ready_queue fuel env s i Failed) (\<lambda>promoted.
            op_then (publish_records (mu_events committed @ receipts @ promoted)) (\<lambda>_.
            op_err (OutputContractViolation violation)))))
      | Inr u \<Rightarrow> op_then (commit_live_run_status_with_completion env s i Completed detail
              \<lparr>rcp_output_contract = output_contract, rcp_result = res, rcp_contract_violation = None\<rparr>) (\<lambda>committed.
            op_then (append_completion_receipt env run (mu_events committed) output_contract res ReceiptToPromote) (\<lambda>receipts.
            op_then (advance_ready_queue fuel env s i Completed) (\<lambda>promoted.
            op_ok \<lparr>mu_run = mu_run committed, mu_events = mu_events committed @ receipts @ promoted\<rparr>)))) sv1 = Some (sv', out)"
    unfolding complete_live_run_transition_def
  proof (cases rule: op_then_cases)
    case (error e)
    from load_alone [OF assms(1) error(1)] run show ?thesis by (simp add: stored_run_def)
  next
    case (step sv1 x)
    from load_alone [OF assms(1) step(1)] run have "sv_store sv1 = sv_store sv" "x = run" by (simp_all add: stored_run_def)
    with step(2) show ?thesis by (intro that [of sv1]) (simp_all only:)
  qed
  let ?payload = "validate_completion_payload (output_contract_for_run run) res"
  have stored: "store_ok (sv_store sv1)" "bt_get (ms_runs (sv_store sv1)) i = Some run"
    using assms(3) run by (simp_all add: sv1)
  note adv = outcomes.related_advance [OF outcomes.advancing_queue]
  show ?thesis
  proof (cases ?payload)
    case (Inl v)
    from rest Inl have violated: "op_then (commit_live_run_status_with_completion env s i Failed (se_validation_text env v)
        \<lparr>rcp_output_contract = output_contract_for_run run, rcp_result = res, rcp_contract_violation = Some v\<rparr>) (\<lambda>committed.
      op_then (append_completion_receipt env run (mu_events committed) (output_contract_for_run run) res ReceiptToQuarantine) (\<lambda>receipts.
      op_then (advance_ready_queue fuel env s i Failed) (\<lambda>promoted.
      op_then (publish_records (mu_events committed @ receipts @ promoted)) (\<lambda>_.
      op_err (OutputContractViolation v))))) sv1 = Some (sv', out)" by (simp add: Let_def)
    have "\<not> is_ok out" using violated by (auto simp: op_then_def op_of_def is_ok_def split: option.splits sum.splits)
    moreover have "\<not> payload_fits (output_contract_for_run run) res"
      using payload_validated [of "output_contract_for_run run" res] Inl by simp
    moreover have "\<exists>run'. bt_get (ms_runs (sv_store sv')) i = Some run' \<and>
        (rn_status run' = Failed \<and> rn_result run' = None \<and> rn_contract_violation run' \<noteq> None \<or>
         run' = run \<and> (\<forall>v. out \<noteq> Err (OutputContractViolation v)))"
    proof (rule after_status [OF assms(1,2) stored _ violated])
      fix e assume e: "commit_live_run_status_with_completion env s i Failed (se_validation_text env v)
          \<lparr>rcp_output_contract = output_contract_for_run run, rcp_result = res, rcp_contract_violation = Some v\<rparr> sv1 = Some (sv', Err e)"
        and out: "out = Err e"
      from failed_live_commit [OF assms(1) e] stored(2) have "bt_get (ms_runs (sv_store sv')) i = Some run" by simp
      moreover have "out \<noteq> Err (OutputContractViolation w)" for w using live_commit_errors(1) e out by blast
      ultimately show ?thesis by blast
    qed (auto simp: finished_def dest: same_outcome_fields same_outcome_status
          intro: adv outcomes.related_then outcomes.related_append outcomes.related_publish outcomes.related_of)
    ultimately show ?thesis by simp
  next
    case (Inr u)
    from rest Inr have valid: "op_then (commit_live_run_status_with_completion env s i Completed detail
        \<lparr>rcp_output_contract = output_contract_for_run run, rcp_result = res, rcp_contract_violation = None\<rparr>) (\<lambda>committed.
      op_then (append_completion_receipt env run (mu_events committed) (output_contract_for_run run) res ReceiptToPromote) (\<lambda>receipts.
      op_then (advance_ready_queue fuel env s i Completed) (\<lambda>promoted.
      op_ok \<lparr>mu_run = mu_run committed, mu_events = mu_events committed @ receipts @ promoted\<rparr>))) sv1 = Some (sv', out)"
      by (simp add: Let_def)
    have "\<exists>run'. bt_get (ms_runs (sv_store sv')) i = Some run' \<and> rn_status run' = Completed \<and> rn_result run' = res \<and>
        rn_contract_violation run' = None" if "is_ok out"
      by (rule after_status [OF assms(1,2) stored _ valid])
        (use that in \<open>auto simp: finished_def dest: same_outcome_fields same_outcome_status
          intro: adv outcomes.related_then outcomes.related_append outcomes.related_of\<close>)
    moreover have "payload_fits (output_contract_for_run run) res"
      using payload_validated [of "output_contract_for_run run" res] Inr by simp
    ultimately show ?thesis by simp
  qed
qed

section \<open>Budgets\<close>

lemma cancel_looks_errors: "cancel_looks env n i s sv = Some (sv', Err e) \<Longrightarrow> \<exists>t. e = ProviderExecutionFailed t"
proof (induction n arbitrary: sv)
  case 0
  then show ?case
    by (auto simp: locked_def op_tick_def op_then_def op_update_def op_of_def map_err_def
        split: prod.splits cancel_look_result.splits sum.splits)
next
  case (Suc n)
  then show ?case
    by (auto simp: locked_def op_tick_def op_then_def op_update_def op_of_def map_err_def
        split: prod.splits cancel_look_result.splits sum.splits)
qed

lemma stored_run_errors: "session_run s i sv = Err e \<Longrightarrow> e \<noteq> RunBudgetExceeded t"
  by (auto simp: session_run_def stored_run_def try_then_def split: option.splits if_splits sum.splits)

lemma session_run_store: "sv_store sv = sv_store sv' \<Longrightarrow> session_run s i sv = session_run s i sv'"
  by (simp add: session_run_def stored_run_def)

text \<open>The locked section that fails the run.\<close>

definition budget_section :: "('h, 'w, 'j) service_env \<Rightarrow> session_id \<Rightarrow> run_id \<Rightarrow> budget_projection \<Rightarrow> budget_exceeded \<Rightarrow>
    nat \<Rightarrow> ('h, 'w, (run_id \<times> event_record list) option) run_operation" where
  "budget_section env s i projection x now =
     locked env (op_then (op_read (session_run s i)) (\<lambda>run.
       if rn_status run \<noteq> Running then op_ok None
       else op_then (op_read (rejections s i ByBudgetExceeded daemon_actor ''budget_exceeded'')) (\<lambda>rejected.
         let run' = run\<lparr>rn_status := BudgetExceeded\<rparr>
         in op_then (commit_transition s run'
              ([EvBudget (BudgetEvExceeded (budget_exceeded_event_of projection x))] @ rejected @
               [run_status_event i BudgetExceeded (redacted_reason x) (recipe_id_for_run run')]) now)
            (\<lambda>committed. op_ok (Some (rn_id (cr_run committed), cr_events committed))))))"

lemma budget_section_alone:
  assumes "alone env" and "store_ok (sv_store sv)" and "bt_get (ms_runs (sv_store sv)) i = Some run"
    and "budget_section env s i projection x now sv = Some (sv', r)"
  shows "case r of
      Inl e \<Rightarrow> \<forall>t. e \<noteq> RunBudgetExceeded t
    | Inr None \<Rightarrow> rn_status run \<noteq> Running \<and> sv_store sv' = sv_store sv
    | Inr (Some _) \<Rightarrow> rn_status run = Running \<and> runs_keyed (sv_store sv') \<and>
        (\<exists>run'. bt_get (ms_runs (sv_store sv')) i = Some run' \<and> rn_status run' = BudgetExceeded)"
proof -
  have id: "rn_id run = i" and keyed: "runs_keyed (sv_store sv)"
    using assms(2,3) by (auto simp: store_ok_def refs_ok_def runs_keyed_def)
  from locked_alone [OF assms(1) assms(4) [unfolded budget_section_def]] obtain mid where mid: "sv_store mid = sv_store sv" and
    steps: "op_then (op_read (session_run s i)) (\<lambda>run.
       if rn_status run \<noteq> Running then op_ok None
       else op_then (op_read (rejections s i ByBudgetExceeded daemon_actor ''budget_exceeded'')) (\<lambda>rejected.
         let run' = run\<lparr>rn_status := BudgetExceeded\<rparr>
         in op_then (commit_transition s run'
              ([EvBudget (BudgetEvExceeded (budget_exceeded_event_of projection x))] @ rejected @
               [run_status_event i BudgetExceeded (redacted_reason x) (recipe_id_for_run run')]) now)
            (\<lambda>committed. op_ok (Some (rn_id (cr_run committed), cr_events committed))))) mid = Some (sv', r)" .
  show ?thesis
  proof (cases "session_run s i mid")
    case (Inl e)
    with steps stored_run_errors [OF Inl] show ?thesis by (auto simp: op_then_def op_read_def)
  next
    case (Inr y)
    then have y: "y = run" using assms(3) mid by (simp add: session_run_Ok)
    show ?thesis
    proof (cases "rn_status run = Running")
      case False
      with steps Inr y mid show ?thesis by (auto simp: op_then_def op_read_def op_of_def)
    next
      case True
      with steps Inr y have next_step: "op_then (op_read (rejections s i ByBudgetExceeded daemon_actor ''budget_exceeded'')) (\<lambda>rejected.
         op_then (commit_transition s (run\<lparr>rn_status := BudgetExceeded\<rparr>)
              ([EvBudget (BudgetEvExceeded (budget_exceeded_event_of projection x))] @ rejected @
               [run_status_event i BudgetExceeded (redacted_reason x) (recipe_id_for_run (run\<lparr>rn_status := BudgetExceeded\<rparr>))]) now)
            (\<lambda>committed. op_ok (Some (rn_id (cr_run committed), cr_events committed)))) mid = Some (sv', r)"
        by (simp add: op_then_def [of "op_read (session_run s i)"] op_read_def [of "session_run s i"] Let_def)
      have errors: "rejections s i ByBudgetExceeded daemon_actor ''budget_exceeded'' mid \<noteq> Err (RunBudgetExceeded t)" for t
        by (auto simp: rejections_def try_then_def map_err_def split: sum.splits)
      from next_step show ?thesis
      proof (cases rule: op_then_cases)
        case (error e)
        with errors show ?thesis by (auto simp: op_read_def)
      next
        case (step sv1 rejected)
        then have sv1: "sv1 = mid" by (simp add: op_read_def)
        from step(2) show ?thesis
        proof (cases rule: op_then_cases)
          case (error e)
          then show ?thesis by (auto simp: commit_transition_def op_store_def map_err_def split: prod.splits sum.splits)
        next
          case (step sv2 c)
          from commit_Ok [OF step(1)] id keyed mid sv1 step(2) True show ?thesis
            by (auto simp: op_of_def dest: same_outcome_status)
        qed
      qed
    qed
  qed
qed

lemma fail_run_for_budget_section:
  "fail_run_for_budget advance env s i projection x now c =
     op_then (if c then op_then (locked env (op_read (\<lambda>sv. Ok (is_live i s sv))))
         (\<lambda>l. if l then cancel_live_run env i s else op_ok ()) else op_ok ()) (\<lambda>_.
     op_then (budget_section env s i projection x now) (\<lambda>committed.
     case committed of
       None \<Rightarrow> op_ok ()
     | Some (j, events) \<Rightarrow> op_then (advance s j BudgetExceeded) (\<lambda>records. publish_records (events @ records))))"
  by (simp add: fail_run_for_budget_def budget_section_def)

lemma budget_prelude_alone:
  assumes "alone env"
    and "(if c then op_then (locked env (op_read (\<lambda>sv. Ok (is_live i s sv))))
         (\<lambda>l. if l then cancel_live_run env i s else op_ok ()) else op_ok ()) sv = Some (sv', r)"
  shows "sv_store sv' = sv_store sv" and "r \<noteq> Err (RunBudgetExceeded t)"
proof -
  have cancelled: "sv_store sv2 = sv_store sv1 \<and> q \<noteq> Err (RunBudgetExceeded t)"
    if "cancel_live_run env i s sv1 = Some (sv2, q)" for sv1 sv2 q
    using that cancel_looks_kept [OF assms(1)] cancel_looks_errors
    by (fastforce simp: cancel_live_run_def op_tick_def)
  have read: "sv_store sv2 = sv_store sv1 \<and> is_ok q"
    if "locked env (op_read (\<lambda>sv. Ok (is_live i s sv))) sv1 = Some (sv2, q)" for sv1 sv2 q
    using locked_read_alone [OF assms(1) that] by simp
  have "sv_store sv' = sv_store sv \<and> r \<noteq> Err (RunBudgetExceeded t)"
  proof (cases c)
    case True
    then have "op_then (locked env (op_read (\<lambda>sv. Ok (is_live i s sv))))
         (\<lambda>l. if l then cancel_live_run env i s else op_ok ()) sv = Some (sv', r)" using assms(2) by simp
    then show ?thesis
    proof (cases rule: op_then_cases)
      case (error e)
      then show ?thesis using read [OF error(1)] by simp
    next
      case (step sv1 l)
      then show ?thesis using read [OF step(1)] cancelled by (cases l) (auto simp: op_of_def)
    qed
  qed (use assms(2) in \<open>auto simp: op_of_def\<close>)
  then show "sv_store sv' = sv_store sv" and "r \<noteq> Err (RunBudgetExceeded t)" by blast+
qed

definition within_limits :: "budget_limits \<Rightarrow> budget_usage \<Rightarrow> bool" where
  "within_limits l u \<longleftrightarrow> none_or (\<lambda>n. total_tokens u \<le> n) (max_tokens l) \<and>
     none_or (\<lambda>n. wall_clock_ms u \<le> n) (max_wall_clock_ms l) \<and> none_or (\<lambda>n. tool_calls u \<le> n) (max_tool_calls l)"

lemma decided_within: "budget_decide scope l u = WithinBudget \<longleftrightarrow> within_limits l u"
  unfolding budget_decide_within all_budget_metric within_limits_def by (simp add: usage_of_def limit_of_def)

lemma budget_decided:
  "decide_budget policy p = WithinBudget \<longleftrightarrow>
     within_limits (per_run policy) (bp_run_usage p) \<and> within_limits (parent_aggregate policy) (bp_aggregate_usage p)"
  unfolding decided_within [of ScopeRun "per_run policy" "bp_run_usage p", symmetric]
    decided_within [of ScopeParentAggregate "parent_aggregate policy" "bp_aggregate_usage p", symmetric]
  by (simp add: decide_budget_def decide_run_def decide_parent_aggregate_def split: budget_decision.split)

definition session_runs :: "session_id \<Rightarrow> ('h, 'w) service \<Rightarrow> run_projection list" where
  "session_runs s sv = filter (\<lambda>r. rn_session_id r = s) (bt_values (ms_runs (sv_store sv)))"

lemma session_runs_distinct:
  assumes "bt_wf (ms_runs (sv_store sv))" and "runs_keyed (sv_store sv)"
  shows "distinct (map rn_id (session_runs s sv))"
proof -
  have "rn_id (snd x) = fst x" if "x \<in> set (ms_runs (sv_store sv))" for x
    using that assms(2) bt_get_iff [OF assms(1), of "fst x" "snd x"] by (simp add: runs_keyed_def)
  then have "map rn_id (bt_values (ms_runs (sv_store sv))) = bt_keys (ms_runs (sv_store sv))" by simp
  then have "distinct (map rn_id (bt_values (ms_runs (sv_store sv))))" using bt_wf_distinct [OF assms(1)] by metis
  then show ?thesis unfolding session_runs_def by (rule distinct_map_filter)
qed

lemma projection_is_spent:
  assumes "bt_wf (ms_runs (sv_store sv))" and "runs_keyed (sv_store sv)"
    and "bt_get (ms_runs (sv_store sv)) i = Some run" and "budget_projection_of s i now sv = Ok p"
  shows "bp_run_usage p = run_spending run (session_records s (sv_store sv)) now"
    and "tree_spending run (session_runs s sv) (session_records s (sv_store sv)) now (bp_aggregate_usage p)"
proof -
  have run: "session_run s i sv = Ok run" "rn_session_id run = s"
    using assms(3,4) by (auto simp: budget_projection_of_def try_then_Ok_iff session_run_Ok)
  with assms(4) have p: "p = project_budget run (session_runs s sv) (session_records s (sv_store sv)) now"
    by (simp add: budget_projection_of_def session_runs_def try_then_def)
  have "run \<in> set (session_runs s sv)" using assms(3) run(2) by (force simp: session_runs_def dest: map_of_SomeD)
  with session_runs_distinct [OF assms(1,2)] show "bp_run_usage p = run_spending run (session_records s (sv_store sv)) now"
    and "tree_spending run (session_runs s sv) (session_records s (sv_store sv)) now (bp_aggregate_usage p)"
    unfolding p by (simp_all add: own_usage_is_spent aggregate_usage_is_spent)
qed

text \<open>
  C19. Enforcing the budget, as after every frame an agent streams and before its start. When it lets the run go on, what the run
  has spent is within the limits for a run, and what its whole tree (the runs of the session connected to it by parents) has
  spent is within the limits for a tree. When it answers that the budget is exceeded, one of the two is not, and a run that was
  running has been stopped, with the status that says why; this stays so whatever the promotions that follow do. Spent are the tokens
  each run has reported last in the frames of its stream, the calls of tools it has started (sums up to the largest number of 64
  bits), and the time since its start by the clock's reading, for a tree the topmost run's; tokens that only the usage events of native runs
  record are not among them. No other thread commits meanwhile, no new run is given the run's identifier, and the map of runs is
  in the order of its keys, as every map built by insertion is.
\<close>

theorem budget_stops_the_run:
  fixes env :: "('h, 'w, 'j) service_env"
  assumes "alone env" and "keeps_run i env" and "store_ok (sv_store sv)" and "bt_wf (ms_runs (sv_store sv))"
    and "bt_get (ms_runs (sv_store sv)) i = Some run"
    and "enforce_budget (advance_ready_queue fuel env) env s i c sv = Some (sv', r)"
  shows "(is_ok r \<longrightarrow> (\<exists>n tree. tree_spending run (session_runs s sv) (session_records s (sv_store sv)) (se_now env n) tree \<and>
      within_limits (per_run (se_budget_policy env)) (run_spending run (session_records s (sv_store sv)) (se_now env n)) \<and>
      within_limits (parent_aggregate (se_budget_policy env)) tree)) \<and>
    (\<forall>t. r = Err (RunBudgetExceeded t) \<longrightarrow>
      (\<exists>n tree. tree_spending run (session_runs s sv) (session_records s (sv_store sv)) (se_now env n) tree \<and>
        \<not> (within_limits (per_run (se_budget_policy env)) (run_spending run (session_records s (sv_store sv)) (se_now env n)) \<and>
           within_limits (parent_aggregate (se_budget_policy env)) tree)) \<and>
      (\<exists>run'. bt_get (ms_runs (sv_store sv')) i = Some run' \<and>
        rn_status run' = (if rn_status run = Running then BudgetExceeded else rn_status run)))"
proof -
  from op_tick_cases [OF assms(6) [unfolded enforce_budget_def]] obtain n sv0 where sv0: "sv_store sv0 = sv_store sv" and
    steps: "op_then (locked env (op_read (budget_projection_of s i (se_now env n)))) (\<lambda>projection.
     case decide_budget (se_budget_policy env) projection of
       WithinBudget \<Rightarrow> op_ok ()
     | BudgetExceededBy x \<Rightarrow>
         op_then (fail_run_for_budget (advance_ready_queue fuel env) env s i projection x (se_now env n) c) (\<lambda>_.
         op_err (RunBudgetExceeded (redacted_reason x)))) sv0 = Some (sv', r)" .
  have same: "budget_projection_of s i now a = budget_projection_of s i now b" if "sv_store a = sv_store b" for now and a b :: "('h, 'w) service"
    using that session_run_store [OF that] by (simp add: budget_projection_of_def)
  have looked: "sv_store b = sv_store a \<and> q = budget_projection_of s i (se_now env n) a"
    if "locked env (op_read (budget_projection_of s i (se_now env n))) a = Some (b, q)" for a b q
    using locked_read_alone [OF assms(1) that] same [of b a] by simp
  from steps show ?thesis
  proof (cases rule: op_then_cases)
    case (error e)
    from looked [OF error(1)] have "session_run s i sv0 = Err e"
      by (auto simp: budget_projection_of_def try_then_def split: sum.splits)
    with error(2) stored_run_errors [OF this] show ?thesis by auto
  next
    case (step sv1 projection)
    from looked [OF step(1)] sv0 have sv1: "sv_store sv1 = sv_store sv" and
      projection: "budget_projection_of s i (se_now env n) sv = Ok projection" using same [OF sv0] by simp_all
    have "runs_keyed (sv_store sv)" using assms(3) by (auto simp: store_ok_def refs_ok_def runs_keyed_def)
    note spent = projection_is_spent [OF assms(4) this assms(5) projection]
    note decided = budget_decided [of "se_budget_policy env" projection, unfolded spent(1)]
    show ?thesis
    proof (cases "decide_budget (se_budget_policy env) projection")
      case WithinBudget
      then have "r = Ok ()" using step(2) by (simp add: op_of_def)
      with spent(2) decided WithinBudget show ?thesis by auto
    next
      case (BudgetExceededBy x)
      have exceeded: "\<exists>n tree. tree_spending run (session_runs s sv) (session_records s (sv_store sv)) (se_now env n) tree \<and>
        \<not> (within_limits (per_run (se_budget_policy env)) (run_spending run (session_records s (sv_store sv)) (se_now env n)) \<and>
           within_limits (parent_aggregate (se_budget_policy env)) tree)"
        by (rule exI [of _ n], rule exI [of _ "bp_aggregate_usage projection"])
          (use spent(2) decided BudgetExceededBy in simp)
      have failed: "\<exists>run'. bt_get (ms_runs (sv_store b)) i = Some run' \<and>
          rn_status run' = (if rn_status run = Running then BudgetExceeded else rn_status run)"
        if "fail_run_for_budget (advance_ready_queue fuel env) env s i projection x (se_now env n) c sv1 = Some (b, q)"
          and "is_ok q \<or> (\<exists>t. q = Err (RunBudgetExceeded t))" for b q
        using that(1) unfolding fail_run_for_budget_section
      proof (cases rule: op_then_cases)
        case (error e)
        with budget_prelude_alone(2) [OF assms(1) error(1)] that(2) show ?thesis by auto
      next
        case (step sv2 u)
        from budget_prelude_alone(1) [OF assms(1) step(1)] sv1 have sv2: "sv_store sv2 = sv_store sv" by simp
        with assms(3,5) have ok2: "store_ok (sv_store sv2)" "bt_get (ms_runs (sv_store sv2)) i = Some run" by simp_all
        from step(2) show ?thesis
        proof (cases rule: op_then_cases)
          case (error e)
          from budget_section_alone [OF assms(1) ok2 error(1)] error(2) that(2) show ?thesis by auto
        next
          case (step sv3 committed)
          show ?thesis
          proof (cases committed)
            case None
            with budget_section_alone [OF assms(1) ok2 step(1)] step(2) ok2 show ?thesis by (auto simp: op_of_def)
          next
            case (Some y)
            with budget_section_alone [OF assms(1) ok2 step(1)] obtain run3 where running: "rn_status run = Running" and keyed: "runs_keyed (sv_store sv3)" and
              run3: "bt_get (ms_runs (sv_store sv3)) i = Some run3" "rn_status run3 = BudgetExceeded" by auto
            obtain j events where y: "y = (j, events)" by fastforce
            have rest: "op_then (advance_ready_queue fuel env s j BudgetExceeded) (\<lambda>records. publish_records (events @ records)) sv3 =
              Some (b, q)" using step(2) Some y by simp
            have "store_relation.related (\<lambda>st st'. keeps_run i env \<longrightarrow> keeps_finished i st st')
              (op_then (advance_ready_queue fuel env s j BudgetExceeded) (\<lambda>records. publish_records (events @ records)))"
              by (intro outcomes.related_then outcomes.related_advance outcomes.advancing_queue outcomes.related_publish)
            from finished_kept [OF this assms(2) rest keyed run3(1)] run3(2) obtain run' where
              "bt_get (ms_runs (sv_store b)) i = Some run'" "same_outcome run3 run'" by (auto simp: finished_def)
            with run3(2) running same_outcome_status [of run3 run'] show ?thesis by auto
          qed
        qed
      qed
      from step(2) BudgetExceededBy have "op_then (fail_run_for_budget (advance_ready_queue fuel env) env s i projection x (se_now env n) c)
          (\<lambda>_. op_err (RunBudgetExceeded (redacted_reason x))) sv1 = Some (sv', r)" by simp
      then show ?thesis
      proof (cases rule: op_then_cases)
        case (error e)
        with failed [OF error(1)] exceeded show ?thesis by auto
      next
        case (step sv2 u)
        then have "sv2 = sv'" "r = Err (RunBudgetExceeded (redacted_reason x))" by (simp_all add: op_of_def)
        with failed [OF step(1)] exceeded show ?thesis by simp
      qed
    qed
  qed
qed

section \<open>Witnesses\<close>

lemma demo_alone: "alone demo_env"
  by (simp add: alone_def demo_env_def)

lemma demo_service_store [simp]: "sv_store (demo_service status) = demo_store_with status"
  by (simp add: demo_service_def)

lemma demo_store_ok: "store_ok (demo_store_with status)"
  using store_steps_evolve [OF demo_store_reachable store_ok_new] by blast

lemma demo_running_run:
  "\<exists>run. bt_get (ms_runs (demo_store_with Running)) (Ident ''r'') = Some run \<and> rn_status run = Running \<and>
     output_contract_for_run run = None"
  by (simp add: demo_store_defs output_contract_for_run_def)

lemmas demo_run_defs = locked_def op_tick_def op_then_def op_read_def op_of_def op_store_def live_owned_run_def
  session_run_def stored_run_def is_live_def commit_transition_def map_err_def demo_service_def demo_env_def
  is_running_owned_by_def active_execution_owner_new_def claim_run_def recipe_id_for_run_def

lemmas demo_advance_defs = advance_ready_queue_def finish_scheduled_run_def op_update_def finish_resources_def
  run_scheduler_new_def finish_run_def release_run_def

lemma demo_cancel_check: "locked demo_env (op_read (cancel_check (Ident ''s'') (Ident ''r''))) (demo_service Running) =
    Some ((demo_service Running)\<lparr>sv_ticks := 1\<rparr>, Ok True)"
  by (simp add: cancel_check_def cancellable_run_def cancellable_def require_session_def demo_run_defs demo_store_defs)

lemma demo_cancel_live:
  "\<exists>sv'. cancel_live_run demo_env (Ident ''r'') (Ident ''s'') ((demo_service Running)\<lparr>sv_ticks := 1\<rparr>) = Some (sv', Ok ()) \<and>
     sv_store sv' = demo_store_with Running \<and> sv_scheduler sv' = run_scheduler_new"
  by (simp add: cancel_live_run_def cancel_look_def locked_def op_tick_def op_then_def op_update_def op_of_def demo_env_def
      demo_service_def claim_run_def active_execution_owner_new_def)

lemma demo_cancel_commit:
  assumes "sv_store sv = demo_store_with Running"
  shows "\<exists>sv' run events. cancel_commit demo_env (Ident ''s'') daemon_actor (Ident ''r'') detail sv = Some (sv', Ok (run, events)) \<and>
     sv_scheduler sv' = sv_scheduler sv \<and> rn_id run = Ident ''r'' \<and> ms_next_event_sequence (sv_store sv') < u64_max \<and>
     cancellable_native_child_run_ids (Ident ''s'') (Ident ''r'') {Ident ''r''} sv' = []"
  using assms
  by (simp add: cancel_commit_def cancellable_run_def cancellable_def require_session_def rejections_def
      approvals_for_session_def approvals_for_query_def sort_desc_def empty_lifecycle_def cancellable_native_child_run_ids_def
      demo_run_defs demo_store_defs)

lemma demo_advance:
  assumes "sv_scheduler sv = run_scheduler_new"
  shows "\<exists>sv'. advance_ready_queue 1 demo_env (Ident ''s'') (Ident ''r'') Cancelled sv = Some (sv', Ok []) \<and> sv_store sv' = sv_store sv"
proof -
  have kept: "sv_scheduler (finish_resources i status x) = sv_scheduler x" "sv_store (finish_resources i status x) = sv_store x"
    for i status and x :: "(unit, unit) service"
    by (simp_all add: finish_resources_def split: option.split)
  show ?thesis
    using assms
    by (simp add: advance_ready_queue_def finish_scheduled_run_def op_update_def run_scheduler_new_def finish_run_def kept
        locked_def op_tick_def op_then_def op_of_def demo_env_def)
qed

lemma demo_children:
  "locked demo_env (op_read f) sv = Some (sv\<lparr>sv_ticks := Suc (sv_ticks sv)\<rparr>, f (sv\<lparr>sv_ticks := Suc (sv_ticks sv)\<rparr>))"
  by (simp add: locked_def op_tick_def op_read_def demo_env_def)

lemma demo_cascade:
  "\<exists>sv' x. cancel_run_with_cascade (Suc m) (advance_ready_queue 1 demo_env) demo_env (Ident ''s'') daemon_actor None (Ident ''r'') {}
     (demo_service Running) = Some (sv', Ok x) \<and> ms_next_event_sequence (sv_store sv') < u64_max"
proof -
  obtain sv2 where live: "cancel_live_run demo_env (Ident ''r'') (Ident ''s'') ((demo_service Running)\<lparr>sv_ticks := 1\<rparr>) = Some (sv2, Ok ())"
    "sv_store sv2 = demo_store_with Running" "sv_scheduler sv2 = run_scheduler_new" using demo_cancel_live by blast
  from demo_cancel_commit [OF live(2)] obtain sv3 run events where
    commit: "cancel_commit demo_env (Ident ''s'') daemon_actor (Ident ''r'') (cancel_detail None) sv2 = Some (sv3, Ok (run, events))"
    and sv3: "sv_scheduler sv3 = run_scheduler_new" "rn_id run = Ident ''r''" "ms_next_event_sequence (sv_store sv3) < u64_max"
      "cancellable_native_child_run_ids (Ident ''s'') (Ident ''r'') {Ident ''r''} sv3 = []" using live(3) by (metis (no_types))
  let ?sv4 = "sv3\<lparr>sv_ticks := Suc (sv_ticks sv3)\<rparr>"
  have none: "locked demo_env (op_read (\<lambda>sv. Ok (cancellable_native_child_run_ids (Ident ''s'') (rn_id run) {Ident ''r''} sv))) sv3 =
      Some (?sv4, Ok [])"
    using sv3(2,4) by (simp add: demo_children cancellable_native_child_run_ids_def)
  obtain sv5 where advance: "advance_ready_queue 1 demo_env (Ident ''s'') (Ident ''r'') Cancelled ?sv4 = Some (sv5, Ok [])"
    "sv_store sv5 = sv_store sv3" using demo_advance [of ?sv4] sv3(1) by auto
  have "cancel_run_with_cascade (Suc m) (advance_ready_queue 1 demo_env) demo_env (Ident ''s'') daemon_actor None (Ident ''r'') {}
      (demo_service Running) = Some (sv5, Ok (\<lparr>mu_run = project_run_summary run, mu_events = events\<rparr>, {Ident ''r''}))"
    using demo_cancel_check live(1) commit none advance(1) sv3(2)
    by (simp add: max_native_child_cancel_cascade_runs_def op_then_def op_of_def Let_def)
  with advance(2) sv3(3) show ?thesis by simp
qed

lemma demo_cancelled:
  "\<exists>sv' r. cancel_run (advance_ready_queue 1 demo_env) demo_env (Ident ''s'') daemon_actor (Ident ''r'') None (demo_service Running) =
     Some (sv', Ok r) \<and> ms_next_event_sequence (sv_store sv') < u64_max"
proof -
  obtain sv' r visited where "cancel_run_with_cascade (Suc (max_native_child_cancel_cascade_runs + 1)) (advance_ready_queue 1 demo_env)
      demo_env (Ident ''s'') daemon_actor None (Ident ''r'') {} (demo_service Running) = Some (sv', Ok (r, visited))"
    "ms_next_event_sequence (sv_store sv') < u64_max"
    using demo_cascade [of "max_native_child_cancel_cascade_runs + 1"] by auto
  then show ?thesis unfolding cancel_run_def op_then_def
    by (simp del: cancel_run_with_cascade.simps add: op_of_def)
qed

theorem cancel_settles_the_run_witness:
  "\<exists>sv' :: (unit, unit) service. run_cancelled (Ident ''r'') (sv_store sv')"
proof -
  obtain sv' r where cancel: "cancel_run (advance_ready_queue 1 demo_env) demo_env (Ident ''s'') daemon_actor (Ident ''r'') None
     (demo_service Running) = Some (sv', Ok r)" "ms_next_event_sequence (sv_store sv') < u64_max" using demo_cancelled by blast
  have "\<forall>run\<in>set (bt_values (ms_runs (sv_store (demo_service Running)))). keeps_run (rn_id run) demo_env"
    using demo_quiet(2) by (simp add: demo_store_defs)
  from cancel_settles_the_run [OF demo_alone this _ cancel(2,1)] demo_store_ok show ?thesis by auto
qed

theorem late_agents_change_nothing_witness:
  "\<exists>sv' r. sink_operation (advance_ready_queue 1 demo_env) demo_env (Ident ''s'') (Ident ''r'') (PushActivity ''on'')
     (demo_service Completed) = Some (sv', r) \<and> \<not> is_ok r \<and> sv_store sv' = demo_store_with Completed"
proof -
  obtain sv' r where run: "sink_operation (advance_ready_queue 1 demo_env) demo_env (Ident ''s'') (Ident ''r'') (PushActivity ''on'')
     (demo_service Completed) = Some (sv', r)" using demo_served_late by auto
  have "not_running (Ident ''s'') (Ident ''r'') (sv_store (demo_service Completed))"
    using demo_completed_run by (auto simp: not_running_def)
  from late_agents_change_nothing [OF demo_alone this _ run] run show ?thesis by auto
qed

lemma demo_completes:
  "\<exists>sv' out. complete_live_run_transition (advance_ready_queue (Suc 0) demo_env) demo_env (Ident ''s'') (Ident ''r'') ''end'' None
     (demo_service Running) = Some (sv', out) \<and> is_ok out"
  by (simp add: complete_live_run_transition_def load_run_projection_def output_contract_for_run_def
      validate_completion_payload_def commit_live_run_status_with_completion_def append_completion_receipt_def
      append_completion_result_receipt_def opt_or_def demo_advance_defs demo_run_defs demo_store_defs)

theorem completion_obeys_the_contract_witness:
  "\<exists>(sv' :: (unit, unit) service) run'. bt_get (ms_runs (sv_store sv')) (Ident ''r'') = Some run' \<and>
     rn_status run' = Completed \<and> rn_result run' = None"
proof -
  obtain sv' out where fin: "complete_live_run_transition (advance_ready_queue (Suc 0) demo_env) demo_env (Ident ''s'') (Ident ''r'')
     ''end'' None (demo_service Running) = Some (sv', out)" "is_ok out" using demo_completes by blast
  obtain run where run: "bt_get (ms_runs (demo_store_with Running)) (Ident ''r'') = Some run" "output_contract_for_run run = None"
    using demo_running_run by blast
  from completion_obeys_the_contract [OF demo_alone demo_quiet(2) _ _ fin(1), of run] fin(2) run(1) demo_store_ok
  show ?thesis by auto
qed

lemma demo_exceeds:
  "\<exists>sv' t. enforce_budget (advance_ready_queue (Suc 0) demo_env) demo_env (Ident ''s'') (Ident ''r'') False
     (demo_service Running) = Some (sv', Err (RunBudgetExceeded t))"
  by (simp add: enforce_budget_def budget_projection_of_def project_budget_def decide_budget_def decide_run_def budget_decide_def over_def
      usage_for_run_def elapsed_ms_def budget_exceeded_event_of_def usage_by_run_def usage_record_def no_usage_def
      parent_run_id_def redacted_reason_def demo_limits_def fail_run_for_budget_def rejections_def approvals_for_session_def
      approvals_for_query_def sort_desc_def empty_lifecycle_def publish_records_def demo_advance_defs demo_run_defs
      demo_store_defs)

theorem budget_stops_the_run_witness:
  "\<exists>(sv' :: (unit, unit) service) run'. bt_get (ms_runs (sv_store sv')) (Ident ''r'') = Some run' \<and> rn_status run' = BudgetExceeded"
proof -
  obtain sv' t where stop: "enforce_budget (advance_ready_queue (Suc 0) demo_env) demo_env (Ident ''s'') (Ident ''r'') False
     (demo_service Running) = Some (sv', Err (RunBudgetExceeded t))" using demo_exceeds by blast
  obtain run where run: "bt_get (ms_runs (demo_store_with Running)) (Ident ''r'') = Some run" "rn_status run = Running"
    using demo_running_run by blast
  have "bt_wf (ms_runs (sv_store (demo_service Running)))" by (simp add: demo_store_defs bt_wf_def)
  from budget_stops_the_run [OF demo_alone demo_quiet(2) _ this _ stop, of run] run demo_store_ok show ?thesis by auto
qed

end
