(* ===== verification/AppErrors.thy ===== *)
theory AppErrors
  imports RunErrors Workflow
begin

text \<open>
  The errors of the daemon's app service (\<open>crates/ta-orchestrator/src/orchestration/app/errors.rs\<close>)
  and how errors of the store and of the run execution become errors of it. What \<open>serde_yaml\<close> and
  the file system report is the type \<open>'e\<close>.
\<close>

datatype 'e app_service_error =
    AppStore store_error
  | EmptySessionTitle
  | AppSessionWorkspaceMissing
  | WorkspaceNotFound string
  | WorkspaceNotADirectory string
  | WorkspaceCanonicalizeFailed string string
  | AppWorkspaceTrustRequired string
  | WorkspacePermissionDenied string string
  | WorkspaceSymlinkEscape string
  | WorkspaceOutsideAllowedRoots string
  | AppCapabilityUnsupported "string option" "string option" string string string
  | EmptySessionOwnerClientName
  | EmptySessionOwnerPrincipalId
  | InvalidClientCredentialLength
  | InvalidClientCredentialWhitespace
  | AppSessionNotFound string
  | SessionAuthorityRejected string
  | InvalidActivityPageLimit
  | InvalidAgentTurnsPageLimit
  | InvalidNativeRunListLimit nat
  | InvalidRunTimelineLimit nat
  | InvalidNativeRunListCursor
  | InvalidReceiptListLimit nat
  | AppEmptyRunObjective
  | AppRunNotFound string
  | AppRunSessionMismatch string
  | AppRunNotWaitingForApproval string
  | AppRunNotLiveOwned string
  | AppRunNotNativeHarness string
  | AppRunNotResumable string
  | AppRunForkPointNotFound string
  | AppRunForkPointNotTurnBoundary string
  | AppRunNotQueued string
  | AppRunNotCancellable string
  | AppRunQueueFull string
  | AppOutputContractViolation validation_error
  | AppUnknownRecipeId string
  | AppRecipeContractConflict string output_contract_kind output_contract_kind
  | AppBudgetExceeded string
  | AppApprovalNotFound string
  | AppApprovalAlreadyResolved string
  | ReceiptNotFound string
  | ReceiptSessionMismatch string
  | WorkItemNotFound string
  | WorkflowNotLoaded
  | AppWorkflow "'e workflow_manager_error"
  | AppReceiptTransitionViolation string string
  | AppAgentRuntime agent_runtime_service_error
  | AppEmptyArtifactStoragePath

fun map_run_execution_error :: "run_execution_error \<Rightarrow> 'e app_service_error" where
  "map_run_execution_error (Store e) = AppStore e"
| "map_run_execution_error EmptyArtifactStoragePath = AppEmptyArtifactStoragePath"
| "map_run_execution_error EmptyRunObjective = AppEmptyRunObjective"
| "map_run_execution_error (SessionNotFound i) = AppSessionNotFound i"
| "map_run_execution_error (SessionWorkspaceNotFound i) = WorkspaceNotFound i"
| "map_run_execution_error (WorkspaceTrustRequired i) = AppWorkspaceTrustRequired i"
| "map_run_execution_error (WorkspaceScopeUnsupported requested) =
     AppCapabilityUnsupported None None ''executionScope'' requested
       (''execution scope '' @ requested @ '' is not implemented'')"
| "map_run_execution_error (CapabilityUnsupported u) =
     AppCapabilityUnsupported (wu_variant u) (wu_vendor u) (wu_capability u) (wu_requested u) (wu_reason u)"
| "map_run_execution_error (ExecutionContextPathInvalid detail) = AppAgentRuntime (RuntimeExecutionFailed detail)"
| "map_run_execution_error (RunNotFound i) = AppRunNotFound i"
| "map_run_execution_error (RunSessionMismatch i) = AppRunSessionMismatch i"
| "map_run_execution_error (RunNotWaitingForApproval i) = AppRunNotWaitingForApproval i"
| "map_run_execution_error (RunNotLiveOwned i) = AppRunNotLiveOwned i"
| "map_run_execution_error (RunNotNativeHarness i) = AppRunNotNativeHarness i"
| "map_run_execution_error (RunNotResumable i) = AppRunNotResumable i"
| "map_run_execution_error (RunForkPointNotFound i) = AppRunForkPointNotFound i"
| "map_run_execution_error (RunForkPointNotTurnBoundary i) = AppRunForkPointNotTurnBoundary i"
| "map_run_execution_error (RunNotQueued i) = AppRunNotQueued i"
| "map_run_execution_error (RunNotCancellable i) = AppRunNotCancellable i"
| "map_run_execution_error (RunQueueFull s) = AppRunQueueFull s"
| "map_run_execution_error (OutputContractViolation e) = AppOutputContractViolation e"
| "map_run_execution_error (UnknownRecipeId i) = AppUnknownRecipeId i"
| "map_run_execution_error (RecipeContractConflict i a b) = AppRecipeContractConflict i a b"
| "map_run_execution_error (RunBudgetExceeded detail) = AppBudgetExceeded detail"
| "map_run_execution_error (ProviderExecutionFailed e) = AppAgentRuntime (RuntimeExecutionFailed e)"
| "map_run_execution_error (ApprovalNotFound i) = AppApprovalNotFound i"
| "map_run_execution_error (ApprovalAlreadyResolved i) = AppApprovalAlreadyResolved i"

datatype recipe_resolution_error =
    ResolveUnknownRecipeId string
  | ResolveRecipeContractConflict string output_contract_kind output_contract_kind

definition recipe_resolution_error_data :: "'e app_service_error \<Rightarrow> recipe_resolution_error option" where
  "recipe_resolution_error_data e =
     (case e of
        AppUnknownRecipeId i \<Rightarrow> Some (ResolveUnknownRecipeId i)
      | AppRecipeContractConflict i a b \<Rightarrow> Some (ResolveRecipeContractConflict i a b)
      | _ \<Rightarrow> None)"

definition map_receipt_store_error :: "store_error \<Rightarrow> 'e app_service_error" where
  "map_receipt_store_error e =
     (case e of
        ReceiptTransitionViolation receipt_id detail \<Rightarrow> AppReceiptTransitionViolation receipt_id detail
      | _ \<Rightarrow> AppStore e)"

text \<open>
  Only the unsupported execution scope and the two failures of the provider lose which error of
  the run execution they were.
\<close>

lemma map_run_execution_error_inj:
  assumes "(map_run_execution_error a :: 'e app_service_error) = map_run_execution_error b"
    and "\<forall>t. a \<noteq> WorkspaceScopeUnsupported t \<and> a \<noteq> ExecutionContextPathInvalid t"
    and "\<forall>t. b \<noteq> WorkspaceScopeUnsupported t \<and> b \<noteq> ExecutionContextPathInvalid t"
  shows "a = b"
  using assms by (cases a; cases b) simp_all

end
