(* ===== verification/AppSessions.thy ===== *)
theory AppSessions
  imports AppErrors Strings StoreHistory
begin

text \<open>
  Sessions, principals and workspaces of the daemon's app service
  (\<open>crates/ta-orchestrator/src/orchestration/app/sessions.rs\<close>, \<open>workspaces.rs\<close>) and the
  constructors of \<open>WorkspacePath\<close> (\<open>crates/ta-protocol/src/wire/workspace.rs\<close>). Every operation works
  on the store behind its lock in one section. SHA-256 and the file system are arguments;
  \<open>uuid n\<close> is the n-th random identifier an operation draws, in its simple form.
\<close>

section \<open>Operations of the app service\<close>

type_synonym ('e, 'a) app_outcome = "memory_store \<times> ('e app_service_error + 'a)"

definition app_check :: "('e app_service_error + 'a) \<Rightarrow> memory_store \<Rightarrow> ('a \<Rightarrow> ('e, 'b) app_outcome) \<Rightarrow>
    ('e, 'b) app_outcome" where
  "app_check r st k = (case r of Inl e \<Rightarrow> (st, Inl e) | Inr x \<Rightarrow> k x)"

definition app_store :: "'a outcome \<Rightarrow> (memory_store \<Rightarrow> 'a \<Rightarrow> ('e, 'b) app_outcome) \<Rightarrow> ('e, 'b) app_outcome" where
  "app_store r k = (case r of (st, Inl e) \<Rightarrow> (st, Inl (AppStore e)) | (st, Inr x) \<Rightarrow> k st x)"

lemma app_check_simps [simp]:
  "app_check (Err e) st k = (st, Err e)" "app_check (Ok x) st k = k x"
  by (simp_all add: app_check_def)

lemma app_store_simps [simp]:
  "app_store (st, Err e) k = (st, Err (AppStore e))" "app_store (st, Ok x) k = k st x"
  by (simp_all add: app_store_def)

section \<open>Names and secrets\<close>

definition sanitize_session_owner_client_name :: "string \<Rightarrow> (string, 'e app_service_error) result" where
  "sanitize_session_owner_client_name name =
     (if trim name = [] then Err EmptySessionOwnerClientName else Ok (trim name))"

definition sanitize_session_owner_principal_id :: "string \<Rightarrow> (string, 'e app_service_error) result" where
  "sanitize_session_owner_principal_id i =
     (if trim i = [] then Err EmptySessionOwnerPrincipalId else Ok (trim i))"

text \<open>White space among ASCII characters is one byte long.\<close>

definition sanitize_client_credential :: "string \<Rightarrow> (string, 'e app_service_error) result" where
  "sanitize_client_credential credential =
     (let c = trim credential
      in if length c < 32 \<or> \<not> list_all ascii c then Err InvalidClientCredentialLength
         else if list_ex (\<lambda>x. [x] \<in> set white_space) c then Err InvalidClientCredentialWhitespace
         else Ok c)"

definition issue_client_credential :: "(nat \<Rightarrow> string) \<Rightarrow> string" where
  "issue_client_credential uuid = uuid 0 @ uuid 1"

definition issue_session_authority :: "(nat \<Rightarrow> string) \<Rightarrow> string" where
  "issue_session_authority uuid = uuid 0 @ uuid 1"

section \<open>Sessions\<close>

text \<open>The store's own operation, passed through.\<close>

definition app_upsert_workspace :: "workspace \<Rightarrow> memory_store \<Rightarrow> ('e, workspace) app_outcome" where
  "app_upsert_workspace w st = app_store (upsert_workspace w st) (\<lambda>st1 w'. (st1, Ok w'))"

record session_summary =
  ss_id :: session_id
  ss_title :: string
  ss_status :: session_status

definition project_session_summary :: "session_projection \<Rightarrow> session_summary" where
  "project_session_summary x = \<lparr>ss_id = sn_id x, ss_title = sn_title x, ss_status = sn_status x\<rparr>"

record open_session_request =
  oq_title :: string
  oq_workspace_id :: workspace_id

text \<open>\<open>OpenSessionResult\<close> and \<open>AttachSessionResult\<close>: the session and its secret.\<close>

record session_access =
  sx_session :: session_summary
  sx_authority :: string

definition list_sessions :: "string \<Rightarrow> string \<Rightarrow> memory_store \<Rightarrow> ('e, session_summary list) app_outcome" where
  "list_sessions owner_client_name owner_principal_id st =
     app_check (sanitize_session_owner_client_name owner_client_name) st (\<lambda>_.
     app_check (sanitize_session_owner_principal_id owner_principal_id) st (\<lambda>owner.
       (st, Ok (map project_session_summary
         (filter (\<lambda>x. sn_owner_principal_id x = owner) (bt_values (ms_sessions st)))))))"

text \<open>The identifiers are drawn in this order: two for the secret, one for the session.\<close>

definition open_session :: "(string \<Rightarrow> string) \<Rightarrow> (nat \<Rightarrow> string) \<Rightarrow> nat \<Rightarrow> string \<Rightarrow> string \<Rightarrow>
    open_session_request \<Rightarrow> memory_store \<Rightarrow> ('e, session_access) app_outcome" where
  "open_session sha256 uuid now owner_client_name owner_principal_id request st =
     (if trim (oq_title request) = [] then (st, Err EmptySessionTitle)
      else
        app_check (sanitize_session_owner_client_name owner_client_name) st (\<lambda>client.
        app_check (sanitize_session_owner_principal_id owner_principal_id) st (\<lambda>owner.
        let authority = issue_session_authority uuid;
            session = \<lparr>sn_id = Ident (''session-'' @ uuid 2), sn_owner_client_name = client,
              sn_owner_principal_id = owner, sn_current_hash = sha256 authority, sn_current_generation = 0,
              sn_recovery_hash = None, sn_recovery_generation = None, sn_title = trim (oq_title request),
              sn_status = SessIdle, sn_workspace_id = oq_workspace_id request\<rparr>
        in if bt_get (ms_workspaces st) (oq_workspace_id request) = None
           then (st, Err (WorkspaceNotFound (as_str (oq_workspace_id request))))
           else app_store (commit_session_open session now st) (\<lambda>st1 _.
             (st1, Ok \<lparr>sx_session = project_session_summary session, sx_authority = authority\<rparr>)))))"

definition get_session :: "session_id \<Rightarrow> memory_store \<Rightarrow> session_summary option" where
  "get_session s st = map_option project_session_summary (bt_get (ms_sessions st) s)"

definition attach_session :: "(string \<Rightarrow> string) \<Rightarrow> (nat \<Rightarrow> string) \<Rightarrow> string \<Rightarrow> string \<Rightarrow> session_id \<Rightarrow> string \<Rightarrow>
    memory_store \<Rightarrow> ('e, session_access) app_outcome" where
  "attach_session sha256 uuid owner_client_name owner_principal_id s authority st =
     app_check (sanitize_session_owner_client_name owner_client_name) st (\<lambda>_.
     app_check (sanitize_session_owner_principal_id owner_principal_id) st (\<lambda>owner.
     let next_authority = issue_session_authority uuid
     in case bt_get (ms_sessions st) s of
          None \<Rightarrow> (st, Err (AppSessionNotFound (as_str s)))
        | Some existing \<Rightarrow>
            if sn_owner_principal_id existing \<noteq> owner then (st, Err (AppSessionNotFound (as_str s)))
            else app_store (rotate_session_authority s owner (sha256 authority) (sha256 next_authority) st)
              (\<lambda>st1 rotated. (st1, case rotated of
                 None \<Rightarrow> Err (SessionAuthorityRejected (as_str s))
               | Some x \<Rightarrow> Ok \<lparr>sx_session = project_session_summary x, sx_authority = next_authority\<rparr>))))"

section \<open>Principals\<close>

record session_principal_resolution =
  pr'_client_name :: string
  pr'_principal_id :: string
  pr'_client_credential :: string

text \<open>Issuing draws two identifiers for the credential and one for the principal.\<close>

definition issue_principal :: "(string \<Rightarrow> string) \<Rightarrow> (nat \<Rightarrow> string) \<Rightarrow> string \<Rightarrow> memory_store \<Rightarrow>
    ('e, session_principal_resolution) app_outcome" where
  "issue_principal sha256 uuid client st =
     (let credential = issue_client_credential uuid;
          principal = \<lparr>pp_id = ''principal-'' @ uuid 2, pp_client_name = client,
            pp_credential_hash = sha256 credential\<rparr>
      in (save_principal principal st,
          Ok \<lparr>pr'_client_name = client, pr'_principal_id = pp_id principal, pr'_client_credential = credential\<rparr>))"

definition resolve_or_issue_session_principal :: "(string \<Rightarrow> string) \<Rightarrow> (nat \<Rightarrow> string) \<Rightarrow> string \<Rightarrow>
    string option \<Rightarrow> memory_store \<Rightarrow> ('e, session_principal_resolution) app_outcome" where
  "resolve_or_issue_session_principal sha256 uuid owner_client_name presented st =
     app_check (sanitize_session_owner_client_name owner_client_name) st (\<lambda>client.
     case presented of
       None \<Rightarrow> issue_principal sha256 uuid client st
     | Some c \<Rightarrow>
         app_check (sanitize_client_credential c) st (\<lambda>credential.
         case principal_by_credential_hash (sha256 credential) st of
           Some p \<Rightarrow> (st, Ok \<lparr>pr'_client_name = pp_client_name p, pr'_principal_id = pp_id p,
             pr'_client_credential = credential\<rparr>)
         | None \<Rightarrow> issue_principal sha256 uuid client st))"

section \<open>Workspace paths\<close>

datatype workspace_path_error =
    WorkspacePathNotAbsolute string
  | WorkspacePathNotCanonical string "string option" "string option"

definition ensure_absolute :: "string \<Rightarrow> (unit, workspace_path_error) result" where
  "ensure_absolute p = (if is_absolute p then Ok () else Err (WorkspacePathNotAbsolute p))"

text \<open>
  \<open>WorkspacePath::new\<close>; the real path of a path is asked of the file system. Two \<open>PathBuf\<close>s are equal
  when their components are.
\<close>

definition workspace_path_new :: "(string \<Rightarrow> (string, string) result) \<Rightarrow> string \<Rightarrow>
    (workspace_path, workspace_path_error) result" where
  "workspace_path_new realpath p = try_then (ensure_absolute p) (\<lambda>_.
     case realpath p of
       Inl reason \<Rightarrow> Err (WorkspacePathNotCanonical p None (Some reason))
     | Inr canonical \<Rightarrow>
         if path_components canonical \<noteq> path_components p then Err (WorkspacePathNotCanonical p (Some canonical) None) else Ok (WorkspacePath p))"

definition canonicalize_existing :: "(string \<Rightarrow> (string, string) result) \<Rightarrow> string \<Rightarrow>
    (workspace_path, workspace_path_error) result" where
  "canonicalize_existing realpath p = try_then (ensure_absolute p) (\<lambda>_.
     case realpath p of
       Inl reason \<Rightarrow> Err (WorkspacePathNotCanonical p None (Some reason))
     | Inr canonical \<Rightarrow> Ok (WorkspacePath canonical))"

definition from_canonical_wire_value :: "string \<Rightarrow> (workspace_path, workspace_path_error) result" where
  "from_canonical_wire_value p = try_then (ensure_absolute p) (\<lambda>_.
     if list_ex (\<lambda>c. c = CurDir \<or> c = ParentDir) (path_components p)
     then Err (WorkspacePathNotCanonical p None (Some ''path contains relative components''))
     else Ok (WorkspacePath p))"

section \<open>Opening a workspace\<close>

record open_workspace_request =
  ow_path :: string
  ow_trust_acknowledged :: bool

record workspace_files =
  wf_exists :: "string \<Rightarrow> bool"
  wf_realpath :: "string \<Rightarrow> (string, string) result"
  wf_is_dir :: "string \<Rightarrow> bool"
  wf_read_dir :: "string \<Rightarrow> (unit, string) result"
  wf_create_new :: "string \<Rightarrow> (unit, string) result"
  wf_remove_file :: "string \<Rightarrow> (unit, string) result"
  wf_error_text :: "workspace_path_error \<Rightarrow> string"

definition probe_workspace_permissions :: "workspace_files \<Rightarrow> (nat \<Rightarrow> string) \<Rightarrow> string \<Rightarrow>
    (unit, 'e app_service_error) result" where
  "probe_workspace_permissions fs uuid root_path =
     try_then (map_err (WorkspacePermissionDenied root_path) (wf_read_dir fs root_path)) (\<lambda>_.
       let probe = path_join root_path (''.taugentic-permission-probe-'' @ uuid 0)
       in case wf_create_new fs probe of
            Inr _ \<Rightarrow> map_err (WorkspacePermissionDenied probe) (wf_remove_file fs probe)
          | Inl reason \<Rightarrow> Err (WorkspacePermissionDenied root_path reason))"

text \<open>\<open>Path::ancestors\<close> of a canonical path: itself, its parent, up to the root directory.\<close>

definition absolute_text :: "string list \<Rightarrow> string" where
  "absolute_text names = ''/'' @ join_with ''/'' names"

definition path_ancestors :: "string \<Rightarrow> string list" where
  "path_ancestors p = (let names = map component_text (tl (path_components p))
     in map (\<lambda>n. absolute_text (take n names)) (rev [0..<Suc (length names)]))"

definition detect_git_repo_root :: "workspace_files \<Rightarrow> string \<Rightarrow> (workspace_path option, 'e app_service_error) result" where
  "detect_git_repo_root fs root_path =
     (case List.find (\<lambda>a. wf_exists fs (path_join a ''.git'')) (path_ancestors root_path) of
        None \<Rightarrow> Ok None
      | Some a \<Rightarrow> map_err (\<lambda>e. WorkspaceCanonicalizeFailed a (wf_error_text fs e))
          (try_then (from_canonical_wire_value a) (\<lambda>p. Ok (Some p))))"

text \<open>The last component, if it is a name.\<close>

definition workspace_display_name :: "string \<Rightarrow> string" where
  "workspace_display_name p =
     (case rev (path_components p) of
        Normal name # _ \<Rightarrow> if trim name = [] then p else trim name
      | _ \<Rightarrow> p)"

definition confirmed :: "workspace \<Rightarrow> bool" where
  "confirmed w = (case ws_trust_state w of UserConfirmed _ \<Rightarrow> True | _ \<Rightarrow> False)"

definition open_workspace :: "workspace_files \<Rightarrow> (nat \<Rightarrow> string) \<Rightarrow> string \<Rightarrow> open_workspace_request \<Rightarrow>
    memory_store \<Rightarrow> ('e, workspace) app_outcome" where
  "open_workspace fs uuid now request st =
     (let input = ow_path request
      in if \<not> wf_exists fs input then (st, Err (WorkspaceNotFound input))
         else
           app_check (map_err (\<lambda>e. WorkspaceCanonicalizeFailed input (wf_error_text fs e))
             (canonicalize_existing (wf_realpath fs) input)) st (\<lambda>root_path.
           if \<not> wf_is_dir fs (path_str root_path) then (st, Err (WorkspaceNotADirectory (path_str root_path)))
           else
             app_check (probe_workspace_permissions fs uuid (path_str root_path)) st (\<lambda>_.
             app_check (detect_git_repo_root fs (path_str root_path)) st (\<lambda>git_root.
             let existing = workspace_by_root_realpath (path_str root_path) st
             in if \<not> ow_trust_acknowledged request \<and> \<not> some_and confirmed existing
                then (st, Err (AppWorkspaceTrustRequired (path_str root_path)))
                else
                  let w = (case existing of
                        Some x \<Rightarrow> x\<lparr>ws_last_used_at := now,
                          ws_trust_state := (if ow_trust_acknowledged request then UserConfirmed now else ws_trust_state x),
                          ws_git_repo_root := git_root\<rparr>
                      | None \<Rightarrow> \<lparr>ws_id = Ident (''workspace-'' @ uuid 1), ws_root_realpath = root_path,
                          ws_display_name = workspace_display_name input, ws_trust_state = UserConfirmed now,
                          ws_git_repo_root = git_root, ws_created_at = now, ws_last_used_at = now\<rparr>)
                  in app_store (upsert_workspace w st) (\<lambda>st1 w'. (st1, Ok w'))))))"

definition list_workspaces :: "memory_store \<Rightarrow> workspace list" where
  "list_workspaces st = bt_values (ms_workspaces st)"

definition get_workspace :: "workspace_id \<Rightarrow> memory_store \<Rightarrow> (workspace, 'e app_service_error) result" where
  "get_workspace i st = (case bt_get (ms_workspaces st) i of
     None \<Rightarrow> Err (WorkspaceNotFound (as_str i)) | Some w \<Rightarrow> Ok w)"

section \<open>Secrets\<close>

lemma app_store_cases:
  assumes "app_store r k = (st', res)"
  obtains (err) e where "r = (st', Err e)" "res = Err (AppStore e)"
    | (ok) st1 x where "r = (st1, Ok x)" "k st1 x = (st', res)"
  using assms by (auto simp: app_store_def split: prod.splits sum.splits)

definition names_ok :: "string \<Rightarrow> string \<Rightarrow> bool" where
  "names_ok client owner \<longleftrightarrow> trim client \<noteq> [] \<and> trim owner \<noteq> []"

lemma sanitized:
  "trim client \<noteq> [] \<Longrightarrow> sanitize_session_owner_client_name client = Ok (trim client)"
  "trim owner \<noteq> [] \<Longrightarrow> sanitize_session_owner_principal_id owner = Ok (trim owner)"
  "trim client = [] \<Longrightarrow> sanitize_session_owner_client_name client = Err EmptySessionOwnerClientName"
  "trim owner = [] \<Longrightarrow> sanitize_session_owner_principal_id owner = Err EmptySessionOwnerPrincipalId"
  by (simp_all add: sanitize_session_owner_client_name_def sanitize_session_owner_principal_id_def)

text \<open>Attaching in one case distinction.\<close>

lemma attach_eq:
  assumes "names_ok client owner"
  shows "attach_session sha256 uuid client owner s authority st =
    (case bt_get (ms_sessions st) s of
       None \<Rightarrow> (st, Err (AppSessionNotFound (as_str s)))
     | Some x \<Rightarrow>
         if sn_owner_principal_id x \<noteq> trim owner then (st, Err (AppSessionNotFound (as_str s)))
         else if accepts x (trim owner) (sha256 authority)
         then (let y = rotated x (sha256 authority) (sha256 (issue_session_authority uuid))
               in (st\<lparr>ms_sessions := bt_put s y (ms_sessions st)\<rparr>,
                   Ok \<lparr>sx_session = project_session_summary y, sx_authority = issue_session_authority uuid\<rparr>))
         else (st, Err (SessionAuthorityRejected (as_str s))))"
  using assms
  by (auto simp: attach_session_def sanitized names_ok_def rotate_eq Let_def split: option.splits)

lemma attach_ok_iff:
  "is_ok (snd (attach_session sha256 uuid client owner s authority st)) \<longleftrightarrow>
     names_ok client owner \<and> (\<exists>x. bt_get (ms_sessions st) s = Some x \<and> accepts x (trim owner) (sha256 authority))"
proof (cases "names_ok client owner")
  case True
  then show ?thesis by (auto simp: attach_eq Let_def accepts_def split: option.splits)
next
  case False
  then show ?thesis
    by (cases "trim client = []") (simp_all add: attach_session_def sanitized names_ok_def)
qed

lemma attach_okE:
  assumes "attach_session sha256 uuid client owner s authority st = (st', Ok r)"
  obtains x where "names_ok client owner" "bt_get (ms_sessions st) s = Some x"
    "accepts x (trim owner) (sha256 authority)"
    "st' = st\<lparr>ms_sessions := bt_put s (rotated x (sha256 authority) (sha256 (issue_session_authority uuid))) (ms_sessions st)\<rparr>"
    "sx_authority r = issue_session_authority uuid"
    "bt_get (ms_sessions st') s = Some (rotated x (sha256 authority) (sha256 (sx_authority r)))"
proof -
  have n: "names_ok client owner" and "\<exists>x. bt_get (ms_sessions st) s = Some x \<and> accepts x (trim owner) (sha256 authority)"
    using attach_ok_iff [of sha256 uuid client owner s authority st, where 'a = 'a] assms by simp_all
  then obtain x where x: "bt_get (ms_sessions st) s = Some x" "accepts x (trim owner) (sha256 authority)" by blast
  from assms x(2) have "st' = st\<lparr>ms_sessions := bt_put s (rotated x (sha256 authority) (sha256 (issue_session_authority uuid))) (ms_sessions st)\<rparr>"
    "sx_authority r = issue_session_authority uuid"
    by (auto simp: attach_eq [OF n] x(1) Let_def split: if_splits)
  with n x show thesis by (intro that [of x]) simp_all
qed

lemma rotated_accepts:
  assumes "accepts x (trim owner) presented"
  shows "accepts (rotated x presented new_hash) p h \<longleftrightarrow>
    p = trim owner \<and> (h = new_hash \<or> h = presented \<and> presented = sn_current_hash x)"
  using assms by (auto simp: accepts_def rotated_def)

text \<open>
  C27. A session's secret is good for one more use than the one it was made for. Attaching with it hands out a new
  secret; the one presented still works as long as the new one has not been used, so a client that
  lost the answer can ask again. Once the new secret has been used the old one is refused, and nothing else
  in the store has changed but the session.
\<close>

theorem superseded_secret_is_refused:
  fixes st :: memory_store and r1 r2 :: session_access
  assumes first: "attach_session sha256 uuid client owner s secret st = (st1, Ok r1 :: 'e app_service_error + session_access)"
    and second: "attach_session sha256 uuid' client' owner' s (sx_authority r1) st1 =
      (st2, Ok r2 :: 'e app_service_error + session_access)"
    and distinct: "sha256 secret \<noteq> sha256 (sx_authority r1)" "sha256 secret \<noteq> sha256 (sx_authority r2)"
  shows "attach_session sha256 uuid'' client owner s secret st2 =
      (st2, Err (SessionAuthorityRejected (as_str s)) :: 'e app_service_error + session_access) \<and>
    (\<forall>later \<in> {sx_authority r1, sx_authority r2}.
      is_ok (snd (attach_session sha256 uuid'' client owner s later st2 :: ('e, session_access) app_outcome))) \<and>
    (is_ok (snd (attach_session sha256 uuid'' client owner s secret st1 :: ('e, session_access) app_outcome)) \<longleftrightarrow>
       map_option sn_current_hash (bt_get (ms_sessions st) s) = Some (sha256 secret)) \<and>
    st2\<lparr>ms_sessions := ms_sessions st\<rparr> = st \<and>
    (\<forall>t. t \<noteq> s \<longrightarrow> bt_get (ms_sessions st2) t = bt_get (ms_sessions st) t)"
proof -
  obtain x where x: "names_ok client owner" "bt_get (ms_sessions st) s = Some x"
      "accepts x (trim owner) (sha256 secret)"
      "st1 = st\<lparr>ms_sessions := bt_put s (rotated x (sha256 secret) (sha256 (issue_session_authority uuid))) (ms_sessions st)\<rparr>"
      "bt_get (ms_sessions st1) s = Some (rotated x (sha256 secret) (sha256 (sx_authority r1)))"
    using attach_okE [OF first ] by metis
  define y where "y = rotated x (sha256 secret) (sha256 (sx_authority r1))"
  obtain y' where y': "names_ok client' owner'" "bt_get (ms_sessions st1) s = Some y'"
      "accepts y' (trim owner') (sha256 (sx_authority r1))"
      "st2 = st1\<lparr>ms_sessions := bt_put s (rotated y' (sha256 (sx_authority r1)) (sha256 (issue_session_authority uuid'))) (ms_sessions st1)\<rparr>"
      "bt_get (ms_sessions st2) s = Some (rotated y' (sha256 (sx_authority r1)) (sha256 (sx_authority r2)))"
    using attach_okE [OF second] by metis
  have [simp]: "y' = y" using y'(2) x(5) by (simp add: y_def)
  have ow: "sn_owner_principal_id x = trim owner" "sn_owner_principal_id y = trim owner" "trim owner' = trim owner"
    and cur: "sn_current_hash y = sha256 (sx_authority r1)"
    using x(3) y'(3) by (auto simp: accepts_def y_def rotated_def)
  define z where "z = rotated y (sha256 (sx_authority r1)) (sha256 (sx_authority r2))"
  have z: "bt_get (ms_sessions st2) s = Some z" "sn_owner_principal_id z = trim owner"
    using y'(5) ow(2) by (simp_all add: z_def rotated_def)
  have acc: "accepts z (trim owner) h \<longleftrightarrow> h = sha256 (sx_authority r2) \<or> h = sha256 (sx_authority r1)" for h
    using rotated_accepts [of y owner' "sha256 (sx_authority r1)" "sha256 (sx_authority r2)" "trim owner" h] y'(3) ow cur
    by (auto simp: z_def)
  have "attach_session sha256 uuid'' client owner s secret st2 =
      (st2, Err (SessionAuthorityRejected (as_str s)) :: 'e app_service_error + session_access)"
    using acc [of "sha256 secret"] distinct by (simp add: attach_eq [OF x(1)] z)
  moreover have "is_ok (snd (attach_session sha256 uuid'' client owner s secret st1 :: ('e, session_access) app_outcome)) \<longleftrightarrow> sn_current_hash x = sha256 secret"
    using rotated_accepts [OF x(3), of "sha256 (sx_authority r1)" "trim owner" "sha256 secret"] x(1) distinct(1)
    by (auto simp: attach_ok_iff x(5))
  ultimately show ?thesis
    using x(1,2,4) y'(4) z acc by (auto simp: attach_ok_iff)
qed

section \<open>Credentials\<close>

lemma find_unique:
  assumes "x \<in> set xs" and "p x" and only: "\<And>y. y \<in> set xs \<Longrightarrow> p y \<Longrightarrow> y = x"
  shows "List.find p xs = Some x"
proof (cases "List.find p xs")
  case None
  with assms(1,2) show ?thesis unfolding find_None_iff by blast
next
  case (Some y)
  then have "p y" "y \<in> set xs" unfolding find_Some_iff by auto
  with only Some show ?thesis by simp
qed

lemma bt_put_values: "y \<in> set (bt_values (bt_put k v m)) \<Longrightarrow> y = v \<or> y \<in> set (bt_values m)"
  "v \<in> set (bt_values (bt_put k v m))"
  unfolding bt_put_def by (simp_all add: image_iff) force

lemma sanitized_credential:
  "\<lbrakk>trim presented = c; 32 \<le> length c; list_all ascii c; list_all (\<lambda>x. [x] \<notin> set white_space) c\<rbrakk> \<Longrightarrow>
    sanitize_client_credential presented = Ok c"
  by (auto simp: sanitize_client_credential_def Let_def list_all_iff list_ex_iff)

text \<open>
  Logging in again. The credential handed out with a new principal, presented later with white
  space around it, resolves to that principal and changes nothing, whatever client name it comes
  with, provided no other principal has the same hash.
\<close>

theorem issued_credential_resolves:
  assumes issue: "resolve_or_issue_session_principal sha256 uuid client None st =
      (st1, Ok r :: 'e app_service_error + session_principal_resolution)"
    and credential: "trim presented = pr'_client_credential r" "32 \<le> length (pr'_client_credential r)"
      "list_all ascii (pr'_client_credential r)" "list_all (\<lambda>x. [x] \<notin> set white_space) (pr'_client_credential r)"
    and unique: "\<forall>p\<in>set (bt_values (ms_principals st)). pp_credential_hash p \<noteq> sha256 (pr'_client_credential r)"
    and name: "trim client' \<noteq> []"
  shows "resolve_or_issue_session_principal sha256 uuid' client' (Some presented) st1 =
      (st1, Ok r :: 'e app_service_error + session_principal_resolution) \<and>
    pr'_client_name r = trim client"
proof -
  define p where "p = \<lparr>pp_id = ''principal-'' @ uuid 2, pp_client_name = trim client,
    pp_credential_hash = sha256 (issue_client_credential uuid)\<rparr>"
  have n: "trim client \<noteq> []"
    using issue by (cases "trim client = []") (simp_all add: resolve_or_issue_session_principal_def sanitized)
  then have st1: "st1 = save_principal p st" and r: "pr'_client_credential r = issue_client_credential uuid"
      "r = \<lparr>pr'_client_name = pp_client_name p, pr'_principal_id = pp_id p, pr'_client_credential = issue_client_credential uuid\<rparr>"
    using issue by (auto simp: resolve_or_issue_session_principal_def sanitized issue_principal_def p_def Let_def)
  have "principal_by_credential_hash (sha256 (issue_client_credential uuid)) st1 = Some p"
    unfolding principal_by_credential_hash_def st1 save_principal_def
  proof (rule find_unique)
    show "p \<in> set (bt_values (ms_principals (st\<lparr>ms_principals := bt_put (pp_id p) p (ms_principals st)\<rparr>)))"
      using bt_put_values(2) by simp
    show "pp_credential_hash p = sha256 (issue_client_credential uuid)" by (simp add: p_def)
    fix y assume "y \<in> set (bt_values (ms_principals (st\<lparr>ms_principals := bt_put (pp_id p) p (ms_principals st)\<rparr>)))"
      and h: "pp_credential_hash y = sha256 (issue_client_credential uuid)"
    then have "y = p \<or> y \<in> set (bt_values (ms_principals st))"
      using bt_put_values(1) [of y "pp_id p" p "ms_principals st"] by simp
    with h unique show "y = p" by (auto simp: r(1))
  qed
  with r n name show ?thesis
    by (simp add: resolve_or_issue_session_principal_def sanitized sanitized_credential [OF credential] p_def)
qed

section \<open>Consent\<close>

lemma find_by_root:
  "workspace_by_root_realpath path st = Some w \<Longrightarrow>
    path_str (ws_root_realpath w) = path \<and> w \<in> set (bt_values (ms_workspaces st))"
  unfolding workspace_by_root_realpath_def find_Some_iff by (metis nth_mem)

lemma canonicalized:
  "canonicalize_existing realpath p = Ok w \<Longrightarrow> realpath p = Ok (path_str w)"
  by (auto simp: canonicalize_existing_def try_then_def ensure_absolute_def split: sum.splits if_splits)

lemma app_check_changed:
  "\<lbrakk>app_check r st k = (st', res); st' \<noteq> st\<rbrakk> \<Longrightarrow> \<exists>x. r = Ok x \<and> k x = (st', res)"
  by (auto simp: app_check_def split: sum.splits)

text \<open>The workspace a request writes, given what the store holds for the directory.\<close>

definition opened_workspace :: "(nat \<Rightarrow> string) \<Rightarrow> string \<Rightarrow> open_workspace_request \<Rightarrow> workspace_path \<Rightarrow>
    workspace_path option \<Rightarrow> workspace option \<Rightarrow> workspace" where
  "opened_workspace uuid now request root_path git_root existing =
     (case existing of
        Some x \<Rightarrow> x\<lparr>ws_last_used_at := now,
          ws_trust_state := (if ow_trust_acknowledged request then UserConfirmed now else ws_trust_state x),
          ws_git_repo_root := git_root\<rparr>
      | None \<Rightarrow> \<lparr>ws_id = Ident (''workspace-'' @ uuid 1), ws_root_realpath = root_path,
          ws_display_name = workspace_display_name (ow_path request), ws_trust_state = UserConfirmed now,
          ws_git_repo_root = git_root, ws_created_at = now, ws_last_used_at = now\<rparr>)"

lemma open_workspace_changes:
  assumes "open_workspace fs uuid now request st = (st', res)" and "st' \<noteq> st"
  shows "\<exists>root_path git_root. wf_realpath fs (ow_path request) = Ok (path_str root_path) \<and>
    (ow_trust_acknowledged request \<or> some_and confirmed (workspace_by_root_realpath (path_str root_path) st)) \<and>
    app_store (upsert_workspace (opened_workspace uuid now request root_path git_root
      (workspace_by_root_realpath (path_str root_path) st)) st) (\<lambda>st1 w'. (st1, Ok w')) = (st', res)"
proof -
  let ?open = "\<lambda>root_path git_root. app_store (upsert_workspace (opened_workspace uuid now request root_path git_root
      (workspace_by_root_realpath (path_str root_path) st)) st) (\<lambda>st1 w'. (st1, Ok w'))"
  have "app_check (map_err (\<lambda>e. WorkspaceCanonicalizeFailed (ow_path request) (wf_error_text fs e))
        (canonicalize_existing (wf_realpath fs) (ow_path request))) st (\<lambda>root_path.
      if \<not> wf_is_dir fs (path_str root_path) then (st, Err (WorkspaceNotADirectory (path_str root_path)))
      else app_check (probe_workspace_permissions fs uuid (path_str root_path)) st (\<lambda>_.
        app_check (detect_git_repo_root fs (path_str root_path)) st (\<lambda>git_root.
          if \<not> ow_trust_acknowledged request \<and>
            \<not> some_and confirmed (workspace_by_root_realpath (path_str root_path) st)
          then (st, Err (AppWorkspaceTrustRequired (path_str root_path)))
          else ?open root_path git_root))) = (st', res)"
    using assms unfolding open_workspace_def Let_def opened_workspace_def by (simp split: if_splits)
  from app_check_changed [OF this assms(2)] obtain root_path
    where c: "canonicalize_existing (wf_realpath fs) (ow_path request) = Ok root_path"
    and "app_check (probe_workspace_permissions fs uuid (path_str root_path)) st (\<lambda>_.
        app_check (detect_git_repo_root fs (path_str root_path)) st (\<lambda>git_root.
          if \<not> ow_trust_acknowledged request \<and>
            \<not> some_and confirmed (workspace_by_root_realpath (path_str root_path) st)
          then (st, Err (AppWorkspaceTrustRequired (path_str root_path)))
          else ?open root_path git_root)) = (st', res)"
    using assms(2) by (auto split: if_splits)
  from app_check_changed [OF this(2) assms(2)] have "app_check (detect_git_repo_root fs (path_str root_path)) st
      (\<lambda>git_root. if \<not> ow_trust_acknowledged request \<and>
            \<not> some_and confirmed (workspace_by_root_realpath (path_str root_path) st)
          then (st, Err (AppWorkspaceTrustRequired (path_str root_path)))
          else ?open root_path git_root) = (st', res)" by blast
  from app_check_changed [OF this assms(2)] obtain git_root
    where "ow_trust_acknowledged request \<or> some_and confirmed (workspace_by_root_realpath (path_str root_path) st)"
      "?open root_path git_root = (st', res)" using assms(2) by (auto split: if_splits)
  with canonicalized [OF c] show ?thesis by blast
qed

lemma upserted:
  assumes "app_store (upsert_workspace u st) (\<lambda>st1 w'. (st1, Ok w')) = (st', res)"
    and "bt_get (ms_workspaces st') i = Some w"
  shows "bt_get (ms_workspaces st) i = Some w \<or> w = u \<and> i = ws_id u"
  using assms by (auto simp: upsert_workspace_def split: option.splits if_splits)

text \<open>
  C28. A workspace is trusted only because the user said so. Whenever a workspace is confirmed after a request to open
  one, either it was confirmed before, for the same directory and from the same moment, or this request carried
  the user's acknowledgement for the directory its path really is.
\<close>

theorem trust_needs_acknowledgement:
  assumes ok: "store_ok st" and opened: "open_workspace fs uuid now request st = (st', res)"
    and w: "bt_get (ms_workspaces st') i = Some w" "confirmed w"
  shows "(\<exists>v. bt_get (ms_workspaces st) i = Some v \<and> ws_trust_state v = ws_trust_state w \<and>
      ws_root_realpath v = ws_root_realpath w) \<or>
    (ow_trust_acknowledged request \<and> ws_trust_state w = UserConfirmed now \<and>
      wf_realpath fs (ow_path request) = Ok (path_str (ws_root_realpath w)))"
proof (cases "st' = st")
  case False
  obtain root_path git_root where real: "wf_realpath fs (ow_path request) = Ok (path_str root_path)"
    and consent: "ow_trust_acknowledged request \<or> some_and confirmed (workspace_by_root_realpath (path_str root_path) st)"
    and put: "app_store (upsert_workspace (opened_workspace uuid now request root_path git_root
      (workspace_by_root_realpath (path_str root_path) st)) st) (\<lambda>st1 w'. (st1, Ok w')) = (st', res)"
    using open_workspace_changes [OF opened False] by blast
  show ?thesis
  proof (cases "workspace_by_root_realpath (path_str root_path) st")
    case None
    with upserted [OF put w(1)] consent real show ?thesis by (auto simp: opened_workspace_def)
  next
    case (Some x)
    have x: "path_str (ws_root_realpath x) = path_str root_path" "bt_get (ms_workspaces st) (ws_id x) = Some x"
    proof -
      from find_by_root [OF Some] obtain j where "path_str (ws_root_realpath x) = path_str root_path"
        "(j, x) \<in> set (ms_workspaces st)" by auto
      moreover have "workspaces_ok st" using ok by (simp add: store_ok_def)
      ultimately show "path_str (ws_root_realpath x) = path_str root_path" "bt_get (ms_workspaces st) (ws_id x) = Some x"
        using bt_get_iff [of "ms_workspaces st" j x] by (auto simp: workspaces_ok_def)
    qed
    with Some upserted [OF put w(1)] consent real show ?thesis by (auto simp: opened_workspace_def)
  qed
qed (use w in auto)

section \<open>Witnesses\<close>

text \<open>Three attachments in a row, with a hash that shows its argument.\<close>

definition demo_open_store :: memory_store where
  "demo_open_store = memory_store_new\<lparr>ms_sessions := [(Ident ''s'', demo_session)]\<rparr>"

definition demo_attach :: "string \<Rightarrow> string \<Rightarrow> memory_store \<Rightarrow> (unit, session_access) app_outcome" where
  "demo_attach new secret = attach_session (\<lambda>x. x) (\<lambda>_. new) '' c'' ''p'' (Ident ''s'') secret"

lemma demo_names: "trim '' c'' = ''c''" "trim ''p'' = ''p''"
  by code_simp+

definition demo_access :: "string \<Rightarrow> session_access" where
  "demo_access new = \<lparr>sx_session = project_session_summary demo_session, sx_authority = new @ new\<rparr>"

definition demo_attached :: "string \<Rightarrow> string \<Rightarrow> memory_store \<Rightarrow> memory_store" where
  "demo_attached new secret st = fst (demo_attach new secret st)"

lemma demo_attach_first: "demo_attach ''a'' ''h0'' demo_open_store = (demo_attached ''a'' ''h0'' demo_open_store, Ok (demo_access ''a''))"
  by (simp add: demo_attached_def demo_attach_def attach_session_def sanitize_session_owner_client_name_def
    sanitize_session_owner_principal_id_def demo_names demo_open_store_def rotate_session_authority_def demo_session_def
    demo_access_def issue_session_authority_def project_session_summary_def Let_def)

lemma demo_attach_second: "demo_attach ''b'' (sx_authority (demo_access ''a'')) (demo_attached ''a'' ''h0'' demo_open_store) =
    (demo_attached ''b'' ''aa'' (demo_attached ''a'' ''h0'' demo_open_store), Ok (demo_access ''b''))"
  by (simp add: demo_attached_def demo_attach_def attach_session_def sanitize_session_owner_client_name_def
    sanitize_session_owner_principal_id_def demo_names demo_open_store_def rotate_session_authority_def demo_session_def
    demo_access_def issue_session_authority_def project_session_summary_def Let_def)

theorem superseded_secret_is_refused_witness:
  "demo_attach ''c'' ''h0'' (demo_attached ''b'' ''aa'' (demo_attached ''a'' ''h0'' demo_open_store)) =
     (demo_attached ''b'' ''aa'' (demo_attached ''a'' ''h0'' demo_open_store), Err (SessionAuthorityRejected ''s''))"
proof -
  from superseded_secret_is_refused [OF demo_attach_first [unfolded demo_attach_def] demo_attach_second [unfolded demo_attach_def], of "\<lambda>_. ''c''"]
  show ?thesis by (simp add: demo_access_def demo_attach_def)
qed

definition demo_uuid :: "nat \<Rightarrow> string" where
  "demo_uuid n = ''0123456789abcdef0123456789abcde'' @ [if n = 0 then CHR ''a'' else CHR ''b'']"

definition demo_principal :: session_principal_resolution where
  "demo_principal = \<lparr>pr'_client_name = ''c'', pr'_principal_id = ''principal-'' @ demo_uuid 2,
     pr'_client_credential = demo_uuid 0 @ demo_uuid 1\<rparr>"

definition demo_issued :: memory_store where
  "demo_issued = fst (resolve_or_issue_session_principal (\<lambda>x. x) demo_uuid '' c'' None memory_store_new
     :: (unit, session_principal_resolution) app_outcome)"

theorem issued_credential_resolves_witness:
  "(resolve_or_issue_session_principal (\<lambda>x. x) (\<lambda>_. ''z'') ''p'' (Some (CHR '' '' # demo_uuid 0 @ demo_uuid 1)) demo_issued
     :: (unit, session_principal_resolution) app_outcome) = (demo_issued, Ok demo_principal)"
proof -
  have issue: "(resolve_or_issue_session_principal (\<lambda>x. x) demo_uuid '' c'' None memory_store_new
      :: (unit, session_principal_resolution) app_outcome) = (demo_issued, Ok demo_principal)"
    by (simp add: resolve_or_issue_session_principal_def sanitize_session_owner_client_name_def demo_names
      issue_principal_def demo_issued_def demo_principal_def issue_client_credential_def Let_def)
  have c: "trim (CHR '' '' # demo_uuid 0 @ demo_uuid 1) = demo_uuid 0 @ demo_uuid 1" by code_simp
  have "list_all ascii (demo_uuid 0 @ demo_uuid 1)"
    "list_all (\<lambda>x. [x] \<notin> set white_space) (demo_uuid 0 @ demo_uuid 1)" by code_simp+
  then show ?thesis
    using issued_credential_resolves [OF issue, of "CHR '' '' # demo_uuid 0 @ demo_uuid 1" "''p''" "\<lambda>_. ''z''"] c
    by (simp add: demo_principal_def memory_store_new_def demo_names) (simp add: demo_uuid_def)
qed

definition demo_workspace_files :: workspace_files where
  "demo_workspace_files = \<lparr>wf_exists = (\<lambda>p. p \<noteq> ''/d/.git''), wf_realpath = (\<lambda>_. Ok ''/d''), wf_is_dir = (\<lambda>_. True), wf_read_dir = (\<lambda>_. Ok ()),
     wf_create_new = (\<lambda>_. Ok ()), wf_remove_file = (\<lambda>_. Ok ()), wf_error_text = (\<lambda>_. ''e'')\<rparr>"

definition demo_opened_store :: "memory_store \<times> (unit app_service_error + workspace)" where
  "demo_opened_store = open_workspace demo_workspace_files (\<lambda>_. ''u'') ''now'' \<lparr>ow_path = ''/e'', ow_trust_acknowledged = True\<rparr> memory_store_new"

theorem trust_needs_acknowledgement_witness:
  "\<exists>w. bt_get (ms_workspaces (fst demo_opened_store)) (Ident ''workspace-u'') = Some w \<and> confirmed w \<and>
     ws_trust_state w = UserConfirmed ''now'' \<and> path_str (ws_root_realpath w) = ''/d'' \<and> ws_git_repo_root w = Some (WorkspacePath ''/'')"
proof -
  have opened: "open_workspace demo_workspace_files (\<lambda>_. ''u'') ''now'' \<lparr>ow_path = ''/e'', ow_trust_acknowledged = True\<rparr> memory_store_new =
      (fst demo_opened_store, snd demo_opened_store)" by (simp add: demo_opened_store_def)
  obtain w where w: "bt_get (ms_workspaces (fst demo_opened_store)) (Ident ''workspace-u'') = Some w" "confirmed w"
    "ws_git_repo_root w = Some (WorkspacePath ''/'')"
  proof -
    have "map_option (\<lambda>w. (ws_trust_state w, path_str (ws_root_realpath w), ws_git_repo_root w)) (bt_get (ms_workspaces (fst demo_opened_store)) (Ident ''workspace-u'')) =
      Some (UserConfirmed ''now'', ''/d'', Some (WorkspacePath ''/''))" by code_simp
    then show thesis by (auto simp: confirmed_def intro!: that)
  qed
  from trust_needs_acknowledgement [OF store_ok_new opened w(1,2)] w show ?thesis
    by (auto simp: memory_store_new_def demo_workspace_files_def)
qed

end
