(* ===== verification/RuntimeControl.thy ===== *)
theory RuntimeControl
  imports Strings
begin

text \<open>
  The control plane of the daemon (\<open>crates/ta-orchestrator/src/daemon_control/state.rs\<close>): the
  persisted state of runtime-mode transitions, the ownership record, the mutation lock and the
  status derived from them. An operation is a function of the control files; what it asks of
  the rest of the machine (the outcome of a file operation, a remote call, the service manager,
  the clock) it takes from a \<open>control_env\<close>, one answer per tick. A file that parses is the value
  it holds.
\<close>

section \<open>Data\<close>

datatype daemon_runtime_mode = ModeLocal | ModeBackground

datatype daemon_actual_runtime_mode = ActualStopped | ActualLocal | ActualBackground | ActualForeign

datatype daemon_transition_status = TransIdle | TransApplying | TransDegradedReconcileRequired | TransFailedNoStateChange

datatype daemon_control_action = ActStart | ActStop | ActEnableBackground | ActDisableBackground | ActReconcile

datatype daemon_control_error_code =
    CodeUnsupportedPlatform | CodeExternalRuntime | CodeOwnershipMismatch | CodeReconcileRequired | CodeTransitionFailed

datatype daemon_pending_transition_kind = PublicEnableBackground | PublicDisableBackground | PublicRecoverToLocal

datatype pending_transition_kind = EnableBackground | DisableBackground | RecoverToLocal

datatype transition_step =
    StepPrepare | StopConflictingRuntime | EnsureBackgroundService | WaitForBackgroundRuntime
  | StopBackgroundService | WaitForBackgroundShutdown | ClearOwnership | StartLocalRuntime

record pending_transition =
  pt_kind :: pending_transition_kind
  pt_op_id :: nat
  pt_step :: transition_step

record transition_error_record =
  te_code :: daemon_control_error_code
  te_message :: string

record persisted_runtime_control_state =
  rc_background_opt_in :: bool
  rc_desired_mode :: daemon_runtime_mode
  rc_pending_transition :: "pending_transition option"
  rc_last_error :: "transition_error_record option"
  rc_generation :: nat

definition default_control_state :: persisted_runtime_control_state where
  "default_control_state = \<lparr>rc_background_opt_in = False, rc_desired_mode = ModeLocal,
     rc_pending_transition = None, rc_last_error = None, rc_generation = 0\<rparr>"

record runtime_control_ownership_record =
  ow_runtime_mode :: daemon_runtime_mode
  ow_daemon_instance_id :: string
  ow_control_token :: string
  ow_process_id :: "nat option"

record daemon_status_result =
  ds_ready :: bool
  ds_daemon_instance_id :: string
  ds_runtime_mode :: daemon_runtime_mode
  ds_socket_path :: string
  ds_log_path :: string
  ds_version :: string

record background_service_state =
  bs_available :: bool
  bs_enabled :: bool
  bs_loaded :: bool
  bs_running :: bool
  bs_process_id :: "nat option"
  bs_service_name :: "string option"

record runtime_control_observed_state =
  ob_daemon_status :: "daemon_status_result option"
  ob_background_service :: background_service_state
  ob_ownership :: "runtime_control_ownership_record option"
  ob_socket_path :: string
  ob_log_path :: string
  ob_daemon_version :: "string option"

record daemon_pending_transition_view =
  pv_kind :: daemon_pending_transition_kind
  pv_op_id :: string

record daemon_control_status_result =
  cs_background_opt_in :: bool
  cs_desired_mode :: daemon_runtime_mode
  cs_actual_mode :: daemon_actual_runtime_mode
  cs_transition_status :: daemon_transition_status
  cs_reconcile_required :: bool
  cs_allowed_actions :: "daemon_control_action list"
  cs_error_code :: "daemon_control_error_code option"
  cs_message :: string
  cs_pending_transition :: "daemon_pending_transition_view option"
  cs_socket_path :: string
  cs_log_path :: string
  cs_daemon_version :: "string option"
  cs_protocol_version :: string

text \<open>\<open>BackgroundServiceControlError\<close>; the causes of the operating system are texts.\<close>

datatype background_service_control_error =
    RuntimeModeError string
  | UnsupportedPlatform
  | MissingHomeDirectory
  | MissingLogDirectory
  | CreateDirectory string string
  | ReadFile string string
  | WriteFile string string
  | RemoveFile string string
  | ParseOwnershipFile string string
  | ParseControlPlaneFile string string
  | SerializeControlPlaneFile string string
  | MutationLockTimeout string
  | CommandFailed string string

section \<open>The machine around the control files\<close>

text \<open>\<open>JsonRpcClientError\<close>, with the causes as texts.\<close>

datatype json_rpc_client_error =
    RpcSocket string | RpcCodec string | RpcSerialize string | RpcDeserialize string | RpcConfigureTimeout string
  | RpcWrite string | RpcFlush string | RpcRead string | RpcResponseTimeout string | RpcConnectionClosed
  | RpcRemote string | RpcMismatchedResponseId | RpcMismatchedErrorId | RpcUnexpectedMessage string

text \<open>\<open>RuntimeControlHandoffError\<close>.\<close>

datatype runtime_control_handoff_error =
    HoControl background_service_control_error
  | HoRpc json_rpc_client_error
  | HoActionNotAllowed string
  | HoCurrentExecutable string
  | HoSpawn string
  | HoResolveBinary string
  | HoMissingCommand
  | HoUnknownCommand string
  | HoShutdownTimeout string
  | HoBackgroundStartTimeout string
  | HoMissingExpectedTransitionOpId
  | HoMissingExpectedOwnership

text \<open>The answers of \<open>kill\<close>, and the signals sent.\<close>

datatype kill_result = KillOk | KillPermission | KillNoProcess | KillOther string

datatype signal = SigTerm | SigKill

text \<open>What is at the path of the daemon's socket.\<close>

datatype socket_file = NoFile | SocketFile | OtherFile

text \<open>A remote endpoint is its bind address, its token and its path.\<close>

record daemon_control_launch_config =
  lc_socket_name :: string
  lc_log_path :: string
  lc_control_token :: "string option"
  lc_remote :: "(string \<times> string \<times> string) option"

definition with_control_token :: "string option \<Rightarrow> daemon_control_launch_config \<Rightarrow> daemon_control_launch_config" where
  "with_control_token t c = c\<lparr>lc_control_token := t\<rparr>"

text \<open>What a lock file holds: a line with the owner's process, if that line could be read.\<close>

record lock_metadata =
  lm_process_id :: "nat option"
  lm_age_ms :: nat

datatype service_call = ServiceEnabled string daemon_control_launch_config | ServiceDisabled | ServiceStopped

text \<open>A handoff process: its subcommand and the environment it is given.\<close>

record handoff_process =
  hp_command :: string
  hp_environment :: "(string \<times> string) list"

record control_world =
  cw_tick :: nat
  cw_state :: "persisted_runtime_control_state option"
  cw_owner :: "runtime_control_ownership_record option"
  cw_lock :: "lock_metadata option"
  cw_services :: "service_call list"
  cw_spawned :: "handoff_process list"
  cw_stopped :: "string list"
  cw_signals :: "(signal \<times> nat) list"

text \<open>
  The environment. \<open>en_io n\<close> is the error of the file operation at tick \<open>n\<close>, if it fails; \<open>en_json n\<close> the
  error of parsing or printing a file. \<open>en_others\<close> is what other processes do to the lock file
  while this one sleeps. \<open>en_late n\<close> says how much more time has passed than the sleeps add up to.
\<close>

record control_env =
  en_state_dir :: string
  en_mode_dir :: string
  en_process_id :: nat
  en_temp_path :: "nat \<Rightarrow> string"
  en_io :: "nat \<Rightarrow> string option"
  en_json :: "nat \<Rightarrow> string option"
  en_others :: "nat \<Rightarrow> lock_metadata option \<Rightarrow> lock_metadata option"
  en_late :: "nat \<Rightarrow> nat"
  en_probe :: "nat \<Rightarrow> nat \<Rightarrow> kill_result"
  en_ps_stat :: "nat \<Rightarrow> nat \<Rightarrow> string option"
  en_kill :: "nat \<Rightarrow> signal \<Rightarrow> nat \<Rightarrow> kill_result"
  en_socket_file :: "nat \<Rightarrow> string + socket_file"
  en_spawn_daemon :: "nat \<Rightarrow> daemon_control_launch_config \<Rightarrow> string + nat"
  en_status :: "nat \<Rightarrow> json_rpc_client_error + daemon_status_result"
  en_call :: "nat \<Rightarrow> json_rpc_client_error + unit"
  en_service_state :: "nat \<Rightarrow> background_service_control_error + background_service_state"
  en_service :: "nat \<Rightarrow> service_call \<Rightarrow> background_service_control_error option"
  en_current_exe :: "nat \<Rightarrow> string + string"
  en_spawn :: "nat \<Rightarrow> string option"
  en_daemon_binary :: "nat \<Rightarrow> string + string"
  en_token :: "nat \<Rightarrow> string"
  en_error_text :: "runtime_control_handoff_error \<Rightarrow> string"

section \<open>Operations on the control files\<close>

type_synonym ('e, 'a) control = "control_world \<Rightarrow> control_world \<times> ('e + 'a)"

definition ctl_return :: "'a \<Rightarrow> ('e, 'a) control" where
  "ctl_return x w = (w, Ok x)"

definition ctl_fail :: "'e \<Rightarrow> ('e, 'a) control" where
  "ctl_fail e w = (w, Err e)"

text \<open>\<open>let x = m?; k(x)\<close>.\<close>

definition ctl_then :: "('e, 'a) control \<Rightarrow> ('a \<Rightarrow> ('e, 'b) control) \<Rightarrow> ('e, 'b) control" where
  "ctl_then m k w = (case m w of (w1, Inl e) \<Rightarrow> (w1, Err e) | (w1, Inr x) \<Rightarrow> k x w1)"

definition ctl_map_err :: "('e \<Rightarrow> 'f) \<Rightarrow> ('e, 'a) control \<Rightarrow> ('f, 'a) control" where
  "ctl_map_err f m w = (case m w of (w1, r) \<Rightarrow> (w1, map_err f r))"

text \<open>\<open>inspect_err\<close> with an action that ignores its own failure.\<close>

definition ctl_inspect_err :: "('e, 'a) control \<Rightarrow> ('e \<Rightarrow> control_world \<Rightarrow> control_world) \<Rightarrow> ('e, 'a) control" where
  "ctl_inspect_err m f w = (case m w of (w1, Inl e) \<Rightarrow> (f e w1, Err e) | (w1, Inr x) \<Rightarrow> (w1, Ok x))"

text \<open>\<open>let _ = m\<close>.\<close>

definition ctl_ignore :: "('e, 'a) control \<Rightarrow> control_world \<Rightarrow> control_world" where
  "ctl_ignore m w = fst (m w)"

text \<open>One question to the outside: the answer at the current tick.\<close>

definition ask :: "(nat \<Rightarrow> 'e + 'a) \<Rightarrow> ('e, 'a) control" where
  "ask f w = (w\<lparr>cw_tick := Suc (cw_tick w)\<rparr>, f (cw_tick w))"

definition modify :: "(control_world \<Rightarrow> control_world) \<Rightarrow> ('e, unit) control" where
  "modify f w = (f w, Ok ())"

text \<open>A file operation that may fail.\<close>

definition io :: "control_env \<Rightarrow> (string \<Rightarrow> 'e) \<Rightarrow> ('e, unit) control" where
  "io env mk = ask (\<lambda>n. case en_io env n of None \<Rightarrow> Ok () | Some reason \<Rightarrow> Err (mk reason))"

definition json :: "control_env \<Rightarrow> (string \<Rightarrow> 'e) \<Rightarrow> ('e, unit) control" where
  "json env mk = ask (\<lambda>n. case en_json env n of None \<Rightarrow> Ok () | Some reason \<Rightarrow> Err (mk reason))"

section \<open>Files\<close>

definition runtime_control_state_file_path :: "control_env \<Rightarrow> string" where
  "runtime_control_state_file_path env = path_join (en_state_dir env) ''runtime-control-state.json''"

definition runtime_control_lock_file_path :: "control_env \<Rightarrow> string" where
  "runtime_control_lock_file_path env = path_join (en_state_dir env) ''runtime-control.lock''"

definition runtime_control_ownership_file_path :: "control_env \<Rightarrow> string" where
  "runtime_control_ownership_file_path env = path_join (en_mode_dir env) ''runtime-control-owner.json''"

definition ensure_parent_dir :: "control_env \<Rightarrow> string \<Rightarrow> (background_service_control_error, unit) control" where
  "ensure_parent_dir env parent = io env (CreateDirectory parent)"

text \<open>
  Writing goes to a fresh file beside the target, which then replaces it; \<open>put\<close> is that
  replacement. After it only the directory remains to be synced.
\<close>

definition write_private_file_atomically :: "control_env \<Rightarrow> string \<Rightarrow> string \<Rightarrow> (control_world \<Rightarrow> control_world) \<Rightarrow>
    (background_service_control_error, unit) control" where
  "write_private_file_atomically env parent path put w =
     (let temp = en_temp_path env (cw_tick w)
      in ctl_then (io env (WriteFile temp)) (\<lambda>_.
         ctl_then (ctl_inspect_err (io env (WriteFile temp)) (\<lambda>_. ctl_ignore (io env (\<lambda>r. r)))) (\<lambda>_.
         ctl_then (io env (WriteFile path)) (\<lambda>_.
         ctl_then (modify put) (\<lambda>_.
         io env (WriteFile parent))))) w)"

definition read_persisted_runtime_control_state ::
    "control_env \<Rightarrow> (background_service_control_error, persisted_runtime_control_state) control" where
  "read_persisted_runtime_control_state env w =
     (let path = runtime_control_state_file_path env
      in ctl_then (io env (ReadFile path)) (\<lambda>_ w1.
         case cw_state w1 of
           None \<Rightarrow> (w1, Ok default_control_state)
         | Some state \<Rightarrow> ctl_then (json env (ParseControlPlaneFile path)) (\<lambda>_. ctl_return state) w1) w)"

definition write_persisted_runtime_control_state ::
    "control_env \<Rightarrow> persisted_runtime_control_state \<Rightarrow> (background_service_control_error, unit) control" where
  "write_persisted_runtime_control_state env state =
     (let path = runtime_control_state_file_path env
      in ctl_then (ensure_parent_dir env (en_state_dir env)) (\<lambda>_.
         ctl_then (json env (SerializeControlPlaneFile path)) (\<lambda>_.
         write_private_file_atomically env (en_state_dir env) path (\<lambda>w. w\<lparr>cw_state := Some state\<rparr>))))"

definition read_runtime_control_ownership ::
    "control_env \<Rightarrow> (background_service_control_error, runtime_control_ownership_record option) control" where
  "read_runtime_control_ownership env w =
     (let path = runtime_control_ownership_file_path env
      in ctl_then (io env (ReadFile path)) (\<lambda>_ w1.
         case cw_owner w1 of
           None \<Rightarrow> (w1, Ok None)
         | Some record' \<Rightarrow> ctl_then (json env (ParseOwnershipFile path)) (\<lambda>_. ctl_return (Some record')) w1) w)"

definition write_runtime_control_ownership ::
    "control_env \<Rightarrow> runtime_control_ownership_record \<Rightarrow> (background_service_control_error, unit) control" where
  "write_runtime_control_ownership env record' =
     (let path = runtime_control_ownership_file_path env
      in ctl_then (ensure_parent_dir env (en_mode_dir env)) (\<lambda>_.
         ctl_then (json env (ParseOwnershipFile path)) (\<lambda>_.
         write_private_file_atomically env (en_mode_dir env) path (\<lambda>w. w\<lparr>cw_owner := Some record'\<rparr>))))"

text \<open>Removing the ownership file; a file that is not there is no error.\<close>

definition remove_ownership :: "control_env \<Rightarrow> (background_service_control_error, bool) control" where
  "remove_ownership env w =
     ctl_then (io env (RemoveFile (runtime_control_ownership_file_path env))) (\<lambda>_ w1.
       (w1\<lparr>cw_owner := None\<rparr>, Ok (cw_owner w1 \<noteq> None))) w"

definition clear_runtime_control_ownership_if_matches ::
    "control_env \<Rightarrow> (string \<times> string) option \<Rightarrow> (background_service_control_error, bool) control" where
  "clear_runtime_control_ownership_if_matches env expected =
     (case expected of
        None \<Rightarrow> remove_ownership env
      | Some (instance_id, token) \<Rightarrow>
          ctl_then (read_runtime_control_ownership env) (\<lambda>found.
            case found of
              None \<Rightarrow> ctl_return False
            | Some current \<Rightarrow>
                if ow_daemon_instance_id current \<noteq> instance_id \<or> ow_control_token current \<noteq> token
                then ctl_return False else remove_ownership env))"

section \<open>Processes\<close>

text \<open>
  \<open>daemon_control/process.rs\<close> on Unix. A process is running when it can be signalled and is no
  zombie according to \<open>ps\<close>; \<open>en_ps_stat\<close> is what a successful \<open>ps\<close> prints.
\<close>

definition process_is_zombie :: "control_env \<Rightarrow> nat \<Rightarrow> nat \<Rightarrow> bool option" where
  "process_is_zombie env n pid =
     (case en_ps_stat env n pid of
        None \<Rightarrow> None
      | Some out \<Rightarrow> let state = trim out in if state = [] then Some False else Some (hd state = CHR ''Z''))"

definition process_is_running :: "control_env \<Rightarrow> nat \<Rightarrow> nat \<Rightarrow> bool option" where
  "process_is_running env n pid =
     (case en_probe env n pid of
        KillOk \<Rightarrow> Some (\<not> unwrap_or (process_is_zombie env n pid) False)
      | KillPermission \<Rightarrow> Some (\<not> unwrap_or (process_is_zombie env n pid) False)
      | KillNoProcess \<Rightarrow> Some False
      | KillOther _ \<Rightarrow> None)"

definition is_running :: "control_env \<Rightarrow> nat \<Rightarrow> ('e, bool option) control" where
  "is_running env pid = ask (\<lambda>n. Ok (process_is_running env n pid))"

definition terminate_command :: string where
  "terminate_command = ''runtime-control terminate-owned-process''"

text \<open>The poll loop, with its deadline in milliseconds.\<close>

function wait_for_process_exit :: "control_env \<Rightarrow> nat \<Rightarrow> nat \<Rightarrow> string \<Rightarrow> nat \<Rightarrow>
    (background_service_control_error, unit) control" where
  "wait_for_process_exit env pid timeout signal_name attempt w =
     (let w1 = w\<lparr>cw_tick := Suc (cw_tick w)\<rparr>
      in case process_is_running env (cw_tick w) pid of
           Some False \<Rightarrow> (w1, Ok ())
         | Some True \<Rightarrow>
             if 50 * attempt + en_late env (cw_tick w) < timeout
             then wait_for_process_exit env pid timeout signal_name (Suc attempt) w1
             else (w1, Err (CommandFailed terminate_command
               (''pid '' @ dec pid @ '' did not exit after '' @ signal_name @ '' within '' @ dec timeout @ ''ms'')))
         | None \<Rightarrow> (w1, Err (CommandFailed terminate_command
             (''failed to determine whether pid '' @ dec pid @ '' is still running''))))"
  by auto
termination
  by (relation "measure (\<lambda>(env, pid, timeout, signal_name, attempt, w). timeout - attempt)") auto

declare wait_for_process_exit.simps [simp del]

definition send_signal :: "control_env \<Rightarrow> signal \<Rightarrow> string \<Rightarrow> nat \<Rightarrow> (background_service_control_error, unit) control" where
  "send_signal env sg signal_name pid w =
     (w\<lparr>cw_tick := Suc (cw_tick w), cw_signals := cw_signals w @ [(sg, pid)]\<rparr>,
      case en_kill env (cw_tick w) sg pid of
        KillOk \<Rightarrow> Ok ()
      | KillNoProcess \<Rightarrow> Ok ()
      | KillPermission \<Rightarrow> Err (CommandFailed terminate_command
          (''failed to send '' @ signal_name @ '' to pid '' @ dec pid @ '': EPERM: Operation not permitted''))
      | KillOther detail \<Rightarrow> Err (CommandFailed terminate_command
          (''failed to send '' @ signal_name @ '' to pid '' @ dec pid @ '': '' @ detail)))"

definition terminate_process_inner :: "control_env \<Rightarrow> nat \<Rightarrow> nat \<Rightarrow> (background_service_control_error, unit) control" where
  "terminate_process_inner env pid terminate_timeout =
     ctl_then (send_signal env SigTerm ''SIGTERM'' pid) (\<lambda>_.
     ctl_then (wait_for_process_exit env pid terminate_timeout ''SIGTERM'' 0) (\<lambda>_.
     ctl_then (is_running env pid) (\<lambda>running.
       if running = Some False then ctl_return ()
       else
         ctl_then (send_signal env SigKill ''SIGKILL'' pid) (\<lambda>_.
         wait_for_process_exit env pid 2000 ''SIGKILL'' 0))))"

definition terminate_process :: "control_env \<Rightarrow> nat \<Rightarrow> nat \<Rightarrow> (background_service_control_error, unit) control" where
  "terminate_process env pid terminate_timeout =
     ctl_then (is_running env pid) (\<lambda>running.
       if running = Some False then ctl_return () else terminate_process_inner env pid terminate_timeout)"

section \<open>The mutation lock\<close>

text \<open>
  A lock whose owner is known is stale when that process is known to be gone; one without an
  owner is stale after two minutes.
\<close>

definition clear_stale_runtime_control_lock :: "control_env \<Rightarrow> (background_service_control_error, unit) control" where
  "clear_stale_runtime_control_lock env w =
     (let path = runtime_control_lock_file_path env
      in ctl_then (io env (ReadFile path)) (\<lambda>_ w1.
         case cw_lock w1 of
           None \<Rightarrow> (w1, Ok ())
         | Some l \<Rightarrow>
             ctl_then (io env (ReadFile path)) (\<lambda>_ w2.
               let remove = ctl_then (io env (RemoveFile path)) (\<lambda>_. modify (\<lambda>w. w\<lparr>cw_lock := None\<rparr>))
               in case lm_process_id l of
                    Some pid \<Rightarrow>
                      ctl_then (is_running env pid) (\<lambda>running.
                        if running = Some False then remove else ctl_return ()) w2
                  | None \<Rightarrow> if lm_age_ms l < 120000 then (w2, Ok ()) else remove w2) w1) w)"

text \<open>
  The loop of \<open>acquire_runtime_control_lock\<close>: it polls every 50 ms and gives up once 10 s have
  passed, so it makes at most 200 attempts.
\<close>

definition take_lock :: "control_env \<Rightarrow> (background_service_control_error, unit) control" where
  "take_lock env =
     (let path = runtime_control_lock_file_path env
      in ctl_then (io env (WriteFile path)) (\<lambda>_.
         ctl_then (modify (\<lambda>w. w\<lparr>cw_lock := Some \<lparr>lm_process_id = None, lm_age_ms = 0\<rparr>\<rparr>)) (\<lambda>_.
         ctl_then (ctl_inspect_err (io env (WriteFile path))
           (\<lambda>_. ctl_ignore (ctl_then (io env (\<lambda>r. r)) (\<lambda>_. modify (\<lambda>w. w\<lparr>cw_lock := None\<rparr>))))) (\<lambda>_.
         modify (\<lambda>w. w\<lparr>cw_lock := Some \<lparr>lm_process_id = Some (en_process_id env), lm_age_ms = 0\<rparr>\<rparr>)))))"

function acquire_lock_loop :: "control_env \<Rightarrow> nat \<Rightarrow> (background_service_control_error, unit) control" where
  "acquire_lock_loop env attempt w =
     (let w0 = w\<lparr>cw_lock := en_others env (cw_tick w) (cw_lock w)\<rparr>
      in case cw_lock w0 of
           None \<Rightarrow> take_lock env w0
         | Some _ \<Rightarrow>
             (case clear_stale_runtime_control_lock env w0 of
                (w1, Inl e) \<Rightarrow> (w1, Err e)
              | (w1, Inr _) \<Rightarrow>
                  if 10000 \<le> 50 * attempt + en_late env (cw_tick w1)
                  then (w1, Err (MutationLockTimeout (runtime_control_lock_file_path env)))
                  else acquire_lock_loop env (Suc attempt) w1))"
  by auto
termination
  by (relation "measure (\<lambda>(env, attempt, w). 200 - attempt)") auto

declare acquire_lock_loop.simps [simp del]

definition acquire_runtime_control_lock :: "control_env \<Rightarrow> (background_service_control_error, unit) control" where
  "acquire_runtime_control_lock env =
     ctl_then (ensure_parent_dir env (en_state_dir env)) (\<lambda>_. acquire_lock_loop env 0)"

text \<open>\<open>let _lock = acquire_runtime_control_lock()?\<close>: dropping the lock removes its file, whatever the outcome.\<close>

definition with_lock :: "control_env \<Rightarrow> (background_service_control_error \<Rightarrow> 'e) \<Rightarrow> ('e, 'a) control \<Rightarrow> ('e, 'a) control" where
  "with_lock env mk body w =
     (case acquire_runtime_control_lock env w of
        (w1, Inl e) \<Rightarrow> (w1, Err (mk e))
      | (w1, Inr _) \<Rightarrow>
          (case body w1 of (w2, r) \<Rightarrow>
             (ctl_ignore (ctl_then (io env (\<lambda>x. x)) (\<lambda>_. modify (\<lambda>w. w\<lparr>cw_lock := None\<rparr>))) w2, r)))"

section \<open>Transitions\<close>

definition update_state :: "control_env \<Rightarrow> (persisted_runtime_control_state \<Rightarrow> persisted_runtime_control_state) \<Rightarrow>
    (background_service_control_error, persisted_runtime_control_state) control" where
  "update_state env f =
     ctl_then (read_persisted_runtime_control_state env) (\<lambda>state.
     ctl_then (write_persisted_runtime_control_state env (f state)) (\<lambda>_. ctl_return (f state)))"

definition start_runtime_control_transition :: "control_env \<Rightarrow> pending_transition_kind \<Rightarrow> daemon_runtime_mode \<Rightarrow> bool \<Rightarrow>
    transition_step \<Rightarrow> (background_service_control_error, persisted_runtime_control_state) control" where
  "start_runtime_control_transition env kind desired_mode background_opt_in step =
     update_state env (\<lambda>state.
       let generation = sat_add (rc_generation state) 1
       in state\<lparr>rc_generation := generation, rc_background_opt_in := background_opt_in,
            rc_desired_mode := desired_mode,
            rc_pending_transition := Some \<lparr>pt_kind = kind, pt_op_id = generation, pt_step = step\<rparr>,
            rc_last_error := None\<rparr>)"

definition advance_runtime_control_transition :: "control_env \<Rightarrow> transition_step \<Rightarrow>
    (background_service_control_error, persisted_runtime_control_state) control" where
  "advance_runtime_control_transition env step =
     update_state env (\<lambda>state. state\<lparr>rc_pending_transition :=
       map_option (\<lambda>p. p\<lparr>pt_step := step\<rparr>) (rc_pending_transition state)\<rparr>)"

definition fail_runtime_control_transition :: "control_env \<Rightarrow> daemon_control_error_code \<Rightarrow> string \<Rightarrow>
    (background_service_control_error, persisted_runtime_control_state) control" where
  "fail_runtime_control_transition env code message =
     update_state env (\<lambda>state. state\<lparr>rc_last_error := Some \<lparr>te_code = code, te_message = message\<rparr>\<rparr>)"

definition complete_runtime_control_transition :: "control_env \<Rightarrow> daemon_runtime_mode \<Rightarrow> bool \<Rightarrow>
    (background_service_control_error, persisted_runtime_control_state) control" where
  "complete_runtime_control_transition env desired_mode background_opt_in =
     update_state env (\<lambda>state. state\<lparr>rc_generation := sat_add (rc_generation state) 1,
       rc_desired_mode := desired_mode, rc_background_opt_in := background_opt_in,
       rc_pending_transition := None, rc_last_error := None\<rparr>)"

definition clear_runtime_control_error ::
    "control_env \<Rightarrow> (background_service_control_error, persisted_runtime_control_state) control" where
  "clear_runtime_control_error env = update_state env (\<lambda>state. state\<lparr>rc_last_error := None\<rparr>)"

section \<open>Status\<close>

fun public_kind :: "pending_transition_kind \<Rightarrow> daemon_pending_transition_kind" where
  "public_kind EnableBackground = PublicEnableBackground"
| "public_kind DisableBackground = PublicDisableBackground"
| "public_kind RecoverToLocal = PublicRecoverToLocal"

fun kind_label :: "pending_transition_kind \<Rightarrow> string" where
  "kind_label EnableBackground = ''Enable background''"
| "kind_label DisableBackground = ''Disable background''"
| "kind_label RecoverToLocal = ''Recover local runtime''"

definition public_pending_transition_view :: "pending_transition \<Rightarrow> daemon_pending_transition_view" where
  "public_pending_transition_view p = \<lparr>pv_kind = public_kind (pt_kind p), pv_op_id = dec (pt_op_id p)\<rparr>"

definition derive_actual_runtime_mode :: "persisted_runtime_control_state \<Rightarrow> runtime_control_observed_state \<Rightarrow>
    daemon_actual_runtime_mode" where
  "derive_actual_runtime_mode control_plane observed =
     (let otherwise =
            (if bs_running (ob_background_service observed) then ActualBackground
             else if rc_desired_mode control_plane = ModeLocal then ActualStopped
             else ActualStopped)
      in case ob_daemon_status observed of
           None \<Rightarrow> otherwise
         | Some status \<Rightarrow>
             if some_and (\<lambda>x. ow_daemon_instance_id x = ds_daemon_instance_id status) (ob_ownership observed)
             then (case ds_runtime_mode status of ModeLocal \<Rightarrow> ActualLocal | ModeBackground \<Rightarrow> ActualBackground)
             else if ds_ready status then ActualForeign
             else otherwise)"

definition derive_transition_status :: "persisted_runtime_control_state \<Rightarrow> daemon_transition_status" where
  "derive_transition_status control_plane =
     (case (rc_pending_transition control_plane \<noteq> None, rc_last_error control_plane \<noteq> None) of
        (True, True) \<Rightarrow> TransDegradedReconcileRequired
      | (True, False) \<Rightarrow> TransApplying
      | (False, True) \<Rightarrow> TransFailedNoStateChange
      | (False, False) \<Rightarrow> TransIdle)"

definition derive_allowed_actions :: "persisted_runtime_control_state \<Rightarrow> runtime_control_observed_state \<Rightarrow>
    daemon_control_action list" where
  "derive_allowed_actions control_plane observed =
     (let actual = derive_actual_runtime_mode control_plane observed;
          available = bs_available (ob_background_service observed);
          opt_in = rc_background_opt_in control_plane
      in if derive_transition_status control_plane \<in> {TransApplying, TransDegradedReconcileRequired}
         then [ActReconcile]
         else if \<not> available \<and> \<not> opt_in
         then (if actual = ActualStopped then [ActStart] else []) @
              (if actual = ActualLocal \<or> actual = ActualBackground then [ActStop] else [])
         else case rc_desired_mode control_plane of
                ModeLocal \<Rightarrow>
                  (if actual = ActualStopped then [ActStart] else []) @
                  (if actual = ActualLocal then [ActStop] else []) @
                  (if available \<and> \<not> opt_in then [ActEnableBackground] else [])
              | ModeBackground \<Rightarrow>
                  (if actual = ActualStopped then [ActStart] else []) @
                  (if actual = ActualBackground then [ActStop] else []) @
                  (if opt_in then [ActDisableBackground] else []))"

definition derive_status_message :: "persisted_runtime_control_state \<Rightarrow> runtime_control_observed_state \<Rightarrow>
    daemon_actual_runtime_mode \<Rightarrow> string" where
  "derive_status_message control_plane observed actual =
     (case rc_last_error control_plane of
        Some e \<Rightarrow>
          (case rc_pending_transition control_plane of
             Some p \<Rightarrow> kind_label (pt_kind p) @ '' transition stalled: '' @ te_message e
           | None \<Rightarrow> te_message e)
      | None \<Rightarrow>
          (case rc_pending_transition control_plane of
             Some p \<Rightarrow> kind_label (pt_kind p) @ '' transition applying.''
           | None \<Rightarrow>
               if actual = ActualForeign then ''Connected runtime is not owned by this control plane.''
               else if \<not> bs_available (ob_background_service observed) \<and> rc_background_opt_in control_plane
               then ''Background mode was requested, but this platform does not expose a supported background service.''
               else (case rc_desired_mode control_plane of
                       ModeLocal \<Rightarrow> ''Local mode is the desired runtime.''
                     | ModeBackground \<Rightarrow> ''Background mode is the desired runtime.'')))"

definition daemon_control_status :: "persisted_runtime_control_state \<Rightarrow> runtime_control_observed_state \<Rightarrow>
    daemon_control_status_result" where
  "daemon_control_status control_plane observed =
     (let actual = derive_actual_runtime_mode control_plane observed
      in \<lparr>cs_background_opt_in = rc_background_opt_in control_plane,
          cs_desired_mode = rc_desired_mode control_plane,
          cs_actual_mode = actual,
          cs_transition_status = derive_transition_status control_plane,
          cs_reconcile_required = (rc_pending_transition control_plane \<noteq> None \<or> rc_last_error control_plane \<noteq> None),
          cs_allowed_actions = derive_allowed_actions control_plane observed,
          cs_error_code = opt_or (map_option te_code (rc_last_error control_plane))
            (if actual = ActualForeign then Some CodeExternalRuntime else None),
          cs_message = derive_status_message control_plane observed actual,
          cs_pending_transition = map_option public_pending_transition_view (rc_pending_transition control_plane),
          cs_socket_path = ob_socket_path observed,
          cs_log_path = ob_log_path observed,
          cs_daemon_version = ob_daemon_version observed,
          cs_protocol_version = ''2026-04-stage3''\<rparr>)"

end
