(* ===== verification/RuntimeHandoff.thy ===== *)
theory RuntimeHandoff
  imports RuntimeControl
begin

text \<open>
  Requests that change the runtime mode and the helper processes that carry them out
  (\<open>crates/ta-orchestrator/src/daemon_control/handoff.rs\<close>, the handoff expectation of
  \<open>crates/ta-orchestrator/src/host/config.rs\<close>, \<open>crates/ta-protocol/src/local_control.rs\<close>). A request
  records a pending transition and starts a helper; the helper acts only if that very
  transition is still pending.
\<close>

section \<open>Commands and expectations\<close>

datatype runtime_control_handoff_command =
    CmdEnableBackground | CmdDisableBackground | CmdStopLocalRuntime | CmdStopBackgroundRuntime

fun command_as_str :: "runtime_control_handoff_command \<Rightarrow> string" where
  "command_as_str CmdEnableBackground = ''enable-background''"
| "command_as_str CmdDisableBackground = ''disable-background''"
| "command_as_str CmdStopLocalRuntime = ''stop-local-runtime''"
| "command_as_str CmdStopBackgroundRuntime = ''stop-background-runtime''"

definition command_parse :: "string \<Rightarrow> runtime_control_handoff_command option" where
  "command_parse value =
     (if value = ''enable-background'' then Some CmdEnableBackground
      else if value = ''disable-background'' then Some CmdDisableBackground
      else if value = ''stop-local-runtime'' then Some CmdStopLocalRuntime
      else if value = ''stop-background-runtime'' then Some CmdStopBackgroundRuntime
      else None)"

definition control_handoff_subcommand :: string where
  "control_handoff_subcommand = ''__runtime-control-handoff''"

text \<open>The arguments of the process, its own name first.\<close>

definition parse_runtime_control_handoff_action :: "string list \<Rightarrow>
    (runtime_control_handoff_command option, runtime_control_handoff_error) result" where
  "parse_runtime_control_handoff_action args =
     (case drop 1 args of
        [] \<Rightarrow> Ok None
      | command # rest \<Rightarrow>
          if command \<noteq> control_handoff_subcommand then Ok None
          else (case rest of
                  [] \<Rightarrow> Err HoMissingCommand
                | action # _ \<Rightarrow>
                    (case command_parse action of
                       Some c \<Rightarrow> Ok (Some c)
                     | None \<Rightarrow> Err (HoUnknownCommand action))))"

record handoff_expectation =
  he_transition_op_id :: "nat option"
  he_daemon_instance_id :: "string option"
  he_control_token :: "string option"

definition trimmed_value :: "string option \<Rightarrow> string option" where
  "trimmed_value v = (case v of None \<Rightarrow> None | Some s \<Rightarrow> if trim s = [] then None else Some (trim s))"

definition expectation_from_values :: "string option \<Rightarrow> string option \<Rightarrow> string option \<Rightarrow> handoff_expectation" where
  "expectation_from_values op_id instance_id token =
     \<lparr>he_transition_op_id = Option.bind (trimmed_value op_id) parse_u64,
      he_daemon_instance_id = trimmed_value instance_id,
      he_control_token = trimmed_value token\<rparr>"

definition handoff_op_id_var :: string where
  "handoff_op_id_var = ''TAUGENTIC_RUNTIME_CONTROL_EXPECTED_OP_ID''"

definition handoff_instance_id_var :: string where
  "handoff_instance_id_var = ''TAUGENTIC_RUNTIME_CONTROL_EXPECTED_DAEMON_INSTANCE_ID''"

definition handoff_control_token_var :: string where
  "handoff_control_token_var = ''TAUGENTIC_RUNTIME_CONTROL_EXPECTED_CONTROL_TOKEN''"

definition expectation_from_env :: "(string \<times> string) list \<Rightarrow> handoff_expectation" where
  "expectation_from_env vars =
     expectation_from_values (map_of vars handoff_op_id_var) (map_of vars handoff_instance_id_var)
       (map_of vars handoff_control_token_var)"

definition option_entry :: "string \<Rightarrow> string option \<Rightarrow> (string \<times> string) list" where
  "option_entry key v = (case v of None \<Rightarrow> [] | Some s \<Rightarrow> [(key, s)])"

definition expectation_environment :: "handoff_expectation \<Rightarrow> (string \<times> string) list" where
  "expectation_environment e =
     sort_key fst
       (option_entry handoff_op_id_var (map_option dec (he_transition_op_id e)) @
        option_entry handoff_instance_id_var (he_daemon_instance_id e) @
        option_entry handoff_control_token_var (he_control_token e))"

text \<open>A helper's configuration; the launch configuration is the daemon's own.\<close>

record runtime_control_handoff_config =
  hc_socket_address :: string
  hc_launch_config :: daemon_control_launch_config
  hc_expectation :: handoff_expectation

section \<open>Starting helpers\<close>

definition spawn_handoff_subcommand :: "control_env \<Rightarrow> string \<Rightarrow> handoff_expectation \<Rightarrow>
    (runtime_control_handoff_error, unit) control" where
  "spawn_handoff_subcommand env command expectation =
     ctl_then (ask (\<lambda>n. map_err HoCurrentExecutable (en_current_exe env n))) (\<lambda>_.
     ctl_then (ask (\<lambda>n. case en_spawn env n of None \<Rightarrow> Ok () | Some reason \<Rightarrow> Err (HoSpawn reason))) (\<lambda>_.
     modify (\<lambda>w. w\<lparr>cw_spawned := cw_spawned w @
       [\<lparr>hp_command = command, hp_environment = expectation_environment expectation\<rparr>]\<rparr>)))"

definition spawn_disable_background_handoff :: "control_env \<Rightarrow> nat \<Rightarrow> (string \<times> string) option \<Rightarrow>
    (runtime_control_handoff_error, unit) control" where
  "spawn_disable_background_handoff env expected_op_id expected_ownership =
     spawn_handoff_subcommand env (command_as_str CmdDisableBackground)
       (expectation_from_values (Some (dec expected_op_id)) (map_option fst expected_ownership)
         (map_option snd expected_ownership))"

definition spawn_enable_background_handoff :: "control_env \<Rightarrow> nat \<Rightarrow> (runtime_control_handoff_error, unit) control" where
  "spawn_enable_background_handoff env expected_op_id =
     spawn_handoff_subcommand env (command_as_str CmdEnableBackground)
       (expectation_from_values (Some (dec expected_op_id)) None None)"

definition spawn_stop_local_runtime_handoff :: "control_env \<Rightarrow> string \<times> string \<Rightarrow>
    (runtime_control_handoff_error, unit) control" where
  "spawn_stop_local_runtime_handoff env expected_ownership =
     spawn_handoff_subcommand env (command_as_str CmdStopLocalRuntime)
       (expectation_from_values None (Some (fst expected_ownership)) (Some (snd expected_ownership)))"

definition spawn_stop_background_runtime_handoff :: "control_env \<Rightarrow> string \<times> string \<Rightarrow>
    (runtime_control_handoff_error, unit) control" where
  "spawn_stop_background_runtime_handoff env expected_ownership =
     spawn_handoff_subcommand env (command_as_str CmdStopBackgroundRuntime)
       (expectation_from_values None (Some (fst expected_ownership)) (Some (snd expected_ownership)))"

section \<open>Guards\<close>

definition ensure_disable_request_allowed :: "persisted_runtime_control_state \<Rightarrow>
    (unit, runtime_control_handoff_error) result" where
  "ensure_disable_request_allowed control_plane =
     (if rc_pending_transition control_plane \<noteq> None \<or> rc_last_error control_plane \<noteq> None
      then Err (HoActionNotAllowed ''disable-background while reconcile is required'')
      else if \<not> rc_background_opt_in control_plane then Err (HoActionNotAllowed ''disable-background'')
      else Ok ())"

definition ensure_enable_request_allowed :: "persisted_runtime_control_state \<Rightarrow> runtime_control_observed_state \<Rightarrow>
    (unit, runtime_control_handoff_error) result" where
  "ensure_enable_request_allowed control_plane observed =
     (if rc_pending_transition control_plane \<noteq> None \<or> rc_last_error control_plane \<noteq> None
      then Err (HoActionNotAllowed ''enable-background while reconcile is required'')
      else if rc_background_opt_in control_plane then Err (HoActionNotAllowed ''enable-background'')
      else if \<not> bs_available (ob_background_service observed) then Err (HoControl UnsupportedPlatform)
      else Ok ())"

text \<open>The guards of a stop, which also give the ownership the code then expects to be there.\<close>

definition ensure_stop_request_allowed :: "string \<Rightarrow> daemon_runtime_mode \<Rightarrow> runtime_control_observed_state \<Rightarrow>
    (runtime_control_ownership_record, runtime_control_handoff_error) result" where
  "ensure_stop_request_allowed action mode observed =
     (case ob_daemon_status observed of
        None \<Rightarrow> Err (HoActionNotAllowed (action @ '' without daemon status''))
      | Some status \<Rightarrow>
          (case ob_ownership observed of
             None \<Rightarrow> Err (HoActionNotAllowed (action @ '' without ownership''))
           | Some ownership \<Rightarrow>
               if ow_runtime_mode ownership \<noteq> mode \<or> ow_daemon_instance_id ownership \<noteq> ds_daemon_instance_id status
               then Err (HoActionNotAllowed (action @ '' with mismatched ownership''))
               else Ok ownership))"

definition ensure_local_stop_request_allowed :: "runtime_control_observed_state \<Rightarrow>
    (runtime_control_ownership_record, runtime_control_handoff_error) result" where
  "ensure_local_stop_request_allowed = ensure_stop_request_allowed ''stop-local'' ModeLocal"

definition ensure_background_stop_request_allowed :: "runtime_control_observed_state \<Rightarrow>
    (runtime_control_ownership_record, runtime_control_handoff_error) result" where
  "ensure_background_stop_request_allowed = ensure_stop_request_allowed ''stop-background'' ModeBackground"

definition ctl_check :: "'e + 'a \<Rightarrow> ('e, 'a) control" where
  "ctl_check r w = (w, r)"

section \<open>Matching transitions\<close>

definition pending_matches :: "pending_transition_kind \<Rightarrow> nat \<Rightarrow> persisted_runtime_control_state \<Rightarrow> bool" where
  "pending_matches kind op_id control_plane =
     some_and (\<lambda>p. pt_kind p = kind \<and> pt_op_id p = op_id) (rc_pending_transition control_plane)"

definition transition_matches :: "control_env \<Rightarrow> pending_transition_kind \<Rightarrow> nat \<Rightarrow>
    (runtime_control_handoff_error, bool) control" where
  "transition_matches env kind op_id =
     ctl_then (ctl_map_err HoControl (read_persisted_runtime_control_state env)) (\<lambda>control_plane.
       ctl_return (pending_matches kind op_id control_plane))"

definition advance_step_if_matches :: "control_env \<Rightarrow> pending_transition_kind \<Rightarrow> nat \<Rightarrow> transition_step \<Rightarrow>
    (runtime_control_handoff_error, bool) control" where
  "advance_step_if_matches env kind op_id step =
     ctl_then (transition_matches env kind op_id) (\<lambda>ok.
       if \<not> ok then ctl_return False
       else ctl_then (ctl_map_err HoControl (advance_runtime_control_transition env step)) (\<lambda>_. ctl_return True))"

definition complete_transition_if_matches :: "control_env \<Rightarrow> pending_transition_kind \<Rightarrow> nat \<Rightarrow> daemon_runtime_mode \<Rightarrow>
    bool \<Rightarrow> (runtime_control_handoff_error, bool) control" where
  "complete_transition_if_matches env kind op_id desired_mode background_opt_in =
     ctl_then (transition_matches env kind op_id) (\<lambda>ok.
       if \<not> ok then ctl_return False
       else ctl_then (ctl_map_err HoControl (complete_runtime_control_transition env desired_mode background_opt_in))
         (\<lambda>_. ctl_return True))"

definition record_transition_failure :: "control_env \<Rightarrow> runtime_control_handoff_error \<Rightarrow> control_world \<Rightarrow> control_world" where
  "record_transition_failure env e =
     ctl_ignore (fail_runtime_control_transition env CodeTransitionFailed (en_error_text env e))"

definition record_transition_failure_for_transition :: "control_env \<Rightarrow> pending_transition_kind \<Rightarrow> nat \<Rightarrow>
    runtime_control_handoff_error \<Rightarrow> control_world \<Rightarrow> control_world" where
  "record_transition_failure_for_transition env kind op_id e w =
     (case transition_matches env kind op_id w of
        (w1, Inr True) \<Rightarrow> record_transition_failure env e w1
      | (w1, _) \<Rightarrow> w1)"

section \<open>Waiting for the daemon\<close>

definition is_daemon_unavailable :: "json_rpc_client_error \<Rightarrow> bool" where
  "is_daemon_unavailable e =
     (case e of RpcSocket _ \<Rightarrow> True | RpcRead _ \<Rightarrow> True | RpcWrite _ \<Rightarrow> True | RpcFlush _ \<Rightarrow> True
      | RpcConnectionClosed \<Rightarrow> True | RpcResponseTimeout _ \<Rightarrow> True | _ \<Rightarrow> False)"

definition current_status :: "control_env \<Rightarrow> (json_rpc_client_error, daemon_status_result) control" where
  "current_status env = ask (en_status env)"

text \<open>Polling every 100 ms until 30 s have passed: at most 300 rounds.\<close>

function wait_for_daemon_shutdown :: "control_env \<Rightarrow> string \<Rightarrow> nat \<Rightarrow> (runtime_control_handoff_error, unit) control" where
  "wait_for_daemon_shutdown env socket attempt w =
     (let w1 = w\<lparr>cw_tick := Suc (cw_tick w)\<rparr>;
          in_time = 100 * attempt + en_late env (cw_tick w) < 30000
      in case en_status env (cw_tick w) of
           Inr _ \<Rightarrow> if in_time then wait_for_daemon_shutdown env socket (Suc attempt) w1
                    else (w1, Err (HoShutdownTimeout socket))
         | Inl e \<Rightarrow> if is_daemon_unavailable e then (w1, Ok ())
                    else if in_time then wait_for_daemon_shutdown env socket (Suc attempt) w1
                    else (w1, Err (HoRpc e)))"
  by auto
termination
  by (relation "measure (\<lambda>(env, socket, attempt, w). 300 - attempt)") auto

declare wait_for_daemon_shutdown.simps [simp del]

function wait_for_background_daemon_ready :: "control_env \<Rightarrow> string \<Rightarrow> nat \<Rightarrow>
    (runtime_control_handoff_error, daemon_status_result) control" where
  "wait_for_background_daemon_ready env socket attempt w =
     (let w1 = w\<lparr>cw_tick := Suc (cw_tick w)\<rparr>;
          in_time = 100 * attempt + en_late env (cw_tick w) < 30000
      in case en_status env (cw_tick w) of
           Inr status \<Rightarrow>
             if ds_ready status \<and> ds_runtime_mode status = ModeBackground then (w1, Ok status)
             else if in_time then wait_for_background_daemon_ready env socket (Suc attempt) w1
             else (w1, Err (HoBackgroundStartTimeout socket))
         | Inl e \<Rightarrow> if in_time then wait_for_background_daemon_ready env socket (Suc attempt) w1
                    else (w1, Err (HoRpc e)))"
  by auto
termination
  by (relation "measure (\<lambda>(env, socket, attempt, w). 300 - attempt)") auto

declare wait_for_background_daemon_ready.simps [simp del]

text \<open>The helper greets the daemon and asks it to stop, with the token it was launched with.\<close>

definition stop_current_daemon_via_control_token :: "control_env \<Rightarrow> runtime_control_handoff_config \<Rightarrow>
    (runtime_control_handoff_error, unit) control" where
  "stop_current_daemon_via_control_token env config =
     (case lc_control_token (hc_launch_config config) of
        None \<Rightarrow> ctl_fail (HoActionNotAllowed ''stop-current-runtime without control token'')
      | Some token \<Rightarrow>
          ctl_then (ask (\<lambda>n. map_err HoRpc (en_call env n))) (\<lambda>_.
          ctl_then (modify (\<lambda>w. w\<lparr>cw_stopped := cw_stopped w @ [token]\<rparr>)) (\<lambda>_.
          ask (\<lambda>n. map_err HoRpc (en_call env n)))))"

text \<open>A call on the service manager of the platform.\<close>

definition call_service :: "control_env \<Rightarrow> service_call \<Rightarrow> (background_service_control_error, unit) control" where
  "call_service env c w =
     (w\<lparr>cw_tick := Suc (cw_tick w), cw_services := cw_services w @ [c]\<rparr>,
      case en_service env (cw_tick w) c of None \<Rightarrow> Ok () | Some e \<Rightarrow> Err e)"

definition read_background_service_state :: "control_env \<Rightarrow> (background_service_control_error, background_service_state) control" where
  "read_background_service_state env = ask (en_service_state env)"

section \<open>The helpers\<close>

definition required_expected_transition_op_id :: "runtime_control_handoff_config \<Rightarrow>
    (nat, runtime_control_handoff_error) result" where
  "required_expected_transition_op_id config =
     (case he_transition_op_id (hc_expectation config) of
        None \<Rightarrow> Err HoMissingExpectedTransitionOpId | Some op_id \<Rightarrow> Ok op_id)"

definition clear_expected_runtime_control_ownership :: "control_env \<Rightarrow> runtime_control_handoff_config \<Rightarrow>
    (runtime_control_handoff_error, unit) control" where
  "clear_expected_runtime_control_ownership env config =
     (case he_daemon_instance_id (hc_expectation config) of
        None \<Rightarrow> ctl_fail HoMissingExpectedOwnership
      | Some instance_id \<Rightarrow>
          (case he_control_token (hc_expectation config) of
             None \<Rightarrow> ctl_fail HoMissingExpectedOwnership
           | Some token \<Rightarrow>
               ctl_then (ctl_map_err HoControl
                 (clear_runtime_control_ownership_if_matches env (Some (instance_id, token)))) (\<lambda>_. ctl_return ())))"

definition run_disable_background_handoff :: "control_env \<Rightarrow> runtime_control_handoff_config \<Rightarrow>
    (runtime_control_handoff_error, unit) control" where
  "run_disable_background_handoff env config =
     ctl_then (ctl_check (required_expected_transition_op_id config)) (\<lambda>op_id.
     let failed = record_transition_failure_for_transition env DisableBackground op_id
     in with_lock env HoControl
       (ctl_then (transition_matches env DisableBackground op_id) (\<lambda>ok.
         if \<not> ok then ctl_return ()
         else
           ctl_then (ctl_inspect_err (ctl_map_err HoControl (call_service env ServiceDisabled)) failed) (\<lambda>_.
           ctl_then (ctl_inspect_err (wait_for_daemon_shutdown env (hc_socket_address config) 0) failed) (\<lambda>_.
           ctl_then (ctl_inspect_err (clear_expected_runtime_control_ownership env config) failed) (\<lambda>_.
           ctl_then (complete_transition_if_matches env DisableBackground op_id ModeLocal False) (\<lambda>_.
             ctl_return ())))))))"

definition run_enable_background_handoff :: "control_env \<Rightarrow> runtime_control_handoff_config \<Rightarrow>
    (runtime_control_handoff_error, unit) control" where
  "run_enable_background_handoff env config =
     ctl_then (ctl_check (required_expected_transition_op_id config)) (\<lambda>op_id.
     let failed = record_transition_failure_for_transition env EnableBackground op_id;
         advance = advance_step_if_matches env EnableBackground op_id
     in with_lock env HoControl
       (ctl_then (transition_matches env EnableBackground op_id) (\<lambda>ok.
        if \<not> ok then ctl_return ()
        else
          ctl_then (ask (\<lambda>n. map_err HoResolveBinary (en_daemon_binary env n))) (\<lambda>daemon_binary.
          ctl_then (ask (\<lambda>n. Ok (en_token env n))) (\<lambda>token.
          ctl_then (advance StopConflictingRuntime) (\<lambda>ok. if \<not> ok then ctl_return () else
          ctl_then (stop_current_daemon_via_control_token env config) (\<lambda>_.
          ctl_then (ctl_inspect_err (wait_for_daemon_shutdown env (hc_socket_address config) 0) failed) (\<lambda>_.
          ctl_then (advance EnsureBackgroundService) (\<lambda>ok. if \<not> ok then ctl_return () else
          ctl_then (ctl_inspect_err (ctl_map_err HoControl (call_service env
            (ServiceEnabled daemon_binary (with_control_token (Some token) (hc_launch_config config))))) failed) (\<lambda>_.
          ctl_then (advance WaitForBackgroundRuntime) (\<lambda>ok. if \<not> ok then ctl_return () else
          ctl_then (ctl_inspect_err (wait_for_background_daemon_ready env (hc_socket_address config) 0) failed) (\<lambda>status.
          ctl_then (ctl_inspect_err (ctl_map_err HoControl (read_background_service_state env)) failed) (\<lambda>service_state.
          ctl_then (ctl_inspect_err (ctl_map_err HoControl (write_runtime_control_ownership env
            \<lparr>ow_runtime_mode = ModeBackground, ow_daemon_instance_id = ds_daemon_instance_id status,
             ow_control_token = token, ow_process_id = bs_process_id service_state\<rparr>)) failed) (\<lambda>_.
          ctl_then (complete_transition_if_matches env EnableBackground op_id ModeBackground True) (\<lambda>_.
            ctl_return ())))))))))))))))"

definition run_stop_local_runtime_handoff :: "control_env \<Rightarrow> runtime_control_handoff_config \<Rightarrow>
    (runtime_control_handoff_error, unit) control" where
  "run_stop_local_runtime_handoff env config =
     ctl_then (wait_for_daemon_shutdown env (hc_socket_address config) 0) (\<lambda>_.
     with_lock env HoControl (clear_expected_runtime_control_ownership env config))"

definition run_stop_background_runtime_handoff :: "control_env \<Rightarrow> runtime_control_handoff_config \<Rightarrow>
    (runtime_control_handoff_error, unit) control" where
  "run_stop_background_runtime_handoff env config w =
     (let rest =
            ctl_then (ctl_inspect_err (ctl_map_err HoControl (call_service env ServiceStopped))
              (record_transition_failure env)) (\<lambda>_.
            ctl_then (wait_for_daemon_shutdown env (hc_socket_address config) 0) (\<lambda>_.
            with_lock env HoControl (clear_expected_runtime_control_ownership env config)))
      in case wait_for_daemon_shutdown env (hc_socket_address config) 0 w of
           (w1, Inr _) \<Rightarrow> rest w1
         | (w1, Inl (HoShutdownTimeout _)) \<Rightarrow> rest w1
         | (w1, Inl e) \<Rightarrow> (w1, Err e))"

definition run_runtime_control_handoff_action :: "control_env \<Rightarrow> runtime_control_handoff_command \<Rightarrow>
    runtime_control_handoff_config \<Rightarrow> (runtime_control_handoff_error, unit) control" where
  "run_runtime_control_handoff_action env action config =
     (case action of
        CmdEnableBackground \<Rightarrow> run_enable_background_handoff env config
      | CmdDisableBackground \<Rightarrow> run_disable_background_handoff env config
      | CmdStopLocalRuntime \<Rightarrow> run_stop_local_runtime_handoff env config
      | CmdStopBackgroundRuntime \<Rightarrow> run_stop_background_runtime_handoff env config)"

text \<open>\<open>host/control/handoff.rs\<close>: a process that was started as a helper, with its arguments and variables.\<close>

definition try_run_from_args :: "control_env \<Rightarrow> string \<Rightarrow> daemon_control_launch_config \<Rightarrow> string list \<Rightarrow>
    (string \<times> string) list \<Rightarrow> (runtime_control_handoff_error, bool) control" where
  "try_run_from_args env socket launch args vars =
     ctl_then (ctl_check (parse_runtime_control_handoff_action args)) (\<lambda>action.
       case action of
         None \<Rightarrow> ctl_return False
       | Some a \<Rightarrow>
           ctl_then (run_runtime_control_handoff_action env a
             \<lparr>hc_socket_address = socket, hc_launch_config = launch, hc_expectation = expectation_from_env vars\<rparr>)
             (\<lambda>_. ctl_return True))"

section \<open>Requests\<close>

text \<open>The state of the machine as a caller observes it; \<open>observe_runtime_control_state\<close> is the daemon's own.\<close>

type_synonym observer = "(background_service_control_error, runtime_control_observed_state) control"

definition observe_runtime_control_state :: "control_env \<Rightarrow> daemon_status_result \<Rightarrow> observer" where
  "observe_runtime_control_state env daemon_status =
     ctl_then (read_background_service_state env) (\<lambda>background_service.
     ctl_then (read_runtime_control_ownership env) (\<lambda>ownership.
       ctl_return \<lparr>ob_daemon_status = Some daemon_status, ob_background_service = background_service,
         ob_ownership = ownership, ob_socket_path = ds_socket_path daemon_status,
         ob_log_path = ds_log_path daemon_status, ob_daemon_version = Some (ds_version daemon_status)\<rparr>))"

definition report :: "control_env \<Rightarrow> observer \<Rightarrow> (runtime_control_handoff_error, daemon_control_status_result) control" where
  "report env observe =
     ctl_then (ctl_map_err HoControl (read_persisted_runtime_control_state env)) (\<lambda>control_plane.
     ctl_then (ctl_map_err HoControl observe) (\<lambda>observed.
       ctl_return (daemon_control_status control_plane observed)))"

definition started_op_id :: "persisted_runtime_control_state \<Rightarrow> nat" where
  "started_op_id transition = (case rc_pending_transition transition of None \<Rightarrow> 0 | Some p \<Rightarrow> pt_op_id p)"

definition request_background_disable_handoff :: "control_env \<Rightarrow> observer \<Rightarrow>
    (runtime_control_handoff_error, daemon_control_status_result) control" where
  "request_background_disable_handoff env observe =
     with_lock env HoControl
       (ctl_then (ctl_map_err HoControl (read_persisted_runtime_control_state env)) (\<lambda>control_plane.
        ctl_then (ctl_check (ensure_disable_request_allowed control_plane)) (\<lambda>_.
        ctl_then (ctl_map_err HoControl observe) (\<lambda>observed.
        ctl_then (ctl_map_err HoControl
          (start_runtime_control_transition env DisableBackground ModeLocal False StopBackgroundService)) (\<lambda>transition.
        ctl_then (ctl_inspect_err (spawn_disable_background_handoff env (started_op_id transition)
            (map_option (\<lambda>x. (ow_daemon_instance_id x, ow_control_token x)) (ob_ownership observed)))
          (record_transition_failure env)) (\<lambda>_.
        report env observe))))))"

definition request_background_enable_handoff :: "control_env \<Rightarrow> observer \<Rightarrow>
    (runtime_control_handoff_error, daemon_control_status_result) control" where
  "request_background_enable_handoff env observe =
     with_lock env HoControl
       (ctl_then (ctl_map_err HoControl (read_persisted_runtime_control_state env)) (\<lambda>control_plane.
        ctl_then (ctl_map_err HoControl observe) (\<lambda>observed.
        ctl_then (ctl_check (ensure_enable_request_allowed control_plane observed)) (\<lambda>_.
        ctl_then (ctl_map_err HoControl
          (start_runtime_control_transition env EnableBackground ModeBackground True StepPrepare)) (\<lambda>transition.
        ctl_then (ctl_inspect_err (spawn_enable_background_handoff env (started_op_id transition))
          (record_transition_failure env)) (\<lambda>_.
        report env observe))))))"

definition request_stop_handoff :: "control_env \<Rightarrow> daemon_runtime_mode \<Rightarrow> observer \<Rightarrow>
    (runtime_control_handoff_error, daemon_control_status_result) control" where
  "request_stop_handoff env runtime_mode observe =
     with_lock env HoControl
       (ctl_then (ctl_map_err HoControl observe) (\<lambda>observed.
        ctl_then
          (case runtime_mode of
             ModeLocal \<Rightarrow>
               ctl_then (ctl_check (ensure_local_stop_request_allowed observed)) (\<lambda>ownership.
                 spawn_stop_local_runtime_handoff env (ow_daemon_instance_id ownership, ow_control_token ownership))
           | ModeBackground \<Rightarrow>
               ctl_then (ctl_check (ensure_background_stop_request_allowed observed)) (\<lambda>ownership.
                 spawn_stop_background_runtime_handoff env (ow_daemon_instance_id ownership, ow_control_token ownership)))
          (\<lambda>_. report env observe)))"

section \<open>Reconciling\<close>

definition is_current_owned_daemon_in_mode :: "runtime_control_observed_state \<Rightarrow> daemon_runtime_mode \<Rightarrow> bool" where
  "is_current_owned_daemon_in_mode observed mode =
     (case (ob_daemon_status observed, ob_ownership observed) of
        (Some status, Some ownership) \<Rightarrow>
          ow_daemon_instance_id ownership = ds_daemon_instance_id status \<and> ds_runtime_mode status = mode
      | _ \<Rightarrow> False)"

definition pending_op_id :: "control_env \<Rightarrow> (runtime_control_handoff_error, nat) control" where
  "pending_op_id env =
     ctl_then (ctl_map_err HoControl (read_persisted_runtime_control_state env)) (\<lambda>control_plane.
       case rc_pending_transition control_plane of
         None \<Rightarrow> ctl_fail HoMissingExpectedTransitionOpId
       | Some p \<Rightarrow> ctl_return (pt_op_id p))"

definition complete :: "control_env \<Rightarrow> daemon_runtime_mode \<Rightarrow> bool \<Rightarrow> (runtime_control_handoff_error, unit) control" where
  "complete env desired_mode background_opt_in =
     ctl_then (ctl_map_err HoControl (complete_runtime_control_transition env desired_mode background_opt_in))
       (\<lambda>_. ctl_return ())"

definition fail_then :: "control_env \<Rightarrow> daemon_control_error_code \<Rightarrow> string \<Rightarrow> runtime_control_handoff_error \<Rightarrow>
    (runtime_control_handoff_error, unit) control" where
  "fail_then env code message e w = (ctl_ignore (fail_runtime_control_transition env code message) w, Err e)"

definition reconcile_enable_handoff :: "control_env \<Rightarrow> runtime_control_observed_state \<Rightarrow>
    (runtime_control_handoff_error, unit) control" where
  "reconcile_enable_handoff env observed =
     ctl_then (pending_op_id env) (\<lambda>op_id.
       if is_current_owned_daemon_in_mode observed ModeBackground then complete env ModeBackground True
       else if is_current_owned_daemon_in_mode observed ModeLocal then spawn_enable_background_handoff env op_id
       else if map_option ds_runtime_mode (ob_daemon_status observed) = Some ModeBackground
       then fail_then env CodeTransitionFailed ''background runtime is running without matching ownership''
         (HoActionNotAllowed ''reconcile-enable without matching ownership'')
       else if bs_available (ob_background_service observed) then spawn_enable_background_handoff env op_id
       else fail_then env CodeUnsupportedPlatform ''background reconcile requires a supported background service''
         (HoControl UnsupportedPlatform))"

definition reconcile_disable_handoff :: "control_env \<Rightarrow> runtime_control_observed_state \<Rightarrow>
    (runtime_control_handoff_error, unit) control" where
  "reconcile_disable_handoff env observed =
     (if is_current_owned_daemon_in_mode observed ModeLocal then complete env ModeLocal False
      else if is_current_owned_daemon_in_mode observed ModeBackground
      then ctl_then (pending_op_id env) (\<lambda>op_id.
        spawn_disable_background_handoff env op_id
          (map_option (\<lambda>x. (ow_daemon_instance_id x, ow_control_token x)) (ob_ownership observed)))
      else
        ctl_then (ctl_inspect_err (ctl_map_err HoControl (call_service env ServiceDisabled))
          (record_transition_failure env)) (\<lambda>_.
        ctl_then
          (case ob_ownership observed of
             None \<Rightarrow> ctl_return ()
           | Some x \<Rightarrow>
               ctl_then (ctl_inspect_err (ctl_map_err HoControl (clear_runtime_control_ownership_if_matches env
                 (Some (ow_daemon_instance_id x, ow_control_token x)))) (record_transition_failure env))
                 (\<lambda>_. ctl_return ())) (\<lambda>_.
        ctl_inspect_err (complete env ModeLocal False) (record_transition_failure env))))"

definition request_reconcile_handoff :: "control_env \<Rightarrow> observer \<Rightarrow>
    (runtime_control_handoff_error, daemon_control_status_result) control" where
  "request_reconcile_handoff env observe =
     with_lock env HoControl
       (ctl_then (ctl_map_err HoControl (read_persisted_runtime_control_state env)) (\<lambda>before.
        ctl_then
          (if rc_last_error before \<noteq> None
           then ctl_then (ctl_map_err HoControl (clear_runtime_control_error env)) (\<lambda>_.
             ctl_map_err HoControl (read_persisted_runtime_control_state env))
           else ctl_return before) (\<lambda>control_plane.
        ctl_then (ctl_map_err HoControl observe) (\<lambda>observed.
          case rc_pending_transition control_plane of
            None \<Rightarrow> ctl_return (daemon_control_status control_plane observed)
          | Some pending \<Rightarrow>
              ctl_then
                (case pt_kind pending of
                   EnableBackground \<Rightarrow> reconcile_enable_handoff env observed
                 | DisableBackground \<Rightarrow> reconcile_disable_handoff env observed
                 | RecoverToLocal \<Rightarrow> complete env ModeLocal False)
                (\<lambda>_. report env observe)))))"

end
