(* ===== verification/RuntimeBootstrap.thy ===== *)
theory RuntimeBootstrap
  imports RuntimeHandoff
begin

text \<open>
  The runtime-control commands of the desktop and the command line
  (\<open>crates/ta-orchestrator/src/daemon_control/bootstrap.rs\<close>): starting the daemon in its configured
  mode, resetting to a local runtime, stopping, and passing requests on.
\<close>

datatype runtime_control_bootstrap_command =
    BootStart | BootSnapshot | BootReconcile | BootResetLocal | BootEnableBackground | BootDisableBackground | BootStop

fun bootstrap_command_as_str :: "runtime_control_bootstrap_command \<Rightarrow> string" where
  "bootstrap_command_as_str BootStart = ''start''"
| "bootstrap_command_as_str BootSnapshot = ''snapshot''"
| "bootstrap_command_as_str BootReconcile = ''reconcile''"
| "bootstrap_command_as_str BootResetLocal = ''reset-local''"
| "bootstrap_command_as_str BootEnableBackground = ''enable-background''"
| "bootstrap_command_as_str BootDisableBackground = ''disable-background''"
| "bootstrap_command_as_str BootStop = ''stop''"

definition bootstrap_command_parse :: "string \<Rightarrow> runtime_control_bootstrap_command option" where
  "bootstrap_command_parse value =
     (if value = ''start'' then Some BootStart
      else if value = ''snapshot'' then Some BootSnapshot
      else if value = ''reconcile'' then Some BootReconcile
      else if value = ''reset-local'' then Some BootResetLocal
      else if value = ''enable-background'' then Some BootEnableBackground
      else if value = ''disable-background'' then Some BootDisableBackground
      else if value = ''stop'' then Some BootStop
      else None)"

datatype runtime_control_bootstrap_error =
    BoControl background_service_control_error
  | BoHandoff runtime_control_handoff_error
  | BoRpc json_rpc_client_error
  | BoSpawn string
  | BoResolveBinary string
  | BoStartupTimeout daemon_runtime_mode string
  | BoMissingCommand
  | BoUnknownCommand string

definition control_bootstrap_subcommand :: string where
  "control_bootstrap_subcommand = ''__runtime-control-bootstrap''"

definition parse_runtime_control_bootstrap_action :: "string list \<Rightarrow>
    (runtime_control_bootstrap_command option, runtime_control_bootstrap_error) result" where
  "parse_runtime_control_bootstrap_action args =
     (case drop 1 args of
        [] \<Rightarrow> Ok None
      | command # rest \<Rightarrow>
          if command \<noteq> control_bootstrap_subcommand then Ok None
          else (case rest of
                  [] \<Rightarrow> Err BoMissingCommand
                | action # _ \<Rightarrow>
                    (case bootstrap_command_parse action of
                       Some c \<Rightarrow> Ok (Some c)
                     | None \<Rightarrow> Err (BoUnknownCommand action))))"

record runtime_control_bootstrap_config =
  bc_socket_address :: string
  bc_launch_config :: daemon_control_launch_config
  bc_runtime_mode :: daemon_runtime_mode

section \<open>Observing\<close>

text \<open>\<open>observed_runtime_control_state_with\<close> and \<open>build_control_status_with\<close>.\<close>

definition observed_from :: "runtime_control_bootstrap_config \<Rightarrow> daemon_status_result option \<Rightarrow>
    runtime_control_ownership_record option \<Rightarrow> background_service_state \<Rightarrow> runtime_control_observed_state" where
  "observed_from config status ownership background_service =
     \<lparr>ob_daemon_status = status, ob_background_service = background_service, ob_ownership = ownership,
      ob_socket_path = (case status of None \<Rightarrow> bc_socket_address config | Some s \<Rightarrow> ds_socket_path s),
      ob_log_path = lc_log_path (bc_launch_config config),
      ob_daemon_version = map_option ds_version status\<rparr>"

definition build_control_status :: "control_env \<Rightarrow> runtime_control_bootstrap_config \<Rightarrow> daemon_status_result option \<Rightarrow>
    (runtime_control_bootstrap_error, daemon_control_status_result) control" where
  "build_control_status env config status =
     ctl_map_err BoControl
       (ctl_then (read_runtime_control_ownership env) (\<lambda>ownership.
        ctl_then (read_background_service_state env) (\<lambda>background_service.
        ctl_then (read_persisted_runtime_control_state env) (\<lambda>control_plane.
          ctl_return (daemon_control_status control_plane
            (observed_from config status ownership background_service))))))"

definition observe_runtime_control :: "control_env \<Rightarrow> (json_rpc_client_error \<Rightarrow> string) \<Rightarrow>
    runtime_control_bootstrap_config \<Rightarrow> observer" where
  "observe_runtime_control env shown config =
     ctl_then (ask (\<lambda>n. case en_status env n of
         Inr status \<Rightarrow> Ok (Some status)
       | Inl e \<Rightarrow> if is_daemon_unavailable e then Ok None else Err (CommandFailed ''daemon.status'' (shown e)))) (\<lambda>status.
     ctl_then (read_runtime_control_ownership env) (\<lambda>ownership.
     ctl_then (read_background_service_state env) (\<lambda>background_service.
       ctl_return (observed_from config status ownership background_service))))"

text \<open>\<open>current_status(&client).ok()\<close>.\<close>

definition status_if_any :: "control_env \<Rightarrow> ('e, daemon_status_result option) control" where
  "status_if_any env = ask (\<lambda>n. Ok (case en_status env n of Inr s \<Rightarrow> Some s | Inl _ \<Rightarrow> None))"

text \<open>Unlike the helpers' loop, an error other than a missing daemon ends the wait.\<close>

function wait_for_ready_status :: "control_env \<Rightarrow> string \<Rightarrow> daemon_runtime_mode \<Rightarrow> nat \<Rightarrow>
    (runtime_control_bootstrap_error, daemon_status_result) control" where
  "wait_for_ready_status env socket expected_mode attempt w =
     (let w1 = w\<lparr>cw_tick := Suc (cw_tick w)\<rparr>;
          in_time = 100 * attempt + en_late env (cw_tick w) < 30000
      in case en_status env (cw_tick w) of
           Inr status \<Rightarrow>
             if ds_ready status \<and> ds_runtime_mode status = expected_mode then (w1, Ok status)
             else if in_time then wait_for_ready_status env socket expected_mode (Suc attempt) w1
             else (w1, Err (BoStartupTimeout expected_mode socket))
         | Inl e \<Rightarrow>
             if is_daemon_unavailable e \<and> in_time
             then wait_for_ready_status env socket expected_mode (Suc attempt) w1
             else (w1, Err (BoRpc e)))"
  by auto
termination
  by (relation "measure (\<lambda>(env, socket, expected_mode, attempt, w). 300 - attempt)") auto

declare wait_for_ready_status.simps [simp del]

section \<open>Starting\<close>

definition bootstrap_local_runtime :: "control_env \<Rightarrow> runtime_control_bootstrap_config \<Rightarrow>
    (runtime_control_bootstrap_error, unit) control" where
  "bootstrap_local_runtime env config =
     ctl_then (ask (\<lambda>n. Ok (en_token env n))) (\<lambda>token.
     ctl_then (ask (\<lambda>n. map_err BoSpawn
       (en_spawn_daemon env n (with_control_token (Some token) (bc_launch_config config))))) (\<lambda>child.
     ctl_then (wait_for_ready_status env (bc_socket_address config) ModeLocal 0) (\<lambda>status.
     ctl_map_err BoControl (write_runtime_control_ownership env
       \<lparr>ow_runtime_mode = ModeLocal, ow_daemon_instance_id = ds_daemon_instance_id status,
        ow_control_token = token, ow_process_id = Some child\<rparr>))))"

definition bootstrap_background_runtime :: "control_env \<Rightarrow> runtime_control_bootstrap_config \<Rightarrow>
    (runtime_control_bootstrap_error, unit) control" where
  "bootstrap_background_runtime env config =
     ctl_then (ask (\<lambda>n. map_err BoResolveBinary (en_daemon_binary env n))) (\<lambda>daemon_binary.
     ctl_then (ask (\<lambda>n. Ok (en_token env n))) (\<lambda>token.
     ctl_then (ctl_map_err BoControl (call_service env
       (ServiceEnabled daemon_binary (with_control_token (Some token) (bc_launch_config config))))) (\<lambda>_.
     ctl_then (wait_for_ready_status env (bc_socket_address config) ModeBackground 0) (\<lambda>status.
     ctl_then (ctl_map_err BoControl (read_background_service_state env)) (\<lambda>service_state.
     ctl_map_err BoControl (write_runtime_control_ownership env
       \<lparr>ow_runtime_mode = ModeBackground, ow_daemon_instance_id = ds_daemon_instance_id status,
        ow_control_token = token, ow_process_id = bs_process_id service_state\<rparr>))))))"

text \<open>The socket of a dead local daemon is removed, but nothing else at that path.\<close>

definition remove_owned_local_unix_socket :: "control_env \<Rightarrow> string \<Rightarrow> (runtime_control_bootstrap_error, unit) control" where
  "remove_owned_local_unix_socket env path =
     ctl_map_err BoControl
       (ctl_then (ask (\<lambda>n. map_err (ReadFile path) (en_socket_file env n))) (\<lambda>f.
          case f of
            NoFile \<Rightarrow> ctl_return ()
          | OtherFile \<Rightarrow> ctl_fail (CommandFailed ''runtime-control-bootstrap recover-local''
              (''refusing to remove non-socket path while recovering local runtime: '' @ path))
          | SocketFile \<Rightarrow> io env (RemoveFile path)))"

definition recover_stale_owned_local_runtime :: "control_env \<Rightarrow> runtime_control_bootstrap_config \<Rightarrow>
    (runtime_control_bootstrap_error, unit) control" where
  "recover_stale_owned_local_runtime env config =
     ctl_then (ctl_map_err BoControl (read_runtime_control_ownership env)) (\<lambda>found.
       case found of
         None \<Rightarrow> ctl_return ()
       | Some ownership \<Rightarrow>
           if ow_runtime_mode ownership \<noteq> ModeLocal then ctl_return ()
           else
             ctl_then
               (case ow_process_id ownership of
                  None \<Rightarrow> ctl_return ()
                | Some pid \<Rightarrow>
                    ctl_then (is_running env pid) (\<lambda>running.
                      case running of
                        Some True \<Rightarrow> ctl_map_err BoControl (terminate_process env pid 3000)
                      | Some False \<Rightarrow> ctl_return ()
                      | None \<Rightarrow> ctl_fail (BoControl (CommandFailed ''runtime-control-bootstrap recover-local''
                          (''failed to determine liveness for owned local daemon pid '' @ dec pid))))) (\<lambda>_.
             ctl_then (remove_owned_local_unix_socket env (bc_socket_address config)) (\<lambda>_.
             ctl_then (ctl_map_err BoControl (clear_runtime_control_ownership_if_matches env
               (Some (ow_daemon_instance_id ownership, ow_control_token ownership)))) (\<lambda>_. ctl_return ()))))"

definition bootstrap_start_runtime :: "control_env \<Rightarrow> runtime_control_bootstrap_config \<Rightarrow>
    (runtime_control_bootstrap_error, daemon_control_status_result) control" where
  "bootstrap_start_runtime env config =
     with_lock env BoControl
       (ctl_then (ask (\<lambda>n. case en_status env n of
           Inr status \<Rightarrow> Ok (Some status)
         | Inl e \<Rightarrow> if is_daemon_unavailable e then Ok None else Err (BoRpc e))) (\<lambda>answer.
        case answer of
          Some status \<Rightarrow> build_control_status env config (Some status)
        | None \<Rightarrow>
            ctl_then (if bc_runtime_mode config = ModeLocal then recover_stale_owned_local_runtime env config
                      else ctl_return ()) (\<lambda>_.
            ctl_then (case bc_runtime_mode config of
                        ModeLocal \<Rightarrow> bootstrap_local_runtime env config
                      | ModeBackground \<Rightarrow> bootstrap_background_runtime env config) (\<lambda>_.
            ctl_then (wait_for_ready_status env (bc_socket_address config) (bc_runtime_mode config) 0) (\<lambda>status.
            build_control_status env config (Some status))))))"

section \<open>The other commands\<close>

definition snapshot_runtime_control :: "control_env \<Rightarrow> runtime_control_bootstrap_config \<Rightarrow>
    (runtime_control_bootstrap_error, daemon_control_status_result) control" where
  "snapshot_runtime_control env config =
     with_lock env BoControl (ctl_then (status_if_any env) (build_control_status env config))"

definition bootstrap_reset_local_runtime :: "control_env \<Rightarrow> runtime_control_bootstrap_config \<Rightarrow>
    (runtime_control_bootstrap_error, daemon_control_status_result) control" where
  "bootstrap_reset_local_runtime env config =
     with_lock env BoControl
       (ctl_then (ctl_map_err BoControl (read_background_service_state env)) (\<lambda>service_state.
        ctl_then (if bs_available service_state then ctl_map_err BoControl (call_service env ServiceDisabled)
                  else ctl_return ()) (\<lambda>_.
        ctl_then (ctl_map_err BoControl (clear_runtime_control_ownership_if_matches env None)) (\<lambda>_.
        ctl_then (ctl_map_err BoControl (complete_runtime_control_transition env ModeLocal False)) (\<lambda>_.
        ctl_then (status_if_any env) (build_control_status env config))))))"

definition bootstrap_stop_runtime :: "control_env \<Rightarrow> (json_rpc_client_error \<Rightarrow> string) \<Rightarrow> runtime_control_bootstrap_config \<Rightarrow>
    (runtime_control_bootstrap_error, daemon_control_status_result) control" where
  "bootstrap_stop_runtime env shown config =
     ctl_then (ctl_then (status_if_any env) (build_control_status env config)) (\<lambda>status.
       case cs_actual_mode status of
         ActualBackground \<Rightarrow>
           ctl_map_err BoHandoff (request_stop_handoff env ModeBackground (observe_runtime_control env shown config))
       | ActualLocal \<Rightarrow>
           ctl_map_err BoHandoff (request_stop_handoff env ModeLocal (observe_runtime_control env shown config))
       | ActualStopped \<Rightarrow> ctl_return status
       | ActualForeign \<Rightarrow> ctl_fail (BoControl (CommandFailed ''runtime-control-bootstrap stop''
           ''refusing to stop a foreign runtime'')))"

definition run_runtime_control_bootstrap_action :: "control_env \<Rightarrow> (json_rpc_client_error \<Rightarrow> string) \<Rightarrow>
    runtime_control_bootstrap_command \<Rightarrow> runtime_control_bootstrap_config \<Rightarrow>
    (runtime_control_bootstrap_error, daemon_control_status_result) control" where
  "run_runtime_control_bootstrap_action env shown action config =
     (let observe = observe_runtime_control env shown config
      in case action of
           BootStart \<Rightarrow> bootstrap_start_runtime env config
         | BootSnapshot \<Rightarrow> snapshot_runtime_control env config
         | BootReconcile \<Rightarrow> ctl_map_err BoHandoff (request_reconcile_handoff env observe)
         | BootResetLocal \<Rightarrow> bootstrap_reset_local_runtime env config
         | BootEnableBackground \<Rightarrow> ctl_map_err BoHandoff (request_background_enable_handoff env observe)
         | BootDisableBackground \<Rightarrow> ctl_map_err BoHandoff (request_background_disable_handoff env observe)
         | BootStop \<Rightarrow> bootstrap_stop_runtime env shown config)"

end
