(* ===== verification/RuntimeControlSafety.thy ===== *)
theory RuntimeControlSafety
  imports RuntimeBootstrap
begin

text \<open>
  What the control plane guarantees. \<open>control_relation\<close> is the interface between an operation and a
  relation on the control files that operations keep: the operations that only look keep every
  such relation, and the ones that act keep it when the five transitions of the state do. It is
  interpreted for "looks only" and for the evolution of the persisted state.
\<close>

named_theorems keeps \<open>operations that keep a relation\<close>

definition keeps_rel :: "(control_world \<Rightarrow> control_world \<Rightarrow> bool) \<Rightarrow> ('e, 'a) control \<Rightarrow> bool" where
  "keeps_rel R m \<longleftrightarrow> (\<forall>w. R w (fst (m w)))"

lemma keeps_cong: "(\<And>w. m w = n w) \<Longrightarrow> keeps_rel R m = keeps_rel R n"
  by (simp add: keeps_rel_def)

section \<open>Relations that operations keep\<close>

locale control_relation =
  fixes R :: "control_world \<Rightarrow> control_world \<Rightarrow> bool"
  assumes refl: "R w w" and trans: "R a b \<Longrightarrow> R b c \<Longrightarrow> R a c"
    and tick: "R w (w\<lparr>cw_tick := n\<rparr>)" and locked: "R w (w\<lparr>cw_lock := l\<rparr>)"
begin

lemma keep_step: "keeps_rel R m \<Longrightarrow> m w = (w1, r) \<Longrightarrow> R w w1"
  unfolding keeps_rel_def by (metis fst_conv)

lemma keep_return [keeps]: "keeps_rel R (ctl_return x)"
  and keep_fail [keeps]: "keeps_rel R (ctl_fail e)"
  and keep_check [keeps]: "keeps_rel R (ctl_check r)"
  by (simp_all add: keeps_rel_def ctl_return_def ctl_fail_def ctl_check_def refl)

lemma keep_then [keeps]:
  assumes "keeps_rel R m" and "\<And>x. keeps_rel R (k x)"
  shows "keeps_rel R (ctl_then m k)"
  unfolding keeps_rel_def
proof
  fix w
  obtain w1 r where m: "m w = (w1, r)" by (cases "m w")
  have "R w w1" by (rule keep_step [OF assms(1) m])
  moreover have "R w1 (fst (k x w1))" for x using assms(2) [of x] by (simp add: keeps_rel_def)
  ultimately show "R w (fst (ctl_then m k w))" using trans by (cases r) (auto simp: ctl_then_def m)
qed

lemma keep_map_err [keeps]: "keeps_rel R m \<Longrightarrow> keeps_rel R (ctl_map_err f m)"
  by (simp add: keeps_rel_def ctl_map_err_def split_beta)

lemma keep_inspect [keeps]:
  assumes "keeps_rel R m" and "\<And>e w. R w (f e w)"
  shows "keeps_rel R (ctl_inspect_err m f)"
  unfolding keeps_rel_def
proof
  fix w
  obtain w1 r where m: "m w = (w1, r)" by (cases "m w")
  have "R w w1" by (rule keep_step [OF assms(1) m])
  then show "R w (fst (ctl_inspect_err m f w))"
    using trans assms(2) by (cases r) (auto simp: ctl_inspect_err_def m)
qed

lemma keep_ignored [keeps]: "keeps_rel R m \<Longrightarrow> R w (ctl_ignore m w)"
  by (simp add: keeps_rel_def ctl_ignore_def)

lemma keep_ask [keeps]: "keeps_rel R (ask f)"
  and keep_io [keeps]: "keeps_rel R (io env mk)"
  and keep_json [keeps]: "keeps_rel R (json env mk')"
  by (simp_all add: keeps_rel_def ask_def io_def json_def tick)

lemma keep_modify: "(\<And>w. R w (f w)) \<Longrightarrow> keeps_rel R (modify f)"
  by (simp add: keeps_rel_def modify_def)

lemma keep_if [keeps]: "keeps_rel R m \<Longrightarrow> keeps_rel R n \<Longrightarrow> keeps_rel R (if b then m else n)"
  by simp

lemma keep_option [keeps]:
  "keeps_rel R m \<Longrightarrow> (\<And>y. keeps_rel R (k y)) \<Longrightarrow> keeps_rel R (case x of None \<Rightarrow> m | Some y \<Rightarrow> k y)"
  by (cases x) auto

lemma keep_mode [keeps]:
  "keeps_rel R m \<Longrightarrow> keeps_rel R n \<Longrightarrow> keeps_rel R (case mode of ModeLocal \<Rightarrow> m | ModeBackground \<Rightarrow> n)"
  by (cases mode) auto

lemma keep_stored:
  "(\<And>y. keeps_rel R (k y)) \<Longrightarrow> keeps_rel R (\<lambda>w. case g w of None \<Rightarrow> (w, r) | Some y \<Rightarrow> k y w)"
  by (auto simp: keeps_rel_def refl split: option.split)

lemma keep_read_state [keeps]: "keeps_rel R (read_persisted_runtime_control_state env)"
proof -
  have "read_persisted_runtime_control_state env = ctl_then (io env (ReadFile (runtime_control_state_file_path env)))
      (\<lambda>_ w1. case cw_state w1 of None \<Rightarrow> (w1, Ok default_control_state)
        | Some state \<Rightarrow> ctl_then (json env (ParseControlPlaneFile (runtime_control_state_file_path env))) (\<lambda>_. ctl_return state) w1)"
    by (intro ext) (simp add: read_persisted_runtime_control_state_def Let_def)
  then show ?thesis by (auto intro!: keeps keep_stored)
qed

lemma keep_read_ownership [keeps]: "keeps_rel R (read_runtime_control_ownership env)"
proof -
  have "read_runtime_control_ownership env = ctl_then (io env (ReadFile (runtime_control_ownership_file_path env)))
      (\<lambda>_ w1. case cw_owner w1 of None \<Rightarrow> (w1, Ok None)
        | Some x \<Rightarrow> ctl_then (json env (ParseOwnershipFile (runtime_control_ownership_file_path env))) (\<lambda>_. ctl_return (Some x)) w1)"
    by (intro ext) (simp add: read_runtime_control_ownership_def Let_def)
  then show ?thesis by (auto intro!: keeps keep_stored)
qed

lemma keep_running [keeps]: "keeps_rel R (is_running env pid)"
  and keep_status [keeps]: "keeps_rel R (current_status env)" "keeps_rel R (status_if_any env)"
  and keep_service_state [keeps]: "keeps_rel R (read_background_service_state env)"
  by (simp_all add: is_running_def current_status_def status_if_any_def read_background_service_state_def keep_ask)

lemma keep_parent_dir [keeps]: "keeps_rel R (ensure_parent_dir env p)"
  by (simp add: ensure_parent_dir_def keep_io)

lemma keep_clear_stale [keeps]: "keeps_rel R (clear_stale_runtime_control_lock env)"
proof -
  let ?path = "runtime_control_lock_file_path env"
  let ?remove = "ctl_then (io env (RemoveFile ?path)) (\<lambda>_. modify (\<lambda>w. w\<lparr>cw_lock := None\<rparr>))"
  let ?found = "\<lambda>l. ctl_then (io env (ReadFile ?path)) (\<lambda>_. case lm_process_id l of
      Some pid \<Rightarrow> ctl_then (is_running env pid) (\<lambda>running. if running = Some False then ?remove else ctl_return ())
    | None \<Rightarrow> if lm_age_ms l < 120000 then ctl_return () else ?remove)"
  have stale: "clear_stale_runtime_control_lock env = ctl_then (io env (ReadFile ?path))
      (\<lambda>_ w1. case cw_lock w1 of None \<Rightarrow> (w1, Ok ()) | Some l \<Rightarrow> ?found l w1)"
    by (intro ext)
      (auto simp: clear_stale_runtime_control_lock_def Let_def ctl_return_def ctl_then_def
        split: option.split sum.split prod.split)
  have remove: "keeps_rel R ?remove" by (auto intro!: keeps keep_modify locked)
  have "keeps_rel R (?found l)" for l by (intro keep_then keep_option keep_if keep_io keep_running keep_return remove)
  note found = this
  show ?thesis unfolding stale by (rule keep_then [OF keep_io keep_stored [OF found]])
qed

lemma keep_take_lock [keeps]: "keeps_rel R (take_lock env)"
  unfolding take_lock_def Let_def by (auto intro!: keeps keep_modify locked)

lemma keep_lock_loop [keeps]: "keeps_rel R (acquire_lock_loop env n)"
proof -
  have "R w (fst (acquire_lock_loop env n w))" for w
  proof (induction env n w rule: acquire_lock_loop.induct)
    case (1 env n w)
    let ?w0 = "w\<lparr>cw_lock := en_others env (cw_tick w) (cw_lock w)\<rparr>"
    have w0: "R w ?w0" by (rule locked)
    show ?case
    proof (cases "cw_lock ?w0")
      case None
      then have "R ?w0 (fst (acquire_lock_loop env n w))"
        using keep_take_lock [of env] by (subst acquire_lock_loop.simps) (simp add: keeps_rel_def)
      with w0 show ?thesis by (rule trans)
    next
      case (Some l)
      obtain w1 r where c: "clear_stale_runtime_control_lock env ?w0 = (w1, r)" by fastforce
      have w1: "R w w1" by (rule trans [OF w0 keep_step [OF keep_clear_stale c]])
      show ?thesis
      proof (cases r)
        case (Inl e)
        with c Some w1 show ?thesis by (subst acquire_lock_loop.simps) simp
      next
        case (Inr u)
        show ?thesis
        proof (cases "10000 \<le> 50 * n + en_late env (cw_tick w1)")
          case True
          with c Some w1 Inr show ?thesis by (subst acquire_lock_loop.simps) simp
        next
          case False
          have "R w1 (fst (acquire_lock_loop env (Suc n) w1))"
            by (rule 1 [OF _ Some c [symmetric] Inr False]) simp_all
          with c Some Inr False trans [OF w1] show ?thesis by (subst acquire_lock_loop.simps) simp
        qed
      qed
    qed
  qed
  then show ?thesis by (simp add: keeps_rel_def)
qed

lemma keep_acquire [keeps]: "keeps_rel R (acquire_runtime_control_lock env)"
  unfolding acquire_runtime_control_lock_def by (auto intro!: keeps)

lemma keep_release: "R w (ctl_ignore (ctl_then (io env (\<lambda>x. x)) (\<lambda>_. modify (\<lambda>w. w\<lparr>cw_lock := None\<rparr>))) w)"
  by (auto intro!: keeps keep_modify locked)

lemma keep_with_lock [keeps]:
  assumes "keeps_rel R body" shows "keeps_rel R (with_lock env mk body)"
  unfolding keeps_rel_def
proof
  fix w
  obtain w1 r where a: "acquire_runtime_control_lock env w = (w1, r)" by fastforce
  have w1: "R w w1" by (rule keep_step [OF keep_acquire a])
  obtain w2 s where b: "body w1 = (w2, s)" by fastforce
  have "R w w2" by (rule trans [OF w1 keep_step [OF assms b]])
  with w1 a b show "R w (fst (with_lock env mk body w))"
    by (cases r) (auto simp: with_lock_def intro: trans [OF _ keep_release])
qed

lemma keep_transition_matches [keeps]: "keeps_rel R (transition_matches env kind op_id)"
  and keep_pending_op_id [keeps]: "keeps_rel R (pending_op_id env)"
  unfolding transition_matches_def pending_op_id_def by (auto intro!: keeps)

lemma keep_wait_shutdown [keeps]: "keeps_rel R (wait_for_daemon_shutdown env socket n)"
proof -
  have "R w (fst (wait_for_daemon_shutdown env socket n w))" for w
  proof (induction env socket n w rule: wait_for_daemon_shutdown.induct)
    case (1 env socket n w)
    show ?case
      by (subst wait_for_daemon_shutdown.simps)
        (auto simp: Let_def tick split: sum.split intro: trans [OF tick] 1)
  qed
  then show ?thesis by (simp add: keeps_rel_def)
qed

lemma keep_wait_background [keeps]: "keeps_rel R (wait_for_background_daemon_ready env socket n)"
proof -
  have "R w (fst (wait_for_background_daemon_ready env socket n w))" for w
  proof (induction env socket n w rule: wait_for_background_daemon_ready.induct)
    case (1 env socket n w)
    show ?case
      by (subst wait_for_background_daemon_ready.simps)
        (auto simp: Let_def tick split: sum.split intro: trans [OF tick] 1)
  qed
  then show ?thesis by (simp add: keeps_rel_def)
qed

lemma keep_wait_ready [keeps]: "keeps_rel R (wait_for_ready_status env socket mode n)"
proof -
  have "R w (fst (wait_for_ready_status env socket mode n w))" for w
  proof (induction env socket mode n w rule: wait_for_ready_status.induct)
    case (1 env socket mode n w)
    show ?case
      by (subst wait_for_ready_status.simps)
        (auto simp: Let_def tick split: sum.split intro: trans [OF tick] 1)
  qed
  then show ?thesis by (simp add: keeps_rel_def)
qed

lemma keep_wait_exit [keeps]: "keeps_rel R (wait_for_process_exit env pid timeout sn n)"
proof -
  have "R w (fst (wait_for_process_exit env pid timeout sn n w))" for w
  proof (induction env pid timeout sn n w rule: wait_for_process_exit.induct)
    case (1 env pid timeout sn n w)
    show ?case
      by (subst wait_for_process_exit.simps)
        (auto simp: Let_def tick split: option.split bool.split intro: trans [OF tick] 1)
  qed
  then show ?thesis by (simp add: keeps_rel_def)
qed

lemma keep_observe [keeps]: "keeps_rel R (observe_runtime_control_state env status)"
  "keeps_rel R (observe_runtime_control env shown config)"
  unfolding observe_runtime_control_state_def observe_runtime_control_def by (auto intro!: keeps)

lemma keep_build_status [keeps]: "keeps_rel R (build_control_status env config status)"
  unfolding build_control_status_def by (auto intro!: keeps)

lemma keep_report [keeps]: "keeps_rel R observe \<Longrightarrow> keeps_rel R (report env observe)"
  unfolding report_def by (auto intro!: keeps)

end

text \<open>Acting: the other files, the helpers and the services may change, and the state by the five transitions.\<close>

locale acting_relation = control_relation +
  assumes files: "R w (w\<lparr>cw_owner := x\<rparr>)" "R w (w\<lparr>cw_spawned := sp\<rparr>)" "R w (w\<lparr>cw_stopped := st\<rparr>)"
    "R w (w\<lparr>cw_tick := n, cw_services := sv\<rparr>)" "R w (w\<lparr>cw_tick := n, cw_signals := sg\<rparr>)"
    and start: "keeps_rel R (start_runtime_control_transition env EnableBackground ModeBackground True step)"
      "keeps_rel R (start_runtime_control_transition env DisableBackground ModeLocal False step)"
    and advance: "keeps_rel R (advance_runtime_control_transition env step)"
    and record_error: "keeps_rel R (fail_runtime_control_transition env code message)"
    and finish: "keeps_rel R (complete_runtime_control_transition env ModeBackground True)"
      "keeps_rel R (complete_runtime_control_transition env ModeLocal False)"
    and forget: "keeps_rel R (clear_runtime_control_error env)"
begin

lemmas acting [keeps] = start advance record_error finish forget

lemma keep_write_ownership [keeps]: "keeps_rel R (write_runtime_control_ownership env x)"
proof -
  have "keeps_rel R (write_private_file_atomically env parent path (\<lambda>w. w\<lparr>cw_owner := Some x\<rparr>))" for parent path
    unfolding keeps_rel_def
  proof
    fix w
    have "keeps_rel R (ctl_then (io env (WriteFile temp)) (\<lambda>_.
        ctl_then (ctl_inspect_err (io env (WriteFile temp)) (\<lambda>_. ctl_ignore (io env (\<lambda>r. r)))) (\<lambda>_.
        ctl_then (io env (WriteFile path)) (\<lambda>_.
        ctl_then (modify (\<lambda>w. w\<lparr>cw_owner := Some x\<rparr>)) (\<lambda>_. io env (WriteFile parent))))))" for temp
      by (intro keeps keep_modify files)
    then show "R w (fst (write_private_file_atomically env parent path (\<lambda>w. w\<lparr>cw_owner := Some x\<rparr>) w))"
      by (simp add: write_private_file_atomically_def Let_def keeps_rel_def)
  qed
  then show ?thesis unfolding write_runtime_control_ownership_def Let_def by (intro keeps)
qed

lemma keep_remove_ownership [keeps]: "keeps_rel R (remove_ownership env)"
  unfolding keeps_rel_def
proof
  fix w
  have "keeps_rel R (ctl_then (io env mk) (\<lambda>_ w1. (w1\<lparr>cw_owner := None\<rparr>, Ok (cw_owner w1 \<noteq> None))))"
    for mk :: "string \<Rightarrow> background_service_control_error"
    by (intro keeps) (simp add: keeps_rel_def files)
  then show "R w (fst (remove_ownership env w))" by (simp add: remove_ownership_def keeps_rel_def)
qed

lemma keep_clear_ownership [keeps]: "keeps_rel R (clear_runtime_control_ownership_if_matches env expected)"
proof (cases expected)
  case (Some e)
  then show ?thesis by (cases e) (auto simp: clear_runtime_control_ownership_if_matches_def intro!: keeps)
qed (simp add: clear_runtime_control_ownership_if_matches_def keep_remove_ownership)

lemma keep_service [keeps]: "keeps_rel R (call_service env c)"
  and keep_signal [keeps]: "keeps_rel R (send_signal env sg name pid)"
  by (simp_all add: keeps_rel_def call_service_def send_signal_def files)

lemma keep_terminate [keeps]: "keeps_rel R (terminate_process env pid timeout)"
  unfolding terminate_process_def terminate_process_inner_def by (intro keeps keep_wait_exit)

lemma keep_spawn [keeps]: "keeps_rel R (spawn_handoff_subcommand env c e)"
  unfolding spawn_handoff_subcommand_def by (intro keeps keep_modify files)

lemma keep_spawns [keeps]:
  "keeps_rel R (spawn_disable_background_handoff env i x)" "keeps_rel R (spawn_enable_background_handoff env i)"
  "keeps_rel R (spawn_stop_local_runtime_handoff env y)" "keeps_rel R (spawn_stop_background_runtime_handoff env y)"
  by (simp_all add: spawn_disable_background_handoff_def spawn_enable_background_handoff_def
    spawn_stop_local_runtime_handoff_def spawn_stop_background_runtime_handoff_def keep_spawn)

lemma keep_record [keeps]: "R w (record_transition_failure env e w)"
  unfolding record_transition_failure_def by (intro keeps)

lemma keep_record_for [keeps]: "R w (record_transition_failure_for_transition env kind i e w)"
proof -
  obtain w1 r where m: "transition_matches env kind i w = (w1, r)" by fastforce
  have "R w w1" by (rule keep_step [OF keep_transition_matches m])
  then show ?thesis
    by (auto simp: record_transition_failure_for_transition_def m split: sum.split bool.split intro: trans [OF _ keep_record])
qed

lemma keep_matching [keeps]:
  "keeps_rel R (advance_step_if_matches env kind i step)"
  "keeps_rel R (complete_transition_if_matches env kind i ModeBackground True)"
  "keeps_rel R (complete_transition_if_matches env kind i ModeLocal False)"
  unfolding advance_step_if_matches_def complete_transition_if_matches_def by (intro keeps)+

lemma keep_complete [keeps]: "keeps_rel R (complete env ModeBackground True)" "keeps_rel R (complete env ModeLocal False)"
  unfolding complete_def by (intro keeps)+

lemma keep_fail_then [keeps]: "keeps_rel R (fail_then env code message e)"
  using keep_ignored [OF record_error] by (simp add: keeps_rel_def fail_then_def)

lemma keep_stop_current [keeps]: "keeps_rel R (stop_current_daemon_via_control_token env config)"
  unfolding stop_current_daemon_via_control_token_def by (intro keeps keep_modify files)

lemma keep_clear_expected [keeps]: "keeps_rel R (clear_expected_runtime_control_ownership env config)"
  unfolding clear_expected_runtime_control_ownership_def by (intro keeps)

lemma keep_run_enable [keeps]: "keeps_rel R (run_enable_background_handoff env config)"
  unfolding run_enable_background_handoff_def Let_def by (intro keeps keep_wait_shutdown keep_wait_background)

lemma keep_run_disable [keeps]: "keeps_rel R (run_disable_background_handoff env config)"
  unfolding run_disable_background_handoff_def Let_def by (intro keeps)

lemma keep_run_stop_local [keeps]: "keeps_rel R (run_stop_local_runtime_handoff env config)"
  unfolding run_stop_local_runtime_handoff_def by (intro keeps)

lemma keep_run_stop_background [keeps]: "keeps_rel R (run_stop_background_runtime_handoff env config)"
proof -
  let ?rest = "ctl_then (ctl_inspect_err (ctl_map_err HoControl (call_service env ServiceStopped)) (record_transition_failure env)) (\<lambda>_.
      ctl_then (wait_for_daemon_shutdown env (hc_socket_address config) 0) (\<lambda>_.
      with_lock env HoControl (clear_expected_runtime_control_ownership env config)))"
  have rest: "keeps_rel R ?rest" by (intro keeps)
  have "R w (fst (run_stop_background_runtime_handoff env config w))" for w
  proof -
    obtain w1 r where m: "wait_for_daemon_shutdown env (hc_socket_address config) 0 w = (w1, r)" by fastforce
    have w1: "R w w1" by (rule keep_step [OF keep_wait_shutdown m])
    have "R w1 (fst (?rest w1))" using rest by (simp add: keeps_rel_def)
    with w1 have "R w (fst (?rest w1))" by (rule trans)
    with w1 show ?thesis
      by (auto simp: run_stop_background_runtime_handoff_def Let_def m split: sum.split runtime_control_handoff_error.split)
  qed
  then show ?thesis by (simp add: keeps_rel_def)
qed

lemma keep_handoff_action: "keeps_rel R (run_runtime_control_handoff_action env action config)"
  by (cases action) (simp_all add: run_runtime_control_handoff_action_def keep_run_enable keep_run_disable
    keep_run_stop_local keep_run_stop_background)

lemma keep_request_disable [keeps]: "keeps_rel R observe \<Longrightarrow> keeps_rel R (request_background_disable_handoff env observe)"
  unfolding request_background_disable_handoff_def by (intro keeps)

lemma keep_request_enable [keeps]: "keeps_rel R observe \<Longrightarrow> keeps_rel R (request_background_enable_handoff env observe)"
  unfolding request_background_enable_handoff_def by (intro keeps)

lemma keep_request_stop [keeps]: "keeps_rel R observe \<Longrightarrow> keeps_rel R (request_stop_handoff env mode observe)"
  unfolding request_stop_handoff_def by (intro keeps)

lemma keep_reconciles [keeps]:
  "keeps_rel R (reconcile_enable_handoff env observed)" "keeps_rel R (reconcile_disable_handoff env observed)"
  unfolding reconcile_enable_handoff_def reconcile_disable_handoff_def by (intro keeps)+

lemma keep_kinds [keeps]: "\<lbrakk>keeps_rel R a; keeps_rel R b; keeps_rel R c\<rbrakk> \<Longrightarrow>
    keeps_rel R (case kind of EnableBackground \<Rightarrow> a | DisableBackground \<Rightarrow> b | RecoverToLocal \<Rightarrow> c)"
  by (cases kind) auto

lemma keep_request_reconcile [keeps]: "keeps_rel R observe \<Longrightarrow> keeps_rel R (request_reconcile_handoff env observe)"
  unfolding request_reconcile_handoff_def by (intro keeps)

lemma keep_starting [keeps]:
  "keeps_rel R (bootstrap_local_runtime env bc)" "keeps_rel R (bootstrap_background_runtime env bc)"
  unfolding bootstrap_local_runtime_def bootstrap_background_runtime_def by (intro keeps keep_wait_ready)+

lemma keep_remove_socket [keeps]: "keeps_rel R (remove_owned_local_unix_socket env path)"
proof -
  have "keeps_rel R (case f of NoFile \<Rightarrow> ctl_return () | OtherFile \<Rightarrow> ctl_fail e | SocketFile \<Rightarrow> io env mk)" for f e and mk :: "string \<Rightarrow> background_service_control_error"
    by (cases f) (auto intro: keeps)
  note f = this
  show ?thesis unfolding remove_owned_local_unix_socket_def by (intro keep_map_err keep_then keep_ask)
      (auto split: socket_file.split intro: keeps)
qed

lemma keep_recover [keeps]: "keeps_rel R (recover_stale_owned_local_runtime env bc)"
proof -
  have "keeps_rel R (case r of None \<Rightarrow> a | Some True \<Rightarrow> b | Some False \<Rightarrow> c)"
    if "keeps_rel R a" "keeps_rel R b" "keeps_rel R c" for r and a b c :: "('x, 'y) control"
    using that by (auto split: option.split bool.split)
  note running = this
  show ?thesis unfolding recover_stale_owned_local_runtime_def by (intro keeps running)
qed

lemma keep_bootstrap_start [keeps]: "keeps_rel R (bootstrap_start_runtime env bc)"
  unfolding bootstrap_start_runtime_def by (intro keeps keep_wait_ready)

lemma keep_bootstrap_others [keeps]:
  "keeps_rel R (snapshot_runtime_control env bc)" "keeps_rel R (bootstrap_reset_local_runtime env bc)"
  unfolding snapshot_runtime_control_def bootstrap_reset_local_runtime_def by (intro keeps)+

lemma keep_bootstrap_stop [keeps]: "keeps_rel R (bootstrap_stop_runtime env shown bc)"
proof -
  have "keeps_rel R (case m of ActualBackground \<Rightarrow> a | ActualLocal \<Rightarrow> b | ActualStopped \<Rightarrow> c | ActualForeign \<Rightarrow> d)"
    if "keeps_rel R a" "keeps_rel R b" "keeps_rel R c" "keeps_rel R d" for m and a b c d :: "('x, 'y) control"
    using that by (cases m) auto
  note cases' = this
  show ?thesis unfolding bootstrap_stop_runtime_def by (intro keeps cases')
qed

lemma keep_bootstrap_action: "keeps_rel R (run_runtime_control_bootstrap_action env shown action bc)"
  by (cases action) (simp_all add: run_runtime_control_bootstrap_action_def Let_def keep_bootstrap_start
    keep_bootstrap_others keep_bootstrap_stop keep_map_err keep_request_reconcile keep_request_enable
    keep_request_disable keep_observe)

end

section \<open>The persisted state\<close>

definition control_plane :: "control_world \<Rightarrow> persisted_runtime_control_state" where
  "control_plane w = (case cw_state w of None \<Rightarrow> default_control_state | Some s \<Rightarrow> s)"

text \<open>A transition is pending under the current generation and for the desired mode.\<close>

definition control_ok :: "persisted_runtime_control_state \<Rightarrow> bool" where
  "control_ok s \<longleftrightarrow> rc_generation s \<le> u64_max \<and> (rc_background_opt_in s \<longleftrightarrow> rc_desired_mode s = ModeBackground) \<and>
     (\<forall>p. rc_pending_transition s = Some p \<longrightarrow> pt_op_id p = rc_generation s \<and>
       pt_kind p = (if rc_background_opt_in s then EnableBackground else DisableBackground))"

definition pending_identity :: "persisted_runtime_control_state \<Rightarrow> (pending_transition_kind \<times> nat) option" where
  "pending_identity s = map_option (\<lambda>p. (pt_kind p, pt_op_id p)) (rc_pending_transition s)"

definition state_evolves :: "persisted_runtime_control_state \<Rightarrow> persisted_runtime_control_state \<Rightarrow> bool" where
  "state_evolves s s' \<longleftrightarrow> (control_ok s \<longrightarrow> control_ok s' \<and> rc_generation s \<le> rc_generation s' \<and>
     (rc_generation s' = rc_generation s \<and> rc_generation s < u64_max \<longrightarrow> pending_identity s' = pending_identity s))"

definition plane_evolves :: "control_world \<Rightarrow> control_world \<Rightarrow> bool" where
  "plane_evolves w w' \<longleftrightarrow> state_evolves (control_plane w) (control_plane w')"

lemma state_evolves_refl [simp]: "state_evolves s s"
  by (simp add: state_evolves_def)

lemma state_evolves_trans: "state_evolves a b \<Longrightarrow> state_evolves b c \<Longrightarrow> state_evolves a c"
  unfolding state_evolves_def by (metis le_antisym le_trans)

lemma control_ok_default [simp]: "control_ok default_control_state"
  by (simp add: control_ok_def default_control_state_def)

interpretation plane: control_relation plane_evolves
  by unfold_locales (auto simp: plane_evolves_def control_plane_def intro: state_evolves_trans)

text \<open>Reading gives the state; rewriting it leaves the old state or the new one, the new one when it succeeds.\<close>

lemma read_state_result:
  assumes "read_persisted_runtime_control_state env w = (w1, Ok s)"
  shows "s = control_plane w" "w1 = w\<lparr>cw_tick := cw_tick w1\<rparr>"
  using assms by (auto simp: read_persisted_runtime_control_state_def Let_def ctl_then_def io_def json_def ask_def
    ctl_return_def control_plane_def split: option.splits)

lemma read_state_world: "\<exists>n. fst (read_persisted_runtime_control_state env w) = w\<lparr>cw_tick := n\<rparr>"
  by (auto simp: read_persisted_runtime_control_state_def Let_def ctl_then_def io_def json_def ask_def
    ctl_return_def split: option.splits)

lemma write_state_world:
  "\<exists>n. fst (write_persisted_runtime_control_state env s w) = w\<lparr>cw_tick := n\<rparr> \<and>
       \<not> is_ok (snd (write_persisted_runtime_control_state env s w)) \<or>
     fst (write_persisted_runtime_control_state env s w) = w\<lparr>cw_state := Some s, cw_tick := n\<rparr>"
  by (auto simp: write_persisted_runtime_control_state_def write_private_file_atomically_def ensure_parent_dir_def
    Let_def ctl_then_def io_def json_def ask_def modify_def ctl_inspect_err_def ctl_ignore_def split: option.splits)

lemma update_state_world:
  assumes "update_state env f w = (w1, r)"
  shows "\<exists>n. w1 = w\<lparr>cw_tick := n\<rparr> \<and> \<not> is_ok r \<or>
    w1 = w\<lparr>cw_state := Some (f (control_plane w)), cw_tick := n\<rparr> \<and> (\<forall>s. r = Ok s \<longrightarrow> s = f (control_plane w))"
proof -
  obtain w2 r2 where rd: "read_persisted_runtime_control_state env w = (w2, r2)" by fastforce
  then obtain n where w2: "w2 = w\<lparr>cw_tick := n\<rparr>" using read_state_world [of env w] by auto
  show ?thesis
  proof (cases r2)
    case (Inl e)
    with assms rd w2 show ?thesis by (auto simp: update_state_def ctl_then_def)
  next
    case (Inr s)
    with rd have s: "s = control_plane w" using read_state_result by blast
    obtain w3 r3 where wr: "write_persisted_runtime_control_state env (f s) w2 = (w3, r3)" by fastforce
    with write_state_world [of env "f s" w2] obtain m where
      "w3 = w2\<lparr>cw_tick := m\<rparr> \<and> \<not> is_ok r3 \<or> w3 = w2\<lparr>cw_state := Some (f s), cw_tick := m\<rparr>" by auto
    with assms rd wr Inr s w2 show ?thesis
      by (cases r3) (auto simp: update_state_def ctl_then_def ctl_return_def)
  qed
qed

lemma update_state_evolves:
  assumes "state_evolves (control_plane w) (f (control_plane w))"
  shows "plane_evolves w (fst (update_state env f w))"
proof -
  obtain w1 r where u: "update_state env f w = (w1, r)" by fastforce
  from update_state_world [OF u] assms show ?thesis
    by (auto simp: u plane_evolves_def control_plane_def)
qed

interpretation plane: acting_relation plane_evolves
proof unfold_locales
  note ev = state_evolves_def control_ok_def pending_identity_def sat_add_def
  show "plane_evolves w (w\<lparr>cw_owner := x\<rparr>)" "plane_evolves w (w\<lparr>cw_spawned := sp\<rparr>)"
    "plane_evolves w (w\<lparr>cw_stopped := st\<rparr>)" "plane_evolves w (w\<lparr>cw_tick := n, cw_services := sv\<rparr>)"
    "plane_evolves w (w\<lparr>cw_tick := n, cw_signals := sg\<rparr>)" for w x sp st n sv sg
    by (simp_all add: plane_evolves_def control_plane_def)
  show "keeps_rel plane_evolves (start_runtime_control_transition env EnableBackground ModeBackground True step)"
    "keeps_rel plane_evolves (start_runtime_control_transition env DisableBackground ModeLocal False step)" for env step
    unfolding start_runtime_control_transition_def keeps_rel_def by (auto simp: ev Let_def intro!: update_state_evolves)
  show "keeps_rel plane_evolves (advance_runtime_control_transition env step)" for env step
    unfolding advance_runtime_control_transition_def keeps_rel_def by (auto simp: ev option.map_comp comp_def intro!: update_state_evolves)
  show "keeps_rel plane_evolves (fail_runtime_control_transition env code message)" for env code message
    unfolding fail_runtime_control_transition_def keeps_rel_def by (auto simp: ev intro!: update_state_evolves)
  show "keeps_rel plane_evolves (complete_runtime_control_transition env ModeBackground True)"
    "keeps_rel plane_evolves (complete_runtime_control_transition env ModeLocal False)" for env
    unfolding complete_runtime_control_transition_def keeps_rel_def by (auto simp: ev intro!: update_state_evolves)
  show "keeps_rel plane_evolves (clear_runtime_control_error env)" for env
    unfolding clear_runtime_control_error_def keeps_rel_def by (auto simp: ev intro!: update_state_evolves)
qed

end
