(* ===== verification/RuntimeControlCorrect.thy ===== *)
theory RuntimeControlCorrect
  imports RuntimeControlSafety
begin

text \<open>
  The properties of the control plane: what every reachable state of it satisfies, that a helper
  whose transition is gone does nothing, that a lock in use is respected, that a request and
  its helper agree, and that a reset recovers.
\<close>

section \<open>Steps\<close>

text \<open>
  Every process that works on the control files: the helpers with whatever arguments and variables,
  the commands of the desktop and the command line, and the daemon's own requests. What the machine
  answers may differ from step to step. A step is one operation; the lock keeps others out of it.
\<close>

inductive control_step :: "control_world \<Rightarrow> control_world \<Rightarrow> bool" where
  helper: "control_step w (fst (try_run_from_args env socket launch args vars w))"
| command: "control_step w (fst (run_runtime_control_bootstrap_action env shown action bconfig w))"
| enable_request: "control_step w
    (fst (request_background_enable_handoff env (observe_runtime_control_state env status) w))"
| disable_request: "control_step w
    (fst (request_background_disable_handoff env (observe_runtime_control_state env status) w))"
| stop_request: "control_step w
    (fst (request_stop_handoff env mode (observe_runtime_control_state env status) w))"
| reconcile_request: "control_step w
    (fst (request_reconcile_handoff env (observe_runtime_control_state env status) w))"

lemma plane_keeps_helper: "keeps_rel plane_evolves (try_run_from_args env socket launch args vars)"
  unfolding try_run_from_args_def
  by (intro plane.keep_then plane.keep_check plane.keep_option plane.keep_return plane.keep_handoff_action)

lemma control_step_evolves:
  assumes "control_step w w'" shows "plane_evolves w w'"
  using assms
proof (cases rule: control_step.cases)
  case (helper env socket launch args vars)
  then show ?thesis using plane_keeps_helper by (simp add: keeps_rel_def)
qed (use plane.keep_bootstrap_action plane.keep_request_enable [OF plane.keep_observe(1)]
    plane.keep_request_disable [OF plane.keep_observe(1)] plane.keep_request_stop [OF plane.keep_observe(1)]
    plane.keep_request_reconcile [OF plane.keep_observe(1)] in \<open>simp_all add: keeps_rel_def\<close>)

lemma control_steps_evolve: "control_step\<^sup>*\<^sup>* w w' \<Longrightarrow> plane_evolves w w'"
proof (induction rule: rtranclp_induct)
  case base
  show ?case by (rule plane.refl)
next
  case (step y z)
  from step(3) control_step_evolves [OF step(2)] show ?case by (rule plane.trans)
qed

lemma reachable_control_ok:
  assumes "cw_state w0 = None" and "control_step\<^sup>*\<^sup>* w0 w"
  shows "control_ok (control_plane w)"
  using control_steps_evolve [OF assms(2)] assms(1)
  by (simp add: plane_evolves_def state_evolves_def control_plane_def)

text \<open>
  C22. The control plane is consistent in every reachable state: background mode is desired exactly if the user opted in,
  and a pending transition carries the current generation as its identifier and is the one that leads to the
  desired mode, whatever files, calls and services failed on the way.
\<close>

theorem control_plane_stays_consistent:
  assumes "cw_state w0 = None" and "control_step\<^sup>*\<^sup>* w0 w"
  shows "control_ok (control_plane w)"
  using assms by (rule reachable_control_ok)

section \<open>Guards and status\<close>

text \<open>
  The status tells the truth about switching modes: in a reachable state with nothing to reconcile, enabling or disabling
  background mode is among the allowed actions exactly if the request's guard would admit it; while something is to be
  reconciled the guard refuses both.
\<close>

theorem guards_agree_with_status:
  assumes "cw_state w0 = None" and "control_step\<^sup>*\<^sup>* w0 w"
  shows "(is_ok (ensure_enable_request_allowed (control_plane w) observed) \<longleftrightarrow>
      \<not> cs_reconcile_required (daemon_control_status (control_plane w) observed) \<and>
      ActEnableBackground \<in> set (cs_allowed_actions (daemon_control_status (control_plane w) observed))) \<and>
    (is_ok (ensure_disable_request_allowed (control_plane w)) \<longleftrightarrow>
      \<not> cs_reconcile_required (daemon_control_status (control_plane w) observed) \<and>
      ActDisableBackground \<in> set (cs_allowed_actions (daemon_control_status (control_plane w) observed)))"
proof -
  from reachable_control_ok [OF assms]
  have "rc_background_opt_in (control_plane w) \<longleftrightarrow> rc_desired_mode (control_plane w) = ModeBackground"
    by (simp add: control_ok_def)
  then show ?thesis
    by (auto simp: ensure_enable_request_allowed_def ensure_disable_request_allowed_def daemon_control_status_def Let_def
      derive_allowed_actions_def derive_transition_status_def split: daemon_runtime_mode.split)
qed

text \<open>
  An error without a pending transition makes the status offer what the guard refuses: nothing but a reconcile or a
  reset gets out of it, and reconciling is not among the allowed actions.
\<close>

definition failed_stop_state :: persisted_runtime_control_state where
  "failed_stop_state = default_control_state\<lparr>rc_last_error := Some \<lparr>te_code = CodeTransitionFailed, te_message = ''e''\<rparr>\<rparr>"

lemma status_offers_refused_action:
  assumes "bs_available (ob_background_service observed)"
  shows "ActEnableBackground \<in> set (cs_allowed_actions (daemon_control_status failed_stop_state observed)) \<and>
    ActReconcile \<notin> set (cs_allowed_actions (daemon_control_status failed_stop_state observed)) \<and>
    cs_reconcile_required (daemon_control_status failed_stop_state observed) \<and>
    ensure_enable_request_allowed failed_stop_state observed =
      Err (HoActionNotAllowed ''enable-background while reconcile is required'')"
  using assms by (simp add: failed_stop_state_def default_control_state_def daemon_control_status_def Let_def
    derive_allowed_actions_def derive_transition_status_def ensure_enable_request_allowed_def)

text \<open>A failed call on the service manager leads there: stopping the background service records its failure.\<close>

lemma failed_stop_records_an_error:
  assumes "en_status env (cw_tick w) = Err RpcConnectionClosed" and "en_service env (Suc (cw_tick w)) ServiceStopped = Some e"
    and "\<forall>n. en_io env n = None" "\<forall>n. en_json env n = None"
  shows "control_plane (fst (run_stop_background_runtime_handoff env config w)) =
    (control_plane w)\<lparr>rc_last_error := Some \<lparr>te_code = CodeTransitionFailed, te_message = en_error_text env (HoControl e)\<rparr>\<rparr>"
  using assms
  by (simp add: run_stop_background_runtime_handoff_def wait_for_daemon_shutdown.simps is_daemon_unavailable_def Let_def
    ctl_then_def ctl_inspect_err_def ctl_map_err_def call_service_def record_transition_failure_def ctl_ignore_def
    fail_runtime_control_transition_def update_state_def read_persisted_runtime_control_state_def io_def json_def ask_def
    write_persisted_runtime_control_state_def write_private_file_atomically_def ensure_parent_dir_def modify_def
    ctl_return_def control_plane_def split: option.split)

section \<open>Superseded helpers\<close>

definition looks_only :: "control_world \<Rightarrow> control_world \<Rightarrow> bool" where
  "looks_only w w' \<longleftrightarrow> cw_state w' = cw_state w \<and> cw_owner w' = cw_owner w \<and> cw_services w' = cw_services w \<and>
     cw_spawned w' = cw_spawned w \<and> cw_stopped w' = cw_stopped w \<and> cw_signals w' = cw_signals w"

interpretation look: control_relation looks_only
  by unfold_locales (auto simp: looks_only_def)

lemma looks_only_plane: "looks_only w w' \<Longrightarrow> control_plane w' = control_plane w"
  by (simp add: looks_only_def control_plane_def)

text \<open>Under the lock, when the transition is not the pending one.\<close>

lemma unmatched_body:
  assumes "\<not> pending_matches kind op_id (control_plane w)"
  shows "looks_only w (fst (with_lock env HoControl
    (ctl_then (transition_matches env kind op_id) (\<lambda>ok. if \<not> ok then ctl_return () else act)) w))"
proof -
  let ?body = "ctl_then (transition_matches env kind op_id) (\<lambda>ok. if \<not> ok then ctl_return () else act)"
  obtain w1 r where a: "acquire_runtime_control_lock env w = (w1, r)" by fastforce
  have w1: "looks_only w w1" by (rule look.keep_step [OF look.keep_acquire a])
  then have "\<not> pending_matches kind op_id (control_plane w1)" using assms looks_only_plane by simp
  then have body: "fst (?body w1) = fst (transition_matches env kind op_id w1)"
    by (auto simp: ctl_then_def transition_matches_def ctl_map_err_def ctl_return_def map_err_def
      dest: read_state_result split: prod.splits sum.splits)
  obtain w2 s where b: "?body w1 = (w2, s)" by fastforce
  obtain w3 t where m: "transition_matches env kind op_id w1 = (w3, t)" by fastforce
  have "looks_only w1 w2" using look.keep_step [OF look.keep_transition_matches m] body b m by simp
  with w1 have "looks_only w w2" by (rule look.trans)
  from look.trans [OF this look.keep_release] w1 a b show ?thesis by (cases r) (simp_all add: with_lock_def)
qed

lemma ctl_check_then: "ctl_then (ctl_check (Ok x)) k = k x"
  by (intro ext) (simp add: ctl_then_def ctl_check_def)

lemma superseded_in_plane:
  assumes "plane_evolves w0 w" and "control_ok (control_plane w0)"
    and "op_id \<le> rc_generation (control_plane w0)" and "\<not> pending_matches kind op_id (control_plane w0)"
    and "rc_generation (control_plane w) < u64_max"
  shows "\<not> pending_matches kind op_id (control_plane w)"
proof
  let ?before = "control_plane w0" and ?after = "control_plane w"
  assume m: "pending_matches kind op_id ?after"
  have iff: "pending_matches kind op_id x \<longleftrightarrow> pending_identity x = Some (kind, op_id)" for x
    by (auto simp: pending_matches_def pending_identity_def some_and_def split: option.split)
  have s: "control_ok ?after" "rc_generation ?before \<le> rc_generation ?after"
      "rc_generation ?after = rc_generation ?before \<longrightarrow> pending_identity ?after = pending_identity ?before"
    using assms(1,2,5) by (auto simp: plane_evolves_def state_evolves_def)
  from m obtain p where "rc_pending_transition ?after = Some p" "pt_op_id p = op_id"
    by (auto simp: pending_matches_def some_and_def split: option.splits)
  with s(1) have "op_id = rc_generation ?after" by (simp add: control_ok_def)
  with assms(3) s(2) have "rc_generation ?after = rc_generation ?before" by simp
  with s(3) have "pending_identity ?after = pending_identity ?before" by simp
  with m assms(4) show False unfolding iff by simp
qed

text \<open>
  The steps that rewrite the state under the lock only: all but a helper that stops the background service, which records its
  failure without it.
\<close>

inductive locked_step :: "control_world \<Rightarrow> control_world \<Rightarrow> bool" where
  locked_helper: "parse_runtime_control_handoff_action args \<noteq> Ok (Some CmdStopBackgroundRuntime) \<Longrightarrow>
    locked_step w (fst (try_run_from_args env socket launch args vars w))"
| locked_command: "locked_step w (fst (run_runtime_control_bootstrap_action env shown action bconfig w))"
| locked_enable_request: "locked_step w
    (fst (request_background_enable_handoff env (observe_runtime_control_state env status) w))"
| locked_disable_request: "locked_step w
    (fst (request_background_disable_handoff env (observe_runtime_control_state env status) w))"
| locked_stop_request: "locked_step w
    (fst (request_stop_handoff env mode (observe_runtime_control_state env status) w))"
| locked_reconcile_request: "locked_step w
    (fst (request_reconcile_handoff env (observe_runtime_control_state env status) w))"

lemma locked_is_control: "locked_step w w' \<Longrightarrow> control_step w w'"
  by (induction rule: locked_step.induct) (rule control_step.intros)+

lemma locked_are_control: "locked_step\<^sup>*\<^sup>* w w' \<Longrightarrow> control_step\<^sup>*\<^sup>* w w'"
  by (rule rtranclp_mono [THEN predicate2D, of locked_step]) (auto intro: locked_is_control)

text \<open>
  C23. A helper whose transition has been completed, replaced or reset acts on nothing, however late it runs and whatever the
  processes that rewrite the state under the lock have done since: no file, no service, no daemon and no other helper
  is touched. The identifier it was given does not come back, short of 2^64 transitions. Not among these processes is
  a helper that stops the background service: when the stop fails it rewrites the state without the lock, and a
  transition started at that moment can be lost together with its number.
\<close>

theorem superseded_helper_is_harmless:
  assumes "cw_state init = None" and "locked_step\<^sup>*\<^sup>* init w0" and "locked_step\<^sup>*\<^sup>* w0 w"
    and "(action, kind) \<in> {(CmdEnableBackground, EnableBackground), (CmdDisableBackground, DisableBackground)}"
    and "he_transition_op_id (hc_expectation config) = Some op_id" and "op_id \<le> rc_generation (control_plane w0)"
    and "\<not> pending_matches kind op_id (control_plane w0)" and "rc_generation (control_plane w) < u64_max"
  shows "looks_only w (fst (run_runtime_control_handoff_action env action config w))"
proof -
  have "control_ok (control_plane w0)" by (rule reachable_control_ok [OF assms(1) locked_are_control [OF assms(2)]])
  note unmatched = unmatched_body [OF superseded_in_plane [OF control_steps_evolve [OF locked_are_control [OF assms(3)]] this assms(6,7,8)]]
  have "looks_only w (fst (run_enable_background_handoff env config w))" if "kind = EnableBackground"
    unfolding run_enable_background_handoff_def required_expected_transition_op_id_def assms(5) option.case
      ctl_check_then Let_def by (rule unmatched [unfolded that])
  moreover have "looks_only w (fst (run_disable_background_handoff env config w))" if "kind = DisableBackground"
    unfolding run_disable_background_handoff_def required_expected_transition_op_id_def assms(5) option.case
      ctl_check_then Let_def by (rule unmatched [unfolded that])
  ultimately show ?thesis using assms(4) by (auto simp: run_runtime_control_handoff_action_def)
qed

section \<open>Requests and their helpers\<close>

lemma then_OkD: "ctl_then m k w = (w', Ok y) \<Longrightarrow> \<exists>w1 x. m w = (w1, Ok x) \<and> k x w1 = (w', Ok y)"
  by (auto simp: ctl_then_def split: prod.splits sum.splits)

lemma map_err_OkD: "ctl_map_err f m w = (w', Ok y) \<Longrightarrow> m w = (w', Ok y)"
  by (auto simp: ctl_map_err_def split: prod.splits)

lemma inspect_OkD: "ctl_inspect_err m f w = (w', Ok y) \<Longrightarrow> m w = (w', Ok y)"
  by (auto simp: ctl_inspect_err_def split: prod.splits sum.splits)

lemma check_OkD: "ctl_check r w = (w', Ok y) \<Longrightarrow> w' = w \<and> r = Ok y"
  by (simp add: ctl_check_def)

lemma with_lock_OkD:
  assumes "with_lock env mk body w = (w', Ok y)"
  shows "\<exists>w1 w2. looks_only w w1 \<and> body w1 = (w2, Ok y) \<and> looks_only w2 w'"
proof -
  obtain w1 r where a: "acquire_runtime_control_lock env w = (w1, r)" by fastforce
  have w1: "looks_only w w1" by (rule look.keep_step [OF look.keep_acquire a])
  obtain w2 s where b: "body w1 = (w2, s)" by fastforce
  with assms a w1 look.keep_release [of w2 env] show ?thesis by (cases r) (auto simp: with_lock_def)
qed

lemma looking: "keeps_rel looks_only m \<Longrightarrow> m w = (w', r) \<Longrightarrow> looks_only w w'"
  by (rule look.keep_step)

lemma solid_digit: "d < 10 \<Longrightarrow> solid (digit_char d)"
proof -
  have "list_all (\<lambda>d. digit_char d \<notin> set (concat white_space)) [0..<10]" by code_simp
  then show "d < 10 \<Longrightarrow> solid (digit_char d)" by (auto simp: list_all_iff solid_def)
qed

lemma trim_dec [simp]: "trim (dec n) = dec n"
proof -
  have solid: "c \<in> set (dec n) \<Longrightarrow> solid c" for c using dec_chars [of c n] solid_digit by auto
  obtain c cs where d: "dec n = c # cs" by (cases "dec n") auto
  obtain e es where r: "rev (dec n) = e # es" by (cases "rev (dec n)") auto
  have "solid c" by (rule solid) (simp add: d)
  moreover have "e \<in> set (rev (dec n))" by (simp add: r)
  then have "solid e" by (intro solid) simp
  ultimately have "trimmed (dec n)" by (intro trimmedI) (simp_all only: d [symmetric] r lead_len_solid, simp_all add: d lead_len_solid)
  then show ?thesis by (simp add: trimmed_def)
qed

lemma map_of_sort_key:
  assumes "distinct (map fst xs)" shows "map_of (sort_key fst xs) = map_of xs"
proof
  fix k
  have d: "distinct (map fst (sort_key fst xs))" using assms by (simp add: distinct_map)
  have iff: "map_of (sort_key fst xs) k = Some v \<longleftrightarrow> map_of xs k = Some v" for v
    using map_of_eq_Some_iff [OF d] map_of_eq_Some_iff [OF assms] by simp
  show "map_of (sort_key fst xs) k = map_of xs k"
  proof (cases "map_of xs k")
    case None
    with iff [of "the (map_of (sort_key fst xs) k)"] show ?thesis
      by (cases "map_of (sort_key fst xs) k") simp_all
  next
    case (Some v)
    with iff [of v] show ?thesis by simp
  qed
qed

text \<open>What a helper reads back from its variables.\<close>

lemma expectation_roundtrip:
  assumes "\<And>i. op_id = Some i \<Longrightarrow> i \<le> u64_max"
    and e_def: "e = expectation_from_values (map_option dec op_id) instance_id token"
  shows "expectation_from_env (expectation_environment e) = e \<and> he_transition_op_id e = op_id"
proof -
  let ?xs = "option_entry handoff_op_id_var (map_option dec (he_transition_op_id e)) @
    option_entry handoff_instance_id_var (he_daemon_instance_id e) @
    option_entry handoff_control_token_var (he_control_token e)"
  have vars: "handoff_op_id_var \<noteq> handoff_instance_id_var" "handoff_op_id_var \<noteq> handoff_control_token_var"
    "handoff_instance_id_var \<noteq> handoff_control_token_var"
    by (simp_all add: handoff_op_id_var_def handoff_instance_id_var_def handoff_control_token_var_def)
  have op: "he_transition_op_id e = op_id"
    using assms(1) by (cases op_id) (simp_all add: e_def expectation_from_values_def trimmed_value_def parse_u64_dec)
  have "distinct (map fst ?xs)" using vars by (simp add: option_entry_def split: option.split)
  then have look: "map_of (expectation_environment e) = map_of ?xs"
    unfolding expectation_environment_def by (rule map_of_sort_key)
  have idem: "trimmed_value (trimmed_value v) = trimmed_value v" for v
    by (simp add: trimmed_value_def split: option.split)
  have "map_of ?xs handoff_op_id_var = map_option dec op_id"
    "map_of ?xs handoff_instance_id_var = trimmed_value instance_id"
    "map_of ?xs handoff_control_token_var = trimmed_value token"
    using vars vars [symmetric] op
    by (auto simp: option_entry_def e_def expectation_from_values_def split: option.split)
  then have "expectation_from_env (expectation_environment e) = expectation_from_values (map_option dec op_id) instance_id token"
    unfolding expectation_from_env_def look
    by (simp add: expectation_from_values_def idem)
  with op show ?thesis by (simp add: e_def)
qed

lemma spawn_OkD:
  assumes "spawn_handoff_subcommand env c e w = (w', Ok u)"
  shows "cw_spawned w' = cw_spawned w @ [\<lparr>hp_command = c, hp_environment = expectation_environment e\<rparr>] \<and>
    cw_state w' = cw_state w"
  using assms by (auto simp: spawn_handoff_subcommand_def ctl_then_def ask_def modify_def
    split: prod.splits sum.splits option.splits)

lemma start_OkD:
  assumes "start_runtime_control_transition env kind mode opt step w = (w', Ok s)"
  shows "s = control_plane w' \<and> cw_spawned w' = cw_spawned w \<and>
    s = (control_plane w)\<lparr>rc_generation := sat_add (rc_generation (control_plane w)) 1, rc_background_opt_in := opt,
      rc_desired_mode := mode, rc_pending_transition := Some \<lparr>pt_kind = kind,
        pt_op_id = sat_add (rc_generation (control_plane w)) 1, pt_step = step\<rparr>, rc_last_error := None\<rparr>"
  using update_state_world [OF assms [unfolded start_runtime_control_transition_def]]
  by (auto simp: Let_def control_plane_def)

lemma enable_request_effect:
  assumes "request_background_enable_handoff env observe w = (w', Ok status)"
    and "keeps_rel looks_only observe" and "rc_generation (control_plane w) \<le> u64_max"
  shows "\<exists>h op_id. cw_spawned w' = cw_spawned w @ [h] \<and>
    parse_runtime_control_handoff_action [exe, control_handoff_subcommand, hp_command h] = Ok (Some CmdEnableBackground) \<and>
    expectation_from_env (hp_environment h) =
      \<lparr>he_transition_op_id = Some op_id, he_daemon_instance_id = None, he_control_token = None\<rparr> \<and>
    op_id = sat_add (rc_generation (control_plane w)) 1 \<and>
    pending_matches EnableBackground op_id (control_plane w') \<and>
    rc_background_opt_in (control_plane w') \<and> rc_desired_mode (control_plane w') = ModeBackground"
proof -
  from with_lock_OkD [OF assms(1) [unfolded request_background_enable_handoff_def]]
  obtain w1 w8 where w1: "looks_only w w1" and w8: "looks_only w8 w'" and
    "ctl_then (ctl_map_err HoControl (read_persisted_runtime_control_state env)) (\<lambda>control_plane.
        ctl_then (ctl_map_err HoControl observe) (\<lambda>observed.
        ctl_then (ctl_check (ensure_enable_request_allowed control_plane observed)) (\<lambda>_.
        ctl_then (ctl_map_err HoControl
          (start_runtime_control_transition env EnableBackground ModeBackground True StepPrepare)) (\<lambda>transition.
        ctl_then (ctl_inspect_err (spawn_enable_background_handoff env (started_op_id transition))
          (record_transition_failure env)) (\<lambda>_.
        report env observe))))) w1 = (w8, Ok status)" by blast
  then obtain w2 w3 w4 w5 s u where steps:
      "read_persisted_runtime_control_state env w1 = (w2, Ok u)"
      "looks_only w2 w3"
      "start_runtime_control_transition env EnableBackground ModeBackground True StepPrepare w3 = (w4, Ok s)"
      "spawn_enable_background_handoff env (started_op_id s) w4 = (w5, Ok ())"
      "report env observe w5 = (w8, Ok status)"
    by (auto dest!: then_OkD map_err_OkD inspect_OkD check_OkD dest: looking [OF assms(2)])
  have "looks_only w1 w2" by (rule looking [OF look.keep_read_state steps(1)])
  with w1 steps(2) have w3: "looks_only w w3" using look.trans by blast
  note start = start_OkD [OF steps(3)]
  note s = conjunct1 [OF start] conjunct1 [OF conjunct2 [OF start]] conjunct2 [OF conjunct2 [OF start]]
  note sp = spawn_OkD [OF steps(4) [unfolded spawn_enable_background_handoff_def]]
  have "looks_only w5 w8" by (rule looking [OF look.keep_report [OF assms(2)] steps(5)])
  with w8 have w5: "looks_only w5 w'" using look.trans by blast
  let ?i = "sat_add (rc_generation (control_plane w)) 1"
  have i: "started_op_id s = ?i" unfolding started_op_id_def s(3) looks_only_plane [OF w3] by simp
  have "control_plane w' = s" using s(1) sp looks_only_plane [OF w5] by (simp add: control_plane_def)
  moreover have "cw_spawned w' = cw_spawned w @ [\<lparr>hp_command = command_as_str CmdEnableBackground,
      hp_environment = expectation_environment (expectation_from_values (Some (dec ?i)) None None)\<rparr>]"
    using s(2) sp w3 w5 i by (simp add: looks_only_def)
  moreover have "expectation_from_env (expectation_environment (expectation_from_values (Some (dec ?i)) None None)) =
      \<lparr>he_transition_op_id = Some ?i, he_daemon_instance_id = None, he_control_token = None\<rparr>"
    using expectation_roundtrip [of "Some ?i" _ None None]
    by (simp add: expectation_from_values_def trimmed_value_def parse_u64_dec)
  ultimately show ?thesis
    using s(3) looks_only_plane [OF w3]
    by (simp add: parse_runtime_control_handoff_action_def command_parse_def pending_matches_def)
qed

text \<open>
  C25. A request to enable background mode that is answered has recorded a fresh transition and started exactly one helper. The
  helper's arguments name the right action, and the identifier it reads from its variables is that of the
  transition, so it will act on it.
\<close>

theorem enable_request_starts_matching_helper:
  assumes "request_background_enable_handoff env observe w = (w', Ok status)"
    and "keeps_rel looks_only observe" and "rc_generation (control_plane w) \<le> u64_max"
  shows "\<exists>h op_id. cw_spawned w' = cw_spawned w @ [h] \<and>
    parse_runtime_control_handoff_action [exe, control_handoff_subcommand, hp_command h] = Ok (Some CmdEnableBackground) \<and>
    expectation_from_env (hp_environment h) =
      \<lparr>he_transition_op_id = Some op_id, he_daemon_instance_id = None, he_control_token = None\<rparr> \<and>
    op_id = sat_add (rc_generation (control_plane w)) 1 \<and>
    pending_matches EnableBackground op_id (control_plane w') \<and>
    rc_background_opt_in (control_plane w') \<and> rc_desired_mode (control_plane w') = ModeBackground"
  using assms by (rule enable_request_effect)

section \<open>The lock\<close>

definition lock_respected :: "control_env \<Rightarrow> nat \<Rightarrow> bool" where
  "lock_respected env pid \<longleftrightarrow> (\<forall>n l. en_others env n l = l) \<and> (\<forall>n. process_is_running env n pid \<noteq> Some False)"

lemma clear_stale_living:
  assumes "lock_respected env pid" and "cw_lock w = Some l" "lm_process_id l = Some pid"
  shows "\<exists>n r. clear_stale_runtime_control_lock env w = (w\<lparr>cw_tick := n\<rparr>, r) \<and> n \<le> cw_tick w + 3 \<and>
    ((\<forall>n. en_io env n = None) \<longrightarrow> r = Ok ())"
proof (cases "\<exists>x. en_io env (cw_tick w) = Some x \<or> en_io env (Suc (cw_tick w)) = Some x")
  case True
  then have "\<not> (\<forall>n. en_io env n = None)" by auto
  moreover from True have "\<exists>n r. clear_stale_runtime_control_lock env w = (w\<lparr>cw_tick := n\<rparr>, r) \<and> n \<le> cw_tick w + 3"
  proof (cases "en_io env (cw_tick w)")
    case None
    with True assms show ?thesis
      by (intro exI [of _ "Suc (Suc (cw_tick w))"]) (auto simp: clear_stale_runtime_control_lock_def Let_def ctl_then_def io_def ask_def)
  next
    case (Some x)
    with assms show ?thesis
      by (intro exI [of _ "Suc (cw_tick w)"]) (auto simp: clear_stale_runtime_control_lock_def Let_def ctl_then_def io_def ask_def)
  qed
  ultimately show ?thesis by blast
next
  case False
  with assms show ?thesis
    by (auto simp: clear_stale_runtime_control_lock_def Let_def ctl_then_def io_def ask_def is_running_def ctl_return_def
    lock_respected_def split: option.splits)
qed

lemma lock_loop_living:
  assumes "lock_respected env pid" and "cw_lock w = Some l" "lm_process_id l = Some pid" and "k \<le> 200"
  shows "\<exists>n e. acquire_lock_loop env k w = (w\<lparr>cw_tick := n\<rparr>, Err e) \<and> n \<le> cw_tick w + 3 * (201 - k) \<and>
    ((\<forall>n. en_io env n = None) \<longrightarrow> e = MutationLockTimeout (runtime_control_lock_file_path env))"
  using assms
proof (induction env k w rule: acquire_lock_loop.induct)
  case (1 env k w)
  have w: "w\<lparr>cw_lock := en_others env (cw_tick w) (cw_lock w)\<rparr> = w" using 1(2) by (simp add: lock_respected_def)
  obtain n r where c: "clear_stale_runtime_control_lock env w = (w\<lparr>cw_tick := n\<rparr>, r)" and n: "n \<le> cw_tick w + 3"
    and r: "(\<forall>n. en_io env n = None) \<longrightarrow> r = Ok ()"
    using clear_stale_living [OF 1(2,3,4)] by blast
  have three: "n \<le> cw_tick w + 3 * (201 - k)" using n 1(5) by linarith
  show ?case
  proof (cases r)
    case (Inl e)
    with c w 1(3) three r show ?thesis by (subst acquire_lock_loop.simps) auto
  next
    case (Inr u)
    show ?thesis
    proof (cases "10000 \<le> 50 * k + en_late env (cw_tick (w\<lparr>cw_tick := n\<rparr>))")
      case True
      with c w 1(3) Inr three show ?thesis by (subst acquire_lock_loop.simps) auto
    next
      case False
      then have k: "Suc k \<le> 200" by simp
      have "\<exists>m e. acquire_lock_loop env (Suc k) (w\<lparr>cw_tick := n\<rparr>) = (w\<lparr>cw_tick := n\<rparr>\<lparr>cw_tick := m\<rparr>, Err e) \<and>
          m \<le> cw_tick (w\<lparr>cw_tick := n\<rparr>) + 3 * (201 - Suc k) \<and>
          ((\<forall>n. en_io env n = None) \<longrightarrow> e = MutationLockTimeout (runtime_control_lock_file_path env))"
        by (rule 1(1) [OF _ _ _ Inr False 1(2)]) (use w 1 c k in auto)
      then obtain m e where m: "acquire_lock_loop env (Suc k) (w\<lparr>cw_tick := n\<rparr>) = (w\<lparr>cw_tick := n\<rparr>\<lparr>cw_tick := m\<rparr>, Err e)"
        "m \<le> n + 3 * (201 - Suc k)"
        "(\<forall>n. en_io env n = None) \<longrightarrow> e = MutationLockTimeout (runtime_control_lock_file_path env)" by auto
      have "m \<le> cw_tick w + 3 * (201 - k)" using m(2) n k by linarith
      moreover have "acquire_lock_loop env k w = (w\<lparr>cw_tick := m\<rparr>, Err e)"
        using c w 1(3) Inr False m(1) by (subst acquire_lock_loop.simps) auto
      ultimately show ?thesis using m(3) by blast
    qed
  qed
qed

text \<open>
  C26. The lock excludes. Let it name a readable process id whose process is never found dead, and let nobody else touch the
  lock file. Then whatever operation is attempted under the lock fails and nothing of it runs, with the lock and the whole state as they
  were. It gives up after at most 201 looks at the lock of three questions each, which are 50 ms apart: ten seconds
  of sleeping. When no file operation fails meanwhile, the error is the timeout of the lock. (A lock without a readable process id is
  outside of this: it is removed after two minutes.)
\<close>

theorem lock_excludes:
  assumes "lock_respected env pid" and "cw_lock w = Some l" and "lm_process_id l = Some pid"
  shows "\<exists>n e. with_lock env mk body w = (w\<lparr>cw_tick := n\<rparr>, Err (mk e)) \<and> n \<le> cw_tick w + 604 \<and>
    ((\<forall>n. en_io env n = None) \<longrightarrow> e = MutationLockTimeout (runtime_control_lock_file_path env))"
proof -
  let ?w = "w\<lparr>cw_tick := Suc (cw_tick w)\<rparr>"
  let ?timeout = "\<lambda>e. (\<forall>n. en_io env n = None) \<longrightarrow> e = MutationLockTimeout (runtime_control_lock_file_path env)"
  obtain n e where loop: "acquire_lock_loop env 0 ?w = (?w\<lparr>cw_tick := n\<rparr>, Err e)" "n \<le> Suc (cw_tick w) + 603" "?timeout e"
    using lock_loop_living [OF assms(1), of ?w l 0] assms(2,3) by auto
  have "\<exists>n e. acquire_runtime_control_lock env w = (w\<lparr>cw_tick := n\<rparr>, Err e) \<and> n \<le> cw_tick w + 604 \<and> ?timeout e"
  proof (cases "en_io env (cw_tick w)")
    case None
    with loop show ?thesis
      by (intro exI [of _ n] exI [of _ e]) (simp add: acquire_runtime_control_lock_def ensure_parent_dir_def ctl_then_def io_def ask_def)
  next
    case (Some x)
    then have "\<not> (\<forall>n. en_io env n = None)" by auto
    with Some show ?thesis
      by (intro exI [of _ "Suc (cw_tick w)"])
        (simp add: acquire_runtime_control_lock_def ensure_parent_dir_def ctl_then_def io_def ask_def)
  qed
  then obtain n e where "acquire_runtime_control_lock env w = (w\<lparr>cw_tick := n\<rparr>, Err e)" "n \<le> cw_tick w + 604" "?timeout e" by blast
  then show ?thesis by (intro exI [of _ n] exI [of _ e]) (simp add: with_lock_def)
qed

section \<open>Recovery\<close>

text \<open>A machine where nothing fails, and whose lock is free or left behind by a process that is gone.\<close>

definition healthy :: "control_env \<Rightarrow> bool" where
  "healthy env \<longleftrightarrow> (\<forall>n. en_io env n = None) \<and> (\<forall>n. en_json env n = None) \<and> (\<forall>n. is_ok (en_service_state env n)) \<and>
     (\<forall>n c. en_service env n c = None) \<and> (\<forall>n l. en_others env n l = l) \<and> (\<forall>n. en_late env n < 10000)"

definition abandoned :: "control_env \<Rightarrow> lock_metadata \<Rightarrow> bool" where
  "abandoned env l = (case lm_process_id l of
     None \<Rightarrow> 120000 \<le> lm_age_ms l | Some pid \<Rightarrow> (\<forall>n. process_is_running env n pid = Some False))"

lemma healthy_io: "healthy env \<Longrightarrow> io env mk w = (w\<lparr>cw_tick := Suc (cw_tick w)\<rparr>, Ok ())"
  and healthy_json: "healthy env \<Longrightarrow> json env mk w = (w\<lparr>cw_tick := Suc (cw_tick w)\<rparr>, Ok ())"
  by (simp_all add: healthy_def io_def json_def ask_def)

lemma healthy_take_lock:
  "healthy env \<Longrightarrow> \<exists>n l. take_lock env w = (w\<lparr>cw_tick := n, cw_lock := l\<rparr>, Ok ())"
  by (auto simp: take_lock_def Let_def ctl_then_def ctl_inspect_err_def healthy_io modify_def)

lemma healthy_clear_stale:
  assumes "healthy env" and "cw_lock w = Some l" "abandoned env l"
  shows "\<exists>n. clear_stale_runtime_control_lock env w = (w\<lparr>cw_tick := n, cw_lock := None\<rparr>, Ok ())"
  using assms
  by (auto simp: clear_stale_runtime_control_lock_def Let_def ctl_then_def healthy_io modify_def is_running_def ask_def
    abandoned_def split: option.splits)

lemma healthy_acquire:
  assumes "healthy env" and "\<forall>l. cw_lock w = Some l \<longrightarrow> abandoned env l"
  shows "\<exists>n l. acquire_runtime_control_lock env w = (w\<lparr>cw_tick := n, cw_lock := l\<rparr>, Ok ())"
proof -
  have free: "\<exists>n l. acquire_lock_loop env k w = (w\<lparr>cw_tick := n, cw_lock := l\<rparr>, Ok ())" if "cw_lock w = None" for k w
    using that assms(1) healthy_take_lock [OF assms(1), of "w\<lparr>cw_lock := None\<rparr>"] by (subst acquire_lock_loop.simps) (simp add: healthy_def Let_def)
  have "\<exists>n l. acquire_lock_loop env 0 w = (w\<lparr>cw_tick := n, cw_lock := l\<rparr>, Ok ())" if "\<forall>l. cw_lock w = Some l \<longrightarrow> abandoned env l" for w
  proof (cases "cw_lock w")
    case None
    then show ?thesis by (rule free)
  next
    case (Some l)
    with that obtain n where c: "clear_stale_runtime_control_lock env w = (w\<lparr>cw_tick := n, cw_lock := None\<rparr>, Ok ())"
      using healthy_clear_stale [OF assms(1)] by blast
    have "w\<lparr>cw_lock := en_others env (cw_tick w) (cw_lock w)\<rparr> = w" "\<not> 10000 \<le> en_late env n"
      using assms(1) by (simp_all add: healthy_def not_le)
    with c Some free [of "w\<lparr>cw_tick := n, cw_lock := None\<rparr>" "Suc 0"] show ?thesis
      by (subst acquire_lock_loop.simps) (auto simp: Let_def)
  qed
  from this [of "w\<lparr>cw_tick := Suc (cw_tick w)\<rparr>"] assms show ?thesis
    by (auto simp: acquire_runtime_control_lock_def ensure_parent_dir_def ctl_then_def healthy_io)
qed

lemma healthy_read:
  assumes "healthy env"
  shows "\<exists>n. read_persisted_runtime_control_state env w = (w\<lparr>cw_tick := n\<rparr>, Ok (control_plane w))"
    and "\<exists>n. read_runtime_control_ownership env w = (w\<lparr>cw_tick := n\<rparr>, Ok (cw_owner w))"
    and "\<exists>x. read_background_service_state env w = (w\<lparr>cw_tick := Suc (cw_tick w)\<rparr>, Ok x)"
proof -
  show "\<exists>n. read_persisted_runtime_control_state env w = (w\<lparr>cw_tick := n\<rparr>, Ok (control_plane w))"
    using assms by (auto simp: read_persisted_runtime_control_state_def Let_def ctl_then_def healthy_io healthy_json
      ctl_return_def control_plane_def split: option.split)
  show "\<exists>n. read_runtime_control_ownership env w = (w\<lparr>cw_tick := n\<rparr>, Ok (cw_owner w))"
    using assms by (auto simp: read_runtime_control_ownership_def Let_def ctl_then_def healthy_io healthy_json
      ctl_return_def split: option.split)
  show "\<exists>x. read_background_service_state env w = (w\<lparr>cw_tick := Suc (cw_tick w)\<rparr>, Ok x)"
    using assms by (simp add: healthy_def read_background_service_state_def ask_def is_ok_iff)
qed

lemma healthy_update:
  assumes "healthy env"
  shows "\<exists>n. update_state env f w = (w\<lparr>cw_tick := n, cw_state := Some (f (control_plane w))\<rparr>, Ok (f (control_plane w)))"
proof -
  obtain n where r: "read_persisted_runtime_control_state env w = (w\<lparr>cw_tick := n\<rparr>, Ok (control_plane w))"
    using healthy_read(1) [OF assms] by blast
  have "\<exists>m. write_persisted_runtime_control_state env s w1 = (w1\<lparr>cw_tick := m, cw_state := Some s\<rparr>, Ok ())" for s w1
  proof -
    have "write_persisted_runtime_control_state env s w1 =
        (w1\<lparr>cw_state := Some s, cw_tick := Suc (Suc (Suc (Suc (Suc (Suc (cw_tick w1))))))\<rparr>, Ok ())"
      using assms by (simp add: write_persisted_runtime_control_state_def write_private_file_atomically_def ensure_parent_dir_def
        Let_def ctl_then_def healthy_io healthy_json modify_def ctl_inspect_err_def)
    then show ?thesis by (intro exI [of _ "Suc (Suc (Suc (Suc (Suc (Suc (cw_tick w1))))))"]) simp
  qed
  from this [of "f (control_plane w)" "w\<lparr>cw_tick := n\<rparr>"] show ?thesis
    by (auto simp: update_state_def ctl_then_def r ctl_return_def)
qed

lemma healthy_observe:
  assumes "healthy env"
  shows "\<exists>w' observed. observe_runtime_control_state env status w = (w', Ok observed) \<and>
    bs_available (ob_background_service observed) = bs_available (projr (en_service_state env (cw_tick w)))"
proof -
  obtain x where s: "read_background_service_state env w = (w\<lparr>cw_tick := Suc (cw_tick w)\<rparr>, Ok x)"
    and x: "x = projr (en_service_state env (cw_tick w))"
    using healthy_read(3) [OF assms, of w] by (auto simp: read_background_service_state_def ask_def)
  obtain n where "read_runtime_control_ownership env (w\<lparr>cw_tick := Suc (cw_tick w)\<rparr>) = (w\<lparr>cw_tick := n\<rparr>, Ok (cw_owner w))"
    using healthy_read(2) [OF assms, of "w\<lparr>cw_tick := Suc (cw_tick w)\<rparr>"] by auto
  then show ?thesis by (simp add: observe_runtime_control_state_def ctl_then_def s ctl_return_def x)
qed

text \<open>On such a machine a request that the guard admits is answered.\<close>

lemma healthy_request_enable:
  assumes "healthy env" and "\<forall>n. is_ok (en_current_exe env n) \<and> en_spawn env n = None"
    and "\<forall>n. bs_available (projr (en_service_state env n))" and "cw_lock w = None"
    and "rc_pending_transition (control_plane w) = None" "rc_last_error (control_plane w) = None"
      "\<not> rc_background_opt_in (control_plane w)"
  shows "is_ok (snd (request_background_enable_handoff env (observe_runtime_control_state env status) w))"
proof -
  obtain n l where a: "acquire_runtime_control_lock env w = (w\<lparr>cw_tick := n, cw_lock := l\<rparr>, Ok ())"
    using healthy_acquire [OF assms(1), of w] assms(4) by auto
  let ?w1 = "w\<lparr>cw_tick := n, cw_lock := l\<rparr>"
  have p1: "control_plane ?w1 = control_plane w" by (simp add: control_plane_def)
  obtain w2 where r: "read_persisted_runtime_control_state env ?w1 = (w2, Ok (control_plane w))"
    using healthy_read(1) [OF assms(1), of ?w1] p1 by metis
  obtain w3 observed where o3: "observe_runtime_control_state env status w2 = (w3, Ok observed)"
    and av: "bs_available (ob_background_service observed)"
    using healthy_observe [OF assms(1), of status w2] assms(3) by auto
  have guard: "ensure_enable_request_allowed (control_plane w) observed = Ok ()"
    using assms(5-7) av by (simp add: ensure_enable_request_allowed_def)
  obtain w4 s where st: "start_runtime_control_transition env EnableBackground ModeBackground True StepPrepare w3 = (w4, Ok s)"
    using healthy_update [OF assms(1)] unfolding start_runtime_control_transition_def by blast
  obtain w5 where sp: "spawn_enable_background_handoff env (started_op_id s) w4 = (w5, Ok ())"
  proof -
    have "\<exists>y. en_current_exe env k = Ok y" for k using assms(2) by (simp add: is_ok_iff)
    then obtain exe where "en_current_exe env (cw_tick w4) = Ok exe" by blast
    then show thesis
      using assms(2) that by (auto simp: spawn_enable_background_handoff_def spawn_handoff_subcommand_def ctl_then_def ask_def modify_def)
  qed
  obtain w6 where r6: "read_persisted_runtime_control_state env w5 = (w6, Ok (control_plane w5))"
    using healthy_read(1) [OF assms(1), of w5] by blast
  obtain w7 observed' where o7: "observe_runtime_control_state env status w6 = (w7, Ok observed')"
    using healthy_observe [OF assms(1), of status w6] by blast
  show ?thesis
    unfolding request_background_enable_handoff_def with_lock_def a
    by (simp add: ctl_then_def ctl_map_err_def ctl_check_def ctl_inspect_err_def ctl_return_def report_def r o3 guard st sp r6 o7)
qed

lemma healthy_build_status:
  assumes "healthy env"
  shows "\<exists>w' obs. build_control_status env config status w = (w', Ok (daemon_control_status (control_plane w) obs))"
proof -
  obtain n where r: "read_runtime_control_ownership env w = (w\<lparr>cw_tick := n\<rparr>, Ok (cw_owner w))"
    using healthy_read(2) [OF assms] by blast
  obtain x where s: "read_background_service_state env (w\<lparr>cw_tick := n\<rparr>) = (w\<lparr>cw_tick := Suc n\<rparr>, Ok x)"
    using healthy_read(3) [OF assms, of "w\<lparr>cw_tick := n\<rparr>"] by auto
  obtain m where "read_persisted_runtime_control_state env (w\<lparr>cw_tick := Suc n\<rparr>) =
      (w\<lparr>cw_tick := m\<rparr>, Ok (control_plane (w\<lparr>cw_tick := Suc n\<rparr>)))"
    using healthy_read(1) [OF assms, of "w\<lparr>cw_tick := Suc n\<rparr>"] by auto
  then show ?thesis
    by (auto simp: build_control_status_def ctl_map_err_def ctl_then_def r s ctl_return_def control_plane_def)
qed

text \<open>
  C24. A reset recovers. Let nothing fail on the machine any more, let the state file be absent or readable, and let the lock be free or
  abandoned: it names a process that is gone, or no process id can be read from it and it is older than two minutes. Then,
  whatever the state says, resetting ends: local mode is desired and idle, there is nothing to reconcile, no runtime is owned, the
  lock is free, and the transitions started before are superseded.
\<close>

theorem reset_always_recovers:
  assumes "healthy env" and "\<forall>l. cw_lock w = Some l \<longrightarrow> abandoned env l"
  shows "\<exists>w' status. bootstrap_reset_local_runtime env config w = (w', Ok status) \<and>
    cs_desired_mode status = ModeLocal \<and> \<not> cs_background_opt_in status \<and> cs_transition_status status = TransIdle \<and>
    \<not> cs_reconcile_required status \<and> cw_owner w' = None \<and> cw_lock w' = None \<and>
    rc_pending_transition (control_plane w') = None \<and>
    rc_generation (control_plane w') = sat_add (rc_generation (control_plane w)) 1"
proof -
  obtain n l where a: "acquire_runtime_control_lock env w = (w\<lparr>cw_tick := n, cw_lock := l\<rparr>, Ok ())"
    using healthy_acquire [OF assms] by blast
  let ?w1 = "w\<lparr>cw_tick := n, cw_lock := l\<rparr>"
  let ?s = "(control_plane w)\<lparr>rc_generation := sat_add (rc_generation (control_plane w)) 1, rc_desired_mode := ModeLocal,
    rc_background_opt_in := False, rc_pending_transition := None, rc_last_error := None\<rparr>"
  obtain x where sv: "read_background_service_state env ?w1 = (?w1\<lparr>cw_tick := Suc n\<rparr>, Ok x)"
    using healthy_read(3) [OF assms(1), of ?w1] by auto
  obtain w2 where dis: "(if bs_available x then ctl_map_err BoControl (call_service env ServiceDisabled) else ctl_return ())
      (?w1\<lparr>cw_tick := Suc n\<rparr>) = (w2, Ok ())" and w2: "cw_state w2 = cw_state w"
    using assms(1) by (cases "bs_available x") (auto simp: ctl_map_err_def call_service_def ctl_return_def healthy_def)
  have clear: "\<exists>b. clear_runtime_control_ownership_if_matches env None w2 = (w2\<lparr>cw_tick := Suc (cw_tick w2), cw_owner := None\<rparr>, Ok b)"
    using assms(1) by (simp add: clear_runtime_control_ownership_if_matches_def remove_ownership_def ctl_then_def healthy_io)
  let ?w3 = "w2\<lparr>cw_tick := Suc (cw_tick w2), cw_owner := None\<rparr>"
  have plane: "control_plane ?w3 = control_plane w" using w2 by (simp add: control_plane_def)
  obtain m where done': "complete_runtime_control_transition env ModeLocal False ?w3 = (?w3\<lparr>cw_tick := m, cw_state := Some ?s\<rparr>, Ok ?s)"
    using healthy_update [OF assms(1), of "\<lambda>state. state\<lparr>rc_generation := sat_add (rc_generation state) 1,
       rc_desired_mode := ModeLocal, rc_background_opt_in := False, rc_pending_transition := None, rc_last_error := None\<rparr>" ?w3]
    unfolding complete_runtime_control_transition_def plane by blast
  let ?w4 = "?w3\<lparr>cw_tick := m, cw_state := Some ?s\<rparr>"
  obtain w5 obs where st: "ctl_then (status_if_any env) (build_control_status env config) ?w4 =
      (w5, Ok (daemon_control_status ?s obs))" and w5: "looks_only ?w4 w5"
  proof -
    obtain v where v: "(status_if_any env :: (runtime_control_bootstrap_error, _) control) ?w4 = (?w4\<lparr>cw_tick := Suc m\<rparr>, Ok v)"
      by (simp add: status_if_any_def ask_def)
    obtain w5 obs where m: "build_control_status env config v (?w4\<lparr>cw_tick := Suc m\<rparr>) =
        (w5, Ok (daemon_control_status (control_plane (?w4\<lparr>cw_tick := Suc m\<rparr>)) obs))"
      using healthy_build_status [OF assms(1)] by blast
    have "looks_only ?w4 (?w4\<lparr>cw_tick := Suc m\<rparr>)" by (simp add: looks_only_def)
    from look.trans [OF this looking [OF look.keep_build_status m]] have w5: "looks_only ?w4 w5" .
    have "control_plane (?w4\<lparr>cw_tick := Suc m\<rparr>) = ?s" by (simp add: control_plane_def)
    with m have "ctl_then (status_if_any env) (build_control_status env config) ?w4 = (w5, Ok (daemon_control_status ?s obs))"
      unfolding ctl_then_def v by simp
    then show thesis using w5 by (rule that)
  qed
  have release: "ctl_ignore (ctl_then (io env (\<lambda>x. x)) (\<lambda>_. modify (\<lambda>w. w\<lparr>cw_lock := None\<rparr>))) w5 =
      w5\<lparr>cw_tick := Suc (cw_tick w5), cw_lock := None\<rparr>"
    using assms(1) by (simp add: ctl_ignore_def ctl_then_def healthy_io modify_def)
  obtain b where b: "clear_runtime_control_ownership_if_matches env None w2 = (?w3, Ok b)" using clear by blast
  have "bootstrap_reset_local_runtime env config w =
      (w5\<lparr>cw_tick := Suc (cw_tick w5), cw_lock := None\<rparr>, Ok (daemon_control_status ?s obs))"
    unfolding bootstrap_reset_local_runtime_def with_lock_def a using sv dis b done' st release
    by (simp add: ctl_then_def ctl_map_err_def)
  moreover have "control_plane (w5\<lparr>cw_tick := Suc (cw_tick w5), cw_lock := None\<rparr>) = ?s" "cw_owner w5 = None"
    using w5 by (simp_all add: looks_only_def control_plane_def)
  ultimately show ?thesis
    by (intro exI [of _ "w5\<lparr>cw_tick := Suc (cw_tick w5), cw_lock := None\<rparr>"] exI [of _ "daemon_control_status ?s obs"])
      (simp add: daemon_control_status_def Let_def derive_transition_status_def)
qed

lemma stubborn_wait:
  assumes "\<forall>n. process_is_running env n pid = Some True"
  shows "\<exists>k e. wait_for_process_exit env pid timeout sn n w = (w\<lparr>cw_tick := k\<rparr>, Err e)"
  using assms
proof (induction env pid timeout sn n w rule: wait_for_process_exit.induct)
  case (1 env pid timeout sn n w)
  show ?case
  proof (cases "50 * n + en_late env (cw_tick w) < timeout")
    case True
    have "\<exists>k e. wait_for_process_exit env pid timeout sn (Suc n) (w\<lparr>cw_tick := Suc (cw_tick w)\<rparr>) =
        (w\<lparr>cw_tick := Suc (cw_tick w)\<rparr>\<lparr>cw_tick := k\<rparr>, Err e)"
      by (rule 1(1)) (use 1(2) True in auto)
    with 1(2) True show ?thesis by (subst wait_for_process_exit.simps) (auto simp: Let_def)
  next
    case False
    with 1(2) show ?thesis by (subst wait_for_process_exit.simps) (auto simp: Let_def)
  qed
qed

text \<open>
  A process that ignores the polite signal is never killed: the wait for its exit fails first, and the code that would
  send the second signal is not reached.
\<close>

lemma stubborn_process_is_not_killed:
  assumes "\<forall>n. process_is_running env n pid = Some True"
  shows "\<exists>w1 e. terminate_process env pid timeout w = (w1, Err e) \<and> cw_signals w1 = cw_signals w @ [(SigTerm, pid)]"
proof -
  let ?w1 = "w\<lparr>cw_tick := Suc (Suc (cw_tick w)), cw_signals := cw_signals w @ [(SigTerm, pid)]\<rparr>"
  obtain k e where "wait_for_process_exit env pid timeout ''SIGTERM'' 0 ?w1 = (?w1\<lparr>cw_tick := k\<rparr>, Err e)"
    using stubborn_wait [OF assms] by blast
  then show ?thesis
    using assms by (auto simp: terminate_process_def terminate_process_inner_def is_running_def ask_def send_signal_def ctl_then_def
      split: kill_result.split)
qed

end
