(* ===== verification/RuntimeControlWitness.thy ===== *)
theory RuntimeControlWitness
  imports RuntimeControlCorrect
begin

text \<open>The properties of the control plane on a concrete machine.\<close>

definition demo_status :: daemon_status_result where
  "demo_status = \<lparr>ds_ready = True, ds_daemon_instance_id = ''d'', ds_runtime_mode = ModeLocal, ds_socket_path = ''/s'',
     ds_log_path = ''/l'', ds_version = ''1''\<rparr>"

definition demo_background_service :: background_service_state where
  "demo_background_service = \<lparr>bs_available = True, bs_enabled = False, bs_loaded = False, bs_running = False, bs_process_id = None,
     bs_service_name = None\<rparr>"

definition demo_machine :: control_env where
  "demo_machine = \<lparr>en_state_dir = ''/c'', en_mode_dir = ''/c'', en_process_id = 7, en_temp_path = (\<lambda>n. ''/c/t''),
     en_io = (\<lambda>_. None), en_json = (\<lambda>_. None), en_others = (\<lambda>_ l. l), en_late = (\<lambda>_. 0),
     en_probe = (\<lambda>_ pid. if pid = 7 then KillOk else KillNoProcess), en_ps_stat = (\<lambda>_ _. None),
     en_kill = (\<lambda>_ _ _. KillOk), en_socket_file = (\<lambda>_. Ok NoFile), en_spawn_daemon = (\<lambda>_ _. Ok 8),
     en_status = (\<lambda>_. Ok demo_status), en_call = (\<lambda>_. Ok ()), en_service_state = (\<lambda>_. Ok demo_background_service),
     en_service = (\<lambda>_ _. None), en_current_exe = (\<lambda>_. Ok ''/bin/ta''), en_spawn = (\<lambda>_. None),
     en_daemon_binary = (\<lambda>_. Ok ''/bin/tad''), en_token = (\<lambda>_. ''t''), en_error_text = (\<lambda>_. ''e'')\<rparr>"

definition demo_world :: control_world where
  "demo_world = \<lparr>cw_tick = 0, cw_state = None, cw_owner = None, cw_lock = None, cw_services = [], cw_spawned = [],
     cw_stopped = [], cw_signals = []\<rparr>"

definition demo_enable_request :: "control_world \<times> (runtime_control_handoff_error + daemon_control_status_result)" where
  "demo_enable_request = request_background_enable_handoff demo_machine (observe_runtime_control_state demo_machine demo_status) demo_world"

definition demo_enabled :: control_world where
  "demo_enabled = fst demo_enable_request"

definition demo_launch :: daemon_control_launch_config where
  "demo_launch = \<lparr>lc_socket_name = ''n'', lc_log_path = ''/l'', lc_control_token = Some ''t'', lc_remote = None\<rparr>"

definition demo_config :: runtime_control_bootstrap_config where
  "demo_config = \<lparr>bc_socket_address = ''/s'', bc_launch_config = demo_launch, bc_runtime_mode = ModeLocal\<rparr>"

definition demo_reset :: control_world where
  "demo_reset = fst (run_runtime_control_bootstrap_action demo_machine (\<lambda>_. ''e'') BootResetLocal demo_config demo_enabled)"

lemma demo_enabled_locked: "locked_step demo_world demo_enabled"
  unfolding demo_enabled_def demo_enable_request_def by (rule locked_enable_request)

lemmas demo_enabled_step = locked_is_control [OF demo_enabled_locked]

lemma demo_reset_step: "control_step demo_enabled demo_reset"
  unfolding demo_reset_def by (rule command)

lemma demo_fresh: "cw_state demo_world = None"
  by (simp add: demo_world_def)

lemma demo_healthy: "healthy demo_machine"
  by (simp add: healthy_def demo_machine_def)

lemma demo_plane: "control_plane demo_world = default_control_state"
  by (simp add: control_plane_def demo_world_def)

lemma demo_enable_answered: "\<exists>status. demo_enable_request = (demo_enabled, Ok status)"
proof -
  have "is_ok (snd demo_enable_request)" unfolding demo_enable_request_def
    by (rule healthy_request_enable [OF demo_healthy])
      (simp_all add: demo_plane default_control_state_def demo_machine_def demo_background_service_def, simp add: demo_world_def)
  then show ?thesis unfolding demo_enabled_def is_ok_iff by (metis prod.collapse)
qed

lemma demo_one: "sat_add (rc_generation (control_plane demo_world)) 1 = 1" "rc_generation (control_plane demo_world) \<le> u64_max"
  by (simp_all add: demo_plane default_control_state_def sat_add_def u64_max_def)

lemma demo_enabled_facts: "pending_matches EnableBackground 1 (control_plane demo_enabled)"
  "rc_generation (control_plane demo_enabled) = 1"
proof -
  obtain status where d: "request_background_enable_handoff demo_machine (observe_runtime_control_state demo_machine demo_status) demo_world =
      (demo_enabled, Ok status)" using demo_enable_answered unfolding demo_enable_request_def by blast
  show m: "pending_matches EnableBackground 1 (control_plane demo_enabled)"
    using enable_request_effect [OF d look.keep_observe(1) demo_one(2)] demo_one(1) by auto
  have "control_ok (control_plane demo_enabled)"
    by (rule reachable_control_ok [OF demo_fresh]) (rule r_into_rtranclp [of control_step, OF demo_enabled_step])
  with m show "rc_generation (control_plane demo_enabled) = 1"
    by (auto simp: pending_matches_def control_ok_def some_and_def split: option.splits)
qed

theorem control_plane_stays_consistent_witness:
  "control_ok (control_plane demo_reset) \<and> control_ok (control_plane demo_enabled) \<and>
     pending_matches EnableBackground 1 (control_plane demo_enabled)"
  using control_plane_stays_consistent [OF demo_fresh r_into_rtranclp [of control_step, OF demo_enabled_step]]
    control_plane_stays_consistent [OF demo_fresh converse_rtranclp_into_rtranclp [of control_step, OF demo_enabled_step
      r_into_rtranclp [of control_step, OF demo_reset_step]]] demo_enabled_facts(1) by blast

theorem guards_agree_with_status_witness:
  "\<exists>observed. ActEnableBackground \<in> set (cs_allowed_actions (daemon_control_status (control_plane demo_world) observed)) \<and>
     is_ok (ensure_enable_request_allowed (control_plane demo_world) observed)"
proof -
  define observed where "observed = observed_from demo_config None None demo_background_service"
  have "is_ok (ensure_enable_request_allowed (control_plane demo_world) observed)"
    by (simp add: ensure_enable_request_allowed_def demo_plane default_control_state_def observed_def observed_from_def demo_background_service_def)
  with guards_agree_with_status [OF demo_fresh rtranclp.rtrancl_refl, of observed] show ?thesis by blast
qed

text \<open>A helper of an earlier transition, while the first one is pending.\<close>

definition demo_helper :: runtime_control_handoff_config where
  "demo_helper = \<lparr>hc_socket_address = ''/s'', hc_launch_config = demo_launch, hc_expectation =
     \<lparr>he_transition_op_id = Some 0, he_daemon_instance_id = None, he_control_token = None\<rparr>\<rparr>"

theorem superseded_helper_is_harmless_witness:
  "looks_only demo_enabled (fst (run_runtime_control_handoff_action demo_machine CmdEnableBackground demo_helper demo_enabled))"
proof (rule superseded_helper_is_harmless [OF demo_fresh rtranclp.rtrancl_refl r_into_rtranclp [of locked_step, OF demo_enabled_locked],
      where kind = EnableBackground and op_id = 0])
  show "\<not> pending_matches EnableBackground 0 (control_plane demo_world)"
    by (simp add: demo_plane default_control_state_def pending_matches_def)
  show "rc_generation (control_plane demo_enabled) < u64_max"
    unfolding demo_enabled_facts(2) by (simp add: u64_max_def)
qed (simp_all add: demo_helper_def)

theorem enable_request_starts_matching_helper_witness:
  "\<exists>h. cw_spawned demo_enabled = [h] \<and> he_transition_op_id (expectation_from_env (hp_environment h)) = Some 1"
proof -
  obtain status where d: "request_background_enable_handoff demo_machine (observe_runtime_control_state demo_machine demo_status) demo_world =
      (demo_enabled, Ok status)" using demo_enable_answered unfolding demo_enable_request_def by blast
  from enable_request_starts_matching_helper [OF d look.keep_observe(1) demo_one(2), of "''ta''"] demo_one(1)
  show ?thesis by (auto simp: demo_world_def)
qed

definition demo_locked :: control_world where
  "demo_locked = demo_world\<lparr>cw_lock := Some \<lparr>lm_process_id = Some 7, lm_age_ms = 0\<rparr>\<rparr>"

theorem lock_excludes_witness:
  "\<exists>n. snapshot_runtime_control demo_machine demo_config demo_locked =
     (demo_locked\<lparr>cw_tick := n\<rparr>, Err (BoControl (MutationLockTimeout (runtime_control_lock_file_path demo_machine)))) \<and> n \<le> 604"
proof -
  have "lock_respected demo_machine 7" "cw_lock demo_locked = Some \<lparr>lm_process_id = Some 7, lm_age_ms = 0\<rparr>"
    by (simp_all add: lock_respected_def demo_machine_def process_is_running_def process_is_zombie_def demo_locked_def)
  note excluded = lock_excludes [OF this, of BoControl "ctl_then (status_if_any demo_machine) (build_control_status demo_machine demo_config)"]
  have quiet: "\<forall>n. en_io demo_machine n = None" and start: "cw_tick demo_locked = 0"
    by (simp_all add: demo_machine_def demo_locked_def demo_world_def)
  show ?thesis using excluded quiet start unfolding snapshot_runtime_control_def by auto
qed

definition demo_orphaned :: control_world where
  "demo_orphaned = demo_world\<lparr>cw_lock := Some \<lparr>lm_process_id = Some 9, lm_age_ms = 0\<rparr>, cw_state := Some failed_stop_state\<rparr>"

theorem reset_always_recovers_witness:
  "\<exists>w' status. bootstrap_reset_local_runtime demo_machine demo_config demo_orphaned = (w', Ok status) \<and>
     \<not> cs_reconcile_required status \<and> cw_lock w' = None"
proof -
  have "\<forall>l. cw_lock demo_orphaned = Some l \<longrightarrow> abandoned demo_machine l"
    by (simp add: demo_orphaned_def abandoned_def demo_machine_def process_is_running_def)
  from reset_always_recovers [OF demo_healthy this, of demo_config] show ?thesis by blast
qed

end
