(* ===== verification/Timeline.thy ===== *)
theory Timeline
  imports AppErrors StoreHistory
begin

text \<open>
  The timeline of a run (\<open>crates/ta-orchestrator/src/orchestration/app/timeline.rs\<close> with the
  wire types of \<open>crates/ta-protocol/src/wire/timeline.rs\<close>): the run with all native runs started
  or forked below it, and a page of the events of these runs. The walk over the runs is shown to
  find exactly the descendants with their depths, and the pages to continue each other.
\<close>

section \<open>Wire types\<close>

definition run_timeline_event_default_limit :: nat where
  "run_timeline_event_default_limit = 500"

definition run_timeline_event_max_limit :: nat where
  "run_timeline_event_max_limit = 2000"

record get_run_timeline_query =
  tlq_session_id :: session_id
  tlq_root_run_id :: run_id
  tlq_after_seq :: "nat option"
  tlq_limit :: "nat option"

record run_timeline_run =
  tlr_run_id :: run_id
  tlr_parent_run_id :: "run_id option"
  tlr_depth :: nat
  tlr_status :: run_status
  tlr_recipe_id :: "string option"
  tlr_output_contract :: "output_contract_kind option"
  tlr_started_at_ms :: "nat option"
  tlr_ended_at_ms :: "nat option"
  tlr_workspace_info :: "worktree_info option"
  tlr_claimed_files :: "string list"

datatype run_timeline_event_kind =
    TkRunStatus | TkApprovalRequested | TkApprovalResolved | TkClaimConflict | TkBudgetExceeded
  | TkTokenUsage | TkToolCall | TkArtifact | TkReceipt | TkAgentStream

datatype run_timeline_event_payload =
    TpRun string
  | TpApprovalRequested approval_id approval_scope
  | TpApprovalResolved approval_id approval_decision
  | TpConflict conflict_warning
  | TpBudgetExceeded budget_scope budget_metric nat nat
  | TpTokenUsage token_usage_recorded_event
  | TpToolCall "string option" "agent_tool_call_outcome option"
  | TpArtifact string artifact_kind
  | TpReceipt receipt_id receipt_kind receipt_state
  | TpAgentStream string

record run_timeline_event =
  tle_seq :: nat
  tle_occurred_at_ms :: nat
  tle_run_id :: run_id
  tle_kind :: run_timeline_event_kind
  tle_status :: "run_status option"
  tle_label :: string
  tle_payload :: run_timeline_event_payload

record run_timeline_record =
  tl_session_id :: session_id
  tl_root_run_id :: run_id
  tl_runs :: "run_timeline_run list"
  tl_events :: "run_timeline_event list"
  tl_latest_event_seq :: "nat option"

section \<open>The runs below a run\<close>

definition children_by_parent :: "run_projection list \<Rightarrow> (run_id, run_id list) btree" where
  "children_by_parent runs =
     fold (\<lambda>run m. case native_run_parent_id run of
         None \<Rightarrow> m
       | Some parent \<Rightarrow> bt_put parent (unwrap_or (bt_get m parent) [] @ [rn_id run]) m) runs []"

text \<open>
  The stack of the walk is a list with its top first; the children are pushed in reverse, so the
  first of them is on top. A run found a second time only has its depth replaced. The depth is a
  \<open>u32\<close> in the code; it is at most the number of runs.
\<close>

lemma set_keys_put: "set (bt_keys (bt_put k v m)) = insert k (set (bt_keys m))"
  unfolding bt_put_def by (auto simp: neq_iff image_iff)

lemma unvisited_smaller:
  assumes "r \<in> A" "finite A" "r \<notin> B"
  shows "card (A - insert r B) < card (A - B)"
  using assms by (intro psubset_card_mono) auto

lemma unvisited_not_larger: "finite A \<Longrightarrow> card (A - insert r B) \<le> card (A - B)"
  by (intro card_mono) auto

function descend :: "(run_id, run_id list) btree \<Rightarrow> (run_id \<times> nat) list \<Rightarrow> (run_id, nat) btree \<Rightarrow>
    (run_id, nat) btree" where
  "descend children [] depths = depths"
| "descend children ((r, d) # pending) depths =
     (if bt_contains depths r then descend children pending (bt_put r d depths)
      else descend children
        (map (\<lambda>c. (c, Suc d)) (unwrap_or (bt_get children r) []) @ pending) (bt_put r d depths))"
  by pat_completeness auto

termination
proof (relation "measures [\<lambda>(children, pending, depths). card (set (bt_keys children) - set (bt_keys depths)),
    \<lambda>(children, pending, depths). length pending]", goal_cases)
  case 1
  show ?case by simp
next
  case (2 children r d pending depths)
  have "card (set (bt_keys children) - insert r (set (bt_keys depths))) \<le>
      card (set (bt_keys children) - set (bt_keys depths))"
    by (rule unvisited_not_larger) simp
  then show ?case by (simp only: measures_def in_inv_image split_conv set_keys_put) (auto simp: le_less set_keys_put simp del: set_map)
next
  case (3 children r d pending depths)
  have new: "r \<notin> set (bt_keys depths)" using 3 by (simp add: bt_contains_keys)
  have le: "card (set (bt_keys children) - insert r (set (bt_keys depths))) \<le>
      card (set (bt_keys children) - set (bt_keys depths))"
    by (rule unvisited_not_larger) simp
  show ?case
  proof (cases "bt_get children r")
    case None
    with le show ?thesis by (auto simp: le_less set_keys_put unwrap_or_def simp del: set_map)
  next
    case (Some cs)
    then have "r \<in> set (bt_keys children)" by (metis bt_contains_iff bt_contains_keys)
    from unvisited_smaller [OF this _ new]
    show ?thesis by (simp add: set_keys_put del: set_map)
  qed
qed

declare descend.simps [simp del]

definition collect_descendants :: "run_id \<Rightarrow> run_projection list \<Rightarrow> (run_id, nat) btree" where
  "collect_descendants root_run_id runs = descend (children_by_parent runs) [(root_run_id, 0)] []"

fun run_recipe_id :: "run_projection \<Rightarrow> string option" where
  "run_recipe_id run = (case rn_source run of
       SourceNativeSubagent _ _ _ _ recipe _ _ _ \<Rightarrow> recipe
     | SourceUser _ _ recipe \<Rightarrow> recipe
     | SourceForked _ _ \<Rightarrow> None)"

fun run_output_contract :: "run_projection \<Rightarrow> output_contract_kind option" where
  "run_output_contract run = (case rn_source run of
       SourceNativeSubagent _ _ contract _ _ _ _ _ \<Rightarrow> contract
     | SourceUser contract _ _ \<Rightarrow> contract
     | SourceForked _ _ \<Rightarrow> None)"

definition timeline_run :: "nat \<Rightarrow> run_projection \<Rightarrow> run_timeline_run" where
  "timeline_run depth run =
     \<lparr>tlr_run_id = rn_id run, tlr_parent_run_id = native_run_parent_id run, tlr_depth = depth,
      tlr_status = rn_status run, tlr_recipe_id = run_recipe_id run,
      tlr_output_contract = run_output_contract run, tlr_started_at_ms = rn_started_at_ms run,
      tlr_ended_at_ms = rn_ended_at_ms run, tlr_workspace_info = rn_workspace_info run,
      tlr_claimed_files = rn_claimed_files run\<rparr>"

text \<open>The comparison of \<open>sort_by\<close>, which is stable, as a key.\<close>

definition timeline_run_key :: "run_timeline_run \<Rightarrow> nat \<times> string" where
  "timeline_run_key run = (unwrap_or (tlr_started_at_ms run) 0, as_str (tlr_run_id run))"

definition project_timeline_runs :: "run_projection list \<Rightarrow> (run_id, nat) btree \<Rightarrow> run_timeline_run list" where
  "project_timeline_runs runs depths = sort_key timeline_run_key
     (List.map_filter (\<lambda>run. map_option (\<lambda>depth. timeline_run depth run) (bt_get depths (rn_id run))) runs)"

section \<open>The events of the runs\<close>

text \<open>The \<open>Debug\<close> form of the enumerations, in lower case.\<close>

fun decision_label :: "approval_decision \<Rightarrow> string" where
  "decision_label Approved = ''approved''"
| "decision_label Rejected = ''rejected''"

fun metric_label :: "budget_metric \<Rightarrow> string" where
  "metric_label MetricTokens = ''tokens''"
| "metric_label MetricWallClockMs = ''wallclockms''"
| "metric_label MetricToolCalls = ''toolcalls''"

fun outcome_label :: "agent_tool_call_outcome \<Rightarrow> string" where
  "outcome_label OutcomeCompleted = ''completed''"
| "outcome_label OutcomeFailed = ''failed''"
| "outcome_label OutcomeCancelled = ''cancelled''"

fun pending_label :: "runtime_lane_pending_state \<Rightarrow> string" where
  "pending_label PendQueued = ''queued''"
| "pending_label PendWaitingForApproval = ''waitingforapproval''"
| "pending_label PendWaitingForInput = ''waitingforinput''"

fun artifact_label :: "artifact_kind \<Rightarrow> string" where
  "artifact_label AkTranscript = ''transcript''"
| "artifact_label AkPatch = ''patch''"
| "artifact_label AkFileSnapshot = ''filesnapshot''"
| "artifact_label AkCommandLog = ''commandlog''"

fun receipt_label :: "receipt_state \<Rightarrow> string" where
  "receipt_label Returned = ''returned''"
| "receipt_label Promoted = ''promoted''"
| "receipt_label Quarantined = ''quarantined''"

type_synonym timeline_row =
  "run_id \<times> run_timeline_event_kind \<times> run_status option \<times> string \<times> run_timeline_event_payload"

definition agent_stream_parts :: "run_id \<Rightarrow> string \<Rightarrow> string \<Rightarrow> timeline_row" where
  "agent_stream_parts r label frame_kind = (r, TkAgentStream, None, label, TpAgentStream frame_kind)"

fun agent_stream_timeline_event :: "run_id \<Rightarrow> agent_stream_frame \<Rightarrow> timeline_row option" where
  "agent_stream_timeline_event r (TokenUsageUpdated _ _) =
     Some (agent_stream_parts r ''token usage updated'' ''tokenUsageUpdated'')"
| "agent_stream_timeline_event r (ToolCallStarted tool_name _) =
     Some (r, TkToolCall, None, ''tool started: '' @ tool_name, TpToolCall (Some tool_name) None)"
| "agent_stream_timeline_event r (ToolCallCompleted outcome) =
     Some (r, TkToolCall, None, ''tool '' @ outcome_label outcome, TpToolCall None (Some outcome))"
| "agent_stream_timeline_event r AssistantTurnStarted =
     Some (agent_stream_parts r ''assistant turn started'' ''assistantTurnStarted'')"
| "agent_stream_timeline_event r AssistantTurnCompleted =
     Some (agent_stream_parts r ''assistant turn completed'' ''assistantTurnCompleted'')"
| "agent_stream_timeline_event r (PendingStateChanged s) =
     Some (agent_stream_parts r (''pending '' @ pending_label s) ''pendingStateChanged'')"
| "agent_stream_timeline_event r (AssistantMessageDelta _) = None"
| "agent_stream_timeline_event r (ToolCallProgressed _) = None"

definition conflict_touches_lineage :: "run_id \<Rightarrow> conflict_warning \<Rightarrow> run_id set \<Rightarrow> bool" where
  "conflict_touches_lineage r w lineage_ids \<longleftrightarrow>
     r \<in> lineage_ids \<or> cw_requesting_capsule w \<in> lineage_ids \<or>
     list_ex (\<lambda>c. fc_holding_capsule c \<in> lineage_ids) (cw_conflicts w)"

definition receipt_parts :: "run_id set \<Rightarrow> context_receipt \<Rightarrow> timeline_row option" where
  "receipt_parts lineage_ids r =
     (if rc_run_id r \<in> lineage_ids
      then Some (rc_run_id r, TkReceipt, None, ''receipt '' @ receipt_label (rc_state r),
                 TpReceipt (rc_id r) (rc_kind r) (rc_state r))
      else None)"

fun timeline_parts :: "run_id set \<Rightarrow> daemon_event \<Rightarrow> timeline_row option" where
  "timeline_parts lineage_ids (EvRun e) =
     (if re_run_id e \<in> lineage_ids
      then Some (re_run_id e, TkRunStatus, Some (re_status e), re_detail e, TpRun (re_detail e)) else None)"
| "timeline_parts lineage_ids (EvApproval (ApprovalRequested q)) =
     (if rq_run_id q \<in> lineage_ids
      then Some (rq_run_id q, TkApprovalRequested, None, ''approval requested'',
                 TpApprovalRequested (rq_id q) (rq_scope q)) else None)"
| "timeline_parts lineage_ids (EvApproval (ApprovalResolved r)) =
     (if rs_run_id r \<in> lineage_ids
      then Some (rs_run_id r, TkApprovalResolved, None, ''approval '' @ decision_label (rs_decision r),
                 TpApprovalResolved (rs_approval_id r) (rs_decision r)) else None)"
| "timeline_parts lineage_ids (EvConflict (ConflictWarningEv r w)) =
     (if conflict_touches_lineage r w lineage_ids
      then Some (r, TkClaimConflict, None, ''claim conflict warning'', TpConflict w) else None)"
| "timeline_parts lineage_ids (EvBudget (BudgetEvExceeded e)) =
     (if be_run_id e \<in> lineage_ids \<or> some_and (\<lambda>r. r \<in> lineage_ids) (be_parent_run_id e)
      then Some (be_run_id e, TkBudgetExceeded, Some BudgetExceeded,
                 ''budget exceeded: '' @ metric_label (bb_metric (be_breach e)),
                 TpBudgetExceeded (bb_scope (be_breach e)) (bb_metric (be_breach e))
                   (bb_limit (be_breach e)) (bb_actual (be_breach e))) else None)"
| "timeline_parts lineage_ids (EvAgentStream e) =
     (if as_run_id e \<in> lineage_ids
      then agent_stream_timeline_event (as_run_id e) (em_frame (as_emission e)) else None)"
| "timeline_parts lineage_ids (EvTokenUsageRecorded e) =
     (if tu_run_id e \<in> lineage_ids
      then Some (tu_run_id e, TkTokenUsage, None,
                 ''token usage recorded: '' @ dec (tu_prompt_tokens e) @ '' prompt / '' @
                 dec (tu_completion_tokens e) @ '' completion'', TpTokenUsage e) else None)"
| "timeline_parts lineage_ids (EvArtifact a) =
     (if af_run_id a \<in> lineage_ids
      then Some (af_run_id a, TkArtifact, None, ''artifact '' @ artifact_label (af_kind a),
                 TpArtifact (as_str (af_id a)) (af_kind a)) else None)"
| "timeline_parts lineage_ids (EvContextReceipt (ReceiptCreated r)) = receipt_parts lineage_ids r"
| "timeline_parts lineage_ids (EvContextReceipt (ReceiptPromoted r)) = receipt_parts lineage_ids r"
| "timeline_parts lineage_ids (EvContextReceipt (ReceiptQuarantined r)) = receipt_parts lineage_ids r"
| "timeline_parts lineage_ids (EvSession _) = None"
| "timeline_parts lineage_ids (EvRunReconciledOnStartup _) = None"

definition timeline_event_from_record :: "run_id set \<Rightarrow> event_record \<Rightarrow> run_timeline_event option" where
  "timeline_event_from_record lineage_ids record =
     (case timeline_parts lineage_ids (ev_payload record) of
        None \<Rightarrow> None
      | Some (r, kind, status, label, payload) \<Rightarrow>
          Some \<lparr>tle_seq = ev_sequence record, tle_occurred_at_ms = ev_occurred_at_ms record,
                tle_run_id = r, tle_kind = kind, tle_status = status, tle_label = label,
                tle_payload = payload\<rparr>)"

record timeline_event_page =
  tep_items :: "run_timeline_event list"
  tep_latest_event_seq :: "nat option"

fun timeline_loop :: "run_id set \<Rightarrow> nat option \<Rightarrow> nat \<Rightarrow> event_record list \<Rightarrow> timeline_event_page \<Rightarrow>
    timeline_event_page" where
  "timeline_loop lineage_ids after_seq limit [] page = page"
| "timeline_loop lineage_ids after_seq limit (record # records) page =
     (case timeline_event_from_record lineage_ids record of
        None \<Rightarrow> timeline_loop lineage_ids after_seq limit records page
      | Some e \<Rightarrow>
          let page1 = page\<lparr>tep_latest_event_seq := Some (tle_seq e)\<rparr> in
          if some_and (\<lambda>a. tle_seq e \<le> a) after_seq \<or> limit \<le> length (tep_items page)
          then timeline_loop lineage_ids after_seq limit records page1
          else timeline_loop lineage_ids after_seq limit records
            (page1\<lparr>tep_items := tep_items page @ [e]\<rparr>))"

definition collect_timeline_events :: "event_record list \<Rightarrow> (run_id, nat) btree \<Rightarrow> nat option \<Rightarrow> nat \<Rightarrow>
    timeline_event_page" where
  "collect_timeline_events records depths after_seq limit =
     timeline_loop (set (bt_keys depths)) after_seq limit records
       \<lparr>tep_items = [], tep_latest_event_seq = None\<rparr>"

section \<open>The query\<close>

definition events_for_session :: "session_id \<Rightarrow> memory_store \<Rightarrow> event_record list" where
  "events_for_session s st = filter (\<lambda>e. ev_session_id e = s) (bt_values (ms_events st))"

definition native_session_runs :: "session_id \<Rightarrow> memory_store \<Rightarrow> run_projection list" where
  "native_session_runs s st =
     filter (\<lambda>run. rn_session_id run = s \<and> rn_harness run = HarnessNative) (bt_values (ms_runs st))"

definition run_timeline :: "session_id \<Rightarrow> get_run_timeline_query \<Rightarrow> memory_store \<Rightarrow>
    (run_timeline_record, 'e app_service_error) result" where
  "run_timeline s q st =
     (let limit = unwrap_or (tlq_limit q) run_timeline_event_default_limit in
      if tlq_session_id q \<noteq> s then Err (AppRunSessionMismatch (as_str (tlq_root_run_id q)))
      else if limit = 0 \<or> run_timeline_event_max_limit < limit
      then Err (InvalidRunTimelineLimit run_timeline_event_max_limit)
      else case bt_get (ms_runs st) (tlq_root_run_id q) of
        None \<Rightarrow> Err (AppRunNotFound (as_str (tlq_root_run_id q)))
      | Some base_run \<Rightarrow>
          if rn_session_id base_run \<noteq> s then Err (AppRunSessionMismatch (as_str (rn_id base_run)))
          else if rn_harness base_run \<noteq> HarnessNative then Err (AppRunNotNativeHarness (as_str (rn_id base_run)))
          else
            let runs = native_session_runs s st;
                descendants = collect_descendants (tlq_root_run_id q) runs;
                events = collect_timeline_events (events_for_session s st) descendants (tlq_after_seq q) limit
            in Ok \<lparr>tl_session_id = s, tl_root_run_id = tlq_root_run_id q,
                    tl_runs = project_timeline_runs runs descendants,
                    tl_events = tep_items events, tl_latest_event_seq = tep_latest_event_seq events\<rparr>)"

declare native_run_parent_id.simps [simp del]

section \<open>The walk finds the descendants\<close>

inductive lineage :: "run_projection list \<Rightarrow> run_id \<Rightarrow> run_id \<Rightarrow> nat \<Rightarrow> bool" for runs r0 where
  lineage_top: "lineage runs r0 r0 0"
| lineage_child: "lineage runs r0 p d \<Longrightarrow> run \<in> set runs \<Longrightarrow> native_run_parent_id run = Some p \<Longrightarrow>
    lineage runs r0 (rn_id run) (Suc d)"

definition lineage_ids :: "run_projection list \<Rightarrow> run_id \<Rightarrow> run_id set" where
  "lineage_ids runs r0 = {r. \<exists>d. lineage runs r0 r d}"

lemma children_by_parent_get:
  "unwrap_or (bt_get (children_by_parent runs) p) [] =
     map rn_id (filter (\<lambda>run. native_run_parent_id run = Some p) runs)"
proof (induction runs rule: rev_induct)
  case (snoc run runs)
  let ?m = "children_by_parent runs"
  have "children_by_parent (runs @ [run]) =
      (case native_run_parent_id run of None \<Rightarrow> ?m
       | Some q \<Rightarrow> bt_put q (unwrap_or (bt_get ?m q) [] @ [rn_id run]) ?m)"
    by (simp add: children_by_parent_def split: option.splits)
  with snoc show ?case by (auto split: option.splits)
qed (simp add: children_by_parent_def)

lemma descend_sound:
  assumes "\<And>r d c. Q r d \<Longrightarrow> c \<in> set (unwrap_or (bt_get children r) []) \<Longrightarrow> Q c (Suc d)"
    and "\<And>r d. (r, d) \<in> set pending \<Longrightarrow> Q r d" and "\<And>r d. bt_get depths r = Some d \<Longrightarrow> Q r d"
    and "bt_get (descend children pending depths) r = Some d"
  shows "Q r d"
  using assms
proof (induction children pending depths rule: descend.induct)
  case (1 children depths)
  then show ?case by (simp add: descend.simps)
next
  case (2 children r' d' pending depths)
  have depths: "bt_get (bt_put r' d' depths) x = Some y \<Longrightarrow> Q x y" for x y
    using 2(4) [of r' d'] 2(5) [of x y] by (auto split: if_splits)
  show ?case
  proof (cases "bt_contains depths r'")
    case True
    show ?thesis
      by (rule 2(1) [OF True 2(3)]) (use 2 True depths in \<open>auto simp: descend.simps\<close>)
  next
    case False
    show ?thesis
    proof (rule 2(2) [OF False 2(3)])
      show "bt_get (descend children (map (\<lambda>c. (c, Suc d')) (unwrap_or (bt_get children r') []) @ pending)
          (bt_put r' d' depths)) r = Some d"
        using 2(6) False by (simp add: descend.simps)
      fix x y
      assume "(x, y) \<in> set (map (\<lambda>c. (c, Suc d')) (unwrap_or (bt_get children r') []) @ pending)"
      then show "Q x y" using 2(3) [of r' d' x] 2(4) [of r' d'] 2(4) [of x y] by auto
    qed (use depths in auto)
  qed
qed

definition covered :: "(run_id, run_id list) btree \<Rightarrow> (run_id \<times> nat) list \<Rightarrow> (run_id, nat) btree \<Rightarrow> bool" where
  "covered children pending depths \<longleftrightarrow> (\<forall>r c. bt_contains depths r \<longrightarrow>
     c \<in> set (unwrap_or (bt_get children r) []) \<longrightarrow> bt_contains depths c \<or> c \<in> fst ` set pending)"

lemma covered_again: "covered children ((r, d) # pending) depths \<Longrightarrow> bt_contains depths r \<Longrightarrow>
    covered children pending (bt_put r d depths)"
  unfolding covered_def bt_contains_put by (simp only: list.set image_insert fst_conv) blast

lemma covered_visit: "covered children ((r, d) # pending) depths \<Longrightarrow>
    covered children (map (\<lambda>c. (c, n)) (unwrap_or (bt_get children r) []) @ pending) (bt_put r d depths)"
  unfolding covered_def bt_contains_put by (auto simp: image_Un image_image)

lemma descend_closed:
  assumes "covered children pending depths"
  shows "covered children [] (descend children pending depths) \<and>
    (\<forall>r. bt_contains depths r \<or> r \<in> fst ` set pending \<longrightarrow> bt_contains (descend children pending depths) r)"
  using assms
proof (induction children pending depths rule: descend.induct)
  case (1 children depths)
  then show ?case by (simp add: descend.simps)
next
  case (2 children r d pending depths)
  show ?case
  proof (cases "bt_contains depths r")
    case True
    from 2(1) [OF True covered_again [OF 2(3) True]] True show ?thesis
      by (auto simp: descend.simps)
  next
    case False
    from 2(2) [OF False covered_visit [OF 2(3)]] False show ?thesis
      by (auto simp: descend.simps)
  qed
qed

lemma child_lineage:
  assumes "lineage runs r0 p d" and "c \<in> set (unwrap_or (bt_get (children_by_parent runs) p) [])"
  shows "lineage runs r0 c (Suc d)"
  using assms by (auto simp: children_by_parent_get intro: lineage_child)

lemma descendant_depth:
  "bt_get (collect_descendants r0 runs) r = Some d \<Longrightarrow> lineage runs r0 r d"
  unfolding collect_descendants_def
  by (rule descend_sound [where Q = "lineage runs r0"]) (auto intro: child_lineage lineage_top)

lemma descendants_exact: "set (bt_keys (collect_descendants r0 runs)) = lineage_ids runs r0"
proof -
  let ?ds = "collect_descendants r0 runs"
  have "covered (children_by_parent runs) [(r0, 0)] []" by (simp add: covered_def)
  from descend_closed [OF this]
  have cov: "covered (children_by_parent runs) [] ?ds" and top: "bt_contains ?ds r0"
    by (simp_all add: collect_descendants_def)
  have "lineage runs r0 r d \<Longrightarrow> bt_contains ?ds r" for r d
  proof (induction rule: lineage.induct)
    case (lineage_child p d run)
    then have "rn_id run \<in> set (unwrap_or (bt_get (children_by_parent runs) p) [])"
      by (simp add: children_by_parent_get)
    with cov lineage_child show ?case by (auto simp: covered_def)
  qed (rule top)
  moreover have "bt_contains ?ds r \<Longrightarrow> r \<in> lineage_ids runs r0" for r
    by (auto simp: bt_contains_iff lineage_ids_def intro: descendant_depth)
  ultimately show ?thesis unfolding lineage_ids_def bt_contains_keys by blast
qed

lemma lineage_depth_unique:
  assumes ids: "distinct (map rn_id runs)" and top: "\<And>d. lineage runs r0 r0 d \<Longrightarrow> d = 0"
  shows "lineage runs r0 r d \<Longrightarrow> lineage runs r0 r d' \<Longrightarrow> d = d'"
proof (induction arbitrary: d' rule: lineage.induct)
  case lineage_top
  then show ?case using top by simp
next
  case (lineage_child p d run)
  have next_up: "lineage runs r0 (rn_id run) (Suc d)" using lineage_child.hyps by (rule lineage.lineage_child)
  note IH = lineage_child.IH and run = lineage_child.hyps(2,3)
  from lineage_child.prems show ?case
  proof cases
    case lineage_top
    then show ?thesis using top [of "Suc d"] next_up by simp
  next
    case (lineage_child p' e run')
    have "run' = run" using ids run(1) lineage_child by (metis distinct_map inj_onD)
    then show ?thesis using lineage_child IH run(2) by simp
  qed
qed

lemma descendant_depth_exact:
  assumes "distinct (map rn_id runs)" and "\<And>d. lineage runs r0 r0 d \<Longrightarrow> d = 0"
  shows "bt_get (collect_descendants r0 runs) r = Some d \<longleftrightarrow> lineage runs r0 r d"
proof
  assume l: "lineage runs r0 r d"
  then have "r \<in> set (bt_keys (collect_descendants r0 runs))"
    unfolding descendants_exact by (auto simp: lineage_ids_def)
  then obtain e where e: "bt_get (collect_descendants r0 runs) r = Some e"
    by (metis bt_contains_iff bt_contains_keys)
  from lineage_depth_unique [OF assms l descendant_depth [OF e]] e
  show "bt_get (collect_descendants r0 runs) r = Some d" by simp
qed (rule descendant_depth)

section \<open>Pages of the timeline\<close>

definition timeline_events :: "run_id set \<Rightarrow> event_record list \<Rightarrow> run_timeline_event list" where
  "timeline_events ids records = List.map_filter (timeline_event_from_record ids) records"

definition after :: "nat option \<Rightarrow> run_timeline_event list \<Rightarrow> run_timeline_event list" where
  "after n es = filter (\<lambda>e. none_or (\<lambda>a. a < tle_seq e) n) es"

definition last_seq :: "run_timeline_event list \<Rightarrow> nat option" where
  "last_seq es = (if es = [] then None else Some (tle_seq (last es)))"

lemma timeline_loop_eq:
  "length (tep_items page) \<le> limit \<Longrightarrow>
   timeline_loop ids n limit records page =
     \<lparr>tep_items = tep_items page @ take (limit - length (tep_items page)) (after n (timeline_events ids records)),
      tep_latest_event_seq = opt_or (last_seq (timeline_events ids records)) (tep_latest_event_seq page)\<rparr>"
proof (induction ids n limit records page rule: timeline_loop.induct)
  case (1 ids n limit page)
  show ?case by (simp add: timeline_events_def after_def last_seq_def List.map_filter_simps)
next
  case (2 ids n limit rec records page)
  show ?case
  proof (cases "timeline_event_from_record ids rec")
    case None
    with 2 show ?thesis by (simp add: timeline_events_def List.map_filter_simps)
  next
    case (Some e)
    have skip: "\<not> none_or (\<lambda>a. a < tle_seq e) n \<longleftrightarrow> some_and (\<lambda>a. tle_seq e \<le> a) n"
      by (cases n) auto
    have latest: "opt_or (last_seq es) (Some (tle_seq e)) = last_seq (e # es)" for es
      by (simp add: last_seq_def)
    have evs: "timeline_events ids (rec # records) = e # timeline_events ids records"
      using Some by (simp add: timeline_events_def List.map_filter_simps)
    have opt: "opt_or (last_seq (e # es)) x = last_seq (e # es)" for es x by (simp add: last_seq_def)
    let ?full = "limit \<le> length (tep_items page)"
    consider "some_and (\<lambda>a. tle_seq e \<le> a) n" | "\<not> some_and (\<lambda>a. tle_seq e \<le> a) n" ?full
      | "\<not> some_and (\<lambda>a. tle_seq e \<le> a) n" "\<not> ?full" by blast
    then show ?thesis
    proof cases
      case 1
      with 2(2) [OF Some refl] 2(4) show ?thesis
        using skip by (simp add: Some evs opt latest after_def Let_def)
    next
      case 2
      with "2.IH"(2) [OF Some refl] "2.prems" show ?thesis
        by (simp add: Some evs opt latest Let_def)
    next
      case 3
      then have "limit - length (tep_items page) = Suc (limit - Suc (length (tep_items page)))" by simp
      with 3 "2.IH"(3) [OF Some refl] "2.prems" skip show ?thesis
        by (simp add: Some evs opt latest after_def Let_def)
    qed
  qed
qed

lemma collect_timeline_events_eq:
  "collect_timeline_events records depths n limit =
     \<lparr>tep_items = take limit (after n (timeline_events (set (bt_keys depths)) records)),
      tep_latest_event_seq = last_seq (timeline_events (set (bt_keys depths)) records)\<rparr>"
  by (simp add: collect_timeline_events_def timeline_loop_eq opt_or_def split: option.splits)

lemma timeline_page:
  "collect_timeline_events records (collect_descendants r0 runs) n limit =
     \<lparr>tep_items = take limit (after n (timeline_events (lineage_ids runs r0) records)),
      tep_latest_event_seq = last_seq (timeline_events (lineage_ids runs r0) records)\<rparr>"
  by (simp only: collect_timeline_events_eq descendants_exact)

lemma run_timeline_Ok:
  assumes "run_timeline s q st = Ok t"
  shows "tlq_session_id q = s" "0 < unwrap_or (tlq_limit q) run_timeline_event_default_limit"
    and "tl_events t = take (unwrap_or (tlq_limit q) run_timeline_event_default_limit)
      (after (tlq_after_seq q) (timeline_events
        (lineage_ids (native_session_runs s st) (tlq_root_run_id q)) (events_for_session s st)))"
    and "tl_latest_event_seq t = last_seq (timeline_events
        (lineage_ids (native_session_runs s st) (tlq_root_run_id q)) (events_for_session s st))"
    and "tl_runs t = project_timeline_runs (native_session_runs s st)
      (collect_descendants (tlq_root_run_id q) (native_session_runs s st))"
  using assms by (auto simp: run_timeline_def Let_def timeline_page split: if_splits option.splits)

lemma run_ids_distinct:
  assumes "refs_ok st" and "bt_wf (ms_runs st)"
  shows "distinct (map rn_id (native_session_runs s st))"
proof -
  have "rn_id (snd e) = fst e" if "e \<in> set (ms_runs st)" for e
    using assms that bt_get_iff [OF assms(2), of "fst e" "snd e"] by (auto simp: refs_ok_def)
  then have "map rn_id (bt_values (ms_runs st)) = bt_keys (ms_runs st)" by simp
  then have "distinct (map rn_id (bt_values (ms_runs st)))"
    using bt_wf_distinct [OF assms(2)] by (simp only:)
  then show ?thesis unfolding native_session_runs_def by (rule distinct_map_filter)
qed

text \<open>
  The timeline of a run lists exactly the native runs of the session below it, each with its
  distance, ordered by start and id; and it holds the first events of these runs behind
  \<open>after_seq\<close>, as many as the limit allows, with the sequence of their last event.
\<close>

lemma run_timeline_exact:
  assumes "run_timeline s q st = Ok t" and "refs_ok st" and "bt_wf (ms_runs st)"
    and "\<And>d. lineage (native_session_runs s st) (tlq_root_run_id q) (tlq_root_run_id q) d \<Longrightarrow> d = 0"
  shows "x \<in> set (tl_runs t) \<longleftrightarrow> (\<exists>run\<in>set (native_session_runs s st). \<exists>d.
      lineage (native_session_runs s st) (tlq_root_run_id q) (rn_id run) d \<and> x = timeline_run d run)"
    and "sorted (map timeline_run_key (tl_runs t))"
    and "tl_events t = take (unwrap_or (tlq_limit q) run_timeline_event_default_limit)
      (after (tlq_after_seq q) (timeline_events
        (lineage_ids (native_session_runs s st) (tlq_root_run_id q)) (events_for_session s st)))"
    and "tl_latest_event_seq t = last_seq (timeline_events
        (lineage_ids (native_session_runs s st) (tlq_root_run_id q)) (events_for_session s st))"
  using run_timeline_Ok [OF assms(1)] descendant_depth_exact [OF run_ids_distinct [OF assms(2,3)] assms(4)]
  by (auto simp: project_timeline_runs_def set_map_filter)

lemma timeline_events_sorted:
  assumes "by_sequence rs"
  shows "sorted_wrt (<) (map tle_seq (timeline_events ids (filter P rs)))"
  using assms
proof (induction rs)
  case (Cons r rs)
  have "ev_sequence r < tle_seq e" if "e \<in> set (timeline_events ids (filter P rs))" for e
    using that Cons.prems
    by (auto simp: timeline_events_def set_map_filter timeline_event_from_record_def
        split: option.splits)
  with Cons show ?case
    by (auto simp: timeline_events_def List.map_filter_simps timeline_event_from_record_def
        split: option.splits)
qed (simp add: timeline_events_def List.map_filter_simps)

lemma last_is_largest: "sorted_wrt (<) (map tle_seq es) \<Longrightarrow> e \<in> set es \<Longrightarrow> tle_seq e \<le> tle_seq (last es)"
  by (induction es) (auto simp: less_imp_le)

lemma sorted_halves:
  assumes "sorted_wrt (<) (map tle_seq es)"
  shows "sorted_wrt (<) (map tle_seq (take l es))"
    and "x \<in> set (take l es) \<Longrightarrow> y \<in> set (drop l es) \<Longrightarrow> tle_seq x < tle_seq y"
proof -
  have "sorted_wrt (<) (map tle_seq (take l es) @ map tle_seq (drop l es))"
    using assms by (simp flip: map_append)
  then show "sorted_wrt (<) (map tle_seq (take l es))"
    and "x \<in> set (take l es) \<Longrightarrow> y \<in> set (drop l es) \<Longrightarrow> tle_seq x < tle_seq y"
    by (auto simp: sorted_wrt_append)
qed

lemma after_last_of_page:
  assumes ord: "sorted_wrt (<) (map tle_seq es)" and page: "take l (after n es) \<noteq> []"
  shows "after (Some (tle_seq (last (take l (after n es))))) es = drop l (after n es)"
proof -
  let ?es = "after n es" and ?m = "tle_seq (last (take l (after n es)))"
  have ord': "sorted_wrt (<) (map tle_seq ?es)"
    using ord unfolding after_def sorted_wrt_map by (rule sorted_wrt_filter)
  have "last (take l ?es) \<in> set ?es" using page last_in_set in_set_takeD by metis
  then have bound: "none_or (\<lambda>a. a < ?m) n" by (simp add: after_def)
  have "after (Some ?m) es = after (Some ?m) ?es"
    using bound unfolding after_def filter_filter by (intro filter_cong) (auto simp: none_or_def split: option.splits)
  also have "\<dots> = after (Some ?m) (take l ?es) @ after (Some ?m) (drop l ?es)"
    unfolding after_def by (metis append_take_drop_id filter_append)
  also have "after (Some ?m) (drop l ?es) = drop l ?es"
    using sorted_halves(2) [OF ord' last_in_set [OF page]]
    unfolding after_def filter_id_conv none_or_def option.case by blast
  also have "after (Some ?m) (take l ?es) = []"
    using last_is_largest [OF sorted_halves(1) [OF ord']]
    unfolding after_def filter_empty_conv none_or_def option.case by (meson leD)
  finally show ?thesis by simp
qed

text \<open>
  A client that asks again behind the last event it got continues exactly there, so pages show
  every event of the timeline once and in order.
\<close>

lemma timeline_pages_continue:
  assumes "log_ok st" and first: "run_timeline s q st = Ok t1" "tl_events t1 \<noteq> []"
    and second: "run_timeline s (q\<lparr>tlq_after_seq := Some (tle_seq (last (tl_events t1))), tlq_limit := l\<rparr>) st = Ok t2"
  shows "tl_events t1 @ tl_events t2 =
    take (unwrap_or (tlq_limit q) run_timeline_event_default_limit + unwrap_or l run_timeline_event_default_limit)
      (after (tlq_after_seq q) (timeline_events
        (lineage_ids (native_session_runs s st) (tlq_root_run_id q)) (events_for_session s st)))"
proof -
  let ?evs = "timeline_events (lineage_ids (native_session_runs s st) (tlq_root_run_id q)) (events_for_session s st)"
  have ord: "sorted_wrt (<) (map tle_seq ?evs)"
    unfolding events_for_session_def
    using timeline_events_sorted [OF log_ok_sorted [OF assms(1)]] by (simp add: store_log_def)
  note page = run_timeline_Ok(3) [OF first(1)]
  from after_last_of_page [OF ord, of "unwrap_or (tlq_limit q) run_timeline_event_default_limit" "tlq_after_seq q"]
  show ?thesis using run_timeline_Ok(3) [OF second] first(2) by (simp add: page take_add)
qed

end
