(* ===== verification/Spec2Isabelle.thy ===== *)
theory Spec2Isabelle
  imports Prelude OutputContract Wire Policy Events StoreErrors ApprovalLifecycle AgentTurns
    Projections Receipts WorkItems MemoryStore StoreLog StoreInvariants StoreHistory Scheduler
    EventHub EventDelivery Strings Claims ClaimsCorrect Patch PatchRoundtrip PatchApply PatchWriter
    Workflow AgentSink ApprovalBridge ApprovalBridgeLog AgentSession TurnLoop TurnLoopRelation TurnLoopRun TurnLoopStream TurnLoopSafety
    ActiveExecution RunBudget RunErrors ExecutionContexts ForkSnapshot RunService RunExecution
    RunOperations RunStart RunRelation ServiceRelation ServiceAnswers ServiceSafety ServiceEffects
    AppErrors AppSessions RuntimeControl RuntimeHandoff RuntimeBootstrap RuntimeControlSafety
    RuntimeControlCorrect RuntimeControlWitness Timeline
begin

text \<open>
  Taugentic: a daemon that runs coding agents for a user. This library models the parts of it that
  decide: what is stored, what is allowed, which run goes next, what an agent may do.

  The parts. A client talks to the daemon in the types of \<open>crates/ta-protocol\<close>. The daemon's run
  execution service (\<open>crates/ta-orchestrator\<close>) starts, promotes, cancels and completes runs; it
  decides with \<open>crates/ta-policy\<close>, schedules one lane per session, claims files, and commits every
  change as a transition with events to the store (\<open>crates/ta-store\<close>). A run executes an agent: the
  native one is a loop of model turns and tool calls (\<open>crates/taugentic-agent\<close>), which reports to the
  daemon through a sink, asks for approvals over a bridge and edits files by patches. Committed
  events are published by an event hub to subscribers. Sessions, principals and workspaces are the
  app service's; whether the daemon runs locally or as a background service is decided by a control
  plane of files that several processes work on. Workflows (\<open>crates/ta-workflow\<close>) and work
  items (\<open>crates/ta-work-source\<close>) are read from outside.

  Theories and code. A definition carries the name of the function it models; its theory names
  the file.
  \<^item> \<open>Prelude\<close>, \<open>Strings\<close>: results as sums, maps with ordered keys, numbers in decimal, trimming.
  \<^item> \<open>Wire\<close>, \<open>OutputContract\<close>: the types of the protocol and their checked constructors.
  \<^item> \<open>Policy\<close>: every decision function of \<open>ta-policy\<close>.
  \<^item> \<open>Events\<close>, \<open>StoreErrors\<close>, \<open>ApprovalLifecycle\<close>, \<open>AgentTurns\<close>, \<open>Projections\<close>, \<open>Receipts\<close>,
    \<open>WorkItems\<close>, \<open>MemoryStore\<close>: \<open>ta-store\<close>, the in-memory store; the state is the record
    \<open>memory_store\<close>, an operation maps a store to a store and a result.
  \<^item> \<open>StoreLog\<close>, \<open>StoreInvariants\<close>, \<open>StoreHistory\<close>: what the store keeps over all its operations.
  \<^item> \<open>Scheduler\<close>, \<open>Claims\<close>, \<open>ClaimsCorrect\<close>, \<open>EventHub\<close>, \<open>EventDelivery\<close>: \<open>orchestration/scheduler.rs\<close>,
    \<open>workspace/claims.rs\<close>, \<open>host/event_hub\<close>.
  \<^item> \<open>ActiveExecution\<close>, \<open>RunBudget\<close>, \<open>RunErrors\<close>, \<open>ExecutionContexts\<close>, \<open>ForkSnapshot\<close>, \<open>RunService\<close>,
    \<open>RunExecution\<close>, \<open>RunOperations\<close>, \<open>RunStart\<close>: \<open>orchestration/service\<close> and
    \<open>orchestration/run_execution\<close>; the state is the record \<open>service\<close> (store, live executions,
    scheduler, claims, resources), a request of the service is a \<open>service_request\<close>, answered by \<open>serve\<close>.
  \<^item> \<open>RunRelation\<close>, \<open>ServiceRelation\<close>, \<open>ServiceAnswers\<close>, \<open>ServiceSafety\<close>, \<open>ServiceEffects\<close>: what the
    service keeps of the store, that it returns, and what its requests do.
  \<^item> \<open>Patch\<close>, \<open>PatchRoundtrip\<close>, \<open>PatchApply\<close>, \<open>PatchWriter\<close>: the patch language of the agent.
  \<^item> \<open>AgentSink\<close>, \<open>AgentSession\<close>, \<open>ApprovalBridge\<close>, \<open>ApprovalBridgeLog\<close>, \<open>TurnLoop\<close> and its companions
    \<open>TurnLoopRelation\<close>, \<open>TurnLoopRun\<close>, \<open>TurnLoopStream\<close>, \<open>TurnLoopSafety\<close>: the native agent.
  \<^item> \<open>AppErrors\<close>, \<open>AppSessions\<close>: \<open>orchestration/app\<close>, its errors, sessions, principals and workspaces.
  \<^item> \<open>Timeline\<close>: \<open>orchestration/app/timeline.rs\<close>, the runs below a run and the pages of their events.
  \<^item> \<open>RuntimeControl\<close>, \<open>RuntimeHandoff\<close>, \<open>RuntimeBootstrap\<close>: \<open>daemon_control\<close>; the state is the record
    \<open>control_world\<close> (the control files, and what has been started, stopped and signalled), an operation
    maps it to one of its successors and a result, and takes each answer of the machine from a \<open>control_env\<close>.
  \<^item> \<open>RuntimeControlSafety\<close>, \<open>RuntimeControlCorrect\<close>, \<open>RuntimeControlWitness\<close>: what the control plane keeps
    over all its operations, and its properties.
  \<^item> \<open>Workflow\<close>: validation and reloading of workflow definitions.

  What the lemmas show. The store: an invariant of all reachable stores, transitions committed as
  a whole except for one case (a finding), an append-only log whose readers miss nothing,
  projections that agree with the log, receipts that only move forward. Approvals: the fold of
  the log refines an automaton per approval, and validation accepts exactly what that automaton
  allows. Scheduling: each session's lane refines a FIFO queue and never stalls. Delivery: a
  subscriber that resumes gets every event once. The service: all its requests, with other
  threads doing anything to the store that the store's own operations do, keep the invariant of
  the store, never leave a terminal status, and return; budgets charge the whole tree of a run,
  a cancellation that is answered has settled the run, its native children and its approvals, children never get more authority
  than their parents, completions obey the output contract, and calls of an agent that is late
  change nothing. The agent: its turns are limited and its loop ends well only with a completion, its stream is accepted by the store's projection, only
  permitted tools run, its approval bridge agrees with the daemon's log. Patches: printing and
  parsing are inverse, updates rewrite exactly the hunks, only accepted paths are touched. Sessions: a
  secret is refused once its successor has been used, and a workspace is trusted only on the user's
  word. The timeline: it shows exactly the descendants of a run with their depths, and its pages
  continue each other. The control plane: its state stays consistent whatever fails, a helper whose transition is
  gone does nothing, a lock whose holder lives excludes, and a reset recovers.

  Interfaces are locales: \<open>event_log\<close> (what readers need of a log), \<open>store_relation\<close> (what a
  relation on stores must be closed under for every request of the service to keep it; interpreted
  with the steps of the store and with the outcomes of runs), \<open>control_relation\<close> and \<open>acting_relation\<close>
  (the same for the operations of the control plane), and the relation of the turn loop's
  states in \<open>TurnLoopRelation\<close>.

  Bounds and fuel. A loop of the code that is bounded by its data is a terminating function. The
  loop of \<open>advance_ready_queue\<close> has fuel: every round promotes a waiting run, so one more than the
  waiting runs of the session is enough (\<open>every_request_returns\<close>). The cascade of cancellations has
  fuel 66, two more than the code's own limit of 64 runs. The wait for a handle is bounded by how
  often the thread wakes before its deadline, a number of the environment. The waits of the control
  plane are terminating functions: every round sleeps, so the deadline bounds the rounds. Numbers of the code
  with a width are natural numbers with the saturation or wrap-around of the operation written
  out (\<open>sat_add\<close>, \<open>wrap_add\<close>), or words.

  Surroundings. Time, random identifiers, SHA-256, JSON and YAML decoding, git, the file system,
  model providers and the agents' handles are arguments or fields of an environment. Threads that
  share the state behind a lock are modelled by what they may do to it before each locked section.

  Simplifications. The stream of a model is a finite list and a tool is a total function, so that the turn
  loop returns is not a claim. A batch of parallel tool calls is run in order and stops at the first failure. An approval
  nobody answers counts as the cancellation that ends the wait. A request on the approval bridge is one
  step, though the code holds its lock for the insertion only. An operation of the control plane is one step of
  \<open>control_step\<close>; that is exact for what is done under the mutation lock (\<open>locked_step\<close>), while a helper that fails
  to stop the background service rewrites the state without it (a finding). Looking at a lock file and removing it is
  one step, so two processes that remove the same stale lock do not meet. A state file that does not parse is an
  answer of the environment at the moment it is read. A helper process is its command and the variables it is given.

  Not modelled. SQL and the database; HTTP, sockets and JSON-RPC framing; sandboxes and
  terminals; configuration files; the service managers of the platforms; the RPC surface that decodes requests and calls the modelled
  services; the desktop application; serde's encodings, which are the work of a library.
\<close>

end
